(* ===== verification/X64_Prelude.thy ===== *)
theory X64_Prelude
  imports Main "HOL-Library.Word"
begin

text \<open>
  Shared vocabulary of the development: the machine integer types of
  \<^verbatim>\<open>emulator/include/utils.h\<close>, the ways an operation of the emulator can fail, and the
  generic lemmas on words and lists that the component theories use.

  Failures. \<^verbatim>\<open>verify(cond)\<close> of \<^verbatim>\<open>emulator/include/verify.h\<close> throws a
  \<^verbatim>\<open>VerificationException\<close>: the model returns \<open>Inl VerifyFailed\<close>. A failing
  \<^verbatim>\<open>assert\<close> is \<open>Inl AssertFailed\<close>, and an expression that has no meaning in C++17 (a shift by at
  least the width of its promoted operand, an array index out of range, a signed overflow,
  a null dereference) is \<open>Inl\<close> of the matching constructor, so that no theorem can
  rest on what a compiler happens to do with it.
\<close>

unbundle bit_operations_syntax

section \<open>Machine integers\<close>

type_synonym u8 = "8 word"
type_synonym u16 = "16 word"
type_synonym u32 = "32 word"
type_synonym u64 = "64 word"

text \<open>The structure \<^verbatim>\<open>u128\<close> of utils.h: two 64-bit halves.\<close>

record u128 =
  lo :: u64
  hi :: u64

abbreviation mk_u128 :: "u64 \<Rightarrow> u64 \<Rightarrow> u128" where
  "mk_u128 l h \<equiv> \<lparr>lo = l, hi = h\<rparr>"

section \<open>Failures as values\<close>

datatype cpp_error =
    VerifyFailed
  | AssertFailed
  | ShiftOutOfRange
  | IndexOutOfRange
  | SignedOverflow
  | DivisionByZero
  | NullPointer
  | DanglingPointer

type_synonym 'a result = "cpp_error + 'a"

definition rbind :: "'a result \<Rightarrow> ('a \<Rightarrow> 'b result) \<Rightarrow> 'b result" where
  "rbind m f = (case m of Inl e \<Rightarrow> Inl e | Inr x \<Rightarrow> f x)"

definition verify :: "bool \<Rightarrow> unit result" where
  "verify c = (if c then Inr () else Inl VerifyFailed)"

lemma rbind_simps [simp]:
  "rbind (Inl e) f = Inl e"
  "rbind (Inr x) f = f x"
  by (simp_all add: rbind_def)

lemma rbind_eq_Inr: "rbind m f = Inr y \<longleftrightarrow> (\<exists>x. m = Inr x \<and> f x = Inr y)"
  by (cases m) auto

lemma verify_eq_Inr [simp]: "verify c = Inr u \<longleftrightarrow> c"
  by (simp add: verify_def)

lemma verify_True [simp]: "verify True = Inr ()" "verify False = Inl VerifyFailed"
  by (simp_all add: verify_def)

text \<open>
  \<open>outcome P Q res\<close>: a failure satisfies \<open>P\<close>, a value \<open>Q\<close>. The rules follow the sequencing of
  the code, so that the effect of an operation is composed from those of its steps.
\<close>

definition outcome :: "(cpp_error \<Rightarrow> bool) \<Rightarrow> ('a \<Rightarrow> bool) \<Rightarrow> 'a result \<Rightarrow> bool" where
  "outcome P Q res = (case res of Inl e \<Rightarrow> P e | Inr x \<Rightarrow> Q x)"

lemma outcome_simps [simp]:
  "outcome P Q (Inl e) = P e"
  "outcome P Q (Inr x) = Q x"
  by (simp_all add: outcome_def)

lemma outcome_rbind:
  "outcome P Q res \<Longrightarrow> (\<And>x. Q x \<Longrightarrow> outcome P R (f x)) \<Longrightarrow> outcome P R (rbind res f)"
  by (cases res) simp_all

lemma outcome_mono:
  "outcome P Q res \<Longrightarrow> (\<And>e. P e \<Longrightarrow> P' e) \<Longrightarrow> (\<And>x. Q x \<Longrightarrow> Q' x) \<Longrightarrow> outcome P' Q' res"
  by (cases res) simp_all

lemma outcome_verify: "outcome P Q (verify c) \<longleftrightarrow> (if c then Q () else P VerifyFailed)"
  by (simp add: verify_def)

section \<open>Words read as numbers\<close>

named_theorems word_nat_simps \<open>comparisons and arithmetic of words as facts on nat\<close>

lemmas [word_nat_simps] = word_le_nat_alt word_less_nat_alt

lemma unat_add_no_wrap:
  "unat a + unat b < 2 ^ LENGTH('a) \<Longrightarrow> unat (a + b) = unat a + unat (b :: 'a::len word)"
  by (simp add: unat_word_ariths)

lemma unat_sub_no_wrap:
  "unat b \<le> unat a \<Longrightarrow> unat (a - b) = unat a - unat (b :: 'a::len word)"
  by (simp add: unat_sub word_le_nat_alt)

lemma unat_lt_2p [simp]: "unat (x :: 'a::len word) < 2 ^ LENGTH('a)"
  by (rule unsigned_less)

lemma unat_u64_lt: "unat (x :: u64) < 18446744073709551616"
  using unat_lt_2p [of x] by simp

lemma word_eq_iff_unat: "a = b \<longleftrightarrow> unat a = unat (b :: 'a::len word)"
  by (simp add: word_unat_eq_iff)

section \<open>Counting bits\<close>

definition popcount :: "'a::len word \<Rightarrow> nat" where
  "popcount v = length (filter (bit v) [0..<LENGTH('a)])"

lemma popcount_card: "popcount (v :: 'a::len word) = card {i. bit v i}"
proof -
  have "{i. bit v i} = set (filter (bit v) [0..<LENGTH('a)])"
    by (auto dest: bit_imp_le_length)
  moreover have "distinct (filter (bit v) [0..<LENGTH('a)])" by simp
  ultimately show ?thesis by (metis distinct_card popcount_def)
qed

lemma finite_nat_bits: "finite {i. bit (n::nat) i}"
proof (rule finite_subset)
  show "{i. bit n i} \<subseteq> {..<n}"
  proof
    fix i assume "i \<in> {i. bit n i}"
    then have "odd (n div 2 ^ i)" by (simp add: bit_iff_odd)
    then have "n div 2 ^ i \<noteq> 0" by (metis even_zero)
    then have "2 ^ i \<le> n" by (metis div_less not_le_imp_less)
    then have "i < n" by (rule less_le_trans [OF less_exp])
    then show "i \<in> {..<n}" by simp
  qed
qed simp

lemma card_nat_bits_double: "card {i. bit (2 * n) i} = card {i. bit (n::nat) i}"
proof -
  have "{i. bit (2 * n) i} = Suc ` {i. bit n i}"
  proof (rule set_eqI)
    fix i show "i \<in> {i. bit (2 * n) i} \<longleftrightarrow> i \<in> Suc ` {i. bit n i}"
      by (cases i) (auto simp: bit_0 bit_Suc)
  qed
  then show ?thesis by (simp add: card_image)
qed

lemma card_nat_bits_Suc_double: "card {i. bit (Suc (2 * n)) i} = Suc (card {i. bit (n::nat) i})"
proof -
  have "{i. bit (Suc (2 * n)) i} = insert 0 (Suc ` {i. bit n i})"
  proof (rule set_eqI)
    fix i show "i \<in> {i. bit (Suc (2 * n)) i} \<longleftrightarrow> i \<in> insert 0 (Suc ` {i. bit n i})"
      by (cases i) (auto simp: bit_0 bit_Suc)
  qed
  then show ?thesis by (simp add: card_image finite_nat_bits card_insert_if)
qed

text \<open>Kernighan's step: \<open>n AND (n - 1)\<close> has one bit less.\<close>

lemma card_nat_clear_lowest:
  "0 < n \<Longrightarrow> Suc (card {i. bit (n AND (n - 1)) i}) = card {i. bit (n::nat) i}"
proof (induction n rule: less_induct)
  case (less n)
  show ?case
  proof (cases "even n")
    case True
    then obtain m where m: "n = 2 * m" by blast
    with less.prems have "0 < m" by simp
    then have "n - 1 = Suc (2 * (m - 1))" using m by simp
    then have "n AND (n - 1) = 2 * (m AND (m - 1))"
      using m by (intro bit_eqI) (auto simp: bit_simps bit_0 bit_Suc gr0_conv_Suc split: nat.splits)
    moreover have "Suc (card {i. bit (m AND (m - 1)) i}) = card {i. bit m i}"
      by (rule less.IH) (use m \<open>0 < m\<close> in auto)
    ultimately show ?thesis using m by (simp add: card_nat_bits_double)
  next
    case False
    then obtain m where m: "n = Suc (2 * m)" by (metis oddE Suc_eq_plus1)
    have "n AND (n - 1) = 2 * m"
    proof (rule bit_eqI)
      fix i
      have "bit (n AND (n - 1)) i \<longleftrightarrow> bit (Suc (2 * m)) i \<and> bit (2 * m) i"
        by (simp only: bit_and_iff m diff_Suc_1)
      also have "\<dots> \<longleftrightarrow> bit (2 * m) i"
        by (cases i) (auto simp: bit_0 bit_Suc)
      finally show "bit (n AND (n - 1)) i = bit (2 * m) i" .
    qed
    with m show ?thesis by (simp add: card_nat_bits_double card_nat_bits_Suc_double)
  qed
qed

lemma bit_unat_iff: "bit (unat w) i = bit (w :: 'a::len word) i"
  by (auto simp: bit_simps dest: bit_imp_le_length)

lemma unat_minus_one_pos: "w \<noteq> 0 \<Longrightarrow> unat (w - 1) = unat (w :: 'a::len word) - 1"
  by (rule unat_minus_one)

lemma unat_and: "unat (a AND b) = unat a AND unat (b :: 'a::len word)"
  by (rule bit_eqI) (simp add: bit_unat_iff bit_simps)

lemma popcount_clear_lowest:
  assumes "v \<noteq> (0 :: 'a::len word)"
  shows "Suc (popcount (v AND (v - 1))) = popcount v"
proof -
  have bits: "{i. bit w i} = {i. bit (unat w) i}" for w :: "'a word"
    by (simp add: bit_unat_iff)
  have "0 < unat v" using assms by (simp add: unat_gt_0)
  then show ?thesis
    unfolding popcount_card bits unat_and unat_minus_one_pos [OF assms]
    by (rule card_nat_clear_lowest)
qed

lemma clear_lowest_less:
  assumes "v \<noteq> (0 :: 'a::len word)"
  shows "unat (v AND (v - 1)) < unat v"
proof -
  have "unat (v AND (v - 1)) \<le> unat (v - 1)"
    using word_and_le1 [of v "v - 1"] by (simp add: word_le_nat_alt word_and_le2)
  also have "\<dots> < unat v"
    using assms by (simp add: unat_minus_one_pos unat_gt_0)
  finally show ?thesis .
qed

lemma popcount_0 [simp]: "popcount 0 = 0"
  by (simp add: popcount_def)

section \<open>Lists\<close>

text \<open>
  \<^verbatim>\<open>std::lower_bound\<close> on a range partitioned by the predicate returns the first
  position where it fails; \<open>partition_point\<close> is that position.
\<close>

definition partition_point :: "('a \<Rightarrow> bool) \<Rightarrow> 'a list \<Rightarrow> nat" where
  "partition_point p xs = length (takeWhile p xs)"

definition insert_at :: "nat \<Rightarrow> 'a \<Rightarrow> 'a list \<Rightarrow> 'a list" where
  "insert_at n x xs = take n xs @ x # drop n xs"

lemma partition_point_le: "partition_point p xs \<le> length xs"
  by (simp add: partition_point_def length_takeWhile_le)

lemma take_partition_point: "take (partition_point p xs) xs = takeWhile p xs"
  by (metis append_eq_conv_conj partition_point_def takeWhile_dropWhile_id)

lemma drop_partition_point: "drop (partition_point p xs) xs = dropWhile p xs"
  by (simp add: partition_point_def dropWhile_eq_drop)

lemma set_insert_at [simp]: "set (insert_at n x xs) = insert x (set xs)"
proof -
  have "set (insert_at n x xs) = insert x (set (take n xs @ drop n xs))"
    by (auto simp: insert_at_def simp del: append_take_drop_id)
  then show ?thesis by simp
qed

lemma length_insert_at [simp]: "length (insert_at n x xs) = Suc (length xs)"
  by (simp add: insert_at_def)

end
