(* ===== verification/X64_Flags.thy ===== *)
theory X64_Flags
  imports X64_Prelude
begin

text \<open>
  The status flags, \<^verbatim>\<open>emulator/include/x64/flags.h\<close>. The parity flag is lazy: an
  arithmetic operation only remembers the low byte of its result (\<open>deferParity\<close>), and the first
  reader computes the parity and caches it. The fields are \<^verbatim>\<open>mutable\<close> in the
  source, so every reader of the parity flag (\<open>parity\<close>, \<open>matches\<close>, \<open>toRflags\<close>) returns the
  flags it leaves behind. The lemmas show that the laziness is unobservable, that the
  condition codes come in complementary pairs, and what survives a round trip through RFLAGS.
\<close>

section \<open>The condition codes\<close>

datatype cond =
    Cond_A | Cond_AE | Cond_B | Cond_BE | Cond_E | Cond_G | Cond_GE | Cond_L | Cond_LE
  | Cond_NB | Cond_NBE | Cond_NE | Cond_NO | Cond_NP | Cond_NS | Cond_NU
  | Cond_O | Cond_P | Cond_S | Cond_U

section \<open>The flags\<close>

record flags =
  carry :: bool
  zflag :: bool
  sflag :: bool
  overflow :: bool
  direction :: bool
  identification :: bool
  awaitingParity :: "u8 option"
  parityCache :: bool

definition flags_init :: flags where
  "flags_init =
     \<lparr>carry = False, zflag = False, sflag = False, overflow = False, direction = False,
      identification = True, awaitingParity = None, parityCache = False\<rparr>"

definition setParity :: "bool \<Rightarrow> flags \<Rightarrow> flags" where
  "setParity value f = f\<lparr>parityCache := value, awaitingParity := None\<rparr>"

definition deferParity :: "u8 \<Rightarrow> flags \<Rightarrow> flags" where
  "deferParity value f = f\<lparr>awaitingParity := Some value\<rparr>"

function computeParity_loop :: "u8 \<Rightarrow> bool \<Rightarrow> bool" where
  "computeParity_loop val par =
     (if val \<noteq> 0 then computeParity_loop (val AND (val - 1)) (\<not> par) else par)"
  by pat_completeness auto
termination
  by (relation "measure (\<lambda>(val, par). unat val)") (auto simp: clear_lowest_less)

declare computeParity_loop.simps [simp del]

definition computeParity :: "u8 \<Rightarrow> bool" where
  "computeParity val = computeParity_loop val True"

definition parity :: "flags \<Rightarrow> bool \<times> flags" where
  "parity f =
     (case awaitingParity f of
        Some v \<Rightarrow> (computeParity v, f\<lparr>parityCache := computeParity v, awaitingParity := None\<rparr>)
      | None \<Rightarrow> (parityCache f, f))"

fun matches :: "cond \<Rightarrow> flags \<Rightarrow> bool \<times> flags" where
  "matches Cond_A f = (\<not> carry f \<and> \<not> zflag f, f)"
| "matches Cond_AE f = (\<not> carry f, f)"
| "matches Cond_B f = (carry f, f)"
| "matches Cond_BE f = (carry f \<or> zflag f, f)"
| "matches Cond_E f = (zflag f, f)"
| "matches Cond_G f = (\<not> zflag f \<and> sflag f = overflow f, f)"
| "matches Cond_GE f = (sflag f = overflow f, f)"
| "matches Cond_L f = (sflag f \<noteq> overflow f, f)"
| "matches Cond_LE f = (zflag f \<or> sflag f \<noteq> overflow f, f)"
| "matches Cond_NB f = (\<not> carry f, f)"
| "matches Cond_NBE f = (\<not> carry f \<and> \<not> zflag f, f)"
| "matches Cond_NE f = (\<not> zflag f, f)"
| "matches Cond_NO f = (\<not> overflow f, f)"
| "matches Cond_NP f = (let (p, f') = parity f in (\<not> p, f'))"
| "matches Cond_NS f = (\<not> sflag f, f)"
| "matches Cond_NU f = (let (p, f') = parity f in (\<not> p, f'))"
| "matches Cond_O f = (overflow f, f)"
| "matches Cond_P f = parity f"
| "matches Cond_S f = (sflag f, f)"
| "matches Cond_U f = parity f"

section \<open>RFLAGS\<close>

definition CARRY_MASK :: u64 where "CARRY_MASK = 0x1"
definition PARITY_MASK :: u64 where "PARITY_MASK = 0x4"
definition ZERO_MASK :: u64 where "ZERO_MASK = 0x40"
definition SIGN_MASK :: u64 where "SIGN_MASK = 0x80"
definition OVERFLOW_MASK :: u64 where "OVERFLOW_MASK = 0x800"
definition IDENTIFICATION_MASK :: u64 where "IDENTIFICATION_MASK = 0x200000"

lemmas rflags_masks =
  CARRY_MASK_def PARITY_MASK_def ZERO_MASK_def SIGN_MASK_def OVERFLOW_MASK_def
  IDENTIFICATION_MASK_def

definition fromRflags :: "u64 \<Rightarrow> flags" where
  "fromRflags rflags =
     (let f0 = flags_init;
          f1 = f0\<lparr>carry := (rflags AND CARRY_MASK \<noteq> 0)\<rparr>;
          f2 = setParity (rflags AND PARITY_MASK \<noteq> 0) f1;
          f3 = f2\<lparr>zflag := (rflags AND ZERO_MASK \<noteq> 0)\<rparr>;
          f4 = f3\<lparr>sflag := (rflags AND SIGN_MASK \<noteq> 0)\<rparr>;
          f5 = f4\<lparr>overflow := (rflags AND OVERFLOW_MASK \<noteq> 0)\<rparr>
      in f5\<lparr>identification := (rflags AND IDENTIFICATION_MASK \<noteq> 0)\<rparr>)"

definition toRflags :: "flags \<Rightarrow> u64 \<times> flags" where
  "toRflags f =
     (let (p, f') = parity f
      in ((if carry f then CARRY_MASK else 0)
          OR (if p then PARITY_MASK else 0)
          OR (if zflag f then ZERO_MASK else 0)
          OR (if sflag f then SIGN_MASK else 0)
          OR (if overflow f then OVERFLOW_MASK else 0)
          OR (if identification f then IDENTIFICATION_MASK else 0), f'))"

section \<open>The laziness of the parity flag is unobservable\<close>

lemma computeParity_loop_popcount:
  "computeParity_loop v par = (par = even (popcount v))"
proof (induction v par rule: computeParity_loop.induct)
  case (1 v par)
  show ?case
  proof (cases "v = 0")
    case True
    then show ?thesis by (simp add: computeParity_loop.simps)
  next
    case False
    have "even (popcount v) = (\<not> even (popcount (v AND (v - 1))))"
      using popcount_clear_lowest [OF False] by (metis even_Suc)
    with 1 False show ?thesis
      by (cases par) (simp_all add: computeParity_loop.simps [of v])
  qed
qed

lemma computeParity_popcount: "computeParity v \<longleftrightarrow> even (popcount v)"
  by (simp add: computeParity_def computeParity_loop_popcount)

text \<open>The value of the parity flag, whether it is cached or still pending.\<close>

definition pf :: "flags \<Rightarrow> bool" where
  "pf f = (case awaitingParity f of Some v \<Rightarrow> even (popcount v) | None \<Rightarrow> parityCache f)"

lemma parity_pf: "fst (parity f) = pf f"
  by (simp add: parity_def pf_def computeParity_popcount split: option.split)

lemma pf_after_parity: "pf (snd (parity f)) = pf f"
  by (simp add: parity_def pf_def computeParity_popcount split: option.split)

lemma pf_simps [simp]:
  "pf (setParity b f) = b"
  "pf (deferParity v f) = even (popcount v)"
  by (simp_all add: pf_def setParity_def deferParity_def)

lemma parity_frame:
  "carry (snd (parity f)) = carry f" "zflag (snd (parity f)) = zflag f"
  "sflag (snd (parity f)) = sflag f" "overflow (snd (parity f)) = overflow f"
  "direction (snd (parity f)) = direction f"
  "identification (snd (parity f)) = identification f"
  by (simp_all add: parity_def split: option.split)

lemma defer_frame [simp]:
  "carry (deferParity v f) = carry f" "zflag (deferParity v f) = zflag f"
  "sflag (deferParity v f) = sflag f" "overflow (deferParity v f) = overflow f"
  "direction (deferParity v f) = direction f"
  "identification (deferParity v f) = identification f"
  by (simp_all add: deferParity_def)

lemma setParity_frame [simp]:
  "carry (setParity v f) = carry f" "zflag (setParity v f) = zflag f"
  "sflag (setParity v f) = sflag f" "overflow (setParity v f) = overflow f"
  "direction (setParity v f) = direction f"
  "identification (setParity v f) = identification f"
  by (simp_all add: setParity_def)

text \<open>Two flag values no reader of the source can tell apart.\<close>

definition same_flags :: "flags \<Rightarrow> flags \<Rightarrow> bool" where
  "same_flags f g \<longleftrightarrow>
     carry f = carry g \<and> zflag f = zflag g \<and> sflag f = sflag g \<and> overflow f = overflow g
     \<and> direction f = direction g \<and> identification f = identification g \<and> pf f = pf g"

lemma same_flags_parity: "same_flags (snd (parity f)) f"
  by (simp add: same_flags_def parity_frame pf_after_parity)

lemma fst_matches_pf:
  "fst (matches Cond_NP f) = (\<not> pf f)" "fst (matches Cond_NU f) = (\<not> pf f)"
  "fst (matches Cond_P f) = pf f" "fst (matches Cond_U f) = pf f"
  by (simp_all add: parity_pf case_prod_beta Let_def)

lemma matches_same: "same_flags f g \<Longrightarrow> fst (matches c f) = fst (matches c g)"
  by (cases c) (simp_all add: same_flags_def parity_pf case_prod_beta Let_def)

lemma matches_keeps: "same_flags (snd (matches c f)) f"
  using same_flags_parity [of f]
  by (cases c) (simp_all add: case_prod_beta Let_def same_flags_def)

fun negate_cond :: "cond \<Rightarrow> cond" where
  "negate_cond Cond_A = Cond_BE" | "negate_cond Cond_AE = Cond_B"
| "negate_cond Cond_B = Cond_AE" | "negate_cond Cond_BE = Cond_A"
| "negate_cond Cond_E = Cond_NE" | "negate_cond Cond_G = Cond_LE"
| "negate_cond Cond_GE = Cond_L" | "negate_cond Cond_L = Cond_GE"
| "negate_cond Cond_LE = Cond_G" | "negate_cond Cond_NB = Cond_B"
| "negate_cond Cond_NBE = Cond_BE" | "negate_cond Cond_NE = Cond_E"
| "negate_cond Cond_NO = Cond_O" | "negate_cond Cond_NP = Cond_P"
| "negate_cond Cond_NS = Cond_S" | "negate_cond Cond_NU = Cond_U"
| "negate_cond Cond_O = Cond_NO" | "negate_cond Cond_P = Cond_NP"
| "negate_cond Cond_S = Cond_NS" | "negate_cond Cond_U = Cond_NU"

lemma matches_negate: "fst (matches (negate_cond c) f) = (\<not> fst (matches c f))"
  by (cases c) (auto simp: case_prod_beta Let_def)

section \<open>Properties\<close>

text \<open>
  Evaluating a condition code never changes what any later condition evaluates to, although
  it may force the pending parity: after \<open>matches c\<close> the flags are observably the same. And a
  condition and its negation never agree.
\<close>

theorem matches_observes_only:
  "same_flags (snd (matches c f)) f
   \<and> fst (matches d (snd (matches c f))) = fst (matches d f)
   \<and> fst (matches (negate_cond c) f) = (\<not> fst (matches c f))"
  by (simp add: matches_keeps matches_same [OF matches_keeps] matches_negate)

lemma mask_exp:
  "CARRY_MASK = 2 ^ 0" "PARITY_MASK = 2 ^ 2" "ZERO_MASK = 2 ^ 6" "SIGN_MASK = 2 ^ 7"
  "OVERFLOW_MASK = 2 ^ 11" "IDENTIFICATION_MASK = 2 ^ 21"
  by (simp_all add: rflags_masks)

lemma mask_test:
  "(r AND CARRY_MASK \<noteq> 0) = bit r 0" "(r AND PARITY_MASK \<noteq> 0) = bit r 2"
  "(r AND ZERO_MASK \<noteq> 0) = bit r 6" "(r AND SIGN_MASK \<noteq> 0) = bit r 7"
  "(r AND OVERFLOW_MASK \<noteq> 0) = bit r 11" "(r AND IDENTIFICATION_MASK \<noteq> 0) = bit r 21"
  by (simp_all only: mask_exp and_exp_eq_0_iff_not_bit not_not)

lemma mask_bits:
  "bit CARRY_MASK n \<longleftrightarrow> n = 0" "bit PARITY_MASK n \<longleftrightarrow> n = 2" "bit ZERO_MASK n \<longleftrightarrow> n = 6"
  "bit SIGN_MASK n \<longleftrightarrow> n = 7" "bit OVERFLOW_MASK n \<longleftrightarrow> n = 11"
  "bit IDENTIFICATION_MASK n \<longleftrightarrow> n = 21"
  by (auto simp only: mask_exp bit_exp_iff possible_bit_word) auto

lemma bit_toRflags:
  "bit (fst (toRflags f)) n \<longleftrightarrow>
     n = 0 \<and> carry f \<or> n = 2 \<and> pf f \<or> n = 6 \<and> zflag f \<or> n = 7 \<and> sflag f
     \<or> n = 11 \<and> overflow f \<or> n = 21 \<and> identification f"
proof -
  have mask_if: "bit (if c then m else 0) n \<longleftrightarrow> c \<and> bit m n" for c and m :: u64
    by simp
  show ?thesis
    unfolding toRflags_def case_prod_beta Let_def fst_conv parity_pf bit_or_iff mask_if mask_bits
    by blast
qed

lemma fromRflags_fields:
  "carry (fromRflags r) = bit r 0" "pf (fromRflags r) = bit r 2"
  "zflag (fromRflags r) = bit r 6" "sflag (fromRflags r) = bit r 7"
  "overflow (fromRflags r) = bit r 11" "identification (fromRflags r) = bit r 21"
  "direction (fromRflags r) = False"
  by (simp_all add: fromRflags_def Let_def mask_test setParity_def pf_def flags_init_def)

text \<open>
  C17. \<^verbatim>\<open>pushf\<close> followed by \<^verbatim>\<open>popf\<close>: rebuilding the flags from the RFLAGS value
  keeps carry, parity, zero, sign, overflow and identification, and always clears the direction
  flag, which \<open>toRflags\<close> does not store.
\<close>

theorem rflags_roundtrip:
  "same_flags (fromRflags (fst (toRflags f))) (f\<lparr>direction := False\<rparr>)"
proof -
  have "pf (f\<lparr>direction := False\<rparr>) = pf f" by (simp add: pf_def split: option.split)
  then show ?thesis
    by (simp add: same_flags_def fromRflags_fields bit_toRflags)
qed

end
