(* ===== verification/X64_Alu.thy ===== *)
theory X64_Alu
  imports X64_Flags
begin

text \<open>
  The arithmetic operations of \<^verbatim>\<open>emulator/src/x64/cpuimpl.cpp\<close>. The C++ templates
  over an unsigned type \<^verbatim>\<open>U\<close> and its signed twin \<^verbatim>\<open>I\<close> are functions on
  \<open>'a word\<close>; the conversion to \<^verbatim>\<open>I\<close> is \<open>sint\<close>, the 128-bit intermediate type of the
  source is \<open>int\<close> (none of the sums reaches its bounds), and a conversion from it back to
  \<^verbatim>\<open>I\<close> is \<open>word_of_int\<close>. Every operation takes the flags and returns the flags it
  leaves. The lemmas compare each result and each flag with exact integer arithmetic.
\<close>

section \<open>Addition, subtraction, comparison\<close>

definition alu_add :: "'a::len word \<Rightarrow> 'a word \<Rightarrow> flags \<Rightarrow> 'a word \<times> flags" where
  "alu_add dst src f =
     (let res = dst + src;
          f1 = f\<lparr>zflag := (res = 0)\<rparr>;
          f2 = f1\<lparr>carry := (dst > (- 1) - src)\<rparr>;
          sres = sint (word_of_int (uint dst + uint src) :: 'a word);
          f3 = f2\<lparr>overflow := (sint dst \<ge> 0 \<and> sint src \<ge> 0 \<and> sres < 0)
                           \<or> (sint dst < 0 \<and> sint src < 0 \<and> sres \<ge> 0)\<rparr>;
          f4 = f3\<lparr>sflag := (sres < 0)\<rparr>
      in (res, deferParity (ucast res) f4))"

definition alu_adc :: "'a::len word \<Rightarrow> 'a word \<Rightarrow> flags \<Rightarrow> 'a word \<times> flags" where
  "alu_adc dst src f =
     (let c = (if carry f then 1 else 0) :: 'a word;
          res = dst + src + c;
          f1 = f\<lparr>zflag := (res = 0)\<rparr>;
          f2 = f1\<lparr>carry := (c = 1 \<and> src = - 1) \<or> (dst > (- 1) - (src + c))\<rparr>;
          sres = sint (word_of_int (uint dst + uint src + uint c) :: 'a word);
          f3 = f2\<lparr>overflow := (sint dst \<ge> 0 \<and> sint src \<ge> 0 \<and> sres < 0)
                           \<or> (sint dst < 0 \<and> sint src < 0 \<and> sres \<ge> 0)\<rparr>;
          f4 = f3\<lparr>sflag := (sres < 0)\<rparr>
      in (res, deferParity (ucast res) f4))"

definition alu_sub :: "'a::len word \<Rightarrow> 'a word \<Rightarrow> flags \<Rightarrow> 'a word \<times> flags" where
  "alu_sub dst src f =
     (let res = dst - src;
          f1 = f\<lparr>zflag := (res = 0)\<rparr>;
          f2 = f1\<lparr>carry := (dst < src)\<rparr>;
          sres = sint (word_of_int (uint dst - uint src) :: 'a word);
          f3 = f2\<lparr>overflow := (sint dst \<ge> 0 \<and> sint src < 0 \<and> sres < 0)
                           \<or> (sint dst < 0 \<and> sint src \<ge> 0 \<and> sres \<ge> 0)\<rparr>;
          f4 = f3\<lparr>sflag := (sres < 0)\<rparr>
      in (res, deferParity (ucast res) f4))"

text \<open>
  In \<open>sbb\<close> the comparison \<^verbatim>\<open>dst < src + c\<close> is made after the integer promotions: the sum of
  two 8-bit or 16-bit values is an \<^verbatim>\<open>int\<close> and does not wrap, the sum of two wider ones does.
\<close>

definition alu_sbb :: "'a::len word \<Rightarrow> 'a word \<Rightarrow> flags \<Rightarrow> 'a word \<times> flags" where
  "alu_sbb dst src f =
     (let c = (if carry f then 1 else 0) :: 'a word;
          res = dst - (src + c);
          f1 = f\<lparr>zflag := (res = 0)\<rparr>;
          below = (if LENGTH('a) < 32 then uint dst < uint src + uint c else dst < src + c);
          f2 = f1\<lparr>carry := (c = 1 \<and> src = - 1) \<or> below\<rparr>;
          sres = sint (word_of_int
                   (uint dst - sint (word_of_int (uint src + uint c) :: 'a word)) :: 'a word);
          f3 = f2\<lparr>overflow := (sint dst \<ge> 0 \<and> sint src < 0 \<and> sres < 0)
                           \<or> (sint dst < 0 \<and> sint src \<ge> 0 \<and> sres \<ge> 0)\<rparr>;
          f4 = f3\<lparr>sflag := (sres < 0)\<rparr>
      in (res, deferParity (ucast res) f4))"

definition alu_cmp :: "'a::len word \<Rightarrow> 'a word \<Rightarrow> flags \<Rightarrow> flags" where
  "alu_cmp src1 src2 f = snd (alu_sub src1 src2 f)"

definition alu_neg :: "'a::len word \<Rightarrow> flags \<Rightarrow> 'a word \<times> flags" where
  "alu_neg dst f = alu_sub 0 dst f"

definition alu_cmpxchg :: "'a::len word \<Rightarrow> 'a word \<Rightarrow> flags \<Rightarrow> flags" where
  "alu_cmpxchg acc dest f =
     (let f1 = alu_cmp acc dest f
      in if acc = dest then f1\<lparr>zflag := True\<rparr> else f1\<lparr>zflag := False\<rparr>)"

text \<open>
  The contract of the arithmetic operations: \<open>u\<close> and \<open>s\<close> are the exact unsigned and signed
  results; carry and overflow say whether the word holds them.
\<close>

definition exact_flags :: "int \<Rightarrow> int \<Rightarrow> 'a::len word \<Rightarrow> flags \<Rightarrow> flags \<Rightarrow> bool" where
  "exact_flags u s res f f' \<longleftrightarrow>
     res = word_of_int u
     \<and> carry f' = (uint res \<noteq> u) \<and> overflow f' = (sint res \<noteq> s)
     \<and> zflag f' = (res = 0) \<and> sflag f' = (sint res < 0)
     \<and> pf f' = even (popcount (ucast res :: u8))
     \<and> direction f' = direction f \<and> identification f' = identification f"

definition half :: "'a::len itself \<Rightarrow> int" where
  "half _ = 2 ^ (LENGTH('a) - 1)"

lemma half_pos: "1 \<le> half TYPE('a::len)"
  by (simp add: half_def)

lemma modulus_half: "(2::int) ^ LENGTH('a::len) = 2 * half TYPE('a)"
  by (simp add: half_def flip: power_Suc)

lemma sint_half:
  "sint w = (if uint w < half TYPE('a) then uint w else uint w - 2 * half TYPE('a))"
  for w :: "'a::len word"
proof -
  have "bit (uint w) (LENGTH('a) - 1) \<longleftrightarrow> \<not> uint w < half TYPE('a)"
  proof -
    have "uint w < 2 * half TYPE('a)" using uint_lt2p [of w] by (simp add: modulus_half)
    moreover have "0 \<le> uint w" by simp
    ultimately have "uint w div half TYPE('a) = (if uint w < half TYPE('a) then 0 else 1)"
      using half_pos [where 'a = 'a]
      by (auto simp: div_pos_pos_trivial intro!: int_div_pos_eq [of _ _ _ "uint w - half TYPE('a)"])
    then show ?thesis by (simp add: bit_iff_odd half_def)
  qed
  moreover have "uint w mod (2 * half TYPE('a)) = uint w"
    using uint_lt2p [of w] by (simp add: modulus_half)
  ultimately show ?thesis
    by (simp add: sint_uint signed_take_bit_eq_take_bit_minus modulus_half take_bit_eq_mod)
qed

lemma uint_of_int_half: "uint (word_of_int z :: 'a::len word) = z mod (2 * half TYPE('a))"
  by (simp add: uint_word_of_int modulus_half)

lemma uint_range_half: "0 \<le> uint w \<and> uint w < 2 * half TYPE('a)" for w :: "'a::len word"
  using uint_lt2p [of w] by (simp add: modulus_half)

lemma mod_twice:
  fixes z P :: int
  assumes "1 \<le> P"
  shows "0 \<le> z \<Longrightarrow> z < 2 * P \<Longrightarrow> z mod (2 * P) = z"
    and "2 * P \<le> z \<Longrightarrow> z < 4 * P \<Longrightarrow> z mod (2 * P) = z - 2 * P"
    and "z < 0 \<Longrightarrow> - (2 * P) \<le> z \<Longrightarrow> z mod (2 * P) = z + 2 * P"
proof -
  show "0 \<le> z \<Longrightarrow> z < 2 * P \<Longrightarrow> z mod (2 * P) = z" by simp
  show "z mod (2 * P) = z - 2 * P" if "2 * P \<le> z" "z < 4 * P"
    using that by (intro int_mod_pos_eq [of _ _ 1]) auto
  show "z mod (2 * P) = z + 2 * P" if "z < 0" "- (2 * P) \<le> z"
    using that by (intro int_mod_pos_eq [of _ _ "- 1"]) auto
qed

lemma word_of_int_plus: "word_of_int (uint a + uint b) = a + b"
  by (simp add: word_of_int_uint)

lemma word_of_int_minus: "word_of_int (uint a - uint b) = a - b"
  by (simp add: word_of_int_uint)

text \<open>The value of the \<open>P\<close>-half two's complement reading of \<open>x\<close>.\<close>

definition signed_of :: "int \<Rightarrow> int \<Rightarrow> int" where
  "signed_of P x = (if x < P then x else x - 2 * P)"

lemma sint_signed_of: "sint w = signed_of (half TYPE('a)) (uint w)" for w :: "'a::len word"
  by (simp add: sint_half signed_of_def)

lemma add_overflow_int:
  fixes P a b c :: int
  assumes "1 \<le> P" "0 \<le> a" "a < 2 * P" "0 \<le> b" "b < 2 * P" "0 \<le> c" "c \<le> 1"
    and r: "r = (a + b + c) mod (2 * P)"
  shows "(signed_of P a \<ge> 0 \<and> signed_of P b \<ge> 0 \<and> signed_of P r < 0
          \<or> signed_of P a < 0 \<and> signed_of P b < 0 \<and> signed_of P r \<ge> 0)
       \<longleftrightarrow> signed_of P r \<noteq> signed_of P a + signed_of P b + c"
    and "r \<noteq> a + b + c \<longleftrightarrow> a + b + c \<ge> 2 * P"
proof -
  have "r = (if a + b + c < 2 * P then a + b + c else a + b + c - 2 * P)"
    using mod_twice [of P "a + b + c"] assms by auto
  then show "(signed_of P a \<ge> 0 \<and> signed_of P b \<ge> 0 \<and> signed_of P r < 0
          \<or> signed_of P a < 0 \<and> signed_of P b < 0 \<and> signed_of P r \<ge> 0)
       \<longleftrightarrow> signed_of P r \<noteq> signed_of P a + signed_of P b + c"
    and "r \<noteq> a + b + c \<longleftrightarrow> a + b + c \<ge> 2 * P"
    using assms(1-7) by (simp_all add: signed_of_def split: if_splits)
qed

lemma sub_overflow_int:
  fixes P a b c :: int
  assumes "1 \<le> P" "0 \<le> a" "a < 2 * P" "0 \<le> b" "b < 2 * P" "0 \<le> c" "c \<le> 1"
    and r: "r = (a - b - c) mod (2 * P)"
  shows "(signed_of P a \<ge> 0 \<and> signed_of P b < 0 \<and> signed_of P r < 0
          \<or> signed_of P a < 0 \<and> signed_of P b \<ge> 0 \<and> signed_of P r \<ge> 0)
       \<longleftrightarrow> signed_of P r \<noteq> signed_of P a - signed_of P b - c"
    and "r \<noteq> a - b - c \<longleftrightarrow> a < b + c"
proof -
  have "r = (if 0 \<le> a - b - c then a - b - c else a - b - c + 2 * P)"
    using mod_twice [of P "a - b - c"] assms by auto
  then show "(signed_of P a \<ge> 0 \<and> signed_of P b < 0 \<and> signed_of P r < 0
          \<or> signed_of P a < 0 \<and> signed_of P b \<ge> 0 \<and> signed_of P r \<ge> 0)
       \<longleftrightarrow> signed_of P r \<noteq> signed_of P a - signed_of P b - c"
    and "r \<noteq> a - b - c \<longleftrightarrow> a < b + c"
    using assms(1-7) by (simp_all add: signed_of_def split: if_splits)
qed

lemma uint_max_minus: "uint ((- 1) - w) = 2 * half TYPE('a) - 1 - uint w" for w :: "'a::len word"
proof -
  have m: "uint (- 1 :: 'a word) = 2 * half TYPE('a) - 1"
    by (simp add: unsigned_minus_1_eq_mask mask_eq_exp_minus_1 modulus_half)
  then have "uint w \<le> uint (- 1 :: 'a word)"
    using uint_range_half [of w] by simp
  with m show ?thesis using uint_sub_lem [of w "- 1"] by simp
qed

lemma carry_bound: "dst > (- 1) - src \<longleftrightarrow> uint dst + uint src \<ge> 2 * half TYPE('a)"
  for dst src :: "'a::len word"
  by (auto simp: word_less_def uint_max_minus)

lemma uint_plus_half: "uint (a + b) = (uint a + uint b) mod (2 * half TYPE('a))"
  for a b :: "'a::len word"
  by (simp add: uint_word_ariths modulus_half)

lemma uint_minus_half: "uint (a - b) = (uint a - uint b) mod (2 * half TYPE('a))"
  for a b :: "'a::len word"
  by (simp add: uint_word_ariths modulus_half)

lemma alu_add_exact:
  fixes dst src :: "'a::len word"
  shows "exact_flags (uint dst + uint src) (sint dst + sint src)
    (fst (alu_add dst src f)) f (snd (alu_add dst src f))"
proof -
  let ?P = "half TYPE('a)"
  have r: "uint (dst + src) = (uint dst + uint src + 0) mod (2 * ?P)"
    by (simp add: uint_plus_half)
  note i = add_overflow_int [OF half_pos _ _ _ _ order_refl zero_le_one r]
  note i1 = i(1) [OF conjunct1 [OF uint_range_half] conjunct2 [OF uint_range_half]
      conjunct1 [OF uint_range_half] conjunct2 [OF uint_range_half]]
  note i2 = i(2) [OF conjunct1 [OF uint_range_half] conjunct2 [OF uint_range_half]
      conjunct1 [OF uint_range_half] conjunct2 [OF uint_range_half]]
  show ?thesis
    using i1 i2
    by (simp add: exact_flags_def alu_add_def Let_def carry_bound word_of_int_plus flip: sint_signed_of)
qed

text \<open>The two borrow facts at word operands: \<open>c\<close> is the incoming carry.\<close>

lemma add_overflow_word:
  fixes dst src c :: "'a::len word"
  assumes "uint c \<le> 1"
  shows "(sint dst \<ge> 0 \<and> sint src \<ge> 0 \<and> sint (dst + src + c) < 0
          \<or> sint dst < 0 \<and> sint src < 0 \<and> sint (dst + src + c) \<ge> 0)
       \<longleftrightarrow> sint (dst + src + c) \<noteq> sint dst + sint src + uint c"
    and "uint (dst + src + c) \<noteq> uint dst + uint src + uint c
         \<longleftrightarrow> uint dst + uint src + uint c \<ge> 2 * half TYPE('a)"
proof -
  have r: "uint (dst + src + c) = (uint dst + uint src + uint c) mod (2 * half TYPE('a))"
    by (simp add: uint_plus_half mod_add_left_eq)
  note b = uint_range_half [of dst] uint_range_half [of src]
  note i = add_overflow_int [OF half_pos [where 'a = 'a], of "uint dst" "uint src" "uint c", OF _ _ _ _ _ assms r]
  show "(sint dst \<ge> 0 \<and> sint src \<ge> 0 \<and> sint (dst + src + c) < 0
          \<or> sint dst < 0 \<and> sint src < 0 \<and> sint (dst + src + c) \<ge> 0)
       \<longleftrightarrow> sint (dst + src + c) \<noteq> sint dst + sint src + uint c"
    unfolding sint_signed_of using i(1) b by simp
  show "uint (dst + src + c) \<noteq> uint dst + uint src + uint c
         \<longleftrightarrow> uint dst + uint src + uint c \<ge> 2 * half TYPE('a)"
    using i(2) b by simp
qed

lemma sub_overflow_word:
  fixes dst src c :: "'a::len word"
  assumes "uint c \<le> 1"
  shows "(sint dst \<ge> 0 \<and> sint src < 0 \<and> sint (dst - (src + c)) < 0
          \<or> sint dst < 0 \<and> sint src \<ge> 0 \<and> sint (dst - (src + c)) \<ge> 0)
       \<longleftrightarrow> sint (dst - (src + c)) \<noteq> sint dst - sint src - uint c"
    and "uint (dst - (src + c)) \<noteq> uint dst - uint src - uint c
         \<longleftrightarrow> uint dst < uint src + uint c"
proof -
  have r: "uint (dst - (src + c)) = (uint dst - uint src - uint c) mod (2 * half TYPE('a))"
    by (simp add: uint_minus_half uint_plus_half mod_diff_right_eq diff_diff_eq)
  note b = uint_range_half [of dst] uint_range_half [of src]
  note i = sub_overflow_int [OF half_pos [where 'a = 'a], of "uint dst" "uint src" "uint c", OF _ _ _ _ _ assms r]
  show "(sint dst \<ge> 0 \<and> sint src < 0 \<and> sint (dst - (src + c)) < 0
          \<or> sint dst < 0 \<and> sint src \<ge> 0 \<and> sint (dst - (src + c)) \<ge> 0)
       \<longleftrightarrow> sint (dst - (src + c)) \<noteq> sint dst - sint src - uint c"
    unfolding sint_signed_of using i(1) b by simp
  show "uint (dst - (src + c)) \<noteq> uint dst - uint src - uint c
         \<longleftrightarrow> uint dst < uint src + uint c"
    using i(2) b by simp
qed

lemma carry_in_cases:
  fixes src c :: "'a::len word"
  assumes "uint c \<le> 1"
  obtains (wraps) "c = 1" "src = - 1"
    | (plain) "\<not> (c = 1 \<and> src = - 1)" "uint (src + c) = uint src + uint c"
proof (cases "c = 1 \<and> src = - 1")
  case False
  have m: "uint (- 1 :: 'a word) = 2 * half TYPE('a) - 1"
    by (simp add: unsigned_minus_1_eq_mask mask_eq_exp_minus_1 modulus_half)
  have "uint src + uint c < 2 * half TYPE('a)"
  proof (cases "c = 1")
    case True
    with False have "uint src \<noteq> uint (- 1 :: 'a word)" by (simp add: word_uint_eq_iff)
    with m uint_range_half [of src] True assms show ?thesis by simp
  next
    case False
    then have "uint c = 0" using assms by (metis int_one_le_iff_zero_less linorder_neqE_linordered_idom order_antisym uint_1 unsigned_greater_eq word_uint_eq_iff not_le)
    with uint_range_half [of src] show ?thesis by simp
  qed
  then have "uint (src + c) = uint src + uint c"
    by (simp add: uint_plus_half)
  with False plain show ?thesis by blast
qed (use wraps in blast)

lemma alu_adc_exact:
  fixes dst src :: "'a::len word" and f :: flags
  defines "c \<equiv> of_bool (carry f)"
  shows "exact_flags (uint dst + uint src + c) (sint dst + sint src + c)
    (fst (alu_adc dst src f)) f (snd (alu_adc dst src f))"
proof -
  define w where "w = ((if carry f then 1 else 0) :: 'a word)"
  have w: "uint w = c" "uint w \<le> 1" by (simp_all add: w_def c_def)
  have "((w = 1 \<and> src = - 1) \<or> dst > (- 1) - (src + w)) \<longleftrightarrow> uint dst + uint src + c \<ge> 2 * half TYPE('a)"
  proof (rule carry_in_cases [OF w(2), of src])
    assume *: "w = 1" "src = - 1"
    have "uint (- 1 :: 'a word) = 2 * half TYPE('a) - 1"
      by (simp add: unsigned_minus_1_eq_mask mask_eq_exp_minus_1 modulus_half)
    then show ?thesis using * w uint_range_half [of dst] by auto
  next
    assume "\<not> (w = 1 \<and> src = - 1)" "uint (src + w) = uint src + uint w"
    then show ?thesis using w by (auto simp: carry_bound add.assoc)
  qed
  moreover have "word_of_int (uint dst + uint src + c) = dst + src + w"
    by (simp add: word_of_int_uint flip: w(1))
  ultimately show ?thesis
    using add_overflow_word [OF w(2), of dst src]
    by (simp add: exact_flags_def alu_adc_def Let_def w(1) flip: w_def)
qed

lemma alu_sub_exact:
  fixes dst src :: "'a::len word"
  shows "exact_flags (uint dst - uint src) (sint dst - sint src)
    (fst (alu_sub dst src f)) f (snd (alu_sub dst src f))"
  using sub_overflow_word [of 0 dst src]
  by (simp add: exact_flags_def alu_sub_def Let_def word_of_int_minus word_less_def)

lemma alu_sbb_exact:
  fixes dst src :: "'a::len word" and f :: flags
  defines "c \<equiv> of_bool (carry f)"
  shows "exact_flags (uint dst - uint src - c) (sint dst - sint src - c)
    (fst (alu_sbb dst src f)) f (snd (alu_sbb dst src f))"
proof -
  define w where "w = ((if carry f then 1 else 0) :: 'a word)"
  have w: "uint w = c" "uint w \<le> 1" by (simp_all add: w_def c_def)
  have "((w = 1 \<and> src = - 1)
      \<or> (if LENGTH('a) < 32 then uint dst < uint src + uint w else dst < src + w))
    \<longleftrightarrow> uint dst < uint src + c"
  proof (rule carry_in_cases [OF w(2), of src])
    assume *: "w = 1" "src = - 1"
    have "uint (- 1 :: 'a word) = 2 * half TYPE('a) - 1"
      by (simp add: unsigned_minus_1_eq_mask mask_eq_exp_minus_1 modulus_half)
    then show ?thesis using * w uint_range_half [of dst] by auto
  next
    assume "\<not> (w = 1 \<and> src = - 1)" "uint (src + w) = uint src + uint w"
    then show ?thesis using w by (auto simp: word_less_def)
  qed
  moreover have "word_of_int (uint dst - sint (word_of_int (uint src + c) :: 'a word)) = dst - (src + w)"
    by (simp add: word_of_int_uint flip: w(1))
  moreover have "word_of_int (uint dst - uint src - c) = dst - (src + w)"
    by (simp add: word_of_int_uint flip: w(1))
  ultimately show ?thesis
    using sub_overflow_word [OF w(2), of dst src]
    by (simp add: exact_flags_def alu_sbb_def Let_def w(1) flip: w_def)
qed

section \<open>Multiplication\<close>

text \<open>
  \<^verbatim>\<open>mul8\<close>, \<^verbatim>\<open>mul16\<close> and \<^verbatim>\<open>mul32\<close> multiply in the type of twice the width, given here as
  the first argument; \<^verbatim>\<open>mul64\<close> has no wider type and multiplies by halves.
\<close>

definition mul_widening ::
  "'w::len itself \<Rightarrow> 'a::len word \<Rightarrow> 'a word \<Rightarrow> flags \<Rightarrow> ('a word \<times> 'a word) \<times> flags" where
  "mul_widening _ src1 src2 f =
     (let prod = (ucast src1 :: 'w word) * ucast src2;
          upper = ucast (drop_bit LENGTH('a) prod);
          lower = ucast prod
      in ((upper, lower), f\<lparr>overflow := (upper \<noteq> 0), carry := (upper \<noteq> 0)\<rparr>))"

definition mul8 :: "u8 \<Rightarrow> u8 \<Rightarrow> flags \<Rightarrow> (u8 \<times> u8) \<times> flags" where
  "mul8 = mul_widening TYPE(16)"

definition mul16 :: "u16 \<Rightarrow> u16 \<Rightarrow> flags \<Rightarrow> (u16 \<times> u16) \<times> flags" where
  "mul16 = mul_widening TYPE(32)"

definition mul32 :: "u32 \<Rightarrow> u32 \<Rightarrow> flags \<Rightarrow> (u32 \<times> u32) \<times> flags" where
  "mul32 = mul_widening TYPE(64)"

definition mul64 :: "u64 \<Rightarrow> u64 \<Rightarrow> flags \<Rightarrow> (u64 \<times> u64) \<times> flags" where
  "mul64 src1 src2 f =
     (let a = ucast (ucast (drop_bit 32 src1) :: u32) :: u64;
          b = ucast (ucast src1 :: u32) :: u64;
          c = ucast (ucast (drop_bit 32 src2) :: u32) :: u64;
          d = ucast (ucast src2 :: u32) :: u64;
          ac = a * c;
          adbc = a * d + b * c;
          bd = b * d;
          adbc_carry = (a * d > (- 1) - b * c);
          lower_carry = (bd > (- 1) - push_bit 32 adbc);
          lower = bd + push_bit 32 adbc;
          upper = ac + drop_bit 32 adbc + push_bit 32 (of_bool adbc_carry) + of_bool lower_carry
      in ((upper, lower), f\<lparr>overflow := (upper \<noteq> 0), carry := (upper \<noteq> 0)\<rparr>))"

text \<open>
  \<^verbatim>\<open>imul16\<close> and \<^verbatim>\<open>imul32\<close> compute the signed product in the type of twice the width, which
  holds it; the arithmetic right shift of the product is a division that rounds down.
\<close>

definition imul_widening :: "'a::len word \<Rightarrow> 'a word \<Rightarrow> flags \<Rightarrow> ('a word \<times> 'a word) \<times> flags" where
  "imul_widening src1 src2 f =
     (let tmp = sint src1 * sint src2;
          lost = (tmp \<noteq> sint (word_of_int tmp :: 'a word))
      in ((word_of_int (tmp div 2 ^ LENGTH('a)), word_of_int tmp),
          f\<lparr>carry := lost, overflow := lost\<rparr>))"

definition imul16 :: "u16 \<Rightarrow> u16 \<Rightarrow> flags \<Rightarrow> (u16 \<times> u16) \<times> flags" where
  "imul16 = imul_widening"

definition imul32 :: "u32 \<Rightarrow> u32 \<Rightarrow> flags \<Rightarrow> (u32 \<times> u32) \<times> flags" where
  "imul32 = imul_widening"

definition imul64 :: "u64 \<Rightarrow> u64 \<Rightarrow> flags \<Rightarrow> (u64 \<times> u64) \<times> flags" where
  "imul64 src1 src2 f =
     (if src1 = 0 \<or> src2 = 0 then ((0, 0), f\<lparr>carry := False, overflow := False\<rparr>)
      else
        let s1negative = (sint src1 < 0);
            s2negative = (sint src2 < 0);
            usrc1 = (if s1negative then - src1 else src1);
            usrc2 = (if s2negative then - src2 else src2);
            (ures, f1) = mul64 usrc1 usrc2 f;
            (upper0, lower0) = ures;
            upper = (if s1negative \<noteq> s2negative then NOT upper0 + of_bool (lower0 = 0) else upper0);
            lower = (if s1negative \<noteq> s2negative then - lower0 else lower0);
            differentSignExtension =
              (sint lower < 0 \<and> upper \<noteq> - 1) \<or> (sint lower \<ge> 0 \<and> upper \<noteq> 0)
        in ((upper, lower),
            f1\<lparr>carry := differentSignExtension, overflow := differentSignExtension\<rparr>))"

section \<open>Division\<close>

text \<open>
  \<^verbatim>\<open>div8\<close>, \<^verbatim>\<open>div16\<close> and \<^verbatim>\<open>div32\<close> assert that the divisor is not zero and that the
  quotient fits; \<^verbatim>\<open>div64\<close> makes only the first check and truncates the quotient.
\<close>

definition div_widening :: "'w::len itself \<Rightarrow> 'a::len word \<Rightarrow> 'a word \<Rightarrow> 'a word \<Rightarrow> ('a word \<times> 'a word) result" where
  "div_widening _ dividendUpper dividendLower divisor =
     (if divisor = 0 then Inl AssertFailed
      else
        let dividend = push_bit LENGTH('a) (ucast dividendUpper :: 'w word) OR ucast dividendLower;
            tmp = dividend div ucast divisor
        in if drop_bit LENGTH('a) tmp \<noteq> 0 then Inl AssertFailed
           else Inr (ucast tmp, ucast (dividend mod ucast divisor)))"

definition div8 :: "u8 \<Rightarrow> u8 \<Rightarrow> u8 \<Rightarrow> (u8 \<times> u8) result" where
  "div8 = div_widening TYPE(16)"

definition div16 :: "u16 \<Rightarrow> u16 \<Rightarrow> u16 \<Rightarrow> (u16 \<times> u16) result" where
  "div16 = div_widening TYPE(32)"

definition div32 :: "u32 \<Rightarrow> u32 \<Rightarrow> u32 \<Rightarrow> (u32 \<times> u32) result" where
  "div32 = div_widening TYPE(64)"

definition div64 :: "u64 \<Rightarrow> u64 \<Rightarrow> u64 \<Rightarrow> (u64 \<times> u64) result" where
  "div64 dividendUpper dividendLower divisor =
     (if divisor = 0 then Inl AssertFailed
      else
        let dividend = push_bit 64 (ucast dividendUpper :: 128 word) OR ucast dividendLower;
            tmp = dividend div ucast divisor
        in Inr (ucast tmp, ucast (dividend mod ucast divisor)))"

section \<open>Correctness of the products\<close>

lemma uint_ucast_up:
  "LENGTH('a) \<le> LENGTH('w) \<Longrightarrow> uint (ucast (x :: 'a::len word) :: 'w::len word) = uint x"
  by (simp add: unsigned_ucast_eq take_bit_int_eq_self_iff order_less_le_trans [OF uint_lt2p])

lemma uint_drop_bit: "uint (drop_bit n w) = uint w div 2 ^ n" for w :: "'a::len word"
  by (simp only: unsigned_drop_bit_eq) (simp add: drop_bit_eq_div take_bit_eq_mod uint_lt2p)

lemma uint_ucast_down:
  "uint (ucast (x :: 'w::len word) :: 'a::len word) = uint x mod 2 ^ LENGTH('a)"
  by (simp add: unsigned_ucast_eq take_bit_eq_mod)

lemma high_low_split:
  fixes z N :: int
  assumes "0 \<le> z" "z < N * N" "0 < N"
  shows "(z div N mod N) * N + z mod N = z"
proof -
  have "z div N < N"
  proof (rule ccontr)
    assume "\<not> z div N < N"
    then have "N * N \<le> (z div N) * N" using assms by (intro mult_right_mono) auto
    also have "\<dots> \<le> z"
      using pos_mod_sign [OF \<open>0 < N\<close>, of z] div_mult_mod_eq [of z N] by linarith
    finally show False using assms by simp
  qed
  moreover have "0 \<le> z div N" using assms by (simp add: pos_imp_zdiv_nonneg_iff)
  ultimately show ?thesis by simp
qed

lemma mod_subtract_once:
  fixes x M :: int
  shows "M \<le> x \<Longrightarrow> x < 2 * M \<Longrightarrow> x mod M = x - M"
  by (intro int_mod_pos_eq [of _ _ 1]) auto

lemma mul_widening_exact:
  fixes a b :: "'a::len word"
  assumes W: "LENGTH('w::len) = 2 * LENGTH('a)"
    and r: "mul_widening TYPE('w) a b f = ((u, l), f')"
  shows "uint u * 2 ^ LENGTH('a) + uint l = uint a * uint b"
proof -
  let ?N = "(2::int) ^ LENGTH('a)"
  have N: "(2::int) ^ LENGTH('w) = ?N * ?N" using W by (simp add: mult_2 power_add)
  let ?p = "(ucast a :: 'w word) * ucast b"
  have lt: "uint a * uint b < ?N * ?N"
    by (rule mult_strict_mono) (use uint_lt2p in auto)
  have p: "uint ?p = uint a * uint b"
    using lt W by (simp add: uint_word_ariths uint_ucast_up flip: N)
  have "uint u = (uint a * uint b) div ?N mod ?N" "uint l = uint a * uint b mod ?N"
    using r by (auto simp: mul_widening_def Let_def uint_ucast_down uint_drop_bit p)
  then show ?thesis
    using high_low_split [OF _ lt] by simp
qed

text \<open>The schoolbook step of \<open>mul64\<close> over the integers, with every carry accounted for.\<close>

lemma mul64_int:
  fixes a b c d H :: int
  assumes H: "0 < H" and r: "0 \<le> a" "a < H" "0 \<le> b" "b < H" "0 \<le> c" "c < H" "0 \<le> d" "d < H"
    and s: "s = (a * d + b * c) mod (H * H)"
    and k: "k = of_bool (H * H \<le> a * d + b * c)"
    and m: "m = s * H mod (H * H)"
    and q: "q = of_bool (H * H \<le> b * d + m)"
    and l: "l = (b * d + m) mod (H * H)"
    and u: "u = a * c + s div H + k * H + q"
  shows "u * (H * H) + l = (a * H + b) * (c * H + d)"
proof -
  have bound: "x * y \<le> H * H - 1" if "0 \<le> x" "x < H" "0 \<le> y" "y < H" for x y
    using mult_strict_mono [of x H y H] that H by simp
  have sk: "a * d + b * c = k * (H * H) + s"
    using bound [of a d] bound [of b c] r
    unfolding s k by (auto simp: mod_subtract_once)
  have m': "m = (s mod H) * H" unfolding m by (simp add: mult_mod_left)
  have "m \<le> H * H - 1"
    using H unfolding m by (simp add: pos_mod_bound zle_diff1_eq)
  moreover have "0 \<le> m" unfolding m using H by simp
  ultimately have ql: "b * d + m = q * (H * H) + l"
    using bound [of b d] r
    unfolding l q by (auto simp: mod_subtract_once)
  have sd: "(s div H) * H + s mod H = s" by simp
  have "u * (H * H) + l = a * c * (H * H) + (s div H) * (H * H) + k * H * (H * H) + (q * (H * H) + l)"
    unfolding u by (simp add: algebra_simps)
  also have "\<dots> = a * c * (H * H) + ((s div H) * H + s mod H) * H + k * (H * H) * H + b * d"
    unfolding ql [symmetric] m' by (simp only: algebra_simps)
  also have "\<dots> = a * c * (H * H) + (k * (H * H) + s) * H + b * d"
    unfolding sd by (simp only: algebra_simps)
  also have "\<dots> = (a * H + b) * (c * H + d)"
    unfolding sk [symmetric] by (simp add: algebra_simps)
  finally show ?thesis .
qed

definition exact_product ::
  "'a::len word \<Rightarrow> 'a word \<Rightarrow> flags \<Rightarrow> ('a word \<times> 'a word) \<times> flags \<Rightarrow> bool" where
  "exact_product a b f r \<longleftrightarrow>
     uint (fst (fst r)) * 2 ^ LENGTH('a) + uint (snd (fst r)) = uint a * uint b
     \<and> snd r = f\<lparr>overflow := (uint a * uint b \<ge> 2 ^ LENGTH('a)),
                 carry := (uint a * uint b \<ge> 2 ^ LENGTH('a))\<rparr>"

lemma upper_nonzero:
  fixes u l :: "'a::len word"
  assumes "uint u * 2 ^ LENGTH('a) + uint l = p"
  shows "u \<noteq> 0 \<longleftrightarrow> p \<ge> 2 ^ LENGTH('a)"
proof -
  have l: "uint l < 2 ^ LENGTH('a)" by (rule uint_lt2p)
  show ?thesis
  proof (cases "u = 0")
    case True
    with assms l show ?thesis by (simp add: not_le [symmetric])
  next
    case False
    then have "uint u \<noteq> 0" by (simp add: word_uint_eq_iff)
    then have "1 \<le> uint u" using uint_ge_0 [of u] by linarith
    then have "1 * 2 ^ LENGTH('a) \<le> uint u * 2 ^ LENGTH('a)" by (intro mult_right_mono) auto
    then have "p \<ge> 2 ^ LENGTH('a)" using assms uint_ge_0 [of l] by linarith
    with False show ?thesis by simp
  qed
qed

lemma mul_widening_product:
  fixes a b :: "'a::len word"
  assumes W: "LENGTH('w::len) = 2 * LENGTH('a)"
  shows "exact_product a b f (mul_widening TYPE('w) a b f)"
proof -
  obtain u l f' where r: "mul_widening TYPE('w) a b f = ((u, l), f')"
    by (metis prod.collapse)
  have e: "uint u * 2 ^ LENGTH('a) + uint l = uint a * uint b"
    by (rule mul_widening_exact [OF W r])
  have "f' = f\<lparr>overflow := (u \<noteq> 0), carry := (u \<noteq> 0)\<rparr>"
    using r by (auto simp: mul_widening_def Let_def)
  with e r upper_nonzero [OF e] show ?thesis by (simp add: exact_product_def)
qed

lemma uint_no_wrap:
  "uint x = z mod 2 ^ LENGTH('a) \<Longrightarrow> 0 \<le> z \<Longrightarrow> z < 2 ^ LENGTH('a) \<Longrightarrow> uint (x :: 'a::len word) = z"
  by simp

lemma mul64_product: "exact_product src1 src2 f (mul64 src1 src2 f)"
proof -
  let ?H = "2 ^ 32 :: int"
  let ?M = "2 ^ 64 :: int"
  have HM: "?M = ?H * ?H" by simp
  define a where "a = (ucast (ucast (drop_bit 32 src1) :: u32) :: u64)"
  define b where "b = (ucast (ucast src1 :: u32) :: u64)"
  define c where "c = (ucast (ucast (drop_bit 32 src2) :: u32) :: u64)"
  define d where "d = (ucast (ucast src2 :: u32) :: u64)"
  have small: "x div ?H mod ?H = x div ?H" if "0 \<le> x" "x < ?M" for x :: int
    using that by simp
  have u: "uint a = uint src1 div ?H" "uint b = uint src1 mod ?H"
    "uint c = uint src2 div ?H" "uint d = uint src2 mod ?H"
    using small [OF uint_ge_0, of src1] small [OF uint_ge_0, of src2]
      uint_lt2p [of src1] uint_lt2p [of src2]
    by (simp_all add: a_def b_def c_def d_def uint_ucast_up uint_ucast_down uint_drop_bit)
  have lt: "0 \<le> uint a" "uint a < ?H" "0 \<le> uint b" "uint b < ?H"
    "0 \<le> uint c" "uint c < ?H" "0 \<le> uint d" "uint d < ?H"
    using uint_lt2p [of src1] uint_lt2p [of src2] by (simp_all add: u pos_imp_zdiv_nonneg_iff)
  have prod: "uint (x * y) = uint x * uint y"
    if "uint x < ?H" "uint y < ?H" for x y :: u64
  proof -
    have "uint x * uint y < ?M" unfolding HM using that by (intro mult_strict_mono) auto
    then show ?thesis by (simp add: uint_word_ariths)
  qed
  have prods: "uint (a * c) = uint a * uint c" "uint (a * d) = uint a * uint d"
    "uint (b * c) = uint b * uint c" "uint (b * d) = uint b * uint d"
    by (rule prod; rule lt)+
  define adbc where "adbc = a * d + b * c"
  define k where "k = (of_bool (a * d > (- 1) - b * c) :: u64)"
  define q where "q = (of_bool (b * d > (- 1) - push_bit 32 adbc) :: u64)"
  define lower where "lower = b * d + push_bit 32 adbc"
  define upper where "upper = a * c + drop_bit 32 adbc + push_bit 32 k + q"
  have r: "mul64 src1 src2 f = ((upper, lower), f\<lparr>overflow := (upper \<noteq> 0), carry := (upper \<noteq> 0)\<rparr>)"
    by (simp add: mul64_def Let_def upper_def lower_def adbc_def k_def q_def a_def b_def c_def d_def)
  have P: "2 * half TYPE(64) = ?M" by (simp add: half_def)
  have ks: "uint k = of_bool (?M \<le> uint a * uint d + uint b * uint c)"
    by (simp add: k_def carry_bound P prods)
  have qs: "uint q = of_bool (?M \<le> uint b * uint d + uint (push_bit 32 adbc))"
    by (simp add: q_def carry_bound P prods)
  have ss: "uint adbc = (uint a * uint d + uint b * uint c) mod ?M"
    by (simp add: adbc_def uint_word_ariths mod_add_eq)
  have ms: "uint (push_bit 32 adbc) = uint adbc * ?H mod ?M"
    by (simp add: push_bit_eq_mult uint_word_ariths)
  have ls: "uint lower = (uint b * uint d + uint (push_bit 32 adbc)) mod ?M"
    by (simp add: lower_def uint_word_ariths mod_add_left_eq)
  have upk: "uint (push_bit 32 k) = uint k * ?H"
    by (simp add: push_bit_eq_mult uint_word_ariths ks)
  let ?u = "uint a * uint c + uint adbc div ?H + uint k * ?H + uint q"
  have main: "?u * (?H * ?H) + uint lower = (uint a * ?H + uint b) * (uint c * ?H + uint d)"
    by (rule mul64_int [OF _ lt ss [unfolded HM] ks [unfolded HM] ms [unfolded HM]
          qs [unfolded HM] ls [unfolded HM] refl]) simp
  have full: "uint a * ?H + uint b = uint src1" "uint c * ?H + uint d = uint src2"
    by (simp_all add: u)
  have nn: "0 \<le> ?u"
    by (simp add: pos_imp_zdiv_nonneg_iff)
  have "uint src1 * uint src2 < ?M * ?M"
    using uint_lt2p [of src1] uint_lt2p [of src2] by (intro mult_strict_mono) auto
  then have "?u * ?M < ?M * ?M"
    using main uint_ge_0 [of lower] unfolding full HM [symmetric] by linarith
  then have "?u < ?M" by simp
  moreover have "uint upper = ?u mod ?M"
    by (simp add: upper_def uint_word_ariths mod_add_left_eq mod_add_right_eq upk uint_drop_bit prods)
  ultimately have "uint upper = ?u" using nn by simp
  with main have e: "uint upper * 2 ^ LENGTH(64) + uint lower = uint src1 * uint src2"
    unfolding full HM [symmetric] by simp
  from r upper_nonzero [OF e] e show ?thesis by (simp add: exact_product_def)
qed

definition exact_signed_product ::
  "'a::len word \<Rightarrow> 'a word \<Rightarrow> flags \<Rightarrow> ('a word \<times> 'a word) \<times> flags \<Rightarrow> bool" where
  "exact_signed_product a b f r \<longleftrightarrow>
     sint (fst (fst r)) * 2 ^ LENGTH('a) + uint (snd (fst r)) = sint a * sint b
     \<and> carry (snd r) = (sint (snd (fst r)) \<noteq> sint a * sint b)
     \<and> overflow (snd r) = carry (snd r)
     \<and> snd r = f\<lparr>carry := carry (snd r), overflow := overflow (snd r)\<rparr>"

lemma sint_range_half: "- half TYPE('a) \<le> sint w \<and> sint w < half TYPE('a)" for w :: "'a::len word"
proof -
  have "0 \<le> x \<Longrightarrow> x < 2 * h \<Longrightarrow> - h \<le> (if x < h then x else x - 2 * h) \<and> (if x < h then x else x - 2 * h) < h"
    for x h :: int by auto
  then show ?thesis using uint_range_half [of w] unfolding sint_half by blast
qed

lemma sint_of_int_half:
  assumes "- half TYPE('a) \<le> z" "z < half TYPE('a)"
  shows "sint (word_of_int z :: 'a::len word) = z"
proof (cases "0 \<le> z")
  case True
  then have "z mod (2 * half TYPE('a)) = z" using assms mod_twice(1) [OF half_pos [where 'a = 'a], of z] by simp
  then show ?thesis using assms True by (simp add: sint_half uint_of_int_half)
next
  case False
  then have "z mod (2 * half TYPE('a)) = z + 2 * half TYPE('a)"
    using assms mod_twice(3) [OF half_pos [where 'a = 'a], of z] by simp
  then show ?thesis using assms False by (simp add: sint_half uint_of_int_half)
qed

lemma signed_product_bound:
  fixes a b :: "'a::len word"
  shows "\<bar>sint a * sint b\<bar> \<le> half TYPE('a) * half TYPE('a)"
proof -
  have "\<bar>sint a\<bar> \<le> half TYPE('a)" "\<bar>sint b\<bar> \<le> half TYPE('a)"
    using sint_range_half [of a] sint_range_half [of b] by auto
  then show ?thesis
    unfolding abs_mult by (intro mult_mono) auto
qed

lemma imul_widening_product: "exact_signed_product a b f (imul_widening a b f)"
  for a b :: "'a::len word"
proof -
  let ?h = "half TYPE('a)" and ?t = "sint a * sint b"
  have N: "(2::int) ^ LENGTH('a) = 2 * ?h" by (rule modulus_half)
  have h: "1 \<le> ?h" by (rule half_pos)
  have b: "- (?h * ?h) \<le> ?t" "?t \<le> ?h * ?h" using signed_product_bound [of a b] by auto
  have d: "?t = (?t div (2 * ?h)) * (2 * ?h) + ?t mod (2 * ?h)"
    by (rule div_mult_mod_eq [symmetric])
  have m: "0 \<le> ?t mod (2 * ?h)" "?t mod (2 * ?h) < 2 * ?h" using h by simp_all
  have "- ?h \<le> ?t div (2 * ?h)"
  proof (rule ccontr)
    assume "\<not> - ?h \<le> ?t div (2 * ?h)"
    then have "?t div (2 * ?h) + 1 \<le> - ?h" by simp
    then have "(?t div (2 * ?h) + 1) * (2 * ?h) \<le> - ?h * (2 * ?h)"
      using h by (intro mult_right_mono) auto
    then have "?t < - ?h * (2 * ?h)" using d m unfolding distrib_right by linarith
    moreover have "- ?h * (2 * ?h) \<le> - (?h * ?h)" by simp
    ultimately show False using b by linarith
  qed
  moreover have "?t div (2 * ?h) < ?h"
  proof (rule ccontr)
    assume "\<not> ?t div (2 * ?h) < ?h"
    then have "?h * (2 * ?h) \<le> (?t div (2 * ?h)) * (2 * ?h)"
      using h by (intro mult_right_mono) auto
    then have "?h * (2 * ?h) \<le> ?t" using d m by linarith
    moreover have "?h * ?h < ?h * (2 * ?h)" using h by simp
    ultimately show False using b by linarith
  qed
  ultimately have "sint (word_of_int (?t div (2 * ?h)) :: 'a word) = ?t div (2 * ?h)"
    by (rule sint_of_int_half)
  moreover have "uint (word_of_int ?t :: 'a word) = ?t mod (2 * ?h)"
    by (rule uint_of_int_half)
  ultimately have "sint (word_of_int (?t div (2 * ?h)) :: 'a word) * (2 * ?h)
      + uint (word_of_int ?t :: 'a word) = ?t"
    by (simp only: div_mult_mod_eq)
  then show ?thesis
    unfolding exact_signed_product_def imul_widening_def Let_def N
    by (simp only: fst_conv snd_conv flags.simps) auto
qed

lemma uint_magnitude:
  "uint (if sint w < 0 then - w else w) = \<bar>sint w\<bar>" for w :: "'a::len word"
proof (cases "sint w < 0")
  case True
  then have "uint (- w) = (- uint w) mod (2 * half TYPE('a))"
    by (simp add: uint_word_ariths modulus_half)
  moreover have "uint w \<noteq> 0" using True by (metis order_less_irrefl sint_0 uint_0_iff)
  ultimately show ?thesis
    using True uint_range_half [of w] mod_twice(3) [OF half_pos [where 'a = 'a], of "- uint w"]
    by (auto simp: sint_half split: if_splits)
next
  case False
  then show ?thesis using uint_range_half [of w] by (auto simp: sint_half split: if_splits)
qed

lemma uint_uminus_if:
  "uint (- w) = (if w = 0 then 0 else 2 * half TYPE('a) - uint w)" for w :: "'a::len word"
proof -
  have "uint (- w) = (- uint w) mod (2 * half TYPE('a))"
    by (simp add: uint_word_ariths modulus_half)
  moreover have "(- uint w) mod (2 * half TYPE('a)) = 2 * half TYPE('a) - uint w" if "0 < uint w"
    using that mod_twice(3) [OF half_pos [where 'a = 'a], of "- uint w"] uint_range_half [of w]
    by linarith
  ultimately show ?thesis
    by (cases "w = 0") (simp, simp add: word_uint_eq_iff [of w] order_less_le)
qed

text \<open>Sign extension of the low half: the test \<open>imul64\<close> makes on its result.\<close>

lemma sign_extension_test:
  fixes u l :: "'a::len word"
  assumes "sint u * 2 ^ LENGTH('a) + uint l = p"
  shows "(sint l < 0 \<and> u \<noteq> - 1 \<or> sint l \<ge> 0 \<and> u \<noteq> 0) \<longleftrightarrow> sint l \<noteq> p"
proof -
  let ?h = "half TYPE('a)"
  have h: "1 \<le> ?h" by (rule half_pos)
  have i: "u = - 1 \<longleftrightarrow> sint u = - 1" "u = 0 \<longleftrightarrow> sint u = 0"
    by (simp_all add: word_eq_iff_signed [where 'a = int])
  have p: "p = sint u * (2 * ?h) + uint l" using assms by (simp add: modulus_half)
  have "sint l \<noteq> p \<longleftrightarrow> sint u \<noteq> - 1" if "sint l < 0"
  proof -
    have "sint l - p = - (sint u + 1) * (2 * ?h)"
      using that p uint_range_half [of l] by (simp add: sint_half algebra_simps split: if_splits)
    then have "sint l = p \<longleftrightarrow> (sint u + 1) * (2 * ?h) = 0" by linarith
    then show ?thesis using h by auto
  qed
  moreover have "sint l \<noteq> p \<longleftrightarrow> sint u \<noteq> 0" if "sint l \<ge> 0"
  proof -
    have "sint l - p = - (sint u) * (2 * ?h)"
      using that p uint_range_half [of l] by (simp add: sint_half algebra_simps split: if_splits)
    then have "sint l = p \<longleftrightarrow> sint u * (2 * ?h) = 0" by linarith
    then show ?thesis using h by auto
  qed
  ultimately show ?thesis using i by (cases "sint l < 0") auto
qed

lemma imul64_product: "exact_signed_product src1 src2 f (imul64 src1 src2 f)"
proof (cases "src1 = 0 \<or> src2 = 0")
  case True
  then show ?thesis by (auto simp: exact_signed_product_def imul64_def)
next
  case False
  let ?h = "half TYPE(64)"
  let ?neg = "(sint src1 < 0) \<noteq> (sint src2 < 0)"
  let ?p = "sint src1 * sint src2"
  obtain u0 l0 f1 where m: "mul64 (if sint src1 < 0 then - src1 else src1)
      (if sint src2 < 0 then - src2 else src2) f = ((u0, l0), f1)"
    by (metis prod.collapse)
  define u where "u = (if ?neg then NOT u0 + of_bool (l0 = 0) else u0)"
  define l where "l = (if ?neg then - l0 else l0)"
  have r: "fst (imul64 src1 src2 f) = (u, l)"
    "snd (imul64 src1 src2 f) = f1\<lparr>
        carry := (sint l < 0 \<and> u \<noteq> - 1 \<or> sint l \<ge> 0 \<and> u \<noteq> 0),
        overflow := (sint l < 0 \<and> u \<noteq> - 1 \<or> sint l \<ge> 0 \<and> u \<noteq> 0)\<rparr>"
    using False by (simp_all add: imul64_def Let_def m u_def l_def)
  have N: "2 * ?h = 2 ^ 64" "2 * (?h * ?h) = 2 ^ 127" by (simp_all add: half_def)
  have mag: "uint u0 * (2 * ?h) + uint l0 = \<bar>?p\<bar>" and f1: "f1 = f\<lparr>overflow := overflow f1, carry := carry f1\<rparr>"
    using mul64_product [of "if sint src1 < 0 then - src1 else src1"
        "if sint src2 < 0 then - src2 else src2" f]
    by (simp_all add: exact_product_def m uint_magnitude [of src1] uint_magnitude [of src2] N abs_mult)
  have "uint u0 * (2 * ?h) \<le> ?h * ?h"
    using mag signed_product_bound [of src1 src2] uint_ge_0 [of l0] by linarith
  then have u0: "uint u0 < ?h" by (simp add: half_def)
  have sgn: "\<bar>?p\<bar> = (if ?neg then - ?p else ?p)"
    using False by (auto simp: abs_if mult_less_0_iff not_less signed_eq_0_iff)
  have e: "sint u * (2 * ?h) + uint l = ?p"
  proof (cases ?neg)
    case True
    have "sint (NOT u0 + of_bool (l0 = 0)) = - uint u0 - 1 + of_bool (l0 = 0)"
    proof -
      have "NOT u0 + of_bool (l0 = 0) = word_of_int (- uint u0 - 1 + of_bool (l0 = 0))"
        by (simp add: not_eq_complement of_bool_def)
      moreover have "sint (word_of_int (- uint u0 - 1 + of_bool (l0 = 0)) :: u64) = - uint u0 - 1 + of_bool (l0 = 0)"
      proof (rule sint_of_int_half)
        have b: "(0::int) \<le> of_bool (l0 = 0)" "of_bool (l0 = 0) \<le> (1::int)" by simp_all
        show "- ?h \<le> - uint u0 - 1 + of_bool (l0 = 0)" using u0 b by linarith
        show "- uint u0 - 1 + of_bool (l0 = 0) < ?h"
          using b uint_ge_0 [of u0] half_pos [where 'a = 64] by linarith
      qed
      ultimately show ?thesis by (simp only:)
    qed
    then have su: "sint u = - uint u0 - 1 + of_bool (l0 = 0)" using True by (simp add: u_def)
    have lu: "uint l = (if l0 = 0 then 0 else 2 * ?h - uint l0)"
      using True by (simp add: l_def uint_uminus_if)
    have "uint u0 * (2 * ?h) + uint l0 = - ?p" using mag sgn True by simp
    then show ?thesis
      unfolding su lu by (cases "l0 = 0") (simp_all add: algebra_simps)
  next
    case False
    then show ?thesis using mag sgn u0 by (simp add: u_def l_def sint_half)
  qed
  have e': "sint u * 2 ^ LENGTH(64) + uint l = ?p" using e by (simp add: N)
  show ?thesis
    unfolding exact_signed_product_def r fst_conv snd_conv sign_extension_test [OF e']
    using e' by (subst f1) simp
qed

lemma uint_push_bit:
  "uint (push_bit n w) = (uint w * 2 ^ n) mod 2 ^ LENGTH('a)" for w :: "'a::len word"
  by (simp only: unsigned_push_bit_eq) (simp add: take_bit_eq_mod push_bit_eq_mult)

lemma uint_plus: "uint (a + b) = (uint a + uint b) mod 2 ^ LENGTH('a)" for a b :: "'a::len word"
  by (simp add: uint_word_ariths)

lemma uint_join_halves:
  fixes u l :: "'a::len word"
  assumes W: "LENGTH('w::len) = 2 * LENGTH('a)"
  shows "uint (push_bit LENGTH('a) (ucast u :: 'w word) OR ucast l) = uint u * 2 ^ LENGTH('a) + uint l"
proof -
  have "push_bit LENGTH('a) (ucast u :: 'w word) OR ucast l
      = push_bit LENGTH('a) (ucast u :: 'w word) + ucast l"
    by (rule disjunctive_add [symmetric]) (auto simp: bit_simps dest: bit_imp_le_length)
  moreover have "uint u * 2 ^ LENGTH('a) + uint l < 2 ^ LENGTH('w)"
  proof -
    have "(uint u + 1) * 2 ^ LENGTH('a) \<le> 2 ^ LENGTH('a) * 2 ^ LENGTH('a)"
      using zless_imp_add1_zle [OF uint_lt2p, of u] by (rule mult_right_mono) simp
    then have "uint u * 2 ^ LENGTH('a) + uint l < 2 ^ LENGTH('a) * 2 ^ LENGTH('a)"
      using uint_lt2p [of l] unfolding distrib_right by linarith
    then show ?thesis using W by (simp add: mult_2 power_add)
  qed
  ultimately show ?thesis
    using W by (simp add: uint_push_bit uint_plus uint_ucast_up mod_add_left_eq)
qed

lemma div_exact_int:
  fixes z d :: int
  shows "0 < d \<Longrightarrow> z = z div d * d + z mod d \<and> 0 \<le> z mod d \<and> z mod d < d"
  by simp

lemma quotient_fits:
  fixes u l d N :: int
  assumes "0 \<le> u" "0 \<le> l" "l < N" "0 < d"
  shows "(u * N + l) div d < N \<longleftrightarrow> u < d"
proof
  assume "u < d"
  then have "(u + 1) * N \<le> d * N" using assms by (intro mult_right_mono) auto
  then have "u * N + l < N * d" using assms by (simp add: algebra_simps)
  show "(u * N + l) div d < N"
  proof (rule ccontr)
    assume "\<not> (u * N + l) div d < N"
    then have "N * d \<le> (u * N + l) div d * d" using assms by (intro mult_right_mono) auto
    also have "\<dots> \<le> u * N + l" using div_exact_int [OF \<open>0 < d\<close>, of "u * N + l"] by linarith
    finally show False using \<open>u * N + l < N * d\<close> by simp
  qed
next
  assume q: "(u * N + l) div d < N"
  show "u < d"
  proof (rule ccontr)
    assume "\<not> u < d"
    then have "d * N \<le> u * N + l" using assms mult_right_mono [of d u N] by linarith
    then have "(d * N) div d \<le> (u * N + l) div d" using assms by (intro zdiv_mono1) auto
    with q assms show False by simp
  qed
qed

text \<open>
  What a division promises: it fails exactly when the divisor is zero or the quotient does not
  fit, and otherwise returns the exact quotient and remainder.
\<close>

definition exact_division :: "'a::len word \<Rightarrow> 'a word \<Rightarrow> 'a word \<Rightarrow> ('a word \<times> 'a word) result \<Rightarrow> bool" where
  "exact_division u l d r \<longleftrightarrow>
     (case r of
        Inl e \<Rightarrow> e = AssertFailed \<and> d \<le> u
      | Inr (q, m) \<Rightarrow> u < d \<and> m < d
          \<and> uint u * 2 ^ LENGTH('a) + uint l = uint q * uint d + uint m)"

lemma div_zero_iff: "0 \<le> x \<Longrightarrow> 0 < N \<Longrightarrow> x div N = 0 \<longleftrightarrow> x < N" for x N :: int
  by (auto simp: zdiv_eq_0_iff)

lemma div_widening_exact:
  fixes u l d :: "'a::len word"
  assumes W: "LENGTH('w::len) = 2 * LENGTH('a)"
  shows "exact_division u l d (div_widening TYPE('w) u l d)"
proof (cases "d = 0")
  case True
  then show ?thesis by (simp add: exact_division_def div_widening_def)
next
  case False
  then have d: "0 < uint d" by (simp add: word_uint_eq_iff [of d] order_less_le)
  let ?N = "(2::int) ^ LENGTH('a)"
  define D where "D = (push_bit LENGTH('a) (ucast u :: 'w word) OR ucast l)"
  define z where "z = uint u * ?N + uint l"
  have D: "uint D = z" unfolding D_def z_def by (rule uint_join_halves [OF W])
  have z: "0 \<le> z" by (simp add: z_def)
  have dw: "uint (ucast d :: 'w word) = uint d" using W by (simp add: uint_ucast_up)
  have q: "uint (D div ucast d) = z div uint d" "uint (D mod ucast d) = z mod uint d"
    by (simp_all add: uint_div uint_mod D dw)
  have fits: "z div uint d < ?N \<longleftrightarrow> u < d"
    unfolding z_def word_less_def by (rule quotient_fits) (use d in auto)
  have "drop_bit LENGTH('a) (D div ucast d) = 0 \<longleftrightarrow> z div uint d div ?N = 0"
    by (simp add: word_uint_eq_iff uint_drop_bit q)
  also have "\<dots> \<longleftrightarrow> u < d"
    unfolding fits [symmetric] by (rule div_zero_iff) (use z d in \<open>simp_all add: pos_imp_zdiv_nonneg_iff\<close>)
  finally have check: "drop_bit LENGTH('a) (D div ucast d) = 0 \<longleftrightarrow> u < d" .
  have m: "z mod uint d < uint d" "uint d < ?N" using d by auto
  have zm: "z mod uint d mod ?N = z mod uint d"
  proof (rule mod_pos_pos_trivial)
    show "0 \<le> z mod uint d" using d by simp
    show "z mod uint d < ?N" using m by (rule less_trans)
  qed
  have results: "uint (ucast (D div ucast d) :: 'a word) = z div uint d"
    "uint (ucast (D mod ucast d) :: 'a word) = z mod uint d" if "u < d"
    using that fits z d m by (auto simp: uint_ucast_down q zm pos_imp_zdiv_nonneg_iff)
  show ?thesis
    using False check results m
    by (auto simp: exact_division_def div_widening_def Let_def word_less_def word_le_def not_less
        simp flip: D_def z_def)
qed

lemma div64_exact_parts:
  fixes u l d :: u64
  assumes "d \<noteq> 0"
  shows "div64 u l d = Inr (word_of_int ((uint u * 2 ^ 64 + uint l) div uint d),
                            word_of_int ((uint u * 2 ^ 64 + uint l) mod uint d))"
proof -
  have D: "uint (push_bit 64 (ucast u :: 128 word) OR ucast l) = uint u * 2 ^ 64 + uint l"
    using uint_join_halves [of u l, where 'w = 128] by simp
  have dw: "uint (ucast d :: 128 word) = uint d" by (simp add: uint_ucast_up)
  have c: "(ucast w :: u64) = word_of_int (uint w)" for w :: "128 word"
    by (simp add: word_uint_eq_iff uint_ucast_down uint_word_of_int)
  have "div64 u l d = Inr
      (word_of_int (uint ((push_bit 64 (ucast u :: 128 word) OR ucast l) div ucast d)),
       word_of_int (uint ((push_bit 64 (ucast u :: 128 word) OR ucast l) mod ucast d)))"
    using assms unfolding div64_def Let_def c by (simp only: if_False)
  then show ?thesis unfolding uint_div uint_mod D dw .
qed

section \<open>Properties\<close>

text \<open>
  C19. Addition, addition with carry, subtraction and subtraction with borrow are exact at every
  width: the result is the low bits of the exact result, carry (overflow) is set exactly when the
  unsigned (signed) reading of the word is not the exact unsigned (signed) result, zero, sign
  and parity describe the word, and the direction and identification flags are untouched.
\<close>

theorem add_sub_exact:
  fixes dst src :: "'a::len word"
  shows "exact_flags (uint dst + uint src) (sint dst + sint src)
      (fst (alu_add dst src f)) f (snd (alu_add dst src f))
    \<and> exact_flags (uint dst + uint src + of_bool (carry f)) (sint dst + sint src + of_bool (carry f))
      (fst (alu_adc dst src f)) f (snd (alu_adc dst src f))
    \<and> exact_flags (uint dst - uint src) (sint dst - sint src)
      (fst (alu_sub dst src f)) f (snd (alu_sub dst src f))
    \<and> exact_flags (uint dst - uint src - of_bool (carry f)) (sint dst - sint src - of_bool (carry f))
      (fst (alu_sbb dst src f)) f (snd (alu_sbb dst src f))"
  by (intro conjI alu_add_exact alu_adc_exact alu_sub_exact alu_sbb_exact)

text \<open>
  After \<^verbatim>\<open>cmp a, b\<close> the condition codes decide the orders of the operands: the
  above/below codes the unsigned order, the greater/less codes the signed one.
\<close>

theorem cmp_decides_orders:
  fixes a b :: "'a::len word"
  shows "fst (matches Cond_B (alu_cmp a b f)) = (a < b)
    \<and> fst (matches Cond_BE (alu_cmp a b f)) = (a \<le> b)
    \<and> fst (matches Cond_A (alu_cmp a b f)) = (b < a)
    \<and> fst (matches Cond_AE (alu_cmp a b f)) = (b \<le> a)
    \<and> fst (matches Cond_E (alu_cmp a b f)) = (a = b)
    \<and> fst (matches Cond_NE (alu_cmp a b f)) = (a \<noteq> b)
    \<and> fst (matches Cond_L (alu_cmp a b f)) = (sint a < sint b)
    \<and> fst (matches Cond_LE (alu_cmp a b f)) = (sint a \<le> sint b)
    \<and> fst (matches Cond_G (alu_cmp a b f)) = (sint b < sint a)
    \<and> fst (matches Cond_GE (alu_cmp a b f)) = (sint b \<le> sint a)"
proof -
  let ?f = "alu_cmp a b f" and ?r = "a - b"
  have c: "carry ?f = (a < b)" "zflag ?f = (a = b)"
    by (simp_all add: alu_cmp_def alu_sub_def Let_def)
  have e: "overflow ?f = (sint ?r \<noteq> sint a - sint b)" "sflag ?f = (sint ?r < 0)"
    using alu_sub_exact [of a b f] by (simp_all add: exact_flags_def alu_cmp_def alu_sub_def Let_def)
  have o: "overflow ?f = (sint a \<ge> 0 \<and> sint b < 0 \<and> sint ?r < 0
                        \<or> sint a < 0 \<and> sint b \<ge> 0 \<and> sint ?r \<ge> 0)"
    by (simp add: alu_cmp_def alu_sub_def Let_def word_of_int_minus)
  have l: "(sflag ?f \<noteq> overflow ?f) = (sint a < sint b)"
    using e o by (cases "overflow ?f") auto
  have eq: "(a = b) = (sint a = sint b)" by (simp add: word_eq_iff_signed [where 'a = int])
  show ?thesis
    using l eq by (auto simp: c)
qed

text \<open>
  C20. The multiplications are exact: the two halves returned are the double-width product
  (unsigned for \<^verbatim>\<open>mul\<close>, signed for \<^verbatim>\<open>imul\<close>), although the 64-bit ones are computed from
  32-bit partial products, and carry and overflow report that the low half alone is not it.
\<close>

theorem products_exact:
  "exact_product a8 b8 f (mul8 a8 b8 f) \<and> exact_product a16 b16 f (mul16 a16 b16 f)
   \<and> exact_product a32 b32 f (mul32 a32 b32 f) \<and> exact_product a64 b64 f (mul64 a64 b64 f)
   \<and> exact_signed_product a16 b16 f (imul16 a16 b16 f)
   \<and> exact_signed_product a32 b32 f (imul32 a32 b32 f)
   \<and> exact_signed_product a64 b64 f (imul64 a64 b64 f)"
  by (simp add: mul8_def mul16_def mul32_def imul16_def imul32_def mul_widening_product
      mul64_product imul_widening_product imul64_product)

text \<open>
  C21. The 8, 16 and 32-bit divisions fail exactly on a zero divisor or a quotient that does not
  fit, and are exact otherwise; the 64-bit one checks only the divisor, and returns the quotient
  truncated to 64 bits.
\<close>

theorem divisions_exact:
  "exact_division u8 l8 d8 (div8 u8 l8 d8) \<and> exact_division u16 l16 d16 (div16 u16 l16 d16)
   \<and> exact_division u32 l32 d32 (div32 u32 l32 d32)
   \<and> (case div64 u l d of
        Inl e \<Rightarrow> e = AssertFailed \<and> d = 0
      | Inr (q, r) \<Rightarrow> d \<noteq> 0 \<and> uint q = ((uint u * 2 ^ 64 + uint l) div uint d) mod 2 ^ 64
                   \<and> uint r = (uint u * 2 ^ 64 + uint l) mod uint d)"
proof -
  have "uint (word_of_int (z mod uint d) :: u64) = z mod uint d" if "d \<noteq> 0" for z
  proof -
    have "0 < uint d" using that by (simp add: word_uint_eq_iff [of d] order_less_le)
    then have "0 \<le> z mod uint d" "z mod uint d < uint d" by simp_all
    moreover have "uint d < 2 ^ LENGTH(64)" by (rule uint_lt2p)
    ultimately show ?thesis unfolding uint_word_of_int by (intro mod_pos_pos_trivial) linarith+
  qed
  then have "case div64 u l d of
        Inl e \<Rightarrow> e = AssertFailed \<and> d = 0
      | Inr (q, r) \<Rightarrow> d \<noteq> 0 \<and> uint q = ((uint u * 2 ^ 64 + uint l) div uint d) mod 2 ^ 64
                   \<and> uint r = (uint u * 2 ^ 64 + uint l) mod uint d"
    using div64_exact_parts [of d u l]
    by (cases "d = 0") (simp_all add: div64_def uint_word_of_int)
  then show ?thesis
    by (simp add: div8_def div16_def div32_def div_widening_exact)
qed

end
