(* ===== verification/X64_Lanes.thy ===== *)
theory X64_Lanes
  imports X64_Prelude
begin

text \<open>
  The packed operations of \<^verbatim>\<open>emulator/src/x64/cpuimpl.cpp\<close> copy a 64-bit or
  128-bit value into a \<^verbatim>\<open>std::array\<close> of narrower integers with \<^verbatim>\<open>std::memcpy\<close>,
  work on the array, and copy it back. On the little-endian hosts the emulator runs on, lane
  \<open>i\<close> of the array holds the bits from \<open>i * w\<close> on. \<open>split_lanes\<close> and
  \<open>join_lanes\<close> are the two copies for one machine word, \<open>split128\<close> and \<open>join128\<close> the
  ones for the structure \<^verbatim>\<open>u128\<close>, whose low half comes first in memory.
  The locale \<open>lane_codec\<close> states what the packed operations rely on: the two copies are
  inverse to each other. It is interpreted for every array shape the code uses.
\<close>

section \<open>The two copies\<close>

definition split_lanes :: "'b::len word \<Rightarrow> 'a::len word list" where
  "split_lanes x =
     map (\<lambda>i. ucast (drop_bit (i * LENGTH('a)) x)) [0..<LENGTH('b) div LENGTH('a)]"

fun join_lanes :: "'a::len word list \<Rightarrow> 'b::len word" where
  "join_lanes [] = 0"
| "join_lanes (x # xs) = ucast x OR push_bit LENGTH('a) (join_lanes xs)"

definition split128 :: "u128 \<Rightarrow> 'a::len word list" where
  "split128 x = split_lanes (lo x) @ split_lanes (hi x)"

definition join128 :: "'a::len word list \<Rightarrow> u128" where
  "join128 xs =
     (let n = 64 div LENGTH('a)
      in mk_u128 (join_lanes (take n xs)) (join_lanes (drop n xs)))"

section \<open>One machine word\<close>

lemma length_split_lanes [simp]:
  "length (split_lanes x :: 'a::len word list) = LENGTH('b) div LENGTH('a)"
  for x :: "'b::len word"
  by (simp add: split_lanes_def)

lemma nth_split_lanes:
  "i < LENGTH('b) div LENGTH('a) \<Longrightarrow>
   (split_lanes (x::'b::len word) :: 'a::len word list) ! i = ucast (drop_bit (i * LENGTH('a)) x)"
  by (simp add: split_lanes_def)

lemma bit_join_lanes:
  "bit (join_lanes (xs :: 'a::len word list) :: 'b::len word) n \<longleftrightarrow>
     n < LENGTH('b) \<and> n div LENGTH('a) < length xs
     \<and> bit (xs ! (n div LENGTH('a))) (n mod LENGTH('a))"
proof (induction xs arbitrary: n)
  case Nil
  then show ?case by simp
next
  case (Cons x xs)
  have pos: "0 < LENGTH('a)" by simp
  show ?case
  proof (cases "n < LENGTH('a)")
    case True
    then show ?thesis
      by (auto simp: bit_simps bit_or_iff)
  next
    case False
    then have "n div LENGTH('a) = Suc ((n - LENGTH('a)) div LENGTH('a))"
      "n mod LENGTH('a) = (n - LENGTH('a)) mod LENGTH('a)"
      using pos by (simp_all add: le_div_geq le_mod_geq)
    with False show ?thesis
      by (auto simp: bit_simps bit_or_iff Cons.IH dest: bit_imp_le_length)
  qed
qed

lemma lane_index_bound:
  assumes "i < (n::nat)" "k < w"
  shows "i * w + k < n * w"
proof -
  have "i * w + k < Suc i * w" using assms(2) by simp
  also have "\<dots> \<le> n * w" using assms(1) by (intro mult_le_mono1) simp
  finally show ?thesis .
qed

lemma split_join_lanes:
  assumes "LENGTH('b) = n * LENGTH('a)" "length xs = n"
  shows "split_lanes (join_lanes (xs :: 'a::len word list) :: 'b::len word) = xs"
proof (rule nth_equalityI)
  show "length (split_lanes (join_lanes xs :: 'b word) :: 'a word list) = length xs"
    using assms by simp
  fix i assume "i < length (split_lanes (join_lanes xs :: 'b word) :: 'a word list)"
  then have i: "i < n" using assms by simp
  show "(split_lanes (join_lanes xs :: 'b word) :: 'a word list) ! i = xs ! i"
  proof (rule bit_word_eqI)
    fix k assume k: "k < LENGTH('a)"
    then show "bit ((split_lanes (join_lanes xs :: 'b word) :: 'a word list) ! i) k = bit (xs ! i) k"
      using i assms lane_index_bound [OF i k]
      by (simp add: nth_split_lanes bit_simps bit_join_lanes)
  qed
qed

lemma join_split_lanes:
  assumes "LENGTH('b) = n * LENGTH('a)"
  shows "join_lanes (split_lanes x :: 'a::len word list) = (x :: 'b::len word)"
proof (rule bit_word_eqI)
  fix k assume k: "k < LENGTH('b)"
  then have "k div LENGTH('a) < n"
    using assms by (simp add: less_mult_imp_div_less)
  moreover have "k div LENGTH('a) * LENGTH('a) + k mod LENGTH('a) = k" by simp
  ultimately show "bit (join_lanes (split_lanes x :: 'a word list) :: 'b word) k = bit x k"
    using k assms by (simp add: bit_join_lanes nth_split_lanes bit_simps)
qed

section \<open>The structure u128\<close>

lemma div_lanes: "(64::nat) = n * LENGTH('a::len) \<Longrightarrow> 64 div LENGTH('a) = n"
  by (metis len_gt_0 nonzero_mult_div_cancel_right not_gr_zero)

lemma length_split128 [simp]:
  "length (split128 x :: 'a::len word list) = 2 * (64 div LENGTH('a))"
  by (simp add: split128_def)

lemma split_join128:
  assumes "64 = n * LENGTH('a)" "length xs = 2 * n"
  shows "split128 (join128 (xs :: 'a::len word list)) = xs"
proof -
  have n: "64 div LENGTH('a) = n" by (rule div_lanes [OF assms(1)])
  show ?thesis
    using assms
    by (simp add: split128_def join128_def Let_def n split_join_lanes [where n = n])
qed

lemma join_split128:
  assumes "64 = n * LENGTH('a)"
  shows "join128 (split128 x :: 'a::len word list) = x"
proof -
  have n: "64 div LENGTH('a) = n" by (rule div_lanes [OF assms(1)])
  show ?thesis
    using assms by (simp add: split128_def join128_def Let_def n join_split_lanes [where n = n])
qed

section \<open>The interface of the packed operations\<close>

locale lane_codec =
  fixes split :: "'r \<Rightarrow> 'a::len word list"
    and join :: "'a word list \<Rightarrow> 'r"
    and lanes :: nat
  assumes length_split: "length (split x) = lanes"
    and split_join: "length xs = lanes \<Longrightarrow> split (join xs) = xs"
    and join_split: "join (split x) = x"
begin

lemma eqI:
  assumes "\<And>i. i < lanes \<Longrightarrow> split x ! i = split y ! i"
  shows "x = y"
proof -
  have "split x = split y"
    by (rule nth_equalityI) (auto simp: length_split intro: assms)
  then show ?thesis by (metis join_split)
qed

lemma split_map2:
  "split (join (map2 f (split d) (split s))) = map2 f (split d) (split s)"
  by (simp add: split_join length_split)

lemma nth_map2:
  "i < lanes \<Longrightarrow> split (join (map2 f (split d) (split s))) ! i = f (split d ! i) (split s ! i)"
  by (simp add: split_map2 length_split)

lemma nth_map:
  "i < lanes \<Longrightarrow> split (join (map f (split d))) ! i = f (split d ! i)"
  by (simp add: split_join length_split)

lemma nth_gather:
  "length xs = lanes \<Longrightarrow> i < lanes \<Longrightarrow> split (join (map f xs)) ! i = f (xs ! i)"
  by (simp add: split_join)

lemma nth_update:
  "i < lanes \<Longrightarrow> k < lanes \<Longrightarrow>
   split (join ((split d)[k := v])) ! i = (if i = k then v else split d ! i)"
  by (simp add: split_join length_split nth_list_update)

lemma map2_inverse:
  assumes "\<And>a b. g (f a b) b = a"
  shows "join (map2 g (split (join (map2 f (split d) (split s)))) (split s)) = d"
  by (rule eqI) (simp add: nth_map2 assms)

lemma map2_commute:
  assumes "\<And>a b. f a b = f b a"
  shows "join (map2 f (split d) (split s)) = join (map2 f (split s) (split d))"
  by (rule eqI) (simp add: nth_map2 assms [of "split d ! _"])

lemma map2_assoc:
  assumes "\<And>a b c. f (f a b) c = f a (f b c)"
  shows "join (map2 f (split (join (map2 f (split d) (split s)))) (split t))
       = join (map2 f (split d) (split (join (map2 f (split s) (split t)))))"
  by (rule eqI) (simp add: nth_map2 assms)

end

lemma lane_codec_word:
  assumes "LENGTH('b) = n * LENGTH('a)"
  shows "lane_codec (split_lanes :: 'b::len word \<Rightarrow> 'a::len word list) join_lanes n"
  by unfold_locales (use assms in \<open>simp_all add: split_join_lanes join_split_lanes\<close>)

lemma lane_codec_u128:
  assumes "64 = n * LENGTH('a)"
  shows "lane_codec (split128 :: u128 \<Rightarrow> 'a::len word list) join128 (2 * n)"
proof
  show "length (split128 x :: 'a word list) = 2 * n" for x
    by (simp add: div_lanes [OF assms])
qed (use assms in \<open>simp_all add: split_join128 join_split128\<close>)

interpretation b8: lane_codec "split_lanes :: u64 \<Rightarrow> u8 list" join_lanes 8
  by (rule lane_codec_word) simp
interpretation w4: lane_codec "split_lanes :: u64 \<Rightarrow> u16 list" join_lanes 4
  by (rule lane_codec_word) simp
interpretation d2: lane_codec "split_lanes :: u64 \<Rightarrow> u32 list" join_lanes 2
  by (rule lane_codec_word) simp
interpretation q1: lane_codec "split_lanes :: u64 \<Rightarrow> u64 list" join_lanes 1
  by (rule lane_codec_word) simp
interpretation b4: lane_codec "split_lanes :: u32 \<Rightarrow> u8 list" join_lanes 4
  by (rule lane_codec_word) simp
interpretation w2: lane_codec "split_lanes :: u32 \<Rightarrow> u16 list" join_lanes 2
  by (rule lane_codec_word) simp
interpretation b2: lane_codec "split_lanes :: u16 \<Rightarrow> u8 list" join_lanes 2
  by (rule lane_codec_word) simp
interpretation b16: lane_codec "split128 :: u128 \<Rightarrow> u8 list" join128 16
  using lane_codec_u128 [where 'a = 8 and n = 8] by simp
interpretation w8: lane_codec "split128 :: u128 \<Rightarrow> u16 list" join128 8
  using lane_codec_u128 [where 'a = 16 and n = 4] by simp
interpretation d4: lane_codec "split128 :: u128 \<Rightarrow> u32 list" join128 4
  using lane_codec_u128 [where 'a = 32 and n = 2] by simp
interpretation q2: lane_codec "split128 :: u128 \<Rightarrow> u64 list" join128 2
  using lane_codec_u128 [where 'a = 64 and n = 1] by simp

end
