(* ===== verification/X64_Bits.thy ===== *)
theory X64_Bits
  imports X64_Alu X64_Lanes
begin

text \<open>
  The bit operations of \<^verbatim>\<open>emulator/src/x64/cpuimpl.cpp\<close>: logic, increments, shifts,
  rotates, bit tests, scans, byte swap and population count. The C++ templates are functions on
  \<open>'a word\<close>. In C++ an operand narrower than \<^verbatim>\<open>int\<close> is promoted before a shift, so
  a shift is defined for counts below \<open>promoted_width\<close>; the operations that can leave that range, or
  fail an \<^verbatim>\<open>assert\<close>, return a \<open>result\<close>. A left shift of a promoted operand is computed
  modulo the width of the type it is converted back to, as the compilers the project supports
  do. Loop counters that cannot leave \<open>{0..64}\<close> are natural numbers.
\<close>

section \<open>Helpers\<close>

definition promoted_width :: "'a::len itself \<Rightarrow> nat" where
  "promoted_width _ = max 32 LENGTH('a)"

definition shift_left :: "'a::len word \<Rightarrow> nat \<Rightarrow> 'a word result" where
  "shift_left x n =
     (if n < promoted_width TYPE('a) then Inr (push_bit n x) else Inl ShiftOutOfRange)"

definition signBit :: "'a::len word \<Rightarrow> bool" where
  "signBit val = (val AND push_bit (LENGTH('a) - 1) 1 \<noteq> 0)"

text \<open>\<^verbatim>\<open>srcMask\<close> of the shifts: six bits of the count for 64-bit operands, five otherwise.\<close>

definition shift_count :: "'a::len word \<Rightarrow> nat" where
  "shift_count src = unat (src AND (if LENGTH('a) = 64 then 0x3f else 0x1f))"

definition rotate_count :: "'a::len itself \<Rightarrow> u8 \<Rightarrow> nat" where
  "rotate_count _ count = unat (count AND (if LENGTH('a) = 64 then 0x3f else 0x1f))"

definition result_flags :: "'a::len word \<Rightarrow> flags \<Rightarrow> flags" where
  "result_flags res f =
     deferParity (ucast res) (f\<lparr>sflag := signBit res, zflag := (res = 0)\<rparr>)"

section \<open>Logic and increments\<close>

definition alu_and :: "'a::len word \<Rightarrow> 'a word \<Rightarrow> flags \<Rightarrow> 'a word \<times> flags" where
  "alu_and dst src f =
     (let tmp = dst AND src
      in (tmp, result_flags tmp (f\<lparr>overflow := False, carry := False\<rparr>)))"

definition alu_or :: "'a::len word \<Rightarrow> 'a word \<Rightarrow> flags \<Rightarrow> 'a word \<times> flags" where
  "alu_or dst src f =
     (let tmp = dst OR src
      in (tmp, result_flags tmp (f\<lparr>overflow := False, carry := False\<rparr>)))"

definition alu_xor :: "'a::len word \<Rightarrow> 'a word \<Rightarrow> flags \<Rightarrow> 'a word \<times> flags" where
  "alu_xor dst src f =
     (let tmp = dst XOR src
      in (tmp, result_flags tmp (f\<lparr>overflow := False, carry := False\<rparr>)))"

definition alu_inc :: "'a::len word \<Rightarrow> flags \<Rightarrow> 'a word \<times> flags" where
  "alu_inc src f =
     (let f1 = f\<lparr>overflow := (src = push_bit (LENGTH('a) - 1) 1 - 1)\<rparr>;
          res = src + 1
      in (res, result_flags res f1))"

definition alu_dec :: "'a::len word \<Rightarrow> flags \<Rightarrow> 'a word \<times> flags" where
  "alu_dec src f =
     (let f1 = f\<lparr>overflow := (src = push_bit (LENGTH('a) - 1) 1)\<rparr>;
          res = src - 1
      in (res, result_flags res f1))"

definition alu_test :: "'a::len word \<Rightarrow> 'a word \<Rightarrow> flags \<Rightarrow> flags" where
  "alu_test src1 src2 f =
     (let tmp = src1 AND src2
      in result_flags tmp (f\<lparr>overflow := False, carry := False\<rparr>))"

section \<open>Shifts\<close>

definition shl :: "'a::len word \<Rightarrow> 'a word \<Rightarrow> flags \<Rightarrow> ('a word \<times> flags) result" where
  "shl dst src f =
     (let n = shift_count src
      in rbind (shift_left dst n) (\<lambda>res.
         if n \<noteq> 0 then
           (if n \<le> LENGTH('a) then
              let f1 = f\<lparr>carry := (dst AND push_bit (LENGTH('a) - n) 1 \<noteq> 0)\<rparr>;
                  f2 = (if n = 1 then f1\<lparr>overflow := (signBit res \<noteq> carry f1)\<rparr> else f1)
              in Inr (res, result_flags res f2)
            else Inl ShiftOutOfRange)
         else Inr (res, f)))"

text \<open>
  In \<open>shr\<close> the mask \<^verbatim>\<open>1 << (src-1)\<close> is an \<^verbatim>\<open>int\<close> for the narrow types and may lie beyond
  the operand; \<open>bit\<close> is then False, as the masked value is zero.
\<close>

definition shr :: "'a::len word \<Rightarrow> 'a word \<Rightarrow> flags \<Rightarrow> 'a word \<times> flags" where
  "shr dst src f =
     (let n = shift_count src;
          res = drop_bit n dst
      in if n \<noteq> 0 then
           let f1 = f\<lparr>carry := bit dst (n - 1)\<rparr>;
               f2 = (if n = 1 then f1\<lparr>overflow := signBit dst\<rparr> else f1)
           in (res, result_flags res f2)
         else (res, f))"

definition sar :: "'a::len word \<Rightarrow> 'a word \<Rightarrow> flags \<Rightarrow> ('a word \<times> flags) result" where
  "sar dst src f =
     (let n = shift_count src
      in if \<not> n < LENGTH('a) then Inl AssertFailed
         else
           let res = signed_drop_bit n dst;
               f1 = (if n = 1 then f\<lparr>overflow := False\<rparr> else f)
           in Inr (res, if n \<noteq> 0
                        then result_flags res (f1\<lparr>carry := bit dst (n - 1)\<rparr>)
                        else f1))"

text \<open>
  The double shifts are instantiated at 32 and 64 bits only. The carry of \<open>shld\<close> is computed as
  \<^verbatim>\<open>dst & (size-count)\<close> and that of \<open>shrd\<close> as \<^verbatim>\<open>dst & (count-1)\<close>.
\<close>

definition shld :: "'a::len word \<Rightarrow> 'a word \<Rightarrow> u8 \<Rightarrow> flags \<Rightarrow> 'a word \<times> flags" where
  "shld dst src cnt f =
     (let size = LENGTH('a);
          n = unat cnt mod size
      in if n = 0 then (dst, f)
         else
           let res = push_bit n dst OR drop_bit (size - n) src;
               f1 = result_flags res (f\<lparr>carry := (dst AND word_of_nat (size - n) \<noteq> 0)\<rparr>);
               f2 = (if n = 1 then f1\<lparr>overflow := (signBit dst \<noteq> signBit res)\<rparr> else f1)
           in (res, f2))"

definition shrd :: "'a::len word \<Rightarrow> 'a word \<Rightarrow> u8 \<Rightarrow> flags \<Rightarrow> 'a word \<times> flags" where
  "shrd dst src cnt f =
     (let size = LENGTH('a);
          n = unat cnt mod size
      in if n = 0 then (dst, f)
         else
           let res = drop_bit n dst OR push_bit (size - n) src;
               f1 = result_flags res (f\<lparr>carry := (dst AND word_of_nat (n - 1) \<noteq> 0)\<rparr>);
               f2 = (if n = 1 then f1\<lparr>overflow := (signBit dst \<noteq> signBit res)\<rparr> else f1)
           in (res, f2))"

section \<open>Rotates\<close>

fun rcl_loop :: "nat \<Rightarrow> 'a::len word \<Rightarrow> bool \<Rightarrow> 'a word \<times> bool" where
  "rcl_loop 0 res cf = (res, cf)"
| "rcl_loop (Suc n) res cf = rcl_loop n (2 * res + of_bool cf) (signBit res)"

definition rcl :: "'a::len word \<Rightarrow> u8 \<Rightarrow> flags \<Rightarrow> 'a word \<times> flags" where
  "rcl val cnt f =
     (let tmpcount = rotate_count TYPE('a) cnt mod (LENGTH('a) + 1);
          (res, cf) = rcl_loop tmpcount val (carry f);
          f1 = f\<lparr>carry := cf\<rparr>
      in (res, if cnt = 1 then f1\<lparr>overflow := (signBit res \<noteq> carry f1)\<rparr> else f1))"

fun rcr_loop :: "nat \<Rightarrow> 'a::len word \<Rightarrow> bool \<Rightarrow> 'a word \<times> bool" where
  "rcr_loop 0 res cf = (res, cf)"
| "rcr_loop (Suc n) res cf =
     rcr_loop n (res div 2 OR push_bit (LENGTH('a) - 1) (of_bool cf)) (res AND 1 \<noteq> (0 :: 'a word))"

text \<open>
  The overflow of \<open>rcr\<close> exclusive-ors the masked value, not its truth value, with the
  carry, so it is set as soon as one of them is.
\<close>

definition rcr :: "'a::len word \<Rightarrow> u8 \<Rightarrow> flags \<Rightarrow> 'a word \<times> flags" where
  "rcr val cnt f =
     (let f1 = (if cnt = 1
                then f\<lparr>overflow :=
                       (uint (val AND push_bit (LENGTH('a) - 1) 1) XOR of_bool (carry f) \<noteq> (0::int))\<rparr>
                else f);
          tmpcount = rotate_count TYPE('a) cnt mod (LENGTH('a) + 1);
          (res, cf) = rcr_loop tmpcount val (carry f1)
      in (res, f1\<lparr>carry := cf\<rparr>))"

definition rol :: "'a::len word \<Rightarrow> u8 \<Rightarrow> flags \<Rightarrow> 'a word \<times> flags" where
  "rol val cnt f =
     (let n = rotate_count TYPE('a) cnt mod LENGTH('a);
          res = (if n \<noteq> 0 then push_bit n val OR drop_bit (LENGTH('a) - n) val else val);
          f1 = (if n \<noteq> 0 then f\<lparr>carry := (res AND 1 \<noteq> 0)\<rparr> else f);
          f2 = (if n = 1 then f1\<lparr>overflow := (signBit res \<noteq> carry f1)\<rparr> else f1)
      in (res, f2))"

definition ror :: "'a::len word \<Rightarrow> u8 \<Rightarrow> flags \<Rightarrow> ('a word \<times> flags) result" where
  "ror val cnt f =
     (let n = rotate_count TYPE('a) cnt mod LENGTH('a)
      in rbind (shift_left val (LENGTH('a) - n)) (\<lambda>high.
         let res = drop_bit n val OR high;
             f1 = (if n \<noteq> 0 then f\<lparr>carry := signBit res\<rparr> else f);
             f2 = (if n = 1
                   then f1\<lparr>overflow := (signBit res \<noteq> (drop_bit (LENGTH('a) - 2) res AND 1 \<noteq> 0))\<rparr>
                   else f1)
         in Inr (res, f2)))"

section \<open>Scans, byte swap, population count\<close>

function tzcnt_loop :: "'a::len word \<Rightarrow> nat \<Rightarrow> nat" where
  "tzcnt_loop src tmp =
     (if tmp < LENGTH('a) \<and> drop_bit tmp src AND 1 = 0 then tzcnt_loop src (tmp + 1) else tmp)"
  by pat_completeness auto
termination
  by (relation "measure (\<lambda>(src :: 'a word, tmp). LENGTH('a) - tmp)") auto

declare tzcnt_loop.simps [simp del]

definition tzcnt :: "'a::len word \<Rightarrow> flags \<Rightarrow> 'a word \<times> flags" where
  "tzcnt src f =
     (let res = tzcnt_loop src 0
      in (word_of_nat res, f\<lparr>carry := (res = LENGTH('a)), zflag := (res = 0)\<rparr>))"

fun bswap_loop :: "nat list \<Rightarrow> 'a::len word \<Rightarrow> 'a word \<Rightarrow> 'a word" where
  "bswap_loop [] val res = res"
| "bswap_loop (i # is) val res =
     (let byte = drop_bit (8 * i) val AND 0xff
      in bswap_loop is val (res OR push_bit (8 * (LENGTH('a) div 8 - (i + 1))) byte))"

definition bswap :: "'a::len word \<Rightarrow> 'a word" where
  "bswap val = bswap_loop [0..<LENGTH('a) div 8] val 0"

fun popcnt_loop :: "nat \<Rightarrow> 'a::len word \<Rightarrow> 'a word \<Rightarrow> 'a word" where
  "popcnt_loop 0 src res = res"
| "popcnt_loop (Suc n) src res = popcnt_loop n (drop_bit 1 src) (res + (src AND 1))"

definition popcnt :: "'a::len word \<Rightarrow> flags \<Rightarrow> 'a word \<times> flags" where
  "popcnt src f =
     (let f1 = setParity False (f\<lparr>overflow := False, sflag := False, zflag := (src = 0)\<rparr>)
      in (popcnt_loop LENGTH('a) src 0, f1\<lparr>carry := False\<rparr>))"

fun bsr_loop :: "'a::len word \<Rightarrow> nat \<Rightarrow> nat" where
  "bsr_loop val 0 = 0"
| "bsr_loop val (Suc n) = (if val AND push_bit (Suc n) 1 = 0 then bsr_loop val n else Suc n)"

definition bsr :: "'a::len word \<Rightarrow> flags \<Rightarrow> 'a word \<times> flags" where
  "bsr val f =
     (let f1 = f\<lparr>zflag := (val = 0)\<rparr>
      in (if val = 0 then - 1 else word_of_nat (bsr_loop val (LENGTH('a) - 1)), f1))"

function bsf_loop :: "'a::len word \<Rightarrow> nat \<Rightarrow> nat" where
  "bsf_loop val mssb =
     (if mssb < LENGTH('a) \<and> val AND push_bit mssb 1 = 0 then bsf_loop val (mssb + 1) else mssb)"
  by pat_completeness auto
termination
  by (relation "measure (\<lambda>(val :: 'a word, mssb). LENGTH('a) - mssb)") auto

declare bsf_loop.simps [simp del]

definition bsf :: "'a::len word \<Rightarrow> flags \<Rightarrow> 'a word \<times> flags" where
  "bsf val f =
     (let f1 = f\<lparr>zflag := (val = 0)\<rparr>
      in (if val = 0 then - 1 else word_of_nat (bsf_loop val 0), f1))"

section \<open>Bit tests\<close>

definition bit_index :: "'a::len word \<Rightarrow> nat" where
  "bit_index index = unat index mod LENGTH('a)"

definition bt :: "'a::len word \<Rightarrow> 'a word \<Rightarrow> flags \<Rightarrow> flags" where
  "bt base index f = f\<lparr>carry := (drop_bit (bit_index index) base AND 1 \<noteq> 0)\<rparr>"

definition btr :: "'a::len word \<Rightarrow> 'a word \<Rightarrow> flags \<Rightarrow> 'a word \<times> flags" where
  "btr base index f =
     (let i = bit_index index
      in (base AND NOT (push_bit i 1), f\<lparr>carry := (drop_bit i base AND 1 \<noteq> 0)\<rparr>))"

definition btc :: "'a::len word \<Rightarrow> 'a word \<Rightarrow> flags \<Rightarrow> 'a word \<times> flags" where
  "btc base index f =
     (let i = bit_index index;
          m = push_bit i 1
      in ((base AND NOT m) OR (NOT base AND m), f\<lparr>carry := (drop_bit i base AND 1 \<noteq> 0)\<rparr>))"

definition bts :: "'a::len word \<Rightarrow> 'a word \<Rightarrow> flags \<Rightarrow> 'a word \<times> flags" where
  "bts base index f =
     (let i = bit_index index;
          m = push_bit i 1
      in ((base AND NOT m) OR m, f\<lparr>carry := (drop_bit i base AND 1 \<noteq> 0)\<rparr>))"

section \<open>Bits of the helpers\<close>

lemma mask_nonzero [simp]: "x AND 2 ^ n = 0 \<longleftrightarrow> \<not> bit x n" for x :: "'a::len word"
  by (rule and_exp_eq_0_iff_not_bit)

lemma drop_bit_and_1: "drop_bit n x AND 1 = of_bool (bit x n)" for x :: "'a::len word"
  by (rule bit_word_eqI) (auto simp: bit_simps)

lemma drop_bit_test [simp]: "drop_bit n x AND 1 = 0 \<longleftrightarrow> \<not> bit x n" for x :: "'a::len word"
  by (simp only: drop_bit_and_1) simp

lemma signBit_bit: "signBit v = bit v (LENGTH('a) - 1)" for v :: "'a::len word"
  unfolding signBit_def push_bit_of_1 by simp

lemma signBit_sint: "signBit v = (sint v < 0)" for v :: "'a::len word"
  by (simp add: signBit_bit bit_last_iff)

definition status :: "'a::len word \<Rightarrow> flags \<Rightarrow> bool" where
  "status res f \<longleftrightarrow>
     zflag f = (res = 0) \<and> sflag f = (sint res < 0) \<and> pf f = even (popcount (ucast res :: u8))"

lemma result_flags_status [simp]: "status res (result_flags res f)"
  by (simp add: status_def result_flags_def signBit_sint)

lemma result_flags_frame [simp]:
  "carry (result_flags res f) = carry f" "overflow (result_flags res f) = overflow f"
  "direction (result_flags res f) = direction f"
  "identification (result_flags res f) = identification f"
  by (simp_all add: result_flags_def)

lemma unat_and_mask: "unat (w AND mask n) < 2 ^ n" for w :: "'a::len word"
  unfolding take_bit_eq_mask [symmetric] unsigned_take_bit_eq by (rule take_bit_nat_less_exp)

lemma count_masks: "(0x1f :: 'a::len word) = mask 5" "(0x3f :: 'a::len word) = mask 6"
  by (simp_all add: mask_eq_exp_minus_1)

lemma shift_count_bound:
  "shift_count (src :: 'a::len word) < (if LENGTH('a) = 64 then 64 else 32)"
  unfolding shift_count_def count_masks
  using unat_and_mask [of src 5] unat_and_mask [of src 6] by (simp split: if_split)

lemma shift_count_promoted: "shift_count (src :: 'a::len word) < promoted_width TYPE('a)"
  using shift_count_bound [of src] unfolding promoted_width_def by (auto split: if_splits)

section \<open>Shifts are multiplications and divisions\<close>

definition shift_flags :: "nat \<Rightarrow> bool \<Rightarrow> bool \<Rightarrow> 'a::len word \<Rightarrow> flags \<Rightarrow> flags \<Rightarrow> bool" where
  "shift_flags n c ov res f f' \<longleftrightarrow>
     (if n = 0 then f' = f
      else status res f' \<and> carry f' = c \<and> overflow f' = (if n = 1 then ov else overflow f)
           \<and> direction f' = direction f \<and> identification f' = identification f)"

lemma shl_total:
  "shift_left dst (shift_count (src :: 'a::len word)) = Inr (push_bit (shift_count src) (dst :: 'a word))"
  using shift_count_promoted [of src] by (simp add: shift_left_def)

lemma bit_top: "bit w (LENGTH('a) - 1) = (sint w < 0)" for w :: "'a::len word"
  by (simp add: bit_last_iff)

lemma push_bit_one_overflow:
  "(bit (push_bit 1 w) (LENGTH('a) - 1) \<noteq> bit w (LENGTH('a) - 1)) = (sint (push_bit 1 w) \<noteq> 2 * sint w)"
  for w :: "'a::len word"
proof -
  have e: "push_bit 1 w = w + w" by (simp only: push_bit_eq_mult power_one_right mult_2_right)
  have "(sint w \<ge> 0 \<and> sint w \<ge> 0 \<and> sint (w + w) < 0 \<or> sint w < 0 \<and> sint w < 0 \<and> sint (w + w) \<ge> 0)
      = (sint (w + w) \<noteq> sint w + sint w)"
    using add_overflow_word(1) [of 0 w w] by simp
  then show ?thesis
    unfolding e bit_top by auto
qed

lemma shl_spec:
  fixes dst src :: "'a::len word"
  shows "case shl dst src f of
      Inl e \<Rightarrow> e = ShiftOutOfRange \<and> LENGTH('a) < shift_count src
    | Inr (res, f') \<Rightarrow> shift_count src \<le> LENGTH('a)
        \<and> uint res = (uint dst * 2 ^ shift_count src) mod 2 ^ LENGTH('a)
        \<and> shift_flags (shift_count src) (bit dst (LENGTH('a) - shift_count src))
            (sint res \<noteq> 2 * sint dst) res f f'"
proof (cases "shift_count src \<le> LENGTH('a)")
  case True
  show ?thesis
    unfolding shl_def Let_def shl_total rbind_simps push_bit_of_1
    using True push_bit_one_overflow [of dst]
    by (simp add: shift_flags_def signBit_bit uint_push_bit split: if_split)
next
  case False
  then show ?thesis by (simp add: shl_def Let_def shl_total)
qed

lemma shr_spec:
  fixes dst src :: "'a::len word"
  shows "uint (fst (shr dst src f)) = uint dst div 2 ^ shift_count src
    \<and> shift_flags (shift_count src) (bit dst (shift_count src - 1)) (sint dst < 0)
        (fst (shr dst src f)) f (snd (shr dst src f))"
  by (auto simp: shr_def Let_def shift_flags_def uint_drop_bit signBit_sint)

lemma sint_signed_drop_bit: "sint (signed_drop_bit n w) = sint w div 2 ^ n" for w :: "'a::len word"
  by (simp add: sint_signed_drop_bit_eq drop_bit_eq_div)

lemma sar_spec:
  fixes dst src :: "'a::len word"
  shows "case sar dst src f of
      Inl e \<Rightarrow> e = AssertFailed \<and> LENGTH('a) \<le> shift_count src
    | Inr (res, f') \<Rightarrow> shift_count src < LENGTH('a)
        \<and> sint res = sint dst div 2 ^ shift_count src
        \<and> shift_flags (shift_count src) (bit dst (shift_count src - 1)) False res f f'"
  by (auto simp: sar_def Let_def shift_flags_def sint_signed_drop_bit)

section \<open>Rotates\<close>

definition rcl_step :: "'a::len word \<times> bool \<Rightarrow> 'a word \<times> bool" where
  "rcl_step p = (2 * fst p + of_bool (snd p), signBit (fst p))"

definition rcr_step :: "'a::len word \<times> bool \<Rightarrow> 'a word \<times> bool" where
  "rcr_step p = (fst p div 2 OR push_bit (LENGTH('a) - 1) (of_bool (snd p)), fst p AND 1 \<noteq> 0)"

lemma rcl_loop_funpow: "rcl_loop n x c = (rcl_step ^^ n) (x, c)"
  by (induction n arbitrary: x c) (simp_all add: funpow_swap1 rcl_step_def)

lemma rcr_loop_funpow: "rcr_loop n x c = (rcr_step ^^ n) (x, c)"
  by (induction n arbitrary: x c) (simp_all add: funpow_swap1 rcr_step_def)

lemma rcr_rcl_step: "rcr_step (rcl_step p) = p" for p :: "'a::len word \<times> bool"
proof -
  obtain x c where p: "p = (x, c)" by (cases p)
  have b: "2 * x + of_bool c = push_bit 1 x OR of_bool c"
  proof -
    have "push_bit 1 x OR of_bool c = push_bit 1 x + of_bool c"
      by (rule disjunctive_add [symmetric]) (auto simp only: bit_push_bit_iff bit_of_bool_iff)
    then show ?thesis by (simp add: push_bit_eq_mult)
  qed
  have "(2 * x + of_bool c) div 2 OR push_bit (LENGTH('a) - 1) (of_bool (signBit x)) = x"
  proof (rule bit_word_eqI)
    fix n assume n: "n < LENGTH('a)"
    have "bit (drop_bit 1 (push_bit 1 x OR of_bool c) OR push_bit (LENGTH('a) - 1) (of_bool (signBit x))) n = bit x n"
      unfolding bit_or_iff bit_drop_bit_eq o_def bit_push_bit_iff bit_of_bool_iff signBit_bit
      using n by (cases "n = LENGTH('a) - 1") (auto dest: bit_imp_le_length)
    then show "bit ((2 * x + of_bool c) div 2 OR push_bit (LENGTH('a) - 1) (of_bool (signBit x))) n = bit x n"
      unfolding b by (simp add: drop_bit_eq_div)
  qed
  moreover have "((2 * x + of_bool c) AND 1 \<noteq> 0) = c"
    unfolding b using mask_nonzero [of "push_bit 1 x OR of_bool c" 0]
    by (simp only: power_0 not_not bit_or_iff bit_push_bit_iff bit_of_bool_iff) simp
  ultimately show ?thesis by (simp add: p rcl_step_def rcr_step_def)
qed

lemma rcr_rcl_pow: "(rcr_step ^^ n) ((rcl_step ^^ n) p) = p"
  by (induction n arbitrary: p) (simp_all add: funpow_swap1 rcr_rcl_step)


lemma bit_rol_word:
  fixes x :: "'a::len word"
  assumes "0 < n" "n < LENGTH('a)"
  shows "drop_bit n (push_bit n x OR drop_bit (LENGTH('a) - n) x)
           OR push_bit (LENGTH('a) - n) (push_bit n x OR drop_bit (LENGTH('a) - n) x) = x"
proof (rule bit_word_eqI)
  fix k assume "k < LENGTH('a)"
  then show "bit (drop_bit n (push_bit n x OR drop_bit (LENGTH('a) - n) x)
           OR push_bit (LENGTH('a) - n) (push_bit n x OR drop_bit (LENGTH('a) - n) x)) k = bit x k"
    using assms
    unfolding bit_or_iff bit_drop_bit_eq o_def bit_push_bit_iff
    by (cases "k < LENGTH('a) - n") (auto dest: bit_imp_le_length)
qed

lemma fst_rol: "fst (rol x cnt f) =
    (let n = rotate_count TYPE('a) cnt mod LENGTH('a)
     in if n \<noteq> 0 then push_bit n x OR drop_bit (LENGTH('a) - n) x else x)"
  for x :: "'a::len word"
  by (simp add: rol_def Let_def)

lemma rol_ror_inverse:
  fixes x :: "'a::len word"
  shows "case ror (fst (rol x cnt f)) cnt g of
      Inl e \<Rightarrow> e = ShiftOutOfRange \<and> 32 \<le> LENGTH('a) \<and> rotate_count TYPE('a) cnt mod LENGTH('a) = 0
    | Inr (res, g') \<Rightarrow> res = x"
proof (cases "rotate_count TYPE('a) cnt mod LENGTH('a) = 0")
  case True
  have "push_bit LENGTH('a) x = 0" by (rule bit_word_eqI) (simp add: bit_push_bit_iff)
  with True show ?thesis
    by (auto simp: ror_def fst_rol Let_def shift_left_def promoted_width_def max_def)
next
  case False
  let ?n = "rotate_count TYPE('a) cnt mod LENGTH('a)"
  have n: "0 < ?n" "?n < LENGTH('a)" using False by simp_all
  have "LENGTH('a) - ?n < promoted_width TYPE('a)" using n unfolding promoted_width_def by simp
  then show ?thesis
    using False bit_rol_word [OF n] by (simp add: ror_def fst_rol Let_def shift_left_def)
qed

lemma rcl_parts:
  fixes x :: "'a::len word"
  shows "fst (rcl x cnt f) = fst (rcl_loop (rotate_count TYPE('a) cnt mod (LENGTH('a) + 1)) x (carry f))"
    and "carry (snd (rcl x cnt f))
       = snd (rcl_loop (rotate_count TYPE('a) cnt mod (LENGTH('a) + 1)) x (carry f))"
  by (simp_all add: rcl_def Let_def case_prod_beta)

lemma rcr_parts:
  fixes x :: "'a::len word"
  shows "fst (rcr x cnt f) = fst (rcr_loop (rotate_count TYPE('a) cnt mod (LENGTH('a) + 1)) x (carry f))"
    and "carry (snd (rcr x cnt f))
       = snd (rcr_loop (rotate_count TYPE('a) cnt mod (LENGTH('a) + 1)) x (carry f))"
  by (simp_all add: rcr_def Let_def case_prod_beta)

lemma rcl_rcr_inverse:
  fixes x :: "'a::len word"
  shows "fst (rcr (fst (rcl x cnt f)) cnt (snd (rcl x cnt f))) = x
    \<and> carry (snd (rcr (fst (rcl x cnt f)) cnt (snd (rcl x cnt f)))) = carry f"
proof -
  let ?n = "rotate_count TYPE('a) cnt mod (LENGTH('a) + 1)"
  obtain y c where yc: "rcl_loop ?n x (carry f) = (y, c)" by (metis surj_pair)
  then have "rcr_loop ?n y c = (x, carry f)"
    unfolding rcl_loop_funpow rcr_loop_funpow by (metis rcr_rcl_pow)
  with yc show ?thesis
    by (simp only: rcl_parts rcr_parts fst_conv snd_conv)
qed

section \<open>Scans\<close>

lemma tzcnt_loop_spec:
  fixes x :: "'a::len word"
  assumes "t \<le> LENGTH('a)" "\<forall>i<t. \<not> bit x i"
  shows "tzcnt_loop x t \<le> LENGTH('a) \<and> (\<forall>i<tzcnt_loop x t. \<not> bit x i)
    \<and> (tzcnt_loop x t < LENGTH('a) \<longrightarrow> bit x (tzcnt_loop x t))"
  using assms
proof (induction x t rule: tzcnt_loop.induct)
  case (1 x t)
  show ?case
  proof (cases "t < LENGTH('a) \<and> \<not> bit x t")
    case True
    then have "tzcnt_loop x t = tzcnt_loop x (t + 1)" by (simp add: tzcnt_loop.simps [of x t])
    with True 1 show ?thesis by (auto simp: less_Suc_eq)
  next
    case False
    then have "tzcnt_loop x t = t" by (auto simp: tzcnt_loop.simps [of x t])
    with False 1(2,3) show ?thesis by auto
  qed
qed

lemma bsf_loop_tzcnt: "bsf_loop x t = tzcnt_loop x t"
proof (induction x t rule: tzcnt_loop.induct)
  case (1 x t)
  then show ?case
    by (subst bsf_loop.simps, subst tzcnt_loop.simps) (auto simp: push_bit_of_1)
qed

lemma bsr_loop_spec:
  assumes "\<exists>i\<le>n. bit x i"
  shows "bsr_loop x n \<le> n \<and> bit x (bsr_loop x n) \<and> (\<forall>i\<le>n. bsr_loop x n < i \<longrightarrow> \<not> bit x i)"
  using assms
proof (induction n)
  case 0
  then show ?case by simp
next
  case (Suc n)
  show ?case
  proof (cases "bit x (Suc n)")
    case True
    then show ?thesis unfolding bsr_loop.simps push_bit_of_1 mask_nonzero by simp
  next
    case False
    then have "\<exists>i\<le>n. bit x i" using Suc.prems by (metis le_Suc_eq)
    with Suc.IH False show ?thesis
      unfolding bsr_loop.simps push_bit_of_1 mask_nonzero by (auto simp: le_Suc_eq)
  qed
qed

lemma nonzero_bit: "x \<noteq> 0 \<Longrightarrow> \<exists>i<LENGTH('a). bit x i" for x :: "'a::len word"
  by (metis bit_imp_le_length bit_word_eqI bit_0_eq bot_apply bot_bool_def)

lemma unat_index: "i \<le> LENGTH('a) \<Longrightarrow> unat (word_of_nat i :: 'a::len word) = i"
  by (simp add: unat_of_nat le_less_trans [OF _ less_exp])


section \<open>Byte swap and population count\<close>

lemma byte_position: "8 * m \<le> k \<and> k - 8 * m < 8 \<longleftrightarrow> k div 8 = m" for k m :: nat
proof
  assume "8 * m \<le> k \<and> k - 8 * m < 8"
  then show "k div 8 = m" by (intro div_nat_eqI) auto
next
  assume "k div 8 = m"
  then show "8 * m \<le> k \<and> k - 8 * m < 8"
    using minus_mult_div_eq_mod [of k 8] div_times_less_eq_dividend [of k 8] by auto
qed

lemma byte_offset: "k div 8 = m \<Longrightarrow> k - 8 * m = k mod 8" for k m :: nat
  using minus_mult_div_eq_mod [of k 8] by simp

lemma bit_bswap_loop:
  fixes val res :: "'a::len word"
  assumes "\<forall>i\<in>set is. i < LENGTH('a) div 8"
  shows "bit (bswap_loop is val res) k \<longleftrightarrow>
    bit res k \<or> k < LENGTH('a) \<and> (\<exists>i\<in>set is. k div 8 = LENGTH('a) div 8 - 1 - i
                                      \<and> bit val (8 * i + k mod 8))"
  using assms
proof (induction "is" arbitrary: res)
  case Nil
  then show ?case by simp
next
  case (Cons i "is")
  let ?s = "8 * (LENGTH('a) div 8 - (i + 1))"
  have ff: "(0xff :: 'a word) = mask 8" by (simp add: mask_eq_exp_minus_1)
  have byte: "bit (push_bit ?s (drop_bit (8 * i) val AND 0xff)) k \<longleftrightarrow>
      k < LENGTH('a) \<and> k div 8 = LENGTH('a) div 8 - 1 - i \<and> bit val (8 * i + k mod 8)"
  proof -
    have "bit (push_bit ?s (drop_bit (8 * i) val AND 0xff)) k \<longleftrightarrow>
        k < LENGTH('a) \<and> ?s \<le> k \<and> k - ?s < 8 \<and> bit val (8 * i + (k - ?s))"
      unfolding ff bit_push_bit_iff bit_and_iff bit_mask_iff bit_drop_bit_eq o_def
      by (auto dest: bit_imp_le_length)
    moreover have "LENGTH('a) div 8 - (i + 1) = LENGTH('a) div 8 - 1 - i" by simp
    ultimately show ?thesis
      using byte_position [of "LENGTH('a) div 8 - (i + 1)" k]
        byte_offset [of k "LENGTH('a) div 8 - (i + 1)"] by metis
  qed
  show ?case
  proof -
    have "bit (bswap_loop is val (res OR push_bit ?s (drop_bit (8 * i) val AND 0xff))) k \<longleftrightarrow>
      bit (res OR push_bit ?s (drop_bit (8 * i) val AND 0xff)) k
      \<or> k < LENGTH('a) \<and> (\<exists>i\<in>set is. k div 8 = LENGTH('a) div 8 - 1 - i \<and> bit val (8 * i + k mod 8))"
      by (rule Cons.IH) (use Cons.prems in simp)
    then show ?thesis
      unfolding bswap_loop.simps Let_def bit_or_iff byte by auto
  qed
qed

lemma bit_bswap:
  "bit (bswap val) k \<longleftrightarrow> k < LENGTH('a)
     \<and> (\<exists>i < LENGTH('a) div 8. k div 8 = LENGTH('a) div 8 - 1 - i \<and> bit val (8 * i + k mod 8))"
  for val :: "'a::len word"
  unfolding bswap_def by (subst bit_bswap_loop) auto

lemma bswap_lanes:
  fixes v :: "'a::len word"
  assumes L: "LENGTH('a) = n * 8"
  shows "split_lanes (bswap v) = rev (split_lanes v :: u8 list)"
proof (rule nth_equalityI)
  fix j assume "j < length (split_lanes (bswap v) :: u8 list)"
  then have j: "j < n" using L by simp
  show "(split_lanes (bswap v) :: u8 list) ! j = rev (split_lanes v :: u8 list) ! j"
  proof (rule bit_word_eqI)
    fix k assume k: "k < LENGTH(8)"
    have idx: "(j * 8 + k) div 8 = j" "(j * 8 + k) mod 8 = k" using k by simp_all
    have lt: "j * 8 + k < n * 8" using lane_index_bound [OF j, of k 8] k by simp
    have "bit (bswap v) (j * 8 + k) \<longleftrightarrow> bit v (8 * (n - 1 - j) + k)"
      unfolding bit_bswap idx using L lt j by (auto intro!: exI [of _ "n - 1 - j"])
    then show "bit ((split_lanes (bswap v) :: u8 list) ! j) k = bit (rev (split_lanes v :: u8 list) ! j) k"
      using j k L by (simp add: nth_split_lanes rev_nth bit_ucast_iff bit_drop_bit_eq mult.commute)
  qed
qed (use L in simp)

lemma popcnt_loop_spec:
  fixes v res :: "'a::len word"
  assumes "unat res + n < 2 ^ LENGTH('a)"
  shows "unat (popcnt_loop n v res) = unat res + length (filter (bit v) [0..<n])"
  using assms
proof (induction n arbitrary: v res)
  case 0
  then show ?case by simp
next
  case (Suc n)
  have one: "v AND 1 = of_bool (bit v 0)"
    using drop_bit_and_1 [of 0 v] by simp
  have u: "unat (res + (v AND 1)) = unat res + of_bool (bit v 0)"
    unfolding one using Suc.prems by (cases "bit v 0") (simp_all add: unat_add_no_wrap)
  have "filter (bit v) (map Suc [0..<n]) = map Suc (filter (bit (drop_bit 1 v)) [0..<n])"
    by (simp add: filter_map o_def bit_drop_bit_eq)
  then have "length (filter (bit v) [0..<Suc n])
      = of_bool (bit v 0) + length (filter (bit (drop_bit 1 v)) [0..<n])"
    by (simp only: upt_conv_Cons [of 0 "Suc n"] zero_less_Suc map_Suc_upt [symmetric]) simp
  moreover have "unat (res + (v AND 1)) + n < 2 ^ LENGTH('a)"
    unfolding u using Suc.prems by (cases "bit v 0") simp_all
  ultimately show ?case using Suc.IH by (simp only: popcnt_loop.simps u)
qed

lemma popcnt_popcount: "unat (fst (popcnt v f)) = popcount v" for v :: "'a::len word"
  using popcnt_loop_spec [of "0 :: 'a word" "LENGTH('a)" v]
  by (simp add: popcnt_def popcount_def Let_def)

section \<open>Increments\<close>

lemma word_of_sint: "word_of_int (sint w) = w" for w :: "'a::len word"
  by simp

lemma top_word: "push_bit (LENGTH('a) - 1) 1 = (word_of_int (half TYPE('a)) :: 'a::len word)"
  by (simp add: half_def push_bit_of_1)

lemma sint_half_word: "sint (word_of_int (half TYPE('a)) :: 'a::len word) = - half TYPE('a)"
proof -
  have "word_of_int (half TYPE('a)) = (word_of_int (- half TYPE('a)) :: 'a word)"
    unfolding word_uint_eq_iff uint_of_int_half
    using mod_twice(1) [OF half_pos [where 'a = 'a], of "half TYPE('a)"]
      mod_twice(3) [OF half_pos [where 'a = 'a], of "- half TYPE('a)"] half_pos [where 'a = 'a]
    by simp
  moreover have "sint (word_of_int (- half TYPE('a)) :: 'a word) = - half TYPE('a)"
    using half_pos [where 'a = 'a] by (intro sint_of_int_half) simp_all
  ultimately show ?thesis by (simp only:)
qed

lemma inc_overflow: "(src = push_bit (LENGTH('a) - 1) 1 - 1) = (sint (src + 1) \<noteq> sint src + 1)"
  for src :: "'a::len word"
proof (cases "sint src = half TYPE('a) - 1")
  case True
  then have s: "src = word_of_int (half TYPE('a) - 1)" by (metis word_of_sint)
  then have "src + 1 = word_of_int (half TYPE('a))" by simp
  then have "sint (src + 1) = - half TYPE('a)" by (simp only: sint_half_word)
  then have "sint (src + 1) \<noteq> sint src + 1" using True half_pos [where 'a = 'a] by simp
  moreover have "src = push_bit (LENGTH('a) - 1) 1 - 1" unfolding top_word using s by simp
  ultimately show ?thesis by simp
next
  case False
  then have r: "sint src + 1 < half TYPE('a)" "- half TYPE('a) \<le> sint src + 1"
    using sint_range_half [of src] by linarith+
  then have "sint (word_of_int (sint src + 1) :: 'a word) = sint src + 1" by (intro sint_of_int_half)
  then have e: "sint (src + 1) = sint src + 1" by simp
  have "src \<noteq> push_bit (LENGTH('a) - 1) 1 - 1"
  proof
    assume "src = push_bit (LENGTH('a) - 1) 1 - 1"
    then have "src + 1 = word_of_int (half TYPE('a))" unfolding top_word by simp
    then have "sint (src + 1) = - half TYPE('a)" by (simp only: sint_half_word)
    with e sint_range_half [of src] show False by simp
  qed
  with e show ?thesis by simp
qed

lemma dec_overflow: "(src = push_bit (LENGTH('a) - 1) 1) = (sint (src - 1) \<noteq> sint src - 1)"
  for src :: "'a::len word"
proof (cases "sint src = - half TYPE('a)")
  case True
  then have "src = push_bit (LENGTH('a) - 1) 1"
    unfolding top_word by (simp only: word_eq_iff_signed [where 'a = int] sint_half_word)
  moreover have "sint (src - 1) \<noteq> sint src - 1"
    using True sint_range_half [of "src - 1"] by simp
  ultimately show ?thesis by simp
next
  case False
  then have "sint (word_of_int (sint src - 1) :: 'a word) = sint src - 1"
    using sint_range_half [of src] by (intro sint_of_int_half) linarith+
  then have "sint (src - 1) = sint src - 1" by simp
  moreover have "src \<noteq> push_bit (LENGTH('a) - 1) 1"
    using False unfolding top_word by (auto simp only: sint_half_word)
  ultimately show ?thesis by simp
qed

section \<open>Lowest and highest set bit\<close>

lemma low_bit_dvd:
  fixes x :: "'a::len word"
  assumes "\<forall>i<n. \<not> bit x i" "bit x n"
  shows "2 ^ n dvd unat x" "odd (unat x div 2 ^ n)"
proof -
  have "take_bit n (unat x) = 0"
    by (rule bit_eqI) (use assms in \<open>auto simp: bit_take_bit_iff bit_unat_iff\<close>)
  then show "2 ^ n dvd unat x" by (simp only: take_bit_eq_0_iff)
  show "odd (unat x div 2 ^ n)" using assms(2) by (simp only: bit_unat_iff flip: bit_iff_odd)
qed

lemma high_bit_bounds:
  fixes x :: "'a::len word"
  assumes "bit x n" "\<forall>i\<le>LENGTH('a) - 1. n < i \<longrightarrow> \<not> bit x i"
  shows "2 ^ n \<le> unat x" "unat x < 2 ^ (n + 1)"
proof -
  have "odd (unat x div 2 ^ n)" using assms(1) by (simp only: bit_unat_iff flip: bit_iff_odd)
  then have "unat x div 2 ^ n \<noteq> 0" by (metis even_zero)
  then show "2 ^ n \<le> unat x" by (metis div_less not_le_imp_less)
  have "\<not> bit x i" if "n < i" for i
    using that assms(2) bit_imp_le_length [of x i] by (cases "i \<le> LENGTH('a) - 1") auto
  then have "take_bit (n + 1) (unat x) = unat x"
    by (intro bit_eqI) (auto simp: bit_take_bit_iff bit_unat_iff, meson not_less_eq)
  then show "unat x < 2 ^ (n + 1)" by (metis take_bit_nat_less_exp)
qed

section \<open>Properties\<close>

text \<open>
  The increments and the bitwise operations: \<^verbatim>\<open>inc\<close> and \<^verbatim>\<open>dec\<close> report signed overflow
  exactly and keep the carry, the logical operations clear carry and overflow, and all of them
  describe their result in zero, sign and parity; \<^verbatim>\<open>test\<close> leaves the flags of \<^verbatim>\<open>and\<close>.
\<close>

theorem inc_dec_logic_flags:
  fixes x y :: "'a::len word"
  shows "fst (alu_inc x f) = x + 1 \<and> carry (snd (alu_inc x f)) = carry f
      \<and> overflow (snd (alu_inc x f)) = (sint (x + 1) \<noteq> sint x + 1) \<and> status (x + 1) (snd (alu_inc x f))
    \<and> fst (alu_dec x f) = x - 1 \<and> carry (snd (alu_dec x f)) = carry f
      \<and> overflow (snd (alu_dec x f)) = (sint (x - 1) \<noteq> sint x - 1) \<and> status (x - 1) (snd (alu_dec x f))
    \<and> fst (alu_and x y f) = x AND y \<and> status (x AND y) (snd (alu_and x y f))
      \<and> \<not> carry (snd (alu_and x y f)) \<and> \<not> overflow (snd (alu_and x y f))
    \<and> fst (alu_or x y f) = x OR y \<and> status (x OR y) (snd (alu_or x y f))
      \<and> \<not> carry (snd (alu_or x y f)) \<and> \<not> overflow (snd (alu_or x y f))
    \<and> fst (alu_xor x y f) = x XOR y \<and> status (x XOR y) (snd (alu_xor x y f))
      \<and> \<not> carry (snd (alu_xor x y f)) \<and> \<not> overflow (snd (alu_xor x y f))
    \<and> alu_test x y f = snd (alu_and x y f)"
  unfolding alu_inc_def alu_dec_def inc_overflow dec_overflow Let_def
  by (simp add: alu_and_def alu_or_def alu_xor_def alu_test_def Let_def)

text \<open>
  C22. The shifts at every width: \<^verbatim>\<open>shl\<close> multiplies by a power of two modulo the width,
  \<^verbatim>\<open>shr\<close> divides the unsigned value and \<^verbatim>\<open>sar\<close> the signed one, rounding down; the carry is
  the last bit shifted out, overflow is defined for single shifts, and a zero count leaves every
  flag alone. \<^verbatim>\<open>shl\<close> has no defined result exactly for masked counts above the width and
  \<^verbatim>\<open>sar\<close> fails its assertion exactly for masked counts from the width on, which the 8-bit and
  16-bit forms can reach.
\<close>

theorem shifts_are_arithmetic:
  fixes dst src :: "'a::len word"
  shows "(case shl dst src f of
      Inl e \<Rightarrow> e = ShiftOutOfRange \<and> LENGTH('a) < shift_count src
    | Inr (res, f') \<Rightarrow> shift_count src \<le> LENGTH('a)
        \<and> uint res = (uint dst * 2 ^ shift_count src) mod 2 ^ LENGTH('a)
        \<and> shift_flags (shift_count src) (bit dst (LENGTH('a) - shift_count src))
            (sint res \<noteq> 2 * sint dst) res f f')
    \<and> uint (fst (shr dst src f)) = uint dst div 2 ^ shift_count src
    \<and> shift_flags (shift_count src) (bit dst (shift_count src - 1)) (sint dst < 0)
        (fst (shr dst src f)) f (snd (shr dst src f))
    \<and> (case sar dst src f of
      Inl e \<Rightarrow> e = AssertFailed \<and> LENGTH('a) \<le> shift_count src
    | Inr (res, f') \<Rightarrow> shift_count src < LENGTH('a)
        \<and> sint res = sint dst div 2 ^ shift_count src
        \<and> shift_flags (shift_count src) (bit dst (shift_count src - 1)) False res f f')"
  by (intro conjI shl_spec sar_spec conjunct1 [OF shr_spec] conjunct2 [OF shr_spec])

text \<open>
  Rotating left and then right by the same count restores the operand, for the plain
  rotates and for those through the carry (which is restored too). The only failure is \<^verbatim>\<open>ror\<close>
  with an effective count of zero at 32 or 64 bits, where the source shifts by the full width.
\<close>

theorem rotates_inverse:
  fixes x :: "'a::len word"
  shows "(case ror (fst (rol x cnt f)) cnt g of
      Inl e \<Rightarrow> e = ShiftOutOfRange \<and> 32 \<le> LENGTH('a) \<and> rotate_count TYPE('a) cnt mod LENGTH('a) = 0
    | Inr (res, g') \<Rightarrow> res = x)
    \<and> fst (rcr (fst (rcl x cnt f)) cnt (snd (rcl x cnt f))) = x
    \<and> carry (snd (rcr (fst (rcl x cnt f)) cnt (snd (rcl x cnt f)))) = carry f"
  by (intro conjI rol_ror_inverse conjunct1 [OF rcl_rcr_inverse] conjunct2 [OF rcl_rcr_inverse])

text \<open>
  \<^verbatim>\<open>bswap\<close> reverses the bytes of its operand, so applying it twice is the identity.
\<close>

theorem bswap_reverses:
  "split_lanes (bswap (v :: u32)) = rev (split_lanes v :: u8 list)
   \<and> split_lanes (bswap (w :: u64)) = rev (split_lanes w :: u8 list)
   \<and> bswap (bswap v) = v \<and> bswap (bswap w) = w"
proof -
  have v: "split_lanes (bswap (x :: u32)) = rev (split_lanes x :: u8 list)" for x
    by (rule bswap_lanes [where n = 4]) simp
  have w: "split_lanes (bswap (x :: u64)) = rev (split_lanes x :: u8 list)" for x
    by (rule bswap_lanes [where n = 8]) simp
  have "bswap (bswap v) = v" by (metis v b4.join_split rev_rev_ident)
  moreover have "bswap (bswap w) = w" by (metis w b8.join_split rev_rev_ident)
  ultimately show ?thesis using v w by simp
qed

text \<open>
  The scans find what they promise: \<^verbatim>\<open>tzcnt\<close> and \<^verbatim>\<open>bsf\<close> the index of the lowest set
  bit (the largest power of two dividing the operand), \<^verbatim>\<open>bsr\<close> that of the highest (the
  integer part of the binary logarithm); a zero operand gives the width and the carry in
  \<^verbatim>\<open>tzcnt\<close>, all ones and the zero flag in the others. \<^verbatim>\<open>popcnt\<close> counts the set bits.
\<close>

theorem scans_and_popcount:
  fixes x :: "'a::len word"
  shows "(if x = 0
     then unat (fst (tzcnt x f)) = LENGTH('a) \<and> carry (snd (tzcnt x f))
       \<and> fst (bsf x f) = - 1 \<and> fst (bsr x f) = - 1
     else \<not> carry (snd (tzcnt x f))
       \<and> fst (bsf x f) = fst (tzcnt x f)
       \<and> 2 ^ unat (fst (tzcnt x f)) dvd unat x \<and> odd (unat x div 2 ^ unat (fst (tzcnt x f)))
       \<and> 2 ^ unat (fst (bsr x f)) \<le> unat x \<and> unat x < 2 ^ (unat (fst (bsr x f)) + 1))
    \<and> zflag (snd (bsf x f)) = (x = 0) \<and> zflag (snd (bsr x f)) = (x = 0)
    \<and> zflag (snd (tzcnt x f)) = bit x 0
    \<and> unat (fst (popcnt x f)) = popcount x"
proof (cases "x = 0")
  case True
  then show ?thesis
    using tzcnt_loop_spec [of 0 x] popcnt_popcount [of x f]
    by (auto simp: tzcnt_def bsf_def bsr_def Let_def unat_index)
next
  case False
  define n where "n = tzcnt_loop x 0"
  define m where "m = bsr_loop x (LENGTH('a) - 1)"
  obtain i where i: "i < LENGTH('a)" "bit x i" using nonzero_bit [OF False] by blast
  have n: "n \<le> LENGTH('a)" "\<forall>i<n. \<not> bit x i" "n < LENGTH('a) \<Longrightarrow> bit x n"
    using tzcnt_loop_spec [of 0 x] by (simp_all add: n_def)
  then have n': "n < LENGTH('a)" "bit x n" using i by (metis le_neq_implies_less)+
  have "\<exists>i\<le>LENGTH('a) - 1. bit x i" using i by (intro exI [of _ i]) auto
  from bsr_loop_spec [OF this] have m: "m \<le> LENGTH('a) - 1" "bit x m"
    "\<forall>i\<le>LENGTH('a) - 1. m < i \<longrightarrow> \<not> bit x i"
    by (simp_all add: m_def)
  have un: "unat (fst (tzcnt x f)) = n" using n by (simp add: tzcnt_def Let_def unat_index flip: n_def)
  have "fst (bsr x f) = word_of_nat m" using False by (simp add: bsr_def Let_def m_def)
  then have um: "unat (fst (bsr x f)) = m" using m(1) by (simp add: unat_index)
  have bn: "bit x 0 \<longleftrightarrow> n = 0" using n n' by (metis gr0I)
  have "fst (bsf x f) = fst (tzcnt x f)" "\<not> carry (snd (tzcnt x f))"
    "zflag (snd (bsf x f)) = (x = 0)" "zflag (snd (bsr x f)) = (x = 0)" "zflag (snd (tzcnt x f)) = bit x 0"
    using False n' bn by (auto simp: bsf_def bsr_def tzcnt_def Let_def bsf_loop_tzcnt simp flip: n_def)
  then show ?thesis
    using False low_bit_dvd [OF n(2) n'(2)] high_bit_bounds [OF m(2)] m(1,3) popcnt_popcount [of x f]
    by (auto simp: un um)
qed

text \<open>
  The bit tests read and change the bit named by the index modulo the width, and no
  other: the carry receives its old value, \<^verbatim>\<open>btr\<close> clears it, \<^verbatim>\<open>bts\<close> sets it and \<^verbatim>\<open>btc\<close>
  complements it.
\<close>

theorem bit_tests:
  fixes base :: "'a::len word"
  shows "carry (bt base index f) = bit base (bit_index index)
    \<and> snd (btr base index f) = bt base index f \<and> snd (bts base index f) = bt base index f
    \<and> snd (btc base index f) = bt base index f
    \<and> bit (fst (btr base index f)) k = (bit base k \<and> k \<noteq> bit_index index)
    \<and> bit (fst (bts base index f)) k = (bit base k \<or> k = bit_index index)
    \<and> bit (fst (btc base index f)) k = (bit base k \<noteq> (k = bit_index index))"
proof -
  have i: "bit_index index < LENGTH('a)" by (simp add: bit_index_def)
  show ?thesis
    unfolding bt_def btr_def bts_def btc_def Let_def fst_conv snd_conv
      bit_and_iff bit_or_iff bit_not_iff bit_push_bit_iff
    using i by (auto dest: bit_imp_le_length simp: drop_bit_and_1 bit_1_iff)
qed

section \<open>Flags the source computes differently from the processor\<close>

lemma top_bit_mask:
  "uint (x AND push_bit (LENGTH('a) - 1) 1) = (if sint x < 0 then half TYPE('a) else 0)"
  for x :: "'a::len word"
proof -
  have "x AND push_bit (LENGTH('a) - 1) 1 = (if sint x < 0 then push_bit (LENGTH('a) - 1) 1 else 0)"
  proof (rule bit_word_eqI)
    fix n assume "n < LENGTH('a)"
    then show "bit (x AND push_bit (LENGTH('a) - 1) 1) n
        = bit (if sint x < 0 then push_bit (LENGTH('a) - 1) 1 else 0 :: 'a word) n"
      unfolding bit_top [symmetric]
      by (cases "n = LENGTH('a) - 1") (auto simp: bit_and_iff bit_push_bit_iff bit_1_iff simp del: push_bit_of_1)
  qed
  moreover have "uint (push_bit (LENGTH('a) - 1) 1 :: 'a word) = half TYPE('a)"
    unfolding uint_push_bit half_def by simp
  ultimately show ?thesis by (simp only: split: if_split) simp
qed

lemma rcr_overflow_is_or:
  "overflow (snd (rcr x 1 f)) = (sint x < 0 \<or> carry f)" for x :: u64
proof -
  have "overflow (snd (rcr x 1 f))
      = (uint (x AND push_bit (LENGTH(64) - 1) 1) XOR of_bool (carry f) \<noteq> (0::int))"
    by (simp add: rcr_def Let_def case_prod_beta del: push_bit_of_1)
  then show ?thesis
    unfolding top_bit_mask by (simp add: half_def)
qed

lemma shld_carry_differs:
  "carry (snd (shld (1 :: u32) 0 1 f)) \<and> \<not> bit (1 :: u32) 31"
  by (simp add: shld_def Let_def)

lemma shrd_carry_differs:
  "\<not> carry (snd (shrd (1 :: u32) 0 1 f)) \<and> bit (1 :: u32) 0"
  by (simp add: shrd_def Let_def)

end
