(* ===== verification/X64_Simd.thy ===== *)
theory X64_Simd
  imports X64_Bits
begin

text \<open>
  The packed integer operations of \<^verbatim>\<open>emulator/src/x64/cpuimpl.cpp\<close> on 64-bit and 128-bit
  operands: shuffles, interleavings, comparisons, wrapping and saturating arithmetic, products,
  averages, extrema and shifts. A loop over the lanes is a \<open>map\<close> or \<open>map2\<close> over
  \<open>split_lanes\<close> or \<open>split128\<close>, followed by the copy back. A C++ template over the lane type takes
  that type as an argument, e.g. \<open>padd64 TYPE(8)\<close> for \<^verbatim>\<open>padd64<u8>\<close>; overloads on the
  operand width carry it in their name.
\<close>

section \<open>Helpers\<close>

definition all_results :: "'a result list \<Rightarrow> 'a list result" where
  "all_results rs = foldr (\<lambda>r acc. rbind r (\<lambda>x. rbind acc (\<lambda>xs. Inr (x # xs)))) rs (Inr [])"

definition order_field :: "u8 \<Rightarrow> nat \<Rightarrow> nat" where
  "order_field order k = unat (drop_bit k order AND 0x3)"

definition interleave :: "'a list \<Rightarrow> 'a list \<Rightarrow> 'a list" where
  "interleave ds ss = concat (map2 (\<lambda>d s. [d, s]) ds ss)"

definition sclamp :: "'a::len itself \<Rightarrow> int \<Rightarrow> int" where
  "sclamp _ s =
     (let s1 = (if s > 2 ^ (LENGTH('a) - 1) - 1 then 2 ^ (LENGTH('a) - 1) - 1 else s)
      in if s1 < - (2 ^ (LENGTH('a) - 1)) then - (2 ^ (LENGTH('a) - 1)) else s1)"

definition uclamp :: "'a::len itself \<Rightarrow> int \<Rightarrow> int" where
  "uclamp _ s = (if s > 2 ^ LENGTH('a) - 1 then 2 ^ LENGTH('a) - 1 else s)"

section \<open>Shuffles, insertions and extractions\<close>

definition shufps :: "u128 \<Rightarrow> u128 \<Rightarrow> u8 \<Rightarrow> u128" where
  "shufps dst src order =
     (let DST = split128 dst :: u32 list; SRC = split128 src :: u32 list
      in join128 [DST ! order_field order 0, DST ! order_field order 2,
                  SRC ! order_field order 4, SRC ! order_field order 6])"

definition shufpd :: "u128 \<Rightarrow> u128 \<Rightarrow> u8 \<Rightarrow> u128" where
  "shufpd dst src order =
     mk_u128 (if order AND 0x1 \<noteq> 0 then hi dst else lo dst)
             (if order AND 0x2 \<noteq> 0 then hi src else lo src)"

definition pinsrw16_64 :: "u64 \<Rightarrow> u16 \<Rightarrow> u8 \<Rightarrow> u64" where
  "pinsrw16_64 dst src order = join_lanes ((split_lanes dst)[unat (order AND 0x3) := src])"

definition pinsrw32_64 :: "u64 \<Rightarrow> u32 \<Rightarrow> u8 \<Rightarrow> u64" where
  "pinsrw32_64 dst src order = pinsrw16_64 dst (ucast src) order"

definition pinsrw16_128 :: "u128 \<Rightarrow> u16 \<Rightarrow> u8 \<Rightarrow> u128" where
  "pinsrw16_128 dst src order = join128 ((split128 dst)[unat (order AND 0x7) := src])"

definition pinsrw32_128 :: "u128 \<Rightarrow> u32 \<Rightarrow> u8 \<Rightarrow> u128" where
  "pinsrw32_128 dst src order = pinsrw16_128 dst (ucast src) order"

definition pextrw16 :: "u128 \<Rightarrow> u8 \<Rightarrow> u16" where
  "pextrw16 src order = split128 src ! unat (order AND 0x7)"

definition pextrw32 :: "u128 \<Rightarrow> u8 \<Rightarrow> u32" where
  "pextrw32 src order = ucast (pextrw16 src order)"

text \<open>
  \<open>pshufb64\<close> masks a selector with \<^verbatim>\<open>0x0F\<close>, which reads past its array of eight bytes when
  bit 3 of the selector is set.
\<close>

definition pshufb64 :: "u64 \<Rightarrow> u64 \<Rightarrow> u64 result" where
  "pshufb64 dst src =
     (let TMP = split_lanes dst :: u8 list
      in rbind (all_results (map (\<lambda>s :: u8.
            if s AND 0x80 = 0x80 then Inr 0
            else if unat (s AND 0x0F) < 8 then Inr (TMP ! unat (s AND 0x0F))
            else Inl IndexOutOfRange) (split_lanes src)))
          (\<lambda>DST. Inr (join_lanes DST)))"

definition pshufb128 :: "u128 \<Rightarrow> u128 \<Rightarrow> u128" where
  "pshufb128 dst src =
     (let TMP = split128 dst :: u8 list
      in join128 (map (\<lambda>s :: u8. if s AND 0x80 = 0x80 then 0 else TMP ! unat (s AND 0x0F))
                    (split128 src)))"

definition pshufw :: "u64 \<Rightarrow> u8 \<Rightarrow> u64" where
  "pshufw src order =
     (let SRC = split_lanes src :: u16 list
      in join_lanes [SRC ! order_field order 0, SRC ! order_field order 2,
                     SRC ! order_field order 4, SRC ! order_field order 6])"

definition pshuflw :: "u128 \<Rightarrow> u8 \<Rightarrow> u128" where
  "pshuflw src order =
     (let SRC = split128 src :: u16 list
      in join128 [SRC ! order_field order 0, SRC ! order_field order 2,
                  SRC ! order_field order 4, SRC ! order_field order 6,
                  SRC ! 4, SRC ! 5, SRC ! 6, SRC ! 7])"

definition pshufhw :: "u128 \<Rightarrow> u8 \<Rightarrow> u128" where
  "pshufhw src order =
     (let SRC = split128 src :: u16 list
      in join128 [SRC ! 0, SRC ! 1, SRC ! 2, SRC ! 3,
                  SRC ! (4 + order_field order 0), SRC ! (4 + order_field order 2),
                  SRC ! (4 + order_field order 4), SRC ! (4 + order_field order 6)])"

definition pshufd :: "u128 \<Rightarrow> u8 \<Rightarrow> u128" where
  "pshufd src order =
     (let SRC = split128 src :: u32 list
      in join128 [SRC ! order_field order 0, SRC ! order_field order 2,
                  SRC ! order_field order 4, SRC ! order_field order 6])"

section \<open>Interleavings\<close>

definition punpcklbw64 :: "u64 \<Rightarrow> u64 \<Rightarrow> u64" where
  "punpcklbw64 dst src =
     join_lanes (interleave (take 4 (split_lanes dst :: u8 list)) (take 4 (split_lanes src)))"

definition punpcklwd64 :: "u64 \<Rightarrow> u64 \<Rightarrow> u64" where
  "punpcklwd64 dst src =
     join_lanes (interleave (take 2 (split_lanes dst :: u16 list)) (take 2 (split_lanes src)))"

definition punpckldq64 :: "u64 \<Rightarrow> u64 \<Rightarrow> u64" where
  "punpckldq64 dst src =
     join_lanes (interleave (take 1 (split_lanes dst :: u32 list)) (take 1 (split_lanes src)))"

definition punpcklbw128 :: "u128 \<Rightarrow> u128 \<Rightarrow> u128" where
  "punpcklbw128 dst src =
     join128 (interleave (take 8 (split128 dst :: u8 list)) (take 8 (split128 src)))"

definition punpcklwd128 :: "u128 \<Rightarrow> u128 \<Rightarrow> u128" where
  "punpcklwd128 dst src =
     join128 (interleave (take 4 (split128 dst :: u16 list)) (take 4 (split128 src)))"

definition punpckldq128 :: "u128 \<Rightarrow> u128 \<Rightarrow> u128" where
  "punpckldq128 dst src =
     join128 (interleave (take 2 (split128 dst :: u32 list)) (take 2 (split128 src)))"

definition punpcklqdq :: "u128 \<Rightarrow> u128 \<Rightarrow> u128" where
  "punpcklqdq dst src = dst\<lparr>hi := lo src\<rparr>"

definition punpckhbw64 :: "u64 \<Rightarrow> u64 \<Rightarrow> u64" where
  "punpckhbw64 dst src =
     join_lanes (interleave (drop 4 (split_lanes dst :: u8 list)) (drop 4 (split_lanes src)))"

definition punpckhwd64 :: "u64 \<Rightarrow> u64 \<Rightarrow> u64" where
  "punpckhwd64 dst src =
     join_lanes (interleave (drop 2 (split_lanes dst :: u16 list)) (drop 2 (split_lanes src)))"

definition punpckhdq64 :: "u64 \<Rightarrow> u64 \<Rightarrow> u64" where
  "punpckhdq64 dst src =
     join_lanes (interleave (drop 1 (split_lanes dst :: u32 list)) (drop 1 (split_lanes src)))"

definition punpckhbw128 :: "u128 \<Rightarrow> u128 \<Rightarrow> u128" where
  "punpckhbw128 dst src =
     join128 (interleave (drop 8 (split128 dst :: u8 list)) (drop 8 (split128 src)))"

definition punpckhwd128 :: "u128 \<Rightarrow> u128 \<Rightarrow> u128" where
  "punpckhwd128 dst src =
     join128 (interleave (drop 4 (split128 dst :: u16 list)) (drop 4 (split128 src)))"

definition punpckhdq128 :: "u128 \<Rightarrow> u128 \<Rightarrow> u128" where
  "punpckhdq128 dst src =
     join128 (interleave (drop 2 (split128 dst :: u32 list)) (drop 2 (split128 src)))"

definition punpckhqdq :: "u128 \<Rightarrow> u128 \<Rightarrow> u128" where
  "punpckhqdq dst src = dst\<lparr>lo := hi dst, hi := hi src\<rparr>"

section \<open>Comparisons and masks\<close>

definition pcmpeq64 :: "'u::len itself \<Rightarrow> u64 \<Rightarrow> u64 \<Rightarrow> u64" where
  "pcmpeq64 _ dst src =
     join_lanes (map2 (\<lambda>(d :: 'u word) (s :: 'u word). (if d = s then - 1 else 0) :: 'u word)
       (split_lanes dst) (split_lanes src))"

definition pcmpeq128 :: "'u::len itself \<Rightarrow> u128 \<Rightarrow> u128 \<Rightarrow> u128" where
  "pcmpeq128 _ dst src =
     join128 (map2 (\<lambda>(d :: 'u word) (s :: 'u word). (if d = s then - 1 else 0) :: 'u word)
       (split128 dst) (split128 src))"

definition pcmpgt64 :: "'u::len itself \<Rightarrow> u64 \<Rightarrow> u64 \<Rightarrow> u64" where
  "pcmpgt64 _ dst src =
     join_lanes (map2 (\<lambda>(d :: 'u word) (s :: 'u word). (if sint d > sint s then - 1 else 0) :: 'u word)
       (split_lanes dst) (split_lanes src))"

definition pcmpgt128 :: "'u::len itself \<Rightarrow> u128 \<Rightarrow> u128 \<Rightarrow> u128" where
  "pcmpgt128 _ dst src =
     join128 (map2 (\<lambda>(d :: 'u word) (s :: 'u word). (if sint d > sint s then - 1 else 0) :: 'u word)
       (split128 dst) (split128 src))"

definition pmovmskb_step :: "u8 list \<Rightarrow> nat \<Rightarrow> u16 \<Rightarrow> u16" where
  "pmovmskb_step SRC i dst = dst OR push_bit i (ucast (drop_bit 7 (SRC ! i) AND 0x1))"

definition pmovmskb64 :: "u64 \<Rightarrow> u16" where
  "pmovmskb64 src = fold (pmovmskb_step (split_lanes src)) [0..<8] 0"

definition pmovmskb128 :: "u128 \<Rightarrow> u16" where
  "pmovmskb128 src = fold (pmovmskb_step (split128 src)) [0..<16] 0"

section \<open>Addition and subtraction\<close>

definition padd64 :: "'u::len itself \<Rightarrow> u64 \<Rightarrow> u64 \<Rightarrow> u64" where
  "padd64 _ dst src =
     join_lanes (map2 (\<lambda>(d :: 'u word) (s :: 'u word). (d + s) :: 'u word)
       (split_lanes dst) (split_lanes src))"

definition padd128 :: "'u::len itself \<Rightarrow> u128 \<Rightarrow> u128 \<Rightarrow> u128" where
  "padd128 _ dst src =
     join128 (map2 (\<lambda>(d :: 'u word) (s :: 'u word). (d + s) :: 'u word)
       (split128 dst) (split128 src))"

definition padds64 :: "'u::len itself \<Rightarrow> u64 \<Rightarrow> u64 \<Rightarrow> u64" where
  "padds64 _ dst src =
     join_lanes (map2 (\<lambda>(d :: 'u word) (s :: 'u word). (word_of_int (sclamp TYPE('u) (sint d + sint s))) :: 'u word)
       (split_lanes dst) (split_lanes src))"

definition padds128 :: "'u::len itself \<Rightarrow> u128 \<Rightarrow> u128 \<Rightarrow> u128" where
  "padds128 _ dst src =
     join128 (map2 (\<lambda>(d :: 'u word) (s :: 'u word). (word_of_int (sclamp TYPE('u) (sint d + sint s))) :: 'u word)
       (split128 dst) (split128 src))"

definition paddus64 :: "'u::len itself \<Rightarrow> u64 \<Rightarrow> u64 \<Rightarrow> u64" where
  "paddus64 _ dst src =
     join_lanes (map2 (\<lambda>(d :: 'u word) (s :: 'u word). (word_of_int (uclamp TYPE('u) (uint d + uint s))) :: 'u word)
       (split_lanes dst) (split_lanes src))"

definition paddus128 :: "'u::len itself \<Rightarrow> u128 \<Rightarrow> u128 \<Rightarrow> u128" where
  "paddus128 _ dst src =
     join128 (map2 (\<lambda>(d :: 'u word) (s :: 'u word). (word_of_int (uclamp TYPE('u) (uint d + uint s))) :: 'u word)
       (split128 dst) (split128 src))"

definition psub64 :: "'u::len itself \<Rightarrow> u64 \<Rightarrow> u64 \<Rightarrow> u64" where
  "psub64 _ dst src =
     join_lanes (map2 (\<lambda>(d :: 'u word) (s :: 'u word). (d - s) :: 'u word)
       (split_lanes dst) (split_lanes src))"

definition psub128 :: "'u::len itself \<Rightarrow> u128 \<Rightarrow> u128 \<Rightarrow> u128" where
  "psub128 _ dst src =
     join128 (map2 (\<lambda>(d :: 'u word) (s :: 'u word). (d - s) :: 'u word)
       (split128 dst) (split128 src))"

definition psubs64 :: "'u::len itself \<Rightarrow> u64 \<Rightarrow> u64 \<Rightarrow> u64" where
  "psubs64 _ dst src =
     join_lanes (map2 (\<lambda>(d :: 'u word) (s :: 'u word). (word_of_int (sclamp TYPE('u) (sint d - sint s))) :: 'u word)
       (split_lanes dst) (split_lanes src))"

definition psubs128 :: "'u::len itself \<Rightarrow> u128 \<Rightarrow> u128 \<Rightarrow> u128" where
  "psubs128 _ dst src =
     join128 (map2 (\<lambda>(d :: 'u word) (s :: 'u word). (word_of_int (sclamp TYPE('u) (sint d - sint s))) :: 'u word)
       (split128 dst) (split128 src))"

definition psubus64 :: "'u::len itself \<Rightarrow> u64 \<Rightarrow> u64 \<Rightarrow> u64" where
  "psubus64 _ dst src =
     join_lanes (map2 (\<lambda>(d :: 'u word) (s :: 'u word). (if d \<ge> s then d - s else 0) :: 'u word)
       (split_lanes dst) (split_lanes src))"

definition psubus128 :: "'u::len itself \<Rightarrow> u128 \<Rightarrow> u128 \<Rightarrow> u128" where
  "psubus128 _ dst src =
     join128 (map2 (\<lambda>(d :: 'u word) (s :: 'u word). (if d \<ge> s then d - s else 0) :: 'u word)
       (split128 dst) (split128 src))"

section \<open>Products\<close>

text \<open>
  The lanes are multiplied in 32 bits, which holds the product of two 16-bit values, and the
  copy of the product into two 16-bit halves picks one of them.
\<close>

definition pmulhuw64 :: "u64 \<Rightarrow> u64 \<Rightarrow> u64" where
  "pmulhuw64 dst src =
     join_lanes (map2 (\<lambda>(d :: u16) (s :: u16). (ucast (drop_bit 16 (ucast d * ucast s :: u32))) :: u16)
       (split_lanes dst) (split_lanes src))"

definition pmulhuw128 :: "u128 \<Rightarrow> u128 \<Rightarrow> u128" where
  "pmulhuw128 dst src =
     join128 (map2 (\<lambda>(d :: u16) (s :: u16). (ucast (drop_bit 16 (ucast d * ucast s :: u32))) :: u16)
       (split128 dst) (split128 src))"

definition pmulhw64 :: "u64 \<Rightarrow> u64 \<Rightarrow> u64" where
  "pmulhw64 dst src =
     join_lanes (map2 (\<lambda>(d :: u16) (s :: u16). (ucast (drop_bit 16 (scast d * scast s :: u32))) :: u16)
       (split_lanes dst) (split_lanes src))"

definition pmulhw128 :: "u128 \<Rightarrow> u128 \<Rightarrow> u128" where
  "pmulhw128 dst src =
     join128 (map2 (\<lambda>(d :: u16) (s :: u16). (ucast (drop_bit 16 (scast d * scast s :: u32))) :: u16)
       (split128 dst) (split128 src))"

definition pmullw64 :: "u64 \<Rightarrow> u64 \<Rightarrow> u64" where
  "pmullw64 dst src =
     join_lanes (map2 (\<lambda>(d :: u16) (s :: u16). (ucast (scast d * scast s :: u32)) :: u16)
       (split_lanes dst) (split_lanes src))"

definition pmullw128 :: "u128 \<Rightarrow> u128 \<Rightarrow> u128" where
  "pmullw128 dst src =
     join128 (map2 (\<lambda>(d :: u16) (s :: u16). (ucast (scast d * scast s :: u32)) :: u16)
       (split128 dst) (split128 src))"

definition pmuludq64 :: "u64 \<Rightarrow> u64 \<Rightarrow> u64" where
  "pmuludq64 dst src =
     (let DST = split_lanes dst :: u32 list; SRC = split_lanes src :: u32 list
      in join_lanes (concat (map (\<lambda>i.
           let prod = (ucast (DST ! (2 * i)) :: u64) * ucast (SRC ! (2 * i))
           in [ucast prod :: u32, ucast (drop_bit 32 prod)]) [0..<1])))"

definition pmuludq128 :: "u128 \<Rightarrow> u128 \<Rightarrow> u128" where
  "pmuludq128 dst src =
     (let DST = split128 dst :: u32 list; SRC = split128 src :: u32 list
      in join128 (concat (map (\<lambda>i.
           let prod = (ucast (DST ! (2 * i)) :: u64) * ucast (SRC ! (2 * i))
           in [ucast prod :: u32, ucast (drop_bit 32 prod)]) [0..<2])))"

text \<open>
  \<^verbatim>\<open>pmaddwd\<close> adds two signed 32-bit products; the sum leaves the type when all four factors are
  the least 16-bit value.
\<close>

definition checked_i32 :: "int \<Rightarrow> u32 result" where
  "checked_i32 z = (if - (2 ^ 31) \<le> z \<and> z < 2 ^ 31 then Inr (word_of_int z) else Inl SignedOverflow)"

definition pmaddwd_lane :: "u16 list \<Rightarrow> u16 list \<Rightarrow> nat \<Rightarrow> u32 result" where
  "pmaddwd_lane DST SRC i =
     checked_i32 (sint (DST ! (2 * i)) * sint (SRC ! (2 * i))
                  + sint (DST ! (2 * i + 1)) * sint (SRC ! (2 * i + 1)))"

definition pmaddwd64 :: "u64 \<Rightarrow> u64 \<Rightarrow> u64 result" where
  "pmaddwd64 dst src =
     rbind (all_results (map (pmaddwd_lane (split_lanes dst) (split_lanes src)) [0..<2])) (\<lambda>TMP. Inr (join_lanes TMP))"

definition pmaddwd128 :: "u128 \<Rightarrow> u128 \<Rightarrow> u128 result" where
  "pmaddwd128 dst src =
     rbind (all_results (map (pmaddwd_lane (split128 dst) (split128 src)) [0..<4])) (\<lambda>TMP. Inr (join128 TMP))"

section \<open>Sums of differences, averages, extrema\<close>

definition abs_diff_sum :: "u8 list \<Rightarrow> u8 list \<Rightarrow> u16" where
  "abs_diff_sum DST SRC =
     fold (\<lambda>(d, s) res. res + word_of_int \<bar>uint d - uint s\<bar>) (zip DST SRC) 0"

definition psadbw64 :: "u64 \<Rightarrow> u64 \<Rightarrow> u64" where
  "psadbw64 dst src = ucast (abs_diff_sum (split_lanes dst) (split_lanes src))"

definition psadbw128 :: "u128 \<Rightarrow> u128 \<Rightarrow> u128" where
  "psadbw128 dst src =
     (let DST = split128 dst; SRC = split128 src
      in mk_u128 (ucast (abs_diff_sum (take 8 DST) (take 8 SRC)))
                 (ucast (abs_diff_sum (drop 8 DST) (drop 8 SRC))))"

definition pavgb64 :: "u64 \<Rightarrow> u64 \<Rightarrow> u64" where
  "pavgb64 dst src =
     join_lanes (map2 (\<lambda>(d :: u8) (s :: u8). (ucast (drop_bit 1 (ucast d + ucast s + 1 :: u32))) :: u8)
       (split_lanes dst) (split_lanes src))"

definition pavgb128 :: "u128 \<Rightarrow> u128 \<Rightarrow> u128" where
  "pavgb128 dst src =
     join128 (map2 (\<lambda>(d :: u8) (s :: u8). (ucast (drop_bit 1 (ucast d + ucast s + 1 :: u32))) :: u8)
       (split128 dst) (split128 src))"

definition pavgw64 :: "u64 \<Rightarrow> u64 \<Rightarrow> u64" where
  "pavgw64 dst src =
     join_lanes (map2 (\<lambda>(d :: u16) (s :: u16). (ucast (drop_bit 1 (ucast d + ucast s + 1 :: u32))) :: u16)
       (split_lanes dst) (split_lanes src))"

definition pavgw128 :: "u128 \<Rightarrow> u128 \<Rightarrow> u128" where
  "pavgw128 dst src =
     join128 (map2 (\<lambda>(d :: u16) (s :: u16). (ucast (drop_bit 1 (ucast d + ucast s + 1 :: u32))) :: u16)
       (split128 dst) (split128 src))"

definition pmaxsw64 :: "u64 \<Rightarrow> u64 \<Rightarrow> u64" where
  "pmaxsw64 dst src =
     join_lanes (map2 (\<lambda>(d :: u16) (s :: u16). (if sint d < sint s then s else d) :: u16)
       (split_lanes dst) (split_lanes src))"

definition pmaxsw128 :: "u128 \<Rightarrow> u128 \<Rightarrow> u128" where
  "pmaxsw128 dst src =
     join128 (map2 (\<lambda>(d :: u16) (s :: u16). (if sint d < sint s then s else d) :: u16)
       (split128 dst) (split128 src))"

definition pmaxub64 :: "u64 \<Rightarrow> u64 \<Rightarrow> u64" where
  "pmaxub64 dst src =
     join_lanes (map2 (\<lambda>(d :: u8) (s :: u8). (if d < s then s else d) :: u8)
       (split_lanes dst) (split_lanes src))"

definition pmaxub128 :: "u128 \<Rightarrow> u128 \<Rightarrow> u128" where
  "pmaxub128 dst src =
     join128 (map2 (\<lambda>(d :: u8) (s :: u8). (if d < s then s else d) :: u8)
       (split128 dst) (split128 src))"

definition pminsw64 :: "u64 \<Rightarrow> u64 \<Rightarrow> u64" where
  "pminsw64 dst src =
     join_lanes (map2 (\<lambda>(d :: u16) (s :: u16). (if sint s < sint d then s else d) :: u16)
       (split_lanes dst) (split_lanes src))"

definition pminsw128 :: "u128 \<Rightarrow> u128 \<Rightarrow> u128" where
  "pminsw128 dst src =
     join128 (map2 (\<lambda>(d :: u16) (s :: u16). (if sint s < sint d then s else d) :: u16)
       (split128 dst) (split128 src))"

definition pminub64 :: "u64 \<Rightarrow> u64 \<Rightarrow> u64" where
  "pminub64 dst src =
     join_lanes (map2 (\<lambda>(d :: u8) (s :: u8). (if s < d then s else d) :: u8)
       (split_lanes dst) (split_lanes src))"

definition pminub128 :: "u128 \<Rightarrow> u128 \<Rightarrow> u128" where
  "pminub128 dst src =
     join128 (map2 (\<lambda>(d :: u8) (s :: u8). (if s < d then s else d) :: u8)
       (split128 dst) (split128 src))"

definition ptest :: "u128 \<Rightarrow> u128 \<Rightarrow> flags \<Rightarrow> flags" where
  "ptest dst src f =
     f\<lparr>zflag := (lo dst AND lo src = 0 \<and> hi dst AND hi src = 0),
       carry := (NOT (lo dst) AND lo src = 0 \<and> NOT (hi dst) AND hi src = 0)\<rparr>"

section \<open>Shifts\<close>

text \<open>
  A lane is shifted after its promotion to at least 32 bits, so a count from
  \<open>promoted_width\<close> on has no defined result; the count itself is converted to the lane type
  first, which keeps an unsigned byte.
\<close>

definition lane_shift ::
  "('u::len word \<Rightarrow> 'u word) \<Rightarrow> u8 \<Rightarrow> 'u word list \<Rightarrow> 'u word list result" where
  "lane_shift f src DST =
     (if unat src < promoted_width TYPE('u) then Inr (map f DST) else Inl ShiftOutOfRange)"

definition psra64 :: "'u::len itself \<Rightarrow> u64 \<Rightarrow> u8 \<Rightarrow> u64 result" where
  "psra64 _ dst src =
     rbind (lane_shift (signed_drop_bit (unat src) :: 'u word \<Rightarrow> 'u word) src (split_lanes dst)) (\<lambda>DST. Inr (join_lanes DST))"

definition psra128 :: "'u::len itself \<Rightarrow> u128 \<Rightarrow> u8 \<Rightarrow> u128 result" where
  "psra128 _ dst src =
     rbind (lane_shift (signed_drop_bit (unat src) :: 'u word \<Rightarrow> 'u word) src (split128 dst)) (\<lambda>DST. Inr (join128 DST))"

definition psll64 :: "'u::len itself \<Rightarrow> u64 \<Rightarrow> u8 \<Rightarrow> u64 result" where
  "psll64 _ dst src =
     rbind (lane_shift (push_bit (unat src) :: 'u word \<Rightarrow> 'u word) src (split_lanes dst)) (\<lambda>DST. Inr (join_lanes DST))"

definition psll128 :: "'u::len itself \<Rightarrow> u128 \<Rightarrow> u8 \<Rightarrow> u128 result" where
  "psll128 _ dst src =
     rbind (lane_shift (push_bit (unat src) :: 'u word \<Rightarrow> 'u word) src (split128 dst)) (\<lambda>DST. Inr (join128 DST))"

definition psrl64 :: "'u::len itself \<Rightarrow> u64 \<Rightarrow> u8 \<Rightarrow> u64 result" where
  "psrl64 _ dst src =
     rbind (lane_shift (drop_bit (unat src) :: 'u word \<Rightarrow> 'u word) src (split_lanes dst)) (\<lambda>DST. Inr (join_lanes DST))"

definition psrl128 :: "'u::len itself \<Rightarrow> u128 \<Rightarrow> u8 \<Rightarrow> u128 result" where
  "psrl128 _ dst src =
     rbind (lane_shift (drop_bit (unat src) :: 'u word \<Rightarrow> 'u word) src (split128 dst)) (\<lambda>DST. Inr (join128 DST))"

definition shift_right :: "'a::len word \<Rightarrow> nat \<Rightarrow> 'a word result" where
  "shift_right x n =
     (if n < promoted_width TYPE('a) then Inr (drop_bit n x) else Inl ShiftOutOfRange)"

definition pslldq :: "u128 \<Rightarrow> u8 \<Rightarrow> u128 result" where
  "pslldq dst src =
     (let n = unat src
      in if n \<ge> 16 then Inr (mk_u128 0 0)
         else if n \<ge> 8 then Inr (mk_u128 0 (push_bit (8 * (n - 8)) (lo dst)))
         else rbind (shift_right (lo dst) (64 - 8 * n)) (\<lambda>up.
              Inr (mk_u128 (push_bit (8 * n) (lo dst)) (push_bit (8 * n) (hi dst) OR up))))"

definition psrldq :: "u128 \<Rightarrow> u8 \<Rightarrow> u128 result" where
  "psrldq dst src =
     (let n = unat src
      in if n \<ge> 16 then Inr (mk_u128 0 0)
         else if n \<ge> 8 then Inr (mk_u128 (drop_bit (8 * (n - 8)) (hi dst)) 0)
         else rbind (shift_left (hi dst) (64 - 8 * n)) (\<lambda>down.
              Inr (mk_u128 (drop_bit (8 * n) (lo dst) OR down) (drop_bit (8 * n) (hi dst)))))"

section \<open>Lists of lanes\<close>

named_theorems lane_simps \<open>splitting a joined list of lanes\<close>

lemmas [lane_simps] =
  b8.split_join w4.split_join d2.split_join q1.split_join
  b16.split_join w8.split_join d4.split_join q2.split_join

lemma half_small: "half TYPE(8) = 128" "half TYPE(16) = 32768" "half TYPE(32) = 2147483648"
  by (simp_all add: half_def)

section \<open>Saturation\<close>

definition saturates ::
  "('a::len word \<Rightarrow> int) \<Rightarrow> (int \<Rightarrow> int \<Rightarrow> int) \<Rightarrow> int \<Rightarrow> int
   \<Rightarrow> 'a word list \<Rightarrow> 'a word list \<Rightarrow> 'a word list \<Rightarrow> bool" where
  "saturates val op least greatest DST SRC RES \<longleftrightarrow>
     map val RES = map2 (\<lambda>d s. max least (min greatest (op (val d) (val s)))) DST SRC"

lemma sint_sclamp:
  "sint (word_of_int (sclamp TYPE('a) z) :: 'a::len word) = max (- half TYPE('a)) (min (half TYPE('a) - 1) z)"
proof -
  have e: "sclamp TYPE('a) z = max (- half TYPE('a)) (min (half TYPE('a) - 1) z)"
    unfolding sclamp_def Let_def half_def [of "TYPE('a)", symmetric] using half_pos [where 'a = 'a] by auto
  show ?thesis unfolding e
    by (rule sint_of_int_half) (use half_pos [where 'a = 'a] in auto)
qed

lemma uint_uclamp:
  assumes "0 \<le> z"
  shows "uint (word_of_int (uclamp TYPE('a) z) :: 'a::len word) = max 0 (min (2 * half TYPE('a) - 1) z)"
proof -
  have e: "uclamp TYPE('a) z = max 0 (min (2 * half TYPE('a) - 1) z)"
    using assms half_pos [where 'a = 'a] by (auto simp: uclamp_def modulus_half)
  show ?thesis unfolding e uint_of_int_half
    by (rule mod_twice(1) [OF half_pos]) (use half_pos [where 'a = 'a] in auto)
qed

lemma uint_psubus:
  "uint (if d \<ge> s then d - s else 0) = max 0 (min (2 * half TYPE('a) - 1) (uint d - uint s))"
  for d s :: "'a::len word"
proof (cases "s \<le> d")
  case True
  have "uint (d - s) = uint d - uint s" using True uint_sub_lem [of s d] by (simp add: word_le_def)
  moreover have "0 \<le> uint d - uint s" using True by (simp add: word_le_def)
  moreover have "uint d - uint s \<le> 2 * half TYPE('a) - 1"
    using uint_range_half [of d] uint_ge_0 [of s] by linarith
  ultimately show ?thesis using True by simp
next
  case False
  then show ?thesis by (simp add: word_le_def)
qed

lemma map2_val: "(\<And>d s. val (f d s) = g d s) \<Longrightarrow> map val (map2 f xs ys) = map2 g xs ys"
  by (simp add: case_prod_beta)

lemma saturating_lanes:
  fixes xs ys :: "'a::len word list"
  shows "saturates sint (+) (- half TYPE('a)) (half TYPE('a) - 1) xs ys
      (map2 (\<lambda>d s. word_of_int (sclamp TYPE('a) (sint d + sint s))) xs ys)"
    and "saturates sint (-) (- half TYPE('a)) (half TYPE('a) - 1) xs ys
      (map2 (\<lambda>d s. word_of_int (sclamp TYPE('a) (sint d - sint s))) xs ys)"
    and "saturates uint (+) 0 (2 * half TYPE('a) - 1) xs ys
      (map2 (\<lambda>d s. word_of_int (uclamp TYPE('a) (uint d + uint s))) xs ys)"
    and "saturates uint (-) 0 (2 * half TYPE('a) - 1) xs ys
      (map2 (\<lambda>d s. if d \<ge> s then d - s else 0) xs ys)"
  unfolding saturates_def
  by (rule map2_val, rule sint_sclamp, rule map2_val, rule sint_sclamp,
      rule map2_val, rule uint_uclamp, simp, rule map2_val, rule uint_psubus)

section \<open>Interleavings\<close>

lemma interleave_append:
  "length as = length bs \<Longrightarrow>
   interleave (as @ cs) (bs @ ds) = interleave as bs @ interleave cs ds"
  by (simp add: interleave_def)

lemma length_interleave: "length (interleave xs ys) = 2 * min (length xs) (length ys)"
  by (induction xs ys rule: list_induct2') (simp_all add: interleave_def)

lemma interleave_halves:
  assumes "length xs = length ys"
  shows "interleave (take n xs) (take n ys) @ interleave (drop n xs) (drop n ys) = interleave xs ys"
  using assms by (simp flip: interleave_append)


lemma map2_map2_cong:
  "(\<And>d s. h (f d s) (g d s) = k d s) \<Longrightarrow>
   map2 h (map2 f xs ys) (map2 g xs ys) = map2 k xs ys"
  by (induction xs ys rule: list_induct2') simp_all

section \<open>Properties\<close>

text \<open>
  Packed wrapping addition and subtraction undo each other at every lane width, in both
  register sizes: no carry leaks from a lane into its neighbour in either direction.
\<close>

theorem padd_psub_inverse:
  "psub64 TYPE(8) (padd64 TYPE(8) d s) s = d \<and> psub64 TYPE(16) (padd64 TYPE(16) d s) s = d
   \<and> psub64 TYPE(32) (padd64 TYPE(32) d s) s = d \<and> psub64 TYPE(64) (padd64 TYPE(64) d s) s = d
   \<and> psub128 TYPE(8) (padd128 TYPE(8) x y) y = x \<and> psub128 TYPE(16) (padd128 TYPE(16) x y) y = x
   \<and> psub128 TYPE(32) (padd128 TYPE(32) x y) y = x \<and> psub128 TYPE(64) (padd128 TYPE(64) x y) y = x"
  unfolding padd64_def psub64_def padd128_def psub128_def
  by (intro conjI b8.map2_inverse w4.map2_inverse d2.map2_inverse q1.map2_inverse
      b16.map2_inverse w8.map2_inverse d4.map2_inverse q2.map2_inverse; simp)

text \<open>
  The saturating additions and subtractions return, in every lane, the exact signed or
  unsigned result clamped to the range of the lane.
\<close>

theorem saturating_arithmetic:
  "saturates sint (+) (- 128) 127 (split_lanes d :: u8 list) (split_lanes s) (split_lanes (padds64 TYPE(8) d s))
   \<and> saturates sint (+) (- 32768) 32767 (split_lanes d :: u16 list) (split_lanes s) (split_lanes (padds64 TYPE(16) d s))
   \<and> saturates uint (+) 0 255 (split_lanes d :: u8 list) (split_lanes s) (split_lanes (paddus64 TYPE(8) d s))
   \<and> saturates uint (+) 0 65535 (split_lanes d :: u16 list) (split_lanes s) (split_lanes (paddus64 TYPE(16) d s))
   \<and> saturates sint (-) (- 128) 127 (split_lanes d :: u8 list) (split_lanes s) (split_lanes (psubs64 TYPE(8) d s))
   \<and> saturates sint (-) (- 32768) 32767 (split_lanes d :: u16 list) (split_lanes s) (split_lanes (psubs64 TYPE(16) d s))
   \<and> saturates uint (-) 0 255 (split_lanes d :: u8 list) (split_lanes s) (split_lanes (psubus64 TYPE(8) d s))
   \<and> saturates uint (-) 0 65535 (split_lanes d :: u16 list) (split_lanes s) (split_lanes (psubus64 TYPE(16) d s))
   \<and> saturates sint (+) (- 128) 127 (split128 x :: u8 list) (split128 y) (split128 (padds128 TYPE(8) x y))
   \<and> saturates sint (+) (- 32768) 32767 (split128 x :: u16 list) (split128 y) (split128 (padds128 TYPE(16) x y))
   \<and> saturates uint (+) 0 255 (split128 x :: u8 list) (split128 y) (split128 (paddus128 TYPE(8) x y))
   \<and> saturates uint (+) 0 65535 (split128 x :: u16 list) (split128 y) (split128 (paddus128 TYPE(16) x y))
   \<and> saturates sint (-) (- 128) 127 (split128 x :: u8 list) (split128 y) (split128 (psubs128 TYPE(8) x y))
   \<and> saturates sint (-) (- 32768) 32767 (split128 x :: u16 list) (split128 y) (split128 (psubs128 TYPE(16) x y))
   \<and> saturates uint (-) 0 255 (split128 x :: u8 list) (split128 y) (split128 (psubus128 TYPE(8) x y))
   \<and> saturates uint (-) 0 65535 (split128 x :: u16 list) (split128 y) (split128 (psubus128 TYPE(16) x y))"
  unfolding padds64_def paddus64_def psubs64_def psubus64_def
    padds128_def paddus128_def psubs128_def psubus128_def
    b8.split_map2 w4.split_map2 b16.split_map2 w8.split_map2
  using saturating_lanes [where 'a = 8] saturating_lanes [where 'a = 16]
  by (simp add: half_small)

text \<open>
  The low and the high interleaving of two operands together hold every lane of both: side
  by side they are the lanes of the operands, alternating.
\<close>

theorem unpack_interleaves:
  "split_lanes (punpcklbw64 d s) @ split_lanes (punpckhbw64 d s)
     = interleave (split_lanes d :: u8 list) (split_lanes s)
   \<and> split_lanes (punpcklwd64 d s) @ split_lanes (punpckhwd64 d s)
     = interleave (split_lanes d :: u16 list) (split_lanes s)
   \<and> split_lanes (punpckldq64 d s) @ split_lanes (punpckhdq64 d s)
     = interleave (split_lanes d :: u32 list) (split_lanes s)
   \<and> split128 (punpcklbw128 x y) @ split128 (punpckhbw128 x y)
     = interleave (split128 x :: u8 list) (split128 y)
   \<and> split128 (punpcklwd128 x y) @ split128 (punpckhwd128 x y)
     = interleave (split128 x :: u16 list) (split128 y)
   \<and> split128 (punpckldq128 x y) @ split128 (punpckhdq128 x y)
     = interleave (split128 x :: u32 list) (split128 y)
   \<and> [lo (punpcklqdq x y), hi (punpcklqdq x y), lo (punpckhqdq x y), hi (punpckhqdq x y)]
     = interleave [lo x, hi x] [lo y, hi y]"
proof -
  have q: "interleave [lo x, hi x] [lo y, hi y] = [lo x, lo y, hi x, hi y]"
    by (simp add: interleave_def)
  show ?thesis
    unfolding punpcklbw64_def punpckhbw64_def punpcklwd64_def punpckhwd64_def punpckldq64_def
      punpckhdq64_def punpcklbw128_def punpckhbw128_def punpcklwd128_def punpckhwd128_def
      punpckldq128_def punpckhdq128_def q
    by (simp add: lane_simps length_interleave interleave_halves punpcklqdq_def punpckhqdq_def)
qed

section \<open>Shuffles\<close>

lemma all_results_Inr:
  "all_results rs = Inr xs \<longleftrightarrow> rs = map Inr xs"
  by (induction rs arbitrary: xs) (auto simp: all_results_def rbind_eq_Inr)

lemma all_results_Cons: "all_results (r # rs) = rbind r (\<lambda>x. rbind (all_results rs) (\<lambda>xs. Inr (x # xs)))"
  by (simp add: all_results_def)

lemma all_results_Nil: "all_results [] = Inr []"
  by (simp add: all_results_def)

lemma all_results_Inl:
  assumes "\<And>r. r \<in> set rs \<Longrightarrow> r = Inl e \<or> (\<exists>x. r = Inr x)" "all_results rs = Inl e'"
  shows "e' = e"
  using assms
proof (induction rs arbitrary: e')
  case Nil
  then show ?case by (simp add: all_results_Nil)
next
  case (Cons r rs)
  then show ?case
    by (cases r; cases "all_results rs") (auto simp: all_results_Cons)
qed

lemma order_field_less: "order_field order k < 4"
proof -
  have "(0x3 :: u8) = mask 2" by (simp add: mask_eq_exp_minus_1)
  then show ?thesis using unat_and_mask [of "drop_bit k order" 2] by (simp add: order_field_def)
qed

lemma low_nibble_less: "unat (s AND 0x0F) < 16" for s :: u8
proof -
  have "(0x0F :: u8) = mask 4" by (simp add: mask_eq_exp_minus_1)
  then show ?thesis using unat_and_mask [of s 4] by simp
qed

text \<open>The control of a shuffle that has the effect of two: first \<open>s\<close>, then \<open>t\<close>.\<close>

definition compose_control :: "u128 \<Rightarrow> u128 \<Rightarrow> u128" where
  "compose_control s t =
     join128 (map (\<lambda>c :: u8. if c AND 0x80 = 0x80 then 0x80 else (split128 s :: u8 list) ! unat (c AND 0x0F))
                  (split128 t))"

definition compose_order :: "u8 \<Rightarrow> u8 \<Rightarrow> u8" where
  "compose_order o1 o2 =
     foldr (\<lambda>k acc. 4 * acc + word_of_nat (order_field o1 (2 * order_field o2 k))) [0, 2, 4, 6] 0"

lemma pshufb128_lane:
  assumes "i < 16"
  shows "split128 (pshufb128 dst src) ! i =
    (if (split128 src ! i :: u8) AND 0x80 = 0x80 then 0
     else (split128 dst :: u8 list) ! unat (split128 src ! i AND (0x0F :: u8)))"
  unfolding pshufb128_def Let_def using assms
  by (subst b16.nth_map) simp_all

lemma pshufb128_compose:
  "pshufb128 (pshufb128 d s) t = pshufb128 d (compose_control s t)"
proof (rule b16.eqI)
  fix i :: nat assume i: "i < 16"
  have c: "(split128 (compose_control s t) :: u8 list) ! i =
      (if (split128 t ! i :: u8) AND 0x80 = 0x80 then 0x80 else (split128 s :: u8 list) ! unat (split128 t ! i AND (0x0F :: u8)))"
    unfolding compose_control_def by (rule b16.nth_map [OF i])
  show "(split128 (pshufb128 (pshufb128 d s) t) :: u8 list) ! i
      = split128 (pshufb128 d (compose_control s t)) ! i"
    unfolding pshufb128_lane [OF i] pshufb128_lane [OF low_nibble_less] c by simp
qed

lemma order_field_compose:
  "order_field (compose_order o1 o2) 0 = order_field o1 (2 * order_field o2 0)"
  "order_field (compose_order o1 o2) 2 = order_field o1 (2 * order_field o2 2)"
  "order_field (compose_order o1 o2) 4 = order_field o1 (2 * order_field o2 4)"
  "order_field (compose_order o1 o2) 6 = order_field o1 (2 * order_field o2 6)"
proof -
  let ?f = "\<lambda>k. order_field o1 (2 * order_field o2 k)"
  have lt: "?f k < 4" for k by (rule order_field_less)
  have pick: "order_field (word_of_nat (a + 4 * (b + 4 * (c + 4 * d))) :: u8) 0 = a
    \<and> order_field (word_of_nat (a + 4 * (b + 4 * (c + 4 * d))) :: u8) 2 = b
    \<and> order_field (word_of_nat (a + 4 * (b + 4 * (c + 4 * d))) :: u8) 4 = c
    \<and> order_field (word_of_nat (a + 4 * (b + 4 * (c + 4 * d))) :: u8) 6 = d"
    if "a < 4" "b < 4" "c < 4" "d < 4" for a b c d :: nat
  proof -
    have "a \<in> {0, 1, 2, 3}" "b \<in> {0, 1, 2, 3}" "c \<in> {0, 1, 2, 3}" "d \<in> {0, 1, 2, 3}"
      using that by auto
    then show ?thesis by (elim insertE emptyE; simp add: order_field_def)
  qed
  have "compose_order o1 o2 = word_of_nat (?f 0 + 4 * (?f 2 + 4 * (?f 4 + 4 * ?f 6)))"
    by (simp add: compose_order_def algebra_simps)
  with pick [OF lt [of 0] lt [of 2] lt [of 4] lt [of 6]]
  show "order_field (compose_order o1 o2) 0 = ?f 0" "order_field (compose_order o1 o2) 2 = ?f 2"
    "order_field (compose_order o1 o2) 4 = ?f 4" "order_field (compose_order o1 o2) 6 = ?f 6"
    by simp_all
qed

lemma nth_four_fields:
  "[xs ! f 0, xs ! f 2, xs ! f 4, xs ! f 6] ! order_field q k = xs ! f (2 * order_field q k)"
  using order_field_less [of q k] by (auto simp: less_Suc_eq numeral_eq_Suc)

lemma pshufd_compose: "pshufd (pshufd src o1) o2 = pshufd src (compose_order o1 o2)"
  unfolding pshufd_def Let_def order_field_compose
  by (subst d4.split_join, simp)+ (simp add: nth_four_fields)

lemma pshufw_compose: "pshufw (pshufw src o1) o2 = pshufw src (compose_order o1 o2)"
  unfolding pshufw_def Let_def order_field_compose
  by (subst w4.split_join, simp)+ (simp add: nth_four_fields)

lemma and_exp: "s AND 2 ^ n = (if bit s n then 2 ^ n else 0)" for s :: "'a::len word"
  by (rule bit_word_eqI) (auto simp: bit_and_iff bit_exp_iff)

lemma byte_selector:
  "(s AND 0x80 = 0x80) = bit s 7" "(unat (s AND 0x0F) < 8) = (\<not> bit s 3)" for s :: u8
proof -
  show "(s AND 0x80 = 0x80) = bit s 7" using and_exp [of s 7] by (simp split: if_splits)
  have "(0x0F :: u8) = mask 4" by (simp add: mask_eq_exp_minus_1)
  then have "unat (s AND 0x0F) = unat s mod 16"
    by (simp only: take_bit_eq_mask [symmetric] unsigned_take_bit_eq) (simp add: take_bit_eq_mod)
  moreover have "bit s 3 = odd (unat s div 8)"
    using bit_unat_iff [of s 3] by (simp add: bit_iff_odd)
  moreover have "(n mod 16 < 8) = even (n div 8)" for n :: nat by presburger
  ultimately show "(unat (s AND 0x0F) < 8) = (\<not> bit s 3)" by simp
qed

lemma pshufb64_fails:
  "(case pshufb64 dst src of
      Inl e \<Rightarrow> e = IndexOutOfRange \<and> (\<exists>s \<in> set (split_lanes src :: u8 list). \<not> bit s 7 \<and> bit s 3)
    | Inr res \<Rightarrow> \<not> (\<exists>s \<in> set (split_lanes src :: u8 list). \<not> bit s 7 \<and> bit s 3))"
proof -
  let ?g = "\<lambda>s :: u8. if bit s 7 then Inr 0
            else if \<not> bit s 3 then Inr ((split_lanes dst :: u8 list) ! unat (s AND 0x0F))
            else Inl IndexOutOfRange"
  let ?xs = "split_lanes src :: u8 list"
  have ok: "(\<exists>ys. map ?g xs = map Inr ys) \<longleftrightarrow> \<not> (\<exists>s \<in> set xs. \<not> bit s 7 \<and> bit s 3)" for xs
    by (induction xs) (auto simp: Cons_eq_map_conv)
  show ?thesis
  proof (cases "all_results (map ?g ?xs)")
    case (Inl e)
    then have "e = IndexOutOfRange" by (intro all_results_Inl [of "map ?g ?xs"]) auto
    moreover have "\<nexists>ys. map ?g ?xs = map Inr ys"
      using Inl by (metis all_results_Inr sum.distinct(1))
    ultimately show ?thesis
      using Inl ok [of ?xs] unfolding pshufb64_def Let_def byte_selector by simp
  next
    case (Inr ys)
    then have "map ?g ?xs = map Inr ys" by (simp only: all_results_Inr)
    then have "\<not> (\<exists>s \<in> set ?xs. \<not> bit s 7 \<and> bit s 3)" using ok [of ?xs] by blast
    then show ?thesis
      using Inr unfolding pshufb64_def Let_def byte_selector by simp
  qed
qed

text \<open>
  Shuffles compose: two byte shuffles, two doubleword shuffles or two word shuffles in a row
  are one, under a control that can be computed from the two controls. The 64-bit byte
  shuffle fails exactly when a selector that is not negative has bit 3 set.
\<close>

theorem shuffles_compose:
  "pshufb128 (pshufb128 d s) t = pshufb128 d (compose_control s t)
   \<and> pshufd (pshufd d o1) o2 = pshufd d (compose_order o1 o2)
   \<and> pshufw (pshufw q o1) o2 = pshufw q (compose_order o1 o2)
   \<and> (case pshufb64 q r of
        Inl e \<Rightarrow> e = IndexOutOfRange \<and> list_ex (\<lambda>b. \<not> bit b 7 \<and> bit b 3) (split_lanes r :: u8 list)
      | Inr res \<Rightarrow> \<not> list_ex (\<lambda>b. \<not> bit b 7 \<and> bit b 3) (split_lanes r :: u8 list))"
  using pshufb64_fails [where dst = q and src = r]
  by (simp add: pshufb128_compose pshufd_compose pshufw_compose list_ex_iff split: sum.splits)

section \<open>Comparisons and masks\<close>

lemma bit_movmsk_fold:
  "bit (fold (pmovmskb_step SRC) [0..<n] 0) i \<longleftrightarrow> i < 16 \<and> i < n \<and> bit (SRC ! i) 7"
proof (induction n)
  case (Suc n)
  have "bit (push_bit n (ucast (drop_bit 7 (SRC ! n) AND 0x1) :: u16)) i \<longleftrightarrow> i < 16 \<and> i = n \<and> bit (SRC ! n) 7"
    unfolding drop_bit_and_1 by (auto simp: bit_simps)
  with Suc show ?case by (auto simp: pmovmskb_step_def bit_or_iff less_Suc_eq)
qed simp

text \<open>
  Comparing bytes and collecting the sign bits gives one bit per byte, set exactly where
  the bytes are equal (\<^verbatim>\<open>pcmpeqb\<close>) or the first is greater as a signed byte
  (\<^verbatim>\<open>pcmpgtb\<close>): the idiom vectorised string functions rely on.
\<close>

theorem compare_and_mask:
  "bit (pmovmskb128 (pcmpeq128 TYPE(8) x y)) i
     = (i < 16 \<and> (split128 x :: u8 list) ! i = split128 y ! i)
   \<and> bit (pmovmskb128 (pcmpgt128 TYPE(8) x y)) i
     = (i < 16 \<and> sint ((split128 x :: u8 list) ! i) > sint ((split128 y :: u8 list) ! i))
   \<and> bit (pmovmskb64 (pcmpeq64 TYPE(8) d s)) i
     = (i < 8 \<and> (split_lanes d :: u8 list) ! i = split_lanes s ! i)
   \<and> bit (pmovmskb64 (pcmpgt64 TYPE(8) d s)) i
     = (i < 8 \<and> sint ((split_lanes d :: u8 list) ! i) > sint ((split_lanes s :: u8 list) ! i))"
  by (auto simp: pmovmskb128_def pmovmskb64_def bit_movmsk_fold pcmpeq128_def pcmpgt128_def
      pcmpeq64_def pcmpgt64_def b16.nth_map2 b8.nth_map2 split: if_splits)

section \<open>Products\<close>

lemma mod_square_div: "0 < N \<Longrightarrow> z mod (N * N) div N = z div N mod (N :: int)"
proof -
  assume N: "0 < N"
  have "z mod (N * N) = N * (z div N mod N) + z mod N" using N by (simp add: zmod_zmult2_eq)
  then show ?thesis using N by simp
qed

lemma product_halves:
  fixes w :: u32 and z :: int
  assumes "w = word_of_int z"
  shows "uint (ucast (drop_bit 16 w) :: u16) = z div 65536 mod 65536"
    and "uint (ucast w :: u16) = z mod 65536"
proof -
  have u: "uint w = z mod (65536 * 65536)" using assms by (simp add: uint_word_of_int)
  have "uint (ucast (drop_bit 16 w) :: u16) = z mod (65536 * 65536) div 65536 mod 65536"
    by (simp add: uint_ucast_down uint_drop_bit u)
  also have "\<dots> = z div 65536 mod 65536" using mod_square_div [of 65536 z] by simp
  finally show "uint (ucast (drop_bit 16 w) :: u16) = z div 65536 mod 65536" .
  show "uint (ucast w :: u16) = z mod 65536"
    using mod_mod_cancel [of 65536 "65536 * 65536" z] by (simp add: uint_ucast_down u)
qed

lemma scast_product: "scast d * scast s = (word_of_int (sint d * sint s) :: u32)" for d s :: u16
  by (simp only: scast_eq of_int_mult)

lemma ucast_product: "ucast d * ucast s = (word_of_int (uint d * uint s) :: u32)" for d s :: u16
  by (simp only: ucast_eq of_int_mult)

lemma u16_as_int: "word_of_int z = (w :: u16) \<Longrightarrow> uint w = z mod 65536"
  by (auto simp: uint_word_of_int)

lemma signed_product_lane:
  fixes d s :: u16
  shows "sint (ucast (drop_bit 16 (scast d * scast s :: u32)) :: u16) * 65536
       + uint (ucast (scast d * scast s :: u32) :: u16) = sint d * sint s"
proof -
  let ?z = "sint d * sint s"
  have h: "ucast (drop_bit 16 (scast d * scast s :: u32)) = (word_of_int (?z div 65536) :: u16)"
    unfolding word_uint_eq_iff product_halves(1) [OF scast_product]
    by (simp only: uint_word_of_int) simp
  have l: "ucast (scast d * scast s :: u32) = (word_of_int ?z :: u16)"
    unfolding word_uint_eq_iff product_halves(2) [OF scast_product]
    by (simp only: uint_word_of_int) simp
  show ?thesis
    using imul_widening_product [of d s] unfolding h l exact_signed_product_def imul_widening_def Let_def
    by simp
qed

lemma unsigned_product_lane:
  fixes d s :: u16
  shows "uint (ucast (drop_bit 16 (ucast d * ucast s :: u32)) :: u16) * 65536
       + uint (ucast (scast d * scast s :: u32) :: u16) = uint d * uint s"
proof -
  let ?z = "uint d * uint s"
  have "sint d mod 65536 = uint d mod 65536" "sint s mod 65536 = uint s mod 65536"
    by (simp_all add: sint_half half_def)
  then have m: "(sint d * sint s) mod 65536 = ?z mod 65536" by (metis mod_mult_cong)
  have "?z < 65536 * 65536"
    by (rule mult_strict_mono) (use uint_lt2p [of d] uint_lt2p [of s] in simp_all)
  then have "(?z div 65536 mod 65536) * 65536 + ?z mod 65536 = ?z"
    by (intro high_low_split) simp_all
  then show ?thesis
    unfolding product_halves(1) [OF ucast_product] product_halves(2) [OF scast_product] m .
qed

lemma pmaddwd_bound:
  fixes a b c d :: int
  assumes "- 32768 \<le> a" "a \<le> 32767" "- 32768 \<le> b" "b \<le> 32767"
    "- 32768 \<le> c" "c \<le> 32767" "- 32768 \<le> d" "d \<le> 32767"
  shows "- (2 ^ 31) \<le> a * b + c * d"
    and "a * b + c * d < 2 ^ 31 \<longleftrightarrow> \<not> (a = - 32768 \<and> b = - 32768 \<and> c = - 32768 \<and> d = - 32768)"
proof -
  have one: "- 1073741824 \<le> x * y \<and> x * y \<le> 1073741824 \<and> (x * y = 1073741824 \<longrightarrow> x = - 32768 \<and> y = - 32768)"
    if "- 32768 \<le> x" "x \<le> 32767" "- 32768 \<le> y" "y \<le> 32767" for x y :: int
  proof -
    have ax: "\<bar>x\<bar> \<le> 32768" "\<bar>y\<bar> \<le> 32768" using that by auto
    then have "\<bar>x * y\<bar> \<le> 32768 * 32768" unfolding abs_mult by (intro mult_mono) auto
    moreover have "x = - 32768 \<and> y = - 32768" if e: "x * y = 1073741824"
    proof -
      have "\<bar>x\<bar> * \<bar>y\<bar> = 32768 * 32768" using e by (simp flip: abs_mult)
      moreover have "\<bar>x\<bar> * \<bar>y\<bar> \<le> \<bar>x\<bar> * 32768" "\<bar>x\<bar> * \<bar>y\<bar> \<le> 32768 * \<bar>y\<bar>"
        using ax by (simp_all add: mult_left_mono mult_right_mono)
      ultimately have "\<bar>x\<bar> = 32768" "\<bar>y\<bar> = 32768" using ax by simp_all
      then show ?thesis using \<open>x \<le> 32767\<close> \<open>y \<le> 32767\<close> by auto
    qed
    ultimately show ?thesis by auto
  qed
  define p where "p = a * b"
  define q where "q = c * d"
  have pq: "- 1073741824 \<le> p" "p \<le> 1073741824" "- 1073741824 \<le> q" "q \<le> 1073741824"
    using one [of a b] one [of c d] assms unfolding p_def q_def by blast+
  have tops: "p = 1073741824 \<longleftrightarrow> a = - 32768 \<and> b = - 32768" "q = 1073741824 \<longleftrightarrow> c = - 32768 \<and> d = - 32768"
    using one [of a b] one [of c d] assms unfolding p_def q_def by auto
  show "- (2 ^ 31) \<le> a * b + c * d"
    using pq unfolding p_def [symmetric] q_def [symmetric] by simp
  have "p + q < 2 ^ 31 \<longleftrightarrow> \<not> (p = 1073741824 \<and> q = 1073741824)" using pq by auto
  then show "a * b + c * d < 2 ^ 31 \<longleftrightarrow> \<not> (a = - 32768 \<and> b = - 32768 \<and> c = - 32768 \<and> d = - 32768)"
    unfolding tops unfolding p_def q_def by blast
qed

definition all_least :: "u16 list \<Rightarrow> u16 list \<Rightarrow> nat \<Rightarrow> bool" where
  "all_least DST SRC i \<longleftrightarrow>
     sint (DST ! (2 * i)) = - 32768 \<and> sint (SRC ! (2 * i)) = - 32768
     \<and> sint (DST ! (2 * i + 1)) = - 32768 \<and> sint (SRC ! (2 * i + 1)) = - 32768"

definition dot2 :: "u16 list \<Rightarrow> u16 list \<Rightarrow> nat \<Rightarrow> int" where
  "dot2 DST SRC i = sint (DST ! (2 * i)) * sint (SRC ! (2 * i))
                  + sint (DST ! (2 * i + 1)) * sint (SRC ! (2 * i + 1))"

lemma sint16_range: "- 32768 \<le> sint w \<and> sint w \<le> 32767" for w :: u16
  using sint_range_half [of w] by (simp add: half_def)

lemma pmaddwd_lane_cases:
  "pmaddwd_lane DST SRC i =
    (if all_least DST SRC i then Inl SignedOverflow else Inr (word_of_int (dot2 DST SRC i)))"
proof -
  have r: "- 32768 \<le> sint w" "sint w \<le> 32767" for w :: u16 using sint16_range [of w] by auto
  note b = pmaddwd_bound [OF r r r r]
  show ?thesis
    using b by (auto simp: pmaddwd_lane_def checked_i32_def all_least_def dot2_def)
qed

lemma sint_dot2:
  assumes "\<not> all_least DST SRC i"
  shows "sint (word_of_int (dot2 DST SRC i) :: u32) = dot2 DST SRC i"
proof -
  have r: "- 32768 \<le> sint w" "sint w \<le> 32767" for w :: u16 using sint16_range [of w] by auto
  note b = pmaddwd_bound [OF r r r r]
  show ?thesis
  proof (rule sint_of_int_half)
    show "- half TYPE(32) \<le> dot2 DST SRC i" using b(1) by (simp add: half_def dot2_def)
    show "dot2 DST SRC i < half TYPE(32)"
      using b(2) assms by (auto simp: half_def dot2_def all_least_def)
  qed
qed

lemma pmaddwd_spec:
  "case all_results (map (pmaddwd_lane DST SRC) is) of
      Inl e \<Rightarrow> e = SignedOverflow \<and> list_ex (all_least DST SRC) is
    | Inr TMP \<Rightarrow> map sint TMP = map (dot2 DST SRC) is"
proof (induction "is")
  case (Cons i "is")
  then show ?case
    by (auto simp: all_results_Cons pmaddwd_lane_cases sint_dot2 split: sum.splits)
qed (simp add: all_results_Nil)

lemma join_two_halves:
  "join_lanes [ucast p, ucast (drop_bit 32 p) :: u32] = (p :: u64)"
proof -
  have "[ucast p, ucast (drop_bit 32 p) :: u32] = split_lanes p"
    by (simp add: split_lanes_def upt_rec)
  then show ?thesis by (simp add: d2.join_split)
qed

lemma join128_four: "join128 [a, b, c, d :: u32] = mk_u128 (join_lanes [a, b]) (join_lanes [c, d])"
  by (simp add: join128_def Let_def del: join_lanes.simps)

lemma uint_ucast_mult32:
  "uint ((ucast (a :: u32) :: u64) * ucast (b :: u32)) = uint a * uint b"
proof -
  have "uint a * uint b < 2 ^ 32 * 2 ^ 32"
    by (rule mult_strict_mono) (use uint_lt2p [of a] uint_lt2p [of b] in simp_all)
  then show ?thesis by (simp add: uint_word_ariths uint_ucast_up)
qed

lemma product_lane_lists:
  fixes xs ys :: "u16 list"
  shows "map2 (\<lambda>h l. sint h * 65536 + uint l)
      (map2 (\<lambda>d s. ucast (drop_bit 16 (scast d * scast s :: u32)) :: u16) xs ys)
      (map2 (\<lambda>d s. ucast (scast d * scast s :: u32) :: u16) xs ys)
    = map2 (\<lambda>a b. sint a * sint b) xs ys"
  and "map2 (\<lambda>h l. uint h * 65536 + uint l)
      (map2 (\<lambda>d s. ucast (drop_bit 16 (ucast d * ucast s :: u32)) :: u16) xs ys)
      (map2 (\<lambda>d s. ucast (scast d * scast s :: u32) :: u16) xs ys)
    = map2 (\<lambda>a b. uint a * uint b) xs ys"
  by (rule map2_map2_cong, rule signed_product_lane, rule map2_map2_cong, rule unsigned_product_lane)

lemma length_from_map: "map f xs = map g [0..<n] \<Longrightarrow> length xs = n"
  by (metis diff_zero length_map length_upt)

text \<open>
  The packed products are exact: \<^verbatim>\<open>pmulhw\<close> (\<^verbatim>\<open>pmulhuw\<close>) and \<^verbatim>\<open>pmullw\<close> are
  the two halves of the signed (unsigned) products of the lanes, \<^verbatim>\<open>pmuludq\<close> is the full
  product of the even doublewords, and \<^verbatim>\<open>pmaddwd\<close> adds neighbouring products, with no
  defined result only if all four factors of a sum are the least value.
\<close>

theorem packed_products:
  "map2 (\<lambda>h l. sint h * 65536 + uint l) (split128 (pmulhw128 x y) :: u16 list) (split128 (pmullw128 x y) :: u16 list)
     = map2 (\<lambda>a b. sint a * sint b) (split128 x :: u16 list) (split128 y :: u16 list)
   \<and> map2 (\<lambda>h l. uint h * 65536 + uint l) (split128 (pmulhuw128 x y) :: u16 list) (split128 (pmullw128 x y) :: u16 list)
     = map2 (\<lambda>a b. uint a * uint b) (split128 x :: u16 list) (split128 y :: u16 list)
   \<and> map2 (\<lambda>h l. sint h * 65536 + uint l) (split_lanes (pmulhw64 d s) :: u16 list) (split_lanes (pmullw64 d s) :: u16 list)
     = map2 (\<lambda>a b. sint a * sint b) (split_lanes d :: u16 list) (split_lanes s :: u16 list)
   \<and> map2 (\<lambda>h l. uint h * 65536 + uint l) (split_lanes (pmulhuw64 d s) :: u16 list) (split_lanes (pmullw64 d s) :: u16 list)
     = map2 (\<lambda>a b. uint a * uint b) (split_lanes d :: u16 list) (split_lanes s :: u16 list)
   \<and> uint (pmuludq64 d s) = uint ((split_lanes d :: u32 list) ! 0) * uint ((split_lanes s :: u32 list) ! 0)
   \<and> uint (lo (pmuludq128 x y)) = uint ((split128 x :: u32 list) ! 0) * uint ((split128 y :: u32 list) ! 0)
   \<and> uint (hi (pmuludq128 x y)) = uint ((split128 x :: u32 list) ! 2) * uint ((split128 y :: u32 list) ! 2)
   \<and> (case pmaddwd64 d s of
        Inl e \<Rightarrow> e = SignedOverflow \<and> list_ex (all_least (split_lanes d) (split_lanes s)) [0..<2]
      | Inr r \<Rightarrow> map sint (split_lanes r :: u32 list) = map (dot2 (split_lanes d) (split_lanes s)) [0..<2])
   \<and> (case pmaddwd128 x y of
        Inl e \<Rightarrow> e = SignedOverflow \<and> list_ex (all_least (split128 x) (split128 y)) [0..<4]
      | Inr r \<Rightarrow> map sint (split128 r :: u32 list) = map (dot2 (split128 x) (split128 y)) [0..<4])"
proof (intro conjI)
  show "uint (pmuludq64 d s) = uint ((split_lanes d :: u32 list) ! 0) * uint ((split_lanes s :: u32 list) ! 0)"
    by (simp add: pmuludq64_def Let_def join_two_halves uint_ucast_mult32 del: join_lanes.simps)
  show "uint (lo (pmuludq128 x y)) = uint ((split128 x :: u32 list) ! 0) * uint ((split128 y :: u32 list) ! 0)"
    by (simp add: pmuludq128_def Let_def upt_rec join128_four join_two_halves uint_ucast_mult32
        del: join_lanes.simps)
  show "uint (hi (pmuludq128 x y)) = uint ((split128 x :: u32 list) ! 2) * uint ((split128 y :: u32 list) ! 2)"
    by (simp add: pmuludq128_def Let_def upt_rec join128_four join_two_halves uint_ucast_mult32
        del: join_lanes.simps)
  show "case pmaddwd64 d s of
        Inl e \<Rightarrow> e = SignedOverflow \<and> list_ex (all_least (split_lanes d) (split_lanes s)) [0..<2]
      | Inr r \<Rightarrow> map sint (split_lanes r :: u32 list) = map (dot2 (split_lanes d) (split_lanes s)) [0..<2]"
    using pmaddwd_spec [of "split_lanes d" "split_lanes s" "[0..<2]"]
    unfolding pmaddwd64_def
    by (auto simp: d2.split_join length_from_map split: sum.splits)
  show "case pmaddwd128 x y of
        Inl e \<Rightarrow> e = SignedOverflow \<and> list_ex (all_least (split128 x) (split128 y)) [0..<4]
      | Inr r \<Rightarrow> map sint (split128 r :: u32 list) = map (dot2 (split128 x) (split128 y)) [0..<4]"
    using pmaddwd_spec [of "split128 x" "split128 y" "[0..<4]"]
    unfolding pmaddwd128_def
    by (auto simp: d4.split_join length_from_map split: sum.splits)
qed (simp_all only: pmulhw128_def pmullw128_def pmulhuw128_def pmulhw64_def pmullw64_def pmulhuw64_def
      w8.split_map2 w4.split_map2
      product_lane_lists)

section \<open>Sums of differences, averages, extrema\<close>

lemma abs_diff_fold:
  "uint res + 255 * int (length ps) < 65536 \<Longrightarrow>
   uint (fold (\<lambda>(d, s) r. r + word_of_int \<bar>uint d - uint s\<bar>) ps (res :: u16))
     = uint res + sum_list (map (\<lambda>(d, s). \<bar>uint d - uint s\<bar>) (ps :: (u8 \<times> u8) list))"
proof (induction ps arbitrary: res)
  case (Cons p ps)
  obtain d s where p: "p = (d, s)" by (cases p)
  let ?x = "\<bar>uint d - uint s\<bar>"
  have "uint d < 256" "uint s < 256" using uint_lt2p [of d] uint_lt2p [of s] by simp_all
  then have x: "0 \<le> ?x" "?x \<le> 255" using uint_ge_0 [of d] uint_ge_0 [of s] by linarith+
  have u: "uint (res + word_of_int ?x) = uint res + ?x"
    using Cons.prems x by (simp add: uint_word_ariths uint_word_of_int)
  have "uint (res + word_of_int ?x) + 255 * int (length ps) < 65536"
    unfolding u using Cons.prems x by simp
  from Cons.IH [OF this] show ?case by (simp add: p u)
qed simp

lemma abs_diff_sum_exact:
  "length DST \<le> 8 \<Longrightarrow>
   uint (abs_diff_sum DST SRC) = sum_list (map2 (\<lambda>d s. \<bar>uint d - uint s\<bar>) DST SRC)"
  unfolding abs_diff_sum_def by (subst abs_diff_fold) auto

lemma avg_lane:
  fixes d s :: "'a::len word"
  assumes "LENGTH('a) < 32"
  shows "uint (ucast (drop_bit 1 (ucast d + ucast s + 1 :: u32)) :: 'a word) = (uint d + uint s + 1) div 2"
proof -
  have P: "2 * half TYPE('a) \<le> 2147483648"
    using power_increasing [of "LENGTH('a)" 31 "2::int"] assms modulus_half [where 'a = 'a] by simp
  have r: "uint d < 2 * half TYPE('a)" "uint s < 2 * half TYPE('a)" "0 \<le> uint d" "0 \<le> uint s"
    using uint_range_half [of d] uint_range_half [of s] by simp_all
  have "uint (ucast d + ucast s + 1 :: u32) = (uint d + uint s + 1) mod 2 ^ 32"
    using assms by (simp add: uint_word_ariths uint_ucast_up mod_add_left_eq)
  also have "\<dots> = uint d + uint s + 1" using r P by (intro mod_pos_pos_trivial; simp)
  finally have u: "uint (ucast d + ucast s + 1 :: u32) = uint d + uint s + 1" .
  have "(uint d + uint s + 1) div 2 < 2 * half TYPE('a)" using r by linarith
  moreover have "0 \<le> (uint d + uint s + 1) div 2" using r by linarith
  ultimately show ?thesis
    by (simp add: uint_ucast_down uint_drop_bit u modulus_half del: unsigned_greater_eq)
qed

lemma avg_lanes:
  "map uint (map2 (\<lambda>(d::u8) (s::u8). ucast (drop_bit 1 (ucast d + ucast s + 1 :: u32)) :: u8) bs cs)
     = map2 (\<lambda>d s. (uint d + uint s + 1) div 2) bs cs"
  "map uint (map2 (\<lambda>(d::u16) (s::u16). ucast (drop_bit 1 (ucast d + ucast s + 1 :: u32)) :: u16) ws vs)
     = map2 (\<lambda>d s. (uint d + uint s + 1) div 2) ws vs"
  by (rule map2_val, rule avg_lane, simp, rule map2_val, rule avg_lane, simp)

lemma extremum_lanes:
  "map sint (map2 (\<lambda>d s. if sint d < sint s then s else d) xs ys) = map2 (\<lambda>d s. max (sint d) (sint s)) xs ys"
  "map sint (map2 (\<lambda>d s. if sint s < sint d then s else d) xs ys) = map2 (\<lambda>d s. min (sint d) (sint s)) xs ys"
  "map uint (map2 (\<lambda>d s. if d < s then s else d) xs ys) = map2 (\<lambda>d s. max (uint d) (uint s)) xs ys"
  "map uint (map2 (\<lambda>d s. if s < d then s else d) xs ys) = map2 (\<lambda>d s. min (uint d) (uint s)) xs ys"
  by (rule map2_val; auto simp: word_less_def)+

text \<open>
  C23. The sums of absolute differences never wrap, the averages round half up although the sum
  of two lanes does not fit a lane, and the extrema are those of the signed words and the
  unsigned bytes.
\<close>

theorem differences_averages_extrema:
  "uint (psadbw64 d s) = sum_list (map2 (\<lambda>a b. \<bar>uint a - uint b\<bar>) (split_lanes d :: u8 list) (split_lanes s :: u8 list))
   \<and> uint (lo (psadbw128 x y)) = sum_list (map2 (\<lambda>a b. \<bar>uint a - uint b\<bar>)
       (take 8 (split128 x :: u8 list)) (take 8 (split128 y :: u8 list)))
   \<and> uint (hi (psadbw128 x y)) = sum_list (map2 (\<lambda>a b. \<bar>uint a - uint b\<bar>)
       (drop 8 (split128 x :: u8 list)) (drop 8 (split128 y :: u8 list)))
   \<and> map uint (split_lanes (pavgb64 d s) :: u8 list)
     = map2 (\<lambda>a b. (uint a + uint b + 1) div 2) (split_lanes d :: u8 list) (split_lanes s :: u8 list)
   \<and> map uint (split128 (pavgb128 x y) :: u8 list)
     = map2 (\<lambda>a b. (uint a + uint b + 1) div 2) (split128 x :: u8 list) (split128 y :: u8 list)
   \<and> map uint (split_lanes (pavgw64 d s) :: u16 list)
     = map2 (\<lambda>a b. (uint a + uint b + 1) div 2) (split_lanes d :: u16 list) (split_lanes s :: u16 list)
   \<and> map uint (split128 (pavgw128 x y) :: u16 list)
     = map2 (\<lambda>a b. (uint a + uint b + 1) div 2) (split128 x :: u16 list) (split128 y :: u16 list)
   \<and> map sint (split_lanes (pmaxsw64 d s) :: u16 list)
     = map2 (\<lambda>a b. max (sint a) (sint b)) (split_lanes d :: u16 list) (split_lanes s :: u16 list)
   \<and> map sint (split128 (pmaxsw128 x y) :: u16 list)
     = map2 (\<lambda>a b. max (sint a) (sint b)) (split128 x :: u16 list) (split128 y :: u16 list)
   \<and> map sint (split_lanes (pminsw64 d s) :: u16 list)
     = map2 (\<lambda>a b. min (sint a) (sint b)) (split_lanes d :: u16 list) (split_lanes s :: u16 list)
   \<and> map sint (split128 (pminsw128 x y) :: u16 list)
     = map2 (\<lambda>a b. min (sint a) (sint b)) (split128 x :: u16 list) (split128 y :: u16 list)
   \<and> map uint (split_lanes (pmaxub64 d s) :: u8 list)
     = map2 (\<lambda>a b. max (uint a) (uint b)) (split_lanes d :: u8 list) (split_lanes s :: u8 list)
   \<and> map uint (split128 (pmaxub128 x y) :: u8 list)
     = map2 (\<lambda>a b. max (uint a) (uint b)) (split128 x :: u8 list) (split128 y :: u8 list)
   \<and> map uint (split_lanes (pminub64 d s) :: u8 list)
     = map2 (\<lambda>a b. min (uint a) (uint b)) (split_lanes d :: u8 list) (split_lanes s :: u8 list)
   \<and> map uint (split128 (pminub128 x y) :: u8 list)
     = map2 (\<lambda>a b. min (uint a) (uint b)) (split128 x :: u8 list) (split128 y :: u8 list)"
proof (intro conjI)
  show "uint (psadbw64 d s) = sum_list (map2 (\<lambda>a b. \<bar>uint a - uint b\<bar>) (split_lanes d :: u8 list) (split_lanes s :: u8 list))"
    by (simp add: psadbw64_def uint_ucast_up abs_diff_sum_exact)
  show "uint (lo (psadbw128 x y)) = sum_list (map2 (\<lambda>a b. \<bar>uint a - uint b\<bar>)
       (take 8 (split128 x :: u8 list)) (take 8 (split128 y :: u8 list)))"
    by (simp add: psadbw128_def Let_def uint_ucast_up abs_diff_sum_exact)
  show "uint (hi (psadbw128 x y)) = sum_list (map2 (\<lambda>a b. \<bar>uint a - uint b\<bar>)
       (drop 8 (split128 x :: u8 list)) (drop 8 (split128 y :: u8 list)))"
    by (simp add: psadbw128_def Let_def uint_ucast_up abs_diff_sum_exact)
qed (simp_all only: pavgb64_def pavgb128_def pavgw64_def pavgw128_def pmaxsw64_def pmaxsw128_def
      pminsw64_def pminsw128_def pmaxub64_def pmaxub128_def pminub64_def pminub128_def
      b8.split_map2 w4.split_map2 b16.split_map2 w8.split_map2 avg_lanes extremum_lanes)

section \<open>Shifts\<close>

definition lane_shift_ok ::
  "('r \<Rightarrow> 'u::len word list) \<Rightarrow> ('u word \<Rightarrow> int) \<Rightarrow> (int \<Rightarrow> int) \<Rightarrow> u8 \<Rightarrow> 'r \<Rightarrow> 'r result \<Rightarrow> bool" where
  "lane_shift_ok split val op n dst r \<longleftrightarrow>
     (case r of
        Inl e \<Rightarrow> e = ShiftOutOfRange \<and> promoted_width TYPE('u) \<le> unat n
      | Inr res \<Rightarrow> unat n < promoted_width TYPE('u)
                 \<and> map val (split res) = map (\<lambda>a. op (val a)) (split dst))"


lemma lane_shift_ok_codec:
  assumes codec: "\<And>xs :: 'u::len word list. length xs = n \<Longrightarrow> split (join xs) = xs"
    and len: "length (split dst) = n"
    and val: "\<And>w. val (f w) = op (val w)"
  shows "lane_shift_ok split val op src dst
    (rbind (lane_shift (f :: 'u word \<Rightarrow> 'u word) src (split dst)) (\<lambda>DST. Inr (join DST)))"
  using len by (simp add: lane_shift_ok_def lane_shift_def codec val)

lemma shift_vals:
  "sint (signed_drop_bit n w) = sint w div 2 ^ n"
  "uint (drop_bit n w) = uint w div 2 ^ n"
  "uint (push_bit n (w16 :: u16)) = (uint w16 * 2 ^ n) mod 2 ^ 16"
  "uint (push_bit n (w32 :: u32)) = (uint w32 * 2 ^ n) mod 2 ^ 32"
  "uint (push_bit n (w64 :: u64)) = (uint w64 * 2 ^ n) mod 2 ^ 64"
  for w :: "'a::len word"
proof -
  show "sint (signed_drop_bit n w) = sint w div 2 ^ n" "uint (drop_bit n w) = uint w div 2 ^ n"
    by (simp_all only: sint_signed_drop_bit uint_drop_bit)
qed (simp_all only: uint_push_bit len_num1 len_bit0, simp_all)

definition bit128 :: "u128 \<Rightarrow> nat \<Rightarrow> bool" where
  "bit128 x k = (if k < 64 then bit (lo x) k else bit (hi x) (k - 64))"

lemma bit_byte128:
  assumes "i < 16" "k < 8"
  shows "bit ((split128 x :: u8 list) ! i) k = bit128 x (8 * i + k)"
proof (cases "i < 8")
  case True
  then show ?thesis
    using assms by (simp add: split128_def nth_append nth_split_lanes bit_ucast_iff bit_drop_bit_eq bit128_def mult.commute)
next
  case False
  then have "(i - 8) * 8 + k = 8 * i + k - 64" by simp
  with False show ?thesis
    using assms by (simp add: split128_def nth_append nth_split_lanes bit_ucast_iff bit_drop_bit_eq bit128_def)
qed

lemma bytes_eqI:
  assumes "length bs = 16" "\<And>i k. i < 16 \<Longrightarrow> k < 8 \<Longrightarrow> bit128 x (8 * i + k) = bit (bs ! i) k"
  shows "(split128 x :: u8 list) = bs"
proof (rule nth_equalityI)
  show "length (split128 x :: u8 list) = length bs" using assms(1) by simp
  fix i assume "i < length (split128 x :: u8 list)"
  then show "(split128 x :: u8 list) ! i = bs ! i"
    by (intro bit_word_eqI) (simp add: bit_byte128 assms(2))
qed

lemma bit128_beyond: "128 \<le> k \<Longrightarrow> \<not> bit128 x k"
  by (auto simp: bit128_def dest: bit_imp_le_length)

lemma bit128_mk:
  "bit128 (mk_u128 l h) j = (if j < 64 then bit l j else bit h (j - 64))"
  by (simp add: bit128_def)

lemma bit64_beyond: "64 \<le> k \<Longrightarrow> \<not> bit (w :: u64) k"
  by (auto dest: bit_imp_le_length)

lemma shift_up_small:
  assumes "b < 64" "j < 128"
  shows "bit128 (mk_u128 (push_bit b l) (push_bit b h OR drop_bit (64 - b) l)) j
    = (b \<le> j \<and> bit128 (mk_u128 l h) (j - b))"
proof (cases "j < 64")
  case True
  then show ?thesis using assms by (auto simp: bit128_mk bit_push_bit_iff)
next
  case False
  then obtain i where j: "j = 64 + i" by (metis le_Suc_ex not_less)
  have i: "i < 64" using assms j by simp
  have "64 - b + i = j - b" using assms j by simp
  moreover have "j - b < 64 \<longleftrightarrow> \<not> b \<le> i" using assms j by auto
  moreover have "b \<le> i \<Longrightarrow> i - b = j - b - 64" using j by simp
  ultimately show ?thesis
    using assms i j bit64_beyond [of "64 - b + i" l]
    by (auto simp: bit128_mk bit_push_bit_iff bit_or_iff bit_drop_bit_eq)
qed

lemma shift_up_large:
  assumes "j < 128"
  shows "bit128 (mk_u128 0 (push_bit b l)) j = (64 + b \<le> j \<and> bit128 (mk_u128 l h) (j - (64 + b)))"
proof (cases "j < 64")
  case False
  then obtain i where j: "j = 64 + i" by (metis le_Suc_ex not_less)
  then show ?thesis using assms by (auto simp: bit128_mk bit_push_bit_iff)
qed (simp add: bit128_mk)

lemma shift_down_small:
  assumes "b < 64" "j < 128"
  shows "bit128 (mk_u128 (drop_bit b l OR push_bit (64 - b) h) (drop_bit b h)) j
    = bit128 (mk_u128 l h) (j + b)"
proof (cases "j < 64")
  case True
  have e: "64 - b \<le> j \<Longrightarrow> j - (64 - b) = j + b - 64" using assms by simp
  show ?thesis
    using True assms e bit64_beyond [of "b + j" l]
    by (auto simp: bit128_mk bit_push_bit_iff bit_or_iff bit_drop_bit_eq add.commute)
next
  case False
  then obtain i where j: "j = 64 + i" by (metis le_Suc_ex not_less)
  then show ?thesis by (simp add: bit128_mk bit_drop_bit_eq add.commute add.left_commute)
qed

lemma shift_down_large:
  "bit128 (mk_u128 (drop_bit b h) 0) j = bit128 (mk_u128 l h) (j + (64 + b))"
proof (cases "j < 64")
  case True
  then show ?thesis by (simp add: bit128_mk bit_drop_bit_eq add.commute add.left_commute)
next
  case False
  then show ?thesis using bit64_beyond [of "j + (64 + b) - 64" h] by (simp add: bit128_mk)
qed

lemma eight_times: "8 \<le> n \<Longrightarrow> 64 + 8 * (n - 8) = 8 * (n :: nat)"
  by simp

lemma pslldq_bits:
  assumes "pslldq x n = Inr r" "j < 128"
  shows "bit128 r j = (8 * unat n \<le> j \<and> bit128 x (j - 8 * unat n))"
proof -
  have x: "mk_u128 (lo x) (hi x) = x" by simp
  consider "16 \<le> unat n" | "8 \<le> unat n" "unat n < 16" | "unat n < 8" by linarith
  then show ?thesis
  proof cases
    case 1
    then show ?thesis using assms by (auto simp: pslldq_def bit128_mk split: if_splits)
  next
    case 2
    then have "r = mk_u128 0 (push_bit (8 * (unat n - 8)) (lo x))"
      using assms by (simp add: pslldq_def)
    with shift_up_large [OF assms(2), of "8 * (unat n - 8)" "lo x" "hi x"] show ?thesis
      by (simp only: eight_times [OF 2(1)] x)
  next
    case 3
    then have "r = mk_u128 (push_bit (8 * unat n) (lo x))
        (push_bit (8 * unat n) (hi x) OR drop_bit (64 - 8 * unat n) (lo x))"
      using assms by (auto simp: pslldq_def Let_def shift_right_def split: if_splits)
    with shift_up_small [of "8 * unat n" j "lo x" "hi x"] 3 assms(2) show ?thesis by (simp add: x)
  qed
qed

lemma psrldq_bits:
  assumes "psrldq x n = Inr r" "j < 128"
  shows "bit128 r j = bit128 x (j + 8 * unat n)"
proof -
  have x: "mk_u128 (lo x) (hi x) = x" by simp
  consider "16 \<le> unat n" | "8 \<le> unat n" "unat n < 16" | "unat n < 8" by linarith
  then show ?thesis
  proof cases
    case 1
    then show ?thesis
      using assms bit128_beyond [of "j + 8 * unat n" x] by (auto simp: psrldq_def bit128_mk split: if_splits)
  next
    case 2
    then have "r = mk_u128 (drop_bit (8 * (unat n - 8)) (hi x)) 0"
      using assms by (simp add: psrldq_def)
    with shift_down_large [of "8 * (unat n - 8)" "hi x" j "lo x"] show ?thesis
      by (simp only: eight_times [OF 2(1)] x)
  next
    case 3
    then have "r = mk_u128 (drop_bit (8 * unat n) (lo x) OR push_bit (64 - 8 * unat n) (hi x))
        (drop_bit (8 * unat n) (hi x))"
      using assms by (auto simp: psrldq_def Let_def shift_left_def split: if_splits)
    with shift_down_small [of "8 * unat n" j "lo x" "hi x"] 3 assms(2) show ?thesis by (simp add: x)
  qed
qed

lemma byte_shift_errors:
  "pslldq x n = Inl e \<longleftrightarrow> e = ShiftOutOfRange \<and> n = 0"
  "psrldq x n = Inl e \<longleftrightarrow> e = ShiftOutOfRange \<and> n = 0"
proof -
  have "unat n = 0 \<longleftrightarrow> n = 0" by (simp add: unat_eq_0)
  then show "pslldq x n = Inl e \<longleftrightarrow> e = ShiftOutOfRange \<and> n = 0"
    "psrldq x n = Inl e \<longleftrightarrow> e = ShiftOutOfRange \<and> n = 0"
    by (auto simp: pslldq_def psrldq_def Let_def shift_right_def shift_left_def promoted_width_def
        split: if_splits)
qed

lemma pslldq_bytes:
  assumes "pslldq x n = Inr r"
  shows "(split128 r :: u8 list)
    = replicate (min 16 (unat n)) 0 @ take (16 - unat n) (split128 x)"
proof (rule bytes_eqI)
  fix i k :: nat assume i: "i < 16" "k < 8"
  have b: "bit128 r (8 * i + k) = (8 * unat n \<le> 8 * i + k \<and> bit128 x (8 * i + k - 8 * unat n))"
    by (rule pslldq_bits [OF assms]) (use i in simp)
  show "bit128 r (8 * i + k)
    = bit ((replicate (min 16 (unat n)) 0 @ take (16 - unat n) (split128 x :: u8 list)) ! i) k"
  proof (cases "i < unat n")
    case True
    then show ?thesis using i b by (simp add: nth_append)
  next
    case False
    then have "8 * i + k - 8 * unat n = 8 * (i - unat n) + k" by simp
    with False i b show ?thesis by (simp add: nth_append bit_byte128)
  qed
qed simp

lemma psrldq_bytes:
  assumes "psrldq x n = Inr r"
  shows "(split128 r :: u8 list)
    = drop (unat n) (split128 x) @ replicate (min 16 (unat n)) 0"
proof (rule bytes_eqI)
  fix i k :: nat assume i: "i < 16" "k < 8"
  have b: "bit128 r (8 * i + k) = bit128 x (8 * i + k + 8 * unat n)"
    by (rule psrldq_bits [OF assms]) (use i in simp)
  have e: "8 * i + k + 8 * unat n = 8 * (unat n + i) + k" by simp
  show "bit128 r (8 * i + k)
    = bit ((drop (unat n) (split128 x :: u8 list) @ replicate (min 16 (unat n)) 0) ! i) k"
  proof (cases "i < 16 - unat n")
    case True
    then show ?thesis using i b bit_byte128 [of "unat n + i" k x] by (simp add: nth_append e)
  next
    case False
    then have "128 \<le> 8 * (unat n + i) + k" by simp
    moreover have "i - (16 - unat n) < min 16 (unat n)" using i False by auto
    ultimately show ?thesis using i b False bit128_beyond by (simp add: nth_append e)
  qed
qed simp


end
