(* ===== verification/X64_SimdPack.thy ===== *)
theory X64_SimdPack
  imports X64_Simd
begin

text \<open>
  The later packed integer instructions of \<^verbatim>\<open>emulator/src/x64/cpuimpl.cpp\<close>: packs with
  saturation, sign masks, duplications, the byte alignment \<^verbatim>\<open>palignr\<close>, horizontal sums,
  multiply-add and rounding products, absolute values and signs, extrema, zero and sign
  extensions, insertions, extractions, blends and the CRC. Conventions are those of
  \<open>X64_Simd\<close>. A template over the destination and source lane types takes the destination
  type as an argument; its saturation bounds are those of the C++ destination type.
\<close>

section \<open>Packs and unpacks\<close>

definition saturate_signed :: "'s::len word \<Rightarrow> 'd::len word" where
  "saturate_signed val =
     word_of_int (max (min (sint val) (2 ^ (LENGTH('d) - 1) - 1)) (- (2 ^ (LENGTH('d) - 1))))"

definition saturate_unsigned :: "'s::len word \<Rightarrow> 'd::len word" where
  "saturate_unsigned val = word_of_int (max (min (sint val) (2 ^ LENGTH('d) - 1)) 0)"

definition pack64 :: "('s::len word \<Rightarrow> 'd::len word) \<Rightarrow> u64 \<Rightarrow> u64 \<Rightarrow> u64" where
  "pack64 saturate dst src = join_lanes (map saturate (split_lanes dst) @ map saturate (split_lanes src))"

definition pack128 :: "('s::len word \<Rightarrow> 'd::len word) \<Rightarrow> u128 \<Rightarrow> u128 \<Rightarrow> u128" where
  "pack128 saturate dst src = join128 (map saturate (split128 dst) @ map saturate (split128 src))"

definition packuswb64 :: "u64 \<Rightarrow> u64 \<Rightarrow> u64" where
  "packuswb64 = pack64 (saturate_unsigned :: u16 \<Rightarrow> u8)"

definition packuswb128 :: "u128 \<Rightarrow> u128 \<Rightarrow> u128" where
  "packuswb128 = pack128 (saturate_unsigned :: u16 \<Rightarrow> u8)"

definition packsswb64 :: "u64 \<Rightarrow> u64 \<Rightarrow> u64" where
  "packsswb64 = pack64 (saturate_signed :: u16 \<Rightarrow> u8)"

definition packsswb128 :: "u128 \<Rightarrow> u128 \<Rightarrow> u128" where
  "packsswb128 = pack128 (saturate_signed :: u16 \<Rightarrow> u8)"

definition packssdw64 :: "u64 \<Rightarrow> u64 \<Rightarrow> u64" where
  "packssdw64 = pack64 (saturate_signed :: u32 \<Rightarrow> u16)"

definition packssdw128 :: "u128 \<Rightarrow> u128 \<Rightarrow> u128" where
  "packssdw128 = pack128 (saturate_signed :: u32 \<Rightarrow> u16)"

definition packusdw128 :: "u128 \<Rightarrow> u128 \<Rightarrow> u128" where
  "packusdw128 = pack128 (saturate_unsigned :: u32 \<Rightarrow> u16)"

definition unpack :: "'u::len itself \<Rightarrow> bool \<Rightarrow> u128 \<Rightarrow> u128 \<Rightarrow> u128" where
  "unpack _ low dst src =
     (let DST = split128 dst :: 'u word list; SRC = split128 src :: 'u word list;
          half_count = length DST div 2
      in if low then join128 (interleave (take half_count DST) (take half_count SRC))
         else join128 (interleave (drop half_count DST) (drop half_count SRC)))"

definition unpckhps :: "u128 \<Rightarrow> u128 \<Rightarrow> u128" where
  "unpckhps = unpack TYPE(32) False"

definition unpckhpd :: "u128 \<Rightarrow> u128 \<Rightarrow> u128" where
  "unpckhpd = unpack TYPE(64) False"

definition unpcklps :: "u128 \<Rightarrow> u128 \<Rightarrow> u128" where
  "unpcklps = unpack TYPE(32) True"

definition unpcklpd :: "u128 \<Rightarrow> u128 \<Rightarrow> u128" where
  "unpcklpd = unpack TYPE(64) True"

section \<open>Sign masks and duplications\<close>

definition movmskps32 :: "u128 \<Rightarrow> u32" where
  "movmskps32 src =
     ucast (drop_bit 31 (lo src) AND 1)
     OR push_bit 1 (ucast (drop_bit 63 (lo src) AND 1))
     OR push_bit 2 (ucast (drop_bit 31 (hi src) AND 1))
     OR push_bit 3 (ucast (drop_bit 63 (hi src) AND 1))"

definition movmskps64 :: "u128 \<Rightarrow> u64" where
  "movmskps64 src =
     ucast (drop_bit 31 (lo src) AND 1)
     OR push_bit 1 (ucast (drop_bit 63 (lo src) AND 1))
     OR push_bit 2 (ucast (drop_bit 31 (hi src) AND 1))
     OR push_bit 3 (ucast (drop_bit 63 (hi src) AND 1))"

definition movmskpd32 :: "u128 \<Rightarrow> u32" where
  "movmskpd32 src =
     ucast (drop_bit 63 (lo src) AND 1)
     OR push_bit 1 (ucast (drop_bit 63 (hi src) AND 1))"

definition movmskpd64 :: "u128 \<Rightarrow> u64" where
  "movmskpd64 src =
     ucast (drop_bit 63 (lo src) AND 1)
     OR push_bit 1 (ucast (drop_bit 63 (hi src) AND 1))"

definition movshdup :: "u128 \<Rightarrow> u128" where
  "movshdup src =
     (let TMP = split128 src :: u32 list
      in join128 [TMP ! 1, TMP ! 1, TMP ! 3, TMP ! 3])"

definition movddup64 :: "u64 \<Rightarrow> u128" where
  "movddup64 src = mk_u128 src src"

definition movddup128 :: "u128 \<Rightarrow> u128" where
  "movddup128 src = mk_u128 (lo src) (lo src)"

section \<open>Byte alignment\<close>

definition palignr64 :: "u64 \<Rightarrow> u64 \<Rightarrow> u8 \<Rightarrow> u64" where
  "palignr64 dst src imm =
     (let n = unat imm
      in if n = 0 then src
         else if n \<ge> 16 then 0
         else if n \<ge> 8 then drop_bit (8 * (n - 8)) dst
         else drop_bit (8 * n) src OR push_bit (8 * (8 - n)) dst)"

definition palignr128 :: "u128 \<Rightarrow> u128 \<Rightarrow> u8 \<Rightarrow> u128" where
  "palignr128 dst src imm =
     (let n = unat imm
      in if n = 0 then src
         else if n \<ge> 32 then mk_u128 0 0
         else if n > 24 then mk_u128 (drop_bit (8 * (n - 24)) (hi dst)) 0
         else if n = 24 then mk_u128 (hi dst) 0
         else if n > 16 then
           mk_u128 (drop_bit (8 * (n - 16)) (lo dst) OR push_bit (8 * (24 - n)) (hi dst))
                   (drop_bit (8 * (n - 16)) (hi dst))
         else if n = 16 then dst
         else if n > 8 then
           mk_u128 (drop_bit (8 * (n - 8)) (hi src) OR push_bit (8 * (16 - n)) (lo dst))
                   (drop_bit (8 * (n - 8)) (lo dst) OR push_bit (8 * (16 - n)) (hi dst))
         else if n = 8 then mk_u128 (hi src) (lo dst)
         else mk_u128 (drop_bit (8 * n) (lo src) OR push_bit (8 * (8 - n)) (hi src))
                      (drop_bit (8 * n) (hi src) OR push_bit (8 * (8 - n)) (lo dst)))"

section \<open>Horizontal sums and multiply-add\<close>

definition pair_sums :: "'a::len word list \<Rightarrow> 'a word list" where
  "pair_sums xs = map (\<lambda>i. xs ! (2 * i) + xs ! (2 * i + 1)) [0..<length xs div 2]"

definition checked_pair_sums :: "u32 list \<Rightarrow> u32 result list" where
  "checked_pair_sums xs =
     map (\<lambda>i. checked_i32 (sint (xs ! (2 * i)) + sint (xs ! (2 * i + 1)))) [0..<length xs div 2]"

definition phaddw64 :: "u64 \<Rightarrow> u64 \<Rightarrow> u64" where
  "phaddw64 dst src = join_lanes (pair_sums (split_lanes dst :: u16 list) @ pair_sums (split_lanes src))"

definition phaddw128 :: "u128 \<Rightarrow> u128 \<Rightarrow> u128" where
  "phaddw128 dst src = join128 (pair_sums (split128 dst :: u16 list) @ pair_sums (split128 src))"

text \<open>The doubleword sums are sums of \<^verbatim>\<open>int\<close> values, which must not overflow.\<close>

definition phaddd64 :: "u64 \<Rightarrow> u64 \<Rightarrow> u64 result" where
  "phaddd64 dst src =
     rbind (all_results (checked_pair_sums (split_lanes dst) @ checked_pair_sums (split_lanes src)))
       (\<lambda>RES. Inr (join_lanes RES))"

definition phaddd128 :: "u128 \<Rightarrow> u128 \<Rightarrow> u128 result" where
  "phaddd128 dst src =
     rbind (all_results (checked_pair_sums (split128 dst) @ checked_pair_sums (split128 src)))
       (\<lambda>RES. Inr (join128 RES))"

definition signSaturatedAdd :: "u16 \<Rightarrow> u16 \<Rightarrow> u16" where
  "signSaturatedAdd a b = word_of_int (max (min (sint a + sint b) (2 ^ 15 - 1)) (- (2 ^ 15)))"

definition pmaddubsw_lane :: "u8 list \<Rightarrow> u8 list \<Rightarrow> nat \<Rightarrow> u16" where
  "pmaddubsw_lane DST SRC i =
     signSaturatedAdd (word_of_int (uint (DST ! (2 * i)) * sint (SRC ! (2 * i))))
                      (word_of_int (uint (DST ! (2 * i + 1)) * sint (SRC ! (2 * i + 1))))"

definition pmaddubsw64 :: "u64 \<Rightarrow> u64 \<Rightarrow> u64" where
  "pmaddubsw64 dst src = join_lanes (map (pmaddubsw_lane (split_lanes dst) (split_lanes src)) [0..<4])"

definition pmaddubsw128 :: "u128 \<Rightarrow> u128 \<Rightarrow> u128" where
  "pmaddubsw128 dst src = join128 (map (pmaddubsw_lane (split128 dst) (split128 src)) [0..<8])"

definition pmulhrsw64 :: "u64 \<Rightarrow> u64 \<Rightarrow> u64" where
  "pmulhrsw64 dst src =
     join_lanes (map2 (\<lambda>(d :: u16) (s :: u16). (word_of_int (((sint d * sint s) div 2 ^ 14 + 1) div 2)) :: u16)
       (split_lanes dst) (split_lanes src))"

definition pmulhrsw128 :: "u128 \<Rightarrow> u128 \<Rightarrow> u128" where
  "pmulhrsw128 dst src =
     join128 (map2 (\<lambda>(d :: u16) (s :: u16). (word_of_int (((sint d * sint s) div 2 ^ 14 + 1) div 2)) :: u16)
       (split128 dst) (split128 src))"

section \<open>Absolute values and signs\<close>

definition pabsb64 :: "u64 \<Rightarrow> u64" where
  "pabsb64 src = join_lanes (map (\<lambda>u :: u8. (if sint u \<ge> 0 then u else - u) :: u8) (split_lanes src))"

definition pabsb128 :: "u128 \<Rightarrow> u128" where
  "pabsb128 src = join128 (map (\<lambda>u :: u8. (if sint u \<ge> 0 then u else - u) :: u8) (split128 src))"

definition pabsw64 :: "u64 \<Rightarrow> u64" where
  "pabsw64 src = join_lanes (map (\<lambda>u :: u16. (if sint u \<ge> 0 then u else - u) :: u16) (split_lanes src))"

definition pabsw128 :: "u128 \<Rightarrow> u128" where
  "pabsw128 src = join128 (map (\<lambda>u :: u16. (if sint u \<ge> 0 then u else - u) :: u16) (split128 src))"

definition pabsd64 :: "u64 \<Rightarrow> u64" where
  "pabsd64 src = join_lanes (map (\<lambda>u :: u32. (if sint u \<ge> 0 then u else - u) :: u32) (split_lanes src))"

definition pabsd128 :: "u128 \<Rightarrow> u128" where
  "pabsd128 src = join128 (map (\<lambda>u :: u32. (if sint u \<ge> 0 then u else - u) :: u32) (split128 src))"

definition psign :: "'a::len word \<Rightarrow> 'a word \<Rightarrow> 'a word" where
  "psign d s = (if sint s < 0 then - d else if sint s > 0 then d else 0)"

definition psignb64 :: "u64 \<Rightarrow> u64 \<Rightarrow> u64" where
  "psignb64 dst src = join_lanes (map2 psign (split_lanes dst :: u8 list) (split_lanes src))"

definition psignb128 :: "u128 \<Rightarrow> u128 \<Rightarrow> u128" where
  "psignb128 dst src = join128 (map2 psign (split128 dst :: u8 list) (split128 src))"

definition psignw64 :: "u64 \<Rightarrow> u64 \<Rightarrow> u64" where
  "psignw64 dst src = join_lanes (map2 psign (split_lanes dst :: u16 list) (split_lanes src))"

definition psignw128 :: "u128 \<Rightarrow> u128 \<Rightarrow> u128" where
  "psignw128 dst src = join128 (map2 psign (split128 dst :: u16 list) (split128 src))"

text \<open>For doublewords the negation is that of an \<^verbatim>\<open>int\<close>, undefined at the least value.\<close>

definition psign32 :: "u32 \<Rightarrow> u32 \<Rightarrow> u32 result" where
  "psign32 d s =
     (if sint s < 0 then checked_i32 (- sint d) else if sint s > 0 then Inr d else Inr 0)"

definition psignd64 :: "u64 \<Rightarrow> u64 \<Rightarrow> u64 result" where
  "psignd64 dst src = rbind (all_results (map2 psign32 (split_lanes dst) (split_lanes src))) (\<lambda>RES. Inr (join_lanes RES))"

definition psignd128 :: "u128 \<Rightarrow> u128 \<Rightarrow> u128 result" where
  "psignd128 dst src = rbind (all_results (map2 psign32 (split128 dst) (split128 src))) (\<lambda>RES. Inr (join128 RES))"

section \<open>Extrema\<close>

definition pmaxuw :: "u128 \<Rightarrow> u128 \<Rightarrow> u128" where
  "pmaxuw dst src =
     join128 (map2 (\<lambda>(d :: u16) (s :: u16). (if d < s then s else d) :: u16)
       (split128 dst) (split128 src))"

definition pmaxud :: "u128 \<Rightarrow> u128 \<Rightarrow> u128" where
  "pmaxud dst src =
     join128 (map2 (\<lambda>(d :: u32) (s :: u32). (if d < s then s else d) :: u32)
       (split128 dst) (split128 src))"

definition pminuw :: "u128 \<Rightarrow> u128 \<Rightarrow> u128" where
  "pminuw dst src =
     join128 (map2 (\<lambda>(d :: u16) (s :: u16). (if s < d then s else d) :: u16)
       (split128 dst) (split128 src))"

definition pminud :: "u128 \<Rightarrow> u128 \<Rightarrow> u128" where
  "pminud dst src =
     join128 (map2 (\<lambda>(d :: u32) (s :: u32). (if s < d then s else d) :: u32)
       (split128 dst) (split128 src))"

definition pmaxsb :: "u128 \<Rightarrow> u128 \<Rightarrow> u128" where
  "pmaxsb dst src =
     join128 (map2 (\<lambda>(d :: u8) (s :: u8). (if sint d < sint s then s else d) :: u8)
       (split128 dst) (split128 src))"

definition pmaxsd :: "u128 \<Rightarrow> u128 \<Rightarrow> u128" where
  "pmaxsd dst src =
     join128 (map2 (\<lambda>(d :: u32) (s :: u32). (if sint d < sint s then s else d) :: u32)
       (split128 dst) (split128 src))"

definition pminsb :: "u128 \<Rightarrow> u128 \<Rightarrow> u128" where
  "pminsb dst src =
     join128 (map2 (\<lambda>(d :: u8) (s :: u8). (if sint s < sint d then s else d) :: u8)
       (split128 dst) (split128 src))"

definition pminsd :: "u128 \<Rightarrow> u128 \<Rightarrow> u128" where
  "pminsd dst src =
     join128 (map2 (\<lambda>(d :: u32) (s :: u32). (if sint s < sint d then s else d) :: u32)
       (split128 dst) (split128 src))"

section \<open>Zero and sign extensions\<close>

definition pmovzxbw :: "u64 \<Rightarrow> u128" where
  "pmovzxbw src = join128 (map (ucast :: u8 \<Rightarrow> u16) (split_lanes src))"

definition pmovzxbd :: "u32 \<Rightarrow> u128" where
  "pmovzxbd src = join128 (map (ucast :: u8 \<Rightarrow> u32) (split_lanes src))"

definition pmovzxbq :: "u16 \<Rightarrow> u128" where
  "pmovzxbq src = join128 (map (ucast :: u8 \<Rightarrow> u64) (split_lanes src))"

definition pmovzxwd :: "u64 \<Rightarrow> u128" where
  "pmovzxwd src = join128 (map (ucast :: u16 \<Rightarrow> u32) (split_lanes src))"

definition pmovzxwq :: "u32 \<Rightarrow> u128" where
  "pmovzxwq src = join128 (map (ucast :: u16 \<Rightarrow> u64) (split_lanes src))"

definition pmovzxdq :: "u64 \<Rightarrow> u128" where
  "pmovzxdq src = join128 (map (ucast :: u32 \<Rightarrow> u64) (split_lanes src))"

definition pmovsxbw :: "u64 \<Rightarrow> u128" where
  "pmovsxbw src = join128 (map (scast :: u8 \<Rightarrow> u16) (split_lanes src))"

definition pmovsxbd :: "u32 \<Rightarrow> u128" where
  "pmovsxbd src = join128 (map (scast :: u8 \<Rightarrow> u32) (split_lanes src))"

definition pmovsxbq :: "u16 \<Rightarrow> u128" where
  "pmovsxbq src = join128 (map (scast :: u8 \<Rightarrow> u64) (split_lanes src))"

definition pmovsxwd :: "u64 \<Rightarrow> u128" where
  "pmovsxwd src = join128 (map (scast :: u16 \<Rightarrow> u32) (split_lanes src))"

definition pmovsxwq :: "u32 \<Rightarrow> u128" where
  "pmovsxwq src = join128 (map (scast :: u16 \<Rightarrow> u64) (split_lanes src))"

definition pmovsxdq :: "u64 \<Rightarrow> u128" where
  "pmovsxdq src = join128 (map (scast :: u32 \<Rightarrow> u64) (split_lanes src))"

section \<open>Low products, extractions, insertions\<close>

definition pmulld :: "u128 \<Rightarrow> u128 \<Rightarrow> u128" where
  "pmulld dst src =
     join128 (map2 (\<lambda>(d :: u32) (s :: u32). (ucast (scast d * scast s :: u64)) :: u32)
       (split128 dst) (split128 src))"

definition pextrb :: "u128 \<Rightarrow> u8 \<Rightarrow> u8" where
  "pextrb src order = split128 src ! unat (order AND 0xF)"

definition pextrd :: "u128 \<Rightarrow> u8 \<Rightarrow> u32" where
  "pextrd src order = split128 src ! unat (order AND 0x3)"

definition pextrq :: "u128 \<Rightarrow> u8 \<Rightarrow> u64" where
  "pextrq src order = split128 src ! unat (order AND 0x1)"

definition extractps :: "u128 \<Rightarrow> u8 \<Rightarrow> u32" where
  "extractps src order = split128 src ! unat (order AND 0x3)"

definition pinsrb :: "u128 \<Rightarrow> u8 \<Rightarrow> u8 \<Rightarrow> u128" where
  "pinsrb dst src order = join128 ((split128 dst)[unat (order AND 0xF) := src])"

definition pinsrd :: "u128 \<Rightarrow> u32 \<Rightarrow> u8 \<Rightarrow> u128" where
  "pinsrd dst src order = join128 ((split128 dst)[unat (order AND 0x3) := src])"

definition pinsrq :: "u128 \<Rightarrow> u64 \<Rightarrow> u8 \<Rightarrow> u128" where
  "pinsrq dst src order = join128 ((split128 dst)[unat (order AND 0x1) := src])"

definition insertpsReg :: "u128 \<Rightarrow> u128 \<Rightarrow> u8 \<Rightarrow> u128" where
  "insertpsReg dst src order =
     (let SRC = split128 src :: u32 list;
          DST = (split128 dst)[order_field order 4 := SRC ! order_field order 6];
          zmask = order AND 0xF;
          clear = (\<lambda>k D. if zmask AND push_bit k 1 \<noteq> 0 then D[k := 0] else D)
      in join128 (clear 3 (clear 2 (clear 1 (clear 0 DST)))))"

section \<open>Blends\<close>

definition blend_by :: "(nat \<Rightarrow> bool) \<Rightarrow> 'a list \<Rightarrow> 'a list \<Rightarrow> 'a list" where
  "blend_by take_src DST SRC =
     map (\<lambda>i. if take_src i then SRC ! i else DST ! i) [0..<length DST]"

definition blendps :: "u128 \<Rightarrow> u128 \<Rightarrow> u8 \<Rightarrow> u128" where
  "blendps dst src mask8 =
     join128 (blend_by (\<lambda>i. mask8 AND push_bit i 1 \<noteq> 0) (split128 dst :: u32 list) (split128 src))"

definition blendpd :: "u128 \<Rightarrow> u128 \<Rightarrow> u8 \<Rightarrow> u128" where
  "blendpd dst src mask8 =
     join128 (blend_by (\<lambda>i. mask8 AND push_bit i 1 \<noteq> 0) (split128 dst :: u64 list) (split128 src))"

definition pblendw :: "u128 \<Rightarrow> u128 \<Rightarrow> u8 \<Rightarrow> u128" where
  "pblendw dst src mask8 =
     join128 (blend_by (\<lambda>i. mask8 AND push_bit i 1 \<noteq> 0) (split128 dst :: u16 list) (split128 src))"

definition blendvps :: "u128 \<Rightarrow> u128 \<Rightarrow> u128 \<Rightarrow> u128" where
  "blendvps dst src mask128 =
     join128 (blend_by (\<lambda>i. (split128 mask128 ! i :: u32) AND 0x8000000 \<noteq> 0) (split128 dst :: u32 list) (split128 src))"

definition blendvpd :: "u128 \<Rightarrow> u128 \<Rightarrow> u128 \<Rightarrow> u128" where
  "blendvpd dst src mask128 =
     join128 (blend_by (\<lambda>i. (split128 mask128 ! i :: u64) AND 0x800000000000000 \<noteq> 0) (split128 dst :: u64 list) (split128 src))"

definition pblendvb :: "u128 \<Rightarrow> u128 \<Rightarrow> u128 \<Rightarrow> u128" where
  "pblendvb dst src mask128 =
     join128 (blend_by (\<lambda>i. (split128 mask128 ! i :: u8) AND 0x80 \<noteq> 0) (split128 dst :: u8 list) (split128 src))"

section \<open>CRC\<close>

definition crc_bit :: "'a::len word \<Rightarrow> 'a word" where
  "crc_bit dst = (if dst AND 1 \<noteq> 0 then drop_bit 1 dst XOR 0x82F63B78 else drop_bit 1 dst)"

text \<open>One turn of the outer loop: the low byte of the source enters, eight bits leave.\<close>

definition crc_byte :: "'a::len word \<Rightarrow> u8 \<Rightarrow> 'a word" where
  "crc_byte dst byte = (crc_bit ^^ 8) (dst XOR ucast byte)"

fun crc_bytes :: "nat \<Rightarrow> 'a::len word \<Rightarrow> 's::len word \<Rightarrow> 'a word" where
  "crc_bytes 0 dst src = dst"
| "crc_bytes (Suc n) dst src = crc_bytes n (crc_byte dst (ucast src)) (drop_bit 8 src)"

definition crc32_8 :: "u32 \<Rightarrow> u8 \<Rightarrow> u32" where
  "crc32_8 dst src = crc_bytes 1 dst src AND 0xFFFFFFFF"

definition crc32_16 :: "u32 \<Rightarrow> u16 \<Rightarrow> u32" where
  "crc32_16 dst src = crc_bytes 2 dst src AND 0xFFFFFFFF"

definition crc32_32 :: "u32 \<Rightarrow> u32 \<Rightarrow> u32" where
  "crc32_32 dst src = crc_bytes 4 dst src AND 0xFFFFFFFF"

definition crc32_64 :: "u64 \<Rightarrow> u64 \<Rightarrow> u64" where
  "crc32_64 dst src = crc_bytes 8 (ucast (ucast dst :: u32)) src AND 0xFFFFFFFF"

section \<open>Packs undo extensions\<close>

lemma sint_saturate_signed:
  "sint (saturate_signed v :: 'd::len word) = max (- half TYPE('d)) (min (half TYPE('d) - 1) (sint v))"
proof -
  have "saturate_signed v = (word_of_int (max (- half TYPE('d)) (min (half TYPE('d) - 1) (sint v))) :: 'd word)"
    unfolding saturate_signed_def half_def [of "TYPE('d)", symmetric] by (simp add: max.commute min.commute)
  moreover have "sint (word_of_int (max (- half TYPE('d)) (min (half TYPE('d) - 1) (sint v))) :: 'd word)
      = max (- half TYPE('d)) (min (half TYPE('d) - 1) (sint v))"
    by (rule sint_of_int_half) (use half_pos [where 'a = 'd] in auto)
  ultimately show ?thesis by (simp only:)
qed

lemma uint_saturate_unsigned:
  "uint (saturate_unsigned v :: 'd::len word) = max 0 (min (2 * half TYPE('d) - 1) (sint v))"
proof -
  have "saturate_unsigned v = (word_of_int (max 0 (min (2 * half TYPE('d) - 1) (sint v))) :: 'd word)"
    unfolding saturate_unsigned_def modulus_half by (simp add: max.commute min.commute)
  moreover have "max 0 (min (2 * half TYPE('d) - 1) (sint v)) mod (2 * half TYPE('d))
      = max 0 (min (2 * half TYPE('d) - 1) (sint v))"
    by (rule mod_twice(1) [OF half_pos]) (use half_pos [where 'a = 'd] in auto)
  ultimately show ?thesis by (simp only: uint_of_int_half)
qed

lemma saturate_extend:
  "saturate_unsigned (ucast b :: u16) = (b :: u8)" "saturate_unsigned (ucast w :: u32) = (w :: u16)"
  "saturate_signed (scast b :: u16) = b" "saturate_signed (scast w :: u32) = w"
proof -
  have u: "sint (ucast b :: u16) = uint b" "sint (ucast w :: u32) = uint w"
    using uint_lt2p [of b] uint_lt2p [of w] by (simp_all add: sint_half half_def uint_ucast_up)
  show "saturate_unsigned (ucast b :: u16) = b" "saturate_unsigned (ucast w :: u32) = w"
    unfolding word_uint_eq_iff uint_saturate_unsigned u
    using uint_lt2p [of b] uint_lt2p [of w] by (simp_all add: half_def)
  have r: "- 128 \<le> sint b" "sint b < 128" "- 32768 \<le> sint w" "sint w < 32768"
    using sint_range_half [of b] sint_range_half [of w] by (simp_all add: half_def)
  have s: "sint (scast b :: u16) = sint b" "sint (scast w :: u32) = sint w"
    unfolding scast_eq by (rule sint_of_int_half; use r in \<open>simp add: half_def\<close>)+
  show "saturate_signed (scast b :: u16) = b" "saturate_signed (scast w :: u32) = w"
    unfolding word_eq_iff_signed [where 'a = int] sint_saturate_signed s
    using r by (simp_all add: half_def)
qed

lemma join128_append_lanes:
  "join128 (split_lanes a @ split_lanes b :: u8 list) = mk_u128 a b"
  "join128 (split_lanes a @ split_lanes b :: u16 list) = mk_u128 a b"
  using b16.join_split [of "mk_u128 a b"] w8.join_split [of "mk_u128 a b"]
  by (simp_all add: split128_def)

lemma map_saturate_extend:
  "map (saturate_unsigned \<circ> (ucast :: u8 \<Rightarrow> u16)) bs = bs"
  "map (saturate_unsigned \<circ> (ucast :: u16 \<Rightarrow> u32)) ws = ws"
  "map (saturate_signed \<circ> (scast :: u8 \<Rightarrow> u16)) bs = bs"
  "map (saturate_signed \<circ> (scast :: u16 \<Rightarrow> u32)) ws = ws"
  by (simp_all add: o_def saturate_extend)

text \<open>
  C25. The packs clamp every lane of both operands to the range of the narrower type, first
  operand first, and undo the extensions: widening two halves with \<^verbatim>\<open>pmovzx\<close> or
  \<^verbatim>\<open>pmovsx\<close> and packing them with the matching saturation restores them.
\<close>

theorem packs_clamp_and_invert:
  "map sint (split128 (packsswb128 x y) :: u8 list)
     = map (\<lambda>v. max (- 128) (min 127 (sint v))) (split128 x @ split128 y :: u16 list)
   \<and> map sint (split128 (packssdw128 x y) :: u16 list)
     = map (\<lambda>v. max (- 32768) (min 32767 (sint v))) (split128 x @ split128 y :: u32 list)
   \<and> map uint (split128 (packuswb128 x y) :: u8 list)
     = map (\<lambda>v. max 0 (min 255 (sint v))) (split128 x @ split128 y :: u16 list)
   \<and> map uint (split128 (packusdw128 x y) :: u16 list)
     = map (\<lambda>v. max 0 (min 65535 (sint v))) (split128 x @ split128 y :: u32 list)
   \<and> map sint (split_lanes (packsswb64 a b) :: u8 list)
     = map (\<lambda>v. max (- 128) (min 127 (sint v))) (split_lanes a @ split_lanes b :: u16 list)
   \<and> map uint (split_lanes (packuswb64 a b) :: u8 list)
     = map (\<lambda>v. max 0 (min 255 (sint v))) (split_lanes a @ split_lanes b :: u16 list)
   \<and> map sint (split_lanes (packssdw64 a b) :: u16 list)
     = map (\<lambda>v. max (- 32768) (min 32767 (sint v))) (split_lanes a @ split_lanes b :: u32 list)
   \<and> packuswb128 (pmovzxbw a) (pmovzxbw b) = mk_u128 a b
   \<and> packusdw128 (pmovzxwd a) (pmovzxwd b) = mk_u128 a b
   \<and> packsswb128 (pmovsxbw a) (pmovsxbw b) = mk_u128 a b
   \<and> packssdw128 (pmovsxwd a) (pmovsxwd b) = mk_u128 a b"
  by (simp add: packsswb128_def packssdw128_def packuswb128_def packusdw128_def packsswb64_def
      packuswb64_def packssdw64_def pack128_def pack64_def pmovzxbw_def pmovzxwd_def pmovsxbw_def
      pmovsxwd_def lane_simps sint_saturate_signed uint_saturate_unsigned half_small o_def
      map_saturate_extend [unfolded o_def] join128_append_lanes)

section \<open>Byte alignment\<close>

text \<open>The words of the concatenation \<open>dst:src\<close>, lowest first, and the 64 bits from \<open>8 * m\<close> of word \<open>q\<close> on.\<close>

definition align_word :: "u128 \<Rightarrow> u128 \<Rightarrow> nat \<Rightarrow> u64" where
  "align_word dst src q = (if q = 0 then lo src else if q = 1 then hi src
                           else if q = 2 then lo dst else if q = 3 then hi dst else 0)"

definition align_window :: "u128 \<Rightarrow> u128 \<Rightarrow> nat \<Rightarrow> nat \<Rightarrow> u64" where
  "align_window dst src q m =
     (if m = 0 then align_word dst src q
      else drop_bit (8 * m) (align_word dst src q) OR push_bit (8 * (8 - m)) (align_word dst src (Suc q)))"

definition align_bit :: "u128 \<Rightarrow> u128 \<Rightarrow> nat \<Rightarrow> bool" where
  "align_bit dst src k = bit (align_word dst src (k div 64)) (k mod 64)"

lemma bit_align_window:
  assumes "m < 8" "j < 64"
  shows "bit (align_window dst src q m) j = align_bit dst src (64 * q + 8 * m + j)"
proof (cases "8 * m + j < 64")
  case True
  then have "(64 * q + 8 * m + j) div 64 = q" "(64 * q + 8 * m + j) mod 64 = 8 * m + j"
    by (simp_all add: add.assoc)
  then show ?thesis
    using True assms
    by (auto simp: align_window_def align_bit_def bit_or_iff bit_drop_bit_eq bit_push_bit_iff)
next
  case False
  then obtain i where i: "8 * m + j = 64 + i" by (metis le_Suc_ex not_less)
  have il: "i < 64" using i assms by simp
  have e: "64 * q + 8 * m + j = 64 * Suc q + i" using i by simp
  have "(64 * Suc q + i) div 64 = Suc q" "(64 * Suc q + i) mod 64 = i"
    using il by (simp_all del: mult_Suc_right)
  moreover have "m \<noteq> 0" using False assms by (metis add_0 mult_0_right)
  moreover have "8 * (8 - m) \<le> j" "j - 8 * (8 - m) = i" using i assms by simp_all
  moreover have "\<not> bit w (8 * m + j)" for w :: u64 using i by (simp add: bit64_beyond)
  ultimately show ?thesis
    unfolding e using assms
    by (simp add: align_window_def align_bit_def bit_or_iff bit_drop_bit_eq bit_push_bit_iff)
qed

lemma palignr128_windows:
  "palignr128 dst src imm = mk_u128 (align_window dst src (unat imm div 8) (unat imm mod 8))
                                    (align_window dst src (Suc (unat imm div 8)) (unat imm mod 8))"
proof (cases "unat imm < 32")
  case False
  then have "4 \<le> unat imm div 8" by linarith
  then show ?thesis using False by (simp add: palignr128_def align_window_def align_word_def)
next
  case True
  define q m where "q = unat imm div 8" and "m = unat imm mod 8"
  have n: "unat imm = 8 * q + m" "m < 8" "q < 4" using True by (simp_all add: q_def m_def)
  then have "q \<in> {0, 1, 2, 3}" by auto
  moreover have mk: "mk_u128 (lo w) (hi w) = w" for w :: u128 by simp
  ultimately show ?thesis
    unfolding q_def [symmetric] m_def [symmetric]
    using n(2)
    by (elim insertE emptyE; cases "m = 0")
      (simp_all add: palignr128_def Let_def n(1) align_window_def align_word_def mk)
qed

lemma bit_palignr128:
  assumes "j < 128"
  shows "bit128 (palignr128 dst src imm) j = align_bit dst src (8 * unat imm + j)"
proof (cases "j < 64")
  case True
  have e: "64 * (unat imm div 8) + 8 * (unat imm mod 8) = 8 * unat imm" by presburger
  then show ?thesis
    using True bit_align_window [of "unat imm mod 8" j dst src "unat imm div 8"]
    by (simp add: palignr128_windows bit128_mk e)
next
  case False
  then obtain i where j: "j = 64 + i" by (metis le_Suc_ex not_less)
  have "64 * Suc (unat imm div 8) + 8 * (unat imm mod 8) + i = 8 * unat imm + j"
    using j by presburger
  moreover have "i < 64" "j - 64 = i" using j assms by simp_all
  ultimately show ?thesis
    using False bit_align_window [of "unat imm mod 8" i dst src "Suc (unat imm div 8)"]
    by (simp add: palignr128_windows bit128_mk)
qed

lemma align_bit_concat:
  "align_bit dst src k = (if k < 128 then bit128 src k else bit128 dst (k - 128))"
proof -
  have split: "align_bit dst src (64 * q + i) = bit (align_word dst src q) i" if "i < 64" for q i
    using that by (simp add: align_bit_def)
  obtain q i where k: "k = 64 * q + i" "i < 64"
    by (metis mod_less_divisor mult_div_mod_eq zero_less_numeral)
  consider "q = 0" | "q = 1" | "q = 2" | "q = 3" | "4 \<le> q" by linarith
  then show ?thesis
  proof cases
    case 5
    then have "128 \<le> k - 128" "256 \<le> k" using k by simp_all
    then show ?thesis
      using 5 bit128_beyond [of "k - 128" dst] split [OF k(2), of q] by (simp add: k(1) align_word_def)
  qed (use k split [OF k(2), of q] in \<open>simp_all add: align_word_def bit128_def\<close>)
qed

lemma bit_palignr64:
  assumes "j < 64"
  shows "bit (palignr64 dst src imm) j
    = (if j + 8 * unat imm < 64 then bit src (j + 8 * unat imm) else bit dst (j + 8 * unat imm - 64))"
proof -
  consider "unat imm = 0" | "16 \<le> unat imm" | "8 \<le> unat imm" "unat imm < 16"
    | "0 < unat imm" "unat imm < 8" by linarith
  then show ?thesis
  proof cases
    case 1
    then show ?thesis using assms by (simp add: palignr64_def)
  next
    case 2
    then show ?thesis
      using bit64_beyond [of "j + 8 * unat imm - 64" dst] by (simp add: palignr64_def)
  next
    case 3
    then have "8 * (unat imm - 8) + j = j + 8 * unat imm - 64" by simp
    with 3 show ?thesis by (simp add: palignr64_def bit_drop_bit_eq)
  next
    case 4
    have e: "8 * (8 - unat imm) \<le> j \<longleftrightarrow> 64 \<le> j + 8 * unat imm" using 4 by linarith
    have f: "64 \<le> j + 8 * unat imm \<Longrightarrow> j - 8 * (8 - unat imm) = j + 8 * unat imm - 64" using 4 by simp
    show ?thesis
      using 4 assms e f bit64_beyond [of "j + 8 * unat imm" src]
      by (auto simp: palignr64_def Let_def bit_drop_bit_eq bit_or_iff bit_push_bit_iff add.commute not_less)
  qed
qed

text \<open>
  \<^verbatim>\<open>palignr\<close> is one shift of the concatenation of its operands, for every immediate:
  bit \<open>j\<close> of the result is bit \<open>j + 8 * imm\<close> of \<open>dst:src\<close>, zero beyond its end. The nine cases
  of the 128-bit version agree at their borders.
\<close>

theorem palignr_shifts_concatenation:
  "(j < 128 \<and> bit128 (palignr128 x y imm) j)
     = (j < 128 \<and> (if j + 8 * unat imm < 128 then bit128 y (j + 8 * unat imm)
                   else bit128 x (j + 8 * unat imm - 128)))
   \<and> bit (palignr64 d s imm) j
     = (j < 64 \<and> (if j + 8 * unat imm < 64 then bit s (j + 8 * unat imm)
                  else bit d (j + 8 * unat imm - 64)))"
proof
  show "(j < 128 \<and> bit128 (palignr128 x y imm) j)
     = (j < 128 \<and> (if j + 8 * unat imm < 128 then bit128 y (j + 8 * unat imm)
                   else bit128 x (j + 8 * unat imm - 128)))"
    using bit_palignr128 [of j x y imm] by (cases "j < 128") (simp_all only: align_bit_concat add.commute simp_thms)
  show "bit (palignr64 d s imm) j
     = (j < 64 \<and> (if j + 8 * unat imm < 64 then bit s (j + 8 * unat imm)
                  else bit d (j + 8 * unat imm - 64)))"
  proof (cases "j < 64")
    case True
    then show ?thesis using bit_palignr64 [OF True, of d s imm] by simp
  next
    case False
    then show ?thesis using bit64_beyond [of j "palignr64 d s imm"] by simp
  qed
qed

section \<open>CRC\<close>

lemma crc_bit_iff:
  "bit (crc_bit d) k \<longleftrightarrow> bit d (Suc k) \<noteq> (bit d 0 \<and> bit (0x82F63B78 :: 'a word) k)"
  for d :: "'a::len word"
proof -
  have "(d AND 1 \<noteq> 0) = bit d 0" using drop_bit_test [of 0 d] by simp
  then show ?thesis by (simp add: crc_bit_def bit_xor_iff bit_drop_bit_eq)
qed

lemma crc_bit_xor: "crc_bit (a XOR b) = crc_bit a XOR crc_bit b" for a b :: "'a::len word"
  by (rule bit_word_eqI) (auto simp: crc_bit_iff bit_xor_iff)

lemma crc_pow_xor: "(crc_bit ^^ n) (a XOR b) = (crc_bit ^^ n) a XOR (crc_bit ^^ n) b"
  by (induction n) (simp_all add: crc_bit_xor)

lemma ucast_xor: "ucast (a XOR b) = ucast a XOR (ucast b :: 'b::len word)" for a b :: "'a::len word"
  by (rule bit_word_eqI) (auto simp: bit_simps)

lemma crc_byte_xor: "crc_byte (a XOR b) (s XOR t) = crc_byte a s XOR crc_byte b t"
proof -
  have "(a XOR b) XOR ucast (s XOR t) = (a XOR ucast s) XOR (b XOR ucast t)"
    by (simp add: ucast_xor xor.assoc xor.left_commute)
  then have "(crc_bit ^^ 8) ((a XOR b) XOR ucast (s XOR t))
      = (crc_bit ^^ 8) (a XOR ucast s) XOR (crc_bit ^^ 8) (b XOR ucast t)"
    by (simp only:) (rule crc_pow_xor)
  then show ?thesis unfolding crc_byte_def .
qed

lemma crc_bytes_xor:
  "crc_bytes n (a XOR b) (s XOR t) = crc_bytes n a s XOR crc_bytes n b t"
  by (induction n arbitrary: a b s t)
    (simp_all add: crc_byte_xor ucast_xor drop_bit_xor)

lemma crc_bytes_add:
  "crc_bytes (m + n) d s = crc_bytes n (crc_bytes m d s) (drop_bit (8 * m) s)"
  by (induction m arbitrary: d s) (simp_all add: drop_bit_drop_bit add.commute)

text \<open>Only the bits the bytes cover matter, whatever the width of the source operand.\<close>

lemma crc_bytes_cong:
  fixes d :: "'a::len word"
  assumes "\<And>k. k < 8 * n \<Longrightarrow> bit (s :: 's::len word) k = bit (t :: 't::len word) k"
  shows "crc_bytes n d s = crc_bytes n d t"
  using assms
proof (induction n arbitrary: d s t)
  case (Suc n)
  have "(ucast s :: u8) = ucast t"
    by (rule bit_word_eqI) (use Suc.prems in \<open>simp add: bit_ucast_iff\<close>)
  moreover have "crc_bytes n d' (drop_bit 8 s) = crc_bytes n d' (drop_bit 8 t)" for d' :: "'a word"
    by (rule Suc.IH) (use Suc.prems in \<open>simp add: bit_drop_bit_eq\<close>)
  ultimately show ?case by simp
qed simp

lemma and_full_mask: "w AND 0xFFFFFFFF = w" for w :: u32
proof -
  have "(0xFFFFFFFF :: u32) = mask 32" by (simp add: mask_eq_exp_minus_1)
  then show ?thesis by (simp only: take_bit_eq_mask [symmetric]) (simp add: take_bit_word_eq_self)
qed

lemma and_low_mask: "(ucast w :: u64) AND 0xFFFFFFFF = ucast w" for w :: u32
proof -
  have "(0xFFFFFFFF :: u64) = mask 32" by (simp add: mask_eq_exp_minus_1)
  then show ?thesis
    by (simp only:) (rule bit_word_eqI, simp only: bit_and_iff bit_mask_iff bit_ucast_iff,
        auto dest: bit_imp_le_length)
qed

lemma crc_bit_ucast: "crc_bit (ucast d :: u64) = ucast (crc_bit (d :: u32))"
proof -
  have p: "(0x82F63B78 :: u64) = ucast (0x82F63B78 :: u32)" by simp
  show ?thesis
    by (rule bit_word_eqI)
      (simp only: crc_bit_iff p bit_ucast_iff, auto dest: bit_imp_le_length)
qed

lemma crc_pow_ucast: "(crc_bit ^^ n) (ucast d :: u64) = ucast ((crc_bit ^^ n) (d :: u32))"
  by (induction n) (simp_all add: crc_bit_ucast)

lemma crc_byte_ucast: "crc_byte (ucast d :: u64) b = ucast (crc_byte (d :: u32) b)"
proof -
  have "(ucast d :: u64) XOR ucast b = ucast (d XOR ucast b)"
    by (rule bit_word_eqI) (auto simp: bit_simps dest: bit_imp_le_length)
  then show ?thesis unfolding crc_byte_def by (simp only: crc_pow_ucast)
qed

lemma crc_bytes_ucast: "crc_bytes n (ucast d :: u64) s = ucast (crc_bytes n (d :: u32) s)"
  by (induction n arbitrary: d s) (simp_all add: crc_byte_ucast)

lemma crc_split:
  fixes d :: "'a::len word" and s :: "'s::len word" and h :: "'h::len word"
  assumes "LENGTH('s) = 2 * LENGTH('h)" "8 * n = LENGTH('h)"
  shows "crc_bytes (n + n) d s
    = crc_bytes n (crc_bytes n d (ucast s :: 'h word)) (ucast (drop_bit LENGTH('h) s) :: 'h word)"
proof -
  have "crc_bytes n d' s = crc_bytes n d' (ucast s :: 'h word)" for d' :: "'a word"
    by (rule crc_bytes_cong) (use assms in \<open>simp add: bit_ucast_iff\<close>)
  moreover have "crc_bytes n d' (drop_bit (8 * n) s) = crc_bytes n d' (ucast (drop_bit LENGTH('h) s) :: 'h word)" for d' :: "'a word"
    by (rule crc_bytes_cong) (use assms in \<open>simp add: bit_ucast_iff bit_drop_bit_eq\<close>)
  ultimately show ?thesis by (simp only: crc_bytes_add)
qed

text \<open>
  The CRC instructions compose and are linear: processing a wide operand is processing its
  low half and then its high half, from bytes up to quadwords, and the CRC of an exclusive or is
  the exclusive or of the CRCs. The 64-bit form works on a zero-extended 32-bit state.
\<close>

theorem crc_composes:
  "crc32_16 d w = crc32_8 (crc32_8 d (ucast w)) (ucast (drop_bit 8 w))
   \<and> crc32_32 d v = crc32_16 (crc32_16 d (ucast v)) (ucast (drop_bit 16 v))
   \<and> crc32_64 x q = ucast (crc32_32 (crc32_32 (ucast x) (ucast q)) (ucast (drop_bit 32 q)))
   \<and> crc32_8 (d XOR e) (a XOR b) = crc32_8 d a XOR crc32_8 e b"
proof (intro conjI)
  show "crc32_16 d w = crc32_8 (crc32_8 d (ucast w)) (ucast (drop_bit 8 w))"
    using crc_split [of 1 d w, where 'h = 8] by (simp add: crc32_16_def crc32_8_def and_full_mask numeral_2_eq_2)
  show "crc32_32 d v = crc32_16 (crc32_16 d (ucast v)) (ucast (drop_bit 16 v))"
    using crc_split [of 2 d v, where 'h = 16] by (simp add: crc32_32_def crc32_16_def and_full_mask)
  show "crc32_64 x q = ucast (crc32_32 (crc32_32 (ucast x) (ucast q)) (ucast (drop_bit 32 q)))"
    using crc_split [of 4 "ucast x :: u32" q, where 'h = 32]
    by (simp add: crc32_64_def crc32_32_def and_full_mask crc_bytes_ucast and_low_mask)
  show "crc32_8 (d XOR e) (a XOR b) = crc32_8 d a XOR crc32_8 e b"
    by (simp add: crc32_8_def and_full_mask crc_bytes_xor del: crc_bytes.simps)
qed

section \<open>Blends and the bit they test\<close>

lemma blendvps_tests_bit_27:
  "blendvps (mk_u128 0 0) (mk_u128 1 0) (mk_u128 0x80000000 0) = mk_u128 0 0"
  "blendvps (mk_u128 0 0) (mk_u128 1 0) (mk_u128 0x8000000 0) = mk_u128 1 0"
  by code_simp+

lemma blendvpd_tests_bit_59:
  "blendvpd (mk_u128 0 0) (mk_u128 1 0) (mk_u128 0x8000000000000000 0) = mk_u128 0 0"
  "blendvpd (mk_u128 0 0) (mk_u128 1 0) (mk_u128 0x800000000000000 0) = mk_u128 1 0"
  by code_simp+

end
