(* ===== verification/X64_StringCompare.thy ===== *)
theory X64_StringCompare
  imports X64_SimdPack
begin

text \<open>
  The string comparison instructions \<^verbatim>\<open>pcmpistri\<close> and \<^verbatim>\<open>pcmpestri\<close> of
  \<^verbatim>\<open>emulator/src/x64/cpuimpl.cpp\<close>. The control byte selects the element format, an
  aggregation of the element comparisons into one bit per element, a polarity, and which end of
  the bits to report. The elements are read as integers (the template parameter decides between
  \<open>uint\<close> and \<open>sint\<close>); the four templates differ in the number of elements and in how the number
  of valid elements is found: up to the first zero (\<^verbatim>\<open>pcmpistri\<close>) or from an explicit
  length (\<^verbatim>\<open>pcmpestri\<close>). The theorems give each aggregation its meaning and show that
  the index reported is the first or the last match.
\<close>

section \<open>The control byte\<close>

datatype data_format = UNSIGNED_BYTE | UNSIGNED_WORD | SIGNED_BYTE | SIGNED_WORD
datatype aggregation_operation = EQUAL_ANY | RANGES | EQUAL_EACH | EQUAL_ORDERED
datatype polarity = POSITIVE_POLARITY | NEGATIVE_POLARITY | MASKED_POSITIVE | MASKED_NEGATIVE
datatype output_selection = LEAST_SIGNIFICANT_INDEX | MOST_SIGNIFICANT_INDEX

definition control_format :: "u8 \<Rightarrow> data_format" where
  "control_format control =
     [UNSIGNED_BYTE, UNSIGNED_WORD, SIGNED_BYTE, SIGNED_WORD] ! order_field control 0"

definition control_operation :: "u8 \<Rightarrow> aggregation_operation" where
  "control_operation control =
     [EQUAL_ANY, RANGES, EQUAL_EACH, EQUAL_ORDERED] ! order_field control 2"

definition control_polarity :: "u8 \<Rightarrow> polarity" where
  "control_polarity control =
     [POSITIVE_POLARITY, NEGATIVE_POLARITY, MASKED_POSITIVE, MASKED_NEGATIVE] ! order_field control 4"

definition control_output :: "u8 \<Rightarrow> output_selection" where
  "control_output control =
     (if drop_bit 6 control AND 0x1 = 0 then LEAST_SIGNIFICANT_INDEX else MOST_SIGNIFICANT_INDEX)"

section \<open>Aggregations\<close>

text \<open>
  \<open>DST\<close> and \<open>SRC\<close> are the elements, \<open>iD\<close> and \<open>iS\<close> the source's \<^verbatim>\<open>invaliddst\<close> and
  \<^verbatim>\<open>invalidsrc\<close>; the loops run over \<open>length SRC\<close> elements.
\<close>

definition set_bit_if :: "bool \<Rightarrow> nat \<Rightarrow> u32 \<Rightarrow> u32" where
  "set_bit_if b i acc = acc OR push_bit i (of_bool b)"

definition equal_each :: "int list \<Rightarrow> int list \<Rightarrow> nat \<Rightarrow> nat \<Rightarrow> u32" where
  "equal_each DST SRC iD iS =
     fold (\<lambda>i. set_bit_if (if i \<ge> iD \<and> i \<ge> iS then True
                           else if i \<ge> iD then False
                           else if i \<ge> iS then False
                           else DST ! i = SRC ! i) i) [0..<length SRC] 0"

definition equal_any :: "int list \<Rightarrow> int list \<Rightarrow> nat \<Rightarrow> nat \<Rightarrow> u32" where
  "equal_any DST SRC iD iS =
     fold (\<lambda>i. fold (\<lambda>j. set_bit_if (if i \<ge> iD \<or> j \<ge> iS then False else DST ! i = SRC ! j) j)
                     [0..<length SRC]) [0..<length SRC] 0"

definition ranges :: "int list \<Rightarrow> int list \<Rightarrow> nat \<Rightarrow> nat \<Rightarrow> u32" where
  "ranges DST SRC iD iS =
     fold (\<lambda>j. fold (\<lambda>h acc.
         let i = 2 * h;
             low = (if i \<ge> iD \<or> j \<ge> iS then False else SRC ! j \<ge> DST ! i);
             high = (if i + 1 \<ge> iD \<or> j \<ge> iS then False else SRC ! j \<le> DST ! (i + 1))
         in acc OR (push_bit j (of_bool low) AND push_bit j (of_bool high)))
       [0..<length SRC div 2]) [0..<length SRC] 0"

definition equal_ordered :: "int list \<Rightarrow> int list \<Rightarrow> nat \<Rightarrow> nat \<Rightarrow> u32" where
  "equal_ordered DST SRC iD iS =
     (let N = length SRC
      in fold (\<lambda>j. fold (\<lambda>i acc.
           let k = j + i;
               res = (if i \<ge> iD then True else if k \<ge> iS then False else DST ! i = SRC ! k)
           in acc AND (NOT (push_bit j 1) OR push_bit j (of_bool res)))
         [0..<N - j]) [0..<N] (mask N))"

definition aggregate :: "aggregation_operation \<Rightarrow> int list \<Rightarrow> int list \<Rightarrow> nat \<Rightarrow> nat \<Rightarrow> u32" where
  "aggregate operation =
     (case operation of
        EQUAL_EACH \<Rightarrow> equal_each
      | EQUAL_ANY \<Rightarrow> equal_any
      | RANGES \<Rightarrow> ranges
      | EQUAL_ORDERED \<Rightarrow> equal_ordered)"

definition apply_polarity :: "polarity \<Rightarrow> nat \<Rightarrow> nat \<Rightarrow> u32 \<Rightarrow> u32" where
  "apply_polarity pol N iS intres1 =
     (case pol of
        POSITIVE_POLARITY \<Rightarrow> intres1
      | NEGATIVE_POLARITY \<Rightarrow> mask N XOR intres1
      | MASKED_POSITIVE \<Rightarrow> intres1
      | MASKED_NEGATIVE \<Rightarrow>
          fold (\<lambda>i acc. acc OR ((if i \<ge> iS then intres1 else NOT intres1) AND push_bit i 1)) [0..<N] 0)"

function least_loop :: "nat \<Rightarrow> u32 \<Rightarrow> nat \<Rightarrow> nat" where
  "least_loop N intres2 out =
     (if out < N \<and> drop_bit out intres2 AND 1 = 0 then least_loop N intres2 (out + 1) else out)"
  by pat_completeness auto
termination
  by (relation "measure (\<lambda>(N, intres2, out). N - out)") auto

declare least_loop.simps [simp del]

fun most_loop :: "u32 \<Rightarrow> nat \<Rightarrow> nat" where
  "most_loop intres2 0 = 0"
| "most_loop intres2 (Suc out) =
     (if drop_bit (Suc out) intres2 AND 1 = 0 then most_loop intres2 out else Suc out)"

definition select_output :: "output_selection \<Rightarrow> nat \<Rightarrow> u32 \<Rightarrow> nat" where
  "select_output output N intres2 =
     (case output of
        LEAST_SIGNIFICANT_INDEX \<Rightarrow> least_loop N intres2 0
      | MOST_SIGNIFICANT_INDEX \<Rightarrow> (if intres2 \<noteq> 0 then most_loop intres2 N else N))"

section \<open>The instructions\<close>

definition compare_strings ::
  "int list \<Rightarrow> int list \<Rightarrow> nat \<Rightarrow> nat \<Rightarrow> u8 \<Rightarrow> bool \<Rightarrow> bool \<Rightarrow> flags \<Rightarrow> u32 \<times> flags" where
  "compare_strings DST SRC iD iS control sf zf f =
     (let N = length SRC;
          intres1 = aggregate (control_operation control) DST SRC iD iS;
          intres2 = apply_polarity (control_polarity control) N iS intres1;
          out = select_output (control_output control) N intres2
      in (word_of_nat out,
          setParity False (f\<lparr>carry := (intres2 \<noteq> 0), overflow := (intres2 AND 1 \<noteq> 0),
                             sflag := sf, zflag := zf\<rparr>)))"

definition index_of_zero :: "int list \<Rightarrow> nat" where
  "index_of_zero xs = partition_point (\<lambda>x. x \<noteq> 0) xs"

text \<open>
  The assertions on the format restate the dispatch; they are checked here as the source does,
  \<open>is_signed\<close> standing for the template parameter.
\<close>

definition pcmpistri8 :: "bool \<Rightarrow> u128 \<Rightarrow> u128 \<Rightarrow> u8 \<Rightarrow> flags \<Rightarrow> (u32 \<times> flags) result" where
  "pcmpistri8 is_signed dst src control f =
     (let format = control_format control;
          rd = (if is_signed then sint else uint) :: u8 \<Rightarrow> int;
          DST8 = map rd (split128 dst); SRC8 = map rd (split128 src)
      in if format = UNSIGNED_BYTE \<and> is_signed \<or> format = SIGNED_BYTE \<and> \<not> is_signed then Inl AssertFailed
         else if format \<noteq> SIGNED_BYTE \<and> format \<noteq> UNSIGNED_BYTE then Inl AssertFailed
         else Inr (compare_strings DST8 SRC8 (index_of_zero DST8) (index_of_zero SRC8) control
                     (0 \<in> set DST8) (0 \<in> set SRC8) f))"

definition pcmpistri16 :: "bool \<Rightarrow> u128 \<Rightarrow> u128 \<Rightarrow> u8 \<Rightarrow> flags \<Rightarrow> (u32 \<times> flags) result" where
  "pcmpistri16 is_signed dst src control f =
     (let format = control_format control;
          rd = (if is_signed then sint else uint) :: u16 \<Rightarrow> int;
          DST16 = map rd (split128 dst); SRC16 = map rd (split128 src)
      in if format = UNSIGNED_WORD \<and> is_signed \<or> format = SIGNED_WORD \<and> \<not> is_signed then Inl AssertFailed
         else if format \<noteq> SIGNED_WORD \<and> format \<noteq> UNSIGNED_WORD then Inl AssertFailed
         else Inr (compare_strings DST16 SRC16 (index_of_zero DST16) (index_of_zero SRC16) control
                     (0 \<in> set DST16) (0 \<in> set SRC16) f))"

definition pcmpistri :: "u128 \<Rightarrow> u128 \<Rightarrow> u8 \<Rightarrow> flags \<Rightarrow> (u32 \<times> flags) result" where
  "pcmpistri dst src control f =
     (case control_format control of
        SIGNED_BYTE \<Rightarrow> pcmpistri8 True dst src control f
      | UNSIGNED_BYTE \<Rightarrow> pcmpistri8 False dst src control f
      | SIGNED_WORD \<Rightarrow> pcmpistri16 True dst src control f
      | UNSIGNED_WORD \<Rightarrow> pcmpistri16 False dst src control f)"

definition clamp_length :: "int \<Rightarrow> u32 \<Rightarrow> nat" where
  "clamp_length N len =
     (if sint len < - N \<or> sint len > N then nat N else nat \<bar>sint len\<bar>)"

definition pcmpestri8 :: "bool \<Rightarrow> u128 \<Rightarrow> u32 \<Rightarrow> u128 \<Rightarrow> u32 \<Rightarrow> u8 \<Rightarrow> flags \<Rightarrow> (u32 \<times> flags) result" where
  "pcmpestri8 is_signed dst lendst src lensrc control f =
     (let format = control_format control;
          rd = (if is_signed then sint else uint) :: u8 \<Rightarrow> int;
          DST8 = map rd (split128 dst); SRC8 = map rd (split128 src);
          invaliddst = clamp_length 16 lendst; invalidsrc = clamp_length 16 lensrc
      in if format = UNSIGNED_BYTE \<and> is_signed \<or> format = SIGNED_BYTE \<and> \<not> is_signed then Inl AssertFailed
         else if format \<noteq> SIGNED_BYTE \<and> format \<noteq> UNSIGNED_BYTE then Inl AssertFailed
         else Inr (compare_strings DST8 SRC8 invaliddst invalidsrc control
                     (invaliddst < 16) (invalidsrc < 16) f))"

definition pcmpestri16 :: "bool \<Rightarrow> u128 \<Rightarrow> u32 \<Rightarrow> u128 \<Rightarrow> u32 \<Rightarrow> u8 \<Rightarrow> flags \<Rightarrow> (u32 \<times> flags) result" where
  "pcmpestri16 is_signed dst lendst src lensrc control f =
     (let format = control_format control;
          rd = (if is_signed then sint else uint) :: u16 \<Rightarrow> int;
          DST16 = map rd (split128 dst); SRC16 = map rd (split128 src);
          invaliddst = clamp_length 8 lendst; invalidsrc = clamp_length 8 lensrc
      in if format = UNSIGNED_WORD \<and> is_signed \<or> format = SIGNED_WORD \<and> \<not> is_signed then Inl AssertFailed
         else if format \<noteq> SIGNED_WORD \<and> format \<noteq> UNSIGNED_WORD then Inl AssertFailed
         else Inr (compare_strings DST16 SRC16 invaliddst invalidsrc control
                     (invaliddst < 8) (invalidsrc < 8) f))"

definition pcmpestri :: "u128 \<Rightarrow> u32 \<Rightarrow> u128 \<Rightarrow> u32 \<Rightarrow> u8 \<Rightarrow> flags \<Rightarrow> (u32 \<times> flags) result" where
  "pcmpestri dst lendst src lensrc control f =
     (case control_format control of
        SIGNED_BYTE \<Rightarrow> pcmpestri8 True dst lendst src lensrc control f
      | UNSIGNED_BYTE \<Rightarrow> pcmpestri8 False dst lendst src lensrc control f
      | SIGNED_WORD \<Rightarrow> pcmpestri16 True dst lendst src lensrc control f
      | UNSIGNED_WORD \<Rightarrow> pcmpestri16 False dst lendst src lensrc control f)"

section \<open>The meaning of the aggregations\<close>

lemma bit_set_bit_if: "bit (set_bit_if b i acc) k \<longleftrightarrow> bit acc k \<or> (k < 32 \<and> b \<and> k = i)"
  by (auto simp: set_bit_if_def bit_or_iff bit_push_bit_iff bit_of_bool_iff)

lemma bit_fold_or:
  assumes "\<And>i acc. i < n \<Longrightarrow> bit (g i acc) k = (bit acc k \<or> P i)"
  shows "bit (fold g [0..<n] (acc :: u32)) k \<longleftrightarrow> bit acc k \<or> (\<exists>i<n. P i)"
  using assms
proof (induction n)
  case (Suc n)
  then have "bit (fold g [0..<n] acc) k \<longleftrightarrow> bit acc k \<or> (\<exists>i<n. P i)" by simp
  with Suc.prems [of n] show ?case by (auto simp: less_Suc_eq)
qed simp

lemma bit_fold_and:
  assumes "\<And>i acc. i < n \<Longrightarrow> bit (g i acc) k = (bit acc k \<and> P i)"
  shows "bit (fold g [0..<n] (acc :: u32)) k \<longleftrightarrow> bit acc k \<and> (\<forall>i<n. P i)"
  using assms
proof (induction n)
  case (Suc n)
  then have "bit (fold g [0..<n] acc) k \<longleftrightarrow> bit acc k \<and> (\<forall>i<n. P i)" by simp
  with Suc.prems [of n] show ?case by (auto simp: less_Suc_eq)
qed simp

definition aggregate_spec :: "aggregation_operation \<Rightarrow> int list \<Rightarrow> int list \<Rightarrow> nat \<Rightarrow> nat \<Rightarrow> nat \<Rightarrow> bool" where
  "aggregate_spec operation DST SRC iD iS j =
     (case operation of
        EQUAL_EACH \<Rightarrow> (j \<ge> iD \<and> j \<ge> iS) \<or> (j < iD \<and> j < iS \<and> DST ! j = SRC ! j)
      | EQUAL_ANY \<Rightarrow> j < iS \<and> (\<exists>i<length SRC. i < iD \<and> DST ! i = SRC ! j)
      | RANGES \<Rightarrow> j < iS \<and> (\<exists>h<length SRC div 2. 2 * h + 1 < iD
                              \<and> DST ! (2 * h) \<le> SRC ! j \<and> SRC ! j \<le> DST ! (2 * h + 1))
      | EQUAL_ORDERED \<Rightarrow> (\<forall>i<length SRC - j. i \<ge> iD \<or> (j + i < iS \<and> DST ! i = SRC ! (j + i))))"

lemma bit_equal_each:
  assumes "length SRC \<le> 32"
  shows "bit (equal_each DST SRC iD iS) k
    \<longleftrightarrow> k < length SRC \<and> aggregate_spec EQUAL_EACH DST SRC iD iS k"
  unfolding equal_each_def aggregate_spec_def
  by (subst bit_fold_or, rule bit_set_bit_if) (use assms in \<open>auto split: if_splits\<close>)

lemma bit_equal_any:
  assumes "length SRC \<le> 32"
  shows "bit (equal_any DST SRC iD iS) k
    \<longleftrightarrow> k < length SRC \<and> aggregate_spec EQUAL_ANY DST SRC iD iS k"
proof -
  have inner: "bit (set_bit_if (if i \<ge> iD \<or> j \<ge> iS then False else DST ! i = SRC ! j) j acc) k
      \<longleftrightarrow> bit acc k \<or> (k < 32 \<and> k = j \<and> i < iD \<and> j < iS \<and> DST ! i = SRC ! j)" for i j acc
    by (auto simp: bit_set_bit_if)
  have "bit (equal_any DST SRC iD iS) k \<longleftrightarrow> bit (0 :: u32) k \<or> (\<exists>i<length SRC. \<exists>j<length SRC.
      k < 32 \<and> k = j \<and> i < iD \<and> j < iS \<and> DST ! i = SRC ! j)"
    unfolding equal_any_def by (rule bit_fold_or, rule bit_fold_or, rule inner)
  moreover have "k < length SRC \<Longrightarrow> k < 32" using assms by simp
  ultimately show ?thesis
    unfolding aggregate_spec_def aggregation_operation.case bit_0_eq bot_apply bot_bool_def by blast
qed

lemma bit_ranges:
  assumes "length SRC \<le> 32"
  shows "bit (ranges DST SRC iD iS) k
    \<longleftrightarrow> k < length SRC \<and> aggregate_spec RANGES DST SRC iD iS k"
proof -
  have inner: "bit (let i = 2 * h;
             low = (if i \<ge> iD \<or> j \<ge> iS then False else SRC ! j \<ge> DST ! i);
             high = (if i + 1 \<ge> iD \<or> j \<ge> iS then False else SRC ! j \<le> DST ! (i + 1))
         in acc OR (push_bit j (of_bool low) AND push_bit j (of_bool high))) k
     \<longleftrightarrow> bit acc k \<or> (k < 32 \<and> k = j \<and> j < iS \<and> 2 * h + 1 < iD \<and> DST ! (2 * h) \<le> SRC ! j
                      \<and> SRC ! j \<le> DST ! (2 * h + 1))" for h j and acc :: u32
    by (auto simp: Let_def bit_or_iff bit_and_iff bit_push_bit_iff bit_of_bool_iff)
  have "bit (ranges DST SRC iD iS) k \<longleftrightarrow> bit (0 :: u32) k \<or> (\<exists>j<length SRC. \<exists>h<length SRC div 2.
      k < 32 \<and> k = j \<and> j < iS \<and> 2 * h + 1 < iD \<and> DST ! (2 * h) \<le> SRC ! j
      \<and> SRC ! j \<le> DST ! (2 * h + 1))"
    unfolding ranges_def by (rule bit_fold_or, rule bit_fold_or, rule inner)
  moreover have "k < length SRC \<Longrightarrow> k < 32" using assms by simp
  ultimately show ?thesis
    unfolding aggregate_spec_def aggregation_operation.case bit_0_eq bot_apply bot_bool_def by blast
qed

lemma bit_equal_ordered:
  assumes "length SRC \<le> 32"
  shows "bit (equal_ordered DST SRC iD iS) k
    \<longleftrightarrow> k < length SRC \<and> aggregate_spec EQUAL_ORDERED DST SRC iD iS k"
proof -
  let ?res = "\<lambda>j i. (if i \<ge> iD then True else if j + i \<ge> iS then False else DST ! i = SRC ! (j + i))"
  have inner: "bit (let k = j + i;
               res = (if i \<ge> iD then True else if k \<ge> iS then False else DST ! i = SRC ! k)
           in acc AND (NOT (push_bit j 1) OR push_bit j (of_bool res))) k
     \<longleftrightarrow> bit acc k \<and> (k = j \<longrightarrow> ?res j i)" if "j < length SRC" for i j and acc :: u32
    using that assms
    by (auto simp: Let_def bit_or_iff bit_and_iff bit_not_iff bit_push_bit_iff bit_of_bool_iff bit_1_iff
        simp del: push_bit_of_1 dest: bit_imp_le_length)
  have outer: "bit (fold (\<lambda>i acc.
           let k = j + i;
               res = (if i \<ge> iD then True else if k \<ge> iS then False else DST ! i = SRC ! k)
           in acc AND (NOT (push_bit j 1) OR push_bit j (of_bool res))) [0..<length SRC - j] acc) k
    \<longleftrightarrow> bit acc k \<and> (\<forall>i<length SRC - j. k = j \<longrightarrow> ?res j i)" if "j < length SRC" for j and acc :: u32
    by (rule bit_fold_and) (rule inner [OF that])
  have "bit (equal_ordered DST SRC iD iS) k \<longleftrightarrow> bit (mask (length SRC) :: u32) k
      \<and> (\<forall>j<length SRC. \<forall>i<length SRC - j. k = j \<longrightarrow> ?res j i)"
    unfolding equal_ordered_def Let_def by (rule bit_fold_and) (rule outer [unfolded Let_def])
  moreover have "bit (mask (length SRC) :: u32) k = (k < length SRC)"
    using assms by (auto simp: bit_mask_iff)
  moreover have "?res j i \<longleftrightarrow> i \<ge> iD \<or> (j + i < iS \<and> DST ! i = SRC ! (j + i))" for i j by auto
  ultimately show ?thesis
    unfolding aggregate_spec_def aggregation_operation.case by blast
qed

lemma bit_aggregate:
  assumes "length SRC \<le> 32"
  shows "bit (aggregate operation DST SRC iD iS) k
    \<longleftrightarrow> k < length SRC \<and> aggregate_spec operation DST SRC iD iS k"
  using assms
  by (cases operation) (simp_all add: aggregate_def bit_equal_each bit_equal_any bit_ranges bit_equal_ordered)

definition polarity_spec :: "polarity \<Rightarrow> nat \<Rightarrow> (nat \<Rightarrow> bool) \<Rightarrow> nat \<Rightarrow> bool" where
  "polarity_spec pol iS P j =
     (case pol of
        POSITIVE_POLARITY \<Rightarrow> P j
      | NEGATIVE_POLARITY \<Rightarrow> \<not> P j
      | MASKED_POSITIVE \<Rightarrow> P j
      | MASKED_NEGATIVE \<Rightarrow> P j = (j \<ge> iS))"

lemma bit_apply_polarity:
  assumes "N \<le> 32" "\<And>j. bit intres1 j \<longleftrightarrow> j < N \<and> P j"
  shows "bit (apply_polarity pol N iS intres1) k \<longleftrightarrow> k < N \<and> polarity_spec pol iS P k"
proof (cases pol)
  case MASKED_NEGATIVE
  have inner: "bit (acc OR ((if i \<ge> iS then intres1 else NOT intres1) AND push_bit i 1)) k
      \<longleftrightarrow> bit acc k \<or> (k < 32 \<and> k = i \<and> (if i \<ge> iS then bit intres1 k else \<not> bit intres1 k))" for i acc
  proof -
    have "bit (push_bit i (1 :: u32)) k \<longleftrightarrow> k < 32 \<and> k = i"
      by (simp add: bit_push_bit_iff bit_1_iff del: push_bit_of_1) auto
    then show ?thesis by (auto simp: bit_or_iff bit_and_iff bit_not_iff simp del: push_bit_of_1)
  qed
  have "bit (fold (\<lambda>i acc. acc OR ((if i \<ge> iS then intres1 else NOT intres1) AND push_bit i 1)) [0..<N] 0) k
      \<longleftrightarrow> bit (0 :: u32) k \<or> (\<exists>i<N. k < 32 \<and> k = i \<and> (if i \<ge> iS then bit intres1 k else \<not> bit intres1 k))"
    by (rule bit_fold_or) (rule inner)
  then have "bit (apply_polarity pol N iS intres1) k
      \<longleftrightarrow> k < N \<and> k < 32 \<and> (if k \<ge> iS then k < N \<and> P k else \<not> (k < N \<and> P k))"
    unfolding MASKED_NEGATIVE apply_polarity_def polarity.case assms(2) bit_0_eq bot_apply bot_bool_def
    by blast
  moreover have "k < N \<Longrightarrow> k < 32" using assms(1) by simp
  ultimately show ?thesis
    unfolding MASKED_NEGATIVE polarity_spec_def polarity.case by (auto split: if_splits)
next
  case NEGATIVE_POLARITY
  have "bit (mask N :: u32) k = (k < N)" using assms(1) by (auto simp: bit_mask_iff)
  then show ?thesis
    unfolding NEGATIVE_POLARITY apply_polarity_def polarity_spec_def polarity.case bit_xor_iff assms(2)
    by blast
next
  case POSITIVE_POLARITY
  show ?thesis
    unfolding POSITIVE_POLARITY apply_polarity_def polarity_spec_def polarity.case by (rule assms(2))
next
  case MASKED_POSITIVE
  show ?thesis
    unfolding MASKED_POSITIVE apply_polarity_def polarity_spec_def polarity.case by (rule assms(2))
qed

lemma least_loop_spec:
  assumes "out \<le> N" "\<forall>i<out. \<not> bit x i"
  shows "least_loop N x out \<le> N \<and> (\<forall>i<least_loop N x out. \<not> bit x i)
    \<and> (least_loop N x out < N \<longrightarrow> bit x (least_loop N x out))"
  using assms
proof (induction N x out rule: least_loop.induct)
  case (1 N x out)
  show ?case
  proof (cases "out < N \<and> \<not> bit x out")
    case True
    then have "least_loop N x out = least_loop N x (out + 1)" by (simp add: least_loop.simps [of N x out])
    with True 1 show ?thesis by (auto simp: less_Suc_eq)
  next
    case False
    then have "least_loop N x out = out" by (auto simp: least_loop.simps [of N x out])
    with False 1(2,3) show ?thesis by auto
  qed
qed

lemma most_loop_spec:
  assumes "\<exists>i\<le>n. bit x i"
  shows "most_loop x n \<le> n \<and> bit x (most_loop x n) \<and> (\<forall>i\<le>n. most_loop x n < i \<longrightarrow> \<not> bit x i)"
  using assms
proof (induction n)
  case (Suc n)
  show ?case
  proof (cases "bit x (Suc n)")
    case False
    then have "\<exists>i\<le>n. bit x i" using Suc.prems by (metis le_Suc_eq)
    with Suc.IH False show ?thesis by (auto simp: le_Suc_eq)
  qed simp
qed simp

text \<open>What a report means: the least or greatest matching index, or \<open>N\<close> if there is none.\<close>

definition reports :: "output_selection \<Rightarrow> nat \<Rightarrow> (nat \<Rightarrow> bool) \<Rightarrow> nat \<Rightarrow> bool" where
  "reports sel N P out \<longleftrightarrow>
     (if \<exists>j<N. P j
      then out < N \<and> P out \<and> (\<forall>j<N. P j \<longrightarrow> (case sel of LEAST_SIGNIFICANT_INDEX \<Rightarrow> out \<le> j
                                               | MOST_SIGNIFICANT_INDEX \<Rightarrow> j \<le> out))
      else out = N)"

lemma select_output_reports:
  assumes "N < 32" "\<And>j. bit x j \<longleftrightarrow> j < N \<and> P j"
  shows "reports sel N P (select_output sel N x)"
proof (cases sel)
  case LEAST_SIGNIFICANT_INDEX
  have l: "least_loop N x 0 \<le> N \<and> (\<forall>i<least_loop N x 0. \<not> bit x i)
    \<and> (least_loop N x 0 < N \<longrightarrow> bit x (least_loop N x 0))"
    by (rule least_loop_spec) simp_all
  show ?thesis
  proof (cases "\<exists>j<N. P j")
    case True
    then have "least_loop N x 0 < N" using l assms(2) by (metis le_neq_implies_less)
    moreover have "least_loop N x 0 \<le> j" if "j < N" "P j" for j
      using l that assms(2) [of j] by (metis not_le)
    ultimately show ?thesis
      using True l assms(2) LEAST_SIGNIFICANT_INDEX by (simp add: reports_def select_output_def)
  next
    case False
    then have "\<not> least_loop N x 0 < N" using l assms(2) by blast
    then have "least_loop N x 0 = N" using l by simp
    then show ?thesis using False LEAST_SIGNIFICANT_INDEX by (simp add: reports_def select_output_def)
  qed
next
  case MOST_SIGNIFICANT_INDEX
  show ?thesis
  proof (cases "\<exists>j<N. P j")
    case True
    then have ex: "\<exists>i\<le>N. bit x i" using assms(2) by (metis less_imp_le)
    then have "x \<noteq> 0" by auto
    let ?m = "most_loop x N"
    have m: "?m \<le> N" "bit x ?m" "\<forall>i\<le>N. ?m < i \<longrightarrow> \<not> bit x i" using most_loop_spec [OF ex] by simp_all
    have "j \<le> ?m" if "j < N" "P j" for j
      using m(3) that assms(2) [of j] by (metis less_imp_le not_le)
    then show ?thesis
      using m True MOST_SIGNIFICANT_INDEX assms(2) [of ?m] \<open>x \<noteq> 0\<close>
      by (simp add: reports_def select_output_def)
  next
    case False
    then have "x = 0" using assms(2) by (intro bit_word_eqI) auto
    then show ?thesis using False MOST_SIGNIFICANT_INDEX by (simp add: reports_def select_output_def)
  qed
qed


section \<open>Properties\<close>

definition match_spec :: "u8 \<Rightarrow> int list \<Rightarrow> int list \<Rightarrow> nat \<Rightarrow> nat \<Rightarrow> nat \<Rightarrow> bool" where
  "match_spec control DST SRC iD iS =
     polarity_spec (control_polarity control) iS
       (aggregate_spec (control_operation control) DST SRC iD iS)"

lemma compare_strings_reports:
  assumes "length SRC < 32"
  shows "reports (control_output control) (length SRC) (match_spec control DST SRC iD iS)
      (unat (fst (compare_strings DST SRC iD iS control sf zf f)))
    \<and> carry (snd (compare_strings DST SRC iD iS control sf zf f))
      = (\<exists>j<length SRC. match_spec control DST SRC iD iS j)"
proof -
  define x where "x = apply_polarity (control_polarity control) (length SRC) iS
    (aggregate (control_operation control) DST SRC iD iS)"
  have b: "bit x j \<longleftrightarrow> j < length SRC \<and> match_spec control DST SRC iD iS j" for j
    unfolding x_def match_spec_def
    by (rule bit_apply_polarity) (use assms in \<open>simp_all add: bit_aggregate\<close>)
  have r: "reports (control_output control) (length SRC) (match_spec control DST SRC iD iS)
      (select_output (control_output control) (length SRC) x)"
    by (rule select_output_reports [OF assms b])
  then have "select_output (control_output control) (length SRC) x \<le> length SRC"
    by (auto simp: reports_def split: if_splits)
  then have "unat (word_of_nat (select_output (control_output control) (length SRC) x) :: u32)
      = select_output (control_output control) (length SRC) x"
    using assms by (intro unat_index) simp
  moreover have "x \<noteq> 0 \<longleftrightarrow> (\<exists>j<length SRC. match_spec control DST SRC iD iS j)"
  proof -
    have "x \<noteq> 0 \<longleftrightarrow> (\<exists>j. bit x j)" by (metis bit_0_eq bit_eq_iff bot_apply bot_bool_def)
    then show ?thesis using b by blast
  qed
  ultimately show ?thesis
    using r by (simp add: compare_strings_def Let_def flip: x_def)
qed

text \<open>
  C26. \<^verbatim>\<open>pcmpistri\<close> never fails, and for every control byte it reports the least or the
  greatest index whose element satisfies the selected aggregation under the selected polarity,
  or the number of elements when none does; the carry says whether one does. With the
  aggregation EQUAL_ORDERED that index is where the first string occurs in the second, with
  EQUAL_ANY the first element that belongs to a set, with RANGES to one of the ranges.
\<close>

theorem pcmpistri_reports_matches:
  "case pcmpistri dst src control f of
     Inl e \<Rightarrow> False
   | Inr (out, f') \<Rightarrow>
      (let rd8 = (if control_format control = SIGNED_BYTE then sint else uint) :: u8 \<Rightarrow> int;
           rd16 = (if control_format control = SIGNED_WORD then sint else uint) :: u16 \<Rightarrow> int;
           bytes = control_format control = SIGNED_BYTE \<or> control_format control = UNSIGNED_BYTE;
           DST = (if bytes then map rd8 (split128 dst) else map rd16 (split128 dst));
           SRC = (if bytes then map rd8 (split128 src) else map rd16 (split128 src));
           found = match_spec control DST SRC (index_of_zero DST) (index_of_zero SRC)
       in reports (control_output control) (if bytes then 16 else 8) found (unat out)
          \<and> carry f' = list_ex found [0..<(if bytes then 16 else 8)])"
proof -
  have l: "length (map g (split128 src :: u8 list)) = 16" "length (map h (split128 src :: u16 list)) = 8" for g h
    by simp_all
  have ex: "list_ex P [0..<n] = (\<exists>j<n. P j)" for P n by (auto simp: list_ex_iff)
  note r8 = compare_strings_reports [where SRC = "map g (split128 src :: u8 list)" for g, unfolded l]
  note r16 = compare_strings_reports [where SRC = "map g (split128 src :: u16 list)" for g, unfolded l]
  show ?thesis
    by (cases "control_format control")
      (simp_all add: pcmpistri_def pcmpistri8_def pcmpistri16_def Let_def case_prod_beta ex r8 r16)
qed

end
