(* ===== verification/X64_Registers.thy ===== *)
theory X64_Registers
  imports X64_Prelude
begin

text \<open>
  The register file, \<^verbatim>\<open>emulator/include/x64/registers.h\<close> and the register enumerations of
  \<^verbatim>\<open>emulator/include/x64/types.h\<close>. The arrays \<^verbatim>\<open>gpr_\<close>, \<^verbatim>\<open>mmx_\<close> and
  \<^verbatim>\<open>xmm_\<close> are lists indexed by the numeric value of the enumerators, as in the source;
  \<open>regs_wf\<close> says they have the lengths of the arrays. \<open>get8\<close>, \<open>set8\<close> and their siblings are
  the overloads of \<^verbatim>\<open>get\<close> and \<^verbatim>\<open>set\<close>. The lemmas state how the overlapping
  register names alias each other; the locale \<open>register_view\<close> is what a client of one of the
  views may rely on.
\<close>

section \<open>Register names\<close>

datatype r8 =
    AL | CL | DL | BL | SPL | BPL | SIL | DIL | R8B | R9B | R10B | R11B | R12B | R13B | R14B
  | R15B | AH | CH | DH | BH

datatype r16 =
    AX | CX | DX | BX | SP | BP | SI | DI | R8W | R9W | R10W | R11W | R12W | R13W | R14W | R15W

datatype r32 =
    EAX | ECX | EDX | EBX | ESP | EBP | ESI | EDI | R8D | R9D | R10D | R11D | R12D | R13D | R14D
  | R15D | EIP | EIZ

datatype r64 =
    RAX | RCX | RDX | RBX | RSP | RBP | RSI | RDI | R8 | R9 | R10 | R11 | R12 | R13 | R14 | R15
  | RIP | ZERO

datatype mmxreg =
    MM0 | MM1 | MM2 | MM3 | MM4 | MM5 | MM6 | MM7

datatype xmmreg =
    XMM0 | XMM1 | XMM2 | XMM3 | XMM4 | XMM5 | XMM6 | XMM7 | XMM8 | XMM9 | XMM10 | XMM11 | XMM12
  | XMM13 | XMM14 | XMM15

text \<open>The value of an enumerator: its position in the enumeration.\<close>

fun r8_index :: "r8 \<Rightarrow> nat" where
  "r8_index AL = 0" | "r8_index CL = 1" | "r8_index DL = 2" | "r8_index BL = 3"
| "r8_index SPL = 4" | "r8_index BPL = 5" | "r8_index SIL = 6" | "r8_index DIL = 7"
| "r8_index R8B = 8" | "r8_index R9B = 9" | "r8_index R10B = 10" | "r8_index R11B = 11"
| "r8_index R12B = 12" | "r8_index R13B = 13" | "r8_index R14B = 14" | "r8_index R15B = 15"
| "r8_index AH = 16" | "r8_index CH = 17" | "r8_index DH = 18" | "r8_index BH = 19"

fun r16_index :: "r16 \<Rightarrow> nat" where
  "r16_index AX = 0" | "r16_index CX = 1" | "r16_index DX = 2" | "r16_index BX = 3"
| "r16_index SP = 4" | "r16_index BP = 5" | "r16_index SI = 6" | "r16_index DI = 7"
| "r16_index R8W = 8" | "r16_index R9W = 9" | "r16_index R10W = 10" | "r16_index R11W = 11"
| "r16_index R12W = 12" | "r16_index R13W = 13" | "r16_index R14W = 14" | "r16_index R15W = 15"

fun r32_index :: "r32 \<Rightarrow> nat" where
  "r32_index EAX = 0" | "r32_index ECX = 1" | "r32_index EDX = 2" | "r32_index EBX = 3"
| "r32_index ESP = 4" | "r32_index EBP = 5" | "r32_index ESI = 6" | "r32_index EDI = 7"
| "r32_index R8D = 8" | "r32_index R9D = 9" | "r32_index R10D = 10" | "r32_index R11D = 11"
| "r32_index R12D = 12" | "r32_index R13D = 13" | "r32_index R14D = 14" | "r32_index R15D = 15"
| "r32_index EIP = 16" | "r32_index EIZ = 17"

fun r64_index :: "r64 \<Rightarrow> nat" where
  "r64_index RAX = 0" | "r64_index RCX = 1" | "r64_index RDX = 2" | "r64_index RBX = 3"
| "r64_index RSP = 4" | "r64_index RBP = 5" | "r64_index RSI = 6" | "r64_index RDI = 7"
| "r64_index R8 = 8" | "r64_index R9 = 9" | "r64_index R10 = 10" | "r64_index R11 = 11"
| "r64_index R12 = 12" | "r64_index R13 = 13" | "r64_index R14 = 14" | "r64_index R15 = 15"
| "r64_index RIP = 16" | "r64_index ZERO = 17"

fun mmxreg_index :: "mmxreg \<Rightarrow> nat" where
  "mmxreg_index MM0 = 0" | "mmxreg_index MM1 = 1" | "mmxreg_index MM2 = 2" | "mmxreg_index MM3 = 3"
| "mmxreg_index MM4 = 4" | "mmxreg_index MM5 = 5" | "mmxreg_index MM6 = 6" | "mmxreg_index MM7 = 7"

fun xmmreg_index :: "xmmreg \<Rightarrow> nat" where
  "xmmreg_index XMM0 = 0" | "xmmreg_index XMM1 = 1" | "xmmreg_index XMM2 = 2" | "xmmreg_index XMM3 = 3"
| "xmmreg_index XMM4 = 4" | "xmmreg_index XMM5 = 5" | "xmmreg_index XMM6 = 6" | "xmmreg_index XMM7 = 7"
| "xmmreg_index XMM8 = 8" | "xmmreg_index XMM9 = 9" | "xmmreg_index XMM10 = 10" | "xmmreg_index XMM11 = 11"
| "xmmreg_index XMM12 = 12" | "xmmreg_index XMM13 = 13" | "xmmreg_index XMM14 = 14" | "xmmreg_index XMM15 = 15"

fun containingRegister8 :: "r8 \<Rightarrow> r64" where
  "containingRegister8 AL = RAX" | "containingRegister8 CL = RCX"
| "containingRegister8 DL = RDX" | "containingRegister8 BL = RBX"
| "containingRegister8 SPL = RSP" | "containingRegister8 BPL = RBP"
| "containingRegister8 SIL = RSI" | "containingRegister8 DIL = RDI"
| "containingRegister8 R8B = R8" | "containingRegister8 R9B = R9"
| "containingRegister8 R10B = R10" | "containingRegister8 R11B = R11"
| "containingRegister8 R12B = R12" | "containingRegister8 R13B = R13"
| "containingRegister8 R14B = R14" | "containingRegister8 R15B = R15"
| "containingRegister8 AH = RAX" | "containingRegister8 CH = RCX"
| "containingRegister8 DH = RDX" | "containingRegister8 BH = RBX"

fun containingRegister16 :: "r16 \<Rightarrow> r64" where
  "containingRegister16 AX = RAX" | "containingRegister16 CX = RCX"
| "containingRegister16 DX = RDX" | "containingRegister16 BX = RBX"
| "containingRegister16 SP = RSP" | "containingRegister16 BP = RBP"
| "containingRegister16 SI = RSI" | "containingRegister16 DI = RDI"
| "containingRegister16 R8W = R8" | "containingRegister16 R9W = R9"
| "containingRegister16 R10W = R10" | "containingRegister16 R11W = R11"
| "containingRegister16 R12W = R12" | "containingRegister16 R13W = R13"
| "containingRegister16 R14W = R14" | "containingRegister16 R15W = R15"

fun containingRegister32 :: "r32 \<Rightarrow> r64" where
  "containingRegister32 EAX = RAX" | "containingRegister32 ECX = RCX"
| "containingRegister32 EDX = RDX" | "containingRegister32 EBX = RBX"
| "containingRegister32 ESP = RSP" | "containingRegister32 EBP = RBP"
| "containingRegister32 ESI = RSI" | "containingRegister32 EDI = RDI"
| "containingRegister32 R8D = R8" | "containingRegister32 R9D = R9"
| "containingRegister32 R10D = R10" | "containingRegister32 R11D = R11"
| "containingRegister32 R12D = R12" | "containingRegister32 R13D = R13"
| "containingRegister32 R14D = R14" | "containingRegister32 R15D = R15"
| "containingRegister32 EIP = RIP" | "containingRegister32 EIZ = ZERO"

section \<open>The register file\<close>

record registers =
  gpr :: "u64 list"
  mmx :: "u64 list"
  xmm :: "u128 list"

definition registers_init :: registers where
  "registers_init =
     \<lparr>gpr = replicate 18 0, mmx = replicate 8 0, xmm = replicate 16 (mk_u128 0 0)\<rparr>"

definition regs_wf :: "registers \<Rightarrow> bool" where
  "regs_wf r \<longleftrightarrow> length (gpr r) = 18 \<and> length (mmx r) = 8 \<and> length (xmm r) = 16"

abbreviation gpr_at :: "registers \<Rightarrow> r64 \<Rightarrow> u64" where
  "gpr_at r q \<equiv> gpr r ! r64_index q"

abbreviation gpr_set :: "registers \<Rightarrow> r64 \<Rightarrow> u64 \<Rightarrow> registers" where
  "gpr_set r q v \<equiv> r\<lparr>gpr := (gpr r)[r64_index q := v]\<rparr>"

fun get8 :: "registers \<Rightarrow> r8 \<Rightarrow> u8" where
  "get8 r AH = ucast (drop_bit 8 (gpr_at r RAX) AND 0xFF)"
| "get8 r AL = ucast (gpr_at r RAX AND 0xFF)"
| "get8 r BH = ucast (drop_bit 8 (gpr_at r RBX) AND 0xFF)"
| "get8 r BL = ucast (gpr_at r RBX AND 0xFF)"
| "get8 r CH = ucast (drop_bit 8 (gpr_at r RCX) AND 0xFF)"
| "get8 r CL = ucast (gpr_at r RCX AND 0xFF)"
| "get8 r DH = ucast (drop_bit 8 (gpr_at r RDX) AND 0xFF)"
| "get8 r DL = ucast (gpr_at r RDX AND 0xFF)"
| "get8 r SPL = ucast (gpr_at r RSP AND 0xFF)"
| "get8 r BPL = ucast (gpr_at r RBP AND 0xFF)"
| "get8 r SIL = ucast (gpr_at r RSI AND 0xFF)"
| "get8 r DIL = ucast (gpr_at r RDI AND 0xFF)"
| "get8 r R8B = ucast (gpr_at r R8 AND 0xFF)"
| "get8 r R9B = ucast (gpr_at r R9 AND 0xFF)"
| "get8 r R10B = ucast (gpr_at r R10 AND 0xFF)"
| "get8 r R11B = ucast (gpr_at r R11 AND 0xFF)"
| "get8 r R12B = ucast (gpr_at r R12 AND 0xFF)"
| "get8 r R13B = ucast (gpr_at r R13 AND 0xFF)"
| "get8 r R14B = ucast (gpr_at r R14 AND 0xFF)"
| "get8 r R15B = ucast (gpr_at r R15 AND 0xFF)"

fun set8 :: "registers \<Rightarrow> r8 \<Rightarrow> u8 \<Rightarrow> registers" where
  "set8 r AH v = gpr_set r RAX ((gpr_at r RAX AND 0xFFFFFFFFFFFF00FF) OR push_bit 8 (ucast v))"
| "set8 r AL v = gpr_set r RAX ((gpr_at r RAX AND 0xFFFFFFFFFFFFFF00) OR ucast v)"
| "set8 r BH v = gpr_set r RBX ((gpr_at r RBX AND 0xFFFFFFFFFFFF00FF) OR push_bit 8 (ucast v))"
| "set8 r BL v = gpr_set r RBX ((gpr_at r RBX AND 0xFFFFFFFFFFFFFF00) OR ucast v)"
| "set8 r CH v = gpr_set r RCX ((gpr_at r RCX AND 0xFFFFFFFFFFFF00FF) OR push_bit 8 (ucast v))"
| "set8 r CL v = gpr_set r RCX ((gpr_at r RCX AND 0xFFFFFFFFFFFFFF00) OR ucast v)"
| "set8 r DH v = gpr_set r RDX ((gpr_at r RDX AND 0xFFFFFFFFFFFF00FF) OR push_bit 8 (ucast v))"
| "set8 r DL v = gpr_set r RDX ((gpr_at r RDX AND 0xFFFFFFFFFFFFFF00) OR ucast v)"
| "set8 r SPL v = gpr_set r RSP ((gpr_at r RSP AND 0xFFFFFFFFFFFFFF00) OR ucast v)"
| "set8 r BPL v = gpr_set r RBP ((gpr_at r RBP AND 0xFFFFFFFFFFFFFF00) OR ucast v)"
| "set8 r SIL v = gpr_set r RSI ((gpr_at r RSI AND 0xFFFFFFFFFFFFFF00) OR ucast v)"
| "set8 r DIL v = gpr_set r RDI ((gpr_at r RDI AND 0xFFFFFFFFFFFFFF00) OR ucast v)"
| "set8 r R8B v = gpr_set r R8 ((gpr_at r R8 AND 0xFFFFFFFFFFFFFF00) OR ucast v)"
| "set8 r R9B v = gpr_set r R9 ((gpr_at r R9 AND 0xFFFFFFFFFFFFFF00) OR ucast v)"
| "set8 r R10B v = gpr_set r R10 ((gpr_at r R10 AND 0xFFFFFFFFFFFFFF00) OR ucast v)"
| "set8 r R11B v = gpr_set r R11 ((gpr_at r R11 AND 0xFFFFFFFFFFFFFF00) OR ucast v)"
| "set8 r R12B v = gpr_set r R12 ((gpr_at r R12 AND 0xFFFFFFFFFFFFFF00) OR ucast v)"
| "set8 r R13B v = gpr_set r R13 ((gpr_at r R13 AND 0xFFFFFFFFFFFFFF00) OR ucast v)"
| "set8 r R14B v = gpr_set r R14 ((gpr_at r R14 AND 0xFFFFFFFFFFFFFF00) OR ucast v)"
| "set8 r R15B v = gpr_set r R15 ((gpr_at r R15 AND 0xFFFFFFFFFFFFFF00) OR ucast v)"

definition get16 :: "registers \<Rightarrow> r16 \<Rightarrow> u16" where
  "get16 r reg = ucast (gpr r ! r16_index reg AND 0xFFFF)"

definition set16 :: "registers \<Rightarrow> r16 \<Rightarrow> u16 \<Rightarrow> registers" where
  "set16 r reg v =
     r\<lparr>gpr := (gpr r)[r16_index reg :=
        (gpr r ! r16_index reg AND 0xFFFFFFFFFFFF0000) OR ucast v]\<rparr>"

definition get32 :: "registers \<Rightarrow> r32 \<Rightarrow> u32" where
  "get32 r reg = ucast (gpr r ! r32_index reg)"

definition set32 :: "registers \<Rightarrow> r32 \<Rightarrow> u32 \<Rightarrow> registers result" where
  "set32 r reg v =
     (if reg = EIZ then Inl AssertFailed
      else Inr (r\<lparr>gpr := (gpr r)[r32_index reg := ucast v]\<rparr>))"

definition get64 :: "registers \<Rightarrow> r64 \<Rightarrow> u64" where
  "get64 r reg = gpr r ! r64_index reg"

definition set64 :: "registers \<Rightarrow> r64 \<Rightarrow> u64 \<Rightarrow> registers result" where
  "set64 r reg v =
     (if reg = ZERO then Inl AssertFailed
      else Inr (r\<lparr>gpr := (gpr r)[r64_index reg := v]\<rparr>))"

definition get_mmx :: "registers \<Rightarrow> mmxreg \<Rightarrow> u64" where
  "get_mmx r reg = mmx r ! mmxreg_index reg"

definition set_mmx :: "registers \<Rightarrow> mmxreg \<Rightarrow> u64 \<Rightarrow> registers" where
  "set_mmx r reg v = r\<lparr>mmx := (mmx r)[mmxreg_index reg := v]\<rparr>"

definition get_xmm :: "registers \<Rightarrow> xmmreg \<Rightarrow> u128" where
  "get_xmm r reg = xmm r ! xmmreg_index reg"

definition set_xmm :: "registers \<Rightarrow> xmmreg \<Rightarrow> u128 \<Rightarrow> registers" where
  "set_xmm r reg v = r\<lparr>xmm := (xmm r)[xmmreg_index reg := v]\<rparr>"

section \<open>Effective addresses\<close>

record encoding32 =
  base32 :: r32
  index32 :: r32
  scale32 :: u8
  displacement32 :: "32 word"

record encoding64 =
  base64 :: r64
  index64 :: r64
  scale64 :: u8
  displacement64 :: "32 word"

definition resolve32 :: "registers \<Rightarrow> encoding32 \<Rightarrow> u32" where
  "resolve32 r enc =
     get32 r (base32 enc) + ucast (scale32 enc) * get32 r (index32 enc) + displacement32 enc"

definition resolve64 :: "registers \<Rightarrow> encoding64 \<Rightarrow> u64" where
  "resolve64 r enc =
     get64 r (base64 enc) + ucast (scale64 enc) * get64 r (index64 enc)
       + scast (displacement64 enc)"

datatype segment = SEG_CS | SEG_DS | SEG_ES | SEG_FS | SEG_GS | SEG_SS | SEG_UNK

text \<open>\<^verbatim>\<open>M<size>\<close> is a segment and an encoding; the users of an operand know its size.\<close>

record memory_operand =
  mem_segment :: segment
  mem_encoding :: encoding64

abbreviation mem_base :: "memory_operand \<Rightarrow> r64" where "mem_base m \<equiv> base64 (mem_encoding m)"
abbreviation mem_index :: "memory_operand \<Rightarrow> r64" where "mem_index m \<equiv> index64 (mem_encoding m)"
abbreviation mem_scale :: "memory_operand \<Rightarrow> u8" where "mem_scale m \<equiv> scale64 (mem_encoding m)"
abbreviation mem_disp :: "memory_operand \<Rightarrow> 32 word" where "mem_disp m \<equiv> displacement64 (mem_encoding m)"

section \<open>How the register names alias\<close>

lemma r64_index_less [simp]: "r64_index q < 18"
  by (cases q) simp_all

lemma r64_index_inj [simp]: "r64_index p = r64_index q \<longleftrightarrow> p = q"
  by (cases p; cases q; simp)

lemma r16_index_containing: "r16_index x = r64_index (containingRegister16 x)"
  by (cases x) simp_all

lemma r32_index_containing: "r32_index x = r64_index (containingRegister32 x)"
  by (cases x) simp_all

lemma containing16_inj [simp]: "containingRegister16 x = containingRegister16 y \<longleftrightarrow> x = y"
  by (cases x; cases y; simp)

lemma containing32_inj [simp]: "containingRegister32 x = containingRegister32 y \<longleftrightarrow> x = y"
  by (cases x; cases y; simp)

text \<open>The bit a byte register starts at in the register that contains it.\<close>

definition r8_shift :: "r8 \<Rightarrow> nat" where
  "r8_shift x = (if x \<in> {AH, BH, CH, DH} then 8 else 0)"

lemma r8_place_inj:
  "containingRegister8 x = containingRegister8 y \<and> r8_shift x = r8_shift y \<longleftrightarrow> x = y"
  by (cases x; cases y; simp add: r8_shift_def)

text \<open>A write of the \<open>w\<close> bits from \<open>p\<close> on leaves the others alone.\<close>

definition write_bits :: "nat \<Rightarrow> nat \<Rightarrow> u64 \<Rightarrow> u64 \<Rightarrow> u64" where
  "write_bits p w old new = (old AND NOT (push_bit p (mask w))) OR push_bit p (take_bit w new)"

lemma bit_write_bits:
  "bit (write_bits p w old new) n \<longleftrightarrow>
     (if p \<le> n \<and> n < p + w then n < 64 \<and> bit new (n - p) else bit old n)"
  by (auto simp: write_bits_def bit_simps dest: bit_imp_le_length)

lemma set8_write_bits:
  "set8 r x v =
     gpr_set r (containingRegister8 x)
       (write_bits (r8_shift x) 8 (gpr_at r (containingRegister8 x)) (ucast v))"
proof -
  have low: "(old AND 0xFFFFFFFFFFFFFF00) OR ucast v = write_bits 0 8 old (ucast v)" for old
  proof -
    have m: "(0xFFFFFFFFFFFFFF00::u64) = NOT (push_bit 0 (mask 8))" by (simp add: mask_eq_exp_minus_1)
    show ?thesis unfolding m
      by (rule bit_word_eqI) (auto simp: write_bits_def bit_simps dest: bit_imp_le_length)
  qed
  have high: "(old AND 0xFFFFFFFFFFFF00FF) OR push_bit 8 (ucast v) = write_bits 8 8 old (ucast v)" for old
  proof -
    have m: "(0xFFFFFFFFFFFF00FF::u64) = NOT (push_bit 8 (mask 8))" by (simp add: mask_eq_exp_minus_1)
    show ?thesis unfolding m
      by (rule bit_word_eqI) (auto simp: write_bits_def bit_simps dest: bit_imp_le_length)
  qed
  show ?thesis
    by (cases x) (simp_all only: set8.simps low high r8_shift_def containingRegister8.simps, simp_all)
qed

lemma get8_bits:
  "get8 r x = ucast (drop_bit (r8_shift x) (gpr_at r (containingRegister8 x)))"
proof -
  have m: "ucast (q AND 0xFF) = (ucast q :: u8)" for q :: u64
  proof -
    have m: "(0xFF::u64) = mask 8" by (simp add: mask_eq_exp_minus_1)
    show ?thesis unfolding m by (rule bit_word_eqI) (auto simp: bit_simps)
  qed
  show ?thesis
    by (cases x) (simp_all only: get8.simps m r8_shift_def containingRegister8.simps, simp_all)
qed

lemma set16_write_bits:
  "set16 r x v =
     gpr_set r (containingRegister16 x)
       (write_bits 0 16 (gpr_at r (containingRegister16 x)) (ucast v))"
proof -
  have m: "(0xFFFFFFFFFFFF0000::u64) = NOT (push_bit 0 (mask 16))"
    by (simp add: mask_eq_exp_minus_1)
  have "(old AND 0xFFFFFFFFFFFF0000) OR ucast v = write_bits 0 16 old (ucast v)" for old
    unfolding m
    by (rule bit_word_eqI) (auto simp: write_bits_def bit_simps dest: bit_imp_le_length)
  then show ?thesis by (simp add: set16_def r16_index_containing)
qed

lemma get16_bits: "get16 r x = ucast (gpr_at r (containingRegister16 x))"
proof -
  have m: "(0xFFFF::u64) = mask 16" by (simp add: mask_eq_exp_minus_1)
  have "ucast (q AND 0xFFFF) = (ucast q :: u16)" for q :: u64
    unfolding m by (rule bit_word_eqI) (auto simp: bit_simps)
  then show ?thesis by (simp add: get16_def r16_index_containing)
qed

lemma regs_wf_init: "regs_wf registers_init"
  by (simp add: regs_wf_def registers_init_def)

lemma regs_wf_gpr_set [simp]: "regs_wf (gpr_set r q v) = regs_wf r"
  by (simp add: regs_wf_def)

lemma gpr_at_update [simp]:
  "regs_wf r \<Longrightarrow> (gpr r)[r64_index q := v] ! r64_index p = (if p = q then v else gpr_at r p)"
  by (simp add: regs_wf_def nth_list_update)

lemma get8_set8:
  assumes "regs_wf r"
  shows "get8 (set8 r x v) y = (if y = x then v else get8 r y)"
proof (rule bit_word_eqI)
  fix n assume n: "n < LENGTH(8)"
  have sh: "r8_shift z = 0 \<or> r8_shift z = 8" for z by (simp add: r8_shift_def)
  show "bit (get8 (set8 r x v) y) n = bit (if y = x then v else get8 r y) n"
    using assms n r8_place_inj [of x y] sh [of x] sh [of y]
    by (auto simp: get8_bits set8_write_bits bit_simps bit_write_bits)
qed

lemma get16_set16:
  assumes "regs_wf r"
  shows "get16 (set16 r x v) y = (if y = x then v else get16 r y)"
proof (rule bit_word_eqI)
  fix n assume "n < LENGTH(16)"
  then show "bit (get16 (set16 r x v) y) n = bit (if y = x then v else get16 r y) n"
    using assms by (auto simp: get16_bits set16_write_bits bit_simps bit_write_bits)
qed

lemma mmxreg_index_less: "mmxreg_index x < 8" by (cases x) simp_all
lemma xmmreg_index_less: "xmmreg_index x < 16" by (cases x) simp_all
lemma mmxreg_index_inj: "mmxreg_index x = mmxreg_index y \<longleftrightarrow> x = y" by (cases x; cases y; simp)
lemma xmmreg_index_inj: "xmmreg_index x = xmmreg_index y \<longleftrightarrow> x = y" by (cases x; cases y; simp)

section \<open>The views of the register file\<close>

locale register_view =
  fixes get :: "'r \<Rightarrow> 'n \<Rightarrow> 'v"
    and set_reg :: "'r \<Rightarrow> 'n \<Rightarrow> 'v \<Rightarrow> 'r"
    and wf :: "'r \<Rightarrow> bool"
  assumes get_set: "wf r \<Longrightarrow> get (set_reg r x v) y = (if y = x then v else get r y)"
    and wf_set: "wf r \<Longrightarrow> wf (set_reg r x v)"
begin

lemma get_same: "wf r \<Longrightarrow> get (set_reg r x v) x = v"
  by (simp add: get_set)

lemma get_overwrite: "wf r \<Longrightarrow> get (set_reg (set_reg r x v) x w) y = get (set_reg r x w) y"
  by (simp add: get_set wf_set)

lemma get_commute:
  "wf r \<Longrightarrow> x \<noteq> y \<Longrightarrow>
   get (set_reg (set_reg r x v) y w) z = get (set_reg (set_reg r y w) x v) z"
  by (simp add: get_set wf_set)

lemma wf_writes: "wf r \<Longrightarrow> wf (foldl (\<lambda>r (x, v). set_reg r x v) r ws)"
  by (induction ws arbitrary: r) (auto simp: wf_set)

text \<open>After any sequence of writes a register holds the last value written to it.\<close>

lemma get_writes:
  "wf r \<Longrightarrow>
   get (foldl (\<lambda>r (x, v). set_reg r x v) r ws) y =
     (case map_of (rev ws) y of Some v \<Rightarrow> v | None \<Rightarrow> get r y)"
  by (induction ws rule: rev_induct) (auto simp: get_set wf_writes)

end

interpretation v8: register_view get8 set8 regs_wf
  by unfold_locales (simp add: get8_set8, simp add: set8_write_bits)
interpretation v16: register_view get16 set16 regs_wf
  by unfold_locales (simp add: get16_set16, simp add: set16_write_bits)
interpretation vmmx: register_view get_mmx set_mmx regs_wf
  by unfold_locales
    (auto simp: get_mmx_def set_mmx_def regs_wf_def nth_list_update mmxreg_index_less mmxreg_index_inj)
interpretation vxmm: register_view get_xmm set_xmm regs_wf
  by unfold_locales
    (auto simp: get_xmm_def set_xmm_def regs_wf_def nth_list_update xmmreg_index_less xmmreg_index_inj)

section \<open>Properties\<close>

text \<open>
  After any sequence of writes through the 8-bit register names, every name reads the last
  byte written to it and otherwise its old byte: AH and AL and all the others never overlap.
\<close>

theorem byte_registers_disjoint:
  assumes "regs_wf r"
  shows "get8 (foldl (\<lambda>r (x, v). set8 r x v) r ws) y =
           (case map_of (rev ws) y of Some v \<Rightarrow> v | None \<Rightarrow> get8 r y)"
  using assms by (rule v8.get_writes)

theorem byte_registers_disjoint_witness:
  "get8 (foldl (\<lambda>r (x, v). set8 r x v) registers_init [(AL, 1), (AH, 2), (SPL, 3), (AL, 7)]) AL = 7"
  using byte_registers_disjoint
    [OF regs_wf_init, of "[(AL, 1), (AH, 2), (SPL, 3), (AL, 7)]" AL] by simp

text \<open>
  C18. What a narrow write does to the 64-bit register that contains it: an 8-bit or 16-bit write
  replaces exactly its own bits, a 32-bit write clears the upper half, no other 64-bit register
  changes, and only the constant-zero pseudo registers are rejected.
\<close>

theorem narrow_writes:
  assumes "regs_wf r"
  shows "(\<forall>n<64. bit (get64 (set8 r a va) q) n =
            (if q = containingRegister8 a \<and> r8_shift a \<le> n \<and> n < r8_shift a + 8
             then bit va (n - r8_shift a) else bit (get64 r q) n))
       \<and> (\<forall>n<64. bit (get64 (set16 r b vb) q) n =
            (if q = containingRegister16 b \<and> n < 16 then bit vb n else bit (get64 r q) n))
       \<and> set32 r EIZ vc = Inl AssertFailed
       \<and> (c \<noteq> EIZ \<longrightarrow> (\<exists>r'. set32 r c vc = Inr r' \<and>
            get64 r' q = (if q = containingRegister32 c then ucast vc else get64 r q)))"
proof (intro conjI)
  show "\<forall>n<64. bit (get64 (set8 r a va) q) n =
      (if q = containingRegister8 a \<and> r8_shift a \<le> n \<and> n < r8_shift a + 8
       then bit va (n - r8_shift a) else bit (get64 r q) n)"
    using assms by (auto simp: get64_def set8_write_bits bit_write_bits bit_simps)
  show "\<forall>n<64. bit (get64 (set16 r b vb) q) n =
      (if q = containingRegister16 b \<and> n < 16 then bit vb n else bit (get64 r q) n)"
    using assms by (auto simp: get64_def set16_write_bits bit_write_bits bit_simps)
  show "set32 r EIZ vc = Inl AssertFailed" by (simp add: set32_def)
  show "c \<noteq> EIZ \<longrightarrow> (\<exists>r'. set32 r c vc = Inr r' \<and>
      get64 r' q = (if q = containingRegister32 c then ucast vc else get64 r q))"
    using assms by (simp add: set32_def get64_def r32_index_containing)
qed

theorem narrow_writes_witness:
  "\<exists>r'. set32 registers_init ECX 5 = Inr r' \<and> get64 r' RCX = 5 \<and> get64 r' RAX = 0"
proof -
  have "ECX \<noteq> EIZ \<longrightarrow> (\<exists>r'. set32 registers_init ECX 5 = Inr r' \<and>
      get64 r' q = (if q = containingRegister32 ECX then ucast (5::u32) else get64 registers_init q))"
    for q
    using narrow_writes [OF regs_wf_init, where c = ECX and vc = 5 and q = q] by blast
  from this [of RCX] this [of RAX] show ?thesis
    by (auto simp: get64_def registers_init_def)
qed

end
