(* ===== verification/X64_Mmu.thy ===== *)
theory X64_Mmu
  imports X64_Lanes
begin

text \<open>
  The emulated memory: \<^verbatim>\<open>emulator/include/x64/mmu.h\<close> and
  \<^verbatim>\<open>emulator/src/x64/mmu.cpp\<close>. An address space is a vector of owned regions kept
  sorted by base address, and a table with one pointer per page that makes the lookup of an
  address constant-time. The two are redundant, and every operation has to keep them in step.

  Pointers to regions are the region's identity \<open>rid\<close>; following one is \<open>deref\<close>, which
  fails when no region of the vector has that identity. The \<^verbatim>\<open>unique_ptr\<close>s that
  the source moves in and out of the vector are region values. The calls of the host's
  \<^verbatim>\<open>mprotect\<close> are the parameter \<open>host\<close>, which says whether the call on an address, a
  size and a protection succeeds. The memory behind the regions is \<open>mem_bytes\<close>; callbacks
  receive their calls in the log \<open>events\<close>.

  Modelled configuration: the build options \<^verbatim>\<open>MULTIPROCESSING\<close>,
  \<^verbatim>\<open>MMU_NO_CHECK_PROT\<close> and \<^verbatim>\<open>CANNOT_REUSE_PAST_REGIONS\<close> are off, as in the
  default build.
\<close>

section \<open>Protections and mapping flags\<close>

text \<open>\<^verbatim>\<open>BitFlags<E>\<close> of bitflags.h: the underlying integer of the enumeration.\<close>

type_synonym bit_flags = u32

definition flag_test :: "bit_flags \<Rightarrow> bit_flags \<Rightarrow> bool" where
  "flag_test flags flag = (flags AND flag \<noteq> 0)"

definition flag_add :: "bit_flags \<Rightarrow> bit_flags \<Rightarrow> bit_flags" where
  "flag_add flags flag = flags OR flag"

definition PROT_NONE :: bit_flags where "PROT_NONE = 0"
definition PROT_READ :: bit_flags where "PROT_READ = 1"
definition PROT_WRITE :: bit_flags where "PROT_WRITE = 2"
definition PROT_EXEC :: bit_flags where "PROT_EXEC = 4"

definition MAP_ANONYMOUS :: bit_flags where "MAP_ANONYMOUS = 2"
definition MAP_FIXED :: bit_flags where "MAP_FIXED = 4"
definition MAP_PRIVATE :: bit_flags where "MAP_PRIVATE = 8"
definition MAP_SHARED :: bit_flags where "MAP_SHARED = 16"
definition MAP_NO_REPLACE :: bit_flags where "MAP_NO_REPLACE = 32"

definition toHostProtection :: "bit_flags \<Rightarrow> bit_flags" where
  "toHostProtection prot =
     (let p = 0;
          p = (if flag_test prot PROT_READ then flag_add p 1 else p);
          p = (if flag_test prot PROT_WRITE then flag_add p 2 else p)
      in p)"

section \<open>State\<close>

record mmu_region =
  rid :: nat
  rbase :: u64
  rsize :: u64
  rprot :: bit_flags
  rname :: string
  requiresMemsetToZero :: bool
  activated :: bool

definition rend :: "mmu_region \<Rightarrow> u64" where
  "rend r = rbase r + rsize r"

datatype region_event =
    RegionCreation u64 u64 bit_flags
  | RegionProtectionChange u64 u64 bit_flags bit_flags
  | RegionDestruction u64 u64 bit_flags

text \<open>
  \<open>nextRid\<close> is the next fresh identity. \<open>hostBase\<close> and \<open>memorySize\<close> are the reserved
  host range, also cached in the Mmu.
\<close>

record address_space =
  regions :: "mmu_region list"
  regionLookup :: "nat option list"
  hostBase :: u64
  memorySize :: u64
  firstUnlookupable :: u64
  topOfReserved :: u64
  mem_bytes :: "u64 \<Rightarrow> u8"
  nextRid :: nat

record mmu = address_space +
  callbacks :: "nat list"
  events :: "(nat \<times> region_event) list"

type_synonym host_mprotect = "u64 \<Rightarrow> u64 \<Rightarrow> bit_flags \<Rightarrow> bool"

definition PAGE_SIZE :: u64 where "PAGE_SIZE = 0x1000"

definition pageRoundDown :: "u64 \<Rightarrow> u64" where
  "pageRoundDown address = (address div PAGE_SIZE) * PAGE_SIZE"

definition pageRoundUp :: "u64 \<Rightarrow> u64" where
  "pageRoundUp address = ((address + PAGE_SIZE - 1) div PAGE_SIZE) * PAGE_SIZE"

definition isPageAligned :: "u64 \<Rightarrow> bool" where
  "isPageAligned address = (address mod PAGE_SIZE = 0)"

text \<open>
  \<^verbatim>\<open>AddressSpace::tryCreate\<close> once the host has granted the range at \<open>base\<close>, and the Mmu
  over it before \<open>ensureNullPage\<close>. Freshly mapped anonymous memory reads as zero.
\<close>

definition tryCreate :: "u32 \<Rightarrow> u64 \<Rightarrow> mmu" where
  "tryCreate virtualMemoryInMB base =
     \<lparr>regions = [], regionLookup = [], hostBase = base,
      memorySize = ucast virtualMemoryInMB * 1024 * 1024,
      firstUnlookupable = 0, topOfReserved = 0, mem_bytes = (\<lambda>_. 0), nextRid = 0,
      callbacks = [], events = []\<rparr>"

section \<open>Regions\<close>

definition region_contains :: "mmu_region \<Rightarrow> u64 \<Rightarrow> bool" where
  "region_contains r address = (address \<ge> rbase r \<and> address < rend r)"

definition intersectsRange :: "mmu_region \<Rightarrow> u64 \<Rightarrow> u64 \<Rightarrow> bool" where
  "intersectsRange r base e = (max (rbase r) base < min (rend r) e)"

definition verifyNotActivated :: "mmu_region \<Rightarrow> unit result" where
  "verifyNotActivated r = verify (\<not> activated r)"

definition new_region :: "u64 \<Rightarrow> u64 \<Rightarrow> bit_flags \<Rightarrow> mmu \<Rightarrow> mmu_region \<times> mmu" where
  "new_region base sz prot m =
     (\<lparr>rid = nextRid m, rbase = base, rsize = sz, rprot = prot, rname = '''',
       requiresMemsetToZero = False, activated = False\<rparr>, m\<lparr>nextRid := Suc (nextRid m)\<rparr>)"

definition makeRegion :: "u64 \<Rightarrow> u64 \<Rightarrow> bit_flags \<Rightarrow> mmu \<Rightarrow> (mmu_region \<times> mmu) result" where
  "makeRegion base sz prot m =
     rbind (verify (base + sz \<le> memorySize m)) (\<lambda>_.
     rbind (verify (isPageAligned base)) (\<lambda>_.
     rbind (verify (isPageAligned sz)) (\<lambda>_.
     Inr (new_region base sz prot m))))"

definition append_region :: "mmu_region \<Rightarrow> mmu_region \<Rightarrow> mmu_region result" where
  "append_region r other =
     rbind (verifyNotActivated r) (\<lambda>_.
     rbind (verify (rbase other = rend r)) (\<lambda>_.
     rbind (verify (rprot other = rprot r)) (\<lambda>_.
     rbind (verify (rname other = rname r \<or> rname other = '''')) (\<lambda>_.
     Inr (r\<lparr>rsize := rsize r + rsize other\<rparr>)))))"

definition splitAt :: "mmu_region \<Rightarrow> u64 \<Rightarrow> mmu \<Rightarrow> (mmu_region \<times> mmu_region \<times> mmu) result" where
  "splitAt r address m =
     rbind (verifyNotActivated r) (\<lambda>_.
     rbind (verify (region_contains r address)) (\<lambda>_.
     rbind (verify (address \<noteq> rbase r)) (\<lambda>_.
     let (sub, m1) = new_region address (rend r - address) (rprot r) m
     in Inr (r\<lparr>rsize := address - rbase r\<rparr>, sub\<lparr>rname := rname r\<rparr>, m1))))"

definition setEnd :: "mmu_region \<Rightarrow> u64 \<Rightarrow> mmu_region result" where
  "setEnd r newEnd =
     rbind (verifyNotActivated r) (\<lambda>_. Inr (r\<lparr>rsize := pageRoundUp (rsize r + newEnd - rend r)\<rparr>))"

section \<open>Lookup\<close>

definition findAddress :: "u64 \<Rightarrow> mmu \<Rightarrow> nat option result" where
  "findAddress address m =
     (if address \<ge> firstUnlookupable m then Inr None
      else let page = unat (address div PAGE_SIZE)
           in if page < length (regionLookup m) then Inr (regionLookup m ! page)
              else Inl IndexOutOfRange)"

definition deref :: "nat \<Rightarrow> mmu \<Rightarrow> mmu_region result" where
  "deref p m = (case find (\<lambda>r. rid r = p) (regions m) of
                  Some r \<Rightarrow> Inr r | None \<Rightarrow> Inl DanglingPointer)"

definition put_region :: "mmu_region \<Rightarrow> mmu \<Rightarrow> mmu" where
  "put_region r m = m\<lparr>regions := map (\<lambda>p. if rid p = rid r then r else p) (regions m)\<rparr>"

definition findRegion :: "string \<Rightarrow> mmu \<Rightarrow> mmu_region option" where
  "findRegion name m = find (\<lambda>r. rname r = name) (regions m)"

definition page_prot :: "u64 \<Rightarrow> mmu \<Rightarrow> bit_flags result" where
  "page_prot address m =
     rbind (findAddress address m) (\<lambda>p.
       case p of None \<Rightarrow> Inr PROT_NONE | Some p \<Rightarrow> rbind (deref p m) (\<lambda>r. Inr (rprot r)))"

text \<open>\<^verbatim>\<open>mincore\<close>: one entry per page; the loop ends when \<open>addr\<close> reaches the end.\<close>

fun mincore_loop :: "nat \<Rightarrow> u64 \<Rightarrow> u64 \<Rightarrow> mmu \<Rightarrow> bool list result" where
  "mincore_loop 0 addr e m = Inr []"
| "mincore_loop (Suc fuel) addr e m =
     (if addr < e then
        rbind (findAddress addr m) (\<lambda>p.
        rbind (mincore_loop fuel (addr + PAGE_SIZE) e m) (\<lambda>rest. Inr ((p \<noteq> None) # rest)))
      else Inr [])"

definition mincore :: "u64 \<Rightarrow> u64 \<Rightarrow> mmu \<Rightarrow> bool list result" where
  "mincore address len m =
     rbind (verify (isPageAligned address)) (\<lambda>_.
     let len = pageRoundUp len
     in mincore_loop (unat (len div PAGE_SIZE) + 1) address (address + len) m)"

definition memoryConsumptionInMB :: "mmu \<Rightarrow> u64" where
  "memoryConsumptionInMB m = fold (\<lambda>r cons. cons + rsize r) (regions m) 0 div 1024 div 1024"

section \<open>The page table\<close>

definition fillRegionLookup :: "mmu_region \<Rightarrow> mmu \<Rightarrow> mmu result" where
  "fillRegionLookup r m =
     rbind (verify (isPageAligned (rbase r))) (\<lambda>_.
     rbind (verify (isPageAligned (rend r))) (\<lambda>_.
     let startPage = unat (rbase r div PAGE_SIZE); endPage = unat (rend r div PAGE_SIZE)
     in rbind (verify (startPage < endPage)) (\<lambda>_.
        let m1 = (if endPage > length (regionLookup m)
                  then let table = regionLookup m @ replicate (endPage - length (regionLookup m)) None
                       in m\<lparr>regionLookup := table,
                            firstUnlookupable := word_of_nat (length table) * PAGE_SIZE\<rparr>
                  else m)
        in rbind (verify (list_all (\<lambda>i. regionLookup m1 ! i = None) [startPage..<endPage])) (\<lambda>_.
           Inr (m1\<lparr>regionLookup :=
                  fold (\<lambda>i table. table[i := Some (rid r)]) [startPage..<endPage] (regionLookup m1)\<rparr>)))))"

definition invalidateRegionLookup :: "mmu_region \<Rightarrow> mmu \<Rightarrow> mmu result" where
  "invalidateRegionLookup r m =
     rbind (verify (isPageAligned (rbase r))) (\<lambda>_.
     rbind (verify (isPageAligned (rend r))) (\<lambda>_.
     let startPage = unat (rbase r div PAGE_SIZE); endPage = unat (rend r div PAGE_SIZE)
     in rbind (verify (startPage < endPage)) (\<lambda>_.
        rbind (verify (endPage \<le> length (regionLookup m))) (\<lambda>_.
        Inr (m\<lparr>regionLookup :=
               fold (\<lambda>i table. table[i := None]) [startPage..<endPage] (regionLookup m)\<rparr>)))))"

section \<open>Protecting, adding and taking regions\<close>

text \<open>
  \<^verbatim>\<open>HostMemory::tryProtectVirtualMemoryRange\<close> on the region's host pointer, and
  \<^verbatim>\<open>applyRegionProtection\<close>, which first zeroes a region that asks for it.
\<close>

definition tryProtectVirtualMemoryRange ::
  "host_mprotect \<Rightarrow> u64 \<Rightarrow> u64 \<Rightarrow> bit_flags \<Rightarrow> bool result" where
  "tryProtectVirtualMemoryRange host p sz protection =
     (if p = 0 then rbind (verify (protection \<noteq> 0)) (\<lambda>_. Inr False)
      else Inr (host p sz protection))"

definition memset_zero :: "u64 \<Rightarrow> u64 \<Rightarrow> (u64 \<Rightarrow> u8) \<Rightarrow> u64 \<Rightarrow> u8" where
  "memset_zero base sz b = (\<lambda>a. if a - base < sz then 0 else b a)"

definition applyRegionProtection ::
  "host_mprotect \<Rightarrow> mmu_region \<Rightarrow> bit_flags \<Rightarrow> mmu \<Rightarrow> (mmu_region \<times> mmu) result" where
  "applyRegionProtection host r prot m =
     (let p = hostBase m + rbase r
      in rbind (if requiresMemsetToZero r
                then rbind (tryProtectVirtualMemoryRange host p (rsize r) (toHostProtection PROT_WRITE)) (\<lambda>didProtect.
                     rbind (verify didProtect) (\<lambda>_.
                     Inr (r\<lparr>requiresMemsetToZero := False\<rparr>,
                          m\<lparr>mem_bytes := memset_zero (rbase r) (rsize r) (mem_bytes m)\<rparr>)))
                else Inr (r, m)) (\<lambda>(r, m).
         rbind (tryProtectVirtualMemoryRange host p (rsize r) (toHostProtection prot)) (\<lambda>didProtect.
         rbind (verify didProtect) (\<lambda>_. Inr (r, m)))))"

definition notify :: "region_event \<Rightarrow> mmu \<Rightarrow> mmu" where
  "notify e m = m\<lparr>events := events m @ map (\<lambda>c. (c, e)) (callbacks m)\<rparr>"

definition checkRegionsAreSorted :: "mmu \<Rightarrow> unit result" where
  "checkRegionsAreSorted m =
     (if sorted (map rbase (regions m)) then Inr () else Inl AssertFailed)"

definition addRegion :: "host_mprotect \<Rightarrow> mmu_region \<Rightarrow> mmu \<Rightarrow> mmu result" where
  "addRegion host r m =
     rbind (verify (list_all (\<lambda>p. \<not> region_contains p (rbase r) \<and> \<not> region_contains p (rend r - 1))
                      (regions m))) (\<lambda>_.
     rbind (checkRegionsAreSorted m) (\<lambda>_.
     let pos = partition_point (\<lambda>p. rbase p < rbase r) (regions m);
         m1 = notify (RegionCreation (rbase r) (rsize r) (rprot r))
                (m\<lparr>regions := insert_at pos r (regions m)\<rparr>)
     in rbind (checkRegionsAreSorted m1) (\<lambda>_.
        rbind (fillRegionLookup r m1) (\<lambda>m2.
        rbind (applyRegionProtection host r (rprot r) m2) (\<lambda>(r', m3).
        Inr (put_region (r'\<lparr>activated := True\<rparr>) m3))))))"

text \<open>
  The two overloads of \<^verbatim>\<open>takeRegion\<close> differ in the test that selects the region. When
  none is selected the callbacks dereference a null pointer; without callbacks the caller
  receives one.
\<close>

definition take_first ::
  "host_mprotect \<Rightarrow> (mmu_region \<Rightarrow> bool) \<Rightarrow> mmu \<Rightarrow> (mmu_region option \<times> mmu) result" where
  "take_first host sel m =
     (case find sel (regions m) of
        None \<Rightarrow> if callbacks m = [] then Inr (None, m) else Inl NullPointer
      | Some r \<Rightarrow>
          rbind (applyRegionProtection host r 0 m) (\<lambda>(r1, m1).
          rbind (invalidateRegionLookup r1 m1) (\<lambda>m2.
          let m3 = m2\<lparr>regions := filter (\<lambda>p. rid p \<noteq> rid r) (regions m2)\<rparr>;
              r2 = r1\<lparr>activated := False\<rparr>
          in Inr (Some r2, notify (RegionDestruction (rbase r2) (rsize r2) (rprot r2)) m3))))"

definition takeRegion ::
  "host_mprotect \<Rightarrow> u64 \<Rightarrow> u64 \<Rightarrow> mmu \<Rightarrow> (mmu_region option \<times> mmu) result" where
  "takeRegion host base sz = take_first host (\<lambda>r. rbase r = base \<and> rsize r = sz)"

definition takeRegion_named ::
  "host_mprotect \<Rightarrow> string \<Rightarrow> mmu \<Rightarrow> (mmu_region option \<times> mmu) result" where
  "takeRegion_named host name = take_first host (\<lambda>r. rname r = name)"

section \<open>Splitting\<close>

definition split_region :: "host_mprotect \<Rightarrow> u64 \<Rightarrow> mmu \<Rightarrow> mmu result" where
  "split_region host address m =
     rbind (verify (isPageAligned address)) (\<lambda>_.
     rbind (findAddress address m) (\<lambda>p.
     case p of None \<Rightarrow> Inr m
     | Some p \<Rightarrow>
        rbind (deref p m) (\<lambda>containing.
        if address = rbase containing then Inr m
        else rbind (takeRegion host (rbase containing) (rsize containing) m) (\<lambda>(r, m1).
             case r of None \<Rightarrow> Inl NullPointer
             | Some r \<Rightarrow>
                rbind (splitAt r address m1) (\<lambda>(r', sub, m2).
                rbind (addRegion host r' m2) (\<lambda>m3. addRegion host sub m3))))))"

text \<open>
  Destroying the regions collected in a vector of pointers, in order. A pointer is followed
  when its turn comes; the region taken dies with its \<^verbatim>\<open>unique_ptr\<close>.
\<close>

fun take_all :: "host_mprotect \<Rightarrow> nat list \<Rightarrow> mmu \<Rightarrow> mmu result" where
  "take_all host [] m = Inr m"
| "take_all host (p # ps) m =
     rbind (deref p m) (\<lambda>r.
     rbind (takeRegion host (rbase r) (rsize r) m) (\<lambda>(_, m1). take_all host ps m1))"

definition addRegionAndEraseExisting :: "host_mprotect \<Rightarrow> mmu_region \<Rightarrow> mmu \<Rightarrow> mmu result" where
  "addRegionAndEraseExisting host r m =
     rbind (verify (rsize r > 0)) (\<lambda>_.
     rbind (split_region host (rbase r) m) (\<lambda>m1.
     rbind (split_region host (rend r) m1) (\<lambda>m2.
     let regionsToRemove = map rid (filter (\<lambda>p. region_contains p (rbase r)
                                              \<or> region_contains p (rend r - 1)) (regions m2))
     in rbind (take_all host regionsToRemove m2) (\<lambda>m3. addRegion host r m3))))"

section \<open>Mapping\<close>

definition topOfMemoryPageAligned :: "mmu \<Rightarrow> u64" where
  "topOfMemoryPageAligned m =
     pageRoundUp (fold (\<lambda>r top. max top (rend r)) (regions m) (topOfReserved m))"

fun adjacent_find :: "('a \<Rightarrow> 'a \<Rightarrow> bool) \<Rightarrow> 'a list \<Rightarrow> 'a option" where
  "adjacent_find P (a # b # xs) = (if P a b then Some a else adjacent_find P (b # xs))"
| "adjacent_find P _ = None"

definition firstFitPageAligned :: "u64 \<Rightarrow> mmu \<Rightarrow> u64 result" where
  "firstFitPageAligned len m =
     rbind (verify (len > 0)) (\<lambda>_.
     rbind (checkRegionsAreSorted m) (\<lambda>_.
     let len = pageRoundUp len
     in case adjacent_find (\<lambda>a b. rend a + len \<le> rbase b) (regions m) of
          None \<Rightarrow> Inr (topOfMemoryPageAligned m)
        | Some a \<Rightarrow> Inr (rend a)))"

definition mmap :: "host_mprotect \<Rightarrow> u64 \<Rightarrow> u64 \<Rightarrow> bit_flags \<Rightarrow> bit_flags \<Rightarrow> mmu \<Rightarrow> (u64 option \<times> mmu) result" where
  "mmap host address len prot flags m =
     rbind (verify (isPageAligned address)) (\<lambda>_.
     let len = pageRoundUp len
     in rbind (if flag_test flags MAP_FIXED then Inr address else firstFitPageAligned len m) (\<lambda>baseAddress.
        if baseAddress + len > memorySize m then Inr (None, m)
        else rbind (makeRegion baseAddress len prot m) (\<lambda>(r, m1).
             let r = r\<lparr>requiresMemsetToZero := True\<rparr>
             in rbind (if flag_test flags MAP_FIXED \<and> \<not> flag_test flags MAP_NO_REPLACE
                       then addRegionAndEraseExisting host r m1
                       else addRegion host r m1) (\<lambda>m2.
                Inr (Some baseAddress, m2)))))"

definition munmap :: "host_mprotect \<Rightarrow> u64 \<Rightarrow> u64 \<Rightarrow> mmu \<Rightarrow> (int \<times> mmu) result" where
  "munmap host address len m =
     rbind (verify (isPageAligned address)) (\<lambda>_.
     let len = pageRoundUp len
     in rbind (split_region host address m) (\<lambda>m1.
        rbind (split_region host (address + len) m1) (\<lambda>m2.
        let regionsToRemove = map rid (filter (\<lambda>r. intersectsRange r address (address + len)) (regions m2))
        in rbind (take_all host regionsToRemove m2) (\<lambda>m3. Inr (0, m3)))))"

section \<open>Changing protections\<close>

text \<open>The contiguity check of \<^verbatim>\<open>mprotect\<close>: \<open>None\<close> is the early return.\<close>

fun last_end :: "u64 \<Rightarrow> u64 \<Rightarrow> u64 option \<Rightarrow> mmu_region list \<Rightarrow> u64 option option" where
  "last_end address e lastEnd [] = Some lastEnd"
| "last_end address e lastEnd (r # rs) =
     (if \<not> intersectsRange r address e then last_end address e lastEnd rs
      else if lastEnd \<noteq> None \<and> lastEnd \<noteq> Some (rbase r) then None
      else last_end address e (Some (rend r)) rs)"

fun protect_regions ::
  "host_mprotect \<Rightarrow> u64 \<Rightarrow> u64 \<Rightarrow> bit_flags \<Rightarrow> nat list \<Rightarrow> mmu \<Rightarrow> mmu result" where
  "protect_regions host address e prot [] m = Inr m"
| "protect_regions host address e prot (p # ps) m =
     rbind (deref p m) (\<lambda>r.
     if \<not> intersectsRange r address e then protect_regions host address e prot ps m
     else let previousProt = rprot r;
              r1 = r\<lparr>rprot := prot\<rparr>;
              m1 = notify (RegionProtectionChange (rbase r1) (rsize r1) previousProt prot) (put_region r1 m)
          in rbind (applyRegionProtection host r1 (rprot r1) m1) (\<lambda>(r2, m2).
             protect_regions host address e prot ps (put_region r2 m2)))"

definition EACCES :: int where "EACCES = 13"
definition ENOMEM :: int where "ENOMEM = 12"

definition mprotect :: "host_mprotect \<Rightarrow> u64 \<Rightarrow> u64 \<Rightarrow> bit_flags \<Rightarrow> mmu \<Rightarrow> (int \<times> mmu) result" where
  "mprotect host address len prot m =
     rbind (verify (isPageAligned address)) (\<lambda>_.
     if flag_test prot PROT_EXEC \<and> flag_test prot PROT_WRITE then Inr (- EACCES, m)
     else let len = pageRoundUp len
          in case last_end address (address + len) None (regions m) of
               None \<Rightarrow> Inr (- ENOMEM, m)
             | Some None \<Rightarrow> Inr (- ENOMEM, m)
             | Some (Some _) \<Rightarrow>
                 rbind (split_region host address m) (\<lambda>m1.
                 rbind (split_region host (address + len) m1) (\<lambda>m2.
                 rbind (protect_regions host address (address + len) prot (map rid (regions m2)) m2) (\<lambda>m3.
                 Inr (0, m3)))))"

definition setRegionName :: "u64 \<Rightarrow> string \<Rightarrow> mmu \<Rightarrow> mmu result" where
  "setRegionName address name m =
     rbind (findAddress address m) (\<lambda>p.
     case p of None \<Rightarrow> Inl VerifyFailed
     | Some p \<Rightarrow> rbind (deref p m) (\<lambda>r. Inr (put_region (r\<lparr>rname := name\<rparr>) m)))"

section \<open>The program break, clearing, the null page\<close>

text \<open>A dereferenced \<^verbatim>\<open>unique_ptr\<close>.\<close>

definition the_region :: "mmu_region option \<Rightarrow> mmu_region result" where
  "the_region r = (case r of None \<Rightarrow> Inl NullPointer | Some r \<Rightarrow> Inr r)"

definition brk_grow :: "host_mprotect \<Rightarrow> u64 \<Rightarrow> mmu \<Rightarrow> (u64 \<times> mmu) result" where
  "brk_grow host address m =
     rbind (takeRegion_named host ''heap'' m) (\<lambda>(heap, m).
     rbind (the_region heap) (\<lambda>heap.
     let extensionBase = rend heap;
         extensionSize = pageRoundUp (address - rend heap)
     in rbind (makeRegion extensionBase extensionSize (flag_add PROT_READ PROT_WRITE) m) (\<lambda>(extension, m).
        rbind (addRegion host (extension\<lparr>requiresMemsetToZero := True\<rparr>) m) (\<lambda>m.
        rbind (takeRegion host extensionBase extensionSize m) (\<lambda>(extension, m).
        rbind (the_region extension) (\<lambda>extension.
        rbind (append_region heap extension) (\<lambda>heap.
        rbind (addRegion host heap m) (\<lambda>m. Inr (rend heap, m)))))))))"

definition brk_shrink :: "host_mprotect \<Rightarrow> u64 \<Rightarrow> mmu \<Rightarrow> (u64 \<times> mmu) result" where
  "brk_shrink host address m =
     rbind (takeRegion_named host ''heap'' m) (\<lambda>(heap, m).
     case heap of None \<Rightarrow> Inl VerifyFailed
     | Some heap \<Rightarrow>
         rbind (setEnd heap address) (\<lambda>heap.
         rbind (addRegion host heap m) (\<lambda>m. Inr (rend heap, m))))"

definition brk :: "host_mprotect \<Rightarrow> u64 \<Rightarrow> mmu \<Rightarrow> (u64 \<times> mmu) result" where
  "brk host address m =
     (case findRegion ''heap'' m of
        None \<Rightarrow> Inl VerifyFailed
      | Some heapRegion \<Rightarrow>
          let currentBrk = rend heapRegion
          in if address = currentBrk then Inr (currentBrk, m)
             else if address > memorySize m then Inr (currentBrk, m)
             else rbind (findAddress address m) (\<lambda>containing.
                  if containing \<noteq> None \<and> containing \<noteq> Some (rid heapRegion) then Inr (currentBrk, m)
                  else if list_ex (\<lambda>r. rid r \<noteq> rid heapRegion \<and> currentBrk \<le> rbase r \<and> rend r \<le> address)
                            (regions m) then Inr (currentBrk, m)
                  else if address > currentBrk then brk_grow host address m
                  else brk_shrink host address m))"

fun clear_loop :: "host_mprotect \<Rightarrow> nat \<Rightarrow> mmu \<Rightarrow> mmu result" where
  "clear_loop host 0 m = Inr m"
| "clear_loop host (Suc i) m =
     (if i < length (regions m) then
        rbind (takeRegion host (rbase (regions m ! i)) (rsize (regions m ! i)) m) (\<lambda>(_, m1).
        clear_loop host i m1)
      else Inl IndexOutOfRange)"

definition clearAllRegions :: "host_mprotect \<Rightarrow> mmu \<Rightarrow> mmu result" where
  "clearAllRegions host m = clear_loop host (length (regions m)) m"

definition ensureNullPage :: "host_mprotect \<Rightarrow> mmu \<Rightarrow> mmu result" where
  "ensureNullPage host m =
     rbind (findAddress 0 m) (\<lambda>p.
     case p of
       None \<Rightarrow> rbind (makeRegion 0 (16 * PAGE_SIZE) PROT_NONE m) (\<lambda>(r, m1).
               addRegion host (r\<lparr>rname := ''nullpage''\<rparr>) m1)
     | Some p \<Rightarrow> rbind (deref p m) (\<lambda>r. rbind (verify (rprot r = 0)) (\<lambda>_. Inr m)))"

definition addCallback :: "nat \<Rightarrow> mmu \<Rightarrow> mmu" where
  "addCallback c m = m\<lparr>callbacks := callbacks m @ [c]\<rparr>"

definition removeCallback :: "nat \<Rightarrow> mmu \<Rightarrow> mmu" where
  "removeCallback c m = m\<lparr>callbacks := filter (\<lambda>x. x \<noteq> c) (callbacks m)\<rparr>"

section \<open>Memory accesses\<close>

text \<open>
  \<^verbatim>\<open>getReadPtr\<close> and \<^verbatim>\<open>getWritePtr\<close> check the region of the first byte and return a
  host pointer, represented by its offset from the base of the reserved range. Copying from or
  to a pointer range that leaves the reserved range has no meaning.
\<close>

definition getReadPtr :: "u64 \<Rightarrow> mmu \<Rightarrow> u64 result" where
  "getReadPtr address m =
     rbind (findAddress address m) (\<lambda>p.
     case p of None \<Rightarrow> Inl VerifyFailed
     | Some p \<Rightarrow> rbind (deref p m) (\<lambda>r.
                 rbind (verify (flag_test (rprot r) PROT_READ)) (\<lambda>_. Inr address)))"

definition getWritePtr :: "u64 \<Rightarrow> mmu \<Rightarrow> u64 result" where
  "getWritePtr address m =
     rbind (findAddress address m) (\<lambda>p.
     case p of None \<Rightarrow> Inl VerifyFailed
     | Some p \<Rightarrow> rbind (deref p m) (\<lambda>r.
                 rbind (verify (flag_test (rprot r) PROT_WRITE)) (\<lambda>_. Inr address)))"

definition load_bytes :: "u64 \<Rightarrow> nat \<Rightarrow> mmu \<Rightarrow> u8 list result" where
  "load_bytes p n m =
     (if unat p + n \<le> unat (memorySize m)
      then Inr (map (\<lambda>i. mem_bytes m (p + word_of_nat i)) [0..<n])
      else Inl IndexOutOfRange)"

definition store_bytes :: "u64 \<Rightarrow> u8 list \<Rightarrow> mmu \<Rightarrow> mmu result" where
  "store_bytes p bs m =
     (if unat p + length bs \<le> unat (memorySize m)
      then Inr (m\<lparr>mem_bytes := (\<lambda>a. if unat (a - p) < length bs then bs ! unat (a - p) else mem_bytes m a)\<rparr>)
      else Inl IndexOutOfRange)"

definition copyToMmu :: "u64 \<Rightarrow> u8 list \<Rightarrow> mmu \<Rightarrow> mmu result" where
  "copyToMmu dst src m =
     (if src = [] then Inr m else rbind (getWritePtr dst m) (\<lambda>p. store_bytes p src m))"

definition copyFromMmu :: "u64 \<Rightarrow> nat \<Rightarrow> mmu \<Rightarrow> u8 list result" where
  "copyFromMmu src n m =
     (if n = 0 then Inr [] else rbind (getReadPtr src m) (\<lambda>p. load_bytes p n m))"

definition copyBytes :: "u64 \<Rightarrow> u64 \<Rightarrow> nat \<Rightarrow> mmu \<Rightarrow> mmu result" where
  "copyBytes dst src count m =
     rbind (getWritePtr dst m) (\<lambda>d.
     rbind (getReadPtr src m) (\<lambda>s.
     rbind (if count > 0 then rbind (getReadPtr (src + word_of_nat count - 1) m) (\<lambda>_. Inr ()) else Inr ()) (\<lambda>_.
     rbind (load_bytes s count m) (\<lambda>bs. store_bytes d bs m))))"

text \<open>
  \<^verbatim>\<open>read<T>\<close>, \<^verbatim>\<open>write<T>\<close>, \<^verbatim>\<open>xchg<T>\<close> and
  \<^verbatim>\<open>withExclusiveRegion\<close>, for \<open>T\<close> an integer of any width: its object representation is
  the list of its bytes, least significant first.
\<close>

definition mmu_read :: "u64 \<Rightarrow> mmu \<Rightarrow> 'a::len word result" where
  "mmu_read address m =
     rbind (getReadPtr address m) (\<lambda>dataPtr.
     rbind (load_bytes dataPtr (LENGTH('a) div 8) m) (\<lambda>bs. Inr (join_lanes bs)))"

definition mmu_write :: "u64 \<Rightarrow> 'a::len word \<Rightarrow> mmu \<Rightarrow> mmu result" where
  "mmu_write address value m =
     rbind (getWritePtr address m) (\<lambda>dataPtr. store_bytes dataPtr (split_lanes value) m)"

definition mmu_xchg :: "u64 \<Rightarrow> 'a::len word \<Rightarrow> mmu \<Rightarrow> ('a word \<times> mmu) result" where
  "mmu_xchg address value m =
     rbind (getWritePtr address m) (\<lambda>dataPtr.
     rbind (verify (unat (hostBase m + dataPtr) mod (LENGTH('a) div 8) = 0)) (\<lambda>_.
     rbind (load_bytes dataPtr (LENGTH('a) div 8) m) (\<lambda>bs.
     rbind (store_bytes dataPtr (split_lanes value) m) (\<lambda>m1. Inr (join_lanes bs, m1)))))"

definition withExclusiveRegion :: "u64 \<Rightarrow> ('a::len word \<Rightarrow> 'a word) \<Rightarrow> mmu \<Rightarrow> mmu result" where
  "withExclusiveRegion address modify m =
     rbind (findAddress address m) (\<lambda>region.
     rbind (verify (region \<noteq> None)) (\<lambda>_.
     rbind (mmu_read address m) (\<lambda>oldValue.
     mmu_write address (modify oldValue) m)))"

definition mmu_read128 :: "u64 \<Rightarrow> mmu \<Rightarrow> u128 result" where
  "mmu_read128 address m =
     rbind (getReadPtr address m) (\<lambda>dataPtr.
     rbind (load_bytes dataPtr 16 m) (\<lambda>bs. Inr (join128 bs)))"

definition mmu_write128 :: "u64 \<Rightarrow> u128 \<Rightarrow> mmu \<Rightarrow> mmu result" where
  "mmu_write128 address value m =
     rbind (getWritePtr address m) (\<lambda>dataPtr. store_bytes dataPtr (split128 value) m)"

lemma mmu_read_in_range:
  assumes "mmu_read a m = Inr (v :: u8)"
  shows "unat a < unat (memorySize m)"
proof -
  from assms obtain p bs where "getReadPtr a m = Inr p" "load_bytes p 1 m = Inr bs"
    by (auto simp: mmu_read_def rbind_eq_Inr)
  moreover from this have "p = a"
    by (auto simp: getReadPtr_def rbind_eq_Inr split: option.splits)
  ultimately show ?thesis by (simp add: load_bytes_def split: if_splits)
qed

text \<open>
  \<^verbatim>\<open>readString\<close>: the scan for the terminator reads one byte at a time and stops at the
  first zero, or fails where the memory cannot be read.
\<close>

function scan_string :: "u64 \<Rightarrow> mmu \<Rightarrow> u64 result" where
  "scan_string e m =
     (case mmu_read e m :: u8 result of
        Inl err \<Rightarrow> Inl err
      | Inr c \<Rightarrow> if c \<noteq> 0 then scan_string (e + 1) m else Inr (e + 1))"
  by pat_completeness auto

termination
proof (relation "measure (\<lambda>(e, m). unat (memorySize m) - unat e)")
  fix e m and c :: u8
  assume "mmu_read e m = Inr c"
  from mmu_read_in_range [OF this] have "unat e < unat (memorySize m)" .
  moreover have "unat (memorySize m) < 2 ^ 64" using unat_lt_2p [of "memorySize m"] by simp
  ultimately show "((e + 1, m), e, m) \<in> measure (\<lambda>(e, m). unat (memorySize m) - unat e)"
    by (simp add: unat_add_no_wrap)
qed simp

declare scan_string.simps [simp del]

definition readString :: "u64 \<Rightarrow> mmu \<Rightarrow> u8 list result" where
  "readString src m =
     rbind (scan_string src m) (\<lambda>e.
     rbind (copyFromMmu src (unat (e - src)) m) (\<lambda>v.
     rbind (verify (v \<noteq> [] \<and> last v = 0)) (\<lambda>_.
     Inr (takeWhile (\<lambda>c. c \<noteq> 0) v))))"

section \<open>Cloning an address space\<close>

text \<open>
  \<^verbatim>\<open>AddressSpace::clone\<close> copies the regions of \<open>source\<close> into the empty address space
  behind \<open>m\<close>. What \<^verbatim>\<open>mprotect\<close> returns is not looked at.
\<close>

definition clone_region :: "host_mprotect \<Rightarrow> mmu \<Rightarrow> mmu_region \<Rightarrow> mmu \<Rightarrow> mmu result" where
  "clone_region host source region m =
     rbind (mmap host (rbase region) (rsize region) (flag_add PROT_READ PROT_WRITE)
              (flag_add (flag_add (flag_add MAP_ANONYMOUS MAP_PRIVATE) MAP_FIXED) MAP_NO_REPLACE) m) (\<lambda>(base, m).
     case base of
       None \<Rightarrow> Inl VerifyFailed
     | Some base \<Rightarrow>
         rbind (setRegionName base (rname region) m) (\<lambda>m.
         rbind (if flag_test (rprot region) PROT_READ
                then rbind (load_bytes (rbase region) (unat (rsize region)) source) (\<lambda>bs. copyToMmu base bs m)
                else Inr m) (\<lambda>m.
         rbind (mprotect host base (rsize region) (rprot region) m) (\<lambda>(_, m). Inr m))))"

fun clone_regions :: "host_mprotect \<Rightarrow> mmu \<Rightarrow> mmu_region list \<Rightarrow> mmu \<Rightarrow> mmu result" where
  "clone_regions host source [] m = Inr m"
| "clone_regions host source (r # rs) m =
     rbind (clone_region host source r m) (\<lambda>m1. clone_regions host source rs m1)"

definition clone :: "host_mprotect \<Rightarrow> mmu \<Rightarrow> mmu \<Rightarrow> mmu result" where
  "clone host source m =
     rbind (verify (regions m = [])) (\<lambda>_. clone_regions host source (regions source) m)"

end
