(* ===== verification/X64_MmuInv.thy ===== *)
theory X64_MmuInv
  imports X64_Mmu
begin

text \<open>
  The invariant of the address space and the effect of every primitive that the operations of
  the Mmu are built from: filling and clearing the page table, adding, taking and splitting
  regions. The regions are sorted, disjoint, aligned and active, the page table holds exactly
  what a search of the regions would find, and every callback registered from the start has
  been told exactly of the regions that exist.
\<close>

section \<open>Addresses as numbers\<close>

definition rlo :: "mmu_region \<Rightarrow> nat" where "rlo r = unat (rbase r)"
definition rhi :: "mmu_region \<Rightarrow> nat" where "rhi r = unat (rbase r) + unat (rsize r)"

definition covers :: "mmu_region \<Rightarrow> nat \<Rightarrow> bool" where
  "covers r a = (rlo r \<le> a \<and> a < rhi r)"

definition page_aligned :: "nat \<Rightarrow> bool" where
  "page_aligned n = (4096 dvd n)"

lemma isPageAligned_unat: "isPageAligned a \<longleftrightarrow> page_aligned (unat a)"
proof -
  have "isPageAligned a \<longleftrightarrow> unat (a mod PAGE_SIZE) = 0"
    by (simp add: isPageAligned_def unat_eq_0)
  then show ?thesis
    by (simp add: PAGE_SIZE_def unat_mod_distrib page_aligned_def dvd_eq_mod_eq_0)
qed

lemma page_aligned_0 [simp]: "page_aligned 0" by (simp add: page_aligned_def)

lemma page_aligned_add: "page_aligned a \<Longrightarrow> page_aligned b \<Longrightarrow> page_aligned (a + b)"
  by (simp add: page_aligned_def)

lemma page_aligned_diff: "page_aligned a \<Longrightarrow> page_aligned b \<Longrightarrow> page_aligned (a - b)"
  by (simp add: page_aligned_def dvd_diff_nat)

lemma page_aligned_word: "page_aligned (k mod 18446744073709551616) = page_aligned k"
  unfolding page_aligned_def by (rule dvd_mod_iff) simp

lemma unat_div_page: "unat (a div PAGE_SIZE) = unat a div 4096"
  by (simp add: PAGE_SIZE_def unat_div_distrib)

lemma page_floor: "page_aligned b \<Longrightarrow> b \<le> 4096 * (a div 4096) \<longleftrightarrow> b \<le> a"
  by (auto simp: page_aligned_def elim!: dvdE)

lemma page_floor_less: "page_aligned b \<Longrightarrow> 4096 * (a div 4096) < b \<longleftrightarrow> a < b"
  by (auto simp: page_aligned_def elim!: dvdE)

lemma page_div_le: "page_aligned b \<Longrightarrow> b div 4096 \<le> i \<longleftrightarrow> b \<le> 4096 * i"
  by (auto simp: page_aligned_def elim!: dvdE)

lemma page_div_less: "page_aligned b \<Longrightarrow> i < b div 4096 \<longleftrightarrow> 4096 * i < b"
  by (auto simp: page_aligned_def elim!: dvdE)

lemma len_num64: "LENGTH(64) = 64" by simp

lemma unat_PAGE_SIZE: "unat PAGE_SIZE = 4096"
  by (simp add: PAGE_SIZE_def)

lemma unat_pageRoundUp:
  assumes "unat a + 4095 < 2 ^ 64"
  shows "unat (pageRoundUp a) = (unat a + 4095) div 4096 * 4096"
proof -
  have "a + PAGE_SIZE - 1 = a + 4095" by (simp add: PAGE_SIZE_def)
  moreover have "unat (4095 :: u64) = 4095" by simp
  ultimately have sum: "unat (a + PAGE_SIZE - 1) = unat a + 4095"
    using unat_add_no_wrap [of a 4095] assms by (simp only: len_num64)
  have "(unat a + 4095) div 4096 * 4096 < 2 ^ 64"
    using assms div_times_less_eq_dividend [of "unat a + 4095" 4096] by linarith
  then show ?thesis
    using unat_word_ariths(2) [of "(a + PAGE_SIZE - 1) div PAGE_SIZE" PAGE_SIZE]
    unfolding pageRoundUp_def unat_PAGE_SIZE unat_div_page sum by (simp only: len_num64 mod_less)
qed

lemma page_aligned_pageRoundUp: "page_aligned (unat (pageRoundUp a))"
proof -
  define q where "q = (a + PAGE_SIZE - 1) div PAGE_SIZE"
  have "unat (q * PAGE_SIZE) = (unat q * unat PAGE_SIZE) mod 2 ^ 64"
    using unat_word_ariths(2) [of q PAGE_SIZE] by simp
  moreover have "page_aligned (unat q * 4096 mod 2 ^ 64)"
    using page_aligned_word [of "unat q * 4096"] by (simp add: page_aligned_def)
  ultimately show ?thesis unfolding pageRoundUp_def q_def unat_PAGE_SIZE by (simp only:)
qed

section \<open>Well-formed regions and address spaces\<close>

definition region_ok :: "nat \<Rightarrow> mmu_region \<Rightarrow> bool" where
  "region_ok M r = (page_aligned (rlo r) \<and> page_aligned (unat (rsize r)) \<and> 0 < unat (rsize r) \<and> rhi r \<le> M)"

definition region_at :: "mmu_region list \<Rightarrow> nat \<Rightarrow> mmu_region option" where
  "region_at rs a = find (\<lambda>r. covers r a) rs"

definition table_ok :: "nat option list \<Rightarrow> mmu_region list \<Rightarrow> bool" where
  "table_ok table rs =
     (list_all (\<lambda>i. table ! i = map_option rid (region_at rs (4096 * i))) [0..<length table]
      \<and> list_all (\<lambda>r. rhi r \<le> 4096 * length table) rs)"

text \<open>What a callback registered while the address space was empty has been told.\<close>

type_synonym shape = "u64 \<times> u64 \<times> bit_flags"

fun apply_event :: "region_event \<Rightarrow> shape set \<Rightarrow> shape set" where
  "apply_event (RegionCreation b s p) S = insert (b, s, p) S"
| "apply_event (RegionProtectionChange b s p q) S = insert (b, s, q) (S - {(b, s, p)})"
| "apply_event (RegionDestruction b s p) S = S - {(b, s, p)}"

definition replay :: "nat \<Rightarrow> (nat \<times> region_event) list \<Rightarrow> shape set" where
  "replay c es = fold (\<lambda>(d, e) S. if d = c then apply_event e S else S) es {}"

definition shape_of :: "mmu_region \<Rightarrow> shape" where
  "shape_of r = (rbase r, rsize r, rprot r)"

definition mmu_inv :: "nat set \<Rightarrow> mmu \<Rightarrow> bool" where
  "mmu_inv C m =
     (unat (memorySize m) < 2 ^ 52 \<and> page_aligned (unat (memorySize m))
      \<and> list_all (\<lambda>r. region_ok (unat (memorySize m)) r \<and> activated r \<and> \<not> requiresMemsetToZero r
                       \<and> rid r < nextRid m) (regions m)
      \<and> distinct (map rid (regions m))
      \<and> sorted_wrt (\<lambda>p q. rhi p \<le> rlo q) (regions m)
      \<and> table_ok (regionLookup m) (regions m)
      \<and> unat (firstUnlookupable m) = 4096 * length (regionLookup m)
      \<and> 4096 * length (regionLookup m) \<le> unat (memorySize m)
      \<and> C \<subseteq> set (callbacks m)
      \<and> (\<forall>c\<in>C. replay c (events m) = shape_of ` set (regions m))
      \<and> topOfReserved m = 0)"

lemma mmu_invD:
  assumes "mmu_inv C m"
  shows "unat (memorySize m) < 2 ^ 52" "page_aligned (unat (memorySize m))"
    "r \<in> set (regions m) \<Longrightarrow> region_ok (unat (memorySize m)) r"
    "r \<in> set (regions m) \<Longrightarrow> activated r" "r \<in> set (regions m) \<Longrightarrow> \<not> requiresMemsetToZero r"
    "r \<in> set (regions m) \<Longrightarrow> rid r < nextRid m"
    "distinct (map rid (regions m))" "sorted_wrt (\<lambda>p q. rhi p \<le> rlo q) (regions m)"
    "table_ok (regionLookup m) (regions m)"
    "unat (firstUnlookupable m) = 4096 * length (regionLookup m)"
    "4096 * length (regionLookup m) \<le> unat (memorySize m)"
    "C \<subseteq> set (callbacks m)"
    "c \<in> C \<Longrightarrow> replay c (events m) = shape_of ` set (regions m)"
    "topOfReserved m = 0"
  using assms by (auto simp: mmu_inv_def list_all_iff)

lemma region_okD:
  assumes "region_ok M r" shows "page_aligned (rlo r)" "page_aligned (rhi r)" "rlo r < rhi r" "rhi r \<le> M"
  using assms by (auto simp: region_ok_def rlo_def rhi_def intro: page_aligned_add)

lemma unat_rend:
  assumes "region_ok M r" "M < 2 ^ 64" shows "unat (rend r) = rhi r"
  using assms unfolding rend_def rhi_def region_ok_def by (simp add: unat_add_no_wrap)

lemma region_contains_covers:
  assumes "region_ok M r" "M < 2 ^ 64" shows "region_contains r a = covers r (unat a)"
  by (simp add: region_contains_def covers_def rlo_def word_le_nat_alt word_less_nat_alt unat_rend [OF assms])

lemma unat_max: "unat (max a b) = max (unat a) (unat (b :: 'a::len word))"
  by (simp add: max_def word_le_nat_alt)
lemma unat_min: "unat (min a b) = min (unat a) (unat (b :: 'a::len word))"
  by (simp add: min_def word_le_nat_alt)

lemma intersectsRange_nat:
  assumes "region_ok M r" "M < 2 ^ 64"
  shows "intersectsRange r b e = (max (rlo r) (unat b) < min (rhi r) (unat e))"
  by (simp add: intersectsRange_def word_less_nat_alt unat_max unat_min unat_rend [OF assms] rlo_def)

subsection \<open>The region at an address\<close>

lemma region_at_SomeD: "region_at rs a = Some r \<Longrightarrow> r \<in> set rs \<and> covers r a"
  unfolding region_at_def by (metis find_Some_iff nth_mem)

lemma region_at_None: "region_at rs a = None \<longleftrightarrow> (\<forall>r\<in>set rs. \<not> covers r a)"
  by (auto simp: region_at_def find_None_iff)

lemma sorted_apart:
  assumes "sorted_wrt (\<lambda>p q. rhi p \<le> rlo q) rs" "p \<in> set rs" "q \<in> set rs"
  shows "p = q \<or> rhi p \<le> rlo q \<or> rhi q \<le> rlo p"
  using assms by (induction rs) auto

lemma region_at_eq:
  assumes "sorted_wrt (\<lambda>p q. rhi p \<le> rlo q) rs"
  shows "region_at rs a = Some r \<longleftrightarrow> r \<in> set rs \<and> covers r a"
proof
  assume r: "r \<in> set rs \<and> covers r a"
  then obtain q where q: "region_at rs a = Some q" using region_at_None by fastforce
  with region_at_SomeD have "q \<in> set rs" "covers q a" by auto
  with r sorted_apart [OF assms, of q r] have "q = r" by (auto simp: covers_def)
  with q show "region_at rs a = Some r" by simp
qed (rule region_at_SomeD)

lemma covers_page:
  assumes "region_ok M r" shows "covers r (4096 * (a div 4096)) = covers r a"
  using region_okD [OF assms] by (simp add: covers_def page_floor page_floor_less)

lemma region_at_page:
  assumes "\<forall>r\<in>set rs. region_ok M r"
  shows "region_at rs (4096 * (a div 4096)) = region_at rs a"
  unfolding region_at_def using assms by (induction rs) (auto simp: covers_page)

theorem findAddress_at:
  assumes "mmu_inv C m"
  shows "findAddress a m = Inr (map_option rid (region_at (regions m) (unat a)))"
proof (cases "a \<ge> firstUnlookupable m")
  case True
  then have "4096 * length (regionLookup m) \<le> unat a"
    using mmu_invD(10) [OF assms] by (simp add: word_le_nat_alt)
  then have "region_at (regions m) (unat a) = None"
    using mmu_invD(9) [OF assms] by (auto simp: region_at_None covers_def table_ok_def list_all_iff)
  with True show ?thesis by (simp add: findAddress_def)
next
  case False
  then have "unat a div 4096 < length (regionLookup m)"
    using mmu_invD(10) [OF assms] by (simp add: word_le_nat_alt less_mult_imp_div_less mult.commute)
  with False show ?thesis
    using mmu_invD(3,9) [OF assms]
    by (simp add: findAddress_def unat_div_page table_ok_def list_all_iff
        region_at_page [where M = "unat (memorySize m)"])
qed

lemma find_rid:
  assumes "distinct (map rid rs)" "r \<in> set rs"
  shows "find (\<lambda>p. rid p = rid r) rs = Some r"
  using assms by (induction rs) (auto simp: image_iff)

lemma deref_rid:
  assumes "mmu_inv C m" "r \<in> set (regions m)" shows "deref (rid r) m = Inr r"
  using find_rid [OF mmu_invD(7) [OF assms(1)] assms(2)] by (simp add: deref_def)

section \<open>The page table operations\<close>

definition fill_table :: "nat option \<Rightarrow> nat \<Rightarrow> nat \<Rightarrow> nat option list \<Rightarrow> nat option list" where
  "fill_table v s e table = fold (\<lambda>i t. t[i := v]) [s..<e] table"

lemma length_fill_table [simp]: "length (fill_table v s e table) = length table"
proof -
  have "length (fold (\<lambda>i t. t[i := v]) is table) = length table" for "is"
    by (induction "is" arbitrary: table) simp_all
  then show ?thesis by (simp add: fill_table_def)
qed

lemma nth_fill_table:
  assumes "i < length table"
  shows "fill_table v s e table ! i = (if s \<le> i \<and> i < e then v else table ! i)"
proof -
  have "fold (\<lambda>i t. t[i := v]) is table ! i = (if i \<in> set is then v else table ! i)" for "is"
    using assms by (induction "is" arbitrary: table) (auto simp: nth_list_update)
  then show ?thesis by (simp add: fill_table_def)
qed

text \<open>What \<open>fillRegionLookup\<close> makes of the table.\<close>

definition grown :: "nat option list \<Rightarrow> nat \<Rightarrow> nat option list" where
  "grown table n = table @ replicate (n - length table) None"

lemma length_grown [simp]: "length (grown table n) = max (length table) n"
  by (simp add: grown_def)

lemma nth_grown: "i < max (length table) n \<Longrightarrow> grown table n ! i = (if i < length table then table ! i else None)"
  by (auto simp: grown_def nth_append)

definition table_after :: "mmu_region \<Rightarrow> nat option list \<Rightarrow> nat option list" where
  "table_after r table =
     fill_table (Some (rid r)) (rlo r div 4096) (rhi r div 4096) (grown table (rhi r div 4096))"

lemma grown_same: "n \<le> length table \<Longrightarrow> grown table n = table"
  by (simp add: grown_def)

lemma aligned_region:
  assumes "region_ok M r" "M < 2 ^ 64"
  shows "isPageAligned (rbase r)" "isPageAligned (rend r)"
    "unat (rbase r div PAGE_SIZE) = rlo r div 4096" "unat (rend r div PAGE_SIZE) = rhi r div 4096"
    "rlo r div 4096 < rhi r div 4096"
proof -
  note ok = region_okD [OF assms(1)]
  show "isPageAligned (rbase r)" using ok(1) by (simp add: isPageAligned_unat rlo_def)
  show "isPageAligned (rend r)" using ok(2) by (simp add: isPageAligned_unat unat_rend [OF assms])
  show "unat (rbase r div PAGE_SIZE) = rlo r div 4096" by (simp add: unat_div_page rlo_def)
  show "unat (rend r div PAGE_SIZE) = rhi r div 4096" by (simp add: unat_div_page unat_rend [OF assms])
  have "4096 * (rlo r div 4096) < rhi r"
    using ok(3) by (metis div_times_less_eq_dividend mult.commute order_le_less_trans)
  then show "rlo r div 4096 < rhi r div 4096" using page_div_less [OF ok(2)] by blast
qed

lemma fillRegionLookup_eq:
  assumes ok: "region_ok M r" "M < 2 ^ 52" and first: "unat (firstUnlookupable m) = 4096 * length (regionLookup m)"
  shows "fillRegionLookup r m =
    (if list_all (\<lambda>i. i < length (regionLookup m) \<longrightarrow> regionLookup m ! i = None) [rlo r div 4096..<rhi r div 4096]
     then Inr (m\<lparr>regionLookup := table_after r (regionLookup m),
                 firstUnlookupable := word_of_nat (4096 * max (length (regionLookup m)) (rhi r div 4096))\<rparr>)
     else Inl VerifyFailed)"
proof -
  let ?s = "rlo r div 4096" and ?e = "rhi r div 4096"
  have M: "M < 2 ^ 64" using ok(2) by simp
  note al = aligned_region [OF ok(1) M]
  have firstw: "firstUnlookupable m = word_of_nat (4096 * length (regionLookup m))"
    proof -
    have "firstUnlookupable m = word_of_nat (unat (firstUnlookupable m))" by simp
    then show ?thesis unfolding first .
  qed
  have page: "word_of_nat n * PAGE_SIZE = (word_of_nat (4096 * n) :: u64)" for n
    by (simp add: PAGE_SIZE_def mult.commute)
  define m1 where "m1 = m\<lparr>regionLookup := grown (regionLookup m) ?e,
                 firstUnlookupable := word_of_nat (4096 * max (length (regionLookup m)) ?e)\<rparr>"
  have grow: "(if ?e > length (regionLookup m)
       then let table = regionLookup m @ replicate (?e - length (regionLookup m)) None
            in m\<lparr>regionLookup := table, firstUnlookupable := word_of_nat (length table) * PAGE_SIZE\<rparr>
       else m) = m1"
    by (auto simp: m1_def Let_def page firstw grown_def max_def)
  have check: "list_all (\<lambda>i. regionLookup m1 ! i = None) [?s..<?e]
      = list_all (\<lambda>i. i < length (regionLookup m) \<longrightarrow> regionLookup m ! i = None) [?s..<?e]"
    by (auto simp: list_all_iff m1_def nth_grown)
  show ?thesis
    unfolding fillRegionLookup_def al(3,4) Let_def [of "rlo r div 4096"] Let_def [of "rhi r div 4096"]
    using al(1,2,5) grow check
    by (simp add: verify_def m1_def table_after_def fill_table_def Let_def)
qed

lemma invalidateRegionLookup_eq:
  assumes ok: "region_ok M r" "M < 2 ^ 52"
  shows "invalidateRegionLookup r m =
    (if rhi r div 4096 \<le> length (regionLookup m)
     then Inr (m\<lparr>regionLookup := fill_table None (rlo r div 4096) (rhi r div 4096) (regionLookup m)\<rparr>)
     else Inl VerifyFailed)"
proof -
  have M: "M < 2 ^ 64" using ok(2) by simp
  note al = aligned_region [OF ok(1) M]
  show ?thesis
    unfolding invalidateRegionLookup_def al(3,4) using al(1,2,5)
    by (simp add: verify_def fill_table_def Let_def)
qed

section \<open>How the table follows the regions\<close>

definition disjoint_regions :: "mmu_region \<Rightarrow> mmu_region \<Rightarrow> bool" where
  "disjoint_regions p q = (rhi p \<le> rlo q \<or> rhi q \<le> rlo p)"

definition same_extent :: "mmu_region \<Rightarrow> mmu_region \<Rightarrow> bool" where
  "same_extent p q = (rid p = rid q \<and> rlo p = rlo q \<and> rhi p = rhi q)"

lemma region_at_map:
  assumes "\<And>r. r \<in> set rs \<Longrightarrow> rlo (f r) = rlo r \<and> rhi (f r) = rhi r"
  shows "region_at (map f rs) a = map_option f (region_at rs a)"
  using assms unfolding region_at_def by (induction rs) (auto simp: covers_def)

lemma table_ok_map:
  assumes "\<And>r. r \<in> set rs \<Longrightarrow> same_extent (f r) r"
  shows "table_ok table (map f rs) = table_ok table rs"
proof -
  have f: "r \<in> set rs \<Longrightarrow> rid (f r) = rid r \<and> rlo (f r) = rlo r \<and> rhi (f r) = rhi r" for r
    using assms by (simp add: same_extent_def)
  have "map_option rid (region_at (map f rs) a) = map_option rid (region_at rs a)" for a
    using f region_at_SomeD [of rs a] by (cases "region_at rs a") (auto simp: region_at_map)
  then show ?thesis using f by (auto simp: table_ok_def list_all_iff)
qed

lemma covers_page_index:
  assumes "region_ok M r"
  shows "covers r (4096 * i) \<longleftrightarrow> rlo r div 4096 \<le> i \<and> i < rhi r div 4096"
  using region_okD [OF assms] by (simp add: covers_def page_div_le page_div_less)

lemma region_at_insert:
  assumes "sorted_wrt (\<lambda>p q. rhi p \<le> rlo q) rs" "sorted_wrt (\<lambda>p q. rhi p \<le> rlo q) rs'"
    and "set rs' = insert r (set rs)"
  shows "region_at rs' a = (if covers r a then Some r else region_at rs a)"
proof (cases "covers r a")
  case True
  then show ?thesis using region_at_eq [OF assms(2)] assms(3) by simp
next
  case False
  show ?thesis
  proof (cases "region_at rs a")
    case None
    with False assms(3) have "region_at rs' a = None"
      unfolding region_at_None by (metis insert_iff region_at_None)
    with None False show ?thesis by simp
  next
    case (Some q)
    then have "region_at rs' a = Some q"
      using region_at_eq [OF assms(2)] region_at_SomeD assms(3) by fastforce
    with Some False show ?thesis by simp
  qed
qed

lemma region_at_remove:
  assumes "sorted_wrt (\<lambda>p q. rhi p \<le> rlo q) rs" "sorted_wrt (\<lambda>p q. rhi p \<le> rlo q) rs'"
    and "set rs' = set rs - {r}" "r \<in> set rs"
  shows "region_at rs' a = (if covers r a then None else region_at rs a)"
proof -
  have "region_at rs a = (if covers r a then Some r else region_at rs' a)"
    by (rule region_at_insert [OF assms(2,1)]) (use assms(3,4) in auto)
  moreover have "covers r a \<Longrightarrow> region_at rs' a = None"
    using sorted_apart [OF assms(1) assms(4)] assms(3) by (fastforce simp: region_at_None covers_def)
  ultimately show ?thesis by simp
qed

lemma table_ok_insert:
  assumes "table_ok table rs" "region_ok M r"
    and "sorted_wrt (\<lambda>p q. rhi p \<le> rlo q) rs" "sorted_wrt (\<lambda>p q. rhi p \<le> rlo q) rs'"
    and "set rs' = insert r (set rs)"
  shows "table_ok (table_after r table) rs'"
proof -
  note ok = region_okD [OF assms(2)]
  let ?T = "table_after r table"
  have len: "length ?T = max (length table) (rhi r div 4096)" by (simp add: table_after_def)
  have "?T ! i = map_option rid (region_at rs' (4096 * i))" if "i < length ?T" for i
  proof (cases "i < length table")
    case True
    with that assms(1) show ?thesis
      by (simp add: table_after_def nth_fill_table nth_grown region_at_insert [OF assms(3-5)]
          covers_page_index [OF assms(2)] table_ok_def list_all_iff)
  next
    case False
    then have "region_at rs (4096 * i) = None"
      using assms(1) by (fastforce simp: table_ok_def list_all_iff region_at_None covers_def)
    with that False show ?thesis
      by (simp add: table_after_def nth_fill_table nth_grown region_at_insert [OF assms(3-5)]
          covers_page_index [OF assms(2)])
  qed
  moreover have "rhi p \<le> 4096 * length ?T" if "p \<in> set rs'" for p
  proof (cases "p = r")
    case True
    have "rhi r = 4096 * (rhi r div 4096)" using ok(2) by (simp add: page_aligned_def)
    also have "\<dots> \<le> 4096 * length ?T" by (simp add: len)
    finally show ?thesis using True by simp
  next
    case False
    with that assms(1,5) have "rhi p \<le> 4096 * length table" by (simp add: table_ok_def list_all_iff)
    also have "\<dots> \<le> 4096 * max (length table) (rhi r div 4096)" by simp
    finally show ?thesis by (simp only: len)
  qed
  ultimately show ?thesis by (auto simp: table_ok_def list_all_iff)
qed

lemma table_ok_remove:
  assumes "table_ok table rs" "region_ok M r" "r \<in> set rs"
    and "sorted_wrt (\<lambda>p q. rhi p \<le> rlo q) rs" "sorted_wrt (\<lambda>p q. rhi p \<le> rlo q) rs'"
    and "set rs' = set rs - {r}"
  shows "table_ok (fill_table None (rlo r div 4096) (rhi r div 4096) table) rs'"
proof -
  note remove = region_at_remove [OF assms(4,5,6,3)]
  have "fill_table None (rlo r div 4096) (rhi r div 4096) table ! i = map_option rid (region_at rs' (4096 * i))"
    if "i < length table" for i
  proof -
    have "table ! i = map_option rid (region_at rs (4096 * i))"
      using that assms(1) by (simp add: table_ok_def list_all_iff)
    then show ?thesis
      unfolding remove nth_fill_table [OF that] covers_page_index [OF assms(2)] by simp
  qed
  moreover have "rhi p \<le> 4096 * length table" if "p \<in> set rs'" for p
    using that assms(1,6) by (simp add: table_ok_def list_all_iff)
  ultimately show ?thesis by (simp add: table_ok_def list_all_iff)
qed

text \<open>The check of the table finds exactly the overlaps.\<close>

lemma table_free_iff:
  assumes "table_ok table rs" "region_ok M r" "\<forall>p\<in>set rs. region_ok M p"
  shows "list_all (\<lambda>i. i < length table \<longrightarrow> table ! i = None) [rlo r div 4096..<rhi r div 4096]
    \<longleftrightarrow> (\<forall>p\<in>set rs. disjoint_regions p r)"
proof
  assume free: "list_all (\<lambda>i. i < length table \<longrightarrow> table ! i = None) [rlo r div 4096..<rhi r div 4096]"
  show "\<forall>p\<in>set rs. disjoint_regions p r"
  proof
    fix p assume p: "p \<in> set rs"
    note okp = region_okD [OF assms(3) [rule_format, OF p]] and okr = region_okD [OF assms(2)]
    show "disjoint_regions p r"
    proof (rule ccontr)
      assume "\<not> disjoint_regions p r"
      then have lt: "max (rlo p) (rlo r) < min (rhi p) (rhi r)"
        using okp(3) okr(3) by (simp add: disjoint_regions_def)
      define i where "i = max (rlo p) (rlo r) div 4096"
      have "page_aligned (max (rlo p) (rlo r))" using okp(1) okr(1) by (simp add: max_def)
      then have i: "4096 * i = max (rlo p) (rlo r)" by (simp add: i_def page_aligned_def)
      with lt have cov: "covers p (4096 * i)" "covers r (4096 * i)" by (simp_all add: covers_def)
      then have "i < length table"
        using assms(1) p by (fastforce simp: table_ok_def list_all_iff covers_def)
      moreover have "table ! i \<noteq> None"
        using assms(1) cov(1) p calculation by (auto simp: table_ok_def list_all_iff region_at_None)
      ultimately show False
        using free cov(2) covers_page_index [OF assms(2)] by (simp add: list_all_iff)
    qed
  qed
next
  assume dis: "\<forall>p\<in>set rs. disjoint_regions p r"
  have "table ! i = None" if i: "i < length table" "rlo r div 4096 \<le> i" "i < rhi r div 4096" for i
  proof -
    have "covers r (4096 * i)" using i(2,3) covers_page_index [OF assms(2)] by simp
    then have "region_at rs (4096 * i) = None"
      using dis by (fastforce simp: region_at_None covers_def disjoint_regions_def)
    then show ?thesis using assms(1) i(1) by (simp add: table_ok_def list_all_iff)
  qed
  then show "list_all (\<lambda>i. i < length table \<longrightarrow> table ! i = None) [rlo r div 4096..<rhi r div 4096]"
    by (simp add: list_all_iff)
qed

section \<open>Host protections\<close>

text \<open>
  Whether the host accepts the calls that protect a region. The host refuses them only with a
  failed verification.
\<close>

definition host_accepts :: "host_mprotect \<Rightarrow> mmu_region \<Rightarrow> bit_flags \<Rightarrow> mmu \<Rightarrow> bool" where
  "host_accepts host r prot m =
     (hostBase m + rbase r \<noteq> 0
      \<and> (requiresMemsetToZero r \<longrightarrow> host (hostBase m + rbase r) (rsize r) (toHostProtection PROT_WRITE))
      \<and> host (hostBase m + rbase r) (rsize r) (toHostProtection prot))"

definition settled_bytes :: "mmu_region \<Rightarrow> (u64 \<Rightarrow> u8) \<Rightarrow> u64 \<Rightarrow> u8" where
  "settled_bytes r b = (if requiresMemsetToZero r then memset_zero (rbase r) (rsize r) b else b)"

lemma applyRegionProtection_eq:
  "applyRegionProtection host r prot m =
     (if host_accepts host r prot m
      then Inr (r\<lparr>requiresMemsetToZero := False\<rparr>, m\<lparr>mem_bytes := settled_bytes r (mem_bytes m)\<rparr>)
      else Inl VerifyFailed)"
proof -
  have "r\<lparr>requiresMemsetToZero := False\<rparr> = r" if "\<not> requiresMemsetToZero r"
    using that by (cases r) simp
  then show ?thesis
    by (simp add: applyRegionProtection_def tryProtectVirtualMemoryRange_def host_accepts_def
        settled_bytes_def Let_def verify_def)
qed

text \<open>The documented behaviour of the host: \<^verbatim>\<open>mprotect\<close> of a part of the reserved range
  succeeds, and the range neither starts at the null pointer nor wraps around.\<close>

definition host_grants :: "host_mprotect \<Rightarrow> mmu \<Rightarrow> bool" where
  "host_grants host m =
     (0 < unat (hostBase m) \<and> unat (hostBase m) + unat (memorySize m) < 2 ^ 64
      \<and> (\<forall>p s prot. unat (hostBase m) \<le> unat p
            \<and> unat p + unat s \<le> unat (hostBase m) + unat (memorySize m) \<longrightarrow> host p s prot))"

lemma host_grants_accepts:
  assumes "host_grants host m" "region_ok (unat (memorySize m)) r"
  shows "host_accepts host r prot m"
proof -
  have "unat (rbase r) + unat (rsize r) \<le> unat (memorySize m)"
    using region_okD(4) [OF assms(2)] by (simp add: rhi_def)
  then have p: "unat (hostBase m + rbase r) = unat (hostBase m) + unat (rbase r)"
    "unat (hostBase m + rbase r) + unat (rsize r) \<le> unat (hostBase m) + unat (memorySize m)"
    using assms(1) by (simp_all add: host_grants_def unat_add_no_wrap)
  then have "hostBase m + rbase r \<noteq> 0"
    using assms(1) by (metis add_is_0 host_grants_def less_numeral_extra(3) unat_0)
  with p assms(1) show ?thesis by (simp add: host_accepts_def host_grants_def)
qed

section \<open>Adding a region\<close>

definition active :: "mmu_region \<Rightarrow> mmu_region" where
  "active r = r\<lparr>requiresMemsetToZero := False, activated := True\<rparr>"

lemma active_simps [simp]:
  "rid (active r) = rid r" "rbase (active r) = rbase r" "rsize (active r) = rsize r"
  "rprot (active r) = rprot r" "rname (active r) = rname r" "rlo (active r) = rlo r"
  "rhi (active r) = rhi r" "rend (active r) = rend r" "region_ok M (active r) = region_ok M r"
  "activated (active r)" "\<not> requiresMemsetToZero (active r)" "shape_of (active r) = shape_of r"
  "disjoint_regions p (active r) = disjoint_regions p r" "covers (active r) a = covers r a"
  by (simp_all add: active_def rlo_def rhi_def rend_def region_ok_def shape_of_def
      disjoint_regions_def covers_def)

definition insert_region :: "mmu_region \<Rightarrow> mmu_region list \<Rightarrow> mmu_region list" where
  "insert_region r rs = insert_at (partition_point (\<lambda>p. rbase p < rbase r) rs) r rs"

lemma insert_region_split:
  "insert_region r rs = takeWhile (\<lambda>p. rbase p < rbase r) rs @ r # dropWhile (\<lambda>p. rbase p < rbase r) rs"
  by (simp add: insert_region_def insert_at_def take_partition_point drop_partition_point)

lemma set_insert_region [simp]: "set (insert_region r rs) = insert r (set rs)"
  by (simp add: insert_region_def)

lemma sorted_insert_region:
  assumes "sorted (map rbase rs)" shows "sorted (map rbase (insert_region r rs))"
  using assms
proof (induction rs)
  case (Cons p rs)
  show ?case
  proof (cases "rbase p < rbase r")
    case True
    then have "insert_region r (p # rs) = p # insert_region r rs" by (simp add: insert_region_split)
    with Cons True show ?thesis by (auto simp: less_imp_le)
  next
    case False
    then show ?thesis using Cons.prems by (auto simp: insert_region_split)
  qed
qed (simp add: insert_region_split)

lemma apart_insert_region:
  assumes "sorted_wrt (\<lambda>p q. rhi p \<le> rlo q) rs" "\<forall>p\<in>set rs. disjoint_regions p r"
    and "\<forall>p\<in>set rs. rlo p < rhi p" "rlo r < rhi r"
  shows "sorted_wrt (\<lambda>p q. rhi p \<le> rlo q) (insert_region r rs)"
  using assms(1-3)
proof (induction rs)
  case (Cons p rs)
  show ?case
  proof (cases "rbase p < rbase r")
    case True
    then have "rlo p < rlo r" by (simp add: rlo_def word_less_nat_alt)
    then have "rhi p \<le> rlo r" using Cons.prems(2,3) assms(4) by (auto simp: disjoint_regions_def)
    moreover have "insert_region r (p # rs) = p # insert_region r rs"
      using True by (simp add: insert_region_split)
    ultimately show ?thesis using Cons by auto
  next
    case False
    then have "rlo r \<le> rlo p" by (simp add: rlo_def word_less_nat_alt)
    then have "rhi r \<le> rlo p" using Cons.prems(2,3) by (auto simp: disjoint_regions_def)
    with False Cons.prems(1,3) show ?thesis by (fastforce simp: insert_region_split)
  qed
qed (simp add: insert_region_split)

lemma sorted_regions:
  assumes "mmu_inv C m" shows "sorted (map rbase (regions m))"
proof -
  have "sorted_wrt (\<lambda>p q. rbase p \<le> rbase q) (regions m)"
  proof (rule sorted_wrt_mono_rel [OF _ mmu_invD(8) [OF assms]])
    fix p q assume "p \<in> set (regions m)" "q \<in> set (regions m)" "rhi p \<le> rlo q"
    then show "rbase p \<le> rbase q"
      using region_okD(3) [OF mmu_invD(3) [OF assms], of p] by (simp add: word_le_nat_alt rlo_def)
  qed
  then show ?thesis by (simp add: sorted_wrt_map)
qed

definition log_event :: "region_event \<Rightarrow> mmu \<Rightarrow> (nat \<times> region_event) list" where
  "log_event e m = events m @ map (\<lambda>c. (c, e)) (callbacks m)"

definition added :: "mmu_region \<Rightarrow> mmu \<Rightarrow> mmu" where
  "added r m =
     m\<lparr>regions := insert_region (active r) (regions m),
       regionLookup := table_after r (regionLookup m),
       firstUnlookupable := word_of_nat (4096 * max (length (regionLookup m)) (rhi r div 4096)),
       mem_bytes := settled_bytes r (mem_bytes m),
       events := log_event (RegionCreation (rbase r) (rsize r) (rprot r)) m\<rparr>"

definition fresh_region :: "mmu_region \<Rightarrow> mmu \<Rightarrow> bool" where
  "fresh_region r m =
     (region_ok (unat (memorySize m)) r \<and> rid r < nextRid m \<and> rid r \<notin> rid ` set (regions m))"

lemma endpoints_outside:
  assumes "region_ok M p" "region_ok M r" "M < 2 ^ 64" "disjoint_regions p r"
  shows "\<not> region_contains p (rbase r)" "\<not> region_contains p (rend r - 1)"
proof -
  note okr = region_okD [OF assms(2)]
  have "unat (rend r - 1) = rhi r - 1"
    using okr(3) by (simp add: unat_sub_no_wrap unat_rend [OF assms(2,3)])
  then show "\<not> region_contains p (rbase r)" "\<not> region_contains p (rend r - 1)"
    using assms(4) okr(3) region_okD(3) [OF assms(1)]
    by (auto simp: region_contains_covers [OF assms(1,3)] covers_def disjoint_regions_def
        simp flip: rlo_def)
qed

lemma put_inserted:
  assumes "rid r \<notin> rid ` set rs"
  shows "map (\<lambda>p. if rid p = rid r then r\<lparr>requiresMemsetToZero := False, activated := True\<rparr> else p) (insert_region r rs) = insert_region (active r) rs"
proof -
  have keep: "map (\<lambda>p. if rid p = rid r then r\<lparr>requiresMemsetToZero := False, activated := True\<rparr> else p) ps = ps" if "set ps \<subseteq> set rs" for ps
  proof (rule map_idI)
    fix p assume "p \<in> set ps"
    then have "rid p \<in> rid ` set rs" using that by blast
    with assms show "(if rid p = rid r then r\<lparr>requiresMemsetToZero := False, activated := True\<rparr> else p) = p" by auto
  qed
  have "set (takeWhile (\<lambda>p. rbase p < rbase r) rs) \<subseteq> set rs" "set (dropWhile (\<lambda>p. rbase p < rbase r) rs) \<subseteq> set rs"
    by (auto dest: set_takeWhileD set_dropWhileD)
  from this [THEN keep] show ?thesis by (simp add: insert_region_split active_def)
qed

theorem addRegion_eq:
  assumes inv: "mmu_inv C m" and fresh: "fresh_region r m"
  shows "addRegion host r m =
    (if (\<forall>p\<in>set (regions m). disjoint_regions p r) \<and> host_accepts host r (rprot r) m
     then Inr (added r m) else Inl VerifyFailed)"
proof -
  let ?M = "unat (memorySize m)"
  have ok: "region_ok ?M r" using fresh by (simp add: fresh_region_def)
  note M = mmu_invD(1) [OF inv]
  have oks: "\<forall>p\<in>set (regions m). region_ok ?M p" using mmu_invD(3) [OF inv] by blast
  define m1 where "m1 = notify (RegionCreation (rbase r) (rsize r) (rprot r))
      (m\<lparr>regions := insert_region r (regions m)\<rparr>)"
  have m1: "regionLookup m1 = regionLookup m" "unat (firstUnlookupable m1) = 4096 * length (regionLookup m1)"
    using mmu_invD(10) [OF inv] by (simp_all add: m1_def notify_def)
  have fill: "fillRegionLookup r m1 = (if \<forall>p\<in>set (regions m). disjoint_regions p r
      then Inr (m1\<lparr>regionLookup := table_after r (regionLookup m),
                   firstUnlookupable := word_of_nat (4096 * max (length (regionLookup m)) (rhi r div 4096))\<rparr>)
      else Inl VerifyFailed)"
    unfolding fillRegionLookup_eq [OF ok M m1(2)] m1(1) table_free_iff [OF mmu_invD(9) [OF inv] ok oks] by simp
  have sorted: "checkRegionsAreSorted m = Inr ()" "checkRegionsAreSorted m1 = Inr ()"
    using sorted_regions [OF inv] by (simp_all add: checkRegionsAreSorted_def m1_def notify_def sorted_insert_region)
  have endpoints: "list_all (\<lambda>p. \<not> region_contains p (rbase r) \<and> \<not> region_contains p (rend r - 1)) (regions m)"
    if "\<forall>p\<in>set (regions m). disjoint_regions p r"
    using endpoints_outside [OF oks [rule_format] ok] M that by (simp add: list_all_iff)
  have put: "map (\<lambda>p. if rid p = rid r then r\<lparr>requiresMemsetToZero := False, activated := True\<rparr> else p)
        (insert_region r (regions m))
      = insert_region (active r) (regions m)"
    by (rule put_inserted) (use fresh in \<open>simp add: fresh_region_def\<close>)
  have acc: "host_accepts host r (rprot r) (m1\<lparr>regionLookup := t, firstUnlookupable := f\<rparr>)
      = host_accepts host r (rprot r) m" for t f
    by (simp add: host_accepts_def m1_def notify_def)
  show ?thesis
  proof (cases "\<forall>p\<in>set (regions m). disjoint_regions p r")
    case True
    have e: "list_all (\<lambda>p. \<not> region_contains p (rbase r) \<and> \<not> region_contains p (rend r - 1)) (regions m)"
      by (rule endpoints [OF True])
    show ?thesis
      unfolding addRegion_def insert_region_def [symmetric] Let_def m1_def [symmetric]
      using True e sorted fill acc put
      by (simp add: applyRegionProtection_eq put_region_def added_def m1_def notify_def
          log_event_def)
  next
    case False
    then have fails: "fillRegionLookup r m1 = Inl VerifyFailed" unfolding fill by (rule if_not_P)
    from False have "\<not> ((\<forall>p\<in>set (regions m). disjoint_regions p r) \<and> host_accepts host r (rprot r) m)"
      by blast
    moreover have "addRegion host r m = Inl VerifyFailed"
      unfolding addRegion_def insert_region_def [symmetric] Let_def m1_def [symmetric]
      using sorted fails by (simp add: verify_def)
    ultimately show ?thesis by (simp only: if_False simp_thms)
  qed
qed

lemma unat_of_nat_small: "n < 2 ^ 64 \<Longrightarrow> unat (word_of_nat n :: u64) = n"
  by (simp add: unat_of_nat)

lemma apply_event_idem: "apply_event e (apply_event e S) = apply_event e S"
  by (cases e) auto

lemma replay_log:
  assumes "c \<in> set (callbacks m)"
  shows "replay c (log_event e m) = apply_event e (replay c (events m))"
proof -
  have "fold (\<lambda>(d, e) S. if d = c then apply_event e S else S) (map (\<lambda>c. (c, e)) cs) S
      = (if c \<in> set cs then apply_event e S else S)" for cs S
    by (induction cs arbitrary: S) (auto simp: apply_event_idem)
  with assms show ?thesis by (simp add: replay_def log_event_def)
qed

lemma mmu_inv_added:
  assumes inv: "mmu_inv C m" and fresh: "fresh_region r m"
    and dis: "\<forall>p\<in>set (regions m). disjoint_regions p r"
  shows "mmu_inv C (added r m)"
proof -
  let ?M = "unat (memorySize m)"
  have ok: "region_ok ?M r" and r: "rid r < nextRid m" "rid r \<notin> rid ` set (regions m)"
    using fresh by (simp_all add: fresh_region_def)
  note okr = region_okD [OF ok] and i = mmu_invD [OF inv]
  have pos: "\<forall>p\<in>set (regions m). rlo p < rhi p" using i(3) region_okD(3) by blast
  have sorted: "sorted_wrt (\<lambda>p q. rhi p \<le> rlo q) (insert_region (active r) (regions m))"
    by (rule apart_insert_region [OF i(8) _ pos]) (use dis okr(3) in simp_all)
  have "table_ok (table_after (active r) (regionLookup m)) (insert_region (active r) (regions m))"
    by (rule table_ok_insert [OF i(9) _ i(8) sorted]) (use ok in simp_all)
  then have table: "table_ok (table_after r (regionLookup m)) (insert_region (active r) (regions m))"
    by (simp add: table_after_def)
  have len: "4096 * max (length (regionLookup m)) (rhi r div 4096) \<le> ?M"
  proof -
    have "4096 * (rhi r div 4096) \<le> ?M" by (rule order_trans [OF _ okr(4)]) simp
    then show ?thesis using i(11) by (simp add: max_def)
  qed
  have "4096 * max (length (regionLookup m)) (rhi r div 4096) < 2 ^ 64"
    by (rule order_less_trans [OF order_le_less_trans [OF len i(1)]]) simp
  note small = unat_of_nat_small [OF this]
  have sel: "firstUnlookupable (added r m) = word_of_nat (4096 * max (length (regionLookup m)) (rhi r div 4096))"
    "length (regionLookup (added r m)) = max (length (regionLookup m)) (rhi r div 4096)"
    by (simp_all add: added_def table_after_def)
  have first: "unat (firstUnlookupable (added r m)) = 4096 * length (regionLookup (added r m))"
    unfolding sel by (rule small)
  have dist: "distinct (map rid (insert_region (active r) (regions m)))"
  proof -
    have "map rid (insert_region (active r) (regions m))
        = map rid (takeWhile (\<lambda>p. rbase p < rbase r) (regions m)) @ rid r
          # map rid (dropWhile (\<lambda>p. rbase p < rbase r) (regions m))"
      by (simp add: insert_region_split)
    moreover have "map rid (regions m) = map rid (takeWhile (\<lambda>p. rbase p < rbase r) (regions m))
          @ map rid (dropWhile (\<lambda>p. rbase p < rbase r) (regions m))"
      by (metis map_append takeWhile_dropWhile_id)
    ultimately show ?thesis using i(7) r(2)
      by (auto dest: set_takeWhileD set_dropWhileD)
  qed
  have told: "replay c (events (added r m)) = shape_of ` set (regions (added r m))" if "c \<in> C" for c
  proof -
    have "c \<in> set (callbacks m)" using i(12) that by blast
    then show ?thesis
      using i(13) [OF that] by (simp add: added_def replay_log shape_of_def)
  qed
  have rs: "regions (added r m) = insert_region (active r) (regions m)"
    and table': "table_ok (regionLookup (added r m)) (insert_region (active r) (regions m))"
    and frame: "memorySize (added r m) = memorySize m" "nextRid (added r m) = nextRid m"
      "callbacks (added r m) = callbacks m" "topOfReserved (added r m) = topOfReserved m"
    using table by (simp_all add: added_def)
  have all: "list_all (\<lambda>p. region_ok ?M p \<and> activated p \<and> \<not> requiresMemsetToZero p \<and> rid p < nextRid m)
      (insert_region (active r) (regions m))"
    using i(3-6) ok r(1) by (auto simp: list_all_iff)
  show ?thesis
    unfolding mmu_inv_def frame first rs [symmetric]
    using i(1,2,12,14) len all sorted table' dist told by (simp add: rs sel(2))
qed

section \<open>Taking a region\<close>

definition taken :: "mmu_region \<Rightarrow> mmu \<Rightarrow> mmu" where
  "taken r m =
     m\<lparr>regions := filter (\<lambda>p. rid p \<noteq> rid r) (regions m),
       regionLookup := fill_table None (rlo r div 4096) (rhi r div 4096) (regionLookup m),
       events := log_event (RegionDestruction (rbase r) (rsize r) (rprot r)) m\<rparr>"

lemma rid_inj:
  assumes "mmu_inv C m" "p \<in> set (regions m)" "q \<in> set (regions m)" "rid p = rid q"
  shows "p = q"
  using mmu_invD(7) [OF assms(1)] assms(2-4) by (metis distinct_map inj_on_def)

lemma set_taken:
  assumes "mmu_inv C m" "r \<in> set (regions m)"
  shows "set (regions (taken r m)) = set (regions m) - {r}"
  using rid_inj [OF assms(1)] assms(2) by (auto simp: taken_def)

lemma rbase_inj:
  assumes "mmu_inv C m" "p \<in> set (regions m)" "q \<in> set (regions m)" "rbase p = rbase q"
  shows "p = q"
  using sorted_apart [OF mmu_invD(8) [OF assms(1)] assms(2,3)] assms(4)
    region_okD(3) [OF mmu_invD(3) [OF assms(1,2)]] region_okD(3) [OF mmu_invD(3) [OF assms(1,3)]]
  by (auto simp: rlo_def)

lemma take_first_eq:
  assumes inv: "mmu_inv C m" and sel: "find sel (regions m) = Some r"
  shows "take_first host sel m =
    (if host_accepts host r 0 m then Inr (Some (r\<lparr>activated := False\<rparr>), taken r m) else Inl VerifyFailed)"
proof -
  have r: "r \<in> set (regions m)" using sel by (metis find_Some_iff nth_mem)
  note i = mmu_invD [OF inv]
  note ok = i(3) [OF r] and keep = i(5) [OF r]
  have same: "r\<lparr>requiresMemsetToZero := False\<rparr> = r" using keep by (cases r) simp
  have fits: "rhi r div 4096 \<le> length (regionLookup m)"
    using i(9) r by (auto simp: table_ok_def list_all_iff div_le_mono
        dest!: bspec intro: order_trans [OF div_le_mono [of "rhi r" "4096 * length (regionLookup m)" 4096]])
  show ?thesis
    using keep sel fits
    by (simp add: same take_first_def applyRegionProtection_eq invalidateRegionLookup_eq [OF ok i(1)]
        settled_bytes_def Let_def notify_def taken_def log_event_def)
qed

lemma find_region:
  assumes "mmu_inv C m" "r \<in> set (regions m)"
  shows "find (\<lambda>p. rbase p = rbase r \<and> rsize p = rsize r) (regions m) = Some r"
proof -
  obtain q where q: "find (\<lambda>p. rbase p = rbase r \<and> rsize p = rsize r) (regions m) = Some q"
    using assms(2) by (metis (mono_tags, lifting) find_None_iff not_Some_eq)
  then have "q \<in> set (regions m)" "rbase q = rbase r" by (auto simp: find_Some_iff)
  with rbase_inj [OF assms(1) _ assms(2)] q show ?thesis by simp
qed

lemma takeRegion_eq:
  assumes "mmu_inv C m" "r \<in> set (regions m)"
  shows "takeRegion host (rbase r) (rsize r) m =
    (if host_accepts host r 0 m then Inr (Some (r\<lparr>activated := False\<rparr>), taken r m) else Inl VerifyFailed)"
  unfolding takeRegion_def by (rule take_first_eq [OF assms(1) find_region [OF assms]])

lemma mmu_inv_taken:
  assumes inv: "mmu_inv C m" and r: "r \<in> set (regions m)"
  shows "mmu_inv C (taken r m)"
proof -
  note i = mmu_invD [OF inv] and set = set_taken [OF inv r]
  let ?rs = "filter (\<lambda>p. rid p \<noteq> rid r) (regions m)"
  have rs: "regions (taken r m) = ?rs" by (simp add: taken_def)
  have sorted: "sorted_wrt (\<lambda>p q. rhi p \<le> rlo q) ?rs" by (rule sorted_wrt_filter [OF i(8)])
  have table: "table_ok (regionLookup (taken r m)) ?rs"
    using table_ok_remove [OF i(9) i(3) [OF r] r i(8) sorted] set by (simp add: taken_def)
  have dist: "distinct (map rid ?rs)" using i(7) by (simp add: distinct_map_filter)
  have told: "replay c (events (taken r m)) = shape_of ` set ?rs" if "c \<in> C" for c
  proof -
    have "c \<in> set (callbacks m)" using i(12) that by blast
    moreover have "shape_of ` set ?rs = shape_of ` set (regions m) - {shape_of r}"
      using set rs rbase_inj [OF inv _ r] by (auto simp: shape_of_def)
    ultimately show ?thesis
      using i(13) [OF that] by (simp add: taken_def replay_log shape_of_def)
  qed
  show ?thesis
    unfolding mmu_inv_def rs
    using i(1,2,10,11,12,14) i(3-6) sorted table dist told
    by (auto simp: taken_def list_all_iff)
qed

end
