(* ===== verification/X64_MmuOps.thy ===== *)
theory X64_MmuOps
  imports X64_MmuInv
begin

text \<open>
  What the operations of the Mmu do to the address space, seen as a set of extents: the first
  address of a region, the address behind its last, its protection and its name. Splitting,
  erasing, mapping, unmapping, protecting and moving the program break are given by operations
  on sets of extents; every lemma also says that the invariant is kept and that only a failed
  verification can stop the operation.
\<close>

section \<open>Extents\<close>

type_synonym extent = "nat \<times> nat \<times> bit_flags \<times> string"

definition view :: "mmu_region \<Rightarrow> extent" where
  "view r = (rlo r, rhi r, rprot r, rname r)"

definition extents :: "mmu \<Rightarrow> extent set" where
  "extents m = view ` set (regions m)"

fun cut_extent :: "nat \<Rightarrow> extent \<Rightarrow> extent set" where
  "cut_extent a (l, h, p, n) = (if l < a \<and> a < h then {(l, a, p, n), (a, h, p, n)} else {(l, h, p, n)})"

definition cut :: "nat \<Rightarrow> extent set \<Rightarrow> extent set" where
  "cut a E = (\<Union>x\<in>E. cut_extent a x)"

definition same_machine :: "mmu \<Rightarrow> mmu \<Rightarrow> bool" where
  "same_machine m m' =
     (memorySize m' = memorySize m \<and> hostBase m' = hostBase m \<and> topOfReserved m' = topOfReserved m
      \<and> callbacks m' = callbacks m)"

lemma same_machine_refl [simp]: "same_machine m m"
  by (simp add: same_machine_def)

lemma same_machine_trans: "same_machine m m1 \<Longrightarrow> same_machine m1 m2 \<Longrightarrow> same_machine m m2"
  by (simp add: same_machine_def)

lemma same_machine_simps [simp]:
  "same_machine m (added r m)" "same_machine m (taken r m)" "same_machine m (m\<lparr>nextRid := k\<rparr>)"
  by (simp_all add: same_machine_def added_def taken_def)

lemma host_grants_same: "same_machine m m' \<Longrightarrow> host_grants host m' = host_grants host m"
  by (simp add: same_machine_def host_grants_def)

lemma view_active [simp]: "view (active r) = view r"
  by (simp add: view_def)

lemma view_inj:
  assumes "mmu_inv C m" "p \<in> set (regions m)" "q \<in> set (regions m)" "view p = view q"
  shows "p = q"
  using rbase_inj [OF assms(1-3)] assms(4) by (simp add: view_def rlo_def word_eq_iff_unat)

lemma extents_added [simp]: "extents (added r m) = insert (view r) (extents m)"
  by (simp add: extents_def added_def)

lemma extents_taken:
  assumes "mmu_inv C m" "r \<in> set (regions m)"
  shows "extents (taken r m) = extents m - {view r}"
  using set_taken [OF assms] view_inj [OF assms(1) _ assms(2)] assms(2) by (auto simp: extents_def)

lemma mmu_inv_nextRid: "mmu_inv C m \<Longrightarrow> mmu_inv C (m\<lparr>nextRid := Suc (nextRid m)\<rparr>)"
  by (auto simp: mmu_inv_def list_all_iff less_Suc_eq)

lemma disjoint_sub:
  "disjoint_regions p r \<Longrightarrow> rlo r \<le> rlo q \<Longrightarrow> rhi q \<le> rhi r \<Longrightarrow> disjoint_regions p q"
  by (auto simp: disjoint_regions_def)

lemma apart_regions:
  assumes "mmu_inv C m" "p \<in> set (regions m)" "q \<in> set (regions m)" "p \<noteq> q"
  shows "disjoint_regions p q"
  using sorted_apart [OF mmu_invD(8) [OF assms(1)] assms(2,3)] assms(4)
  by (simp add: disjoint_regions_def)

section \<open>The effect of an operation\<close>

text \<open>
  \<open>refused host m\<close>: the failure of an operation that goes through when the host grants its
  calls.
\<close>

definition refused :: "host_mprotect \<Rightarrow> mmu \<Rightarrow> cpp_error \<Rightarrow> bool" where
  "refused host m e = (e = VerifyFailed \<and> \<not> host_grants host m)"

definition effect :: "nat set \<Rightarrow> mmu \<Rightarrow> extent set \<Rightarrow> (u64 \<Rightarrow> u8) \<Rightarrow> mmu \<Rightarrow> bool" where
  "effect C m E b m' =
     (mmu_inv C m' \<and> same_machine m m' \<and> nextRid m \<le> nextRid m' \<and> extents m' = E \<and> mem_bytes m' = b
      \<and> rid ` set (regions m') \<subseteq> rid ` set (regions m) \<union> {nextRid m..})"

lemma atLeast_chain:
  fixes k k1 :: nat
  assumes "k \<le> k1" "A1 \<subseteq> A \<union> {k..}" "A2 \<subseteq> A1 \<union> {k1..}"
  shows "A2 \<subseteq> A \<union> {k..}"
proof
  fix x assume "x \<in> A2"
  then have "x \<in> A1 \<or> k1 \<le> x" using assms(3) by auto
  then show "x \<in> A \<union> {k..}" using assms(1,2) by auto
qed

lemma effect_trans:
  assumes "effect C m E b m1" "effect C m1 E' b' m2" shows "effect C m E' b' m2"
proof -
  have "nextRid m \<le> nextRid m1" "rid ` set (regions m1) \<subseteq> rid ` set (regions m) \<union> {nextRid m..}"
    "rid ` set (regions m2) \<subseteq> rid ` set (regions m1) \<union> {nextRid m1..}"
    using assms by (simp_all only: effect_def)
  then have "rid ` set (regions m2) \<subseteq> rid ` set (regions m) \<union> {nextRid m..}"
    using atLeast_chain by metis
  then show ?thesis
    using assms by (simp add: effect_def same_machine_def)
qed

lemma fresh_region_effect:
  assumes "fresh_region r m" "effect C m E b m'" shows "fresh_region r m'"
proof -
  have "rid r \<notin> rid ` set (regions m) \<union> {nextRid m..}" using assms(1) by (auto simp: fresh_region_def)
  then have "rid r \<notin> rid ` set (regions m')" using assms(2) unfolding effect_def by blast
  then show ?thesis using assms by (simp add: effect_def fresh_region_def same_machine_def)
qed

lemma refused_same: "same_machine m m' \<Longrightarrow> refused host m' = refused host m"
  by (rule ext) (simp add: refused_def host_grants_same)

lemma addRegion_effect:
  assumes "mmu_inv C m" "fresh_region r m" "\<forall>p\<in>set (regions m). disjoint_regions p r"
  shows "outcome (refused host m) (\<lambda>m'. m' = added r m \<and> mmu_inv C m') (addRegion host r m)"
  using assms mmu_inv_added [OF assms] host_grants_accepts [of host m r]
  by (auto simp: addRegion_eq [OF assms(1,2)] refused_def fresh_region_def)

lemma takeRegion_effect:
  assumes "mmu_inv C m" "r \<in> set (regions m)"
  shows "outcome (refused host m) (\<lambda>(x, m'). x = Some (r\<lparr>activated := False\<rparr>) \<and> m' = taken r m \<and> mmu_inv C m')
           (takeRegion host (rbase r) (rsize r) m)"
  using mmu_inv_taken [OF assms] host_grants_accepts [of host m r] mmu_invD(3) [OF assms]
  by (auto simp: takeRegion_eq [OF assms] refused_def)

section \<open>Splitting\<close>

lemma cut_nothing:
  assumes "\<And>l h p n. (l, h, p, n) \<in> E \<Longrightarrow> \<not> (l < a \<and> a < h)"
  shows "cut a E = E"
proof -
  have "cut_extent a x = {x}" if "x \<in> E" for x
    using assms that by (cases x) auto
  then show ?thesis by (simp add: cut_def)
qed

lemma cut_insert: "cut a (insert x E) = cut_extent a x \<union> cut a E"
  by (simp add: cut_def)

lemma cut_one:
  assumes "(l, h, p, n) \<in> E" "l < a" "a < h"
    and "\<And>l' h' p' n'. (l', h', p', n') \<in> E \<Longrightarrow> l' < a \<Longrightarrow> a < h' \<Longrightarrow> (l', h', p', n') = (l, h, p, n)"
  shows "cut a E = insert (a, h, p, n) (insert (l, a, p, n) (E - {(l, h, p, n)}))"
proof -
  have "cut a (E - {(l, h, p, n)}) = E - {(l, h, p, n)}"
    by (rule cut_nothing) (use assms(4) in blast)
  moreover have "E = insert (l, h, p, n) (E - {(l, h, p, n)})" using assms(1) by auto
  ultimately have "cut a E = cut_extent a (l, h, p, n) \<union> (E - {(l, h, p, n)})"
    by (metis cut_insert)
  with assms(2,3) show ?thesis by auto
qed

text \<open>The two halves that \<^verbatim>\<open>splitAt\<close> makes of a region taken out of the vector.\<close>

definition left_part :: "mmu_region \<Rightarrow> u64 \<Rightarrow> mmu_region" where
  "left_part r a = r\<lparr>activated := False, rsize := a - rbase r\<rparr>"

definition right_part :: "mmu_region \<Rightarrow> u64 \<Rightarrow> nat \<Rightarrow> mmu_region" where
  "right_part r a i =
     \<lparr>rid = i, rbase = a, rsize = rend r - a, rprot = rprot r, rname = rname r,
      requiresMemsetToZero = False, activated = False\<rparr>"

lemma parts:
  assumes ok: "region_ok M r" "M < 2 ^ 64" and a: "page_aligned (unat a)" "rlo r < unat a" "unat a < rhi r"
  shows "rlo (left_part r a) = rlo r" "rhi (left_part r a) = unat a"
    "rlo (right_part r a i) = unat a" "rhi (right_part r a i) = rhi r"
    "region_ok M (left_part r a)" "region_ok M (right_part r a i)"
    "splitAt (r\<lparr>activated := False\<rparr>) a m
       = Inr (left_part r a, right_part r a (nextRid m), m\<lparr>nextRid := Suc (nextRid m)\<rparr>)"
proof -
  note o = region_okD [OF ok(1)]
  have left: "unat (a - rbase r) = unat a - rlo r"
    using a(2) by (simp add: unat_sub_no_wrap rlo_def)
  have right: "unat (rend r - a) = rhi r - unat a"
    using a(3) by (simp add: unat_sub_no_wrap unat_rend [OF ok])
  show lo: "rlo (left_part r a) = rlo r" "rlo (right_part r a i) = unat a"
    by (simp_all add: rlo_def left_part_def right_part_def)
  show hi: "rhi (left_part r a) = unat a" "rhi (right_part r a i) = rhi r"
    using a(2,3) left right by (simp_all add: rhi_def left_part_def right_part_def rlo_def)
  show "region_ok M (left_part r a)"
    using a o hi lo left by (simp add: region_ok_def page_aligned_diff) (simp add: left_part_def page_aligned_diff)
  show "region_ok M (right_part r a i)"
    using a o hi lo right by (simp add: region_ok_def page_aligned_diff) (simp add: right_part_def page_aligned_diff)
  have "region_contains (r\<lparr>activated := False\<rparr>) a"
    using a(2,3) region_contains_covers [OF ok, of a]
    by (simp add: region_contains_def covers_def rend_def)
  moreover have "a \<noteq> rbase r" using a(2) by (auto simp: rlo_def)
  ultimately show "splitAt (r\<lparr>activated := False\<rparr>) a m
       = Inr (left_part r a, right_part r a (nextRid m), m\<lparr>nextRid := Suc (nextRid m)\<rparr>)"
    by (simp add: splitAt_def verifyNotActivated_def new_region_def left_part_def right_part_def rend_def)
qed

lemma inactive_again:
  assumes "mmu_inv C m" "r \<in> set (regions m)"
  shows "settled_bytes (left_part r a) b = b" "settled_bytes (right_part r a i) b = b"
  using mmu_invD(5) [OF assms] by (simp_all add: settled_bytes_def left_part_def right_part_def)

lemma split_inside:
  assumes inv: "mmu_inv C m" and r: "r \<in> set (regions m)"
    and a: "page_aligned (unat a)" "rlo r < unat a" "unat a < rhi r"
  shows "outcome (refused host m) (effect C m (cut (unat a) (extents m)) (mem_bytes m))
    (rbind (takeRegion host (rbase r) (rsize r) m) (\<lambda>(x, m1).
       case x of None \<Rightarrow> Inl NullPointer
       | Some r \<Rightarrow> rbind (splitAt r a m1) (\<lambda>(r', sub, m2).
                   rbind (addRegion host r' m2) (\<lambda>m3. addRegion host sub m3))))"
proof -
  let ?M = "unat (memorySize m)"
  have M: "?M < 2 ^ 64" using mmu_invD(1) [OF inv] by simp
  note ok = mmu_invD(3) [OF inv r] and o = region_okD [OF mmu_invD(3) [OF inv r]]
  note p = parts [OF ok M a]
  define m1 where "m1 = taken r m"
  define m2 where "m2 = m1\<lparr>nextRid := Suc (nextRid m1)\<rparr>"
  let ?l = "left_part r a" and ?s = "right_part r a (nextRid m1)"
  note inv1 = mmu_inv_taken [OF inv r, folded m1_def]
  have inv2: "mmu_inv C m2" unfolding m2_def by (rule mmu_inv_nextRid [OF inv1])
  have set2: "set (regions m2) = set (regions m) - {r}"
    using set_taken [OF inv r] by (simp add: m2_def m1_def)
  have dis: "disjoint_regions q r" if "q \<in> set (regions m2)" for q
    using apart_regions [OF inv _ r] set2 that by blast
  have mem: "memorySize m2 = memorySize m" "nextRid m2 = Suc (nextRid m)" "nextRid m1 = nextRid m"
    by (simp_all add: m2_def m1_def taken_def)
  have same: "same_machine m m2" by (simp add: same_machine_def m2_def m1_def taken_def)
  have fresh_l: "fresh_region ?l m2"
    using p(5) mmu_invD(6) [OF inv r] rid_inj [OF inv _ r] set2
    by (auto simp: fresh_region_def mem left_part_def)
  have dis_l: "\<forall>q\<in>set (regions m2). disjoint_regions q ?l"
    using disjoint_sub [OF dis] p(1,2) a(3) by simp
  define m3 where "m3 = added ?l m2"
  have inv3: "mmu_inv C m3" unfolding m3_def by (rule mmu_inv_added [OF inv2 fresh_l dis_l])
  have set3: "set (regions m3) = insert (active ?l) (set (regions m) - {r})"
    by (simp add: m3_def added_def set2)
  have "rid q < nextRid m" if "q \<in> set (regions m3)" for q
    using that set3 mmu_invD(6) [OF inv] r by (auto simp: left_part_def)
  then have "nextRid m \<notin> rid ` set (regions m3)" by (metis imageE less_irrefl)
  moreover have "memorySize m3 = memorySize m" "nextRid m3 = Suc (nextRid m)"
    by (simp_all add: m3_def added_def mem)
  ultimately have fresh_s: "fresh_region ?s m3"
    using p(6) by (simp add: fresh_region_def mem(3)) (simp add: right_part_def)
  have dis_s: "\<forall>q\<in>set (regions m3). disjoint_regions q ?s"
    using disjoint_sub [OF dis, of _ ?s] p(2-4) a(2) set2 set3 by (auto simp: disjoint_regions_def)
  have inv4: "mmu_inv C (added ?s m3)" by (rule mmu_inv_added [OF inv3 fresh_s dis_s])
  have E: "extents (added ?s m3) = cut (unat a) (extents m)"
  proof -
    have "extents m2 = extents m - {view r}"
      using extents_taken [OF inv r] by (simp add: m2_def m1_def extents_def)
    then have "extents (added ?s m3)
        = insert (unat a, rhi r, rprot r, rname r) (insert (rlo r, unat a, rprot r, rname r) (extents m - {view r}))"
      by (simp add: m3_def view_def p(1-4)) (simp add: left_part_def right_part_def)
    also have "\<dots> = cut (unat a) (extents m)"
      unfolding view_def
    proof (rule cut_one [symmetric])
      fix l h q n assume q: "(l, h, q, n) \<in> extents m" "l < unat a" "unat a < h"
      then obtain t where "t \<in> set (regions m)" "(l, h, q, n) = view t" by (auto simp: extents_def)
      with q a(2,3) apart_regions [OF inv _ r, of t] show "(l, h, q, n) = (rlo r, rhi r, rprot r, rname r)"
        by (auto simp: view_def disjoint_regions_def)
    qed (use r a in \<open>auto simp: extents_def view_def\<close>)
    finally show ?thesis .
  qed
  have step2: "outcome (refused host m) (\<lambda>m'. m' = m3 \<and> mmu_inv C m') (addRegion host ?l m2)"
    using addRegion_effect [OF inv2 fresh_l dis_l, of host] by (simp add: refused_same [OF same] m3_def)
  have "same_machine m m3" using same by (simp add: m3_def same_machine_def added_def)
  then have step3: "outcome (refused host m) (\<lambda>m'. m' = added ?s m3 \<and> mmu_inv C m') (addRegion host ?s m3)"
    using addRegion_effect [OF inv3 fresh_s dis_s, of host] by (simp add: refused_same)
  have "rid ` set (regions (added ?s m3)) \<subseteq> rid ` set (regions m) \<union> {nextRid m..}"
  proof -
    have "set (regions (added ?s m3)) = insert (active ?s) (insert (active ?l) (set (regions m) - {r}))"
      by (simp add: added_def [of ?s] set3)
    moreover have "rid ?s = nextRid m" "rid ?l = rid r" by (simp_all add: right_part_def left_part_def mem(3))
    ultimately show ?thesis using r by auto
  qed
  then have final: "effect C m (cut (unat a) (extents m)) (mem_bytes m) (added ?s m3)"
    using inv4 E by (simp add: effect_def same_machine_def m3_def added_def m2_def m1_def taken_def
        inactive_again [OF inv r])
  show ?thesis
  proof (rule outcome_rbind [OF takeRegion_effect [OF inv r]], clarsimp)
    fix m' assume "mmu_inv C (taken r m)"
    show "outcome (refused host m) (effect C m (cut (unat a) (extents m)) (mem_bytes m))
        (rbind (splitAt (r\<lparr>activated := False\<rparr>) a (taken r m)) (\<lambda>(r', sub, m2).
           rbind (addRegion host r' m2) (addRegion host sub)))"
      unfolding p(7) m1_def [symmetric] m2_def [symmetric]
      by (simp, rule outcome_rbind [OF step2]) (auto intro!: outcome_mono [OF step3] simp: final)
  qed
qed

lemma split_effect:
  assumes inv: "mmu_inv C m" and a: "page_aligned (unat a)"
  shows "outcome (refused host m) (effect C m (cut (unat a) (extents m)) (mem_bytes m)) (split_region host a m)"
proof (cases "\<exists>r\<in>set (regions m). rlo r < unat a \<and> unat a < rhi r")
  case True
  then obtain r where r: "r \<in> set (regions m)" "rlo r < unat a" "unat a < rhi r" by blast
  then have "region_at (regions m) (unat a) = Some r"
    by (simp add: region_at_eq [OF mmu_invD(8) [OF inv]] covers_def)
  moreover have "a \<noteq> rbase r" using r(2) by (auto simp: rlo_def)
  ultimately show ?thesis
    using split_inside [OF inv r(1) a r(2,3), of host] a
    by (simp add: split_region_def isPageAligned_unat findAddress_at [OF inv] deref_rid [OF inv r(1)])
next
  case False
  have "split_region host a m = Inr m"
  proof (cases "region_at (regions m) (unat a)")
    case None
    then show ?thesis using a by (simp add: split_region_def isPageAligned_unat findAddress_at [OF inv])
  next
    case (Some r)
    then have r: "r \<in> set (regions m)" "covers r (unat a)" using region_at_SomeD by auto
    with False have "a = rbase r" by (auto simp: covers_def rlo_def word_eq_iff_unat)
    with Some show ?thesis
      using a by (simp add: split_region_def isPageAligned_unat findAddress_at [OF inv] deref_rid [OF inv r(1)])
  qed
  moreover have "cut (unat a) (extents m) = extents m"
    by (rule cut_nothing) (use False in \<open>auto simp: extents_def view_def\<close>)
  ultimately show ?thesis using inv by (simp add: effect_def)
qed

section \<open>Erasing\<close>

definition erased :: "nat set \<Rightarrow> mmu \<Rightarrow> mmu_region list \<Rightarrow> mmu \<Rightarrow> bool" where
  "erased C m rs m' =
     (mmu_inv C m' \<and> same_machine m m' \<and> nextRid m' = nextRid m \<and> mem_bytes m' = mem_bytes m
      \<and> set (regions m') = set (regions m) - set rs)"

lemma erased_taken:
  assumes "mmu_inv C m" "r \<in> set (regions m)"
  shows "erased C m [r] (taken r m)"
  using mmu_inv_taken [OF assms] set_taken [OF assms]
  by (simp add: erased_def) (simp add: taken_def)

lemma erased_Cons:
  "erased C m [r] m1 \<Longrightarrow> erased C m1 rs m2 \<Longrightarrow> erased C m (r # rs) m2"
  by (auto simp: erased_def intro: same_machine_trans)

lemma take_all_effect:
  assumes "mmu_inv C m" "distinct rs" "set rs \<subseteq> set (regions m)"
  shows "outcome (refused host m) (erased C m rs) (take_all host (map rid rs) m)"
  using assms
proof (induction rs arbitrary: m)
  case Nil
  then show ?case by (simp add: erased_def)
next
  case (Cons r rs)
  have inv: "mmu_inv C m" and r: "r \<in> set (regions m)" using Cons.prems by simp_all
  have e: "erased C m [r] (taken r m)" by (rule erased_taken [OF inv r])
  then have "outcome (refused host (taken r m)) (erased C (taken r m) rs) (take_all host (map rid rs) (taken r m))"
    using Cons.prems set_taken [OF inv r] by (intro Cons.IH) (auto simp: erased_def)
  then have rest: "outcome (refused host m) (erased C m (r # rs)) (take_all host (map rid rs) (taken r m))"
    by (rule outcome_mono) (simp_all add: refused_same [OF same_machine_simps(2)] erased_Cons [OF e])
  show ?case
    unfolding list.map take_all.simps deref_rid [OF inv r] rbind_simps
    by (rule outcome_rbind [OF takeRegion_effect [OF inv r]]) (use rest in auto)
qed

lemma erased_extents:
  assumes inv: "mmu_inv C m" and e: "erased C m (filter P (regions m)) m'"
    and P: "\<And>r. r \<in> set (regions m) \<Longrightarrow> P r = Q (view r)"
  shows "extents m' = {x \<in> extents m. \<not> Q x}"
  using e P by (auto simp: extents_def erased_def)

lemma erase_effect:
  assumes inv: "mmu_inv C m" and P: "\<And>r. r \<in> set (regions m) \<Longrightarrow> P r = Q (view r)"
  shows "outcome (refused host m) (effect C m {x \<in> extents m. \<not> Q x} (mem_bytes m))
    (take_all host (map rid (filter P (regions m))) m)"
proof (rule outcome_mono [OF take_all_effect [OF inv]])
  show "distinct (filter P (regions m))"
    using mmu_invD(7) [OF inv] by (simp add: distinct_map distinct_filter)
  fix m' assume e: "erased C m (filter P (regions m)) m'"
  then show "effect C m {x \<in> extents m. \<not> Q x} (mem_bytes m) m'"
    using erased_extents [OF inv e P] by (auto simp: effect_def erased_def)
qed auto

section \<open>Unmapping\<close>

fun meets :: "nat \<Rightarrow> nat \<Rightarrow> extent \<Rightarrow> bool" where
  "meets b e (l, h, p, n) = (max l b < min h e)"

lemma meets_view:
  assumes "mmu_inv C m" "r \<in> set (regions m)"
  shows "intersectsRange r b e = meets (unat b) (unat e) (view r)"
  using intersectsRange_nat [OF mmu_invD(3) [OF assms]] mmu_invD(1) [OF assms(1)]
  by (simp add: view_def)

lemma two_splits:
  assumes inv: "mmu_inv C m" and a: "page_aligned (unat a)" "page_aligned (unat b)"
    and rest: "\<And>m'. effect C m (cut (unat b) (cut (unat a) (extents m))) (mem_bytes m) m'
                  \<Longrightarrow> outcome P Q (f m')" and P: "\<And>e. refused host m e \<Longrightarrow> P e"
  shows "outcome P Q (rbind (split_region host a m) (\<lambda>m1. rbind (split_region host b m1) f))"
proof (rule outcome_rbind)
  show "outcome P (effect C m (cut (unat a) (extents m)) (mem_bytes m)) (split_region host a m)"
    by (rule outcome_mono [OF split_effect [OF inv a(1)]]) (simp_all add: P)
  fix m1 assume e1: "effect C m (cut (unat a) (extents m)) (mem_bytes m) m1"
  then have inv1: "mmu_inv C m1" and same: "same_machine m m1" by (simp_all add: effect_def)
  show "outcome P Q (rbind (split_region host b m1) f)"
  proof (rule outcome_rbind)
    show "outcome P (effect C m1 (cut (unat b) (extents m1)) (mem_bytes m1)) (split_region host b m1)"
      by (rule outcome_mono [OF split_effect [OF inv1 a(2)]]) (simp_all add: P refused_same [OF same])
    fix m2 assume "effect C m1 (cut (unat b) (extents m1)) (mem_bytes m1) m2"
    with effect_trans [OF e1 this] e1 show "outcome P Q (f m2)"
      by (intro rest) (simp add: effect_def)
  qed
qed

lemma page_aligned_sum:
  assumes "page_aligned (unat a)" "page_aligned (unat b)" shows "page_aligned (unat (a + b :: u64))"
proof -
  have "unat (a + b) = (unat a + unat b) mod 18446744073709551616" by (simp add: unat_word_ariths)
  then show ?thesis using page_aligned_word [of "unat a + unat b"] page_aligned_add [OF assms] by simp
qed

lemma munmap_effect:
  fixes a len :: u64
  assumes inv: "mmu_inv C m" and a: "page_aligned (unat a)"
  defines "stop \<equiv> unat (a + pageRoundUp len)"
  shows "outcome (refused host m)
    (\<lambda>(res, m'). res = 0 \<and> effect C m {x \<in> cut stop (cut (unat a) (extents m)). \<not> meets (unat a) stop x} (mem_bytes m) m')
    (munmap host a len m)"
  unfolding munmap_def Let_def
  apply (simp add: isPageAligned_unat a)
proof (rule two_splits [OF inv a page_aligned_sum [OF a page_aligned_pageRoundUp]])
  fix m2 assume e: "effect C m (cut (unat (a + pageRoundUp len)) (cut (unat a) (extents m))) (mem_bytes m) m2"
  then have inv2: "mmu_inv C m2" and same: "same_machine m m2" by (simp_all add: effect_def)
  show "outcome (refused host m)
    (\<lambda>(res, m'). res = 0 \<and> effect C m {x \<in> cut stop (cut (unat a) (extents m)). \<not> meets (unat a) stop x} (mem_bytes m) m')
    (rbind (take_all host (map rid (filter (\<lambda>r. intersectsRange r a (a + pageRoundUp len)) (regions m2))) m2)
       (\<lambda>m3. Inr (0, m3)))"
  proof (rule outcome_rbind)
    show "outcome (refused host m) (effect C m2 {x \<in> extents m2. \<not> meets (unat a) stop x} (mem_bytes m2))
        (take_all host (map rid (filter (\<lambda>r. intersectsRange r a (a + pageRoundUp len)) (regions m2))) m2)"
      using erase_effect [where P = "\<lambda>r. intersectsRange r a (a + pageRoundUp len)" and Q = "meets (unat a) stop",
          OF inv2, of host] meets_view [OF inv2] by (simp add: refused_same [OF same] stop_def)
    fix m3 assume "effect C m2 {x \<in> extents m2. \<not> meets (unat a) stop x} (mem_bytes m2) m3"
    from effect_trans [OF e this] e
    show "outcome (refused host m)
      (\<lambda>(res, m'). res = 0 \<and> effect C m {x \<in> cut stop (cut (unat a) (extents m)). \<not> meets (unat a) stop x} (mem_bytes m) m')
      (Inr (0, m3))" by (simp add: effect_def stop_def)
  qed
qed

section \<open>Mapping\<close>

definition collides :: "nat \<Rightarrow> nat \<Rightarrow> extent set \<Rightarrow> bool" where
  "collides b e E = (\<exists>x\<in>E. meets b e x)"

lemma disjoint_meets:
  assumes "rlo p < rhi p" "rlo r < rhi r"
  shows "disjoint_regions p r \<longleftrightarrow> \<not> meets (rlo r) (rhi r) (view p)"
  using assms by (auto simp: disjoint_regions_def view_def max_def min_def)

lemma disjoint_all_collides:
  assumes inv: "mmu_inv C m" and ok: "region_ok M r"
  shows "(\<forall>p\<in>set (regions m). disjoint_regions p r) \<longleftrightarrow> \<not> collides (rlo r) (rhi r) (extents m)"
  using disjoint_meets [OF region_okD(3) [OF mmu_invD(3) [OF inv]] region_okD(3) [OF ok]]
  by (auto simp: collides_def extents_def)

lemma add_fresh:
  assumes inv: "mmu_inv C m" and fresh: "fresh_region r m"
  shows "outcome (\<lambda>e. e = VerifyFailed \<and> (host_grants host m \<longrightarrow> collides (rlo r) (rhi r) (extents m)))
    (\<lambda>m'. m' = added r m \<and> mmu_inv C m' \<and> \<not> collides (rlo r) (rhi r) (extents m)) (addRegion host r m)"
proof -
  have ok: "region_ok (unat (memorySize m)) r" using fresh by (simp add: fresh_region_def)
  note dis = disjoint_all_collides [OF inv ok]
  show ?thesis
    using mmu_inv_added [OF inv fresh] host_grants_accepts [OF _ ok]
    unfolding addRegion_eq [OF inv fresh] dis by auto
qed

lemma effect_added:
  assumes e: "effect C (m\<lparr>nextRid := Suc (nextRid m)\<rparr>) E b m'" and r: "rid r = nextRid m"
    and inv: "mmu_inv C (added r m')"
  shows "effect C m (insert (view r) E) (settled_bytes r b) (added r m')"
proof -
  have "rid ` set (regions m') \<subseteq> rid ` set (regions m) \<union> {nextRid m..}"
    by (rule atLeast_chain [of "nextRid m" "Suc (nextRid m)" "rid ` set (regions m)"])
       (use e in \<open>auto simp: effect_def\<close>)
  then have "rid ` set (regions (added r m')) \<subseteq> rid ` set (regions m) \<union> {nextRid m..}"
    using r by (simp add: added_def)
  then show ?thesis
    using e inv by (simp add: effect_def) (simp add: added_def same_machine_def)
qed

fun contains_addr :: "extent \<Rightarrow> nat \<Rightarrow> bool" where
  "contains_addr (l, h, p, n) a = (l \<le> a \<and> a < h)"

text \<open>What remains of a set of extents when room is made for \<open>b\<close> up to \<open>e\<close>.\<close>

definition room_made :: "nat \<Rightarrow> nat \<Rightarrow> extent set \<Rightarrow> extent set" where
  "room_made b e E = {x \<in> cut e (cut b E). \<not> (contains_addr x b \<or> contains_addr x (e - 1))}"

lemma contains_view:
  assumes "mmu_inv C m" "p \<in> set (regions m)"
  shows "region_contains p a = contains_addr (view p) (unat a)"
  using region_contains_covers [OF mmu_invD(3) [OF assms]] mmu_invD(1) [OF assms(1)]
  by (simp add: view_def covers_def)

lemma erase_existing_effect:
  fixes r m
  assumes inv: "mmu_inv C m" and ok: "region_ok (unat (memorySize m)) r" and r: "rid r = nextRid m"
  defines "E \<equiv> room_made (rlo r) (rhi r) (extents m)"
  shows "outcome (\<lambda>e. e = VerifyFailed \<and> (host_grants host m \<longrightarrow> collides (rlo r) (rhi r) E))
    (\<lambda>m'. effect C m (insert (view r) E) (settled_bytes r (mem_bytes m)) m' \<and> \<not> collides (rlo r) (rhi r) E)
    (addRegionAndEraseExisting host r (m\<lparr>nextRid := Suc (nextRid m)\<rparr>))"
proof -
  let ?P = "\<lambda>e. e = VerifyFailed \<and> (host_grants host m \<longrightarrow> collides (rlo r) (rhi r) E)"
  define m1 where "m1 = m\<lparr>nextRid := Suc (nextRid m)\<rparr>"
  have inv1: "mmu_inv C m1" unfolding m1_def by (rule mmu_inv_nextRid [OF inv])
  have same1: "same_machine m m1" by (simp add: m1_def)
  have "nextRid m \<notin> rid ` set (regions m)" using mmu_invD(6) [OF inv] by (metis imageE less_irrefl)
  then have fresh1: "fresh_region r m1" using ok r by (simp add: fresh_region_def m1_def)
  note o = region_okD [OF ok]
  have M: "unat (memorySize m) < 2 ^ 64" using mmu_invD(1) [OF inv] by simp
  have ends: "unat (rbase r) = rlo r" "unat (rend r) = rhi r" "unat (rend r - 1) = rhi r - 1"
    using o(3) unat_rend [OF ok M] by (simp_all add: rlo_def unat_sub_no_wrap)
  have size: "0 < rsize r" using ok by (simp add: region_ok_def word_less_nat_alt)
  have aligned: "page_aligned (unat (rbase r))" "page_aligned (unat (rend r))" using o(1,2) ends by simp_all
  let ?Q = "\<lambda>x. contains_addr x (rlo r) \<or> contains_addr x (rhi r - 1)"
  show ?thesis
    unfolding addRegionAndEraseExisting_def m1_def [symmetric] Let_def
    using size apply simp
  proof (rule two_splits [OF inv1 aligned])
    fix e assume "refused host m1 e" then show "?P e" by (simp add: refused_same [OF same1] refused_def)
  next
    fix m2 assume e2: "effect C m1 (cut (unat (rend r)) (cut (unat (rbase r)) (extents m1))) (mem_bytes m1) m2"
    then have inv2: "mmu_inv C m2" and same2: "same_machine m m2"
      using same_machine_trans [OF same1] by (simp_all add: effect_def)
    have E: "{x \<in> extents m2. \<not> ?Q x} = E"
      using e2 by (simp add: effect_def ends E_def room_made_def m1_def extents_def)
    show "outcome ?P (\<lambda>m'. effect C m (insert (view r) E) (settled_bytes r (mem_bytes m)) m' \<and> \<not> collides (rlo r) (rhi r) E)
      (rbind (take_all host (map rid (filter (\<lambda>p. region_contains p (rbase r) \<or> region_contains p (rend r - 1)) (regions m2))) m2)
         (addRegion host r))"
    proof (rule outcome_rbind)
      show "outcome ?P (effect C m2 E (mem_bytes m2))
        (take_all host (map rid (filter (\<lambda>p. region_contains p (rbase r) \<or> region_contains p (rend r - 1)) (regions m2))) m2)"
        unfolding E [symmetric]
        by (rule outcome_mono [OF erase_effect [where Q = ?Q, OF inv2]])
           (simp_all add: contains_view [OF inv2] ends refused_same [OF same2] refused_def de_Morgan_disj)
      fix m3 assume "effect C m2 E (mem_bytes m2) m3"
      from effect_trans [OF e2 this] e2 have e3: "effect C m1 E (mem_bytes m) m3"
        by (simp add: effect_def m1_def)
      then have inv3: "mmu_inv C m3" and X: "extents m3 = E" and same3: "same_machine m m3"
        using same_machine_trans [OF same1] by (simp_all add: effect_def)
      show "outcome ?P (\<lambda>m'. effect C m (insert (view r) E) (settled_bytes r (mem_bytes m)) m' \<and> \<not> collides (rlo r) (rhi r) E)
          (addRegion host r m3)"
        by (rule outcome_mono [OF add_fresh [OF inv3 fresh_region_effect [OF fresh1 e3]]])
           (simp_all add: X host_grants_same [OF same3] effect_added [OF e3 [unfolded m1_def] r])
    qed
  qed
qed

lemma addRegion_wraps:
  assumes "sorted (map rbase (regions m))" "rsize r = 0 \<or> 2 ^ 64 \<le> unat (rbase r) + unat (rsize r)"
  shows "addRegion host r m = Inl VerifyFailed"
proof -
  have "unat (rend r) \<le> unat (rbase r)"
  proof (cases "rsize r = 0")
    case False
    then have ge: "2 ^ 64 \<le> unat (rbase r) + unat (rsize r)" using assms(2) by blast
    have lt: "unat (rsize r) < 2 ^ 64" "unat (rbase r) < 2 ^ 64"
      using unat_lt_2p [of "rsize r"] unat_lt_2p [of "rbase r"] by simp_all
    have "unat (rend r) = (unat (rbase r) + unat (rsize r)) mod 2 ^ 64"
      by (simp add: rend_def unat_word_ariths)
    also have "\<dots> = unat (rbase r) + unat (rsize r) - 2 ^ 64"
      using ge lt by (simp add: le_mod_geq)
    finally show ?thesis using lt by linarith
  qed (simp add: rend_def)
  then have "\<not> unat (rbase r div PAGE_SIZE) < unat (rend r div PAGE_SIZE)"
    unfolding unat_div_page using div_le_mono [of "unat (rend r)" "unat (rbase r)" 4096] by simp
  then have "fillRegionLookup r m' = Inl VerifyFailed" for m'
    by (simp add: fillRegionLookup_def Let_def verify_def)
  then show ?thesis
    using assms(1) sorted_insert_region [OF assms(1), of r]
    by (simp add: addRegion_def Let_def checkRegionsAreSorted_def notify_def verify_def
        insert_region_def [symmetric])
qed

definition kept :: "bool \<Rightarrow> nat \<Rightarrow> nat \<Rightarrow> extent set \<Rightarrow> extent set" where
  "kept replace b e E = (if replace then room_made b e E else E)"

definition map_region :: "u64 \<Rightarrow> u64 \<Rightarrow> bit_flags \<Rightarrow> nat \<Rightarrow> mmu_region" where
  "map_region base L prot i =
     \<lparr>rid = i, rbase = base, rsize = L, rprot = prot, rname = '''', requiresMemsetToZero = True,
      activated = False\<rparr>"

lemma map_region_simps [simp]:
  "rid (map_region base L prot i) = i" "rbase (map_region base L prot i) = base"
  "rsize (map_region base L prot i) = L" "rlo (map_region base L prot i) = unat base"
  "rhi (map_region base L prot i) = unat base + unat L"
  "view (map_region base L prot i) = (unat base, unat base + unat L, prot, '''')"
  "settled_bytes (map_region base L prot i) b = memset_zero base L b"
  by (simp_all add: map_region_def rlo_def rhi_def view_def settled_bytes_def)

definition add_or_replace :: "host_mprotect \<Rightarrow> bool \<Rightarrow> mmu_region \<Rightarrow> mmu \<Rightarrow> mmu result" where
  "add_or_replace host replace = (if replace then addRegionAndEraseExisting host else addRegion host)"

lemma erase_existing_wraps:
  assumes inv: "mmu_inv C m" and al: "page_aligned (unat (rbase r))" "page_aligned (unat (rend r))"
    and wraps: "rsize r = 0 \<or> 2 ^ 64 \<le> unat (rbase r) + unat (rsize r)"
  shows "outcome (\<lambda>e. e = VerifyFailed) (\<lambda>_. False) (addRegionAndEraseExisting host r m)"
proof (cases "rsize r > 0")
  case True
  let ?Q = "\<lambda>x. contains_addr x (unat (rbase r)) \<or> contains_addr x (unat (rend r - 1))"
  show ?thesis
    unfolding addRegionAndEraseExisting_def Let_def using True apply simp
  proof (rule two_splits [OF inv al])
    fix m2 assume "effect C m (cut (unat (rend r)) (cut (unat (rbase r)) (extents m))) (mem_bytes m) m2"
    then have inv2: "mmu_inv C m2" by (simp add: effect_def)
    show "outcome (\<lambda>e. e = VerifyFailed) (\<lambda>_. False)
      (rbind (take_all host (map rid (filter (\<lambda>p. region_contains p (rbase r) \<or> region_contains p (rend r - 1)) (regions m2))) m2)
         (addRegion host r))"
    proof (rule outcome_rbind [where Q = "\<lambda>m3. mmu_inv C m3"])
      show "outcome (\<lambda>e. e = VerifyFailed) (mmu_inv C)
        (take_all host (map rid (filter (\<lambda>p. region_contains p (rbase r) \<or> region_contains p (rend r - 1)) (regions m2))) m2)"
        by (rule outcome_mono [OF erase_effect [where Q = ?Q, OF inv2]])
           (simp_all add: contains_view [OF inv2] refused_def effect_def)
      fix m3 assume "mmu_inv C m3"
      then show "outcome (\<lambda>e. e = VerifyFailed) (\<lambda>_. False) (addRegion host r m3)"
        by (simp add: addRegion_wraps [OF sorted_regions wraps])
    qed
  qed (simp add: refused_def)
next
  case False
  then show ?thesis by (simp add: addRegionAndEraseExisting_def verify_def)
qed

lemma map_region_effect:
  fixes base L :: u64
  assumes inv: "mmu_inv C m" and al: "page_aligned (unat base)" "page_aligned (unat L)"
    and fits: "base + L \<le> memorySize m"
  defines "e \<equiv> unat base + unat L"
  shows "outcome
    (\<lambda>x. x = VerifyFailed \<and> (host_grants host m \<and> 0 < unat L \<and> e < 2 ^ 64
           \<longrightarrow> collides (unat base) e (kept replace (unat base) e (extents m))))
    (\<lambda>m'. 0 < unat L \<and> e \<le> unat (memorySize m) \<and> \<not> collides (unat base) e (kept replace (unat base) e (extents m))
       \<and> effect C m (insert (unat base, e, prot, '''') (kept replace (unat base) e (extents m)))
           (memset_zero base L (mem_bytes m)) m')
    (add_or_replace host replace (map_region base L prot (nextRid m)) (m\<lparr>nextRid := Suc (nextRid m)\<rparr>))"
proof (cases "0 < unat L \<and> e < 2 ^ 64")
  case True
  let ?r = "map_region base L prot (nextRid m)"
  let ?m = "m\<lparr>nextRid := Suc (nextRid m)\<rparr>"
  have "unat (base + L) = e" using True by (simp add: e_def unat_add_no_wrap)
  then have e: "e \<le> unat (memorySize m)" using fits by (simp add: word_le_nat_alt)
  have ok: "region_ok (unat (memorySize m)) ?r"
    using True e al by (simp add: region_ok_def e_def)
  show ?thesis
  proof (cases replace)
    case r: True
    show ?thesis
      unfolding add_or_replace_def if_P [OF r] kept_def
      by (rule outcome_mono [OF erase_existing_effect [OF inv ok]])
         (use True e in \<open>auto simp: e_def\<close>)
  next
    case r: False
    have "nextRid m \<notin> rid ` set (regions m)" using mmu_invD(6) [OF inv] by (metis imageE less_irrefl)
    then have fresh: "fresh_region ?r ?m" using ok by (simp add: fresh_region_def)
    have inv1: "mmu_inv C ?m" by (rule mmu_inv_nextRid [OF inv])
    have eff: "effect C ?m (extents m) (mem_bytes m) ?m" using inv1 by (simp add: effect_def extents_def)
    have E: "extents ?m = extents m" by (simp add: extents_def)
    show ?thesis
      unfolding add_or_replace_def if_not_P [OF r] kept_def
      by (rule outcome_mono [OF add_fresh [OF inv1 fresh, unfolded E]])
         (use True e effect_added [OF eff, of ?r] in \<open>auto simp: e_def host_grants_def\<close>)
  qed
next
  case False
  let ?r = "map_region base L prot (nextRid m)"
  have w: "rsize ?r = 0 \<or> 2 ^ 64 \<le> unat (rbase ?r) + unat (rsize ?r)"
    using False by (auto simp: e_def unat_eq_0)
  have "page_aligned (unat (rend ?r))" using page_aligned_sum [OF al] by (simp add: rend_def)
  note erase = erase_existing_wraps [OF mmu_inv_nextRid [OF inv] _ this w, of host]
  have "outcome (\<lambda>e. e = VerifyFailed) (\<lambda>_. False)
    (add_or_replace host replace ?r (m\<lparr>nextRid := Suc (nextRid m)\<rparr>))"
    using erase al(1) addRegion_wraps [OF _ w] sorted_regions [OF inv] by (auto simp: add_or_replace_def)
  then show ?thesis by (rule outcome_mono) (use False in auto)
qed

subsection \<open>Where an unfixed mapping goes\<close>

lemma pageRoundUp_aligned:
  assumes "page_aligned (unat L)" shows "pageRoundUp L = L"
proof -
  obtain k where k: "unat L = 4096 * k" using assms by (auto simp: page_aligned_def elim: dvdE)
  have "unat L < 2 ^ 64" using unat_lt_2p [of L] by simp
  then have "k < 2 ^ 52" using k by simp
  then have "unat (pageRoundUp L) = (unat L + 4095) div 4096 * 4096"
    using k by (intro unat_pageRoundUp) simp
  also have "\<dots> = unat L" using k by simp
  finally show ?thesis by (simp add: word_eq_iff_unat)
qed

lemma adjacent_find_Some:
  "adjacent_find P xs = Some a \<Longrightarrow> \<exists>ys b zs. xs = ys @ a # b # zs \<and> P a b"
proof (induction P xs rule: adjacent_find.induct)
  case (1 P c d xs)
  show ?case
  proof (cases "P c d")
    case True
    with 1(2) show ?thesis by (intro exI [of _ "[]"]) auto
  next
    case False
    with 1 obtain ys b zs where "d # xs = ys @ a # b # zs" "P a b" by auto
    then show ?thesis by (intro exI [of _ "c # ys"]) auto
  qed
qed auto

lemma fold_max_start: "t \<le> fold (\<lambda>r top. max top (f r)) rs (t :: 'a::linorder)"
  by (induction rs arbitrary: t) (auto intro: order_trans [OF max.cobounded1])

lemma fold_max_ge: "r \<in> set rs \<Longrightarrow> f r \<le> fold (\<lambda>r top. max top (f r)) rs (t :: 'a::linorder)"
proof (induction rs arbitrary: t)
  case (Cons p rs)
  have "f p \<le> fold (\<lambda>r top. max top (f r)) rs (max t (f p))"
    by (rule order_trans [OF max.cobounded2 fold_max_start])
  with Cons show ?case by auto
qed simp

lemma fold_max_mem:
  "fold (\<lambda>r top. max top (f r)) rs (t :: 'a::linorder) \<in> insert t (f ` set rs)"
proof (induction rs arbitrary: t)
  case (Cons p rs)
  from Cons [of "max t (f p)"] show ?case by (auto simp: max_def split: if_splits)
qed simp

lemma top_of_memory:
  assumes inv: "mmu_inv C m"
  shows "page_aligned (unat (topOfMemoryPageAligned m))"
    "r \<in> set (regions m) \<Longrightarrow> rhi r \<le> unat (topOfMemoryPageAligned m)"
    "unat (topOfMemoryPageAligned m) \<le> unat (memorySize m)"
proof -
  have M: "unat (memorySize m) < 2 ^ 64" using mmu_invD(1) [OF inv] by simp
  define T where "T = fold (\<lambda>r top. max top (rend r)) (regions m) 0"
  have T: "T = 0 \<or> (\<exists>r\<in>set (regions m). T = rend r)"
    using fold_max_mem [of rend "regions m" 0] by (auto simp: T_def)
  have rend: "unat (rend r) = rhi r" if "r \<in> set (regions m)" for r
    by (rule unat_rend [OF mmu_invD(3) [OF inv that] M])
  then have "page_aligned (unat T)"
    using T region_okD(2) [OF mmu_invD(3) [OF inv]] by auto
  then have top: "topOfMemoryPageAligned m = T"
    by (simp add: topOfMemoryPageAligned_def mmu_invD(14) [OF inv] T_def pageRoundUp_aligned)
  show "page_aligned (unat (topOfMemoryPageAligned m))" by (simp add: top \<open>page_aligned (unat T)\<close>)
  show "rhi r \<le> unat (topOfMemoryPageAligned m)" if "r \<in> set (regions m)"
    using fold_max_ge [OF that, of rend 0] rend [OF that] by (simp add: top T_def word_le_nat_alt)
  show "unat (topOfMemoryPageAligned m) \<le> unat (memorySize m)"
    using T rend region_okD(4) [OF mmu_invD(3) [OF inv]] by (auto simp: top)
qed

lemma gap_is_free:
  assumes inv: "mmu_inv C m" and rs: "regions m = ys @ a # b # zs"
  shows "rhi a + L \<le> rlo b \<Longrightarrow> \<not> collides (rhi a) (rhi a + L) (extents m)"
proof -
  assume gap: "rhi a + L \<le> rlo b"
  have s: "sorted_wrt (\<lambda>p q. rhi p \<le> rlo q) (ys @ a # b # zs)" using mmu_invD(8) [OF inv] rs by simp
  have pos: "r \<in> set (ys @ a # b # zs) \<Longrightarrow> rlo r < rhi r" for r
    using mmu_invD(3) [OF inv] region_okD(3) rs by metis
  have "\<not> meets (rhi a) (rhi a + L) (view p)" if "p \<in> set (regions m)" for p
  proof -
    from that rs have "p \<in> set ys \<or> p = a \<or> p = b \<or> p \<in> set zs" by auto
    then have "rhi p \<le> rhi a \<or> rlo b \<le> rlo p"
      using s pos [of a] pos [of b] by (auto simp: sorted_wrt_append intro: order_trans less_imp_le)
    then show ?thesis using gap by (auto simp: view_def)
  qed
  then show ?thesis by (auto simp: collides_def extents_def)
qed

lemma firstFit_spec:
  assumes inv: "mmu_inv C m" and L: "page_aligned (unat L)"
  shows "outcome (\<lambda>x. x = VerifyFailed \<and> L = 0)
    (\<lambda>base. page_aligned (unat base) \<and> unat base \<le> unat (memorySize m)
       \<and> (unat base + unat L < 2 ^ 64 \<longrightarrow> \<not> collides (unat base) (unat base + unat L) (extents m)))
    (firstFitPageAligned L m)"
proof (cases "L = 0")
  case True
  then show ?thesis by (simp add: firstFitPageAligned_def verify_def)
next
  case False
  have M: "unat (memorySize m) < 2 ^ 64" using mmu_invD(1) [OF inv] by simp
  have start: "firstFitPageAligned L m = (case adjacent_find (\<lambda>a b. rend a + L \<le> rbase b) (regions m) of
      None \<Rightarrow> Inr (topOfMemoryPageAligned m) | Some a \<Rightarrow> Inr (rend a))"
    using False sorted_regions [OF inv]
    by (simp add: firstFitPageAligned_def checkRegionsAreSorted_def pageRoundUp_aligned [OF L]
        word_greater_zero_iff verify_def)
  show ?thesis
  proof (cases "adjacent_find (\<lambda>a b. rend a + L \<le> rbase b) (regions m)")
    case None
    have "\<not> collides (unat (topOfMemoryPageAligned m)) (unat (topOfMemoryPageAligned m) + unat L) (extents m)"
      using top_of_memory(2) [OF inv] by (fastforce simp: collides_def extents_def view_def)
    with None start top_of_memory [OF inv] show ?thesis by simp
  next
    case (Some a)
    then obtain ys b zs where rs: "regions m = ys @ a # b # zs" and fit: "rend a + L \<le> rbase b"
      using adjacent_find_Some by fast
    then have a: "a \<in> set (regions m)" by simp
    note o = region_okD [OF mmu_invD(3) [OF inv a]]
    have ra: "unat (rend a) = rhi a" by (rule unat_rend [OF mmu_invD(3) [OF inv a] M])
    have "\<not> collides (rhi a) (rhi a + unat L) (extents m)" if "rhi a + unat L < 2 ^ 64"
    proof (rule gap_is_free [OF inv rs])
      have "unat (rend a + L) = rhi a + unat L" using that ra by (simp add: unat_add_no_wrap)
      then show "rhi a + unat L \<le> rlo b" using fit by (simp add: word_le_nat_alt rlo_def)
    qed
    with Some start o ra show ?thesis by simp
  qed
qed

section \<open>The mapping operation\<close>

definition mapped :: "nat set \<Rightarrow> mmu \<Rightarrow> u64 \<Rightarrow> u64 \<Rightarrow> bit_flags \<Rightarrow> bool \<Rightarrow> mmu \<Rightarrow> bool" where
  "mapped C m base L prot replace m' =
     (let e = unat base + unat L; E = kept replace (unat base) e (extents m)
      in 0 < unat L \<and> e \<le> unat (memorySize m) \<and> \<not> collides (unat base) e E
         \<and> effect C m (insert (unat base, e, prot, '''') E) (memset_zero base L (mem_bytes m)) m')"

lemma mmap_tail:
  assumes inv: "mmu_inv C m" and al: "page_aligned (unat base)" "page_aligned (unat L)"
    and fits: "base + L \<le> memorySize m" and e: "e = unat base + unat L"
  shows "outcome
    (\<lambda>x. x = VerifyFailed \<and> (host_grants host m \<and> 0 < unat L \<and> e < 2 ^ 64
           \<longrightarrow> collides (unat base) e (kept replace (unat base) e (extents m))))
    (\<lambda>(res, m'). res = Some base \<and> mapped C m base L prot replace m')
    (rbind (makeRegion base L prot m) (\<lambda>(r, m1).
       rbind (if replace then addRegionAndEraseExisting host (r\<lparr>requiresMemsetToZero := True\<rparr>) m1
              else addRegion host (r\<lparr>requiresMemsetToZero := True\<rparr>) m1) (\<lambda>m2. Inr (Some base, m2))))"
proof -
  let ?r = "map_region base L prot (nextRid m)" and ?m = "m\<lparr>nextRid := Suc (nextRid m)\<rparr>"
  have make: "makeRegion base L prot m = Inr (?r\<lparr>requiresMemsetToZero := False\<rparr>, ?m)"
    using al fits by (simp add: makeRegion_def isPageAligned_unat new_region_def map_region_def verify_def)
  have r: "?r\<lparr>requiresMemsetToZero := False\<rparr>\<lparr>requiresMemsetToZero := True\<rparr> = ?r"
    by (simp add: map_region_def)
  have fold: "(if replace then addRegionAndEraseExisting host ?r ?m else addRegion host ?r ?m)
      = add_or_replace host replace ?r ?m" by (simp add: add_or_replace_def)
  show ?thesis
    unfolding make rbind_simps prod.case r fold e
    by (rule outcome_rbind [OF map_region_effect [OF inv al fits]]) (simp add: mapped_def Let_def)
qed

lemma mmap_fixed_effect:
  assumes inv: "mmu_inv C m" and a: "page_aligned (unat a)" and fixed: "flag_test flags MAP_FIXED"
    and replace: "replace = (\<not> flag_test flags MAP_NO_REPLACE)"
    and L: "L = pageRoundUp len" and e: "e = unat a + unat L"
  shows "outcome
    (\<lambda>x. x = VerifyFailed \<and> (host_grants host m \<and> 0 < unat L \<and> e < 2 ^ 64
           \<longrightarrow> collides (unat a) e (kept replace (unat a) e (extents m))))
    (\<lambda>(res, m'). if res = None then m' = m \<and> a + L > memorySize m
                 else res = Some a \<and> mapped C m a L prot replace m')
    (mmap host a len prot flags m)"
proof (cases "a + L > memorySize m")
  case True
  then show ?thesis using a fixed by (simp add: mmap_def Let_def isPageAligned_unat flip: L)
next
  case False
  then have "a + L \<le> memorySize m" by simp
  note tail = mmap_tail [OF inv a _ this e, of host replace prot]
  have "page_aligned (unat L)" by (simp add: L page_aligned_pageRoundUp)
  from tail [OF this] show ?thesis
    using a fixed replace False
    by (auto simp: mmap_def Let_def isPageAligned_unat simp flip: L elim!: outcome_mono)
qed

lemma mmap_anywhere_effect:
  assumes inv: "mmu_inv C m" and a: "page_aligned (unat a)" and fixed: "\<not> flag_test flags MAP_FIXED"
    and L: "L = pageRoundUp len"
  shows "outcome
    (\<lambda>x. x = VerifyFailed \<and> (host_grants host m \<longrightarrow> L = 0 \<or> 2 ^ 63 \<le> unat L))
    (\<lambda>(res, m'). case res of None \<Rightarrow> m' = m | Some base \<Rightarrow> mapped C m base L prot False m')
    (mmap host a len prot flags m)"
proof -
  have al: "page_aligned (unat L)" by (simp add: L page_aligned_pageRoundUp)
  have M: "unat (memorySize m) < 2 ^ 52" by (rule mmu_invD(1) [OF inv])
  have unfold: "mmap host a len prot flags m = rbind (firstFitPageAligned L m) (\<lambda>base.
      if memorySize m < base + L then Inr (None, m)
      else rbind (makeRegion base L prot m) (\<lambda>(r, m1).
             rbind (addRegion host (r\<lparr>requiresMemsetToZero := True\<rparr>) m1) (\<lambda>m2. Inr (Some base, m2))))"
    using a fixed unfolding mmap_def Let_def L [symmetric] by (simp add: isPageAligned_unat cong: if_cong)
  show ?thesis
    unfolding unfold
  proof (rule outcome_rbind [OF outcome_mono [OF firstFit_spec [OF inv al]]], blast, assumption)
    fix base :: u64
    assume base: "page_aligned (unat base) \<and> unat base \<le> unat (memorySize m)
       \<and> (unat base + unat L < 2 ^ 64 \<longrightarrow> \<not> collides (unat base) (unat base + unat L) (extents m))"
    show "outcome (\<lambda>x. x = VerifyFailed \<and> (host_grants host m \<longrightarrow> L = 0 \<or> 2 ^ 63 \<le> unat L))
      (\<lambda>(res, m'). case res of None \<Rightarrow> m' = m | Some base \<Rightarrow> mapped C m base L prot False m')
      (if memorySize m < base + L then Inr (None, m)
       else rbind (makeRegion base L prot m) (\<lambda>(r, m1).
              rbind (addRegion host (r\<lparr>requiresMemsetToZero := True\<rparr>) m1) (\<lambda>m2. Inr (Some base, m2))))"
    proof (cases "memorySize m < base + L")
      case False
      then have fits: "base + L \<le> memorySize m" by simp
      have free: "L = 0 \<or> 2 ^ 63 \<le> unat L"
        if "0 < unat L \<and> unat base + unat L < 2 ^ 64 \<longrightarrow> collides (unat base) (unat base + unat L) (extents m)"
      proof (rule ccontr)
        assume "\<not> (L = 0 \<or> 2 ^ 63 \<le> unat L)"
        then have "0 < unat L" "unat base + unat L < 2 ^ 64" using base M by (auto simp: unat_gt_0)
        with that base show False by blast
      qed
      have "page_aligned (unat base)" using base by blast
      note tail = mmap_tail [OF inv this al fits refl, of host False prot, unfolded kept_def if_False]
      show ?thesis
        unfolding if_not_P [OF False]
        by (rule outcome_mono [OF tail]) (use free in auto)
    qed simp
  qed
qed

end
