(* ===== verification/X64_MmuProtect.thy ===== *)
theory X64_MmuProtect
  imports X64_MmuOps
begin

text \<open>
  The operations of the Mmu that change regions in place: \<^verbatim>\<open>mprotect\<close>,
  \<^verbatim>\<open>setRegionName\<close>, the program break \<^verbatim>\<open>brk\<close>, the null page and
  \<^verbatim>\<open>clearAllRegions\<close>, with their effect on the extents.
\<close>

section \<open>Changing the protection of a region\<close>

definition reprotected :: "mmu_region \<Rightarrow> bit_flags \<Rightarrow> mmu \<Rightarrow> mmu" where
  "reprotected r q m =
     notify (RegionProtectionChange (rbase r) (rsize r) (rprot r) q) (put_region (r\<lparr>rprot := q\<rparr>) m)"

lemma set_put_region:
  assumes "mmu_inv C m" "r \<in> set (regions m)" "rid r' = rid r"
  shows "set (regions (put_region r' m)) = insert r' (set (regions m) - {r})"
proof -
  have "(if rid p = rid r' then r' else p) = (if p = r then r' else p)" if "p \<in> set (regions m)" for p
    using rid_inj [OF assms(1) that assms(2)] assms(3) by auto
  then have "set (regions (put_region r' m)) = (\<lambda>p. if p = r then r' else p) ` set (regions m)"
    by (auto simp: put_region_def)
  also have "\<dots> = insert r' (set (regions m) - {r})" using assms(2) by auto
  finally show ?thesis .
qed

text \<open>Replacing a region by one with the same place and identity keeps everything but the log.\<close>

lemma put_region_frame:
  assumes inv: "mmu_inv C m" and r: "r \<in> set (regions m)"
    and r': "rid r' = rid r" "rbase r' = rbase r" "rsize r' = rsize r" "activated r'" "\<not> requiresMemsetToZero r'"
    and told: "\<forall>c\<in>C. replay c es = shape_of ` set (regions (put_region r' m))"
  shows "mmu_inv C ((put_region r' m)\<lparr>events := es\<rparr>)"
proof -
  let ?f = "\<lambda>p. if rid p = rid r' then r' else p"
  note i = mmu_invD [OF inv]
  have pos: "rlo r' = rlo r" "rhi r' = rhi r" "region_ok M r' = region_ok M r" for M
    using r' by (simp_all add: rlo_def rhi_def region_ok_def)
  have f: "rid (?f p) = rid p \<and> rlo (?f p) = rlo p \<and> rhi (?f p) = rhi p" if "p \<in> set (regions m)" for p
    using rid_inj [OF inv that r] r'(1) pos by auto
  have rs: "regions (put_region r' m) = map ?f (regions m)" by (simp add: put_region_def)
  have "map rid (map ?f (regions m)) = map rid (regions m)" unfolding map_map o_def by (rule map_cong) auto
  then have dist: "distinct (map rid (map ?f (regions m)))" using i(7) by (simp only:)
  have sorted: "sorted_wrt (\<lambda>p q. rhi p \<le> rlo q) (map ?f (regions m))"
    unfolding sorted_wrt_map by (rule sorted_wrt_mono_rel [OF _ i(8)]) (use f in auto)
  have table: "table_ok (regionLookup m) (map ?f (regions m))"
    using i(9) table_ok_map [of "regions m" ?f] f by (simp add: same_extent_def)
  have all: "list_all (\<lambda>p. region_ok (unat (memorySize m)) p \<and> activated p \<and> \<not> requiresMemsetToZero p
      \<and> rid p < nextRid m) (regions (put_region r' m))"
    unfolding list_all_iff set_put_region [OF inv r r'(1)]
    using i(3-6) r r' pos by auto
  show ?thesis
    unfolding mmu_inv_def using i(1,2,10-12,14) all dist sorted table told
    by (simp add: rs) (simp add: put_region_def)
qed

lemma replay_notify:
  "c \<in> set (callbacks m) \<Longrightarrow> replay c (events (notify e m)) = apply_event e (replay c (events m))"
  using replay_log [of c m e] by (simp add: notify_def log_event_def)

lemma mmu_inv_reprotected:
  assumes inv: "mmu_inv C m" and r: "r \<in> set (regions m)"
  shows "mmu_inv C (reprotected r q m)"
proof -
  let ?r = "r\<lparr>rprot := q\<rparr>"
  let ?e = "RegionProtectionChange (rbase r) (rsize r) (rprot r) q"
  have "mmu_inv C ((put_region ?r m)\<lparr>events := events (notify ?e m)\<rparr>)"
  proof (rule put_region_frame [OF inv r])
    show "\<forall>c\<in>C. replay c (events (notify ?e m)) = shape_of ` set (regions (put_region ?r m))"
    proof
      fix c assume c: "c \<in> C"
      then have "c \<in> set (callbacks m)" using mmu_invD(12) [OF inv] by blast
      then have "replay c (events (notify ?e m))
          = insert (rbase r, rsize r, q) (shape_of ` set (regions m) - {shape_of r})"
        using mmu_invD(13) [OF inv c] by (simp add: replay_notify shape_of_def)
      also have "shape_of ` set (regions m) - {shape_of r} = shape_of ` (set (regions m) - {r})"
        using rbase_inj [OF inv _ r] r by (auto simp: shape_of_def)
      finally show "replay c (events (notify ?e m)) = shape_of ` set (regions (put_region ?r m))"
        by (simp add: set_put_region [OF inv r] shape_of_def)
    qed
  qed (use mmu_invD(4,5) [OF inv r] in simp_all)
  moreover have "(put_region ?r m)\<lparr>events := events (notify ?e m)\<rparr> = reprotected r q m"
    by (simp add: reprotected_def notify_def put_region_def)
  ultimately show ?thesis by simp
qed

lemma reprotected_simps:
  "same_machine m (reprotected r q m)" "nextRid (reprotected r q m) = nextRid m"
  "mem_bytes (reprotected r q m) = mem_bytes m"
  by (simp_all add: reprotected_def notify_def put_region_def same_machine_def)

lemma set_reprotected:
  assumes "mmu_inv C m" "r \<in> set (regions m)"
  shows "set (regions (reprotected r q m)) = insert (r\<lparr>rprot := q\<rparr>) (set (regions m) - {r})"
  using set_put_region [OF assms, of "r\<lparr>rprot := q\<rparr>"] by (simp add: reprotected_def notify_def)

lemma put_same:
  assumes "mmu_inv C m" "r \<in> set (regions m)" shows "put_region r m = m"
proof -
  have "map (\<lambda>p. if rid p = rid r then r else p) (regions m) = regions m"
    by (rule map_idI) (use rid_inj [OF assms(1) _ assms(2)] in auto)
  then show ?thesis by (simp add: put_region_def)
qed

definition reprot :: "u64 \<Rightarrow> u64 \<Rightarrow> bit_flags \<Rightarrow> mmu_region \<Rightarrow> mmu_region" where
  "reprot a e q r = (if intersectsRange r a e then r\<lparr>rprot := q\<rparr> else r)"

lemma protect_step:
  assumes inv: "mmu_inv C m" and r: "r \<in> set (regions m)" and meets: "intersectsRange r a e"
  shows "protect_regions host a e q (rid r # ps) m =
    (if host_accepts host r q m then protect_regions host a e q ps (reprotected r q m) else Inl VerifyFailed)"
proof -
  let ?r = "r\<lparr>rprot := q\<rparr>"
  have "?r\<lparr>requiresMemsetToZero := False\<rparr> = ?r" using mmu_invD(5) [OF inv r] by (cases r) simp
  moreover have "settled_bytes ?r b = b" for b
    using mmu_invD(5) [OF inv r] by (simp add: settled_bytes_def)
  moreover have "put_region ?r (reprotected r q m) = reprotected r q m"
    by (rule put_same [OF mmu_inv_reprotected [OF inv r]]) (simp add: set_reprotected [OF inv r])
  moreover have "host_accepts host ?r q (reprotected r q m) = host_accepts host r q m"
    by (simp add: host_accepts_def reprotected_def notify_def put_region_def)
  ultimately show ?thesis
    using meets by (simp add: deref_rid [OF inv r] applyRegionProtection_eq flip: reprotected_def)
qed

lemma protect_regions_effect:
  assumes "mmu_inv C m" "distinct rs" "set rs \<subseteq> set (regions m)"
  shows "outcome (refused host m)
    (\<lambda>m'. mmu_inv C m' \<and> same_machine m m' \<and> nextRid m' = nextRid m \<and> mem_bytes m' = mem_bytes m
          \<and> set (regions m') = (set (regions m) - set rs) \<union> reprot a e q ` set rs)
    (protect_regions host a e q (map rid rs) m)"
  using assms
proof (induction rs arbitrary: m)
  case Nil
  then show ?case by simp
next
  case (Cons r rs)
  have inv: "mmu_inv C m" and r: "r \<in> set (regions m)" "r \<notin> set rs" "set rs \<subseteq> set (regions m)" "distinct rs"
    using Cons.prems by simp_all
  show ?case
  proof (cases "intersectsRange r a e")
    case False
    then have "protect_regions host a e q (map rid (r # rs)) m = protect_regions host a e q (map rid rs) m"
      by (simp add: deref_rid [OF inv r(1)])
    then show ?thesis
      using Cons.IH [OF inv r(4,3)] False r by (auto simp: reprot_def elim!: outcome_mono)
  next
    case True
    let ?m = "reprotected r q m"
    have inv1: "mmu_inv C ?m" by (rule mmu_inv_reprotected [OF inv r(1)])
    note set1 = set_reprotected [OF inv r(1), of q]
    have notin: "r\<lparr>rprot := q\<rparr> \<notin> set rs"
      using rid_inj [OF inv _ r(1), of "r\<lparr>rprot := q\<rparr>"] r(2,3) by auto
    have "set rs \<subseteq> set (regions ?m)" using set1 r(2,3) by auto
    note IH = Cons.IH [OF inv1 r(4) this, unfolded refused_same [OF reprotected_simps(1)] reprotected_simps(2,3)]
    have sets: "(set (regions ?m) - set rs) \<union> reprot a e q ` set rs
        = (set (regions m) - set (r # rs)) \<union> reprot a e q ` set (r # rs)"
      using set1 notin True by (auto simp: reprot_def)
    have acc: "host_accepts host r q m \<or> refused host m VerifyFailed"
      using host_grants_accepts [OF _ mmu_invD(3) [OF inv r(1)]] by (auto simp: refused_def)
    have "outcome (refused host m)
      (\<lambda>m'. mmu_inv C m' \<and> same_machine m m' \<and> nextRid m' = nextRid m \<and> mem_bytes m' = mem_bytes m
          \<and> set (regions m') = (set (regions m) - set (r # rs)) \<union> reprot a e q ` set (r # rs))
      (protect_regions host a e q (map rid rs) ?m)"
      by (rule outcome_mono [OF IH]) (auto simp only: sets intro: same_machine_trans [OF reprotected_simps(1)])
    then show ?thesis
      unfolding list.map protect_step [OF inv r(1) True] using acc by (cases "host_accepts host r q m") simp_all
  qed
qed

fun protect_extent :: "nat \<Rightarrow> nat \<Rightarrow> bit_flags \<Rightarrow> extent \<Rightarrow> extent" where
  "protect_extent b e q (l, h, p, n) = (l, h, if meets b e (l, h, p, n) then q else p, n)"

lemma view_reprot:
  assumes "mmu_inv C m" "r \<in> set (regions m)"
  shows "view (reprot a e q r) = protect_extent (unat a) (unat e) q (view r)"
  using meets_view [OF assms, of a e] by (simp add: reprot_def view_def rlo_def rhi_def)

lemma rid_reprot [simp]: "rid (reprot a e q r) = rid r"
  by (simp add: reprot_def)

lemma protect_all_effect:
  assumes inv: "mmu_inv C m"
  shows "outcome (refused host m)
    (effect C m (protect_extent (unat a) (unat e) q ` extents m) (mem_bytes m))
    (protect_regions host a e q (map rid (regions m)) m)"
proof (rule outcome_mono [OF protect_regions_effect [OF inv]])
  show "distinct (regions m)" using mmu_invD(7) [OF inv] by (simp add: distinct_map)
  fix m' assume m': "mmu_inv C m' \<and> same_machine m m' \<and> nextRid m' = nextRid m \<and> mem_bytes m' = mem_bytes m
    \<and> set (regions m') = set (regions m) - set (regions m) \<union> reprot a e q ` set (regions m)"
  then have "set (regions m') = reprot a e q ` set (regions m)" by simp
  then have "extents m' = protect_extent (unat a) (unat e) q ` extents m" "rid ` set (regions m') = rid ` set (regions m)"
    using view_reprot [OF inv, of _ a e q] by (auto simp: extents_def image_image)
  with m' show "effect C m (protect_extent (unat a) (unat e) q ` extents m) (mem_bytes m) m'"
    by (simp add: effect_def)
qed auto

section \<open>The contiguity check\<close>

definition owned :: "mmu_region list \<Rightarrow> nat \<Rightarrow> bool" where
  "owned rs x = (\<exists>r\<in>set rs. covers r x)"

lemma owned_Cons [simp]: "owned (r # rs) x \<longleftrightarrow> covers r x \<or> owned rs x"
  by (simp add: owned_def)

lemma owned_Nil [simp]: "\<not> owned [] x"
  by (simp add: owned_def)

definition chain :: "nat \<Rightarrow> mmu_region list \<Rightarrow> bool" where
  "chain M rs = (sorted_wrt (\<lambda>p q. rhi p \<le> rlo q) rs \<and> (\<forall>r\<in>set rs. region_ok M r))"

lemma chain_Cons:
  "chain M (r # rs) \<longleftrightarrow> region_ok M r \<and> (\<forall>q\<in>set rs. rhi r \<le> rlo q) \<and> chain M rs"
  by (auto simp: chain_def)

lemma owned_ge: "chain M rs \<Longrightarrow> \<forall>q\<in>set rs. l \<le> rlo q \<Longrightarrow> owned rs x \<Longrightarrow> l \<le> x"
  by (auto simp: owned_def covers_def)

lemma last_end_Some_aux:
  assumes "chain M rs" "M < 2 ^ 64" "\<forall>q\<in>set rs. unat l \<le> rlo q" "unat b < unat l"
  shows "(last_end b e (Some l) rs = None
      \<longleftrightarrow> (\<exists>z y. unat l \<le> z \<and> z < y \<and> y < unat e \<and> owned rs y \<and> \<not> owned rs z))
    \<and> last_end b e (Some l) rs \<noteq> Some None"
  using assms
proof (induction rs arbitrary: l)
  case (Cons r rs)
  have ok: "region_ok M r" and after: "\<forall>q\<in>set rs. rhi r \<le> rlo q" and ch: "chain M rs" and l: "unat l \<le> rlo r"
    using Cons.prems by (simp_all add: chain_Cons)
  note o = region_okD [OF ok] and M = Cons.prems(2)
  note ends = unat_rend [OF ok M]
  have meets: "intersectsRange r b e \<longleftrightarrow> rlo r < unat e"
    using intersectsRange_nat [OF ok M] l Cons.prems(4) o(3) by auto
  have above: "rhi r \<le> x" if "owned rs x" for x by (rule owned_ge [OF ch after that])
  have IH: "last_end b e (Some l') rs = None \<longleftrightarrow>
      (\<exists>z y. unat l' \<le> z \<and> z < y \<and> y < unat e \<and> owned rs y \<and> \<not> owned rs z)"
      "last_end b e (Some l') rs \<noteq> Some None"
    if "\<forall>q\<in>set rs. unat l' \<le> rlo q" "unat b < unat l'" for l'
    using Cons.IH [OF ch M that] by auto
  have low: "\<forall>q\<in>set rs. unat l \<le> rlo q" using after l o(3) by auto
  have hole: "last_end b e (Some l) (r # rs) = None
      \<longleftrightarrow> (\<exists>z y. unat l \<le> z \<and> z < y \<and> y < unat e \<and> owned (r # rs) y \<and> \<not> owned (r # rs) z)"
  proof (cases "rlo r < unat e")
    case False
    then have "\<not> owned (r # rs) y" if "y < unat e" for y
      using that above o(3) by (fastforce simp: covers_def)
    then show ?thesis using False meets IH(1) [OF low Cons.prems(4)] by auto
  next
    case True
    show ?thesis
    proof (cases "l = rbase r")
      case False
      then have "unat l < rlo r" using l by (simp add: rlo_def word_eq_iff_unat)
      moreover from this have "\<not> owned (r # rs) (unat l)" using above o(3) by (fastforce simp: covers_def)
      moreover have "owned (r # rs) (rlo r)" using o(3) by (simp add: covers_def)
      ultimately show ?thesis using True False meets by auto
    next
      case l': True
      have "unat b < unat (rend r)" using ends o(3) Cons.prems(4) l by simp
      note rec = IH(1) [of "rend r", unfolded ends, OF after this [unfolded ends]]
      have "last_end b e (Some l) (r # rs) = last_end b e (Some (rend r)) rs"
        using True meets l' by simp
      also have "\<dots> = None \<longleftrightarrow> (\<exists>z y. unat l \<le> z \<and> z < y \<and> y < unat e \<and> owned (r # rs) y \<and> \<not> owned (r # rs) z)"
      proof -
        have "rhi r \<le> z \<and> z < y \<and> owned rs y \<and> \<not> owned rs z
            \<longleftrightarrow> unat l \<le> z \<and> z < y \<and> owned (r # rs) y \<and> \<not> owned (r # rs) z" for z y
          using l' o(3) by (auto simp: covers_def rlo_def dest: above)
        then show ?thesis unfolding rec by blast
      qed
      finally show ?thesis .
    qed
  qed
  have "unat b < unat (rend r)" "\<forall>q\<in>set rs. unat (rend r) \<le> rlo q"
    using ends o(3) Cons.prems(4) l after by simp_all
  then have "last_end b e (Some l) (r # rs) \<noteq> Some None"
    using IH(2) [of l] IH(2) [of "rend r"] low Cons.prems(4) by simp
  with hole show ?case by blast
qed simp

lemmas last_end_Some = last_end_Some_aux [THEN conjunct1] last_end_Some_aux [THEN conjunct2]

lemma last_end_None_aux:
  assumes "chain M rs" "M < 2 ^ 64"
  shows "(last_end b e None rs = Some None \<longleftrightarrow> (\<forall>x. unat b \<le> x \<and> x < unat e \<longrightarrow> \<not> owned rs x))
    \<and> (last_end b e None rs = None \<longleftrightarrow>
      (\<exists>x z y. unat b \<le> x \<and> x < z \<and> z < y \<and> y < unat e \<and> owned rs x \<and> owned rs y \<and> \<not> owned rs z))"
  using assms
proof (induction rs)
  case (Cons r rs)
  have ok: "region_ok M r" and after: "\<forall>q\<in>set rs. rhi r \<le> rlo q" and ch: "chain M rs"
    using Cons.prems by (simp_all add: chain_Cons)
  note o = region_okD [OF ok] and M = Cons.prems(2)
  note ends = unat_rend [OF ok M]
  note meets = intersectsRange_nat [OF ok M, of b e]
  have above: "rhi r \<le> x" if "owned rs x" for x by (rule owned_ge [OF ch after that])
  have out: "\<not> covers r x" if "\<not> intersectsRange r b e" "unat b \<le> x" "x < unat e" for x
    using that meets by (auto simp: covers_def)
  have none: "last_end b e None (r # rs) = Some None \<longleftrightarrow> (\<forall>x. unat b \<le> x \<and> x < unat e \<longrightarrow> \<not> owned (r # rs) x)"
  proof (cases "intersectsRange r b e")
    case False
    then show ?thesis using Cons.IH [OF ch M, THEN conjunct1] out by auto
  next
    case True
    let ?x = "max (rlo r) (unat b)"
    have "unat b \<le> ?x \<and> ?x < unat e \<and> owned (r # rs) ?x"
      using True meets by (auto simp: covers_def)
    then have "\<not> (\<forall>x. unat b \<le> x \<and> x < unat e \<longrightarrow> \<not> owned (r # rs) x)" by blast
    moreover have "last_end b e (Some (rend r)) rs \<noteq> Some None"
      using True meets by (intro last_end_Some(2) [OF ch M]) (auto simp: ends after)
    ultimately show ?thesis using True by (simp only: last_end.simps if_False simp_thms)
  qed
  have "last_end b e None (r # rs) = None \<longleftrightarrow>
      (\<exists>x z y. unat b \<le> x \<and> x < z \<and> z < y \<and> y < unat e \<and> owned (r # rs) x \<and> owned (r # rs) y \<and> \<not> owned (r # rs) z)"
  proof (cases "intersectsRange r b e")
    case False
    have same: "owned (r # rs) w = owned rs w" if "unat b \<le> w" "w < unat e" for w
      using out [OF False that] by simp
    have "(unat b \<le> x \<and> x < z \<and> z < y \<and> y < unat e \<and> owned (r # rs) x \<and> owned (r # rs) y \<and> \<not> owned (r # rs) z)
      \<longleftrightarrow> (unat b \<le> x \<and> x < z \<and> z < y \<and> y < unat e \<and> owned rs x \<and> owned rs y \<and> \<not> owned rs z)" for x z y
    proof (cases "unat b \<le> x \<and> x < z \<and> z < y \<and> y < unat e")
      case range: True
      then show ?thesis using same [of x] same [of y] same [of z] by linarith
    next
      case range: False
      then show ?thesis by blast
    qed
    then show ?thesis using False Cons.IH [OF ch M, THEN conjunct2] by simp
  next
    case True
    let ?x = "max (rlo r) (unat b)"
    have x: "covers r ?x" "unat b \<le> ?x" "?x < rhi r" using True meets by (auto simp: covers_def)
    have "last_end b e (Some (rend r)) rs = None \<longleftrightarrow>
        (\<exists>z y. rhi r \<le> z \<and> z < y \<and> y < unat e \<and> owned rs y \<and> \<not> owned rs z)"
      using True meets last_end_Some(1) [OF ch M, of "rend r" b e] by (simp add: ends after)
    also have "\<dots> \<longleftrightarrow> (\<exists>x z y. unat b \<le> x \<and> x < z \<and> z < y \<and> y < unat e
        \<and> owned (r # rs) x \<and> owned (r # rs) y \<and> \<not> owned (r # rs) z)"
    proof
      assume "\<exists>z y. rhi r \<le> z \<and> z < y \<and> y < unat e \<and> owned rs y \<and> \<not> owned rs z"
      then obtain z y where "rhi r \<le> z" "z < y" "y < unat e" "owned rs y" "\<not> owned rs z" by blast
      then have "unat b \<le> ?x \<and> ?x < z \<and> z < y \<and> y < unat e \<and> owned (r # rs) ?x \<and> owned (r # rs) y
          \<and> \<not> owned (r # rs) z" using x by (simp add: covers_def)
      then show "\<exists>x z y. unat b \<le> x \<and> x < z \<and> z < y \<and> y < unat e
        \<and> owned (r # rs) x \<and> owned (r # rs) y \<and> \<not> owned (r # rs) z" by blast
    next
      assume "\<exists>x z y. unat b \<le> x \<and> x < z \<and> z < y \<and> y < unat e
        \<and> owned (r # rs) x \<and> owned (r # rs) y \<and> \<not> owned (r # rs) z"
      then obtain u z y where h: "unat b \<le> u" "u < z" "z < y" "y < unat e" "owned (r # rs) u" "owned (r # rs) y"
        "\<not> owned (r # rs) z" by blast
      then have "rhi r \<le> z" using above [of u] by (auto simp: covers_def)
      with h have "rhi r \<le> z \<and> z < y \<and> y < unat e \<and> owned rs y \<and> \<not> owned rs z" by (auto simp: covers_def)
      then show "\<exists>z y. rhi r \<le> z \<and> z < y \<and> y < unat e \<and> owned rs y \<and> \<not> owned rs z" by blast
    qed
    finally show ?thesis using True by simp
  qed
  with none show ?case by blast
qed simp

lemmas last_end_None = last_end_None_aux [THEN conjunct1] last_end_None_aux [THEN conjunct2]

section \<open>mprotect\<close>

lemma chain_regions: "mmu_inv C m \<Longrightarrow> chain (unat (memorySize m)) (regions m)"
  using mmu_invD(3,8) by (auto simp: chain_def)

text \<open>The range from \<open>b\<close> up to \<open>e\<close> holds a region, and no hole between two regions.\<close>

definition solid :: "nat \<Rightarrow> nat \<Rightarrow> mmu \<Rightarrow> bool" where
  "solid b e m = ((\<exists>x. b \<le> x \<and> x < e \<and> owned (regions m) x)
     \<and> (\<forall>x z y. b \<le> x \<and> x < z \<and> z < y \<and> y < e \<and> owned (regions m) x \<and> owned (regions m) y
          \<longrightarrow> owned (regions m) z))"

lemma last_end_solid:
  assumes inv: "mmu_inv C m"
  shows "(\<exists>l. last_end a e None (regions m) = Some (Some l)) \<longleftrightarrow> solid (unat a) (unat e) m"
proof -
  have M: "unat (memorySize m) < 2 ^ 64" using mmu_invD(1) [OF inv] by simp
  note le = last_end_None [OF chain_regions [OF inv] M, of a e]
  have split: "(\<exists>l. x = Some (Some l)) \<longleftrightarrow> \<not> x = Some None \<and> \<not> x = None" for x :: "u64 option option"
    by (cases x) auto
  show ?thesis unfolding split le solid_def by (simp only: not_all not_ex not_imp de_Morgan_conj not_not) auto
qed

lemma mprotect_effect:
  fixes a len :: u64
  assumes inv: "mmu_inv C m" and a: "page_aligned (unat a)"
  defines "e \<equiv> unat (a + pageRoundUp len)"
  shows "outcome (refused host m)
    (\<lambda>(res, m').
       if flag_test q PROT_EXEC \<and> flag_test q PROT_WRITE then res = - EACCES \<and> m' = m
       else if \<not> solid (unat a) e m then res = - ENOMEM \<and> m' = m
       else res = 0 \<and> effect C m (protect_extent (unat a) e q ` cut e (cut (unat a) (extents m))) (mem_bytes m) m')
    (mprotect host a len q m)"
proof (cases "flag_test q PROT_EXEC \<and> flag_test q PROT_WRITE")
  case True
  then show ?thesis using a by (simp add: mprotect_def isPageAligned_unat)
next
  case wx: False
  let ?e = "a + pageRoundUp len"
  show ?thesis
  proof (cases "solid (unat a) e m")
    case False
    then have "last_end a ?e None (regions m) = None \<or> last_end a ?e None (regions m) = Some None"
      using last_end_solid [OF inv, of a ?e] by (metis e_def not_None_eq)
    then show ?thesis using wx False a by (auto simp: mprotect_def isPageAligned_unat Let_def)
  next
    case True
    then obtain l where "last_end a ?e None (regions m) = Some (Some l)"
      using last_end_solid [OF inv, of a ?e] by (auto simp: e_def)
    then have unfold: "mprotect host a len q m =
       rbind (split_region host a m) (\<lambda>m1. rbind (split_region host ?e m1)
         (\<lambda>m2. rbind (protect_regions host a ?e q (map rid (regions m2)) m2) (\<lambda>m3. Inr (0, m3))))"
      using a unfolding mprotect_def if_not_P [OF wx] Let_def by (simp add: isPageAligned_unat)
    show ?thesis
      unfolding unfold
    proof (rule two_splits [OF inv a page_aligned_sum [OF a page_aligned_pageRoundUp]])
      fix m2 assume e2: "effect C m (cut (unat ?e) (cut (unat a) (extents m))) (mem_bytes m) m2"
      then have inv2: "mmu_inv C m2" and same: "same_machine m m2" by (simp_all add: effect_def)
      show "outcome (refused host m)
        (\<lambda>(res, m').
           if flag_test q PROT_EXEC \<and> flag_test q PROT_WRITE then res = - EACCES \<and> m' = m
           else if \<not> solid (unat a) e m then res = - ENOMEM \<and> m' = m
           else res = 0 \<and> effect C m (protect_extent (unat a) e q ` cut e (cut (unat a) (extents m))) (mem_bytes m) m')
        (rbind (protect_regions host a ?e q (map rid (regions m2)) m2) (\<lambda>m3. Inr (0, m3)))"
      proof (rule outcome_rbind [OF protect_all_effect [OF inv2, unfolded refused_same [OF same]]])
        fix m3 assume "effect C m2 (protect_extent (unat a) (unat ?e) q ` extents m2) (mem_bytes m2) m3"
        from effect_trans [OF e2 this] e2
        have "effect C m (protect_extent (unat a) e q ` cut e (cut (unat a) (extents m))) (mem_bytes m) m3"
          by (simp add: effect_def e_def)
        then show "outcome (refused host m)
          (\<lambda>(res, m').
             if flag_test q PROT_EXEC \<and> flag_test q PROT_WRITE then res = - EACCES \<and> m' = m
             else if \<not> solid (unat a) e m then res = - ENOMEM \<and> m' = m
             else res = 0 \<and> effect C m (protect_extent (unat a) e q ` cut e (cut (unat a) (extents m))) (mem_bytes m) m')
          (Inr (0, m3))" unfolding outcome_simps prod.case if_not_P [OF wx] using True by simp
      qed
    qed
  qed
qed

section \<open>Naming a region\<close>

lemma setRegionName_effect:
  assumes inv: "mmu_inv C m"
  shows "case region_at (regions m) (unat a) of
      None \<Rightarrow> setRegionName a name m = Inl VerifyFailed
    | Some r \<Rightarrow> \<exists>m'. setRegionName a name m = Inr m'
        \<and> effect C m (insert (rlo r, rhi r, rprot r, name) (extents m - {view r})) (mem_bytes m) m'"
proof (cases "region_at (regions m) (unat a)")
  case None
  then show ?thesis by (simp add: setRegionName_def findAddress_at [OF inv])
next
  case (Some r)
  then have r: "r \<in> set (regions m)" using region_at_SomeD by blast
  let ?r = "r\<lparr>rname := name\<rparr>" and ?m = "put_region (r\<lparr>rname := name\<rparr>) m"
  have set: "set (regions ?m) = insert ?r (set (regions m) - {r})"
    by (rule set_put_region [OF inv r]) simp
  have "shape_of ` set (regions ?m) = shape_of ` set (regions m)"
    using r unfolding set by (auto simp: shape_of_def)
  then have "mmu_inv C (?m\<lparr>events := events m\<rparr>)"
    using mmu_invD(4,5) [OF inv r] mmu_invD(13) [OF inv] by (intro put_region_frame [OF inv r]) simp_all
  moreover have "?m\<lparr>events := events m\<rparr> = ?m" by (simp add: put_region_def)
  ultimately have "mmu_inv C ?m" by simp
  moreover have "extents ?m = insert (view ?r) (extents m - {view r})"
    using view_inj [OF inv _ r] r by (auto simp: extents_def set)
  moreover have "rid ` set (regions ?m) = rid ` set (regions m)" using r by (auto simp: set)
  moreover have "view ?r = (rlo r, rhi r, rprot r, name)" by (simp add: view_def rlo_def rhi_def)
  ultimately have "effect C m (insert (rlo r, rhi r, rprot r, name) (extents m - {view r})) (mem_bytes m) ?m"
    by (simp add: effect_def) (simp add: put_region_def same_machine_def)
  then show ?thesis
    using Some by (simp add: setRegionName_def findAddress_at [OF inv] deref_rid [OF inv r])
qed

section \<open>Clearing\<close>

lemma taken_bytes [simp]: "mem_bytes (taken r m) = mem_bytes m" "nextRid (taken r m) = nextRid m"
  by (simp_all add: taken_def)

lemma clear_loop_effect:
  assumes "mmu_inv C m" "i = length (regions m)"
  shows "outcome (refused host m) (\<lambda>m'. mmu_inv C m' \<and> same_machine m m' \<and> regions m' = [] \<and> mem_bytes m' = mem_bytes m)
    (clear_loop host i m)"
  using assms
proof (induction i arbitrary: m)
  case (Suc i)
  have inv: "mmu_inv C m" and i: "i < length (regions m)" using Suc.prems by simp_all
  define r where "r = regions m ! i"
  have r: "r \<in> set (regions m)" using i by (simp add: r_def)
  have len: "length (regions (taken r m)) = i"
  proof -
    have "length (regions (taken r m)) = card (set (regions (taken r m)))"
      using mmu_invD(7) [OF mmu_inv_taken [OF inv r]] by (simp add: distinct_map distinct_card)
    also have "\<dots> = card (set (regions m)) - 1" by (simp add: set_taken [OF inv r] r)
    also have "\<dots> = i"
      using mmu_invD(7) [OF inv] Suc.prems(2) by (simp add: distinct_map distinct_card)
    finally show ?thesis .
  qed
  have IH: "outcome (refused host m) (\<lambda>m'. mmu_inv C m' \<and> same_machine m m' \<and> regions m' = [] \<and> mem_bytes m' = mem_bytes m)
      (clear_loop host i (taken r m))"
    by (rule outcome_mono [OF Suc.IH [OF mmu_inv_taken [OF inv r] len [symmetric]]])
       (auto simp: refused_same [OF same_machine_simps(2)] taken_bytes
         intro: same_machine_trans [OF same_machine_simps(2)])
  show ?case
    using i unfolding clear_loop.simps r_def [symmetric] if_P [OF i]
    by (intro outcome_rbind [OF takeRegion_effect [OF inv r]]) (use IH in auto)
qed simp

section \<open>The program break\<close>

definition page_ceil :: "nat \<Rightarrow> nat" where
  "page_ceil x = (x + 4095) div 4096 * 4096"

lemma page_ceil_ge: "x \<le> page_ceil x"
  unfolding page_ceil_def by linarith

lemma page_ceil_aligned: "page_aligned (page_ceil x)"
  by (simp add: page_ceil_def page_aligned_def)

lemma page_ceil_le:
  assumes "page_aligned b" "x \<le> b" shows "page_ceil x \<le> b"
proof -
  obtain k where k: "b = 4096 * k" using assms(1) by (auto simp: page_aligned_def elim: dvdE)
  then have "(x + 4095) div 4096 < k + 1" using assms(2) by (simp add: div_less_iff_less_mult)
  then show ?thesis by (simp add: k page_ceil_def)
qed

lemma page_ceil_shift:
  assumes "page_aligned h" shows "page_ceil (h + x) = h + page_ceil x"
proof -
  obtain k where k: "h = 4096 * k" using assms by (auto simp: page_aligned_def elim: dvdE)
  have "h + x + 4095 = (x + 4095) + k * 4096" by (simp add: k)
  then have "(h + x + 4095) div 4096 = (x + 4095) div 4096 + k" by (simp only: div_mult_self1)
  then show ?thesis by (simp add: page_ceil_def k)
qed

lemma page_ceil_pos: "0 < x \<Longrightarrow> 0 < page_ceil x"
  using page_ceil_ge [of x] by simp

text \<open>When the break stays where it is.\<close>

definition break_stays :: "u64 \<Rightarrow> mmu_region \<Rightarrow> mmu \<Rightarrow> bool" where
  "break_stays a r m =
     (a = rend r \<or> a > memorySize m
      \<or> list_ex (\<lambda>q. q \<noteq> r \<and> covers q (unat a)) (regions m)
      \<or> list_ex (\<lambda>q. q \<noteq> r \<and> rhi r \<le> rlo q \<and> rhi q \<le> unat a) (regions m))"

lemma brk_unfold:
  assumes inv: "mmu_inv C m" and heap: "findRegion ''heap'' m = Some r"
  shows "brk host a m = (if break_stays a r m then Inr (rend r, m)
    else if a > rend r then brk_grow host a m else brk_shrink host a m)"
proof -
  have M: "unat (memorySize m) < 2 ^ 64" using mmu_invD(1) [OF inv] by simp
  have r: "r \<in> set (regions m)" using heap unfolding findRegion_def by (metis find_Some_iff nth_mem)
  have other: "(region_at (regions m) (unat a) \<noteq> None \<and> map_option rid (region_at (regions m) (unat a)) \<noteq> Some (rid r))
      = list_ex (\<lambda>q. q \<noteq> r \<and> covers q (unat a)) (regions m)"
  proof (cases "region_at (regions m) (unat a)")
    case None
    then show ?thesis by (auto simp: region_at_None list_ex_iff)
  next
    case (Some q)
    have uniq: "p \<in> set (regions m) \<and> covers p (unat a) \<longleftrightarrow> p = q" for p
      using region_at_eq [OF mmu_invD(8) [OF inv], of "unat a" p] Some by auto
    then have q: "q \<in> set (regions m)" and ex: "list_ex (\<lambda>p. p \<noteq> r \<and> covers p (unat a)) (regions m) = (q \<noteq> r)"
      unfolding list_ex_iff by blast+
    show ?thesis unfolding ex using rid_inj [OF inv q r] Some by auto
  qed
  have blocked: "list_ex (\<lambda>q. rid q \<noteq> rid r \<and> rend r \<le> rbase q \<and> rend q \<le> a) (regions m)
      = list_ex (\<lambda>q. q \<noteq> r \<and> rhi r \<le> rlo q \<and> rhi q \<le> unat a) (regions m)"
    unfolding list_ex_iff
  proof (rule bex_cong [OF refl])
    fix q assume q: "q \<in> set (regions m)"
    have "rid q = rid r \<longleftrightarrow> q = r" using rid_inj [OF inv q r] by auto
    then show "(rid q \<noteq> rid r \<and> rend r \<le> rbase q \<and> rend q \<le> a) = (q \<noteq> r \<and> rhi r \<le> rlo q \<and> rhi q \<le> unat a)"
      using unat_rend [OF mmu_invD(3) [OF inv q] M] unat_rend [OF mmu_invD(3) [OF inv r] M]
      by (simp add: word_le_nat_alt rlo_def)
  qed
  show ?thesis
    unfolding brk_def heap option.case Let_def findAddress_at [OF inv] rbind_simps break_stays_def blocked
    using other by (simp add: o_def)
qed

lemma setEnd_unat:
  assumes ok: "region_ok M r" "M < 2 ^ 52" and a: "rlo r < unat a" "unat a \<le> rhi r"
  shows "unat (pageRoundUp (rsize r + a - rend r)) = page_ceil (unat a - rlo r)"
proof -
  have eq: "rsize r + a - rend r = a - rbase r" by (simp add: rend_def)
  have "unat (a - rbase r) = unat a - rlo r" using a(1) by (simp add: unat_sub_no_wrap rlo_def)
  moreover have "unat a - rlo r + 4095 < 2 ^ 64" using a region_okD(4) [OF ok(1)] ok(2) by simp
  ultimately show ?thesis unfolding eq by (simp add: unat_pageRoundUp page_ceil_def)
qed

lemma pageRoundUp_ceil:
  "unat a + 4095 < 2 ^ 64 \<Longrightarrow> unat (pageRoundUp a) = page_ceil (unat a)"
  by (simp add: unat_pageRoundUp page_ceil_def)

definition resized :: "mmu_region \<Rightarrow> u64 \<Rightarrow> mmu_region" where
  "resized r sz = r\<lparr>activated := False, rsize := sz\<rparr>"

lemma resized_simps [simp]:
  "rid (resized r s) = rid r" "rbase (resized r s) = rbase r" "rlo (resized r s) = rlo r"
  "rhi (resized r s) = rlo r + unat s" "rprot (resized r s) = rprot r" "rname (resized r s) = rname r"
  "requiresMemsetToZero (resized r s) = requiresMemsetToZero r" "rsize (resized r s) = s"
  "view (resized r s) = (rlo r, rlo r + unat s, rprot r, rname r)"
  by (simp_all add: resized_def rlo_def rhi_def view_def)

lemma effect_resized:
  assumes inv: "mmu_inv C m" and r: "r \<in> set (regions m)"
    and eff: "effect C m (extents m - {view r}) b m1"
    and X: "\<not> collides (rlo r) (rlo r + unat s) (extents m - {view r})"
    and ok: "region_ok (unat (memorySize m)) (resized r s)" and rid: "rid r \<notin> rid ` set (regions m1)"
  shows "outcome (refused host m)
    (effect C m (insert (rlo r, rlo r + unat s, rprot r, rname r) (extents m - {view r})) b)
    (addRegion host (resized r s) m1)"
proof -
  have inv1: "mmu_inv C m1" and same: "same_machine m m1" and n: "nextRid m \<le> nextRid m1"
    and E1: "extents m1 = extents m - {view r}" and b: "mem_bytes m1 = b"
    using eff by (simp_all add: effect_def)
  have fresh: "fresh_region (resized r s) m1"
    using ok rid n mmu_invD(6) [OF inv r] same by (simp add: fresh_region_def same_machine_def)
  have "rid ` set (regions (added (resized r s) m1)) \<subseteq> rid ` set (regions m) \<union> {nextRid m..}"
    using eff r by (auto simp: effect_def added_def)
  then have "effect C m (insert (rlo r, rlo r + unat s, rprot r, rname r) (extents m - {view r})) b (added (resized r s) m1)"
    if "mmu_inv C (added (resized r s) m1)"
    using that E1 b same n mmu_invD(5) [OF inv r]
    by (simp add: effect_def) (simp add: added_def same_machine_def settled_bytes_def)
  then show ?thesis
    by (intro outcome_mono [OF add_fresh [OF inv1 fresh]])
       (use X E1 host_grants_same [OF same] in \<open>auto simp: refused_def\<close>)
qed

lemma taken_effect:
  assumes "mmu_inv C m" "r \<in> set (regions m)"
  shows "effect C m (extents m - {view r}) (mem_bytes m) (taken r m)" "rid r \<notin> rid ` set (regions (taken r m))"
  using mmu_inv_taken [OF assms] extents_taken [OF assms] set_taken [OF assms] rid_inj [OF assms(1) _ assms(2)]
  by (auto simp: effect_def)

lemma take_named:
  assumes inv: "mmu_inv C m" and heap: "findRegion name m = Some r"
  shows "r \<in> set (regions m)" "rname r = name"
    "outcome (refused host m) (\<lambda>(x, m'). x = Some (r\<lparr>activated := False\<rparr>) \<and> m' = taken r m)
       (takeRegion_named host name m)"
proof -
  show r: "r \<in> set (regions m)" and "rname r = name"
    using heap unfolding findRegion_def by (auto simp: find_Some_iff)
  have "takeRegion_named host name m
      = (if host_accepts host r 0 m then Inr (Some (r\<lparr>activated := False\<rparr>), taken r m) else Inl VerifyFailed)"
    using take_first_eq [OF inv, of "\<lambda>r. rname r = name" r host] heap
    by (simp add: takeRegion_named_def findRegion_def)
  then show "outcome (refused host m) (\<lambda>(x, m'). x = Some (r\<lparr>activated := False\<rparr>) \<and> m' = taken r m)
       (takeRegion_named host name m)"
    using host_grants_accepts [OF _ mmu_invD(3) [OF inv r]] by (auto simp: refused_def)
qed

lemma brk_shrink_effect:
  assumes inv: "mmu_inv C m" and heap: "findRegion ''heap'' m = Some r"
    and a: "rlo r < unat a" "unat a \<le> rhi r"
  shows "outcome (refused host m)
    (\<lambda>(res, m'). unat res = page_ceil (unat a)
       \<and> effect C m (insert (rlo r, page_ceil (unat a), rprot r, ''heap'') (extents m - {view r})) (mem_bytes m) m')
    (brk_shrink host a m)"
proof -
  note t = take_named [OF inv heap]
  note r = t(1) and name = t(2)
  note ok = mmu_invD(3) [OF inv r] and M = mmu_invD(1) [OF inv]
  note o = region_okD [OF ok]
  define s where "s = pageRoundUp (rsize r + a - rend r)"
  have s: "unat s = page_ceil (unat a - rlo r)" unfolding s_def by (rule setEnd_unat [OF ok M a])
  have top: "rlo r + unat s = page_ceil (unat a)"
    using page_ceil_shift [OF o(1), of "unat a - rlo r"] a(1) s by simp
  have le: "page_ceil (unat a) \<le> rhi r" by (rule page_ceil_le [OF o(2) a(2)])
  have ok': "region_ok (unat (memorySize m)) (resized r s)"
    using o(1) page_ceil_aligned page_ceil_pos [of "unat a - rlo r"] a(1) s top le o(4)
    by (simp add: region_ok_def)
  have X: "\<not> collides (rlo r) (rlo r + unat s) (extents m - {view r})"
  proof -
    have "\<not> meets (rlo r) (page_ceil (unat a)) (view q)" if "q \<in> set (regions m)" "q \<noteq> r" for q
      using apart_regions [OF inv that(1) r that(2)] le by (auto simp: disjoint_regions_def view_def)
    then show ?thesis unfolding collides_def extents_def top by blast
  qed
  have set_end: "setEnd (r\<lparr>activated := False\<rparr>) a = Inr (resized r s)"
    by (simp add: setEnd_def verifyNotActivated_def resized_def s_def rend_def)
  have res: "unat (rend (resized r s)) = page_ceil (unat a)"
    using unat_rend [OF ok'] M by (simp add: top)
  note add = effect_resized [OF inv r taken_effect(1) [OF inv r] X ok' taken_effect(2) [OF inv r], of host]
  show ?thesis
    unfolding brk_shrink_def
  proof (rule outcome_rbind [OF t(3)], clarsimp simp: set_end)
    show "outcome (refused host m)
      (\<lambda>(res, m'). unat res = page_ceil (unat a)
         \<and> effect C m (insert (rlo r, page_ceil (unat a), rprot r, ''heap'') (extents m - {view r})) (mem_bytes m) m')
      (rbind (addRegion host (resized r s) (taken r m)) (\<lambda>m. Inr (rend (resized r s), m)))"
      by (rule outcome_rbind [OF add]) (simp add: res top name)
  qed
qed

text \<open>Adding a zeroed extension and taking it back only zeroes its bytes.\<close>

lemma extension_round_trip:
  assumes inv: "mmu_inv C m" and ok: "region_ok (unat (memorySize m)) (map_region base L q (nextRid m))"
    and X: "\<not> collides (unat base) (unat base + unat L) (extents m)"
    and mx: "mx = m\<lparr>nextRid := Suc (nextRid m)\<rparr>" and x: "x = map_region base L q (nextRid m)"
    and m2: "m2 = taken (active x) (added x mx)"
  shows "outcome (refused host m) (\<lambda>m'. m' = added x mx) (addRegion host x mx)"
    "outcome (refused host m) (\<lambda>(y, m'). y = Some ((active x)\<lparr>activated := False\<rparr>) \<and> m' = m2)
       (takeRegion host base L (added x mx))"
    "mmu_inv C m2" "extents m2 = extents m" "mem_bytes m2 = memset_zero base L (mem_bytes m)"
    "same_machine m m2" "nextRid m2 = Suc (nextRid m)" "set (regions m2) = set (regions m)"
proof -
  have invx: "mmu_inv C mx" unfolding mx by (rule mmu_inv_nextRid [OF inv])
  have samex: "same_machine m mx" by (simp add: mx)
  have Ex: "extents mx = extents m" by (simp add: mx extents_def)
  have new: "nextRid m \<notin> rid ` set (regions m)" using mmu_invD(6) [OF inv] by (metis imageE less_irrefl)
  then have fresh: "fresh_region x mx" using ok by (simp add: fresh_region_def mx x)
  have X': "\<not> collides (rlo x) (rhi x) (extents mx)" using X by (simp add: Ex x)
  show "outcome (refused host m) (\<lambda>m'. m' = added x mx) (addRegion host x mx)"
    by (rule outcome_mono [OF add_fresh [OF invx fresh]])
       (use X' in \<open>auto simp: refused_def host_grants_same [OF samex]\<close>)
  have dis: "\<forall>p\<in>set (regions mx). disjoint_regions p x"
    using X' disjoint_all_collides [OF invx, of _ x] fresh by (auto simp: fresh_region_def)
  have inv1: "mmu_inv C (added x mx)" by (rule mmu_inv_added [OF invx fresh dis])
  have same1: "same_machine m (added x mx)" by (rule same_machine_trans [OF samex]) simp
  have mem: "active x \<in> set (regions (added x mx))" by (simp add: added_def)
  have bs: "rbase (active x) = base" "rsize (active x) = L" by (simp_all add: x)
  show "outcome (refused host m) (\<lambda>(y, m'). y = Some ((active x)\<lparr>activated := False\<rparr>) \<and> m' = m2)
       (takeRegion host base L (added x mx))"
    using takeRegion_effect [OF inv1 mem, of host, unfolded bs refused_same [OF same1]]
    by (auto simp: m2 elim!: outcome_mono)
  show "mmu_inv C m2" unfolding m2 by (rule mmu_inv_taken [OF inv1 mem])
  show set: "set (regions m2) = set (regions m)"
    unfolding m2 set_taken [OF inv1 mem]
    using new by (auto simp: added_def mx x dest: imageI [of _ _ rid])
  show "extents m2 = extents m" by (simp add: extents_def set)
  show "mem_bytes m2 = memset_zero base L (mem_bytes m)" by (simp add: m2 added_def mx x)
  show "same_machine m m2" unfolding m2 by (rule same_machine_trans [OF same1]) simp
  show "nextRid m2 = Suc (nextRid m)" by (simp add: m2) (simp add: added_def mx)
qed

lemma free_above_heap:
  assumes inv: "mmu_inv C m" and r: "r \<in> set (regions m)" and a: "rhi r < unat a"
    and stay: "\<not> break_stays a r m"
  shows "\<not> collides (rlo r) (page_ceil (unat a)) (extents m - {view r})"
proof -
  have "\<not> meets (rlo r) (page_ceil (unat a)) (view q)" if q: "q \<in> set (regions m)" "q \<noteq> r" for q
  proof -
    note ok = mmu_invD(3) [OF inv q(1)] and okr = region_okD [OF mmu_invD(3) [OF inv r]]
    note o = region_okD [OF ok]
    have "\<not> covers q (unat a)" "\<not> (rhi r \<le> rlo q \<and> rhi q \<le> unat a)"
      using stay q by (auto simp: break_stays_def list_ex_iff)
    with apart_regions [OF inv q(1) r q(2)] o(3) a have "rhi q \<le> rlo r \<or> unat a \<le> rlo q"
      by (auto simp: covers_def disjoint_regions_def)
    then show ?thesis
      using page_ceil_le [OF o(1), of "unat a"] by (auto simp: view_def)
  qed
  then show ?thesis unfolding collides_def extents_def by blast
qed

lemma outcome_rbind_eq:
  "outcome P (\<lambda>x. x = v) res \<Longrightarrow> outcome P R (f v) \<Longrightarrow> outcome P R (rbind res f)"
  by (cases res) simp_all

lemma collides_mono:
  assumes "collides b' e' E" "b \<le> b'" "e' \<le> e" shows "collides b e E"
proof -
  from assms(1) obtain l h p n where "(l, h, p, n) \<in> E" "meets b' e' (l, h, p, n)" by (auto simp: collides_def)
  then show ?thesis using assms(2,3) unfolding collides_def by (intro bexI [of _ "(l, h, p, n)"]) auto
qed

lemma brk_grow_effect:
  assumes inv: "mmu_inv C m" and heap: "findRegion ''heap'' m = Some r"
    and a: "rhi r < unat a" "unat a \<le> unat (memorySize m)" and stay: "\<not> break_stays a r m"
  shows "outcome (\<lambda>x. x = VerifyFailed \<and> (host_grants host m \<longrightarrow> rprot r \<noteq> flag_add PROT_READ PROT_WRITE))
    (\<lambda>(res, m'). unat res = page_ceil (unat a)
       \<and> effect C m (insert (rlo r, page_ceil (unat a), rprot r, ''heap'') (extents m - {view r}))
           (memset_zero (rend r) (res - rend r) (mem_bytes m)) m')
    (brk_grow host a m)"
proof -
  let ?P = "\<lambda>x. x = VerifyFailed \<and> (host_grants host m \<longrightarrow> rprot r \<noteq> flag_add PROT_READ PROT_WRITE)"
  note t = take_named [OF inv heap]
  note r = t(1) and name = t(2)
  note ok = mmu_invD(3) [OF inv r] and M = mmu_invD(1) [OF inv]
  note o = region_okD [OF ok]
  have M64: "unat (memorySize m) < 2 ^ 64" using M by simp
  note rend = unat_rend [OF ok M64]
  let ?S = "pageRoundUp (a - rend r)"
  have S: "unat ?S = page_ceil (unat a - rhi r)"
  proof -
    have "unat (a - rend r) = unat a - rhi r" using a(1) by (simp add: unat_sub_no_wrap rend)
    then show ?thesis using a M by (subst pageRoundUp_ceil) simp_all
  qed
  have top: "rhi r + unat ?S = page_ceil (unat a)"
    using page_ceil_shift [OF o(2), of "unat a - rhi r"] a(1) S by simp
  have le: "page_ceil (unat a) \<le> unat (memorySize m)" by (rule page_ceil_le [OF mmu_invD(2) [OF inv] a(2)])
  have pos: "0 < unat ?S" using S a(1) page_ceil_pos [of "unat a - rhi r"] by simp
  have Sal: "page_aligned (unat ?S)" by (rule page_aligned_pageRoundUp)
  define m1 where "m1 = taken r m"
  note e1 = taken_effect [OF inv r, folded m1_def]
  have inv1: "mmu_inv C m1" and same1: "same_machine m m1" and E1: "extents m1 = extents m - {view r}"
    and b1: "mem_bytes m1 = mem_bytes m" and mem1: "memorySize m1 = memorySize m"
    using e1(1) by (simp_all add: effect_def same_machine_def)
  define x where "x = map_region (rend r) ?S (flag_add PROT_READ PROT_WRITE) (nextRid m1)"
  define mx where "mx = m1\<lparr>nextRid := Suc (nextRid m1)\<rparr>"
  define m2 where "m2 = taken (active x) (added x mx)"
  have okx: "region_ok (unat (memorySize m1)) (map_region (rend r) ?S (flag_add PROT_READ PROT_WRITE) (nextRid m1))"
    using o(2) Sal pos top le by (simp add: region_ok_def rend mem1)
  have free: "\<not> collides (rlo r) (page_ceil (unat a)) (extents m - {view r})"
    by (rule free_above_heap [OF inv r a(1) stay])
  then have Xx: "\<not> collides (unat (rend r)) (unat (rend r) + unat ?S) (extents m1)"
    using collides_mono [of "rhi r" "page_ceil (unat a)" _ "rlo r"] o(3) unfolding E1 rend top by auto
  note ext = extension_round_trip [OF inv1 okx Xx mx_def x_def m2_def, unfolded refused_same [OF same1]]
  have make: "makeRegion (rend r) ?S (flag_add PROT_READ PROT_WRITE) m1 = Inr (x\<lparr>requiresMemsetToZero := False\<rparr>, mx)"
  proof -
    have "unat (rend r + ?S) = rhi r + unat ?S" using top le M by (simp add: unat_add_no_wrap rend)
    then have "rend r + ?S \<le> memorySize m1" using top le by (simp add: word_le_nat_alt mem1)
    then show ?thesis
      using o(2) Sal by (simp add: makeRegion_def isPageAligned_unat rend new_region_def x_def mx_def map_region_def)
  qed
  have again: "x\<lparr>requiresMemsetToZero := False, requiresMemsetToZero := True\<rparr> = x" by (simp add: x_def map_region_def)
  define s where "s = rsize r + ?S"
  have s: "rlo r + unat s = page_ceil (unat a)"
  proof -
    have "unat (rsize r) + unat ?S < 2 ^ 64" using top le M by (simp add: rhi_def)
    then show ?thesis using top by (simp add: s_def unat_add_no_wrap rhi_def rlo_def)
  qed
  have "page_aligned (unat s)"
  proof -
    have "unat s = page_ceil (unat a) - rlo r" using s by simp
    then show ?thesis by (simp add: page_aligned_diff page_ceil_aligned o(1))
  qed
  then have ok': "region_ok (unat (memorySize m)) (resized r s)"
    using o(1,3) a(1) page_ceil_ge [of "unat a"] s le by (simp add: region_ok_def)
  have e2: "effect C m (extents m - {view r}) (memset_zero (rend r) ?S (mem_bytes m)) m2"
    using ext(3-8) e1(1) by (auto simp: effect_def b1 E1 intro: same_machine_trans)
  have rid2: "rid r \<notin> rid ` set (regions m2)" using ext(8) e1(2) by simp
  have add: "outcome (refused host m)
      (effect C m (insert (rlo r, page_ceil (unat a), rprot r, rname r) (extents m - {view r}))
        (memset_zero (rend r) ?S (mem_bytes m)))
      (addRegion host (resized r s) m2)"
    using effect_resized [OF inv r e2 _ ok' rid2, of host] free by (simp add: s)
  have res: "unat (rend (resized r s)) = page_ceil (unat a)" "rend (resized r s) - rend r = ?S"
    using unat_rend [OF ok'] M by (simp_all add: s) (simp add: rend_def s_def)
  have P: "refused host m e \<Longrightarrow> ?P e" for e by (simp add: refused_def)
  have append: "append_region (r\<lparr>activated := False\<rparr>) ((active x)\<lparr>activated := False\<rparr>)
      = (if rprot r = flag_add PROT_READ PROT_WRITE then Inr (resized r s) else Inl VerifyFailed)"
    by (auto simp: append_region_def verifyNotActivated_def rend_def x_def active_def map_region_def resized_def
        s_def verify_def)
  have last: "outcome ?P
      (effect C m (insert (rlo r, page_ceil (unat a), rprot r, rname r) (extents m - {view r}))
        (memset_zero (rend r) ?S (mem_bytes m)))
      (addRegion host (resized r s) m2)"
    by (rule outcome_mono [OF add]) (simp_all add: refused_def)
  show ?thesis
    unfolding brk_grow_def Let_def
   apply (rule outcome_rbind [OF outcome_mono [OF t(3) P]], assumption, assumption)
   apply (clarsimp simp: the_region_def make again rend_def [of "r\<lparr>activated := False\<rparr>"]
       simp flip: rend_def m1_def)
   apply (rule outcome_rbind_eq [OF outcome_mono [OF ext(1) P]], assumption, assumption)
   apply (rule outcome_rbind_eq [where v = "(Some ((active x)\<lparr>activated := False\<rparr>), m2)"])
    apply (rule outcome_mono [OF ext(2) P], assumption, blast)
   apply (unfold prod.case option.case rbind_simps append)
   apply (split if_split, intro conjI impI; unfold rbind_simps)
    apply (rule outcome_rbind [OF last], simp add: res name)
   apply simp
   done
qed

lemma pageRoundUp_wraps: "unat (pageRoundUp x) = 0 \<or> unat x \<le> unat (pageRoundUp x)"
proof (cases "unat x + 4095 < 2 ^ 64")
  case True
  then show ?thesis using page_ceil_ge [of "unat x"] by (simp add: pageRoundUp_ceil)
next
  case False
  have lt: "unat x < 2 ^ 64" using unat_lt_2p [of x] by simp
  have "x + PAGE_SIZE - 1 = x + 4095" by (simp add: PAGE_SIZE_def)
  moreover have "unat (4095 :: u64) = 4095" by simp
  ultimately have "unat (x + PAGE_SIZE - 1) = (unat x + 4095) mod 2 ^ 64"
    using unat_word_ariths(1) [of x 4095] by (simp only: len_num64)
  also have "\<dots> = unat x + 4095 - 2 ^ 64" using False lt by (simp add: le_mod_geq)
  also have "\<dots> < 4096" using lt by linarith
  finally have "unat ((x + PAGE_SIZE - 1) div PAGE_SIZE) = 0" by (simp only: unat_div_page div_less)
  then have "(x + PAGE_SIZE - 1) div PAGE_SIZE = 0" by (simp only: unat_eq_0)
  then show ?thesis by (simp only: pageRoundUp_def) simp
qed

text \<open>Moving the break below the heap fails: the new size wraps around.\<close>

lemma brk_below:
  assumes inv: "mmu_inv C m" and heap: "findRegion ''heap'' m = Some r" and a: "unat a \<le> rlo r"
  shows "brk_shrink host a m = Inl VerifyFailed"
proof -
  note t = take_named [OF inv heap]
  note r = t(1)
  define s where "s = pageRoundUp (rsize r + a - rend r)"
  have x: "rsize r + a - rend r = a - rbase r" by (simp add: rend_def)
  have "rsize (resized r s) = 0 \<or> 2 ^ 64 \<le> unat (rbase (resized r s)) + unat (rsize (resized r s))"
  proof (cases "unat s = 0")
    case False
    then have le: "unat (a - rbase r) \<le> unat s"
      using pageRoundUp_wraps [of "a - rbase r"] by (simp add: s_def x)
    have ne: "a \<noteq> rbase r"
    proof
      assume "a = rbase r"
      then have "a - rbase r = 0" by simp
      then have "s = pageRoundUp 0" unfolding s_def x by (simp only:)
      then have "s = 0" by (simp add: pageRoundUp_def PAGE_SIZE_def)
      with False show False by simp
    qed
    then have "unat a < unat (rbase r)" using a by (auto simp: rlo_def word_eq_iff_unat)
    moreover have "unat (a - rbase r) = 2 ^ 64 + unat a - unat (rbase r)"
      using calculation unat_lt_2p [of "rbase r"] by (simp add: unat_sub_if')
    ultimately have "2 ^ 64 \<le> unat (rbase r) + unat s" using le by linarith
    then show ?thesis by (simp only: resized_simps) simp
  qed (simp add: unat_eq_0)
  note w = addRegion_wraps [OF sorted_regions [OF mmu_inv_taken [OF inv r]] this, of host]
  have set_end: "setEnd (r\<lparr>activated := False\<rparr>) a = Inr (resized r s)"
    by (simp add: setEnd_def verifyNotActivated_def resized_def s_def rend_def)
  have "outcome (\<lambda>x. x = VerifyFailed) (\<lambda>_. False) (brk_shrink host a m)"
    unfolding brk_shrink_def
    by (rule outcome_rbind_eq [where v = "(Some (r\<lparr>activated := False\<rparr>), taken r m)"],
        rule outcome_mono [OF t(3)]) (auto simp: refused_def set_end w)
  then show ?thesis by (cases "brk_shrink host a m") auto
qed

lemma brk_effect:
  assumes inv: "mmu_inv C m" and heap: "findRegion ''heap'' m = Some r"
  shows "outcome
    (\<lambda>x. x = VerifyFailed \<and> (host_grants host m \<longrightarrow> \<not> break_stays a r m
          \<and> (unat a \<le> rlo r \<or> (rhi r < unat a \<and> rprot r \<noteq> flag_add PROT_READ PROT_WRITE))))
    (\<lambda>(res, m').
       if break_stays a r m then res = rend r \<and> m' = m
       else rlo r < unat a \<and> unat res = page_ceil (unat a)
         \<and> effect C m (insert (rlo r, page_ceil (unat a), rprot r, ''heap'') (extents m - {view r}))
             (if rhi r < unat a then memset_zero (rend r) (res - rend r) (mem_bytes m) else mem_bytes m) m')
    (brk host a m)"
proof (cases "break_stays a r m")
  case True
  then show ?thesis by (simp add: brk_unfold [OF inv heap])
next
  case False
  note t = take_named [OF inv heap]
  note r = t(1) and ok = mmu_invD(3) [OF inv t(1)]
  note o = region_okD [OF ok]
  have M: "unat (memorySize m) < 2 ^ 64" using mmu_invD(1) [OF inv] by simp
  note rend = unat_rend [OF ok M]
  have a: "unat a \<le> unat (memorySize m)" using False by (auto simp: break_stays_def word_less_nat_alt not_less)
  consider (above) "rhi r < unat a" | (inside) "rlo r < unat a" "unat a \<le> rhi r" | (below) "unat a \<le> rlo r"
    by linarith
  then show ?thesis
  proof cases
    case above
    then have "a > rend r" by (simp add: word_less_nat_alt rend)
    with False above o(3) show ?thesis
      by (auto simp: brk_unfold [OF inv heap] intro!: outcome_mono [OF brk_grow_effect [OF inv heap above a False]])
  next
    case inside
    then have "\<not> a > rend r" by (simp add: word_less_nat_alt rend)
    with False inside show ?thesis
      by (auto simp: brk_unfold [OF inv heap] refused_def
          intro!: outcome_mono [OF brk_shrink_effect [OF inv heap inside]])
  next
    case below
    then have "\<not> a > rend r" using o(3) by (simp add: word_less_nat_alt rend)
    with False below show ?thesis by (simp add: brk_unfold [OF inv heap] brk_below [OF inv heap below])
  qed
qed

section \<open>The null page\<close>

definition null_page :: "nat \<Rightarrow> mmu_region" where
  "null_page i = \<lparr>rid = i, rbase = 0, rsize = 16 * PAGE_SIZE, rprot = PROT_NONE, rname = ''nullpage'',
     requiresMemsetToZero = False, activated = False\<rparr>"

lemma null_page_simps [simp]:
  "rid (null_page i) = i" "rlo (null_page i) = 0" "rhi (null_page i) = 65536"
  "view (null_page i) = (0, 65536, PROT_NONE, ''nullpage'')" "settled_bytes (null_page i) b = b"
  "unat (rsize (null_page i)) = 65536" "requiresMemsetToZero (null_page i) = False"
  by (simp_all add: null_page_def rlo_def rhi_def view_def settled_bytes_def PAGE_SIZE_def)

lemma ensureNullPage_effect:
  assumes inv: "mmu_inv C m"
  shows "outcome (\<lambda>x. x = VerifyFailed)
    (\<lambda>m'. m' = m \<or> effect C m (insert (0, 65536, PROT_NONE, ''nullpage'') (extents m)) (mem_bytes m) m')
    (ensureNullPage host m)"
  and "region_at (regions m) 0 = None \<Longrightarrow> host_grants host m \<Longrightarrow> 65536 \<le> unat (memorySize m)
    \<Longrightarrow> \<not> collides 0 65536 (extents m)
    \<Longrightarrow> outcome (\<lambda>_. False)
      (effect C m (insert (0, 65536, PROT_NONE, ''nullpage'') (extents m)) (mem_bytes m)) (ensureNullPage host m)"
proof -
  let ?r = "null_page (nextRid m)" and ?m = "m\<lparr>nextRid := Suc (nextRid m)\<rparr>"
  let ?E = "insert (0, 65536, PROT_NONE, ''nullpage'') (extents m)"
  have inv1: "mmu_inv C ?m" by (rule mmu_inv_nextRid [OF inv])
  have E: "extents ?m = extents m" "host_grants host ?m = host_grants host m"
    by (simp_all add: extents_def host_grants_def)
  have eff: "effect C ?m (extents m) (mem_bytes m) ?m" using inv1 by (simp add: effect_def E)
  have new: "nextRid m \<notin> rid ` set (regions m)" using mmu_invD(6) [OF inv] by (metis imageE less_irrefl)
  have fresh: "fresh_region ?r ?m" if "65536 \<le> unat (memorySize m)"
    using that new by (simp add: fresh_region_def region_ok_def) (simp add: page_aligned_def)
  have make: "makeRegion 0 (16 * PAGE_SIZE) PROT_NONE m
      = (if 65536 \<le> unat (memorySize m) then Inr (?r\<lparr>rname := ''''\<rparr>, ?m) else Inl VerifyFailed)"
    by (simp add: makeRegion_def isPageAligned_def PAGE_SIZE_def new_region_def null_page_def verify_def word_le_nat_alt)
  have name: "?r\<lparr>rname := '''', rname := ''nullpage''\<rparr> = ?r" by (simp add: null_page_def)
  have none: "ensureNullPage host m = (if 65536 \<le> unat (memorySize m) then addRegion host ?r ?m else Inl VerifyFailed)"
    if "region_at (regions m) 0 = None"
    using that by (simp add: ensureNullPage_def findAddress_at [OF inv] make name)
  have add: "outcome (\<lambda>x. x = VerifyFailed \<and> (host_grants host m \<longrightarrow> collides 0 65536 (extents m)))
      (effect C m ?E (mem_bytes m)) (addRegion host ?r ?m)" if "65536 \<le> unat (memorySize m)"
    by (rule outcome_mono [OF add_fresh [OF inv1 fresh [OF that]]])
       (use effect_added [OF eff, of ?r] E in auto)
  show "outcome (\<lambda>x. x = VerifyFailed) (\<lambda>m'. m' = m \<or> effect C m ?E (mem_bytes m) m') (ensureNullPage host m)"
  proof (cases "region_at (regions m) 0")
    case None
    then show ?thesis unfolding none [OF None] by (auto intro: outcome_mono [OF add])
  next
    case (Some r)
    then have "r \<in> set (regions m)" using region_at_SomeD by blast
    then show ?thesis
      using Some by (simp add: ensureNullPage_def findAddress_at [OF inv] deref_rid [OF inv] verify_def)
  qed
  show "outcome (\<lambda>_. False) (effect C m ?E (mem_bytes m)) (ensureNullPage host m)"
    if "region_at (regions m) 0 = None" "host_grants host m" "65536 \<le> unat (memorySize m)"
      "\<not> collides 0 65536 (extents m)"
    unfolding none [OF that(1)] if_P [OF that(3)]
    by (rule outcome_mono [OF add [OF that(3)]]) (use that in auto)
qed

end
