(* ===== verification/X64_MmuSpec.thy ===== *)
theory X64_MmuSpec
  imports X64_MmuProtect
begin

text \<open>
  What the Mmu promises its clients, address by address: \<open>mapping m\<close> gives the protection and the
  name of the region that holds an address. The theorems state every public operation of
  \<^verbatim>\<open>mmu.h\<close> as an update of that map, with the errors it returns and the verifications
  that stop it. Memory is a client of the lookup: its laws are the locale \<open>byte_memory\<close>.
\<close>

section \<open>The map of an address space\<close>

definition mapping :: "mmu \<Rightarrow> nat \<Rightarrow> (bit_flags \<times> string) option" where
  "mapping m a = map_option (\<lambda>r. (rprot r, rname r)) (region_at (regions m) a)"

definition holds :: "extent set \<Rightarrow> nat \<Rightarrow> bit_flags \<times> string \<Rightarrow> bool" where
  "holds E a v = (\<exists>l h. (l, h, v) \<in> E \<and> l \<le> a \<and> a < h)"

definition wide :: "extent set \<Rightarrow> bool" where
  "wide E = (\<forall>(l, h, v)\<in>E. l < h)"

lemma mapping_holds:
  assumes inv: "mmu_inv C m"
  shows "mapping m a = Some v \<longleftrightarrow> holds (extents m) a v"
proof
  assume "mapping m a = Some v"
  then obtain r where r: "region_at (regions m) a = Some r" "v = (rprot r, rname r)"
    by (auto simp: mapping_def)
  then have "r \<in> set (regions m)" "covers r a" using region_at_SomeD by blast+
  then have "(rlo r, rhi r, v) \<in> extents m" "rlo r \<le> a" "a < rhi r"
    using r(2) by (auto simp: extents_def view_def covers_def)
  then show "holds (extents m) a v" unfolding holds_def by blast
next
  assume "holds (extents m) a v"
  then obtain r where r: "r \<in> set (regions m)" "rlo r \<le> a" "a < rhi r" "v = (rprot r, rname r)"
    by (auto simp: holds_def extents_def view_def)
  then have "region_at (regions m) a = Some r"
    by (simp add: region_at_eq [OF mmu_invD(8) [OF inv]] covers_def)
  with r(4) show "mapping m a = Some v" by (simp add: mapping_def)
qed

lemma mapping_eqI:
  assumes "\<And>v. f = Some v \<longleftrightarrow> g = Some v" shows "f = g"
proof (cases f)
  case None
  then have "g \<noteq> Some (the g)" using assms by simp
  with None show ?thesis by (cases g) simp_all
qed (use assms in simp)

lemma wide_extents: "mmu_inv C m \<Longrightarrow> wide (extents m)"
  using region_okD(3) [OF mmu_invD(3)] by (auto simp: wide_def extents_def view_def)

lemma wide_cut: "wide E \<Longrightarrow> wide (cut c E)"
  by (fastforce simp: wide_def cut_def split: if_splits)

lemma holds_cut: "holds (cut c E) a v \<longleftrightarrow> holds E a v"
proof
  assume "holds (cut c E) a v"
  then obtain l h where "(l, h, v) \<in> cut c E" "l \<le> a" "a < h" unfolding holds_def by blast
  then show "holds E a v"
    unfolding holds_def cut_def by (cases v) (fastforce split: if_splits)
next
  assume "holds E a v"
  then obtain l h where x: "(l, h, v) \<in> E" "l \<le> a" "a < h" unfolding holds_def by blast
  obtain p n where v: "v = (p, n)" by (cases v)
  consider "l < c" "c < h" "a < c" | "l < c" "c < h" "c \<le> a" | "\<not> (l < c \<and> c < h)" by linarith
  then have "\<exists>l' h'. (l', h', v) \<in> cut_extent c (l, h, v) \<and> l' \<le> a \<and> a < h'"
    by cases (use x v in auto)
  with x(1) show "holds (cut c E) a v" unfolding holds_def cut_def by blast
qed

lemma holds_insert: "holds (insert (l, h, v) E) a w \<longleftrightarrow> (l \<le> a \<and> a < h \<and> v = w) \<or> holds E a w"
  by (auto simp: holds_def)

text \<open>Pieces of a set that was cut at both ends of a range lie inside it or outside.\<close>

definition sharp :: "nat \<Rightarrow> nat \<Rightarrow> extent set \<Rightarrow> bool" where
  "sharp b e E = (\<forall>(l, h, v)\<in>E. \<not> (l < b \<and> b < h) \<and> \<not> (l < e \<and> e < h))"

lemma sharp_cuts: "sharp b e (cut e (cut b E))" "sharp b e (cut b (cut e E))"
  by (fastforce simp: sharp_def cut_def split: if_splits)+

lemma meets_inside:
  assumes "sharp b e E" "(l, h, v) \<in> E" "l \<le> a" "a < h"
  shows "meets b e (l, h, v) \<longleftrightarrow> b \<le> a \<and> a < e"
proof -
  have "\<not> (l < b \<and> b < h)" "\<not> (l < e \<and> e < h)" using assms(1,2) by (auto simp: sharp_def)
  then have "max l b < min h e \<longleftrightarrow> b \<le> a \<and> a < e"
    using assms(3,4) unfolding max_less_iff_conj min_less_iff_conj by linarith
  then show ?thesis by (cases v) simp
qed

lemma holds_outside:
  assumes "sharp b e E"
  shows "holds {x \<in> E. \<not> meets b e x} a v \<longleftrightarrow> holds E a v \<and> \<not> (b \<le> a \<and> a < e)"
  unfolding holds_def mem_Collect_eq using meets_inside [OF assms] by blast

lemma protect_image:
  "(l, h, p, n) \<in> protect_extent b e q ` E \<longleftrightarrow>
   (\<exists>p'. (l, h, p', n) \<in> E \<and> p = (if meets b e (l, h, p', n) then q else p'))"
proof
  assume "(l, h, p, n) \<in> protect_extent b e q ` E"
  then obtain x where x: "x \<in> E" "protect_extent b e q x = (l, h, p, n)" by (metis imageE)
  then show "\<exists>p'. (l, h, p', n) \<in> E \<and> p = (if meets b e (l, h, p', n) then q else p')"
    by (cases x) (auto simp del: meets.simps)
next
  assume "\<exists>p'. (l, h, p', n) \<in> E \<and> p = (if meets b e (l, h, p', n) then q else p')"
  then obtain p' where p': "(l, h, p', n) \<in> E" "p = (if meets b e (l, h, p', n) then q else p')" by blast
  then have "(l, h, p, n) = protect_extent b e q (l, h, p', n)" by simp
  with p'(1) show "(l, h, p, n) \<in> protect_extent b e q ` E" by (rule image_eqI [rotated])
qed

lemma holds_protect:
  assumes "sharp b e E"
  shows "holds (protect_extent b e q ` E) a (p, n) \<longleftrightarrow>
    (if b \<le> a \<and> a < e then p = q \<and> (\<exists>p'. holds E a (p', n)) else holds E a (p, n))"
proof -
  have "(\<exists>p'. (l, h, p', n) \<in> E \<and> p = (if meets b e (l, h, p', n) then q else p')) \<and> l \<le> a \<and> a < h
      \<longleftrightarrow> (\<exists>p'. (l, h, p', n) \<in> E \<and> p = (if b \<le> a \<and> a < e then q else p')) \<and> l \<le> a \<and> a < h" for l h
  proof (cases "l \<le> a \<and> a < h")
    case True
    then have "meets b e (l, h, p', n) = (b \<le> a \<and> a < e)" if "(l, h, p', n) \<in> E" for p'
      using meets_inside [OF assms that] by simp
    then show ?thesis by (simp del: meets.simps cong: conj_cong)
  qed (simp only: simp_thms)
  then have "holds (protect_extent b e q ` E) a (p, n) \<longleftrightarrow>
      (\<exists>l h. (\<exists>p'. (l, h, p', n) \<in> E \<and> p = (if b \<le> a \<and> a < e then q else p')) \<and> l \<le> a \<and> a < h)"
    unfolding holds_def protect_image by (simp only:)
  then show ?thesis unfolding holds_def by auto
qed

lemma room_made_outside:
  assumes "b < e" "wide E" "\<not> collides b e (room_made b e E)"
  shows "room_made b e E = {x \<in> cut e (cut b E). \<not> meets b e x}"
proof -
  have wide: "wide (cut e (cut b E))" by (intro wide_cut assms)
  have "contains_addr x b \<or> contains_addr x (e - 1) \<longrightarrow> meets b e x" if "x \<in> cut e (cut b E)" for x
    using that wide assms(1) by (cases x) (auto simp: wide_def)
  moreover have "\<not> meets b e x" if "x \<in> room_made b e E" for x
    using assms(3) that by (auto simp: collides_def)
  ultimately show ?thesis unfolding room_made_def by blast
qed

section \<open>Updates of the map\<close>

definition unmapped_in :: "nat \<Rightarrow> nat \<Rightarrow> (nat \<Rightarrow> 'v option) \<Rightarrow> nat \<Rightarrow> 'v option" where
  "unmapped_in b e f = (\<lambda>x. if b \<le> x \<and> x < e then None else f x)"

definition mapped_in :: "nat \<Rightarrow> nat \<Rightarrow> 'v \<Rightarrow> (nat \<Rightarrow> 'v option) \<Rightarrow> nat \<Rightarrow> 'v option" where
  "mapped_in b e v f = (\<lambda>x. if b \<le> x \<and> x < e then Some v else f x)"

definition protected_in ::
  "nat \<Rightarrow> nat \<Rightarrow> 'p \<Rightarrow> (nat \<Rightarrow> ('p \<times> 'n) option) \<Rightarrow> nat \<Rightarrow> ('p \<times> 'n) option" where
  "protected_in b e q f = (\<lambda>x. if b \<le> x \<and> x < e then map_option (\<lambda>(p, n). (q, n)) (f x) else f x)"

definition free_in :: "nat \<Rightarrow> nat \<Rightarrow> (nat \<Rightarrow> 'v option) \<Rightarrow> bool" where
  "free_in b e f = (\<forall>x. b \<le> x \<and> x < e \<longrightarrow> f x = None)"

text \<open>A range with something mapped and no hole between two mapped addresses.\<close>

definition contiguous_in :: "nat \<Rightarrow> nat \<Rightarrow> (nat \<Rightarrow> 'v option) \<Rightarrow> bool" where
  "contiguous_in b e f = (\<not> free_in b e f
     \<and> (\<forall>x z y. b \<le> x \<and> x < z \<and> z < y \<and> y < e \<and> f x \<noteq> None \<and> f y \<noteq> None \<longrightarrow> f z \<noteq> None))"

lemma mapping_None: "mapping m a = None \<longleftrightarrow> \<not> owned (regions m) a"
  by (auto simp: mapping_def region_at_None owned_def)

lemma solid_contiguous: "solid b e m \<longleftrightarrow> contiguous_in b e (mapping m)"
  by (auto simp: solid_def contiguous_in_def free_in_def mapping_None)

lemma collides_holds:
  assumes "b < e" "wide E"
  shows "collides b e E \<longleftrightarrow> (\<exists>x v. b \<le> x \<and> x < e \<and> holds E x v)"
proof
  assume "collides b e E"
  then obtain l h p n where x: "(l, h, p, n) \<in> E" "max l b < min h e" by (auto simp: collides_def)
  then have "holds E (max l b) (p, n)" unfolding holds_def by fastforce
  moreover have "b \<le> max l b" "max l b < e" using x(2) by simp_all
  ultimately show "\<exists>x v. b \<le> x \<and> x < e \<and> holds E x v" by blast
next
  assume "\<exists>x v. b \<le> x \<and> x < e \<and> holds E x v"
  then obtain x l h p n where "(l, h, p, n) \<in> E" "b \<le> x" "x < e" "l \<le> x" "x < h"
    by (auto simp: holds_def)
  then show "collides b e E" unfolding collides_def by (intro bexI) auto
qed

lemma collides_mapping:
  assumes "mmu_inv C m" "b < e"
  shows "collides b e (extents m) \<longleftrightarrow> \<not> free_in b e (mapping m)"
  using collides_holds [OF assms(2) wide_extents [OF assms(1)]] mapping_holds [OF assms(1)]
  by (auto simp: free_in_def)

lemma effect_mapping:
  assumes "effect C m E b m'" "\<And>a v. f a = Some v \<longleftrightarrow> holds E a v"
  shows "mapping m' = f"
proof
  fix a
  have inv: "mmu_inv C m'" and E: "extents m' = E" using assms(1) by (simp_all add: effect_def)
  show "mapping m' a = f a"
    by (rule mapping_eqI) (simp only: mapping_holds [OF inv] E assms(2))
qed

lemma granted:
  assumes "outcome (refused host m) Q res" "host_grants host m"
  shows "\<exists>x. res = Inr x \<and> Q x"
  using assms by (cases res) (auto simp: refused_def)

lemma succeeds:
  assumes "outcome P Q res" "\<And>e. \<not> P e"
  shows "\<exists>x. res = Inr x \<and> Q x"
  using assms by (cases res) auto

text \<open>A state kept well-formed, with a new map and new bytes.\<close>

definition updated :: "nat set \<Rightarrow> mmu \<Rightarrow> (nat \<Rightarrow> (bit_flags \<times> string) option) \<Rightarrow> (u64 \<Rightarrow> u8) \<Rightarrow> mmu \<Rightarrow> bool" where
  "updated C m f b m' = (mmu_inv C m' \<and> same_machine m m' \<and> mapping m' = f \<and> mem_bytes m' = b)"

lemma updatedI:
  assumes "effect C m E b m'" "\<And>a v. f a = Some v \<longleftrightarrow> holds E a v"
  shows "updated C m f b m'"
  using assms(1) effect_mapping [OF assms] by (simp add: updated_def effect_def)

lemma holds_unmapped:
  assumes "mmu_inv C m"
  shows "unmapped_in b e (mapping m) a = Some v
    \<longleftrightarrow> holds {x \<in> cut e (cut b (extents m)). \<not> meets b e x} a v"
  unfolding holds_outside [OF sharp_cuts(1)] holds_cut mapping_holds [OF assms, symmetric] unmapped_in_def
  by auto

lemma holds_protected:
  assumes "mmu_inv C m"
  shows "protected_in b e q (mapping m) a = Some v
    \<longleftrightarrow> holds (protect_extent b e q ` cut e (cut b (extents m))) a v"
proof (cases v)
  case (Pair p n)
  have *: "(\<exists>p'. mapping m a = Some (p', n)) \<longleftrightarrow> (\<exists>p'. holds (extents m) a (p', n))"
    by (simp only: mapping_holds [OF assms])
  show ?thesis
    unfolding Pair holds_protect [OF sharp_cuts(1)] holds_cut * [symmetric] mapping_holds [OF assms, symmetric]
    by (auto simp: protected_in_def)
qed

lemma holds_mapped:
  assumes "mmu_inv C m"
  shows "mapped_in b e v (mapping m) a = Some w \<longleftrightarrow>
    holds (insert (b, e, v) {x \<in> cut e (cut b (extents m)). \<not> meets b e x}) a w"
  unfolding holds_insert holds_outside [OF sharp_cuts(1)] holds_cut mapping_holds [OF assms, symmetric] mapped_in_def
  by auto

lemma holds_mapped_free:
  assumes "mmu_inv C m" "free_in b e (mapping m)"
  shows "mapped_in b e v (mapping m) a = Some w \<longleftrightarrow> holds (insert (b, e, v) (extents m)) a w"
  using assms(2)
  unfolding holds_insert mapping_holds [OF assms(1), symmetric] mapped_in_def free_in_def by auto

text \<open>Making room fails to clear the range exactly when an extent lies strictly inside it.\<close>

lemma collides_room_made:
  assumes be: "b < e" and w: "wide E"
  shows "collides b e (room_made b e E) \<longleftrightarrow> (\<exists>(l, h, v)\<in>E. b < l \<and> h < e)"
proof
  assume "collides b e (room_made b e E)"
  then obtain l h v where x: "(l, h, v) \<in> cut e (cut b E)" "\<not> contains_addr (l, h, v) b"
    "\<not> contains_addr (l, h, v) (e - 1)" "meets b e (l, h, v)"
    unfolding collides_def room_made_def Bex_def mem_Collect_eq de_Morgan_disj split_paired_Ex by blast
  then have in_range: "b < l" "h < e" using be by (cases v; auto)+
  from x(1) obtain l1 h1 where y: "(l1, h1, v) \<in> cut b E" "(l, h, v) \<in> cut_extent e (l1, h1, v)"
    unfolding cut_def by (cases v) (fastforce split: if_splits)
  then have "(l, h, v) \<in> cut b E" using in_range by (cases v) (auto split: if_splits)
  then obtain l2 h2 where "(l2, h2, v) \<in> E" "(l, h, v) \<in> cut_extent b (l2, h2, v)"
    unfolding cut_def by (cases v) (fastforce split: if_splits)
  then have "(l, h, v) \<in> E" using in_range by (cases v) (auto split: if_splits)
  with in_range show "\<exists>(l, h, v)\<in>E. b < l \<and> h < e" by blast
next
  assume "\<exists>(l, h, v)\<in>E. b < l \<and> h < e"
  then obtain l h v where x: "(l, h, v) \<in> E" "b < l" "h < e" by blast
  have "l < h" using w x(1) by (auto simp: wide_def)
  obtain p n where v: "v = (p, n)" by (cases v)
  have "cut_extent b (l, h, v) = {(l, h, v)}" "cut_extent e (l, h, v) = {(l, h, v)}" using x v by auto
  then have "(l, h, v) \<in> cut e (cut b E)" using x(1) unfolding cut_def by blast
  moreover have "\<not> contains_addr (l, h, v) b" "\<not> contains_addr (l, h, v) (e - 1)" "meets b e (l, h, v)"
    using x \<open>l < h\<close> v by auto
  ultimately show "collides b e (room_made b e E)" unfolding collides_def room_made_def by blast
qed

section \<open>Fresh address spaces, and one for the examples\<close>

lemma unat_memorySize: "unat (memorySize (tryCreate mb base)) = unat mb * 2 ^ 20"
proof -
  have mb: "unat mb < 2 ^ 32" using unat_lt_2p [of mb] by simp
  have u: "unat (ucast mb :: u64) = unat mb" using mb by (simp add: unsigned_ucast_eq take_bit_nat_eq_self)
  have "(ucast mb :: u64) * 1024 * 1024 = ucast mb * 0x100000" by simp
  moreover have "unat ((ucast mb :: u64) * 0x100000) = unat mb * 2 ^ 20"
    using mb by (simp only: unat_word_ariths u) simp
  ultimately have "unat ((ucast mb :: u64) * 1024 * 1024) = unat mb * 2 ^ 20" by (simp only:)
  then show ?thesis by (simp add: tryCreate_def)
qed

lemma mmu_inv_tryCreate: "mmu_inv {} (tryCreate mb base)"
proof -
  have mb: "unat mb < 2 ^ 32" using unat_lt_2p [of mb] by simp
  then have "unat (memorySize (tryCreate mb base)) < 2 ^ 52" unfolding unat_memorySize by simp
  moreover have "page_aligned (unat mb * 2 ^ 20)" by (simp add: page_aligned_def)
  ultimately show ?thesis
    using unat_memorySize [of mb base]
    by (simp add: mmu_inv_def table_ok_def) (simp add: tryCreate_def)
qed

definition sample_region :: mmu_region where
  "sample_region = \<lparr>rid = 0, rbase = 0x10000, rsize = 0x3000, rprot = 3, rname = ''heap'',
     requiresMemsetToZero = False, activated = False\<rparr>"

definition sample_mmu :: mmu where
  "sample_mmu = added sample_region ((tryCreate 1 0x100000)\<lparr>nextRid := 1\<rparr>)"

abbreviation granting :: host_mprotect where
  "granting \<equiv> \<lambda>_ _ _. True"

lemma sample_inv: "mmu_inv {} sample_mmu"
  unfolding sample_mmu_def
proof (rule mmu_inv_added)
  have "mmu_inv {} ((tryCreate 1 0x100000)\<lparr>nextRid := Suc (nextRid (tryCreate 1 0x100000))\<rparr>)"
    by (rule mmu_inv_nextRid [OF mmu_inv_tryCreate])
  then show "mmu_inv {} ((tryCreate 1 0x100000)\<lparr>nextRid := 1\<rparr>)" by (simp add: tryCreate_def)
  show "fresh_region sample_region ((tryCreate 1 0x100000)\<lparr>nextRid := 1\<rparr>)"
    by (simp add: fresh_region_def sample_region_def region_ok_def rlo_def rhi_def page_aligned_def tryCreate_def)
qed (simp add: tryCreate_def)

lemma sample_simps [simp]:
  "memorySize sample_mmu = 0x100000" "hostBase sample_mmu = 0x100000"
  "extents sample_mmu = {(65536, 77824, 3, ''heap'')}" "host_grants granting sample_mmu"
  by (simp_all add: sample_mmu_def added_def tryCreate_def host_grants_def extents_def)
     (simp add: sample_region_def view_def rlo_def rhi_def)

lemma sample_mapping:
  "mapping sample_mmu a = (if 65536 \<le> a \<and> a < 77824 then Some (3, ''heap'') else None)"
  by (rule mapping_eqI) (auto simp: mapping_holds [OF sample_inv] holds_def)

section \<open>Unmapping and protecting\<close>

text \<open>
  C27. On a well-formed address space whose host grants its requests, \<open>munmap\<close> of a page-aligned
  address returns 0 and unmaps exactly the addresses of the rounded-up range: every region is kept
  outside the range, with its protection and name, whether it lies apart, overlaps one end, covers
  the range or is covered by it; memory contents are untouched and the address space stays
  well-formed.
\<close>

theorem munmap_spec:
  assumes "mmu_inv C m" "isPageAligned a" "host_grants host m"
  shows "\<exists>m'. munmap host a len m = Inr (0, m')
    \<and> updated C m (unmapped_in (unat a) (unat (a + pageRoundUp len)) (mapping m)) (mem_bytes m) m'"
proof -
  have a: "page_aligned (unat a)" using assms(2) by (simp add: isPageAligned_unat)
  show ?thesis
    using granted [OF munmap_effect [OF assms(1) a] assms(3), of len]
    by (auto intro: updatedI [OF _ holds_unmapped [OF assms(1)]])
qed

theorem munmap_spec_witness:
  "\<exists>m'. munmap granting 0x11000 0x800 sample_mmu = Inr (0, m')
    \<and> updated {} sample_mmu (unmapped_in 69632 73728 (mapping sample_mmu)) (mem_bytes sample_mmu) m'"
  using munmap_spec [OF sample_inv, of "0x11000" granting "0x800"]
  by (simp add: isPageAligned_def PAGE_SIZE_def pageRoundUp_def)

text \<open>
  C28. \<open>mprotect\<close> of a page-aligned address refuses a protection that is both writable and
  executable with \<open>- EACCES\<close>, a range with nothing mapped in it or with a hole between two mapped
  addresses with \<open>- ENOMEM\<close>, and leaves the address space as it was in both cases; otherwise it
  returns 0 and gives exactly the mapped addresses of the rounded-up range the new protection.
\<close>

theorem mprotect_spec:
  fixes a len :: u64
  assumes "mmu_inv C m" "isPageAligned a" "host_grants host m"
  defines "b \<equiv> unat a" and "e \<equiv> unat (a + pageRoundUp len)"
  shows "if flag_test q PROT_EXEC \<and> flag_test q PROT_WRITE then mprotect host a len q m = Inr (- EACCES, m)
    else if \<not> contiguous_in b e (mapping m) then mprotect host a len q m = Inr (- ENOMEM, m)
    else \<exists>m'. mprotect host a len q m = Inr (0, m')
      \<and> updated C m (protected_in b e q (mapping m)) (mem_bytes m) m'"
proof -
  have a: "page_aligned (unat a)" using assms(2) by (simp add: isPageAligned_unat)
  show ?thesis
    using granted [OF mprotect_effect [OF assms(1) a] assms(3), where q1 = q and len1 = len]
    unfolding solid_contiguous b_def e_def
    by (auto intro: updatedI [OF _ holds_protected [OF assms(1)]] split: if_splits)
qed

theorem mprotect_spec_witness:
  "(\<exists>m'. mprotect granting 0x11000 0x800 1 sample_mmu = Inr (0, m')
    \<and> updated {} sample_mmu (protected_in 69632 73728 1 (mapping sample_mmu)) (mem_bytes sample_mmu) m')
   \<and> mprotect granting 0x11000 0x800 7 sample_mmu = Inr (- 13, sample_mmu)"
proof -
  have "contiguous_in 69632 73728 (mapping sample_mmu)"
    by (auto simp: contiguous_in_def free_in_def sample_mapping)
  then show ?thesis
    using mprotect_spec [OF sample_inv, of "0x11000" granting "1" "0x800"]
      mprotect_spec [OF sample_inv, of "0x11000" granting "7" "0x800"]
    by (simp add: isPageAligned_def PAGE_SIZE_def pageRoundUp_def flag_test_def PROT_EXEC_def PROT_WRITE_def EACCES_def)
qed

section \<open>Mapping\<close>

lemma mapped_updated:
  assumes "mmu_inv C m" "mapped C m base L prot replace m'"
  shows "updated C m (mapped_in (unat base) (unat base + unat L) (prot, '''') (mapping m))
    (memset_zero base L (mem_bytes m)) m'"
proof -
  define e where "e = unat base + unat L"
  have L: "unat base < e" and free: "\<not> collides (unat base) e (kept replace (unat base) e (extents m))"
    and eff: "effect C m (insert (unat base, e, prot, '''') (kept replace (unat base) e (extents m)))
      (memset_zero base L (mem_bytes m)) m'"
    using assms(2) by (simp_all add: mapped_def Let_def e_def)
  show ?thesis
    unfolding e_def [symmetric]
  proof (cases replace)
    case True
    have E: "kept replace (unat base) e (extents m)
        = {x \<in> cut e (cut (unat base) (extents m)). \<not> meets (unat base) e x}"
      using room_made_outside [OF L wide_extents [OF assms(1)]] free True by (simp add: kept_def)
    show "updated C m (mapped_in (unat base) e (prot, '''') (mapping m)) (memset_zero base L (mem_bytes m)) m'"
      by (rule updatedI [OF eff [unfolded E]]) (rule holds_mapped [OF assms(1)])
  next
    case False
    then have E: "kept replace (unat base) e (extents m) = extents m" by (simp add: kept_def)
    have "free_in (unat base) e (mapping m)" using free unfolding E collides_mapping [OF assms(1) L] by simp
    then show "updated C m (mapped_in (unat base) e (prot, '''') (mapping m)) (memset_zero base L (mem_bytes m)) m'"
      by (intro updatedI [OF eff [unfolded E]] holds_mapped_free [OF assms(1)])
  qed
qed

lemma mapped_free:
  assumes "mmu_inv C m" "mapped C m base L prot False m'"
  shows "free_in (unat base) (unat base + unat L) (mapping m)" "unat base + unat L \<le> unat (memorySize m)"
  using assms(2) collides_mapping [OF assms(1), of "unat base" "unat base + unat L"]
  by (simp_all add: mapped_def Let_def kept_def)

text \<open>
  C29. \<open>mmap\<close> with \<open>MAP_FIXED\<close> and \<open>MAP_NO_REPLACE\<close>: a range that ends above the reserved memory
  returns no address and changes nothing; a range with something mapped in it fails a verification;
  a free range is mapped with the given protection and no name, its memory reads zero, every other
  address keeps its mapping and its contents, and the base address is returned.
\<close>

theorem mmap_fixed_noreplace:
  fixes a len :: u64
  assumes "mmu_inv C m" "isPageAligned a" "host_grants host m"
    and "flag_test flags MAP_FIXED" "flag_test flags MAP_NO_REPLACE"
  defines "L \<equiv> pageRoundUp len"
  defines "e \<equiv> unat a + unat L"
  assumes "0 < L" "e < 2 ^ 64"
  shows "if unat (memorySize m) < e then mmap host a len prot flags m = Inr (None, m)
    else if \<not> free_in (unat a) e (mapping m) then mmap host a len prot flags m = Inl VerifyFailed
    else \<exists>m'. mmap host a len prot flags m = Inr (Some a, m')
      \<and> updated C m (mapped_in (unat a) e (prot, '''') (mapping m)) (memset_zero a L (mem_bytes m)) m'"
proof -
  have a: "page_aligned (unat a)" using assms(2) by (simp add: isPageAligned_unat)
  have e: "unat (a + L) = e" using assms(9) unfolding e_def by (simp add: unat_add_no_wrap)
  have L: "unat a < e" using assms(8) by (simp add: e_def word_less_nat_alt)
  note out = mmap_fixed_effect [OF assms(1) a assms(4), where replace = False and L = L and len = len and e = e
      and host = host and prot = prot, unfolded kept_def if_False]
  have big: "a + L > memorySize m \<longleftrightarrow> unat (memorySize m) < e" by (simp add: word_less_nat_alt e)
  have above: "mmap host a len prot flags m = Inr (None, m)" if "unat (memorySize m) < e"
    using that assms(2,4) unfolding big [symmetric] by (simp add: mmap_def Let_def flip: L_def)
  have pos: "unat L \<noteq> 0" using L by (simp add: e_def)
  show ?thesis
  proof (cases "unat (memorySize m) < e")
    case False
    then show ?thesis
    using out assms(3,5,9) L pos mapped_updated [OF assms(1), where replace = False and base = a and L = L and prot = prot]
      mapped_free [OF assms(1), where base = a and L = L and prot = prot]
    unfolding big L_def [symmetric] e_def [symmetric] collides_mapping [OF assms(1) L]
      by (cases "mmap host a len prot flags m") (auto split: if_splits)
  qed (simp add: above)
qed

theorem mmap_fixed_noreplace_witness:
  "(\<exists>m'. mmap granting 0x20000 0x800 1 0x26 sample_mmu = Inr (Some 0x20000, m')
     \<and> updated {} sample_mmu (mapped_in 131072 135168 (1, '''') (mapping sample_mmu))
         (memset_zero 0x20000 0x1000 (mem_bytes sample_mmu)) m')
   \<and> mmap granting 0x12000 0x800 1 0x26 sample_mmu = Inl VerifyFailed"
proof -
  have "free_in 131072 135168 (mapping sample_mmu)" "\<not> free_in 73728 77824 (mapping sample_mmu)"
    by (auto simp: free_in_def sample_mapping)
  then show ?thesis
    using mmap_fixed_noreplace [OF sample_inv, of "0x20000" granting "0x26" "0x800" 1]
      mmap_fixed_noreplace [OF sample_inv, of "0x12000" granting "0x26" "0x800" 1]
    by (simp add: isPageAligned_def PAGE_SIZE_def pageRoundUp_def flag_test_def MAP_FIXED_def MAP_NO_REPLACE_def)
qed

text \<open>
  C30. \<open>mmap\<close> with \<open>MAP_FIXED\<close> alone replaces what the range holds: regions that overlap one end of
  the range or cover it are cut and keep their other parts. It succeeds exactly when no region lies
  strictly inside the range (such a region survives the erasure and fails a verification); then the
  addresses of the range, and only these, are mapped with the given protection and their memory reads
  zero.
\<close>

theorem mmap_fixed_replace:
  fixes a len :: u64
  assumes "mmu_inv C m" "isPageAligned a" "host_grants host m"
    and "flag_test flags MAP_FIXED" "\<not> flag_test flags MAP_NO_REPLACE"
  defines "L \<equiv> pageRoundUp len"
  defines "e \<equiv> unat a + unat L"
  assumes "0 < L" "e \<le> unat (memorySize m)"
  shows "if list_ex (\<lambda>r. a < rbase r \<and> rend r < a + L) (regions m)
    then mmap host a len prot flags m = Inl VerifyFailed
    else \<exists>m'. mmap host a len prot flags m = Inr (Some a, m')
      \<and> updated C m (mapped_in (unat a) e (prot, '''') (mapping m)) (memset_zero a L (mem_bytes m)) m'"
proof -
  have a: "page_aligned (unat a)" using assms(2) by (simp add: isPageAligned_unat)
  have M: "unat (memorySize m) < 2 ^ 64" using mmu_invD(1) [OF assms(1)] by simp
  then have lt: "e < 2 ^ 64" using assms(9) by linarith
  have e: "unat (a + L) = e" using lt unfolding e_def by (simp add: unat_add_no_wrap)
  have L: "unat a < e" using assms(8) by (simp add: e_def word_less_nat_alt)
  note out = mmap_fixed_effect [OF assms(1) a assms(4), where replace = True and L = L and len = len and e = e
      and host = host and prot = prot, unfolded kept_def if_True]
  have pos: "unat L \<noteq> 0" using L by (simp add: e_def)
  have big: "\<not> a + L > memorySize m" using assms(9) by (simp add: word_less_nat_alt e)
  have "list_ex (\<lambda>r. a < rbase r \<and> rend r < a + L) (regions m)
      \<longleftrightarrow> (\<exists>r\<in>set (regions m). unat a < rlo r \<and> rhi r < e)"
    using unat_rend [OF mmu_invD(3) [OF assms(1)] M] by (auto simp: list_ex_iff word_less_nat_alt e rlo_def)
  also have "\<dots> \<longleftrightarrow> (\<exists>(l, h, v)\<in>extents m. unat a < l \<and> h < e)"
    by (auto simp: extents_def view_def)
  also have "\<dots> \<longleftrightarrow> collides (unat a) e (room_made (unat a) e (extents m))"
    using collides_room_made [OF L wide_extents [OF assms(1)]] by simp
  finally have inside: "list_ex (\<lambda>r. a < rbase r \<and> rend r < a + L) (regions m)
      \<longleftrightarrow> collides (unat a) e (room_made (unat a) e (extents m))" .
  have clear: "\<not> collides (unat a) e (room_made (unat a) e (extents m))" if "mapped C m a L prot True m'" for m'
    using that by (simp add: mapped_def Let_def kept_def e_def)
  show ?thesis
    unfolding inside
    using out assms(3,5) L pos lt big clear mapped_updated [OF assms(1), where replace = True and base = a and L = L and prot = prot]
    unfolding L_def [symmetric] e_def [symmetric]
    by (cases "mmap host a len prot flags m") (auto split: if_splits)
qed

theorem mmap_fixed_replace_witness:
  "(\<exists>m'. mmap granting 0x11000 0x800 1 4 sample_mmu = Inr (Some 0x11000, m')
     \<and> updated {} sample_mmu (mapped_in 69632 73728 (1, '''') (mapping sample_mmu))
         (memset_zero 0x11000 0x1000 (mem_bytes sample_mmu)) m')
   \<and> mmap granting 0xf000 0x8000 1 4 sample_mmu = Inl VerifyFailed"
proof -
  have "regions sample_mmu = [active sample_region]"
    by (simp add: sample_mmu_def added_def tryCreate_def insert_region_def insert_at_def)
  moreover have "rbase sample_region = 0x10000" "rend sample_region = 0x13000"
    by (simp_all add: sample_region_def rend_def)
  ultimately show ?thesis
    using mmap_fixed_replace [OF sample_inv, of "0x11000" granting 4 "0x800" 1]
      mmap_fixed_replace [OF sample_inv, of "0xf000" granting 4 "0x8000" 1]
    by (simp add: isPageAligned_def PAGE_SIZE_def pageRoundUp_def flag_test_def MAP_FIXED_def MAP_NO_REPLACE_def)
qed

text \<open>
  C31. \<open>mmap\<close> without \<open>MAP_FIXED\<close>, for a length below \<open>2\<^sup>6\<^sup>3\<close> that rounds up to at least one page,
  never fails: either it returns no address and changes nothing, or it returns the base
  of a range inside the reserved memory that nothing was mapped in, and maps exactly that range, with
  zeroed memory. The requested address plays no part.
\<close>

theorem mmap_anywhere:
  fixes len :: u64
  assumes "mmu_inv C m" "isPageAligned a" "host_grants host m" "\<not> flag_test flags MAP_FIXED"
  defines "L \<equiv> pageRoundUp len"
  assumes "0 < L" "unat L < 2 ^ 63"
  shows "mmap host a len prot flags m = Inr (None, m)
    \<or> (\<exists>base m'. mmap host a len prot flags m = Inr (Some base, m')
        \<and> unat base + unat L \<le> unat (memorySize m) \<and> free_in (unat base) (unat base + unat L) (mapping m)
        \<and> updated C m (mapped_in (unat base) (unat base + unat L) (prot, '''') (mapping m))
            (memset_zero base L (mem_bytes m)) m')"
proof -
  have a: "page_aligned (unat a)" using assms(2) by (simp add: isPageAligned_unat)
  have L: "L \<noteq> 0" "\<not> 2 ^ 63 \<le> unat L" using assms(6,7) by auto
  note out = mmap_anywhere_effect [OF assms(1) a assms(4), where L = L and len = len, OF meta_eq_to_obj_eq [OF L_def], of host prot]
  show ?thesis
    using succeeds [OF out] assms(3) L mapped_updated [OF assms(1), where replace = False and L = L and prot = prot]
      mapped_free [OF assms(1), where L = L and prot = prot]
    by (fastforce split: option.splits)
qed

theorem mmap_anywhere_witness:
  "mmap granting 0 0x2000 1 2 sample_mmu = Inr (None, sample_mmu)
    \<or> (\<exists>base m'. mmap granting 0 0x2000 1 2 sample_mmu = Inr (Some base, m')
        \<and> unat base + 0x2000 \<le> 0x100000 \<and> free_in (unat base) (unat base + 0x2000) (mapping sample_mmu)
        \<and> updated {} sample_mmu (mapped_in (unat base) (unat base + 0x2000) (1, '''') (mapping sample_mmu))
            (memset_zero base 0x2000 (mem_bytes sample_mmu)) m')"
  using mmap_anywhere [OF sample_inv, of 0 granting 2 "0x2000" 1]
  by (simp add: isPageAligned_def PAGE_SIZE_def pageRoundUp_def flag_test_def MAP_FIXED_def)

section \<open>The program break\<close>

lemma holds_resized:
  assumes inv: "mmu_inv C m" and r: "r \<in> set (regions m)" and n: "rname r = n"
    and m': "mmu_inv C m'" "extents m' = insert (rlo r, e, rprot r, n) (extents m - {view r})"
  shows "(if rlo r \<le> a \<and> a < e then Some (rprot r, n) else unmapped_in (rlo r) (rhi r) (mapping m) a) = Some v
    \<longleftrightarrow> holds (insert (rlo r, e, rprot r, n) (extents m - {view r})) a v"
proof -
  have view: "view r \<in> extents m" using r by (simp add: extents_def)
  have "holds (extents m - {view r}) a v \<longleftrightarrow> unmapped_in (rlo r) (rhi r) (mapping m) a = Some v" for a v
  proof
    assume "holds (extents m - {view r}) a v"
    then obtain l h where x: "(l, h, v) \<in> extents m" "(l, h, v) \<noteq> view r" "l \<le> a" "a < h"
      unfolding holds_def by blast
    then obtain q where q: "q \<in> set (regions m)" "view q = (l, h, v)" unfolding extents_def by auto
    then have "q \<noteq> r" "covers q a" using x by (auto simp: view_def covers_def)
    then have "\<not> covers r a"
      using region_at_eq [OF mmu_invD(8) [OF inv]] q(1) r by (metis option.inject)
    moreover have "mapping m a = Some v"
      using mapping_holds [OF inv] x unfolding holds_def by blast
    ultimately show "unmapped_in (rlo r) (rhi r) (mapping m) a = Some v"
      by (auto simp: unmapped_in_def covers_def)
  next
    assume a: "unmapped_in (rlo r) (rhi r) (mapping m) a = Some v"
    then have "\<not> (rlo r \<le> a \<and> a < rhi r)" "mapping m a = Some v"
      by (auto simp: unmapped_in_def split: if_splits)
    then show "holds (extents m - {view r}) a v"
      unfolding mapping_holds [OF inv] holds_def by (auto simp: view_def)
  qed
  moreover have "v = (rprot r, n)"
    if "rlo r \<le> a" "a < e" "holds (insert (rlo r, e, rprot r, n) (extents m - {view r})) a v"
  proof -
    have "holds (extents m') a (rprot r, n)" using that(1,2) unfolding m'(2) holds_insert by blast
    with that(3) show ?thesis
      unfolding m'(2) [symmetric] mapping_holds [OF m'(1), symmetric] by simp
  qed
  ultimately show ?thesis unfolding holds_insert n [symmetric] by auto
qed

lemma break_stays_words:
  assumes inv: "mmu_inv C m" and r: "r \<in> set (regions m)"
  shows "break_stays a r m \<longleftrightarrow>
    a = rend r \<or> memorySize m < a \<or> list_ex (\<lambda>q. q \<noteq> r \<and> region_contains q a) (regions m)
      \<or> list_ex (\<lambda>q. q \<noteq> r \<and> rend r \<le> rbase q \<and> rend q \<le> a) (regions m)"
proof -
  have M: "unat (memorySize m) < 2 ^ 64" using mmu_invD(1) [OF inv] by simp
  show ?thesis
    using region_contains_covers [OF mmu_invD(3) [OF inv] M, of _ a] r unat_rend [OF mmu_invD(3) [OF inv] M]
    by (auto simp: break_stays_def list_ex_iff word_le_nat_alt rlo_def)
qed

lemma updated_resized:
  assumes inv: "mmu_inv C m" and r: "r \<in> set (regions m)" "rname r = n"
    and e: "effect C m (insert (rlo r, e, rprot r, n) (extents m - {view r})) b m'"
  shows "updated C m (\<lambda>x. if rlo r \<le> x \<and> x < e then Some (rprot r, n)
      else unmapped_in (rlo r) (rhi r) (mapping m) x) b m'"
proof (rule updatedI [OF e])
  show "(if rlo r \<le> x \<and> x < e then Some (rprot r, n) else unmapped_in (rlo r) (rhi r) (mapping m) x) = Some v
    \<longleftrightarrow> holds (insert (rlo r, e, rprot r, n) (extents m - {view r})) x v" for x v
    using e by (intro holds_resized [OF inv r, where m' = m']) (simp_all add: effect_def)
qed

text \<open>
  C32. \<open>brk\<close> with a heap region \<open>r\<close>. The break stays where it is, and is returned, when it is asked
  for, when the address lies above the reserved memory, inside another region, or above another region
  that starts behind the heap. Otherwise, for an address behind the start of the heap (and, to grow,
  a readable and writable heap), the heap ends at the address rounded up to a page, which is returned:
  the heap covers exactly the addresses from its start to the new break, new memory reads zero, and
  everything else keeps its mapping.
\<close>

theorem brk_spec:
  fixes a :: u64
  assumes "mmu_inv C m" "findRegion ''heap'' m = Some r" "host_grants host m"
    and "rbase r < a" "rend r < a \<longrightarrow> rprot r = flag_add PROT_READ PROT_WRITE"
  shows "if a = rend r \<or> memorySize m < a \<or> list_ex (\<lambda>q. q \<noteq> r \<and> region_contains q a) (regions m)
      \<or> list_ex (\<lambda>q. q \<noteq> r \<and> rend r \<le> rbase q \<and> rend q \<le> a) (regions m)
    then brk host a m = Inr (rend r, m)
    else \<exists>res m'. brk host a m = Inr (res, m') \<and> unat res = (unat a + 4095) div 4096 * 4096
      \<and> updated C m (\<lambda>x. if rlo r \<le> x \<and> x < unat res then Some (rprot r, ''heap'')
                       else unmapped_in (rlo r) (rhi r) (mapping m) x)
          (if rend r < a then memset_zero (rend r) (res - rend r) (mem_bytes m) else mem_bytes m) m'"
proof -
  have M: "unat (memorySize m) < 2 ^ 64" using mmu_invD(1) [OF assms(1)] by simp
  have r: "r \<in> set (regions m)" "rname r = ''heap''"
    using assms(2) unfolding findRegion_def by (auto simp: find_Some_iff)
  note rend = unat_rend [OF mmu_invD(3) [OF assms(1)] M] and stays = break_stays_words [OF assms(1) r(1), of a]
  have above: "rend r < a \<longleftrightarrow> rhi r < unat a" and start: "rlo r < unat a"
    using assms(4) by (simp_all add: word_less_nat_alt rend [OF r(1)] rlo_def)
  have ok: "\<not> (x = VerifyFailed \<and> (host_grants host m \<longrightarrow> \<not> break_stays a r m
          \<and> (unat a \<le> rlo r \<or> (rhi r < unat a \<and> rprot r \<noteq> flag_add PROT_READ PROT_WRITE))))" for x
    using assms(3,5) start above by auto
  obtain x where x: "brk host a m = Inr x" and
    e: "(\<lambda>(res, m'). if break_stays a r m then res = rend r \<and> m' = m
       else rlo r < unat a \<and> unat res = page_ceil (unat a)
         \<and> effect C m (insert (rlo r, page_ceil (unat a), rprot r, ''heap'') (extents m - {view r}))
             (if rhi r < unat a then memset_zero (rend r) (res - rend r) (mem_bytes m) else mem_bytes m) m') x"
    using succeeds [OF brk_effect [OF assms(1,2)] ok] by blast
  obtain res m' where x': "x = (res, m')" by (cases x)
  show ?thesis
  proof (cases "break_stays a r m")
    case True
    with x e x' show ?thesis unfolding stays [symmetric] by simp
  next
    case False
    with e x' have res: "unat res = page_ceil (unat a)"
      "effect C m (insert (rlo r, unat res, rprot r, ''heap'') (extents m - {view r}))
         (if rend r < a then memset_zero (rend r) (res - rend r) (mem_bytes m) else mem_bytes m) m'"
      by (simp_all add: above)
    show ?thesis
      unfolding stays [symmetric] if_not_P [OF False] x x'
      using updated_resized [OF assms(1) r res(2)] res(1) by (simp add: page_ceil_def)
  qed
qed

lemma sample_heap: "findRegion ''heap'' sample_mmu = Some (active sample_region)"
  "regions sample_mmu = [active sample_region]"
  by (simp_all add: findRegion_def sample_mmu_def added_def tryCreate_def insert_region_def insert_at_def)
     (simp add: sample_region_def)

theorem brk_spec_witness:
  "\<exists>res m'. brk granting 0x14800 sample_mmu = Inr (res, m') \<and> unat res = 0x15000
     \<and> updated {} sample_mmu (\<lambda>x. if 0x10000 \<le> x \<and> x < unat res then Some (3, ''heap'')
                       else unmapped_in 0x10000 0x13000 (mapping sample_mmu) x)
          (memset_zero 0x13000 (res - 0x13000) (mem_bytes sample_mmu)) m'"
proof -
  have r: "rbase sample_region = 0x10000" "rend sample_region = 0x13000" "rlo sample_region = 0x10000"
    "rhi sample_region = 0x13000" "rprot sample_region = 3"
    by (simp_all add: sample_region_def rend_def rlo_def rhi_def)
  show ?thesis
    using brk_spec [OF sample_inv sample_heap(1), of granting "0x14800"]
    by (simp add: r sample_heap flag_add_def PROT_READ_def PROT_WRITE_def cong: if_cong)
qed

section \<open>The lookup table\<close>

text \<open>
  C33. The constant-time lookup is the linear search it replaces: on a well-formed address space
  \<open>findAddress\<close> never leaves its table, and returns the region of the vector that contains the address,
  for every 64-bit address.
\<close>

theorem findAddress_is_search:
  assumes "mmu_inv C m"
  shows "findAddress a m = Inr (map_option rid (find (\<lambda>r. region_contains r a) (regions m)))"
proof -
  have M: "unat (memorySize m) < 2 ^ 64" using mmu_invD(1) [OF assms] by simp
  have "find (\<lambda>r. region_contains r a) (regions m) = region_at (regions m) (unat a)"
    unfolding region_at_def
    by (rule find_cong) (simp_all add: region_contains_covers [OF mmu_invD(3) [OF assms] M])
  then show ?thesis by (simp add: findAddress_at [OF assms])
qed

theorem findAddress_is_search_witness:
  "findAddress 0x12fff sample_mmu = Inr (Some 0) \<and> findAddress 0x13000 sample_mmu = Inr None"
  using findAddress_is_search [OF sample_inv, of "0x12fff"] findAddress_is_search [OF sample_inv, of "0x13000"]
  by (simp add: sample_heap region_contains_def) (simp add: sample_region_def rend_def)

end
