(* ===== verification/X64_MmuMemory.thy ===== *)
theory X64_MmuMemory
  imports X64_MmuSpec
begin

text \<open>
  Reading and writing the emulated memory. What clients need of it is the locale
  \<open>byte_memory\<close>: bytes written are read back, bytes apart from them are untouched, and rights do
  not change. It is interpreted on the checked accesses of the Mmu; typed values, exchanges and
  strings rest on its facts.
\<close>

section \<open>The contract of a byte memory\<close>

locale byte_memory =
  fixes read_at :: "u64 \<Rightarrow> nat \<Rightarrow> 's \<Rightarrow> u8 list result"
    and write_at :: "u64 \<Rightarrow> u8 list \<Rightarrow> 's \<Rightarrow> 's result"
    and readable :: "u64 \<Rightarrow> nat \<Rightarrow> 's \<Rightarrow> bool"
    and invariant :: "'s \<Rightarrow> bool"
  assumes read_iff: "readable a n s \<longleftrightarrow> (\<exists>bs. read_at a n s = Inr bs)"
    and read_length: "read_at a n s = Inr bs \<Longrightarrow> length bs = n"
    and rights_kept: "write_at a bs s = Inr s' \<Longrightarrow> readable b n s' = readable b n s"
    and read_back: "write_at a bs s = Inr s' \<Longrightarrow> readable a (length bs) s \<Longrightarrow> read_at a (length bs) s' = Inr bs"
    and read_apart: "write_at a bs s = Inr s' \<Longrightarrow> unat a + length bs \<le> unat b \<or> unat b + n \<le> unat a
          \<Longrightarrow> read_at b n s' = read_at b n s"
    and invariant_kept: "write_at a bs s = Inr s' \<Longrightarrow> invariant s \<Longrightarrow> invariant s'"
begin

text \<open>A value of any type with a codec is read back, and the last of two writes wins.\<close>

lemma value_read_back:
  assumes "write_at a (encode v) s = Inr s'" "readable a (length (encode v)) s" "decode (encode v) = v"
  shows "rbind (read_at a (length (encode v)) s') (\<lambda>bs. Inr (decode bs)) = Inr v"
  using read_back [OF assms(1,2)] assms(3) by simp

lemma last_write_wins:
  assumes "write_at a bs s = Inr s1" "write_at a cs s1 = Inr s2" "readable a (length cs) s"
  shows "read_at a (length cs) s2 = Inr cs"
  using read_back [OF assms(2)] rights_kept [OF assms(1)] assms(3) by simp

text \<open>Copying a range to another one that does not overlap it leaves both with the same bytes.\<close>

lemma copy_apart:
  assumes "read_at src n s = Inr bs" "write_at dst bs s = Inr s'" "readable dst n s"
    and "unat dst + n \<le> unat src \<or> unat src + n \<le> unat dst"
  shows "read_at src n s' = Inr bs" "read_at dst n s' = Inr bs"
  using read_length [OF assms(1)] read_apart [OF assms(2), of src n] read_back [OF assms(2)] assms(1,3,4)
  by auto

end

section \<open>The accesses of the Mmu\<close>

definition read_bytes :: "u64 \<Rightarrow> nat \<Rightarrow> mmu \<Rightarrow> u8 list result" where
  "read_bytes a n m = rbind (getReadPtr a m) (\<lambda>p. load_bytes p n m)"

definition write_bytes :: "u64 \<Rightarrow> u8 list \<Rightarrow> mmu \<Rightarrow> mmu result" where
  "write_bytes a bs m = rbind (getWritePtr a m) (\<lambda>p. store_bytes p bs m)"

definition can_read :: "u64 \<Rightarrow> nat \<Rightarrow> mmu \<Rightarrow> bool" where
  "can_read a n m = (getReadPtr a m = Inr a \<and> unat a + n \<le> unat (memorySize m))"

lemma getReadPtr_value: "getReadPtr a m = Inr p \<Longrightarrow> p = a"
  by (auto simp: getReadPtr_def rbind_eq_Inr split: option.splits)

lemma getWritePtr_value: "getWritePtr a m = Inr p \<Longrightarrow> p = a"
  by (auto simp: getWritePtr_def rbind_eq_Inr split: option.splits)

lemma getReadPtr_bytes [simp]: "getReadPtr a (m\<lparr>mem_bytes := b\<rparr>) = getReadPtr a m"
  by (simp add: getReadPtr_def findAddress_def deref_def Let_def)

lemma getWritePtr_bytes [simp]: "getWritePtr a (m\<lparr>mem_bytes := b\<rparr>) = getWritePtr a m"
  by (simp add: getWritePtr_def findAddress_def deref_def Let_def)

lemma mmu_inv_bytes [simp]: "mmu_inv C (m\<lparr>mem_bytes := b\<rparr>) = mmu_inv C m"
  by (simp add: mmu_inv_def)

lemma read_bytes_Inr:
  "read_bytes a n m = Inr bs \<longleftrightarrow> can_read a n m \<and> bs = map (\<lambda>i. mem_bytes m (a + word_of_nat i)) [0..<n]"
  by (auto simp: read_bytes_def can_read_def rbind_eq_Inr load_bytes_def dest: getReadPtr_value split: if_splits)

definition stored :: "u64 \<Rightarrow> u8 list \<Rightarrow> (u64 \<Rightarrow> u8) \<Rightarrow> u64 \<Rightarrow> u8" where
  "stored p bs b = (\<lambda>a. if unat (a - p) < length bs then bs ! unat (a - p) else b a)"

lemma write_bytes_Inr:
  "write_bytes a bs m = Inr m' \<longleftrightarrow> getWritePtr a m = Inr a \<and> unat a + length bs \<le> unat (memorySize m)
     \<and> m' = m\<lparr>mem_bytes := stored a bs (mem_bytes m)\<rparr>"
  by (auto simp: write_bytes_def rbind_eq_Inr store_bytes_def stored_def dest: getWritePtr_value split: if_splits)

lemma stored_inside:
  assumes "i < length bs" "unat a + length bs < 2 ^ 64 + 1"
  shows "stored a bs b (a + word_of_nat i) = bs ! i"
proof -
  have "i < 2 ^ 64" using assms by linarith
  then have "unat (a + word_of_nat i - a) = i" by (simp add: unat_of_nat_small)
  with assms(1) show ?thesis by (simp add: stored_def)
qed

lemma stored_outside:
  assumes "unat a + length bs \<le> unat x \<or> unat x < unat a" "unat a + length bs \<le> 2 ^ 64"
  shows "stored a bs b x = b x"
proof -
  have "length bs \<le> unat (x - a)"
  proof (cases "unat x < unat a")
    case True
    then have "unat (x - a) = 2 ^ 64 + unat x - unat a"
      using unat_lt_2p [of a] by (simp add: unat_sub_if')
    then show ?thesis using assms(2) by linarith
  next
    case False
    then have "unat (x - a) = unat x - unat a" by (simp add: unat_sub_no_wrap)
    then show ?thesis using assms(1) False by linarith
  qed
  then show ?thesis by (simp add: stored_def)
qed

lemma unat_offset:
  fixes b M :: u64
  assumes "unat b + n \<le> unat M" "i < n"
  shows "unat (b + word_of_nat i) = unat b + i"
proof -
  have "unat M < 2 ^ 64" using unat_lt_2p [of M] by simp
  then have "i < 2 ^ 64" "unat b + i < 2 ^ 64" using assms by linarith+
  moreover from this(1) have "unat (word_of_nat i :: u64) = i" by (rule unat_of_nat_small)
  ultimately show ?thesis using unat_add_no_wrap [of b "word_of_nat i"] by simp
qed

interpretation mmu_memory: byte_memory read_bytes write_bytes can_read "mmu_inv C" for C
proof (unfold_locales, goal_cases)
  case (1 a n s)
  then show ?case by (simp add: read_bytes_Inr)
next
  case (2 a n s bs)
  then show ?case by (simp add: read_bytes_Inr)
next
  case (3 a bs s s' b n)
  then show ?case by (auto simp: write_bytes_Inr can_read_def)
next
  case (4 a bs s s')
  have "unat (memorySize s) < 2 ^ 64" using unat_lt_2p [of "memorySize s"] by simp
  then have "unat a + length bs < 2 ^ 64 + 1" using 4 by (simp add: write_bytes_Inr)
  note inside = stored_inside [OF _ this]
  have "map (\<lambda>i. stored a bs (mem_bytes s) (a + word_of_nat i)) [0..<length bs] = bs"
    by (rule nth_equalityI) (simp_all add: inside)
  then show ?case using 4 by (auto simp: write_bytes_Inr read_bytes_Inr can_read_def)
next
  case (5 a bs s s' b n)
  have "unat (memorySize s) < 2 ^ 64" using unat_lt_2p [of "memorySize s"] by simp
  then have a: "unat a + length bs \<le> 2 ^ 64" using 5(1) by (simp add: write_bytes_Inr)
  have s': "s' = s\<lparr>mem_bytes := stored a bs (mem_bytes s)\<rparr>" using 5(1) by (simp add: write_bytes_Inr)
  have "stored a bs (mem_bytes s) (b + word_of_nat i) = mem_bytes s (b + word_of_nat i)"
    if "unat b + n \<le> unat (memorySize s)" "i < n" for i
    using stored_outside [OF _ a] unat_offset [OF that] 5(2) that(2) by auto
  then have "load_bytes b n s' = load_bytes b n s" by (simp add: load_bytes_def s')
  then show ?case
    unfolding read_bytes_def
    by (cases "getReadPtr b s") (use s' in \<open>auto dest: getReadPtr_value\<close>)
next
  case (6 a bs s s')
  then show ?case by (simp add: write_bytes_Inr)
qed

section \<open>Typed accesses\<close>

lemma mmu_read_bytes: "mmu_read a m = rbind (read_bytes a (LENGTH('a::len) div 8) m) (\<lambda>bs. Inr (join_lanes bs :: 'a word))"
  by (cases "getReadPtr a m") (simp_all add: mmu_read_def read_bytes_def)

lemma mmu_write_bytes: "mmu_write a v m = write_bytes a (split_lanes v) m"
  by (simp add: mmu_write_def write_bytes_def)

lemma mmu_read128_bytes: "mmu_read128 a m = rbind (read_bytes a 16 m) (\<lambda>bs. Inr (join128 bs))"
  by (cases "getReadPtr a m") (simp_all add: mmu_read128_def read_bytes_def)

text \<open>
  C34. A value of any whole number of bytes written to readable memory is read back, every value
  whose bytes lie apart from it reads as before, and the address space stays well-formed.
\<close>

theorem mmu_write_read:
  fixes v :: "'a::len word"
  assumes "LENGTH('a) = n * 8" "mmu_inv C m" "mmu_write a v m = Inr m'" "getReadPtr a m = Inr a"
    and "unat a + n \<le> unat b \<or> unat b + LENGTH('b) div 8 \<le> unat a"
  shows "mmu_read a m' = Inr v \<and> mmu_read b m' = (mmu_read b m :: 'b::len word result) \<and> mmu_inv C m'"
proof -
  have w: "write_bytes a (split_lanes v) m = Inr m'" using assms(3) by (simp add: mmu_write_bytes)
  have len: "length (split_lanes v :: u8 list) = n" "LENGTH('a) div 8 = n" using assms(1) by simp_all
  have "can_read a (length (split_lanes v :: u8 list)) m"
    using assms(4) w by (simp add: can_read_def write_bytes_Inr)
  moreover have "join_lanes (split_lanes v :: u8 list) = v"
    by (rule join_split_lanes) (simp add: assms(1))
  ultimately have "rbind (read_bytes a n m') (\<lambda>bs. Inr (join_lanes bs)) = Inr v"
    using mmu_memory.value_read_back [where encode = split_lanes and decode = join_lanes, OF w]
    unfolding len by blast
  moreover have "read_bytes b (LENGTH('b) div 8) m' = read_bytes b (LENGTH('b) div 8) m"
    using mmu_memory.read_apart [OF w] assms(5) unfolding len by blast
  ultimately show ?thesis
    using mmu_memory.invariant_kept [OF w assms(2)] by (simp add: mmu_read_bytes len)
qed

theorem mmu_write_read_witness:
  "\<exists>m'. mmu_write 0x10ffe (0x11223344 :: u32) sample_mmu = Inr m' \<and> mmu_read 0x10ffe m' = Inr (0x11223344 :: u32)
     \<and> mmu_read 0x11002 m' = (mmu_read 0x11002 sample_mmu :: u64 result)"
proof -
  have f: "findAddress 0x10ffe sample_mmu = Inr (Some 0)"
    by (simp add: findAddress_at [OF sample_inv] region_at_def sample_heap covers_def)
       (simp add: sample_region_def rlo_def rhi_def)
  have d: "deref 0 sample_mmu = Inr (active sample_region)"
    by (simp add: deref_def sample_heap) (simp add: sample_region_def)
  have p: "rprot sample_region = 3" by (simp add: sample_region_def)
  have r: "getReadPtr 0x10ffe sample_mmu = Inr 0x10ffe" "getWritePtr 0x10ffe sample_mmu = Inr 0x10ffe"
    by (simp_all add: getReadPtr_def getWritePtr_def f d p flag_test_def PROT_READ_def PROT_WRITE_def)
  then obtain m' where "mmu_write 0x10ffe (0x11223344 :: u32) sample_mmu = Inr m'"
    by (simp add: mmu_write_def store_bytes_def)
  then show ?thesis
    using mmu_write_read [where n = 4 and C = "{}" and v = "0x11223344 :: u32" and a = "0x10ffe" and m = sample_mmu
        and m' = m' and b = "0x11002" and 'b = 64] sample_inv r(1)
    by simp
qed

section \<open>Rights\<close>

lemma getReadPtr_mapping:
  assumes "mmu_inv C m"
  shows "getReadPtr a m = (case mapping m (unat a) of
    None \<Rightarrow> Inl VerifyFailed
  | Some (p, n) \<Rightarrow> if flag_test p PROT_READ then Inr a else Inl VerifyFailed)"
  using region_at_SomeD [of "regions m" "unat a"]
  by (auto simp: getReadPtr_def findAddress_at [OF assms] mapping_def deref_rid [OF assms] verify_def split: option.splits)

lemma getWritePtr_mapping:
  assumes "mmu_inv C m"
  shows "getWritePtr a m = (case mapping m (unat a) of
    None \<Rightarrow> Inl VerifyFailed
  | Some (p, n) \<Rightarrow> if flag_test p PROT_WRITE then Inr a else Inl VerifyFailed)"
  using region_at_SomeD [of "regions m" "unat a"]
  by (auto simp: getWritePtr_def findAddress_at [OF assms] mapping_def deref_rid [OF assms] verify_def split: option.splits)

text \<open>
  C35. The null page guards the bottom of memory: on a well-formed address space with nothing mapped
  below 64 KiB, \<open>ensureNullPage\<close> succeeds, keeps everything else, and from then on every read and
  every write of any width whose first byte lies below 64 KiB fails a verification.
\<close>

theorem ensureNullPage_guards:
  assumes "mmu_inv C m" "host_grants host m" "65536 \<le> unat (memorySize m)" "free_in 0 65536 (mapping m)"
  shows "\<exists>m'. ensureNullPage host m = Inr m'
    \<and> updated C m (mapped_in 0 65536 (PROT_NONE, ''nullpage'') (mapping m)) (mem_bytes m) m'
    \<and> (\<forall>a v w. unat a < 65536 \<longrightarrow> mmu_read a m' = (Inl VerifyFailed :: 'a::len word result)
          \<and> mmu_write a (v :: 'b::len word) m' = Inl VerifyFailed
          \<and> mmu_xchg a (w :: 'c::len word) m' = Inl VerifyFailed)"
proof -
  have "region_at (regions m) 0 = None"
    using assms(4) by (simp add: free_in_def mapping_def)
  moreover have "\<not> collides 0 65536 (extents m)"
    using collides_mapping [OF assms(1), of 0 65536] assms(4) by simp
  ultimately obtain m' where m': "ensureNullPage host m = Inr m'"
    "effect C m (insert (0, 65536, PROT_NONE, ''nullpage'') (extents m)) (mem_bytes m) m'"
    using succeeds [OF ensureNullPage_effect(2) [OF assms(1) _ assms(2,3)]] by blast
  have u: "updated C m (mapped_in 0 65536 (PROT_NONE, ''nullpage'') (mapping m)) (mem_bytes m) m'"
    by (rule updatedI [OF m'(2)]) (rule holds_mapped_free [OF assms(1,4)])
  then have inv: "mmu_inv C m'" and map: "mapping m' = mapped_in 0 65536 (PROT_NONE, ''nullpage'') (mapping m)"
    by (simp_all add: updated_def)
  have "getReadPtr a m' = Inl VerifyFailed" "getWritePtr a m' = Inl VerifyFailed" if "unat a < 65536" for a
    using that by (simp_all add: getReadPtr_mapping [OF inv] getWritePtr_mapping [OF inv] map mapped_in_def
        flag_test_def PROT_NONE_def)
  with m'(1) u show ?thesis
    by (auto simp: mmu_read_def mmu_write_def mmu_xchg_def)
qed

theorem ensureNullPage_guards_witness:
  "\<exists>m'. ensureNullPage granting sample_mmu = Inr m' \<and> mmu_read 8 m' = (Inl VerifyFailed :: u32 result)"
proof -
  have "free_in 0 65536 (mapping sample_mmu)" by (simp add: free_in_def sample_mapping)
  then obtain m' where "ensureNullPage granting sample_mmu = Inr m'"
    "\<forall>a v w. unat a < 65536 \<longrightarrow> mmu_read a m' = (Inl VerifyFailed :: u32 result)
          \<and> mmu_write a (v :: u8) m' = Inl VerifyFailed \<and> mmu_xchg a (w :: u8) m' = Inl VerifyFailed"
    using ensureNullPage_guards [OF sample_inv, of granting, where 'a = 32 and 'b = 8 and 'c = 8] by auto
  moreover have "unat (8 :: u64) < 65536" by simp
  ultimately show ?thesis by blast
qed

section \<open>Strings\<close>

lemma mmu_read8: "mmu_read a m = Inr (c :: u8) \<longleftrightarrow> can_read a 1 m \<and> c = mem_bytes m a"
  by (auto simp: mmu_read_bytes rbind_eq_Inr read_bytes_Inr)

lemma scan_string_finds:
  assumes "\<And>i. i < n \<Longrightarrow> \<exists>c::u8. mmu_read (a + word_of_nat i) m = Inr c \<and> c \<noteq> 0"
    and "mmu_read (a + word_of_nat n) m = Inr (0 :: u8)"
  shows "scan_string a m = Inr (a + word_of_nat n + 1)"
  using assms
proof (induction n arbitrary: a)
  case 0
  then show ?case by (simp add: scan_string.simps)
next
  case (Suc n)
  from Suc.prems(1) [of 0] obtain c :: u8 where "mmu_read a m = Inr c" "c \<noteq> 0" by auto
  moreover have "scan_string (a + 1) m = Inr (a + 1 + word_of_nat n + 1)"
  proof (rule Suc.IH)
    show "\<exists>c::u8. mmu_read (a + 1 + word_of_nat i) m = Inr c \<and> c \<noteq> 0" if "i < n" for i
      using Suc.prems(1) [of "Suc i"] that by (simp add: algebra_simps)
    show "mmu_read (a + 1 + word_of_nat n) m = Inr (0 :: u8)"
      using Suc.prems(2) by (simp add: algebra_simps)
  qed
  ultimately show ?case by (simp add: scan_string.simps algebra_simps)
qed

lemma scan_string_result:
  assumes "scan_string a m = Inr e"
  shows "\<exists>n. e = a + word_of_nat n + 1 \<and> mmu_read (a + word_of_nat n) m = Inr (0 :: u8)
    \<and> (\<forall>i<n. \<exists>c::u8. mmu_read (a + word_of_nat i) m = Inr c \<and> c \<noteq> 0)"
  using assms
proof (induction a m arbitrary: e rule: scan_string.induct)
  case (1 a m)
  from "1.prems" obtain c :: u8 where c: "mmu_read a m = Inr c"
    by (auto simp: scan_string.simps split: sum.splits)
  show ?case
  proof (cases "c = 0")
    case True
    then show ?thesis using "1.prems" c by (intro exI [of _ 0]) (simp add: scan_string.simps)
  next
    case False
    then have "scan_string (a + 1) m = Inr e" using "1.prems" c by (simp add: scan_string.simps)
    from "1.IH" [OF c False this] obtain n where n: "e = a + 1 + word_of_nat n + 1"
      "mmu_read (a + 1 + word_of_nat n) m = Inr (0 :: u8)"
      "\<forall>i<n. \<exists>c::u8. mmu_read (a + 1 + word_of_nat i) m = Inr c \<and> c \<noteq> 0" by blast
    have "\<exists>c::u8. mmu_read (a + word_of_nat i) m = Inr c \<and> c \<noteq> 0" if "i < Suc n" for i
    proof (cases i)
      case 0
      then show ?thesis using c False by simp
    next
      case (Suc j)
      then show ?thesis using n(3) that by (simp add: algebra_simps)
    qed
    with n(1,2) show ?thesis by (intro exI [of _ "Suc n"]) (simp add: algebra_simps)
  qed
qed

lemma readString_terminated:
  assumes z: "mmu_read (a + word_of_nat n) m = Inr (0 :: u8)"
    and nz: "\<And>i. i < n \<Longrightarrow> \<exists>c::u8. mmu_read (a + word_of_nat i) m = Inr c \<and> c \<noteq> 0"
  shows "readString a m = Inr s \<longleftrightarrow> s = map (\<lambda>i. mem_bytes m (a + word_of_nat i)) [0..<n]"
proof -
  let ?bs = "map (\<lambda>i. mem_bytes m (a + word_of_nat i))"
  have M: "unat (memorySize m) < 2 ^ 64" using unat_lt_2p [of "memorySize m"] by simp
  have range: "unat a + i < unat (memorySize m) \<and> unat (a + word_of_nat i) = unat a + i" if "i \<le> n" for i
    using that
  proof (induction i)
    case 0
    have "\<exists>c::u8. mmu_read a m = Inr c" using z nz [of 0] by (cases n) auto
    then show ?case using mmu_read_in_range by auto
  next
    case (Suc i)
    then have "unat a + i < unat (memorySize m)" "unat (a + word_of_nat i) = unat a + i" by simp_all
    then have step: "unat (a + word_of_nat i + 1) = unat a + Suc i"
      using M by (simp add: unat_add_no_wrap)
    have "\<exists>c::u8. mmu_read (a + word_of_nat (Suc i)) m = Inr c"
      using z nz [of "Suc i"] Suc.prems by (cases "Suc i = n") auto
    then have "unat (a + word_of_nat (Suc i)) < unat (memorySize m)" using mmu_read_in_range by blast
    with step show ?case by (simp add: algebra_simps)
  qed
  have "can_read a 1 m" using z nz [of 0] by (cases n) (auto simp: mmu_read8)
  then have can: "can_read a (Suc n) m" using range [of n] by (simp add: can_read_def)
  have n: "n < 2 ^ 64" using range [of n] M by simp
  have scan: "scan_string a m = Inr (a + word_of_nat n + 1)"
    by (rule scan_string_finds) (use nz z in auto)
  have "Suc n < 2 ^ 64" using range [of n] M by linarith
  then have len: "unat (a + word_of_nat n + 1 - a) = Suc n"
    using unat_of_nat_small [of "Suc n"] by (simp add: algebra_simps)
  have copy: "copyFromMmu a (Suc n) m = Inr (?bs [0..<Suc n])"
    using can by (auto simp: copyFromMmu_def read_bytes_def [symmetric] read_bytes_Inr)
  have zero: "mem_bytes m (a + word_of_nat n) = 0" using z by (simp add: mmu_read8)
  have nonzero: "\<forall>c\<in>set (?bs [0..<n]). c \<noteq> 0" using nz by (auto simp: mmu_read8)
  have "?bs [0..<Suc n] = ?bs [0..<n] @ [0]" by (simp add: zero)
  then have "takeWhile (\<lambda>c. c \<noteq> 0) (?bs [0..<Suc n]) = ?bs [0..<n]"
    using takeWhile_append2 [of "?bs [0..<n]" "\<lambda>c. c \<noteq> 0" "[0]"] nonzero by simp
  then show ?thesis
    unfolding readString_def scan rbind_simps len copy
    by (auto simp: verify_def zero last_map simp del: upt_Suc)
qed

text \<open>
  C36. \<open>readString\<close> returns \<open>s\<close> exactly when the bytes from the address on, each readable, are those of
  \<open>s\<close>, none of them zero, followed by a zero byte; in particular its scan always ends.
\<close>

theorem readString_iff:
  "readString a m = Inr s \<longleftrightarrow> (0 \<notin> set s
     \<and> (\<forall>i\<le>length s. mmu_read (a + word_of_nat i) m = Inr ((s @ [0]) ! i :: u8)))"
proof -
  show ?thesis
  proof
    assume r: "readString a m = Inr s"
    then obtain e where "scan_string a m = Inr e" by (auto simp: readString_def rbind_eq_Inr)
    from scan_string_result [OF this] obtain n where z: "mmu_read (a + word_of_nat n) m = Inr (0 :: u8)"
      and nz: "\<And>i. i < n \<Longrightarrow> \<exists>c::u8. mmu_read (a + word_of_nat i) m = Inr c \<and> c \<noteq> 0" by blast
    have s: "s = map (\<lambda>i. mem_bytes m (a + word_of_nat i)) [0..<n]" using readString_terminated [OF z nz] r by simp
    then have "0 \<notin> set s" "length s = n" using nz by (auto simp: mmu_read8)
    moreover have "mmu_read (a + word_of_nat i) m = Inr ((s @ [0]) ! i :: u8)" if "i \<le> n" for i
      using nz [of i] z that s by (cases "i = n") (auto simp: mmu_read8 nth_append)
    ultimately show "0 \<notin> set s \<and> (\<forall>i\<le>length s. mmu_read (a + word_of_nat i) m = Inr ((s @ [0]) ! i :: u8))"
      by simp
  next
    assume s: "0 \<notin> set s \<and> (\<forall>i\<le>length s. mmu_read (a + word_of_nat i) m = Inr ((s @ [0]) ! i :: u8))"
    have z: "mmu_read (a + word_of_nat (length s)) m = Inr (0 :: u8)" using s by (auto simp: nth_append)
    have nth: "mmu_read (a + word_of_nat i) m = Inr (s ! i)" "s ! i \<noteq> 0" if "i < length s" for i
      using s that by (auto simp: nth_append) (metis nth_mem)
    have "s = map (\<lambda>i. mem_bytes m (a + word_of_nat i)) [0..<length s]"
      by (rule nth_equalityI) (use nth(1) in \<open>auto simp: mmu_read8\<close>)
    then show "readString a m = Inr s" using readString_terminated [OF z] nth by blast
  qed
qed

text \<open>
  An empty string in the sample's zeroed heap.
\<close>

theorem readString_iff_witness: "readString 0x10010 sample_mmu = Inr []"
proof -
  have "mem_bytes sample_mmu = (\<lambda>_. 0)"
    by (simp add: sample_mmu_def added_def tryCreate_def settled_bytes_def) (simp add: sample_region_def)
  then show ?thesis
    by (simp add: readString_iff mmu_read8 can_read_def getReadPtr_mapping [OF sample_inv] sample_mapping
        flag_test_def PROT_READ_def)
qed

end
