(* ===== verification/X64_MmuReach.thy ===== *)
theory X64_MmuReach
  imports X64_MmuMemory
begin

text \<open>
  The Mmu as a state machine: one step is a successful call of an operation that changes the
  address space, and the reachable states start from the empty address space of
  \<^verbatim>\<open>AddressSpace::tryCreate\<close>. The host is arbitrary: no theorem here
  relies on its \<^verbatim>\<open>mprotect\<close>.
\<close>

inductive mmu_step :: "host_mprotect \<Rightarrow> mmu \<Rightarrow> mmu \<Rightarrow> bool" for host where
  step_mmap: "mmap host a len prot flags m = Inr (res, m') \<Longrightarrow> mmu_step host m m'"
| step_munmap: "munmap host a len m = Inr (ret, m') \<Longrightarrow> mmu_step host m m'"
| step_mprotect: "mprotect host a len prot m = Inr (ret, m') \<Longrightarrow> mmu_step host m m'"
| step_brk: "brk host a m = Inr (res', m') \<Longrightarrow> mmu_step host m m'"
| step_name: "setRegionName a name m = Inr m' \<Longrightarrow> mmu_step host m m'"
| step_clear: "clearAllRegions host m = Inr m' \<Longrightarrow> mmu_step host m m'"
| step_null: "ensureNullPage host m = Inr m' \<Longrightarrow> mmu_step host m m'"
| step_store: "copyToMmu a bs m = Inr m' \<Longrightarrow> mmu_step host m m'"
| step_copy: "copyBytes dst src n m = Inr m' \<Longrightarrow> mmu_step host m m'"
| step_write: "mmu_write a (v :: u64) m = Inr m' \<Longrightarrow> mmu_step host m m'"
| step_xchg: "mmu_xchg a (v :: u64) m = Inr (old, m') \<Longrightarrow> mmu_step host m m'"
| step_clone: "clone host source m = Inr m' \<Longrightarrow> mmu_step host m m'"

text \<open>
  \<open>C\<close> is the set of callbacks registered, for the first time, while no region existed, and not
  removed since.
\<close>

inductive mmu_reachable :: "host_mprotect \<Rightarrow> nat set \<Rightarrow> mmu \<Rightarrow> bool" for host where
  created: "mmu_reachable host {} (tryCreate mb base)"
| observed: "mmu_reachable host C m \<Longrightarrow> regions m = [] \<Longrightarrow> c \<notin> fst ` set (events m)
    \<Longrightarrow> mmu_reachable host (insert c C) (addCallback c m)"
| registered: "mmu_reachable host C m \<Longrightarrow> mmu_reachable host C (addCallback c m)"
| removed: "mmu_reachable host C m \<Longrightarrow> mmu_reachable host (C - {c}) (removeCallback c m)"
| stepped: "mmu_reachable host C m \<Longrightarrow> mmu_step host m m' \<Longrightarrow> mmu_reachable host C m'"

section \<open>Every step keeps the invariant\<close>

lemma outcome_InrD: "outcome P Q res \<Longrightarrow> res = Inr x \<Longrightarrow> Q x"
  by simp

lemma aligned_call:
  assumes "rbind (verify (isPageAligned a)) f = Inr x"
  shows "page_aligned (unat a)"
  using assms by (simp add: isPageAligned_unat verify_def split: if_splits)

lemma mmap_keeps:
  assumes inv: "mmu_inv C m" and call: "mmap host a len prot flags m = Inr (res, m')"
  shows "mmu_inv C m'"
proof -
  have a: "page_aligned (unat a)" using call unfolding mmap_def by (rule aligned_call)
  show ?thesis
  proof (cases "flag_test flags MAP_FIXED")
    case True
    show ?thesis
      using outcome_InrD [OF mmap_fixed_effect [OF inv a True refl refl refl] call] inv
      by (auto simp: mapped_def Let_def effect_def split: if_splits)
  next
    case False
    show ?thesis
      using outcome_InrD [OF mmap_anywhere_effect [OF inv a False refl] call] inv
      by (auto simp: mapped_def Let_def effect_def split: option.splits)
  qed
qed

lemma munmap_keeps:
  assumes inv: "mmu_inv C m" and call: "munmap host a len m = Inr (ret, m')"
  shows "mmu_inv C m'"
proof -
  have a: "page_aligned (unat a)" using call unfolding munmap_def by (rule aligned_call)
  show ?thesis using outcome_InrD [OF munmap_effect [OF inv a] call] by (simp add: effect_def)
qed

lemma mprotect_keeps:
  assumes inv: "mmu_inv C m" and call: "mprotect host a len q m = Inr (ret, m')"
  shows "mmu_inv C m'"
proof -
  have a: "page_aligned (unat a)" using call unfolding mprotect_def by (rule aligned_call)
  show ?thesis
    using outcome_InrD [OF mprotect_effect [OF inv a] call] inv by (auto simp: effect_def split: if_splits)
qed

lemma brk_keeps:
  assumes inv: "mmu_inv C m" and call: "brk host a m = Inr (res, m')"
  shows "mmu_inv C m'"
proof -
  from call obtain r where r: "findRegion ''heap'' m = Some r"
    by (auto simp: brk_def split: option.splits)
  show ?thesis
    using outcome_InrD [OF brk_effect [OF inv r] call] inv by (auto simp: effect_def split: if_splits)
qed

lemma setRegionName_keeps:
  assumes inv: "mmu_inv C m" and call: "setRegionName a name m = Inr m'"
  shows "mmu_inv C m'"
  using setRegionName_effect [OF inv, of a name] call by (auto simp: effect_def split: option.splits)

lemma store_keeps:
  "store_bytes p bs m = Inr m' \<Longrightarrow> mmu_inv C m \<Longrightarrow> mmu_inv C m'"
  by (auto simp: store_bytes_def split: if_splits)

lemma copyToMmu_keeps:
  "copyToMmu a bs m = Inr m' \<Longrightarrow> mmu_inv C m \<Longrightarrow> mmu_inv C m'"
  by (auto simp: copyToMmu_def rbind_eq_Inr store_keeps split: if_splits)

lemma clone_keeps:
  assumes "mmu_inv C m" "clone host source m = Inr m'"
  shows "mmu_inv C m'"
proof -
  have region: "mmu_inv C m'" if call: "clone_region host source r m = Inr m'" and inv: "mmu_inv C m" for r m m'
  proof -
    from call obtain b m1 where m1: "mmap host (rbase r) (rsize r) (flag_add PROT_READ PROT_WRITE)
        (flag_add (flag_add (flag_add MAP_ANONYMOUS MAP_PRIVATE) MAP_FIXED) MAP_NO_REPLACE) m = Inr (b, m1)"
      and rest1: "(case b of None \<Rightarrow> Inl VerifyFailed | Some base \<Rightarrow>
         rbind (setRegionName base (rname r) m1) (\<lambda>m.
         rbind (if flag_test (rprot r) PROT_READ
                then rbind (load_bytes (rbase r) (unat (rsize r)) source) (\<lambda>bs. copyToMmu base bs m)
                else Inr m) (\<lambda>m.
         rbind (mprotect host base (rsize r) (rprot r) m) (\<lambda>(_, m). Inr m)))) = Inr m'"
      unfolding clone_region_def rbind_eq_Inr by (metis (no_types, lifting) prod.case prod.exhaust)
    then obtain p m2 m3 where p: "b = Some p" and m2: "setRegionName p (rname r) m1 = Inr m2"
      and m3: "(if flag_test (rprot r) PROT_READ
                then rbind (load_bytes (rbase r) (unat (rsize r)) source) (\<lambda>bs. copyToMmu p bs m2)
                else Inr m2) = Inr m3"
      and rest3: "rbind (mprotect host p (rsize r) (rprot r) m3) (\<lambda>(_, m). Inr m) = Inr m'"
      by (cases b) (auto simp: rbind_eq_Inr [of "setRegionName _ _ _"] rbind_eq_Inr [of "if _ then _ else _"])
    obtain ret where m4: "mprotect host p (rsize r) (rprot r) m3 = Inr (ret, m')"
      using rest3 by (auto simp: rbind_eq_Inr)
    have steps: "m3 = m2 \<or> (\<exists>bs. copyToMmu p bs m2 = Inr m3)"
      using m3 by (auto simp: rbind_eq_Inr split: if_splits)
    have "mmu_inv C m1" by (rule mmap_keeps [OF inv m1])
    then have "mmu_inv C m2" by (rule setRegionName_keeps [OF _ m2])
    then have "mmu_inv C m3" using steps copyToMmu_keeps by metis
    then show ?thesis by (rule mprotect_keeps [OF _ m4])
  qed
  have "mmu_inv C m'" if "clone_regions host source rs m = Inr m'" "mmu_inv C m" for rs m
    using that by (induction rs arbitrary: m) (auto simp: rbind_eq_Inr dest: region)
  with assms show ?thesis by (auto simp: clone_def rbind_eq_Inr)
qed

lemma mmu_step_keeps:
  assumes "mmu_step host m m'" "mmu_inv C m"
  shows "mmu_inv C m'"
  using assms(1)
proof cases
  case step_clear
  then show ?thesis
    using outcome_InrD [OF clear_loop_effect [OF assms(2) refl]] by (simp add: clearAllRegions_def)
next
  case step_null
  then show ?thesis
    using outcome_InrD [OF ensureNullPage_effect(1) [OF assms(2)]] assms(2) by (auto simp: effect_def)
next
  case (step_copy dst src n)
  then show ?thesis using assms(2) by (auto simp: copyBytes_def rbind_eq_Inr store_keeps)
next
  case (step_write a v)
  then show ?thesis using assms(2) by (auto simp: mmu_write_def rbind_eq_Inr store_keeps)
next
  case (step_xchg a v old)
  then show ?thesis using assms(2) by (auto simp: mmu_xchg_def rbind_eq_Inr store_keeps)
next
  case step_mmap
  then show ?thesis by (rule mmap_keeps [OF assms(2)])
next
  case step_munmap
  then show ?thesis by (rule munmap_keeps [OF assms(2)])
next
  case step_mprotect
  then show ?thesis by (rule mprotect_keeps [OF assms(2)])
next
  case step_brk
  then show ?thesis by (rule brk_keeps [OF assms(2)])
next
  case step_name
  then show ?thesis by (rule setRegionName_keeps [OF assms(2)])
next
  case step_store
  then show ?thesis using assms(2) by (rule copyToMmu_keeps)
next
  case step_clone
  then show ?thesis by (rule clone_keeps [OF assms(2)])
qed

lemma addCallback_keeps:
  "mmu_inv C m \<Longrightarrow> mmu_inv C (addCallback c m)"
  by (auto simp: mmu_inv_def addCallback_def)

lemma replay_unknown:
  assumes "c \<notin> fst ` set es" shows "replay c es = {}"
proof -
  have "fold (\<lambda>(d, e) S. if d = c then apply_event e S else S) es S = S" for S
    using assms by (induction es arbitrary: S) auto
  then show ?thesis by (simp add: replay_def)
qed

lemma observe_keeps:
  assumes "mmu_inv C m" "regions m = []" "c \<notin> fst ` set (events m)"
  shows "mmu_inv (insert c C) (addCallback c m)"
  using assms replay_unknown [OF assms(3)] by (auto simp: mmu_inv_def addCallback_def)

lemma removeCallback_keeps:
  "mmu_inv C m \<Longrightarrow> mmu_inv (C - {c}) (removeCallback c m)"
  by (auto simp: mmu_inv_def removeCallback_def)

lemma reachable_inv:
  "mmu_reachable host C m \<Longrightarrow> mmu_inv C m"
  by (induction rule: mmu_reachable.induct)
     (auto intro: mmu_inv_tryCreate observe_keeps addCallback_keeps removeCallback_keeps mmu_step_keeps)

text \<open>
  C37. After any sequence of successful calls from the creation of the address space on, whatever
  the host answered: the regions are page-aligned, not empty, inside the reserved memory, sorted and
  disjoint, and active; the lookup table, page by page, holds the region of the page or nothing; and a
  callback registered before the first region has been told exactly the regions that exist now, so
  replaying its events rebuilds them.
\<close>

theorem reachable_well_formed:
  assumes "mmu_reachable host C m"
  shows "sorted_wrt (\<lambda>p q. rend p \<le> rbase q) (regions m)
    \<and> list_all (\<lambda>r. isPageAligned (rbase r) \<and> isPageAligned (rend r) \<and> rbase r < rend r
         \<and> rend r \<le> memorySize m \<and> activated r) (regions m)
    \<and> (\<forall>i<length (regionLookup m). regionLookup m ! i
         = map_option rid (find (\<lambda>r. region_contains r (word_of_nat (4096 * i))) (regions m)))
    \<and> (\<forall>c\<in>C. replay c (events m) = shape_of ` set (regions m))"
proof -
  have inv: "mmu_inv C m" by (rule reachable_inv [OF assms])
  have M: "unat (memorySize m) < 2 ^ 64" using mmu_invD(1) [OF inv] by simp
  note ok = mmu_invD(3) [OF inv] and rend = unat_rend [OF mmu_invD(3) [OF inv] M]
  have "rend p \<le> rbase q" if "p \<in> set (regions m)" "q \<in> set (regions m)" "rhi p \<le> rlo q" for p q
    using that by (simp add: word_le_nat_alt rend rlo_def)
  then have sorted: "sorted_wrt (\<lambda>p q. rend p \<le> rbase q) (regions m)"
    by (rule sorted_wrt_mono_rel [OF _ mmu_invD(8) [OF inv]])
  have "isPageAligned (rbase r)" "isPageAligned (rend r)" "rbase r < rend r" "rend r \<le> memorySize m" "activated r"
    if "r \<in> set (regions m)" for r
    using region_okD [OF ok [OF that]] mmu_invD(4) [OF inv that]
    by (simp_all add: isPageAligned_unat word_less_nat_alt word_le_nat_alt rend [OF that] rlo_def)
  then have each: "list_all (\<lambda>r. isPageAligned (rbase r) \<and> isPageAligned (rend r) \<and> rbase r < rend r
         \<and> rend r \<le> memorySize m \<and> activated r) (regions m)" by (simp add: list_all_iff)
  have "regionLookup m ! i = map_option rid (find (\<lambda>r. region_contains r (word_of_nat (4096 * i))) (regions m))"
    if "i < length (regionLookup m)" for i
  proof -
    have "4096 * i < 2 ^ 64" using mmu_invD(11) [OF inv] M that by linarith
    then have "unat (word_of_nat (4096 * i) :: u64) = 4096 * i" by (rule unat_of_nat_small)
    then have "find (\<lambda>r. region_contains r (word_of_nat (4096 * i))) (regions m) = region_at (regions m) (4096 * i)"
      unfolding region_at_def by (intro find_cong) (simp_all add: region_contains_covers [OF ok M])
    then show ?thesis using mmu_invD(9) [OF inv] that by (simp add: table_ok_def list_all_iff)
  qed
  with sorted each mmu_invD(13) [OF inv] show ?thesis by blast
qed

theorem reachable_well_formed_witness:
  "\<exists>m. mmu_reachable granting {7} m \<and> regions m \<noteq> []
    \<and> replay 7 (events m) = shape_of ` set (regions m)"
proof -
  let ?m = "addCallback 7 (tryCreate 1 0x100000)"
  have new: "mmu_reachable granting {7} ?m"
    by (rule observed [OF created]) (simp_all add: tryCreate_def)
  have "region_at (regions ?m) 0 = None" "\<not> collides 0 65536 (extents ?m)"
    by (simp_all add: region_at_def collides_def extents_def addCallback_def tryCreate_def)
  moreover have "host_grants granting ?m" "65536 \<le> unat (memorySize ?m)"
    by (simp_all add: host_grants_def addCallback_def tryCreate_def)
  ultimately obtain m' where m': "ensureNullPage granting ?m = Inr m'"
    "effect {7} ?m (insert (0, 65536, PROT_NONE, ''nullpage'') (extents ?m)) (mem_bytes ?m) m'"
    using succeeds [OF ensureNullPage_effect(2) [OF reachable_inv [OF new]]] by blast
  have r: "mmu_reachable granting {7} m'" by (rule stepped [OF new step_null [OF m'(1)]])
  have "extents m' \<noteq> {}" using m'(2) by (simp add: effect_def)
  then have "regions m' \<noteq> []" by (auto simp: extents_def)
  with r reachable_well_formed [OF r] show ?thesis by blast
qed

end
