(* ===== verification/X64_Cpu.thy ===== *)
theory X64_Cpu
  imports X64_Alu X64_Bits X64_Registers X64_MmuMemory
begin

text \<open>
  The processor, \<^verbatim>\<open>emulator/include/x64/cpu.h\<close> and
  \<^verbatim>\<open>emulator/src/x64/cpu.cpp\<close>: its state, the operands of instructions, the stack and the
  handlers of the integer instructions. A handler of the source takes a decoded instruction and picks
  its operands with \<^verbatim>\<open>op0<T>()\<close>, \<^verbatim>\<open>op1<T>()\<close>; the handler here takes the operands. The
  source spells every handler out per operand size; here a handler takes the size, and its line range
  is that of all its copies. Memory goes through the Mmu, and a failing access is a failing handler.

  The floating point state is left out. The objects registered as callbacks are outside the processor:
  what each of them is told is the log \<open>cpu_events\<close>. A handler whose C++ leaves the order of two
  operand evaluations open fixes one; where the order matters, it is an argument.
\<close>

section \<open>State\<close>

datatype cpu_event = OnSyscall | OnCall u64 | OnRet | OnStackChange u64

record cpu =
  cpu_flags :: flags
  cpu_regs :: registers
  cpu_mmu :: mmu
  segmentBase :: "segment \<Rightarrow> u64"
  cpu_events :: "cpu_event list"

type_synonym handler = "cpu \<Rightarrow> cpu result"

definition tell :: "cpu_event \<Rightarrow> cpu \<Rightarrow> cpu" where
  "tell e c = c\<lparr>cpu_events := cpu_events c @ [e]\<rparr>"

definition setSegmentBase :: "segment \<Rightarrow> u64 \<Rightarrow> cpu \<Rightarrow> cpu" where
  "setSegmentBase segment base c = c\<lparr>segmentBase := (segmentBase c)(segment := base)\<rparr>"

definition getSegmentBase :: "segment \<Rightarrow> cpu \<Rightarrow> u64" where
  "getSegmentBase segment c = segmentBase c segment"

text \<open>\<^verbatim>\<open>State\<close>, what \<^verbatim>\<open>save\<close> copies out and \<^verbatim>\<open>load\<close> copies back.\<close>

record cpu_state =
  state_flags :: flags
  state_regs :: registers
  state_segmentBase :: "segment \<Rightarrow> u64"

definition cpu_save :: "cpu \<Rightarrow> cpu_state" where
  "cpu_save c = \<lparr>state_flags = cpu_flags c, state_regs = cpu_regs c, state_segmentBase = segmentBase c\<rparr>"

definition cpu_load :: "cpu_state \<Rightarrow> cpu \<Rightarrow> cpu" where
  "cpu_load s c = c\<lparr>cpu_flags := state_flags s, cpu_regs := state_regs s, segmentBase := state_segmentBase s\<rparr>"

section \<open>Sizes and operands\<close>

text \<open>
  \<^verbatim>\<open>template<Size size>\<close>: the register names of a size and how the register file reads and
  writes them. Only a write to the register names that read as zero fails.
\<close>

type_synonym ('r, 'a) size_class =
  "(registers \<Rightarrow> 'r \<Rightarrow> 'a word) \<times> (registers \<Rightarrow> 'r \<Rightarrow> 'a word \<Rightarrow> registers result)"

definition BYTE :: "(r8, 8) size_class" where
  "BYTE = (get8, \<lambda>r q v. Inr (set8 r q v))"

definition WORD :: "(r16, 16) size_class" where
  "WORD = (get16, \<lambda>r q v. Inr (set16 r q v))"

definition DWORD :: "(r32, 32) size_class" where
  "DWORD = (get32, set32)"

definition QWORD :: "(r64, 64) size_class" where
  "QWORD = (get64, set64)"

text \<open>\<^verbatim>\<open>RM<size>\<close>, and a source operand that may also be an immediate.\<close>

datatype 'r rm = Reg 'r | Mem memory_operand
datatype 'r source = From "'r rm" | Immediate u64

definition cpu_get :: "('r, 'a::len) size_class \<Rightarrow> 'r \<Rightarrow> cpu \<Rightarrow> 'a word" where
  "cpu_get S r c = fst S (cpu_regs c) r"

definition cpu_set :: "('r, 'a::len) size_class \<Rightarrow> 'r \<Rightarrow> 'a word \<Rightarrow> handler" where
  "cpu_set S r v c = rbind (snd S (cpu_regs c) r v) (\<lambda>regs. Inr (c\<lparr>cpu_regs := regs\<rparr>))"

definition resolve :: "memory_operand \<Rightarrow> cpu \<Rightarrow> u64" where
  "resolve m c = getSegmentBase (mem_segment m) c + resolve64 (cpu_regs c) (mem_encoding m)"

definition get_ptr :: "u64 \<Rightarrow> cpu \<Rightarrow> 'a::len word result" where
  "get_ptr p c = mmu_read p (cpu_mmu c)"

definition set_ptr :: "u64 \<Rightarrow> 'a::len word \<Rightarrow> handler" where
  "set_ptr p v c = rbind (mmu_write p v (cpu_mmu c)) (\<lambda>m. Inr (c\<lparr>cpu_mmu := m\<rparr>))"

definition get_rm :: "('r, 'a::len) size_class \<Rightarrow> 'r rm \<Rightarrow> cpu \<Rightarrow> 'a word result" where
  "get_rm S x c = (case x of Reg r \<Rightarrow> Inr (cpu_get S r c) | Mem m \<Rightarrow> get_ptr (resolve m c) c)"

definition set_rm :: "('r, 'a::len) size_class \<Rightarrow> 'r rm \<Rightarrow> 'a word \<Rightarrow> handler" where
  "set_rm S x v c = (case x of Reg r \<Rightarrow> cpu_set S r v c | Mem m \<Rightarrow> set_ptr (resolve m c) v c)"

definition get_imm :: "u64 \<Rightarrow> 'a::len word" where
  "get_imm immediate = ucast immediate"

definition get_source :: "('r, 'a::len) size_class \<Rightarrow> 'r source \<Rightarrow> cpu \<Rightarrow> 'a word result" where
  "get_source S x c = (case x of From y \<Rightarrow> get_rm S y c | Immediate i \<Rightarrow> Inr (get_imm i))"

definition xchg_ptr :: "u64 \<Rightarrow> 'a::len word \<Rightarrow> cpu \<Rightarrow> ('a word \<times> cpu) result" where
  "xchg_ptr p v c = rbind (mmu_xchg p v (cpu_mmu c)) (\<lambda>(old, m). Inr (old, c\<lparr>cpu_mmu := m\<rparr>))"

definition xchg_rm :: "('r, 'a::len) size_class \<Rightarrow> 'r rm \<Rightarrow> 'a word \<Rightarrow> cpu \<Rightarrow> ('a word \<times> cpu) result" where
  "xchg_rm S x v c =
     (case x of Reg r \<Rightarrow> rbind (cpu_set S r v c) (\<lambda>c1. Inr (cpu_get S r c, c1))
      | Mem m \<Rightarrow> xchg_ptr (resolve m c) v c)"

text \<open>\<^verbatim>\<open>withExclusiveRegion\<close> with a function that may fail and changes the processor.\<close>

definition exclusive :: "u64 \<Rightarrow> ('a::len word \<Rightarrow> cpu \<Rightarrow> ('a word \<times> cpu) result) \<Rightarrow> handler" where
  "exclusive address modify c =
     rbind (findAddress address (cpu_mmu c)) (\<lambda>region.
     rbind (verify (region \<noteq> None)) (\<lambda>_.
     rbind (get_ptr address c) (\<lambda>oldValue.
     rbind (modify oldValue c) (\<lambda>(newValue, c1). set_ptr address newValue c1))))"

definition cpp_assert :: "bool \<Rightarrow> unit result" where
  "cpp_assert b = (if b then Inr () else Inl AssertFailed)"

section \<open>The stack\<close>

definition rsp :: "cpu \<Rightarrow> u64" where "rsp c = gpr_at (cpu_regs c) RSP"
definition rip :: "cpu \<Rightarrow> u64" where "rip c = gpr_at (cpu_regs c) RIP"
definition set_rsp :: "u64 \<Rightarrow> cpu \<Rightarrow> cpu" where
  "set_rsp v c = c\<lparr>cpu_regs := gpr_set (cpu_regs c) RSP v\<rparr>"
definition set_rip :: "u64 \<Rightarrow> cpu \<Rightarrow> cpu" where
  "set_rip v c = c\<lparr>cpu_regs := gpr_set (cpu_regs c) RIP v\<rparr>"

definition push64 :: "u64 \<Rightarrow> handler" where
  "push64 v c = (let c1 = set_rsp (rsp c - 8) c in set_ptr (rsp c1) v c1)"

text \<open>The narrower pushes extend the sign.\<close>

definition push_narrow :: "'a::len word \<Rightarrow> handler" where
  "push_narrow v c = (let c1 = set_rsp (rsp c - 8) c in set_ptr (rsp c1) (scast v :: u64) c1)"

definition push8 :: "u8 \<Rightarrow> handler" where "push8 = push_narrow"
definition push16 :: "u16 \<Rightarrow> handler" where "push16 = push_narrow"
definition push32 :: "u32 \<Rightarrow> handler" where "push32 = push_narrow"

definition pop64 :: "cpu \<Rightarrow> (u64 \<times> cpu) result" where
  "pop64 c = rbind (get_ptr (rsp c) c) (\<lambda>v. Inr (v, set_rsp (rsp c + 8) c))"

definition pop32 :: "cpu \<Rightarrow> (u32 \<times> cpu) result" where
  "pop32 c = rbind (pop64 c) (\<lambda>(v, c1). Inr (ucast v, c1))"

text \<open>The two narrowest pops assert that the value on the stack fits.\<close>

definition pop_checked :: "cpu \<Rightarrow> ('a::len word \<times> cpu) result" where
  "pop_checked c =
     rbind (get_ptr (rsp c) c) (\<lambda>v :: u64.
     rbind (cpp_assert (v = ucast (ucast v :: 'a word))) (\<lambda>_.
     Inr (ucast v, set_rsp (rsp c + 8) c)))"

definition pop8 :: "cpu \<Rightarrow> (u8 \<times> cpu) result" where "pop8 = pop_checked"
definition pop16 :: "cpu \<Rightarrow> (u16 \<times> cpu) result" where "pop16 = pop_checked"

end
