(* ===== verification/X64_CpuInt.thy ===== *)
theory X64_CpuInt
  imports X64_Cpu
begin

text \<open>
  The handlers of the integer instructions, \<^verbatim>\<open>cpu.cpp\<close>. The combinators of the first section are
  the shapes the handlers repeat; each handler names the routine of \<^verbatim>\<open>CpuImpl\<close> it runs.
\<close>

section \<open>Shapes\<close>

definition update_flags :: "flags \<Rightarrow> cpu \<Rightarrow> cpu" where
  "update_flags f c = c\<lparr>cpu_flags := f\<rparr>"

text \<open>\<^verbatim>\<open>set(dst, Impl::f(get(dst), get(src), &flags_))\<close>\<close>

definition binary_op ::
  "('a::len word \<Rightarrow> 'b::len word \<Rightarrow> flags \<Rightarrow> ('a word \<times> flags) result) \<Rightarrow>
     ('r, 'a) size_class \<Rightarrow> 'r rm \<Rightarrow> ('q, 'b) size_class \<Rightarrow> 'q source \<Rightarrow> handler" where
  "binary_op f S dst T src c =
     rbind (get_rm S dst c) (\<lambda>d.
     rbind (get_source T src c) (\<lambda>s.
     rbind (f d s (cpu_flags c)) (\<lambda>(v, fl).
     set_rm S dst v (update_flags fl c))))"

text \<open>A routine that cannot fail.\<close>

definition pure2 :: "('a \<Rightarrow> 'b \<Rightarrow> flags \<Rightarrow> 'c) \<Rightarrow> 'a \<Rightarrow> 'b \<Rightarrow> flags \<Rightarrow> 'c result" where
  "pure2 f d s fl = Inr (f d s fl)"

definition alu_op ::
  "('a::len word \<Rightarrow> 'a word \<Rightarrow> flags \<Rightarrow> 'a word \<times> flags) \<Rightarrow> ('r, 'a) size_class \<Rightarrow> 'r rm \<Rightarrow> 'r source \<Rightarrow> handler" where
  "alu_op f S dst src = binary_op (pure2 f) S dst S src"

text \<open>The same with a \<^verbatim>\<open>lock\<close> prefix, on memory.\<close>

definition locked_op ::
  "('a::len word \<Rightarrow> 'a word \<Rightarrow> flags \<Rightarrow> 'a word \<times> flags) \<Rightarrow> ('r, 'a) size_class \<Rightarrow> bool \<Rightarrow>
     memory_operand \<Rightarrow> 'r source \<Rightarrow> handler" where
  "locked_op f S lock dst src c =
     rbind (cpp_assert lock) (\<lambda>_.
     exclusive (resolve dst c) (\<lambda>oldValue c.
       rbind (get_source S src c) (\<lambda>s.
       let (v, fl) = f oldValue s (cpu_flags c) in Inr (v, update_flags fl c))) c)"

definition unary_op ::
  "('a::len word \<Rightarrow> flags \<Rightarrow> 'a word \<times> flags) \<Rightarrow> ('r, 'a) size_class \<Rightarrow> 'r rm \<Rightarrow> handler" where
  "unary_op f S dst c =
     rbind (get_rm S dst c) (\<lambda>d.
     let (v, fl) = f d (cpu_flags c) in set_rm S dst v (update_flags fl c))"

definition locked_unary_op ::
  "('a::len word \<Rightarrow> flags \<Rightarrow> 'a word \<times> flags) \<Rightarrow> bool \<Rightarrow> memory_operand \<Rightarrow> handler" where
  "locked_unary_op f lock dst c =
     rbind (cpp_assert lock) (\<lambda>_.
     exclusive (resolve dst c) (\<lambda>oldValue c.
       let (v, fl) = f oldValue (cpu_flags c) in Inr (v, update_flags fl c)) c)"

text \<open>Instructions that only set flags.\<close>

definition flag_op ::
  "('a::len word \<Rightarrow> 'a word \<Rightarrow> flags \<Rightarrow> flags) \<Rightarrow> ('r, 'a) size_class \<Rightarrow> 'r rm \<Rightarrow> 'r source \<Rightarrow> handler" where
  "flag_op f S src1 src2 c =
     rbind (get_rm S src1 c) (\<lambda>a.
     rbind (get_source S src2 c) (\<lambda>b.
     Inr (update_flags (f a b (cpu_flags c)) c)))"

text \<open>\<^verbatim>\<open>set(dst, Impl::f(get(src), &flags_))\<close> with a register as destination.\<close>

definition to_register ::
  "('a::len word \<Rightarrow> flags \<Rightarrow> 'a word \<times> flags) \<Rightarrow> ('r, 'a) size_class \<Rightarrow> 'r \<Rightarrow> 'r rm \<Rightarrow> handler" where
  "to_register f S dst src c =
     rbind (get_rm S src c) (\<lambda>s.
     let (v, fl) = f s (cpu_flags c) in cpu_set S dst v (update_flags fl c))"

section \<open>Arithmetic\<close>

definition execAdd :: "('r, 'a::len) size_class \<Rightarrow> 'r rm \<Rightarrow> 'r source \<Rightarrow> handler" where
  "execAdd = alu_op alu_add"
definition execLockAdd :: "('r, 'a::len) size_class \<Rightarrow> bool \<Rightarrow> memory_operand \<Rightarrow> 'r source \<Rightarrow> handler" where
  "execLockAdd = locked_op alu_add"
definition execAdc :: "('r, 'a::len) size_class \<Rightarrow> 'r rm \<Rightarrow> 'r source \<Rightarrow> handler" where
  "execAdc = alu_op alu_adc"
definition execSub :: "('r, 'a::len) size_class \<Rightarrow> 'r rm \<Rightarrow> 'r source \<Rightarrow> handler" where
  "execSub = alu_op alu_sub"
definition execLockSub :: "('r, 'a::len) size_class \<Rightarrow> bool \<Rightarrow> memory_operand \<Rightarrow> 'r source \<Rightarrow> handler" where
  "execLockSub = locked_op alu_sub"
definition execSbb :: "('r, 'a::len) size_class \<Rightarrow> 'r rm \<Rightarrow> 'r source \<Rightarrow> handler" where
  "execSbb = alu_op alu_sbb"
definition execNeg :: "('r, 'a::len) size_class \<Rightarrow> 'r rm \<Rightarrow> handler" where
  "execNeg = unary_op alu_neg"

text \<open>Two results of one size, into two registers.\<close>

definition set_pair :: "('r, 'a::len) size_class \<Rightarrow> 'r \<Rightarrow> 'a word \<Rightarrow> 'r \<Rightarrow> 'a word \<Rightarrow> handler" where
  "set_pair S r v q w c = rbind (cpu_set S r v c) (cpu_set S q w)"

definition execMulRM8 :: "r8 rm \<Rightarrow> handler" where
  "execMulRM8 dst c =
     rbind (get_rm BYTE dst c) (\<lambda>d.
     let ((h, l), fl) = mul8 (cpu_get BYTE AL c) d (cpu_flags c)
     in cpu_set WORD AX (push_bit 8 (ucast h) OR ucast l) (update_flags fl c))"

definition execMul ::
  "('a::len word \<Rightarrow> 'a word \<Rightarrow> flags \<Rightarrow> ('a word \<times> 'a word) \<times> flags) \<Rightarrow>
     ('r, 'a) size_class \<Rightarrow> 'r \<Rightarrow> 'r \<Rightarrow> 'r rm \<Rightarrow> handler" where
  "execMul f S low high dst c =
     rbind (get_rm S dst c) (\<lambda>d.
     let ((h, l), fl) = f (cpu_get S low c) d (cpu_flags c)
     in set_pair S high h low l (update_flags fl c))"

definition execMulRM16 :: "r16 rm \<Rightarrow> handler" where "execMulRM16 = execMul mul16 WORD AX DX"
definition execMulRM32 :: "r32 rm \<Rightarrow> handler" where "execMulRM32 = execMul mul32 DWORD EAX EDX"
definition execMulRM64 :: "r64 rm \<Rightarrow> handler" where "execMulRM64 = execMul mul64 QWORD RAX RDX"
definition execImul1RM16 :: "r16 rm \<Rightarrow> handler" where "execImul1RM16 = execMul imul16 WORD AX DX"
definition execImul1RM32 :: "r32 rm \<Rightarrow> handler" where "execImul1RM32 = execMul imul32 DWORD EAX EDX"
definition execImul1RM64 :: "r64 rm \<Rightarrow> handler" where "execImul1RM64 = execMul imul64 QWORD RAX RDX"

text \<open>The forms with a destination keep the low half; the first factor is the destination or a source.\<close>

definition execImul ::
  "('a::len word \<Rightarrow> 'a word \<Rightarrow> flags \<Rightarrow> ('a word \<times> 'a word) \<times> flags) \<Rightarrow>
     ('r, 'a) size_class \<Rightarrow> 'r \<Rightarrow> 'r rm \<Rightarrow> 'r source \<Rightarrow> handler" where
  "execImul f S dst src1 src2 c =
     rbind (get_rm S src1 c) (\<lambda>a.
     rbind (get_source S src2 c) (\<lambda>b.
     let ((h, l), fl) = f a b (cpu_flags c) in cpu_set S dst l (update_flags fl c)))"

definition execImul2R16RM16 :: "r16 \<Rightarrow> r16 rm \<Rightarrow> handler" where
  "execImul2R16RM16 dst src = execImul imul16 WORD dst (Reg dst) (From src)"
definition execImul3R16RM16Imm :: "r16 \<Rightarrow> r16 rm \<Rightarrow> u64 \<Rightarrow> handler" where
  "execImul3R16RM16Imm dst src1 src2 = execImul imul16 WORD dst src1 (Immediate src2)"
definition execImul2R32RM32 :: "r32 \<Rightarrow> r32 rm \<Rightarrow> handler" where
  "execImul2R32RM32 dst src = execImul imul32 DWORD dst (Reg dst) (From src)"
definition execImul3R32RM32Imm :: "r32 \<Rightarrow> r32 rm \<Rightarrow> u64 \<Rightarrow> handler" where
  "execImul3R32RM32Imm dst src1 src2 = execImul imul32 DWORD dst src1 (Immediate src2)"
definition execImul2R64RM64 :: "r64 \<Rightarrow> r64 rm \<Rightarrow> handler" where
  "execImul2R64RM64 dst src = execImul imul64 QWORD dst (Reg dst) (From src)"
definition execImul3R64RM64Imm :: "r64 \<Rightarrow> r64 rm \<Rightarrow> u64 \<Rightarrow> handler" where
  "execImul3R64RM64Imm dst src1 src2 = execImul imul64 QWORD dst src1 (Immediate src2)"

text \<open>\<^verbatim>\<open>idiv\<close> is the division of the host, \<^verbatim>\<open>host::idiv32\<close> and \<^verbatim>\<open>host::idiv64\<close>, the argument \<open>f\<close>.\<close>

definition execDiv ::
  "('a::len word \<Rightarrow> 'a word \<Rightarrow> 'a word \<Rightarrow> ('a word \<times> 'a word) result) \<Rightarrow>
     ('r, 'a) size_class \<Rightarrow> 'r \<Rightarrow> 'r \<Rightarrow> 'r rm \<Rightarrow> handler" where
  "execDiv f S high low dst c =
     rbind (get_rm S dst c) (\<lambda>d.
     rbind (f (cpu_get S high c) (cpu_get S low c) d) (\<lambda>(quotient, remainder).
     set_pair S low quotient high remainder c))"

definition execDivRM8 :: "r8 rm \<Rightarrow> handler" where "execDivRM8 = execDiv div8 BYTE AH AL"
definition execDivRM16 :: "r16 rm \<Rightarrow> handler" where "execDivRM16 = execDiv div16 WORD DX AX"
definition execDivRM32 :: "r32 rm \<Rightarrow> handler" where "execDivRM32 = execDiv div32 DWORD EDX EAX"
definition execDivRM64 :: "r64 rm \<Rightarrow> handler" where "execDivRM64 = execDiv div64 QWORD RDX RAX"
definition execIdivRM32 :: "(u32 \<Rightarrow> u32 \<Rightarrow> u32 \<Rightarrow> (u32 \<times> u32) result) \<Rightarrow> r32 rm \<Rightarrow> handler" where
  "execIdivRM32 idiv32 = execDiv idiv32 DWORD EDX EAX"
definition execIdivRM64 :: "(u64 \<Rightarrow> u64 \<Rightarrow> u64 \<Rightarrow> (u64 \<times> u64) result) \<Rightarrow> r64 rm \<Rightarrow> handler" where
  "execIdivRM64 idiv64 = execDiv idiv64 QWORD RDX RAX"

section \<open>Logic\<close>

definition execAnd :: "('r, 'a::len) size_class \<Rightarrow> 'r rm \<Rightarrow> 'r source \<Rightarrow> handler" where
  "execAnd = alu_op alu_and"
definition execOr :: "('r, 'a::len) size_class \<Rightarrow> 'r rm \<Rightarrow> 'r source \<Rightarrow> handler" where
  "execOr = alu_op alu_or"
definition execLockOr :: "('r, 'a::len) size_class \<Rightarrow> bool \<Rightarrow> memory_operand \<Rightarrow> 'r source \<Rightarrow> handler" where
  "execLockOr = locked_op alu_or"
definition execXor :: "('r, 'a::len) size_class \<Rightarrow> 'r rm \<Rightarrow> 'r source \<Rightarrow> handler" where
  "execXor = alu_op alu_xor"
definition execNot :: "('r, 'a::len) size_class \<Rightarrow> 'r rm \<Rightarrow> handler" where
  "execNot = unary_op (\<lambda>v fl. (NOT v, fl))"

section \<open>Exchanges\<close>

definition execXchg :: "('r, 'a::len) size_class \<Rightarrow> 'r rm \<Rightarrow> 'r \<Rightarrow> handler" where
  "execXchg S dst src c =
     rbind (xchg_rm S dst (cpu_get S src c) c) (\<lambda>(dstValue, c1). cpu_set S src dstValue c1)"

definition execXadd :: "('r, 'a::len) size_class \<Rightarrow> 'r rm \<Rightarrow> 'r \<Rightarrow> handler" where
  "execXadd S dst src c =
     rbind (get_rm S dst c) (\<lambda>dstValue.
     let (tmpValue, fl) = alu_add dstValue (cpu_get S src c) (cpu_flags c)
     in rbind (set_rm S dst tmpValue (update_flags fl c)) (cpu_set S src dstValue))"

definition execLockXadd :: "('r, 'a::len) size_class \<Rightarrow> bool \<Rightarrow> memory_operand \<Rightarrow> 'r \<Rightarrow> handler" where
  "execLockXadd S lock dst src c =
     rbind (cpp_assert lock) (\<lambda>_.
     let srcValue = cpu_get S src c
     in exclusive (resolve dst c) (\<lambda>oldValue c.
          let (newValue, fl) = alu_add oldValue srcValue (cpu_flags c)
          in rbind (cpu_set S src oldValue (update_flags fl c)) (\<lambda>c1. Inr (newValue, c1))) c)"

section \<open>Moves\<close>

text \<open>A 64-bit move to the stack pointer is told to the callbacks.\<close>

definition execMovRR :: "('r, 'a::len) size_class \<Rightarrow> 'r \<Rightarrow> 'r \<Rightarrow> handler" where
  "execMovRR S dst src c = cpu_set S dst (cpu_get S src c) c"

definition execMovRR64 :: "r64 \<Rightarrow> r64 \<Rightarrow> handler" where
  "execMovRR64 dst src c =
     (let srcValue = cpu_get QWORD src c
      in cpu_set QWORD dst srcValue (if dst = RSP then tell (OnStackChange srcValue) c else c))"

definition execMovRM :: "('r, 'a::len) size_class \<Rightarrow> 'r \<Rightarrow> memory_operand \<Rightarrow> handler" where
  "execMovRM S dst src c = rbind (get_ptr (resolve src c) c) (\<lambda>v. cpu_set S dst v c)"

definition execMovMR :: "('r, 'a::len) size_class \<Rightarrow> memory_operand \<Rightarrow> 'r \<Rightarrow> handler" where
  "execMovMR S dst src c = set_ptr (resolve dst c) (cpu_get S src c) c"

definition execMovRImm :: "('r, 'a::len) size_class \<Rightarrow> 'r \<Rightarrow> u64 \<Rightarrow> handler" where
  "execMovRImm S dst src c = cpu_set S dst (get_imm src) c"

definition execMovMImm :: "('r, 'a::len) size_class \<Rightarrow> memory_operand \<Rightarrow> u64 \<Rightarrow> handler" where
  "execMovMImm S dst src c = set_ptr (resolve dst c) (get_imm src :: 'a word) c"

definition execMovsx :: "('r, 'a::len) size_class \<Rightarrow> ('q, 'b::len) size_class \<Rightarrow> 'r \<Rightarrow> 'q rm \<Rightarrow> handler" where
  "execMovsx S T dst src c = rbind (get_rm T src c) (\<lambda>v. cpu_set S dst (scast v) c)"

definition execMovzx :: "('r, 'a::len) size_class \<Rightarrow> ('q, 'b::len) size_class \<Rightarrow> 'r \<Rightarrow> 'q rm \<Rightarrow> handler" where
  "execMovzx S T dst src c = rbind (get_rm T src c) (\<lambda>v. cpu_set S dst (ucast v) c)"

definition execLeaR32Encoding32 :: "r32 \<Rightarrow> encoding32 \<Rightarrow> handler" where
  "execLeaR32Encoding32 dst src c = cpu_set DWORD dst (resolve32 (cpu_regs c) src) c"
definition execLeaR64Encoding32 :: "r64 \<Rightarrow> encoding32 \<Rightarrow> handler" where
  "execLeaR64Encoding32 dst src c = cpu_set QWORD dst (ucast (resolve32 (cpu_regs c) src)) c"
definition execLeaR32Encoding64 :: "r32 \<Rightarrow> encoding64 \<Rightarrow> handler" where
  "execLeaR32Encoding64 dst src c = cpu_set DWORD dst (ucast (resolve64 (cpu_regs c) src)) c"
definition execLeaR64Encoding64 :: "r64 \<Rightarrow> encoding64 \<Rightarrow> handler" where
  "execLeaR64Encoding64 dst src c = cpu_set QWORD dst (resolve64 (cpu_regs c) src) c"

section \<open>Stack, calls and jumps\<close>

definition execPushImm :: "u64 \<Rightarrow> handler" where "execPushImm src = push32 (get_imm src)"
definition execPushRM32 :: "r32 rm \<Rightarrow> handler" where
  "execPushRM32 src c = rbind (get_rm DWORD src c) (\<lambda>v. push32 v c)"
definition execPushRM64 :: "r64 rm \<Rightarrow> handler" where
  "execPushRM64 src c = rbind (get_rm QWORD src c) (\<lambda>v. push64 v c)"

definition execPopR32 :: "r32 \<Rightarrow> handler" where
  "execPopR32 dst c = rbind (pop32 c) (\<lambda>(v, c1). cpu_set DWORD dst v c1)"
definition execPopR64 :: "r64 \<Rightarrow> handler" where
  "execPopR64 dst c = rbind (pop64 c) (\<lambda>(v, c1). cpu_set QWORD dst v c1)"

text \<open>
  \<^verbatim>\<open>set(resolve(dst), pop64())\<close>: whether the address is computed before or after the pop is
  unspecified in C++; it matters for an address relative to the stack pointer.
\<close>

definition execPopM32 :: "bool \<Rightarrow> memory_operand \<Rightarrow> handler" where
  "execPopM32 address_first dst c =
     rbind (pop32 c) (\<lambda>(v, c1). set_ptr (resolve dst (if address_first then c else c1)) v c1)"
definition execPopM64 :: "bool \<Rightarrow> memory_operand \<Rightarrow> handler" where
  "execPopM64 address_first dst c =
     rbind (pop64 c) (\<lambda>(v, c1). set_ptr (resolve dst (if address_first then c else c1)) v c1)"

text \<open>\<^verbatim>\<open>toRflags\<close> forces the deferred parity.\<close>

definition execPushfq :: handler where
  "execPushfq c = (let (v, fl) = toRflags (cpu_flags c) in push64 v (update_flags fl c))"
definition execPopfq :: handler where
  "execPopfq c = rbind (pop64 c) (\<lambda>(rflags, c1). Inr (update_flags (fromRflags rflags) c1))"

definition call_to :: "u64 \<Rightarrow> handler" where
  "call_to address c = rbind (push64 (rip c) c) (\<lambda>c1. Inr (set_rip address (tell (OnCall address) c1)))"

definition execCallDirect :: "u64 \<Rightarrow> handler" where "execCallDirect = call_to"
definition execCallIndirectRM32 :: "r32 rm \<Rightarrow> handler" where
  "execCallIndirectRM32 src c = rbind (get_rm DWORD src c) (\<lambda>a. call_to (ucast a) c)"
definition execCallIndirectRM64 :: "r64 rm \<Rightarrow> handler" where
  "execCallIndirectRM64 src c = rbind (get_rm QWORD src c) (\<lambda>a. call_to a c)"

definition execRet :: handler where
  "execRet c = rbind (pop64 c) (\<lambda>(v, c1). Inr (tell OnRet (set_rip v c1)))"
definition execRetImm :: "u64 \<Rightarrow> handler" where
  "execRetImm src c =
     rbind (pop64 c) (\<lambda>(v, c1).
     let c2 = set_rip v c1 in Inr (tell OnRet (set_rsp (rsp c2 + get_imm src) c2)))"

definition execLeave :: handler where
  "execLeave c =
     rbind (pop64 (set_rsp (gpr_at (cpu_regs c) RBP) c)) (\<lambda>(v, c1).
     Inr (c1\<lparr>cpu_regs := gpr_set (cpu_regs c1) RBP v\<rparr>))"

definition execHalt :: handler where "execHalt c = Inl VerifyFailed"
definition execNop :: handler where "execNop c = Inr c"
definition execUd2 :: handler where "execUd2 c = Inl VerifyFailed"
definition execUnknown :: handler where "execUnknown c = Inl VerifyFailed"

definition execCdq :: handler where
  "execCdq c = cpu_set DWORD EDX (if cpu_get DWORD EAX c AND 0x80000000 \<noteq> 0 then 0xFFFFFFFF else 0) c"
definition execCqo :: handler where
  "execCqo c =
     cpu_set QWORD RDX (if cpu_get QWORD RAX c AND 0x8000000000000000 \<noteq> 0 then 0xFFFFFFFFFFFFFFFF else 0) c"

end
