(* ===== verification/X64_CpuBits.thy ===== *)
theory X64_CpuBits
  imports X64_CpuInt
begin

text \<open>
  The rest of the integer handlers of \<^verbatim>\<open>cpu.cpp\<close>: increments, shifts and rotates, bit tests,
  comparisons, compare-and-exchange, conditions and jumps, bit scans, conversions.
\<close>

section \<open>Increments\<close>

definition execInc :: "('r, 'a::len) size_class \<Rightarrow> 'r rm \<Rightarrow> handler" where "execInc = unary_op alu_inc"
definition execDec :: "('r, 'a::len) size_class \<Rightarrow> 'r rm \<Rightarrow> handler" where "execDec = unary_op alu_dec"
definition execLockInc :: "'a::len itself \<Rightarrow> bool \<Rightarrow> memory_operand \<Rightarrow> handler" where
  "execLockInc t = locked_unary_op (alu_inc :: 'a word \<Rightarrow> _)"
definition execLockDec :: "'a::len itself \<Rightarrow> bool \<Rightarrow> memory_operand \<Rightarrow> handler" where
  "execLockDec t = locked_unary_op (alu_dec :: 'a word \<Rightarrow> _)"

section \<open>Shifts and rotates\<close>

text \<open>The count is an 8-bit register or an immediate, converted to the type the routine takes.\<close>

datatype count = CountReg r8 | CountImm u64

definition count_value :: "count \<Rightarrow> cpu \<Rightarrow> 'a::len word" where
  "count_value n c = (case n of CountReg r \<Rightarrow> ucast (cpu_get BYTE r c) | CountImm i \<Rightarrow> get_imm i)"

definition shift_op ::
  "('a::len word \<Rightarrow> 'b::len word \<Rightarrow> flags \<Rightarrow> ('a word \<times> flags) result) \<Rightarrow>
     ('r, 'a) size_class \<Rightarrow> 'r rm \<Rightarrow> count \<Rightarrow> handler" where
  "shift_op f S dst n c =
     rbind (get_rm S dst c) (\<lambda>d.
     rbind (f d (count_value n c) (cpu_flags c)) (\<lambda>(v, fl). set_rm S dst v (update_flags fl c)))"

definition execShl :: "('r, 'a::len) size_class \<Rightarrow> 'r rm \<Rightarrow> count \<Rightarrow> handler" where
  "execShl = shift_op (shl :: 'a word \<Rightarrow> 'a word \<Rightarrow> _)"
definition execShr :: "('r, 'a::len) size_class \<Rightarrow> 'r rm \<Rightarrow> count \<Rightarrow> handler" where
  "execShr = shift_op (pure2 (shr :: 'a word \<Rightarrow> 'a word \<Rightarrow> _))"
definition execSar :: "('r, 'a::len) size_class \<Rightarrow> 'r rm \<Rightarrow> count \<Rightarrow> handler" where
  "execSar = shift_op (sar :: 'a word \<Rightarrow> 'a word \<Rightarrow> _)"
definition execRcl :: "('r, 'a::len) size_class \<Rightarrow> 'r rm \<Rightarrow> count \<Rightarrow> handler" where
  "execRcl = shift_op (pure2 rcl)"
definition execRcr :: "('r, 'a::len) size_class \<Rightarrow> 'r rm \<Rightarrow> count \<Rightarrow> handler" where
  "execRcr = shift_op (pure2 rcr)"
definition execRol :: "('r, 'a::len) size_class \<Rightarrow> 'r rm \<Rightarrow> count \<Rightarrow> handler" where
  "execRol = shift_op (pure2 rol)"
definition execRor :: "('r, 'a::len) size_class \<Rightarrow> 'r rm \<Rightarrow> count \<Rightarrow> handler" where
  "execRor = shift_op ror"

definition double_shift ::
  "('a::len word \<Rightarrow> 'a word \<Rightarrow> u8 \<Rightarrow> flags \<Rightarrow> 'a word \<times> flags) \<Rightarrow>
     ('r, 'a) size_class \<Rightarrow> 'r rm \<Rightarrow> 'r \<Rightarrow> count \<Rightarrow> handler" where
  "double_shift f S dst src n c =
     rbind (get_rm S dst c) (\<lambda>d.
     let (v, fl) = f d (cpu_get S src c) (count_value n c) (cpu_flags c)
     in set_rm S dst v (update_flags fl c))"

definition execShld :: "('r, 'a::len) size_class \<Rightarrow> 'r rm \<Rightarrow> 'r \<Rightarrow> count \<Rightarrow> handler" where
  "execShld = double_shift shld"
definition execShrd :: "('r, 'a::len) size_class \<Rightarrow> 'r rm \<Rightarrow> 'r \<Rightarrow> count \<Rightarrow> handler" where
  "execShrd = double_shift shrd"

text \<open>The forms without flags run the routine on flags of their own.\<close>

definition flagless_shift ::
  "('a::len word \<Rightarrow> 'a word \<Rightarrow> flags \<Rightarrow> ('a word \<times> flags) result) \<Rightarrow>
     ('r, 'a) size_class \<Rightarrow> 'r \<Rightarrow> 'r rm \<Rightarrow> 'r \<Rightarrow> handler" where
  "flagless_shift f S dst src n c =
     rbind (get_rm S src c) (\<lambda>s.
     rbind (f s (cpu_get S n c) flags_init) (\<lambda>(v, fl). cpu_set S dst v c))"

definition execSarx :: "('r, 'a::len) size_class \<Rightarrow> 'r \<Rightarrow> 'r rm \<Rightarrow> 'r \<Rightarrow> handler" where
  "execSarx = flagless_shift sar"
definition execShlx :: "('r, 'a::len) size_class \<Rightarrow> 'r \<Rightarrow> 'r rm \<Rightarrow> 'r \<Rightarrow> handler" where
  "execShlx = flagless_shift shl"
definition execShrx :: "('r, 'a::len) size_class \<Rightarrow> 'r \<Rightarrow> 'r rm \<Rightarrow> 'r \<Rightarrow> handler" where
  "execShrx = flagless_shift (pure2 shr)"

section \<open>Bits\<close>

definition execTzcnt :: "('r, 'a::len) size_class \<Rightarrow> 'r \<Rightarrow> 'r rm \<Rightarrow> handler" where
  "execTzcnt = to_register tzcnt"
definition execBt :: "('r, 'a::len) size_class \<Rightarrow> 'r rm \<Rightarrow> 'r source \<Rightarrow> handler" where
  "execBt = flag_op bt"
definition execBtr :: "('r, 'a::len) size_class \<Rightarrow> 'r rm \<Rightarrow> 'r source \<Rightarrow> handler" where
  "execBtr = alu_op btr"
definition execBtc :: "('r, 'a::len) size_class \<Rightarrow> 'r rm \<Rightarrow> 'r source \<Rightarrow> handler" where
  "execBtc = alu_op btc"
definition execBts :: "('r, 'a::len) size_class \<Rightarrow> 'r rm \<Rightarrow> 'r source \<Rightarrow> handler" where
  "execBts = alu_op bts"
definition execLockBts :: "('r, 'a::len) size_class \<Rightarrow> bool \<Rightarrow> memory_operand \<Rightarrow> 'r source \<Rightarrow> handler" where
  "execLockBts = locked_op bts"

definition execTest :: "('r, 'a::len) size_class \<Rightarrow> 'r rm \<Rightarrow> 'r source \<Rightarrow> handler" where
  "execTest = flag_op alu_test"
definition execCmp :: "('r, 'a::len) size_class \<Rightarrow> 'r rm \<Rightarrow> 'r source \<Rightarrow> handler" where
  "execCmp = flag_op alu_cmp"

text \<open>A scan of zero leaves the destination alone: the routine then returns the width or more.\<close>

definition bit_scan ::
  "('a::len word \<Rightarrow> flags \<Rightarrow> 'a word \<times> flags) \<Rightarrow> ('r, 'a) size_class \<Rightarrow> 'r \<Rightarrow> 'r rm \<Rightarrow> handler" where
  "bit_scan f S dst src c =
     rbind (get_rm S src c) (\<lambda>val.
     let (mssb, fl) = f val (cpu_flags c); c1 = update_flags fl c
     in if unat mssb < LENGTH('a) then cpu_set S dst mssb c1 else Inr c1)"

definition execBsr :: "('r, 'a::len) size_class \<Rightarrow> 'r \<Rightarrow> 'r rm \<Rightarrow> handler" where "execBsr = bit_scan bsr"
definition execBsf :: "('r, 'a::len) size_class \<Rightarrow> 'r \<Rightarrow> 'r rm \<Rightarrow> handler" where "execBsf = bit_scan bsf"

definition execBswap :: "('r, 'a::len) size_class \<Rightarrow> 'r \<Rightarrow> handler" where
  "execBswap S dst c = cpu_set S dst (bswap (cpu_get S dst c)) c"
definition execPopcnt :: "('r, 'a::len) size_class \<Rightarrow> 'r \<Rightarrow> 'r rm \<Rightarrow> handler" where
  "execPopcnt = to_register popcnt"

section \<open>Compare and exchange\<close>

definition execCmpxchgImpl ::
  "('r, 'a::len) size_class \<Rightarrow> 'r \<Rightarrow> 'r rm \<Rightarrow> 'a word \<Rightarrow> handler" where
  "execCmpxchgImpl S acc dst src c =
     rbind (get_rm S dst c) (\<lambda>dest.
     let c1 = update_flags (alu_cmpxchg (cpu_get S acc c) dest (cpu_flags c)) c
     in if zflag (cpu_flags c1) then set_rm S dst src c1 else cpu_set S acc dest c1)"

definition execLockCmpxchgImpl ::
  "('r, 'a::len) size_class \<Rightarrow> 'r \<Rightarrow> u64 \<Rightarrow> 'a word \<Rightarrow> handler" where
  "execLockCmpxchgImpl S acc dst src c =
     (let eax = cpu_get S acc c
      in exclusive dst (\<lambda>oldValue c.
           let c1 = update_flags (alu_cmpxchg eax oldValue (cpu_flags c)) c
           in if zflag (cpu_flags c1) then Inr (src, c1)
              else rbind (cpu_set S acc oldValue c1) (\<lambda>c2. Inr (oldValue, c2))) c)"

definition execCmpxchgRM8R8 :: "r8 rm \<Rightarrow> r8 \<Rightarrow> handler" where
  "execCmpxchgRM8R8 dst src c = execCmpxchgImpl BYTE AL dst (cpu_get BYTE src c) c"
definition execCmpxchgRM16R16 :: "r16 rm \<Rightarrow> r16 \<Rightarrow> handler" where
  "execCmpxchgRM16R16 dst src c = execCmpxchgImpl WORD AX dst (cpu_get WORD src c) c"
definition execCmpxchgRM32R32 :: "r32 rm \<Rightarrow> r32 \<Rightarrow> handler" where
  "execCmpxchgRM32R32 dst src c = execCmpxchgImpl DWORD EAX dst (cpu_get DWORD src c) c"
definition execCmpxchgRM64R64 :: "r64 rm \<Rightarrow> r64 \<Rightarrow> handler" where
  "execCmpxchgRM64R64 dst src c = execCmpxchgImpl QWORD RAX dst (cpu_get QWORD src c) c"

definition execLockCmpxchgM8R8 :: "bool \<Rightarrow> memory_operand \<Rightarrow> r8 \<Rightarrow> handler" where
  "execLockCmpxchgM8R8 lock dst src c =
     rbind (cpp_assert lock) (\<lambda>_. execLockCmpxchgImpl BYTE AL (resolve dst c) (cpu_get BYTE src c) c)"
definition execLockCmpxchgM16R16 :: "bool \<Rightarrow> memory_operand \<Rightarrow> r16 \<Rightarrow> handler" where
  "execLockCmpxchgM16R16 lock dst src c =
     rbind (cpp_assert lock) (\<lambda>_. execLockCmpxchgImpl WORD AX (resolve dst c) (cpu_get WORD src c) c)"
definition execLockCmpxchgM32R32 :: "bool \<Rightarrow> memory_operand \<Rightarrow> r32 \<Rightarrow> handler" where
  "execLockCmpxchgM32R32 lock dst src c =
     rbind (cpp_assert lock) (\<lambda>_. execLockCmpxchgImpl DWORD EAX (resolve dst c) (cpu_get DWORD src c) c)"
definition execLockCmpxchgM64R64 :: "bool \<Rightarrow> memory_operand \<Rightarrow> r64 \<Rightarrow> handler" where
  "execLockCmpxchgM64R64 lock dst src c =
     rbind (cpp_assert lock) (\<lambda>_. execLockCmpxchgImpl QWORD RAX (resolve dst c) (cpu_get QWORD src c) c)"

definition get_ptr128 :: "u64 \<Rightarrow> cpu \<Rightarrow> u128 result" where
  "get_ptr128 p c = mmu_read128 p (cpu_mmu c)"
definition set_ptr128 :: "u64 \<Rightarrow> u128 \<Rightarrow> handler" where
  "set_ptr128 p v c = rbind (mmu_write128 p v (cpu_mmu c)) (\<lambda>m. Inr (c\<lparr>cpu_mmu := m\<rparr>))"

definition reg_pair :: "r64 \<Rightarrow> r64 \<Rightarrow> cpu \<Rightarrow> u128" where
  "reg_pair l h c = mk_u128 (cpu_get QWORD l c) (cpu_get QWORD h c)"

definition set_zero :: "bool \<Rightarrow> cpu \<Rightarrow> cpu" where
  "set_zero b c = update_flags ((cpu_flags c)\<lparr>zflag := b\<rparr>) c"

definition execCmpxchg16BM128 :: "memory_operand \<Rightarrow> handler" where
  "execCmpxchg16BM128 dst c =
     (let regs = reg_pair RAX RDX c
      in rbind (get_ptr128 (resolve dst c) c) (\<lambda>dest.
         if dest = regs
         then let c1 = set_zero True c in set_ptr128 (resolve dst c1) (reg_pair RBX RCX c1) c1
         else set_pair QWORD RAX (lo dest) RDX (hi dest) (set_zero False c)))"

definition execLockCmpxchg16BM128 :: "bool \<Rightarrow> memory_operand \<Rightarrow> handler" where
  "execLockCmpxchg16BM128 lock dst c =
     rbind (cpp_assert lock) (\<lambda>_.
     let address = resolve dst c in
     rbind (findAddress address (cpu_mmu c)) (\<lambda>region.
     rbind (verify (region \<noteq> None)) (\<lambda>_.
     rbind (get_ptr128 address c) (\<lambda>oldValue.
     if oldValue = reg_pair RAX RDX c
     then let c1 = set_zero True c in set_ptr128 address (reg_pair RBX RCX c1) c1
     else rbind (set_pair QWORD RAX (lo oldValue) RDX (hi oldValue) (set_zero False c))
            (\<lambda>c1. set_ptr128 address oldValue c1)))))"

section \<open>Conditions\<close>

text \<open>\<^verbatim>\<open>flags_.matches(cond)\<close>, which may force the deferred parity.\<close>

definition cpu_matches :: "cond \<Rightarrow> cpu \<Rightarrow> bool \<times> cpu" where
  "cpu_matches cnd c = (let (b, fl) = matches cnd (cpu_flags c) in (b, update_flags fl c))"

definition execSetRM8 :: "cond \<Rightarrow> r8 rm \<Rightarrow> handler" where
  "execSetRM8 cnd dst c = (let (b, c1) = cpu_matches cnd c in set_rm BYTE dst (of_bool b) c1)"

definition execCmov :: "('r, 'a::len) size_class \<Rightarrow> cond \<Rightarrow> 'r \<Rightarrow> 'r rm \<Rightarrow> handler" where
  "execCmov S cnd dst src c =
     (let (b, c1) = cpu_matches cnd c
      in if \<not> b then Inr c1 else rbind (get_rm S src c1) (\<lambda>v. cpu_set S dst v c1))"

definition execJmpRM32 :: "r32 rm \<Rightarrow> handler" where
  "execJmpRM32 dst c = rbind (get_rm DWORD dst c) (\<lambda>v. Inr (set_rip (ucast v) c))"
definition execJmpRM64 :: "r64 rm \<Rightarrow> handler" where
  "execJmpRM64 dst c = rbind (get_rm QWORD dst c) (\<lambda>v. Inr (set_rip v c))"
definition execJmpu32 :: "u32 \<Rightarrow> handler" where
  "execJmpu32 dst c = Inr (set_rip (ucast dst) c)"

definition execJcc :: "cond \<Rightarrow> u64 \<Rightarrow> handler" where
  "execJcc cnd dst c = (let (b, c1) = cpu_matches cnd c in Inr (if b then set_rip dst c1 else c1))"
definition execJe :: "u64 \<Rightarrow> handler" where "execJe = execJcc Cond_E"
definition execJne :: "u64 \<Rightarrow> handler" where "execJne = execJcc Cond_NE"
definition execJrcxz :: "u64 \<Rightarrow> handler" where
  "execJrcxz dst c = Inr (if cpu_get QWORD RCX c = 0 then set_rip dst c else c)"

definition execCld :: handler where
  "execCld c = Inr (update_flags ((cpu_flags c)\<lparr>direction := False\<rparr>) c)"
definition execStd :: handler where
  "execStd c = Inr (update_flags ((cpu_flags c)\<lparr>direction := True\<rparr>) c)"

definition execCbw :: handler where
  "execCbw c = cpu_set WORD AX (scast (cpu_get BYTE AL c)) c"
definition execCwde :: handler where
  "execCwde c = cpu_set DWORD EAX (scast (cpu_get WORD AX c)) c"
definition execCdqe :: handler where
  "execCdqe c = cpu_set QWORD RAX (scast (cpu_get DWORD EAX c)) c"

definition execSyscall :: handler where "execSyscall c = Inr (tell OnSyscall c)"

end
