(* ===== verification/X64_CpuString.thy ===== *)
theory X64_CpuString
  imports X64_CpuBits
begin

text \<open>
  The string instructions of \<^verbatim>\<open>cpu.cpp\<close>. Every handler refuses a set direction flag. A loop
  \<^verbatim>\<open>while(counter)\<close> is a recursion on the counter as a natural number; the counter is read from
  \<^verbatim>\<open>ECX\<close> except for \<^verbatim>\<open>rep stosq\<close> and \<^verbatim>\<open>repnz scas\<close>, which read \<^verbatim>\<open>RCX\<close>. A pointer
  to values of \<open>'a word\<close> steps by their size.
\<close>

section \<open>Shapes\<close>

definition pointerSize :: "'a::len itself \<Rightarrow> u64" where
  "pointerSize t = word_of_nat (LENGTH('a) div 8)"

definition forwards :: "cpu \<Rightarrow> unit result" where
  "forwards c = verify (\<not> direction (cpu_flags c))"

definition set_rsi :: "u64 \<Rightarrow> cpu \<Rightarrow> cpu" where
  "set_rsi v c = c\<lparr>cpu_regs := gpr_set (cpu_regs c) RSI v\<rparr>"
definition set_rdi :: "u64 \<Rightarrow> cpu \<Rightarrow> cpu" where
  "set_rdi v c = c\<lparr>cpu_regs := gpr_set (cpu_regs c) RDI v\<rparr>"
definition set_rcx :: "u64 \<Rightarrow> cpu \<Rightarrow> cpu" where
  "set_rcx v c = c\<lparr>cpu_regs := gpr_set (cpu_regs c) RCX v\<rparr>"

section \<open>Moves\<close>

definition execRepMovsM8M8 :: "memory_operand \<Rightarrow> memory_operand \<Rightarrow> handler" where
  "execRepMovsM8M8 dst src c =
     rbind (cpp_assert (mem_base dst = RDI)) (\<lambda>_.
     rbind (cpp_assert (mem_base src = RSI)) (\<lambda>_.
     let counter = cpu_get DWORD ECX c; dptr = resolve dst c; sptr = resolve src c
     in rbind (forwards c) (\<lambda>_.
        rbind (copyBytes dptr sptr (unat counter) (cpu_mmu c)) (\<lambda>m.
        rbind (cpu_set DWORD ECX 0 (c\<lparr>cpu_mmu := m\<rparr>)) (\<lambda>c1.
        Inr (set_rdi (dptr + ucast counter) (set_rsi (sptr + ucast counter) c1)))))))"

fun rep_movs :: "'a::len itself \<Rightarrow> nat \<Rightarrow> u64 \<Rightarrow> u64 \<Rightarrow> cpu \<Rightarrow> (u64 \<times> u64 \<times> cpu) result" where
  "rep_movs t 0 dptr sptr c = Inr (dptr, sptr, c)"
| "rep_movs t (Suc counter) dptr sptr c =
     rbind (get_ptr sptr c) (\<lambda>val :: 'a word.
     rbind (set_ptr dptr val c) (\<lambda>c1.
     rep_movs t counter (dptr + pointerSize t) (sptr + pointerSize t) c1))"

definition execRepMovs :: "'a::len itself \<Rightarrow> memory_operand \<Rightarrow> memory_operand \<Rightarrow> handler" where
  "execRepMovs t dst src c =
     (let counter = cpu_get DWORD ECX c
      in rbind (forwards c) (\<lambda>_.
         rbind (rep_movs t (unat counter) (resolve dst c) (resolve src c) c) (\<lambda>(dptr, sptr, c1).
         rbind (cpu_set DWORD ECX 0 c1) (\<lambda>c2. Inr (set_rdi dptr (set_rsi sptr c2))))))"

definition execRepMovsM16M16 :: "memory_operand \<Rightarrow> memory_operand \<Rightarrow> handler" where
  "execRepMovsM16M16 = execRepMovs TYPE(16)"
definition execRepMovsM32M32 :: "memory_operand \<Rightarrow> memory_operand \<Rightarrow> handler" where
  "execRepMovsM32M32 = execRepMovs TYPE(32)"
definition execRepMovsM64M64 :: "memory_operand \<Rightarrow> memory_operand \<Rightarrow> handler" where
  "execRepMovsM64M64 = execRepMovs TYPE(64)"

definition execMovs :: "'a::len itself \<Rightarrow> memory_operand \<Rightarrow> memory_operand \<Rightarrow> handler" where
  "execMovs t dst src c =
     (let dptr = resolve dst c; sptr = resolve src c
      in rbind (forwards c) (\<lambda>_.
         rbind (get_ptr sptr c) (\<lambda>val :: 'a word.
         rbind (set_ptr dptr val c) (\<lambda>c1.
         Inr (set_rdi (dptr + pointerSize t) (set_rsi (sptr + pointerSize t) c1))))))"

definition execMovsM8M8 :: "memory_operand \<Rightarrow> memory_operand \<Rightarrow> handler" where
  "execMovsM8M8 = execMovs TYPE(8)"
definition execMovsM16M16 :: "memory_operand \<Rightarrow> memory_operand \<Rightarrow> handler" where
  "execMovsM16M16 = execMovs TYPE(16)"
definition execMovsM64M64 :: "memory_operand \<Rightarrow> memory_operand \<Rightarrow> handler" where
  "execMovsM64M64 = execMovs TYPE(64)"

section \<open>Comparisons\<close>

fun rep_cmps :: "nat \<Rightarrow> u64 \<Rightarrow> u64 \<Rightarrow> cpu \<Rightarrow> (nat \<times> u64 \<times> u64 \<times> cpu) result" where
  "rep_cmps 0 s1ptr s2ptr c = Inr (0, s1ptr, s2ptr, c)"
| "rep_cmps (Suc counter) s1ptr s2ptr c =
     rbind (get_ptr s1ptr c) (\<lambda>s1 :: u8.
     rbind (get_ptr s2ptr c) (\<lambda>s2 :: u8.
     let c1 = update_flags (alu_cmp s1 s2 (cpu_flags c)) c
     in if \<not> zflag (cpu_flags c1) then Inr (counter, s1ptr + 1, s2ptr + 1, c1)
        else rep_cmps counter (s1ptr + 1) (s2ptr + 1) c1))"

definition execRepCmpsM8M8 :: "memory_operand \<Rightarrow> memory_operand \<Rightarrow> handler" where
  "execRepCmpsM8M8 src1 src2 c =
     rbind (forwards c) (\<lambda>_.
     rbind (rep_cmps (unat (cpu_get DWORD ECX c)) (resolve src1 c) (resolve src2 c) c)
       (\<lambda>(counter, s1ptr, s2ptr, c1).
     rbind (verify (mem_base src1 = RSI)) (\<lambda>_.
     rbind (verify (mem_base src2 = RDI)) (\<lambda>_.
     Inr (set_rdi s2ptr (set_rsi s1ptr (set_rcx (word_of_nat counter) c1)))))))"

section \<open>Stores\<close>

definition execStos :: "('r, 'a::len) size_class \<Rightarrow> memory_operand \<Rightarrow> 'r \<Rightarrow> handler" where
  "execStos S dst src c =
     (let dptr = resolve dst c
      in rbind (forwards c) (\<lambda>_.
         rbind (set_ptr dptr (cpu_get S src c) c) (\<lambda>c1.
         Inr (set_rdi (dptr + pointerSize TYPE('a)) c1))))"

definition execStosM8R8 :: "memory_operand \<Rightarrow> r8 \<Rightarrow> handler" where "execStosM8R8 = execStos BYTE"
definition execStosM16R16 :: "memory_operand \<Rightarrow> r16 \<Rightarrow> handler" where "execStosM16R16 = execStos WORD"
definition execStosM32R32 :: "memory_operand \<Rightarrow> r32 \<Rightarrow> handler" where "execStosM32R32 = execStos DWORD"
definition execStosM64R64 :: "memory_operand \<Rightarrow> r64 \<Rightarrow> handler" where "execStosM64R64 = execStos QWORD"

fun rep_stos :: "'a::len word \<Rightarrow> nat \<Rightarrow> u64 \<Rightarrow> cpu \<Rightarrow> (u64 \<times> cpu) result" where
  "rep_stos val 0 dptr c = Inr (dptr, c)"
| "rep_stos val (Suc counter) dptr c =
     rbind (set_ptr dptr val c) (\<lambda>c1. rep_stos val counter (dptr + pointerSize TYPE('a)) c1)"

definition execRepStos :: "('r, 'a::len) size_class \<Rightarrow> nat \<Rightarrow> memory_operand \<Rightarrow> 'r \<Rightarrow> handler" where
  "execRepStos S counter dst src c =
     rbind (forwards c) (\<lambda>_.
     rbind (rep_stos (cpu_get S src c) counter (resolve dst c) c) (\<lambda>(dptr, c1).
     Inr (set_rdi dptr (set_rcx 0 c1))))"

definition execRepStosM8R8 :: "memory_operand \<Rightarrow> r8 \<Rightarrow> handler" where
  "execRepStosM8R8 dst src c = execRepStos BYTE (unat (cpu_get DWORD ECX c)) dst src c"
definition execRepStosM16R16 :: "memory_operand \<Rightarrow> r16 \<Rightarrow> handler" where
  "execRepStosM16R16 dst src c = execRepStos WORD (unat (cpu_get DWORD ECX c)) dst src c"
definition execRepStosM32R32 :: "memory_operand \<Rightarrow> r32 \<Rightarrow> handler" where
  "execRepStosM32R32 dst src c = execRepStos DWORD (unat (cpu_get DWORD ECX c)) dst src c"
definition execRepStosM64R64 :: "memory_operand \<Rightarrow> r64 \<Rightarrow> handler" where
  "execRepStosM64R64 dst src c = execRepStos QWORD (unat (cpu_get QWORD RCX c)) dst src c"

section \<open>Scans\<close>

fun repnz_scas :: "'a::len word \<Rightarrow> nat \<Rightarrow> u64 \<Rightarrow> cpu \<Rightarrow> (nat \<times> u64 \<times> cpu) result" where
  "repnz_scas src1Value 0 ptr2 c = Inr (0, ptr2, c)"
| "repnz_scas src1Value (Suc counter) ptr2 c =
     rbind (get_ptr ptr2 c) (\<lambda>src2Value :: 'a word.
     let c1 = update_flags (alu_cmp src1Value src2Value (cpu_flags c)) c;
         ptr3 = ptr2 + pointerSize TYPE('a)
     in if zflag (cpu_flags c1) then Inr (counter, ptr3, c1) else repnz_scas src1Value counter ptr3 c1)"

definition execRepNZScas :: "('r, 'a::len) size_class \<Rightarrow> 'r \<Rightarrow> memory_operand \<Rightarrow> handler" where
  "execRepNZScas S src1 src2 c =
     rbind (cpp_assert (mem_base src2 = RDI)) (\<lambda>_.
     rbind (forwards c) (\<lambda>_.
     rbind (repnz_scas (cpu_get S src1 c) (unat (cpu_get QWORD RCX c)) (resolve src2 c) c)
       (\<lambda>(counter, ptr2, c1). Inr (set_rdi ptr2 (set_rcx (word_of_nat counter) c1)))))"

definition execRepNZScasR8M8 :: "r8 \<Rightarrow> memory_operand \<Rightarrow> handler" where
  "execRepNZScasR8M8 = execRepNZScas BYTE"
definition execRepNZScasR16M16 :: "r16 \<Rightarrow> memory_operand \<Rightarrow> handler" where
  "execRepNZScasR16M16 = execRepNZScas WORD"
definition execRepNZScasR32M32 :: "r32 \<Rightarrow> memory_operand \<Rightarrow> handler" where
  "execRepNZScasR32M32 = execRepNZScas DWORD"
definition execRepNZScasR64M64 :: "r64 \<Rightarrow> memory_operand \<Rightarrow> handler" where
  "execRepNZScasR64M64 = execRepNZScas QWORD"

end
