(* ===== verification/X64_CpuVector.thy ===== *)
theory X64_CpuVector
  imports X64_CpuString X64_SimdPack X64_StringCompare
begin

text \<open>
  The handlers of the MMX and SSE instructions on integers, \<^verbatim>\<open>cpu.cpp\<close>. An \<^verbatim>\<open>MMXM64\<close>
  and an \<^verbatim>\<open>XMMM128\<close> are operands of type \<open>rm\<close>; an immediate is used as its low byte. The
  combinators of the first section are the shapes the handlers repeat, and each handler names the
  routine of \<^verbatim>\<open>CpuImpl\<close> it runs; a routine that can fail goes through a \<open>_checked\<close> shape.
\<close>

section \<open>Operands\<close>

definition MMX64 :: "(mmxreg, 64) size_class" where
  "MMX64 = (get_mmx, \<lambda>r q v. Inr (set_mmx r q v))"

definition xmm_get :: "xmmreg \<Rightarrow> cpu \<Rightarrow> u128" where
  "xmm_get r c = get_xmm (cpu_regs c) r"
definition xmm_set :: "xmmreg \<Rightarrow> u128 \<Rightarrow> handler" where
  "xmm_set r v c = Inr (c\<lparr>cpu_regs := set_xmm (cpu_regs c) r v\<rparr>)"

definition get_xmmm :: "xmmreg rm \<Rightarrow> cpu \<Rightarrow> u128 result" where
  "get_xmmm x c = (case x of Reg r \<Rightarrow> Inr (xmm_get r c) | Mem m \<Rightarrow> get_ptr128 (resolve m c) c)"
definition set_xmmm :: "xmmreg rm \<Rightarrow> u128 \<Rightarrow> handler" where
  "set_xmmm x v c = (case x of Reg r \<Rightarrow> xmm_set r v c | Mem m \<Rightarrow> set_ptr128 (resolve m c) v c)"

text \<open>A 32-bit memory operand is widened; a register is read whole.\<close>

definition get_mmxm32 :: "mmxreg rm \<Rightarrow> cpu \<Rightarrow> u64 result" where
  "get_mmxm32 x c =
     (case x of Reg r \<Rightarrow> Inr (cpu_get MMX64 r c)
      | Mem m \<Rightarrow> rbind (get_ptr (resolve m c) c) (\<lambda>v :: u32. Inr (ucast v)))"

section \<open>Shapes\<close>

definition mmx_binary :: "(u64 \<Rightarrow> u64 \<Rightarrow> u64) \<Rightarrow> mmxreg \<Rightarrow> mmxreg rm \<Rightarrow> handler" where
  "mmx_binary f dst src c =
     rbind (get_rm MMX64 src c) (\<lambda>s. cpu_set MMX64 dst (f (cpu_get MMX64 dst c) s) c)"
definition mmx_binary_checked :: "(u64 \<Rightarrow> u64 \<Rightarrow> u64 result) \<Rightarrow> mmxreg \<Rightarrow> mmxreg rm \<Rightarrow> handler" where
  "mmx_binary_checked f dst src c =
     rbind (get_rm MMX64 src c) (\<lambda>s.
     rbind (f (cpu_get MMX64 dst c) s) (\<lambda>v. cpu_set MMX64 dst v c))"
definition mmx_binary_low :: "(u64 \<Rightarrow> u64 \<Rightarrow> u64) \<Rightarrow> mmxreg \<Rightarrow> mmxreg rm \<Rightarrow> handler" where
  "mmx_binary_low f dst src c =
     rbind (get_mmxm32 src c) (\<lambda>s. cpu_set MMX64 dst (f (cpu_get MMX64 dst c) s) c)"
definition mmx_binary_imm :: "(u64 \<Rightarrow> u64 \<Rightarrow> u8 \<Rightarrow> u64) \<Rightarrow> mmxreg \<Rightarrow> mmxreg rm \<Rightarrow> u64 \<Rightarrow> handler" where
  "mmx_binary_imm f dst src k = mmx_binary (\<lambda>d s. f d s (get_imm k)) dst src"
definition mmx_unary :: "(u64 \<Rightarrow> u64) \<Rightarrow> mmxreg \<Rightarrow> mmxreg rm \<Rightarrow> handler" where
  "mmx_unary f dst src c = rbind (get_rm MMX64 src c) (\<lambda>s. cpu_set MMX64 dst (f s) c)"
definition mmx_unary_imm :: "(u64 \<Rightarrow> u8 \<Rightarrow> u64) \<Rightarrow> mmxreg \<Rightarrow> mmxreg rm \<Rightarrow> u64 \<Rightarrow> handler" where
  "mmx_unary_imm f dst src k = mmx_unary (\<lambda>s. f s (get_imm k)) dst src"
definition mmx_shift :: "(u64 \<Rightarrow> u8) \<Rightarrow> (u64 \<Rightarrow> u8 \<Rightarrow> u64 result) \<Rightarrow> mmxreg \<Rightarrow> mmxreg rm \<Rightarrow> handler" where
  "mmx_shift convert f = mmx_binary_checked (\<lambda>d s. f d (convert s))"
definition mmx_shift_imm :: "(u64 \<Rightarrow> u8 \<Rightarrow> u64 result) \<Rightarrow> mmxreg \<Rightarrow> u64 \<Rightarrow> handler" where
  "mmx_shift_imm f dst k c =
     rbind (f (cpu_get MMX64 dst c) (get_imm k)) (\<lambda>v. cpu_set MMX64 dst v c)"
definition mmx_to_register :: "(u64 \<Rightarrow> 'a::len word) \<Rightarrow> ('r, 'a) size_class \<Rightarrow> 'r \<Rightarrow> mmxreg \<Rightarrow> handler" where
  "mmx_to_register f S dst src c = cpu_set S dst (f (cpu_get MMX64 src c)) c"
definition mmx_insert ::
  "(u64 \<Rightarrow> 'a::len word \<Rightarrow> u8 \<Rightarrow> u64) \<Rightarrow> ('r, 'a) size_class \<Rightarrow> mmxreg \<Rightarrow> 'r \<Rightarrow> u64 \<Rightarrow> handler" where
  "mmx_insert f S dst src k c =
     cpu_set MMX64 dst (f (cpu_get MMX64 dst c) (cpu_get S src c) (get_imm k)) c"
definition mmx_insert_memory ::
  "(u64 \<Rightarrow> 'a::len word \<Rightarrow> u8 \<Rightarrow> u64) \<Rightarrow> mmxreg \<Rightarrow> memory_operand \<Rightarrow> u64 \<Rightarrow> handler" where
  "mmx_insert_memory f dst src k c =
     rbind (get_ptr (resolve src c) c) (\<lambda>v.
     cpu_set MMX64 dst (f (cpu_get MMX64 dst c) v (get_imm k)) c)"

definition xmm_binary_checked :: "(u128 \<Rightarrow> u128 \<Rightarrow> u128 result) \<Rightarrow> xmmreg \<Rightarrow> xmmreg rm \<Rightarrow> handler" where
  "xmm_binary_checked f dst src c =
     rbind (get_xmmm src c) (\<lambda>s. rbind (f (xmm_get dst c) s) (\<lambda>v. xmm_set dst v c))"
definition xmm_binary :: "(u128 \<Rightarrow> u128 \<Rightarrow> u128) \<Rightarrow> xmmreg \<Rightarrow> xmmreg rm \<Rightarrow> handler" where
  "xmm_binary f dst src c = rbind (get_xmmm src c) (\<lambda>s. xmm_set dst (f (xmm_get dst c) s) c)"
definition xmm_binary_imm :: "(u128 \<Rightarrow> u128 \<Rightarrow> u8 \<Rightarrow> u128) \<Rightarrow> xmmreg \<Rightarrow> xmmreg rm \<Rightarrow> u64 \<Rightarrow> handler" where
  "xmm_binary_imm f dst src k = xmm_binary (\<lambda>d s. f d s (get_imm k)) dst src"
definition xmm_binary_reg_imm :: "(u128 \<Rightarrow> u128 \<Rightarrow> u8 \<Rightarrow> u128) \<Rightarrow> xmmreg \<Rightarrow> xmmreg \<Rightarrow> u64 \<Rightarrow> handler" where
  "xmm_binary_reg_imm f dst src = xmm_binary_imm f dst (Reg src)"
definition xmm_unary :: "(u128 \<Rightarrow> u128) \<Rightarrow> xmmreg \<Rightarrow> xmmreg rm \<Rightarrow> handler" where
  "xmm_unary f dst src c = rbind (get_xmmm src c) (\<lambda>s. xmm_set dst (f s) c)"
definition xmm_unary_imm :: "(u128 \<Rightarrow> u8 \<Rightarrow> u128) \<Rightarrow> xmmreg \<Rightarrow> xmmreg rm \<Rightarrow> u64 \<Rightarrow> handler" where
  "xmm_unary_imm f dst src k = xmm_unary (\<lambda>s. f s (get_imm k)) dst src"
definition xmm_from_xmm :: "(u128 \<Rightarrow> u128) \<Rightarrow> xmmreg \<Rightarrow> xmmreg \<Rightarrow> handler" where
  "xmm_from_xmm f dst src c = xmm_set dst (f (xmm_get src c)) c"
definition xmm_from_memory :: "('a::len word \<Rightarrow> u128) \<Rightarrow> xmmreg \<Rightarrow> memory_operand \<Rightarrow> handler" where
  "xmm_from_memory f dst src c = rbind (get_ptr (resolve src c) c) (\<lambda>v. xmm_set dst (f v) c)"
definition xmm_blend_variable :: "(u128 \<Rightarrow> u128 \<Rightarrow> u128 \<Rightarrow> u128) \<Rightarrow> xmmreg \<Rightarrow> xmmreg rm \<Rightarrow> handler" where
  "xmm_blend_variable f dst src c = xmm_binary (\<lambda>d s. f d s (xmm_get XMM0 c)) dst src c"
definition xmm_shift :: "(u128 \<Rightarrow> u8) \<Rightarrow> (u128 \<Rightarrow> u8 \<Rightarrow> u128 result) \<Rightarrow> xmmreg \<Rightarrow> xmmreg rm \<Rightarrow> handler" where
  "xmm_shift convert f = xmm_binary_checked (\<lambda>d s. f d (convert s))"
definition xmm_shift_imm :: "(u128 \<Rightarrow> u8 \<Rightarrow> u128 result) \<Rightarrow> xmmreg \<Rightarrow> u64 \<Rightarrow> handler" where
  "xmm_shift_imm f dst k c = rbind (f (xmm_get dst c) (get_imm k)) (\<lambda>v. xmm_set dst v c)"
definition xmm_to_register :: "(u128 \<Rightarrow> 'a::len word) \<Rightarrow> ('r, 'a) size_class \<Rightarrow> 'r \<Rightarrow> xmmreg \<Rightarrow> handler" where
  "xmm_to_register f S dst src c = cpu_set S dst (f (xmm_get src c)) c"
definition xmm_to_rm :: "(u128 \<Rightarrow> 'a::len word) \<Rightarrow> ('r, 'a) size_class \<Rightarrow> 'r rm \<Rightarrow> xmmreg \<Rightarrow> handler" where
  "xmm_to_rm f S dst src c = set_rm S dst (f (xmm_get src c)) c"
definition xmm_to_memory :: "(u128 \<Rightarrow> 'a::len word) \<Rightarrow> memory_operand \<Rightarrow> xmmreg \<Rightarrow> handler" where
  "xmm_to_memory f dst src c = set_ptr (resolve dst c) (f (xmm_get src c)) c"
definition extract_register ::
  "(u128 \<Rightarrow> u8 \<Rightarrow> 'a::len word) \<Rightarrow> ('r, 'a) size_class \<Rightarrow> 'r \<Rightarrow> xmmreg \<Rightarrow> u64 \<Rightarrow> handler" where
  "extract_register f S dst src k = xmm_to_register (\<lambda>v. f v (get_imm k)) S dst src"
definition extract_rm ::
  "(u128 \<Rightarrow> u8 \<Rightarrow> 'a::len word) \<Rightarrow> ('r, 'a) size_class \<Rightarrow> 'r rm \<Rightarrow> xmmreg \<Rightarrow> u64 \<Rightarrow> handler" where
  "extract_rm f S dst src k = xmm_to_rm (\<lambda>v. f v (get_imm k)) S dst src"
definition extract_memory ::
  "(u128 \<Rightarrow> u8 \<Rightarrow> 'a::len word) \<Rightarrow> memory_operand \<Rightarrow> xmmreg \<Rightarrow> u64 \<Rightarrow> handler" where
  "extract_memory f dst src k = xmm_to_memory (\<lambda>v. f v (get_imm k)) dst src"
definition xmm_insert_rm ::
  "(u128 \<Rightarrow> 'a::len word \<Rightarrow> u8 \<Rightarrow> u128) \<Rightarrow> ('r, 'a) size_class \<Rightarrow> xmmreg \<Rightarrow> 'r rm \<Rightarrow> u64 \<Rightarrow> handler" where
  "xmm_insert_rm f S dst src k c =
     rbind (get_rm S src c) (\<lambda>v. xmm_set dst (f (xmm_get dst c) v (get_imm k)) c)"
definition xmm_insert ::
  "(u128 \<Rightarrow> 'a::len word \<Rightarrow> u8 \<Rightarrow> u128) \<Rightarrow> ('r, 'a) size_class \<Rightarrow> xmmreg \<Rightarrow> 'r \<Rightarrow> u64 \<Rightarrow> handler" where
  "xmm_insert f S dst src = xmm_insert_rm f S dst (Reg src)"
definition xmm_insert_memory ::
  "(u128 \<Rightarrow> 'a::len word \<Rightarrow> u8 \<Rightarrow> u128) \<Rightarrow> xmmreg \<Rightarrow> memory_operand \<Rightarrow> u64 \<Rightarrow> handler" where
  "xmm_insert_memory f dst src k c =
     rbind (get_ptr (resolve src c) c) (\<lambda>v. xmm_set dst (f (xmm_get dst c) v (get_imm k)) c)"
definition xmm_from_rm :: "('a::len word \<Rightarrow> u128) \<Rightarrow> ('r, 'a) size_class \<Rightarrow> xmmreg \<Rightarrow> 'r rm \<Rightarrow> handler" where
  "xmm_from_rm f S dst src c = rbind (get_rm S src c) (\<lambda>v. xmm_set dst (f v) c)"

definition crc_op ::
  "('a::len word \<Rightarrow> 'b::len word \<Rightarrow> 'a word) \<Rightarrow> ('r, 'a) size_class \<Rightarrow> ('q, 'b) size_class \<Rightarrow> 'r \<Rightarrow> 'q rm \<Rightarrow> handler" where
  "crc_op f S T dst src c = rbind (get_rm T src c) (\<lambda>s. cpu_set S dst (f (cpu_get S dst c) s) c)"

definition lanewise :: "(u64 \<Rightarrow> u64 \<Rightarrow> u64) \<Rightarrow> u128 \<Rightarrow> u128 \<Rightarrow> u128" where
  "lanewise f d s = mk_u128 (f (lo d) (lo s)) (f (hi d) (hi s))"

definition widen :: "u64 \<Rightarrow> u128" where "widen v = mk_u128 v 0"

definition shiftFromU64 :: "u64 \<Rightarrow> u8" where "shiftFromU64 count = ucast (min 255 count)"
definition shiftFromU128 :: "u128 \<Rightarrow> u8" where
  "shiftFromU128 count = (if hi count > 0 then 255 else ucast (min 255 (lo count)))"

section \<open>Moves\<close>

definition is128bitAligned :: "u64 \<Rightarrow> bool" where "is128bitAligned p \<longleftrightarrow> p mod 16 = 0"

definition execMovMMXMMX :: "mmxreg \<Rightarrow> mmxreg \<Rightarrow> handler" where
  "execMovMMXMMX dst src c = cpu_set MMX64 dst (cpu_get MMX64 src c) c"
definition execMovq2dq :: "xmmreg \<Rightarrow> mmxreg \<Rightarrow> handler" where
  "execMovq2dq dst src c = xmm_set dst (mk_u128 (cpu_get MMX64 src c) 0) c"
definition execMovdq2q :: "mmxreg \<Rightarrow> xmmreg \<Rightarrow> handler" where
  "execMovdq2q dst src c = cpu_set MMX64 dst (lo (xmm_get src c)) c"

definition execMovaXMMM128 :: "xmmreg \<Rightarrow> memory_operand \<Rightarrow> handler" where
  "execMovaXMMM128 dst src c =
     (let srcAddress = resolve src c
      in rbind (verify (is128bitAligned srcAddress)) (\<lambda>_.
         rbind (get_ptr128 srcAddress c) (\<lambda>v. xmm_set dst v c)))"
definition execMovaM128XMM :: "memory_operand \<Rightarrow> xmmreg \<Rightarrow> handler" where
  "execMovaM128XMM dst src c =
     (let dstAddress = resolve dst c
      in rbind (verify (is128bitAligned dstAddress)) (\<lambda>_. set_ptr128 dstAddress (xmm_get src c) c))"

text \<open>\<^verbatim>\<open>readUnaligned128\<close> and \<^verbatim>\<open>writeUnaligned128\<close> are the plain accesses of the Mmu.\<close>

definition execMovuXMMM128 :: "xmmreg \<Rightarrow> memory_operand \<Rightarrow> handler" where
  "execMovuXMMM128 dst src c = rbind (get_ptr128 (resolve src c) c) (\<lambda>v. xmm_set dst v c)"
definition execMovuM128XMM :: "memory_operand \<Rightarrow> xmmreg \<Rightarrow> handler" where
  "execMovuM128XMM dst src c = set_ptr128 (resolve dst c) (xmm_get src c) c"
definition execMovapsXMMM128XMMM128 :: "xmmreg rm \<Rightarrow> xmmreg rm \<Rightarrow> handler" where
  "execMovapsXMMM128XMMM128 dst src c = rbind (get_xmmm src c) (\<lambda>v. set_xmmm dst v c)"

definition execMovdMMXRM32 :: "mmxreg \<Rightarrow> r32 rm \<Rightarrow> handler" where
  "execMovdMMXRM32 dst src c = rbind (get_rm DWORD src c) (\<lambda>v. cpu_set MMX64 dst (ucast v) c)"
definition execMovdRM32MMX :: "r32 rm \<Rightarrow> mmxreg \<Rightarrow> handler" where
  "execMovdRM32MMX dst src c = set_rm DWORD dst (ucast (cpu_get MMX64 src c)) c"
definition execMovdMMXRM64 :: "mmxreg \<Rightarrow> r64 rm \<Rightarrow> handler" where
  "execMovdMMXRM64 dst src c = rbind (get_rm QWORD src c) (\<lambda>v. cpu_set MMX64 dst v c)"
definition execMovdRM64MMX :: "r64 rm \<Rightarrow> mmxreg \<Rightarrow> handler" where
  "execMovdRM64MMX dst src c = set_rm QWORD dst (cpu_get MMX64 src c) c"
definition execMovqMMXRM64 :: "mmxreg \<Rightarrow> r64 rm \<Rightarrow> handler" where
  "execMovqMMXRM64 dst src c = rbind (get_rm QWORD src c) (\<lambda>v. cpu_set MMX64 dst v c)"
definition execMovqRM64MMX :: "r64 rm \<Rightarrow> mmxreg \<Rightarrow> handler" where
  "execMovqRM64MMX dst src c = set_rm QWORD dst (cpu_get MMX64 src c) c"

definition execMovdXMMRM32 :: "xmmreg \<Rightarrow> r32 rm \<Rightarrow> handler" where
  "execMovdXMMRM32 = xmm_from_rm (\<lambda>v. widen (ucast v)) DWORD"
definition execMovdRM32XMM :: "r32 rm \<Rightarrow> xmmreg \<Rightarrow> handler" where
  "execMovdRM32XMM = xmm_to_rm (\<lambda>v. ucast (lo v)) DWORD"
definition execMovdXMMRM64 :: "xmmreg \<Rightarrow> r64 rm \<Rightarrow> handler" where
  "execMovdXMMRM64 = xmm_from_rm widen QWORD"
definition execMovdRM64XMM :: "r64 rm \<Rightarrow> xmmreg \<Rightarrow> handler" where
  "execMovdRM64XMM = xmm_to_rm lo QWORD"
definition execMovqXMMRM64 :: "xmmreg \<Rightarrow> r64 rm \<Rightarrow> handler" where
  "execMovqXMMRM64 = xmm_from_rm widen QWORD"
definition execMovqRM64XMM :: "r64 rm \<Rightarrow> xmmreg \<Rightarrow> handler" where
  "execMovqRM64XMM = xmm_to_rm lo QWORD"

text \<open>Scalar floating point values are moved as bits.\<close>

definition movss :: "u128 \<Rightarrow> u128 \<Rightarrow> u128" where
  "movss dst src = join128 ((split128 dst :: u32 list)[0 := (split128 src) ! 0])"

definition execMovssXMMM32 :: "xmmreg \<Rightarrow> memory_operand \<Rightarrow> handler" where
  "execMovssXMMM32 = xmm_from_memory (\<lambda>v :: u32. widen (ucast v))"
definition execMovssM32XMM :: "memory_operand \<Rightarrow> xmmreg \<Rightarrow> handler" where
  "execMovssM32XMM = xmm_to_memory (\<lambda>v. ucast (lo v) :: u32)"
definition execMovssXMMXMM :: "xmmreg \<Rightarrow> xmmreg \<Rightarrow> handler" where
  "execMovssXMMXMM dst src = xmm_binary movss dst (Reg src)"
definition execMovsdXMMM64 :: "xmmreg \<Rightarrow> memory_operand \<Rightarrow> handler" where
  "execMovsdXMMM64 = xmm_from_memory widen"
definition execMovsdM64XMM :: "memory_operand \<Rightarrow> xmmreg \<Rightarrow> handler" where
  "execMovsdM64XMM = xmm_to_memory lo"
definition execMovsdXMMXMM :: "xmmreg \<Rightarrow> xmmreg \<Rightarrow> handler" where
  "execMovsdXMMXMM dst src = xmm_binary (\<lambda>d s. d\<lparr>lo := lo s\<rparr>) dst (Reg src)"

definition execMovlpsXMMM64 :: "xmmreg \<Rightarrow> memory_operand \<Rightarrow> handler" where
  "execMovlpsXMMM64 dst src c = xmm_from_memory (\<lambda>s. (xmm_get dst c)\<lparr>lo := s\<rparr>) dst src c"
definition execMovlpsM64XMM :: "memory_operand \<Rightarrow> xmmreg \<Rightarrow> handler" where
  "execMovlpsM64XMM = xmm_to_memory lo"
definition execMovhpsXMMM64 :: "xmmreg \<Rightarrow> memory_operand \<Rightarrow> handler" where
  "execMovhpsXMMM64 dst src c = xmm_from_memory (\<lambda>s. (xmm_get dst c)\<lparr>hi := s\<rparr>) dst src c"
definition execMovhpsM64XMM :: "memory_operand \<Rightarrow> xmmreg \<Rightarrow> handler" where
  "execMovhpsM64XMM = xmm_to_memory hi"
definition execMovhlpsXMMXMM :: "xmmreg \<Rightarrow> xmmreg \<Rightarrow> handler" where
  "execMovhlpsXMMXMM dst src = xmm_binary (\<lambda>d s. d\<lparr>lo := hi s\<rparr>) dst (Reg src)"
definition execMovlhpsXMMXMM :: "xmmreg \<Rightarrow> xmmreg \<Rightarrow> handler" where
  "execMovlhpsXMMXMM dst src = xmm_binary (\<lambda>d s. d\<lparr>hi := lo s\<rparr>) dst (Reg src)"
definition execLddquXMMM128 :: "xmmreg \<Rightarrow> memory_operand \<Rightarrow> handler" where
  "execLddquXMMM128 dst src c = rbind (get_ptr128 (resolve src c) c) (\<lambda>v. xmm_set dst v c)"

section \<open>Tests and string comparisons\<close>

definition execPtestXMMXMMM128 :: "xmmreg \<Rightarrow> xmmreg rm \<Rightarrow> handler" where
  "execPtestXMMXMMM128 dst src c =
     rbind (get_xmmm src c) (\<lambda>s. Inr (update_flags (ptest (xmm_get dst c) s (cpu_flags c)) c))"

definition execPcmpistriXMMXMMM128Imm :: "xmmreg \<Rightarrow> xmmreg rm \<Rightarrow> u64 \<Rightarrow> handler" where
  "execPcmpistriXMMXMMM128Imm dst src k c =
     rbind (get_xmmm src c) (\<lambda>s.
     rbind (pcmpistri (xmm_get dst c) s (get_imm k) (cpu_flags c)) (\<lambda>(res, fl).
     cpu_set DWORD ECX res (update_flags fl c)))"

definition execPcmpestriXMMXMMM128Imm :: "xmmreg \<Rightarrow> xmmreg rm \<Rightarrow> u64 \<Rightarrow> handler" where
  "execPcmpestriXMMXMMM128Imm dst src k c =
     rbind (get_xmmm src c) (\<lambda>s.
     rbind (pcmpestri (xmm_get dst c) (cpu_get DWORD EAX c) s (cpu_get DWORD EDX c) (get_imm k) (cpu_flags c))
       (\<lambda>(res, fl). cpu_set DWORD ECX res (update_flags fl c)))"


section \<open>Logic\<close>

definition execPandMMXMMXM64 :: "mmxreg \<Rightarrow> mmxreg rm \<Rightarrow> handler" where
  "execPandMMXMMXM64 = mmx_binary (\<lambda>d s. d AND s)"
definition execPandnMMXMMXM64 :: "mmxreg \<Rightarrow> mmxreg rm \<Rightarrow> handler" where
  "execPandnMMXMMXM64 = mmx_binary (\<lambda>d s. NOT d AND s)"
definition execPorMMXMMXM64 :: "mmxreg \<Rightarrow> mmxreg rm \<Rightarrow> handler" where
  "execPorMMXMMXM64 = mmx_binary (\<lambda>d s. d OR s)"
definition execPxorMMXMMXM64 :: "mmxreg \<Rightarrow> mmxreg rm \<Rightarrow> handler" where
  "execPxorMMXMMXM64 = mmx_binary (\<lambda>d s. d XOR s)"
definition execPandXMMXMMM128 :: "xmmreg \<Rightarrow> xmmreg rm \<Rightarrow> handler" where
  "execPandXMMXMMM128 = xmm_binary (lanewise (\<lambda>d s. d AND s))"
definition execPandnXMMXMMM128 :: "xmmreg \<Rightarrow> xmmreg rm \<Rightarrow> handler" where
  "execPandnXMMXMMM128 = xmm_binary (lanewise (\<lambda>d s. NOT d AND s))"
definition execPorXMMXMMM128 :: "xmmreg \<Rightarrow> xmmreg rm \<Rightarrow> handler" where
  "execPorXMMXMMM128 = xmm_binary (lanewise (\<lambda>d s. d OR s))"
definition execPxorXMMXMMM128 :: "xmmreg \<Rightarrow> xmmreg rm \<Rightarrow> handler" where
  "execPxorXMMXMMM128 = xmm_binary (lanewise (\<lambda>d s. d XOR s))"
definition execAndpdXMMXMMM128 :: "xmmreg \<Rightarrow> xmmreg rm \<Rightarrow> handler" where
  "execAndpdXMMXMMM128 = xmm_binary (lanewise (\<lambda>d s. d AND s))"
definition execAndnpdXMMXMMM128 :: "xmmreg \<Rightarrow> xmmreg rm \<Rightarrow> handler" where
  "execAndnpdXMMXMMM128 = xmm_binary (lanewise (\<lambda>d s. NOT d AND s))"
definition execOrpdXMMXMMM128 :: "xmmreg \<Rightarrow> xmmreg rm \<Rightarrow> handler" where
  "execOrpdXMMXMMM128 = xmm_binary (lanewise (\<lambda>d s. d OR s))"
definition execXorpdXMMXMMM128 :: "xmmreg \<Rightarrow> xmmreg rm \<Rightarrow> handler" where
  "execXorpdXMMXMMM128 = xmm_binary (lanewise (\<lambda>d s. d XOR s))"

section \<open>Shuffles, insertions and extractions\<close>

definition execShufpsXMMXMMM128Imm :: "xmmreg \<Rightarrow> xmmreg rm \<Rightarrow> u64 \<Rightarrow> handler" where
  "execShufpsXMMXMMM128Imm = xmm_binary_imm shufps"
definition execShufpdXMMXMMM128Imm :: "xmmreg \<Rightarrow> xmmreg rm \<Rightarrow> u64 \<Rightarrow> handler" where
  "execShufpdXMMXMMM128Imm = xmm_binary_imm shufpd"
definition execPinsrwMMXR32Imm :: "mmxreg \<Rightarrow> r32 \<Rightarrow> u64 \<Rightarrow> handler" where
  "execPinsrwMMXR32Imm = mmx_insert pinsrw32_64 DWORD"
definition execPinsrwMMXM16Imm :: "mmxreg \<Rightarrow> memory_operand \<Rightarrow> u64 \<Rightarrow> handler" where
  "execPinsrwMMXM16Imm = mmx_insert_memory pinsrw16_64"
definition execPinsrwXMMR32Imm :: "xmmreg \<Rightarrow> r32 \<Rightarrow> u64 \<Rightarrow> handler" where
  "execPinsrwXMMR32Imm = xmm_insert pinsrw32_128 DWORD"
definition execPinsrwXMMM16Imm :: "xmmreg \<Rightarrow> memory_operand \<Rightarrow> u64 \<Rightarrow> handler" where
  "execPinsrwXMMM16Imm = xmm_insert_memory pinsrw16_128"
definition execPextrwR32XMMImm :: "r32 \<Rightarrow> xmmreg \<Rightarrow> u64 \<Rightarrow> handler" where
  "execPextrwR32XMMImm = extract_register pextrw32 DWORD"
definition execPextrwM16XMMImm :: "memory_operand \<Rightarrow> xmmreg \<Rightarrow> u64 \<Rightarrow> handler" where
  "execPextrwM16XMMImm = extract_memory pextrw16"

section \<open>Unpacking and shuffles\<close>

definition execPunpcklbwMMXMMXM32 :: "mmxreg \<Rightarrow> mmxreg rm \<Rightarrow> handler" where
  "execPunpcklbwMMXMMXM32 = mmx_binary_low punpcklbw64"
definition execPunpcklwdMMXMMXM32 :: "mmxreg \<Rightarrow> mmxreg rm \<Rightarrow> handler" where
  "execPunpcklwdMMXMMXM32 = mmx_binary_low punpcklwd64"
definition execPunpckldqMMXMMXM32 :: "mmxreg \<Rightarrow> mmxreg rm \<Rightarrow> handler" where
  "execPunpckldqMMXMMXM32 = mmx_binary_low punpckldq64"
definition execPunpcklbwXMMXMMM128 :: "xmmreg \<Rightarrow> xmmreg rm \<Rightarrow> handler" where
  "execPunpcklbwXMMXMMM128 = xmm_binary punpcklbw128"
definition execPunpcklwdXMMXMMM128 :: "xmmreg \<Rightarrow> xmmreg rm \<Rightarrow> handler" where
  "execPunpcklwdXMMXMMM128 = xmm_binary punpcklwd128"
definition execPunpckldqXMMXMMM128 :: "xmmreg \<Rightarrow> xmmreg rm \<Rightarrow> handler" where
  "execPunpckldqXMMXMMM128 = xmm_binary punpckldq128"
definition execPunpcklqdqXMMXMMM128 :: "xmmreg \<Rightarrow> xmmreg rm \<Rightarrow> handler" where
  "execPunpcklqdqXMMXMMM128 = xmm_binary punpcklqdq"
definition execPunpckhbwMMXMMXM64 :: "mmxreg \<Rightarrow> mmxreg rm \<Rightarrow> handler" where
  "execPunpckhbwMMXMMXM64 = mmx_binary punpckhbw64"
definition execPunpckhwdMMXMMXM64 :: "mmxreg \<Rightarrow> mmxreg rm \<Rightarrow> handler" where
  "execPunpckhwdMMXMMXM64 = mmx_binary punpckhwd64"
definition execPunpckhdqMMXMMXM64 :: "mmxreg \<Rightarrow> mmxreg rm \<Rightarrow> handler" where
  "execPunpckhdqMMXMMXM64 = mmx_binary punpckhdq64"
definition execPunpckhbwXMMXMMM128 :: "xmmreg \<Rightarrow> xmmreg rm \<Rightarrow> handler" where
  "execPunpckhbwXMMXMMM128 = xmm_binary punpckhbw128"
definition execPunpckhwdXMMXMMM128 :: "xmmreg \<Rightarrow> xmmreg rm \<Rightarrow> handler" where
  "execPunpckhwdXMMXMMM128 = xmm_binary punpckhwd128"
definition execPunpckhdqXMMXMMM128 :: "xmmreg \<Rightarrow> xmmreg rm \<Rightarrow> handler" where
  "execPunpckhdqXMMXMMM128 = xmm_binary punpckhdq128"
definition execPunpckhqdqXMMXMMM128 :: "xmmreg \<Rightarrow> xmmreg rm \<Rightarrow> handler" where
  "execPunpckhqdqXMMXMMM128 = xmm_binary punpckhqdq"
definition execPshufbMMXMMXM64 :: "mmxreg \<Rightarrow> mmxreg rm \<Rightarrow> handler" where
  "execPshufbMMXMMXM64 = mmx_binary_checked pshufb64"
definition execPshufbXMMXMMM128 :: "xmmreg \<Rightarrow> xmmreg rm \<Rightarrow> handler" where
  "execPshufbXMMXMMM128 = xmm_binary pshufb128"
definition execPshufwMMXMMXM64Imm :: "mmxreg \<Rightarrow> mmxreg rm \<Rightarrow> u64 \<Rightarrow> handler" where
  "execPshufwMMXMMXM64Imm = mmx_unary_imm pshufw"
definition execPshuflwXMMXMMM128Imm :: "xmmreg \<Rightarrow> xmmreg rm \<Rightarrow> u64 \<Rightarrow> handler" where
  "execPshuflwXMMXMMM128Imm = xmm_unary_imm pshuflw"
definition execPshufhwXMMXMMM128Imm :: "xmmreg \<Rightarrow> xmmreg rm \<Rightarrow> u64 \<Rightarrow> handler" where
  "execPshufhwXMMXMMM128Imm = xmm_unary_imm pshufhw"
definition execPshufdXMMXMMM128Imm :: "xmmreg \<Rightarrow> xmmreg rm \<Rightarrow> u64 \<Rightarrow> handler" where
  "execPshufdXMMXMMM128Imm = xmm_unary_imm pshufd"

section \<open>Comparisons and masks\<close>

definition execPcmpeqbMMXMMXM64 :: "mmxreg \<Rightarrow> mmxreg rm \<Rightarrow> handler" where
  "execPcmpeqbMMXMMXM64 = mmx_binary (pcmpeq64 TYPE(8))"
definition execPcmpeqwMMXMMXM64 :: "mmxreg \<Rightarrow> mmxreg rm \<Rightarrow> handler" where
  "execPcmpeqwMMXMMXM64 = mmx_binary (pcmpeq64 TYPE(16))"
definition execPcmpeqdMMXMMXM64 :: "mmxreg \<Rightarrow> mmxreg rm \<Rightarrow> handler" where
  "execPcmpeqdMMXMMXM64 = mmx_binary (pcmpeq64 TYPE(32))"
definition execPcmpeqbXMMXMMM128 :: "xmmreg \<Rightarrow> xmmreg rm \<Rightarrow> handler" where
  "execPcmpeqbXMMXMMM128 = xmm_binary (pcmpeq128 TYPE(8))"
definition execPcmpeqwXMMXMMM128 :: "xmmreg \<Rightarrow> xmmreg rm \<Rightarrow> handler" where
  "execPcmpeqwXMMXMMM128 = xmm_binary (pcmpeq128 TYPE(16))"
definition execPcmpeqdXMMXMMM128 :: "xmmreg \<Rightarrow> xmmreg rm \<Rightarrow> handler" where
  "execPcmpeqdXMMXMMM128 = xmm_binary (pcmpeq128 TYPE(32))"
definition execPcmpeqqXMMXMMM128 :: "xmmreg \<Rightarrow> xmmreg rm \<Rightarrow> handler" where
  "execPcmpeqqXMMXMMM128 = xmm_binary (pcmpeq128 TYPE(64))"
definition execPcmpgtbMMXMMXM64 :: "mmxreg \<Rightarrow> mmxreg rm \<Rightarrow> handler" where
  "execPcmpgtbMMXMMXM64 = mmx_binary (pcmpgt64 TYPE(8))"
definition execPcmpgtwMMXMMXM64 :: "mmxreg \<Rightarrow> mmxreg rm \<Rightarrow> handler" where
  "execPcmpgtwMMXMMXM64 = mmx_binary (pcmpgt64 TYPE(16))"
definition execPcmpgtdMMXMMXM64 :: "mmxreg \<Rightarrow> mmxreg rm \<Rightarrow> handler" where
  "execPcmpgtdMMXMMXM64 = mmx_binary (pcmpgt64 TYPE(32))"
definition execPcmpgtbXMMXMMM128 :: "xmmreg \<Rightarrow> xmmreg rm \<Rightarrow> handler" where
  "execPcmpgtbXMMXMMM128 = xmm_binary (pcmpgt128 TYPE(8))"
definition execPcmpgtwXMMXMMM128 :: "xmmreg \<Rightarrow> xmmreg rm \<Rightarrow> handler" where
  "execPcmpgtwXMMXMMM128 = xmm_binary (pcmpgt128 TYPE(16))"
definition execPcmpgtdXMMXMMM128 :: "xmmreg \<Rightarrow> xmmreg rm \<Rightarrow> handler" where
  "execPcmpgtdXMMXMMM128 = xmm_binary (pcmpgt128 TYPE(32))"
definition execPcmpgtqXMMXMMM128 :: "xmmreg \<Rightarrow> xmmreg rm \<Rightarrow> handler" where
  "execPcmpgtqXMMXMMM128 = xmm_binary (pcmpgt128 TYPE(64))"
definition execPmovmskbR32MMX :: "r32 \<Rightarrow> mmxreg \<Rightarrow> handler" where
  "execPmovmskbR32MMX = mmx_to_register (\<lambda>v. ucast (pmovmskb64 v)) DWORD"
definition execPmovmskbR64MMX :: "r64 \<Rightarrow> mmxreg \<Rightarrow> handler" where
  "execPmovmskbR64MMX = mmx_to_register (\<lambda>v. ucast (pmovmskb64 v)) QWORD"
definition execPmovmskbR32XMM :: "r32 \<Rightarrow> xmmreg \<Rightarrow> handler" where
  "execPmovmskbR32XMM = xmm_to_register (\<lambda>v. ucast (pmovmskb128 v)) DWORD"
definition execPmovmskbR64XMM :: "r64 \<Rightarrow> xmmreg \<Rightarrow> handler" where
  "execPmovmskbR64XMM = xmm_to_register (\<lambda>v. ucast (pmovmskb128 v)) QWORD"

section \<open>Additions and subtractions\<close>

definition execPaddbMMXMMXM64 :: "mmxreg \<Rightarrow> mmxreg rm \<Rightarrow> handler" where
  "execPaddbMMXMMXM64 = mmx_binary (padd64 TYPE(8))"
definition execPaddwMMXMMXM64 :: "mmxreg \<Rightarrow> mmxreg rm \<Rightarrow> handler" where
  "execPaddwMMXMMXM64 = mmx_binary (padd64 TYPE(16))"
definition execPadddMMXMMXM64 :: "mmxreg \<Rightarrow> mmxreg rm \<Rightarrow> handler" where
  "execPadddMMXMMXM64 = mmx_binary (padd64 TYPE(32))"
definition execPaddqMMXMMXM64 :: "mmxreg \<Rightarrow> mmxreg rm \<Rightarrow> handler" where
  "execPaddqMMXMMXM64 = mmx_binary (padd64 TYPE(64))"
definition execPaddsbMMXMMXM64 :: "mmxreg \<Rightarrow> mmxreg rm \<Rightarrow> handler" where
  "execPaddsbMMXMMXM64 = mmx_binary (padds64 TYPE(8))"
definition execPaddswMMXMMXM64 :: "mmxreg \<Rightarrow> mmxreg rm \<Rightarrow> handler" where
  "execPaddswMMXMMXM64 = mmx_binary (padds64 TYPE(16))"
definition execPaddusbMMXMMXM64 :: "mmxreg \<Rightarrow> mmxreg rm \<Rightarrow> handler" where
  "execPaddusbMMXMMXM64 = mmx_binary (paddus64 TYPE(8))"
definition execPadduswMMXMMXM64 :: "mmxreg \<Rightarrow> mmxreg rm \<Rightarrow> handler" where
  "execPadduswMMXMMXM64 = mmx_binary (paddus64 TYPE(16))"
definition execPaddbXMMXMMM128 :: "xmmreg \<Rightarrow> xmmreg rm \<Rightarrow> handler" where
  "execPaddbXMMXMMM128 = xmm_binary (padd128 TYPE(8))"
definition execPaddwXMMXMMM128 :: "xmmreg \<Rightarrow> xmmreg rm \<Rightarrow> handler" where
  "execPaddwXMMXMMM128 = xmm_binary (padd128 TYPE(16))"
definition execPadddXMMXMMM128 :: "xmmreg \<Rightarrow> xmmreg rm \<Rightarrow> handler" where
  "execPadddXMMXMMM128 = xmm_binary (padd128 TYPE(32))"
definition execPaddqXMMXMMM128 :: "xmmreg \<Rightarrow> xmmreg rm \<Rightarrow> handler" where
  "execPaddqXMMXMMM128 = xmm_binary (padd128 TYPE(64))"
definition execPaddsbXMMXMMM128 :: "xmmreg \<Rightarrow> xmmreg rm \<Rightarrow> handler" where
  "execPaddsbXMMXMMM128 = xmm_binary (padds128 TYPE(8))"
definition execPaddswXMMXMMM128 :: "xmmreg \<Rightarrow> xmmreg rm \<Rightarrow> handler" where
  "execPaddswXMMXMMM128 = xmm_binary (padds128 TYPE(16))"
definition execPaddusbXMMXMMM128 :: "xmmreg \<Rightarrow> xmmreg rm \<Rightarrow> handler" where
  "execPaddusbXMMXMMM128 = xmm_binary (paddus128 TYPE(8))"
definition execPadduswXMMXMMM128 :: "xmmreg \<Rightarrow> xmmreg rm \<Rightarrow> handler" where
  "execPadduswXMMXMMM128 = xmm_binary (paddus128 TYPE(16))"
definition execPsubbMMXMMXM64 :: "mmxreg \<Rightarrow> mmxreg rm \<Rightarrow> handler" where
  "execPsubbMMXMMXM64 = mmx_binary (psub64 TYPE(8))"
definition execPsubwMMXMMXM64 :: "mmxreg \<Rightarrow> mmxreg rm \<Rightarrow> handler" where
  "execPsubwMMXMMXM64 = mmx_binary (psub64 TYPE(16))"
definition execPsubdMMXMMXM64 :: "mmxreg \<Rightarrow> mmxreg rm \<Rightarrow> handler" where
  "execPsubdMMXMMXM64 = mmx_binary (psub64 TYPE(32))"
definition execPsubqMMXMMXM64 :: "mmxreg \<Rightarrow> mmxreg rm \<Rightarrow> handler" where
  "execPsubqMMXMMXM64 = mmx_binary (psub64 TYPE(64))"
definition execPsubsbMMXMMXM64 :: "mmxreg \<Rightarrow> mmxreg rm \<Rightarrow> handler" where
  "execPsubsbMMXMMXM64 = mmx_binary (psubs64 TYPE(8))"
definition execPsubswMMXMMXM64 :: "mmxreg \<Rightarrow> mmxreg rm \<Rightarrow> handler" where
  "execPsubswMMXMMXM64 = mmx_binary (psubs64 TYPE(16))"
definition execPsubusbMMXMMXM64 :: "mmxreg \<Rightarrow> mmxreg rm \<Rightarrow> handler" where
  "execPsubusbMMXMMXM64 = mmx_binary (psubus64 TYPE(8))"
definition execPsubuswMMXMMXM64 :: "mmxreg \<Rightarrow> mmxreg rm \<Rightarrow> handler" where
  "execPsubuswMMXMMXM64 = mmx_binary (psubus64 TYPE(16))"
definition execPsubbXMMXMMM128 :: "xmmreg \<Rightarrow> xmmreg rm \<Rightarrow> handler" where
  "execPsubbXMMXMMM128 = xmm_binary (psub128 TYPE(8))"
definition execPsubwXMMXMMM128 :: "xmmreg \<Rightarrow> xmmreg rm \<Rightarrow> handler" where
  "execPsubwXMMXMMM128 = xmm_binary (psub128 TYPE(16))"
definition execPsubdXMMXMMM128 :: "xmmreg \<Rightarrow> xmmreg rm \<Rightarrow> handler" where
  "execPsubdXMMXMMM128 = xmm_binary (psub128 TYPE(32))"
definition execPsubqXMMXMMM128 :: "xmmreg \<Rightarrow> xmmreg rm \<Rightarrow> handler" where
  "execPsubqXMMXMMM128 = xmm_binary (psub128 TYPE(64))"
definition execPsubsbXMMXMMM128 :: "xmmreg \<Rightarrow> xmmreg rm \<Rightarrow> handler" where
  "execPsubsbXMMXMMM128 = xmm_binary (psubs128 TYPE(8))"
definition execPsubswXMMXMMM128 :: "xmmreg \<Rightarrow> xmmreg rm \<Rightarrow> handler" where
  "execPsubswXMMXMMM128 = xmm_binary (psubs128 TYPE(16))"
definition execPsubusbXMMXMMM128 :: "xmmreg \<Rightarrow> xmmreg rm \<Rightarrow> handler" where
  "execPsubusbXMMXMMM128 = xmm_binary (psubus128 TYPE(8))"
definition execPsubuswXMMXMMM128 :: "xmmreg \<Rightarrow> xmmreg rm \<Rightarrow> handler" where
  "execPsubuswXMMXMMM128 = xmm_binary (psubus128 TYPE(16))"

section \<open>Products, averages and extrema\<close>

definition execPmulhuwMMXMMXM64 :: "mmxreg \<Rightarrow> mmxreg rm \<Rightarrow> handler" where
  "execPmulhuwMMXMMXM64 = mmx_binary pmulhuw64"
definition execPmulhwMMXMMXM64 :: "mmxreg \<Rightarrow> mmxreg rm \<Rightarrow> handler" where
  "execPmulhwMMXMMXM64 = mmx_binary pmulhw64"
definition execPmullwMMXMMXM64 :: "mmxreg \<Rightarrow> mmxreg rm \<Rightarrow> handler" where
  "execPmullwMMXMMXM64 = mmx_binary pmullw64"
definition execPmuludqMMXMMXM64 :: "mmxreg \<Rightarrow> mmxreg rm \<Rightarrow> handler" where
  "execPmuludqMMXMMXM64 = mmx_binary pmuludq64"
definition execPmulhuwXMMXMMM128 :: "xmmreg \<Rightarrow> xmmreg rm \<Rightarrow> handler" where
  "execPmulhuwXMMXMMM128 = xmm_binary pmulhuw128"
definition execPmulhwXMMXMMM128 :: "xmmreg \<Rightarrow> xmmreg rm \<Rightarrow> handler" where
  "execPmulhwXMMXMMM128 = xmm_binary pmulhw128"
definition execPmullwXMMXMMM128 :: "xmmreg \<Rightarrow> xmmreg rm \<Rightarrow> handler" where
  "execPmullwXMMXMMM128 = xmm_binary pmullw128"
definition execPmuludqXMMXMMM128 :: "xmmreg \<Rightarrow> xmmreg rm \<Rightarrow> handler" where
  "execPmuludqXMMXMMM128 = xmm_binary pmuludq128"
definition execPmaddwdMMXMMXM64 :: "mmxreg \<Rightarrow> mmxreg rm \<Rightarrow> handler" where
  "execPmaddwdMMXMMXM64 = mmx_binary_checked pmaddwd64"
definition execPmaddwdXMMXMMM128 :: "xmmreg \<Rightarrow> xmmreg rm \<Rightarrow> handler" where
  "execPmaddwdXMMXMMM128 = xmm_binary_checked pmaddwd128"
definition execPsadbwMMXMMXM64 :: "mmxreg \<Rightarrow> mmxreg rm \<Rightarrow> handler" where
  "execPsadbwMMXMMXM64 = mmx_binary psadbw64"
definition execPsadbwXMMXMMM128 :: "xmmreg \<Rightarrow> xmmreg rm \<Rightarrow> handler" where
  "execPsadbwXMMXMMM128 = xmm_binary psadbw128"
definition execPavgbMMXMMXM64 :: "mmxreg \<Rightarrow> mmxreg rm \<Rightarrow> handler" where
  "execPavgbMMXMMXM64 = mmx_binary pavgb64"
definition execPavgwMMXMMXM64 :: "mmxreg \<Rightarrow> mmxreg rm \<Rightarrow> handler" where
  "execPavgwMMXMMXM64 = mmx_binary pavgw64"
definition execPavgbXMMXMMM128 :: "xmmreg \<Rightarrow> xmmreg rm \<Rightarrow> handler" where
  "execPavgbXMMXMMM128 = xmm_binary pavgb128"
definition execPavgwXMMXMMM128 :: "xmmreg \<Rightarrow> xmmreg rm \<Rightarrow> handler" where
  "execPavgwXMMXMMM128 = xmm_binary pavgw128"
definition execPmaxswMMXMMXM64 :: "mmxreg \<Rightarrow> mmxreg rm \<Rightarrow> handler" where
  "execPmaxswMMXMMXM64 = mmx_binary pmaxsw64"
definition execPmaxswXMMXMMM128 :: "xmmreg \<Rightarrow> xmmreg rm \<Rightarrow> handler" where
  "execPmaxswXMMXMMM128 = xmm_binary pmaxsw128"
definition execPmaxubMMXMMXM64 :: "mmxreg \<Rightarrow> mmxreg rm \<Rightarrow> handler" where
  "execPmaxubMMXMMXM64 = mmx_binary pmaxub64"
definition execPmaxubXMMXMMM128 :: "xmmreg \<Rightarrow> xmmreg rm \<Rightarrow> handler" where
  "execPmaxubXMMXMMM128 = xmm_binary pmaxub128"
definition execPminswMMXMMXM64 :: "mmxreg \<Rightarrow> mmxreg rm \<Rightarrow> handler" where
  "execPminswMMXMMXM64 = mmx_binary pminsw64"
definition execPminswXMMXMMM128 :: "xmmreg \<Rightarrow> xmmreg rm \<Rightarrow> handler" where
  "execPminswXMMXMMM128 = xmm_binary pminsw128"
definition execPminubMMXMMXM64 :: "mmxreg \<Rightarrow> mmxreg rm \<Rightarrow> handler" where
  "execPminubMMXMMXM64 = mmx_binary pminub64"
definition execPminubXMMXMMM128 :: "xmmreg \<Rightarrow> xmmreg rm \<Rightarrow> handler" where
  "execPminubXMMXMMM128 = xmm_binary pminub128"

section \<open>Shifts\<close>

definition execPsrawMMXImm :: "mmxreg \<Rightarrow> u64 \<Rightarrow> handler" where
  "execPsrawMMXImm = mmx_shift_imm (psra64 TYPE(16))"
definition execPsrawMMXMMXM64 :: "mmxreg \<Rightarrow> mmxreg rm \<Rightarrow> handler" where
  "execPsrawMMXMMXM64 = mmx_shift ucast (psra64 TYPE(16))"
definition execPsradMMXImm :: "mmxreg \<Rightarrow> u64 \<Rightarrow> handler" where
  "execPsradMMXImm = mmx_shift_imm (psra64 TYPE(32))"
definition execPsradMMXMMXM64 :: "mmxreg \<Rightarrow> mmxreg rm \<Rightarrow> handler" where
  "execPsradMMXMMXM64 = mmx_shift ucast (psra64 TYPE(32))"
definition execPsrawXMMImm :: "xmmreg \<Rightarrow> u64 \<Rightarrow> handler" where
  "execPsrawXMMImm = xmm_shift_imm (psra128 TYPE(16))"
definition execPsrawXMMXMMM128 :: "xmmreg \<Rightarrow> xmmreg rm \<Rightarrow> handler" where
  "execPsrawXMMXMMM128 = xmm_shift (\<lambda>v. ucast (lo v)) (psra128 TYPE(16))"
definition execPsradXMMImm :: "xmmreg \<Rightarrow> u64 \<Rightarrow> handler" where
  "execPsradXMMImm = xmm_shift_imm (psra128 TYPE(32))"
definition execPsradXMMXMMM128 :: "xmmreg \<Rightarrow> xmmreg rm \<Rightarrow> handler" where
  "execPsradXMMXMMM128 = xmm_shift (\<lambda>v. ucast (lo v)) (psra128 TYPE(32))"
definition execPsllwMMXImm :: "mmxreg \<Rightarrow> u64 \<Rightarrow> handler" where
  "execPsllwMMXImm = mmx_shift_imm (psll64 TYPE(16))"
definition execPsllwMMXMMXM64 :: "mmxreg \<Rightarrow> mmxreg rm \<Rightarrow> handler" where
  "execPsllwMMXMMXM64 = mmx_shift shiftFromU64 (psll64 TYPE(16))"
definition execPslldMMXImm :: "mmxreg \<Rightarrow> u64 \<Rightarrow> handler" where
  "execPslldMMXImm = mmx_shift_imm (psll64 TYPE(32))"
definition execPslldMMXMMXM64 :: "mmxreg \<Rightarrow> mmxreg rm \<Rightarrow> handler" where
  "execPslldMMXMMXM64 = mmx_shift shiftFromU64 (psll64 TYPE(32))"
definition execPsllqMMXImm :: "mmxreg \<Rightarrow> u64 \<Rightarrow> handler" where
  "execPsllqMMXImm = mmx_shift_imm (psll64 TYPE(64))"
definition execPsllqMMXMMXM64 :: "mmxreg \<Rightarrow> mmxreg rm \<Rightarrow> handler" where
  "execPsllqMMXMMXM64 = mmx_shift shiftFromU64 (psll64 TYPE(64))"
definition execPsrlwMMXImm :: "mmxreg \<Rightarrow> u64 \<Rightarrow> handler" where
  "execPsrlwMMXImm = mmx_shift_imm (psrl64 TYPE(16))"
definition execPsrlwMMXMMXM64 :: "mmxreg \<Rightarrow> mmxreg rm \<Rightarrow> handler" where
  "execPsrlwMMXMMXM64 = mmx_shift shiftFromU64 (psrl64 TYPE(16))"
definition execPsrldMMXImm :: "mmxreg \<Rightarrow> u64 \<Rightarrow> handler" where
  "execPsrldMMXImm = mmx_shift_imm (psrl64 TYPE(32))"
definition execPsrldMMXMMXM64 :: "mmxreg \<Rightarrow> mmxreg rm \<Rightarrow> handler" where
  "execPsrldMMXMMXM64 = mmx_shift shiftFromU64 (psrl64 TYPE(32))"
definition execPsrlqMMXImm :: "mmxreg \<Rightarrow> u64 \<Rightarrow> handler" where
  "execPsrlqMMXImm = mmx_shift_imm (psrl64 TYPE(64))"
definition execPsrlqMMXMMXM64 :: "mmxreg \<Rightarrow> mmxreg rm \<Rightarrow> handler" where
  "execPsrlqMMXMMXM64 = mmx_shift shiftFromU64 (psrl64 TYPE(64))"
definition execPsllwXMMImm :: "xmmreg \<Rightarrow> u64 \<Rightarrow> handler" where
  "execPsllwXMMImm = xmm_shift_imm (psll128 TYPE(16))"
definition execPsllwXMMXMMM128 :: "xmmreg \<Rightarrow> xmmreg rm \<Rightarrow> handler" where
  "execPsllwXMMXMMM128 = xmm_shift shiftFromU128 (psll128 TYPE(16))"
definition execPslldXMMImm :: "xmmreg \<Rightarrow> u64 \<Rightarrow> handler" where
  "execPslldXMMImm = xmm_shift_imm (psll128 TYPE(32))"
definition execPslldXMMXMMM128 :: "xmmreg \<Rightarrow> xmmreg rm \<Rightarrow> handler" where
  "execPslldXMMXMMM128 = xmm_shift shiftFromU128 (psll128 TYPE(32))"
definition execPsllqXMMImm :: "xmmreg \<Rightarrow> u64 \<Rightarrow> handler" where
  "execPsllqXMMImm = xmm_shift_imm (psll128 TYPE(64))"
definition execPsllqXMMXMMM128 :: "xmmreg \<Rightarrow> xmmreg rm \<Rightarrow> handler" where
  "execPsllqXMMXMMM128 = xmm_shift shiftFromU128 (psll128 TYPE(64))"
definition execPsrlwXMMImm :: "xmmreg \<Rightarrow> u64 \<Rightarrow> handler" where
  "execPsrlwXMMImm = xmm_shift_imm (psrl128 TYPE(16))"
definition execPsrlwXMMXMMM128 :: "xmmreg \<Rightarrow> xmmreg rm \<Rightarrow> handler" where
  "execPsrlwXMMXMMM128 = xmm_shift shiftFromU128 (psrl128 TYPE(16))"
definition execPsrldXMMImm :: "xmmreg \<Rightarrow> u64 \<Rightarrow> handler" where
  "execPsrldXMMImm = xmm_shift_imm (psrl128 TYPE(32))"
definition execPsrldXMMXMMM128 :: "xmmreg \<Rightarrow> xmmreg rm \<Rightarrow> handler" where
  "execPsrldXMMXMMM128 = xmm_shift shiftFromU128 (psrl128 TYPE(32))"
definition execPsrlqXMMImm :: "xmmreg \<Rightarrow> u64 \<Rightarrow> handler" where
  "execPsrlqXMMImm = xmm_shift_imm (psrl128 TYPE(64))"
definition execPsrlqXMMXMMM128 :: "xmmreg \<Rightarrow> xmmreg rm \<Rightarrow> handler" where
  "execPsrlqXMMXMMM128 = xmm_shift shiftFromU128 (psrl128 TYPE(64))"
definition execPslldqXMMImm :: "xmmreg \<Rightarrow> u64 \<Rightarrow> handler" where
  "execPslldqXMMImm = xmm_shift_imm pslldq"
definition execPsrldqXMMImm :: "xmmreg \<Rightarrow> u64 \<Rightarrow> handler" where
  "execPsrldqXMMImm = xmm_shift_imm psrldq"

section \<open>Packs, masks, alignments, horizontal operations\<close>

definition execPackuswbMMXMMXM64 :: "mmxreg \<Rightarrow> mmxreg rm \<Rightarrow> handler" where
  "execPackuswbMMXMMXM64 = mmx_binary packuswb64"
definition execPacksswbMMXMMXM64 :: "mmxreg \<Rightarrow> mmxreg rm \<Rightarrow> handler" where
  "execPacksswbMMXMMXM64 = mmx_binary packsswb64"
definition execPackssdwMMXMMXM64 :: "mmxreg \<Rightarrow> mmxreg rm \<Rightarrow> handler" where
  "execPackssdwMMXMMXM64 = mmx_binary packssdw64"
definition execPackuswbXMMXMMM128 :: "xmmreg \<Rightarrow> xmmreg rm \<Rightarrow> handler" where
  "execPackuswbXMMXMMM128 = xmm_binary packuswb128"
definition execPackusdwXMMXMMM128 :: "xmmreg \<Rightarrow> xmmreg rm \<Rightarrow> handler" where
  "execPackusdwXMMXMMM128 = xmm_binary packusdw128"
definition execPacksswbXMMXMMM128 :: "xmmreg \<Rightarrow> xmmreg rm \<Rightarrow> handler" where
  "execPacksswbXMMXMMM128 = xmm_binary packsswb128"
definition execPackssdwXMMXMMM128 :: "xmmreg \<Rightarrow> xmmreg rm \<Rightarrow> handler" where
  "execPackssdwXMMXMMM128 = xmm_binary packssdw128"
definition execUnpckhpsXMMXMMM128 :: "xmmreg \<Rightarrow> xmmreg rm \<Rightarrow> handler" where
  "execUnpckhpsXMMXMMM128 = xmm_binary unpckhps"
definition execUnpckhpdXMMXMMM128 :: "xmmreg \<Rightarrow> xmmreg rm \<Rightarrow> handler" where
  "execUnpckhpdXMMXMMM128 = xmm_binary unpckhpd"
definition execUnpcklpsXMMXMMM128 :: "xmmreg \<Rightarrow> xmmreg rm \<Rightarrow> handler" where
  "execUnpcklpsXMMXMMM128 = xmm_binary unpcklps"
definition execUnpcklpdXMMXMMM128 :: "xmmreg \<Rightarrow> xmmreg rm \<Rightarrow> handler" where
  "execUnpcklpdXMMXMMM128 = xmm_binary unpcklpd"
definition execMovmskpsR32XMM :: "r32 \<Rightarrow> xmmreg \<Rightarrow> handler" where
  "execMovmskpsR32XMM = xmm_to_register movmskps32 DWORD"
definition execMovmskpsR64XMM :: "r64 \<Rightarrow> xmmreg \<Rightarrow> handler" where
  "execMovmskpsR64XMM = xmm_to_register movmskps64 QWORD"
definition execMovmskpdR32XMM :: "r32 \<Rightarrow> xmmreg \<Rightarrow> handler" where
  "execMovmskpdR32XMM = xmm_to_register movmskpd32 DWORD"
definition execMovmskpdR64XMM :: "r64 \<Rightarrow> xmmreg \<Rightarrow> handler" where
  "execMovmskpdR64XMM = xmm_to_register movmskpd64 QWORD"
definition execMovshdupXMMXMMM128 :: "xmmreg \<Rightarrow> xmmreg rm \<Rightarrow> handler" where
  "execMovshdupXMMXMMM128 = xmm_unary movshdup"
definition execMovddupXMMXMM :: "xmmreg \<Rightarrow> xmmreg \<Rightarrow> handler" where
  "execMovddupXMMXMM = xmm_from_xmm movddup128"
definition execMovddupXMMM64 :: "xmmreg \<Rightarrow> memory_operand \<Rightarrow> handler" where
  "execMovddupXMMM64 = xmm_from_memory movddup64"
definition execPalignrMMXMMXM64Imm :: "mmxreg \<Rightarrow> mmxreg rm \<Rightarrow> u64 \<Rightarrow> handler" where
  "execPalignrMMXMMXM64Imm = mmx_binary_imm palignr64"
definition execPalignrXMMXMMM128Imm :: "xmmreg \<Rightarrow> xmmreg rm \<Rightarrow> u64 \<Rightarrow> handler" where
  "execPalignrXMMXMMM128Imm = xmm_binary_imm palignr128"
definition execPhaddwMMXMMXM64 :: "mmxreg \<Rightarrow> mmxreg rm \<Rightarrow> handler" where
  "execPhaddwMMXMMXM64 = mmx_binary phaddw64"
definition execPhaddwXMXXMXM128 :: "xmmreg \<Rightarrow> xmmreg rm \<Rightarrow> handler" where
  "execPhaddwXMXXMXM128 = xmm_binary phaddw128"
definition execPhadddMMXMMXM64 :: "mmxreg \<Rightarrow> mmxreg rm \<Rightarrow> handler" where
  "execPhadddMMXMMXM64 = mmx_binary_checked phaddd64"
definition execPhadddXMXXMXM128 :: "xmmreg \<Rightarrow> xmmreg rm \<Rightarrow> handler" where
  "execPhadddXMXXMXM128 = xmm_binary_checked phaddd128"
definition execPmaddubswMMXMMXM64 :: "mmxreg \<Rightarrow> mmxreg rm \<Rightarrow> handler" where
  "execPmaddubswMMXMMXM64 = mmx_binary pmaddubsw64"
definition execPmaddubswXMMXMMM128 :: "xmmreg \<Rightarrow> xmmreg rm \<Rightarrow> handler" where
  "execPmaddubswXMMXMMM128 = xmm_binary pmaddubsw128"
definition execPmulhrswMMXMMXM64 :: "mmxreg \<Rightarrow> mmxreg rm \<Rightarrow> handler" where
  "execPmulhrswMMXMMXM64 = mmx_binary pmulhrsw64"
definition execPmulhrswXMMXMMM128 :: "xmmreg \<Rightarrow> xmmreg rm \<Rightarrow> handler" where
  "execPmulhrswXMMXMMM128 = xmm_binary pmulhrsw128"
definition execPabsbMMXMMXM64 :: "mmxreg \<Rightarrow> mmxreg rm \<Rightarrow> handler" where
  "execPabsbMMXMMXM64 = mmx_unary pabsb64"
definition execPabswMMXMMXM64 :: "mmxreg \<Rightarrow> mmxreg rm \<Rightarrow> handler" where
  "execPabswMMXMMXM64 = mmx_unary pabsw64"
definition execPabsdMMXMMXM64 :: "mmxreg \<Rightarrow> mmxreg rm \<Rightarrow> handler" where
  "execPabsdMMXMMXM64 = mmx_unary pabsd64"
definition execPabsbXMMXMMM128 :: "xmmreg \<Rightarrow> xmmreg rm \<Rightarrow> handler" where
  "execPabsbXMMXMMM128 = xmm_unary pabsb128"
definition execPabswXMMXMMM128 :: "xmmreg \<Rightarrow> xmmreg rm \<Rightarrow> handler" where
  "execPabswXMMXMMM128 = xmm_unary pabsw128"
definition execPabsdXMMXMMM128 :: "xmmreg \<Rightarrow> xmmreg rm \<Rightarrow> handler" where
  "execPabsdXMMXMMM128 = xmm_unary pabsd128"
definition execPsignbMMXMMXM64 :: "mmxreg \<Rightarrow> mmxreg rm \<Rightarrow> handler" where
  "execPsignbMMXMMXM64 = mmx_binary psignb64"
definition execPsignwMMXMMXM64 :: "mmxreg \<Rightarrow> mmxreg rm \<Rightarrow> handler" where
  "execPsignwMMXMMXM64 = mmx_binary psignw64"
definition execPsigndMMXMMXM64 :: "mmxreg \<Rightarrow> mmxreg rm \<Rightarrow> handler" where
  "execPsigndMMXMMXM64 = mmx_binary_checked psignd64"
definition execPsignbXMMXMMM128 :: "xmmreg \<Rightarrow> xmmreg rm \<Rightarrow> handler" where
  "execPsignbXMMXMMM128 = xmm_binary psignb128"
definition execPsignwXMMXMMM128 :: "xmmreg \<Rightarrow> xmmreg rm \<Rightarrow> handler" where
  "execPsignwXMMXMMM128 = xmm_binary psignw128"
definition execPsigndXMMXMMM128 :: "xmmreg \<Rightarrow> xmmreg rm \<Rightarrow> handler" where
  "execPsigndXMMXMMM128 = xmm_binary_checked psignd128"

section \<open>Extrema, extensions, insertions and blends of SSE4.1\<close>

definition execPmaxuwXMMXMMM128 :: "xmmreg \<Rightarrow> xmmreg rm \<Rightarrow> handler" where
  "execPmaxuwXMMXMMM128 = xmm_binary pmaxuw"
definition execPmaxudXMMXMMM128 :: "xmmreg \<Rightarrow> xmmreg rm \<Rightarrow> handler" where
  "execPmaxudXMMXMMM128 = xmm_binary pmaxud"
definition execPminuwXMMXMMM128 :: "xmmreg \<Rightarrow> xmmreg rm \<Rightarrow> handler" where
  "execPminuwXMMXMMM128 = xmm_binary pminuw"
definition execPminudXMMXMMM128 :: "xmmreg \<Rightarrow> xmmreg rm \<Rightarrow> handler" where
  "execPminudXMMXMMM128 = xmm_binary pminud"
definition execPmaxsbXMMXMMM128 :: "xmmreg \<Rightarrow> xmmreg rm \<Rightarrow> handler" where
  "execPmaxsbXMMXMMM128 = xmm_binary pmaxsb"
definition execPmaxsdXMMXMMM128 :: "xmmreg \<Rightarrow> xmmreg rm \<Rightarrow> handler" where
  "execPmaxsdXMMXMMM128 = xmm_binary pmaxsd"
definition execPminsbXMMXMMM128 :: "xmmreg \<Rightarrow> xmmreg rm \<Rightarrow> handler" where
  "execPminsbXMMXMMM128 = xmm_binary pminsb"
definition execPminsdXMMXMMM128 :: "xmmreg \<Rightarrow> xmmreg rm \<Rightarrow> handler" where
  "execPminsdXMMXMMM128 = xmm_binary pminsd"
definition execPmovzxbwXMMXMM :: "xmmreg \<Rightarrow> xmmreg \<Rightarrow> handler" where
  "execPmovzxbwXMMXMM = xmm_from_xmm (\<lambda>v. pmovzxbw (lo v))"
definition execPmovzxbdXMMXMM :: "xmmreg \<Rightarrow> xmmreg \<Rightarrow> handler" where
  "execPmovzxbdXMMXMM = xmm_from_xmm (\<lambda>v. pmovzxbd (ucast (lo v)))"
definition execPmovzxbqXMMXMM :: "xmmreg \<Rightarrow> xmmreg \<Rightarrow> handler" where
  "execPmovzxbqXMMXMM = xmm_from_xmm (\<lambda>v. pmovzxbq (ucast (lo v)))"
definition execPmovzxwdXMMXMM :: "xmmreg \<Rightarrow> xmmreg \<Rightarrow> handler" where
  "execPmovzxwdXMMXMM = xmm_from_xmm (\<lambda>v. pmovzxwd (lo v))"
definition execPmovzxwqXMMXMM :: "xmmreg \<Rightarrow> xmmreg \<Rightarrow> handler" where
  "execPmovzxwqXMMXMM = xmm_from_xmm (\<lambda>v. pmovzxwq (ucast (lo v)))"
definition execPmovzxdqXMMXMM :: "xmmreg \<Rightarrow> xmmreg \<Rightarrow> handler" where
  "execPmovzxdqXMMXMM = xmm_from_xmm (\<lambda>v. pmovzxdq (lo v))"
definition execPmovzxbwXMMM64 :: "xmmreg \<Rightarrow> memory_operand \<Rightarrow> handler" where
  "execPmovzxbwXMMM64 = xmm_from_memory pmovzxbw"
definition execPmovzxbdXMMM32 :: "xmmreg \<Rightarrow> memory_operand \<Rightarrow> handler" where
  "execPmovzxbdXMMM32 = xmm_from_memory pmovzxbd"
definition execPmovzxbqXMMM16 :: "xmmreg \<Rightarrow> memory_operand \<Rightarrow> handler" where
  "execPmovzxbqXMMM16 = xmm_from_memory pmovzxbq"
definition execPmovzxwdXMMM64 :: "xmmreg \<Rightarrow> memory_operand \<Rightarrow> handler" where
  "execPmovzxwdXMMM64 = xmm_from_memory pmovzxwd"
definition execPmovzxwqXMMM32 :: "xmmreg \<Rightarrow> memory_operand \<Rightarrow> handler" where
  "execPmovzxwqXMMM32 = xmm_from_memory pmovzxwq"
definition execPmovzxdqXMMM64 :: "xmmreg \<Rightarrow> memory_operand \<Rightarrow> handler" where
  "execPmovzxdqXMMM64 = xmm_from_memory pmovzxdq"
definition execPmovsxbwXMMXMM :: "xmmreg \<Rightarrow> xmmreg \<Rightarrow> handler" where
  "execPmovsxbwXMMXMM = xmm_from_xmm (\<lambda>v. pmovsxbw (lo v))"
definition execPmovsxbdXMMXMM :: "xmmreg \<Rightarrow> xmmreg \<Rightarrow> handler" where
  "execPmovsxbdXMMXMM = xmm_from_xmm (\<lambda>v. pmovsxbd (ucast (lo v)))"
definition execPmovsxbqXMMXMM :: "xmmreg \<Rightarrow> xmmreg \<Rightarrow> handler" where
  "execPmovsxbqXMMXMM = xmm_from_xmm (\<lambda>v. pmovsxbq (ucast (lo v)))"
definition execPmovsxwdXMMXMM :: "xmmreg \<Rightarrow> xmmreg \<Rightarrow> handler" where
  "execPmovsxwdXMMXMM = xmm_from_xmm (\<lambda>v. pmovsxwd (lo v))"
definition execPmovsxwqXMMXMM :: "xmmreg \<Rightarrow> xmmreg \<Rightarrow> handler" where
  "execPmovsxwqXMMXMM = xmm_from_xmm (\<lambda>v. pmovsxwq (ucast (lo v)))"
definition execPmovsxdqXMMXMM :: "xmmreg \<Rightarrow> xmmreg \<Rightarrow> handler" where
  "execPmovsxdqXMMXMM = xmm_from_xmm (\<lambda>v. pmovsxdq (lo v))"
definition execPmovsxbwXMMM64 :: "xmmreg \<Rightarrow> memory_operand \<Rightarrow> handler" where
  "execPmovsxbwXMMM64 = xmm_from_memory pmovsxbw"
definition execPmovsxbdXMMM32 :: "xmmreg \<Rightarrow> memory_operand \<Rightarrow> handler" where
  "execPmovsxbdXMMM32 = xmm_from_memory pmovsxbd"
definition execPmovsxbqXMMM16 :: "xmmreg \<Rightarrow> memory_operand \<Rightarrow> handler" where
  "execPmovsxbqXMMM16 = xmm_from_memory pmovsxbq"
definition execPmovsxwdXMMM64 :: "xmmreg \<Rightarrow> memory_operand \<Rightarrow> handler" where
  "execPmovsxwdXMMM64 = xmm_from_memory pmovsxwd"
definition execPmovsxwqXMMM32 :: "xmmreg \<Rightarrow> memory_operand \<Rightarrow> handler" where
  "execPmovsxwqXMMM32 = xmm_from_memory pmovsxwq"
definition execPmovsxdqXMMM64 :: "xmmreg \<Rightarrow> memory_operand \<Rightarrow> handler" where
  "execPmovsxdqXMMM64 = xmm_from_memory pmovsxdq"
definition execPmulldXMMXMMM128 :: "xmmreg \<Rightarrow> xmmreg rm \<Rightarrow> handler" where
  "execPmulldXMMXMMM128 = xmm_binary pmulld"
definition execPextrbR32XMMImm :: "r32 \<Rightarrow> xmmreg \<Rightarrow> u64 \<Rightarrow> handler" where
  "execPextrbR32XMMImm = extract_register (\<lambda>v k. ucast (pextrb v k)) DWORD"
definition execPextrbM8XMMImm :: "memory_operand \<Rightarrow> xmmreg \<Rightarrow> u64 \<Rightarrow> handler" where
  "execPextrbM8XMMImm = extract_memory pextrb"
definition execPextrdRM32XMMImm :: "r32 rm \<Rightarrow> xmmreg \<Rightarrow> u64 \<Rightarrow> handler" where
  "execPextrdRM32XMMImm = extract_rm pextrd DWORD"
definition execPextrqRM64XMMImm :: "r64 rm \<Rightarrow> xmmreg \<Rightarrow> u64 \<Rightarrow> handler" where
  "execPextrqRM64XMMImm = extract_rm pextrq QWORD"
definition execPinsrbXMMR32Imm :: "xmmreg \<Rightarrow> r32 \<Rightarrow> u64 \<Rightarrow> handler" where
  "execPinsrbXMMR32Imm = xmm_insert (\<lambda>d v. pinsrb d (ucast v)) DWORD"
definition execPinsrdXMMRM32Imm :: "xmmreg \<Rightarrow> r32 rm \<Rightarrow> u64 \<Rightarrow> handler" where
  "execPinsrdXMMRM32Imm = xmm_insert_rm pinsrd DWORD"
definition execPinsrqXMMRM64Imm :: "xmmreg \<Rightarrow> r64 rm \<Rightarrow> u64 \<Rightarrow> handler" where
  "execPinsrqXMMRM64Imm = xmm_insert_rm pinsrq QWORD"
definition execExtractpsM32XMMImm :: "memory_operand \<Rightarrow> xmmreg \<Rightarrow> u64 \<Rightarrow> handler" where
  "execExtractpsM32XMMImm = extract_memory extractps"
definition execInsertpsXMMXMMImm :: "xmmreg \<Rightarrow> xmmreg \<Rightarrow> u64 \<Rightarrow> handler" where
  "execInsertpsXMMXMMImm = xmm_binary_reg_imm insertpsReg"
definition execBlendpsXMMXMMM128Imm :: "xmmreg \<Rightarrow> xmmreg rm \<Rightarrow> u64 \<Rightarrow> handler" where
  "execBlendpsXMMXMMM128Imm = xmm_binary_imm blendps"
definition execBlendpdXMMXMMM128Imm :: "xmmreg \<Rightarrow> xmmreg rm \<Rightarrow> u64 \<Rightarrow> handler" where
  "execBlendpdXMMXMMM128Imm = xmm_binary_imm blendpd"
definition execBlendvpsXMMXMMM128 :: "xmmreg \<Rightarrow> xmmreg rm \<Rightarrow> handler" where
  "execBlendvpsXMMXMMM128 = xmm_blend_variable blendvps"
definition execBlendvpdXMMXMMM128 :: "xmmreg \<Rightarrow> xmmreg rm \<Rightarrow> handler" where
  "execBlendvpdXMMXMMM128 = xmm_blend_variable blendvpd"
definition execPblendvbXMMXMMM128 :: "xmmreg \<Rightarrow> xmmreg rm \<Rightarrow> handler" where
  "execPblendvbXMMXMMM128 = xmm_blend_variable pblendvb"
definition execPblendwXMMM128Imm :: "xmmreg \<Rightarrow> xmmreg rm \<Rightarrow> u64 \<Rightarrow> handler" where
  "execPblendwXMMM128Imm = xmm_binary_imm pblendw"

section \<open>Checksums\<close>

definition execCrc32R32RM8 :: "r32 \<Rightarrow> r8 rm \<Rightarrow> handler" where
  "execCrc32R32RM8 = crc_op crc32_8 DWORD BYTE"
definition execCrc32R32RM16 :: "r32 \<Rightarrow> r16 rm \<Rightarrow> handler" where
  "execCrc32R32RM16 = crc_op crc32_16 DWORD WORD"
definition execCrc32R32RM32 :: "r32 \<Rightarrow> r32 rm \<Rightarrow> handler" where
  "execCrc32R32RM32 = crc_op crc32_32 DWORD DWORD"
definition execCrc32R64RM64 :: "r64 \<Rightarrow> r64 rm \<Rightarrow> handler" where
  "execCrc32R64RM64 = crc_op crc32_64 QWORD QWORD"

end
