(* ===== verification/X64_CpuExec.thy ===== *)
theory X64_CpuExec
  imports X64_CpuVector X64_MmuReach "HOL-Library.Sublist"
begin

text \<open>
  Execution of basic blocks, and what every instruction of the processor keeps. The locale
  \<open>register_size\<close> states what the handlers rely on of the registers of one size: a write that
  succeeds is read back and keeps the shape of the register file. It is interpreted for each size.
\<close>

section \<open>Basic blocks\<close>

text \<open>
  A block is a list of decoded instructions with the handler each is bound to; of the decoded
  instruction, \<^verbatim>\<open>exec\<close> itself uses the address of the next one.
\<close>

fun exec_block :: "(u64 \<times> handler) list \<Rightarrow> handler" where
  "exec_block [] c = Inr c"
| "exec_block ((nextAddress, handle) # bb) c =
     rbind (cpu_set QWORD RIP nextAddress c) (\<lambda>c1. rbind (handle c1) (exec_block bb))"

section \<open>The contract of a register size\<close>

locale register_size =
  fixes S :: "('r, 'a::len) size_class" and writable :: "'r \<Rightarrow> bool"
  assumes width: "LENGTH('a) \<le> 64"
    and written: "regs_wf r \<Longrightarrow> writable q \<Longrightarrow> \<exists>r'. snd S r q v = Inr r' \<and> fst S r' q = v"
    and wf: "snd S r q v = Inr r' \<Longrightarrow> regs_wf r' = regs_wf r"
    and refused: "\<not> writable q \<Longrightarrow> snd S r q v = Inl AssertFailed"
begin

lemma cpu_set_writable: "cpu_set S q v c = Inr c' \<Longrightarrow> writable q"
  using refused [of q] by (cases "writable q") (simp_all add: cpu_set_def)

lemma cpu_set_get:
  assumes "regs_wf (cpu_regs c)" "cpu_set S q v c = Inr c'"
  shows "cpu_get S q c' = v"
  using written [OF assms(1) cpu_set_writable [OF assms(2)], of v] assms(2)
  by (auto simp: cpu_set_def cpu_get_def)

lemma cpu_set_succeeds:
  assumes "regs_wf (cpu_regs c)" "writable q"
  shows "\<exists>c'. cpu_set S q v c = Inr c' \<and> cpu_get S q c' = v"
  using written [OF assms, of v] by (auto simp: cpu_set_def cpu_get_def)

end

lemma regs_wf_gpr [simp]: "regs_wf (r\<lparr>gpr := (gpr r)[i := v]\<rparr>) = regs_wf r"
  by (simp add: regs_wf_def)

lemma ucast_up_down [simp]: "ucast (ucast (v :: u32) :: u64) = v"
  by (rule bit_word_eqI) (simp add: bit_simps)

interpretation byte_size: register_size BYTE "\<lambda>_. True"
proof (unfold_locales, goal_cases)
  case (2 r q v)
  then show ?case using get8_set8 [of r q v q] by (simp add: BYTE_def)
next
  case (3 r q v r')
  then show ?case by (cases q) (auto simp: BYTE_def simp del: r64_index.simps)
qed (simp_all add: BYTE_def)

interpretation word_size: register_size WORD "\<lambda>_. True"
proof (unfold_locales, goal_cases)
  case (2 r q v)
  then show ?case using get16_set16 [of r q v q] by (simp add: WORD_def)
next
  case (3 r q v r')
  then show ?case by (auto simp: WORD_def set16_def)
qed (simp_all add: WORD_def)

interpretation dword_size: register_size DWORD "\<lambda>q. q \<noteq> EIZ"
  by unfold_locales
     (auto simp: DWORD_def set32_def get32_def regs_wf_def r32_index_containing split: if_splits)

interpretation qword_size: register_size QWORD "\<lambda>q. q \<noteq> ZERO"
  by unfold_locales (auto simp: QWORD_def set64_def get64_def regs_wf_def split: if_splits)

interpretation mmx_size: register_size MMX64 "\<lambda>_. True"
  by unfold_locales (auto simp: MMX64_def set_mmx_def get_mmx_def regs_wf_def mmxreg_index_less)

section \<open>What an instruction may do\<close>

text \<open>
  \<open>stores n m m'\<close>: \<open>m'\<close> is \<open>m\<close> after checked writes of at most \<open>n\<close> bytes each.
\<close>

inductive stores :: "nat \<Rightarrow> mmu \<Rightarrow> mmu \<Rightarrow> bool" for n m where
  stores_none: "stores n m m"
| stores_write: "stores n m m1 \<Longrightarrow> write_bytes p bs m1 = Inr m2 \<Longrightarrow> length bs \<le> n \<Longrightarrow> stores n m m2"

lemma stores_trans: "stores n m1 m2 \<Longrightarrow> stores n m m1 \<Longrightarrow> stores n m m2"
  by (induction rule: stores.induct) (auto intro: stores_write)

lemma stores_mono: "stores k m m' \<Longrightarrow> k \<le> n \<Longrightarrow> stores n m m'"
  by (induction rule: stores.induct) (auto intro: stores.intros)

lemma stores_frame:
  assumes "stores n m m'"
  shows "m' = m\<lparr>mem_bytes := mem_bytes m'\<rparr>"
    and "mem_bytes m' a \<noteq> mem_bytes m a \<Longrightarrow> \<exists>p. getWritePtr p m = Inr p \<and> unat p \<le> unat a \<and> unat a < unat p + n"
  using assms
proof (induction rule: stores.induct)
  case (stores_write m1 p bs m2)
  have m1: "m1 = m\<lparr>mem_bytes := mem_bytes m1\<rparr>" by (rule stores_write.IH(1))
  have p: "getWritePtr p m1 = Inr p" "unat p + length bs \<le> unat (memorySize m1)"
    "m2 = m1\<lparr>mem_bytes := stored p bs (mem_bytes m1)\<rparr>"
    using stores_write.hyps by (simp_all add: write_bytes_Inr)
  { case 1 show ?case using p(3) by (subst (asm) m1) simp }
  { case 2
    have M: "unat p + length bs \<le> 2 ^ 64" using p(2) unat_lt_2p [of "memorySize m1"] by simp
    have "getWritePtr p m = Inr p" using p(1) by (subst (asm) m1) simp
    moreover have "mem_bytes m1 a \<noteq> mem_bytes m a" if "unat p + length bs \<le> unat a \<or> unat a < unat p"
      using 2 stored_outside [OF that M] p(3) by simp
    ultimately show ?case using stores_write.IH(2) stores_write.hyps(3) by fastforce }
qed simp_all

definition confined :: "nat \<Rightarrow> cpu \<Rightarrow> cpu \<Rightarrow> bool" where
  "confined n c c' \<longleftrightarrow> stores n (cpu_mmu c) (cpu_mmu c') \<and> regs_wf (cpu_regs c') = regs_wf (cpu_regs c)
     \<and> segmentBase c' = segmentBase c \<and> prefix (cpu_events c) (cpu_events c')"

lemma confined_refl [simp]: "confined n c c"
  by (simp add: confined_def stores_none)

lemma confined_trans [trans]: "confined n c c1 \<Longrightarrow> confined n c1 c2 \<Longrightarrow> confined n c c2"
  unfolding confined_def by (auto intro: stores_trans prefix_order.trans)

lemma confined_update [simp]:
  "confined n (update_flags f c) c' = confined n c c'" "confined n c (update_flags f c') = confined n c c'"
  "confined n (set_rip v c) c' = confined n c c'" "confined n c (set_rip v c') = confined n c c'"
  "confined n (set_rsp v c) c' = confined n c c'" "confined n c (set_rsp v c') = confined n c c'"
  "confined n c (set_rsi v c') = confined n c c'" "confined n c (set_rdi v c') = confined n c c'"
  "confined n c (set_rcx v c') = confined n c c'"
  "confined n c (c'\<lparr>cpu_regs := (cpu_regs c')\<lparr>gpr := (gpr (cpu_regs c'))[i := v]\<rparr>\<rparr>) = confined n c c'"
  by (simp_all add: confined_def update_flags_def set_rip_def set_rsp_def set_rsi_def set_rdi_def set_rcx_def)

lemma confined_tell: "confined n c c' \<Longrightarrow> confined n c (tell e c')"
  by (auto simp: confined_def tell_def)

lemma confined_told: "confined n (tell e c) c' \<Longrightarrow> confined n c c'"
  by (auto simp: confined_def tell_def dest: append_prefixD)

named_theorems confined_dests \<open>a handler or a part of one that succeeds is confined\<close>

lemma set_ptr_confined [confined_dests]:
  fixes v :: "'a::len word"
  assumes "set_ptr p v c = Inr c'" "LENGTH('a) \<le> 64"
  shows "confined 16 c c'"
proof -
  obtain m where m: "write_bytes p (split_lanes v) (cpu_mmu c) = Inr m" "c' = c\<lparr>cpu_mmu := m\<rparr>"
    using assms(1) by (auto simp: set_ptr_def rbind_eq_Inr mmu_write_bytes)
  have "LENGTH('a) div 8 \<le> 16" using assms(2) by simp
  then show ?thesis using stores_write [OF stores_none m(1)] m(2) by (simp add: confined_def)
qed

lemma set_ptr128_confined [confined_dests]: "set_ptr128 p v c = Inr c' \<Longrightarrow> confined 16 c c'"
  unfolding set_ptr128_def mmu_write128_def write_bytes_def [symmetric] rbind_eq_Inr
  by (auto simp: confined_def intro!: stores_write [OF stores_none])

lemma xchg_ptr_confined [confined_dests]:
  fixes v :: "'a::len word"
  assumes "xchg_ptr p v c = Inr (old, c')" "LENGTH('a) \<le> 64"
  shows "confined 16 c c'"
proof -
  obtain m where m: "write_bytes p (split_lanes v) (cpu_mmu c) = Inr m" "c' = c\<lparr>cpu_mmu := m\<rparr>"
    using assms(1) by (auto simp: xchg_ptr_def rbind_eq_Inr mmu_xchg_def write_bytes_def dest: getWritePtr_value)
  have "LENGTH('a) div 8 \<le> 16" using assms(2) by simp
  then show ?thesis using stores_write [OF stores_none m(1)] m(2) by (simp add: confined_def)
qed

lemma xmm_set_confined [confined_dests]: "xmm_set r v c = Inr c' \<Longrightarrow> confined n c c'"
  by (auto simp: xmm_set_def set_xmm_def regs_wf_def confined_def stores_none)

lemma set_xmmm_confined [confined_dests]: "set_xmmm x v c = Inr c' \<Longrightarrow> confined 16 c c'"
  by (auto simp: set_xmmm_def split: rm.splits dest: confined_dests)

lemma exclusive_confined:
  assumes "exclusive p f c = Inr c'" "LENGTH('a::len) \<le> 64"
    and "\<And>old new c1. f old c = Inr (new :: 'a word, c1) \<Longrightarrow> confined 16 c c1"
  shows "confined 16 c c'"
proof -
  obtain old new c1 where "f old c = Inr (new, c1)" "set_ptr p new c1 = Inr c'"
    using assms(1) by (auto simp: exclusive_def rbind_eq_Inr)
  then show ?thesis using assms(2,3) confined_trans set_ptr_confined by blast
qed

context register_size
begin

lemma cpu_set_confined: "cpu_set S r v c = Inr c' \<Longrightarrow> confined n c c'"
  by (auto simp: cpu_set_def rbind_eq_Inr confined_def stores_none wf)

lemma set_rm_confined: "set_rm S x v c = Inr c' \<Longrightarrow> confined 16 c c'"
  using width by (auto simp: set_rm_def split: rm.splits dest: cpu_set_confined set_ptr_confined)

lemma set_pair_confined: "set_pair S r v q w c = Inr c' \<Longrightarrow> confined 16 c c'"
  by (auto simp: set_pair_def rbind_eq_Inr dest!: cpu_set_confined intro: confined_trans)

lemma xchg_rm_confined: "xchg_rm S x v c = Inr (old, c') \<Longrightarrow> confined 16 c c'"
  using width
  by (auto simp: xchg_rm_def rbind_eq_Inr split: rm.splits dest: cpu_set_confined xchg_ptr_confined)

lemma binary_op_confined: "binary_op f S dst T src c = Inr c' \<Longrightarrow> confined 16 c c'"
  by (auto simp: binary_op_def rbind_eq_Inr dest!: set_rm_confined)

lemma alu_op_confined: "alu_op f S dst src c = Inr c' \<Longrightarrow> confined 16 c c'"
  by (simp add: alu_op_def binary_op_confined)

lemma unary_op_confined: "unary_op f S dst c = Inr c' \<Longrightarrow> confined 16 c c'"
  by (auto simp: unary_op_def rbind_eq_Inr Let_def case_prod_beta dest!: set_rm_confined)

lemma locked_op_confined: "locked_op f S lock dst src c = Inr c' \<Longrightarrow> confined 16 c c'"
  unfolding locked_op_def rbind_eq_Inr
  by (auto simp: rbind_eq_Inr Let_def case_prod_beta elim!: exclusive_confined [OF _ width])

lemma locked_unary_op_confined:
  "locked_unary_op (f :: 'a word \<Rightarrow> _) lock dst c = Inr c' \<Longrightarrow> confined 16 c c'"
  unfolding locked_unary_op_def rbind_eq_Inr
  by (auto simp: rbind_eq_Inr Let_def case_prod_beta elim!: exclusive_confined [OF _ width])

lemma flag_op_confined: "flag_op f T src1 src2 c = Inr c' \<Longrightarrow> confined n c c'"
  by (auto simp: flag_op_def rbind_eq_Inr)

lemma to_register_confined: "to_register f S dst src c = Inr c' \<Longrightarrow> confined 16 c c'"
  by (auto simp: to_register_def rbind_eq_Inr Let_def case_prod_beta dest!: cpu_set_confined)

lemma execMul_confined: "execMul f S l h dst c = Inr c' \<Longrightarrow> confined 16 c c'"
  by (auto simp: execMul_def rbind_eq_Inr Let_def case_prod_beta dest!: set_pair_confined)

lemma execImul_confined: "execImul f S dst a b c = Inr c' \<Longrightarrow> confined 16 c c'"
  by (auto simp: execImul_def rbind_eq_Inr Let_def case_prod_beta dest!: cpu_set_confined)

lemma execDiv_confined: "execDiv f S h l dst c = Inr c' \<Longrightarrow> confined 16 c c'"
  by (auto simp: execDiv_def rbind_eq_Inr dest!: set_pair_confined)

lemma execXchg_confined: "execXchg S dst src c = Inr c' \<Longrightarrow> confined 16 c c'"
  by (auto simp: execXchg_def rbind_eq_Inr dest!: xchg_rm_confined intro: confined_trans cpu_set_confined)

lemma execXadd_confined: "execXadd S dst src c = Inr c' \<Longrightarrow> confined 16 c c'"
  by (auto simp: execXadd_def rbind_eq_Inr Let_def case_prod_beta
      dest!: set_rm_confined intro: confined_trans cpu_set_confined)

lemma execLockXadd_confined: "execLockXadd S lock dst src c = Inr c' \<Longrightarrow> confined 16 c c'"
  unfolding execLockXadd_def rbind_eq_Inr
  by (auto simp: rbind_eq_Inr Let_def case_prod_beta dest!: cpu_set_confined elim!: exclusive_confined [OF _ width])

lemma moves_confined:
  "execMovRR S dst src c = Inr c' \<Longrightarrow> confined 16 c c'"
  "execMovRM S dst m c = Inr c' \<Longrightarrow> confined 16 c c'"
  "execMovMR S m src c = Inr c' \<Longrightarrow> confined 16 c c'"
  "execMovRImm S dst i c = Inr c' \<Longrightarrow> confined 16 c c'"
  "execMovMImm S m i c = Inr c' \<Longrightarrow> confined 16 c c'"
  "execMovsx S T dst x c = Inr c' \<Longrightarrow> confined 16 c c'"
  "execMovzx S T dst x c = Inr c' \<Longrightarrow> confined 16 c c'"
  using width
  by (auto simp: execMovRR_def execMovRM_def execMovMR_def execMovRImm_def execMovMImm_def execMovsx_def
      execMovzx_def rbind_eq_Inr dest: cpu_set_confined set_ptr_confined)

lemma shift_op_confined: "shift_op f S dst n c = Inr c' \<Longrightarrow> confined 16 c c'"
  by (auto simp: shift_op_def rbind_eq_Inr dest!: set_rm_confined)

lemma double_shift_confined: "double_shift f S dst src n c = Inr c' \<Longrightarrow> confined 16 c c'"
  by (auto simp: double_shift_def rbind_eq_Inr Let_def case_prod_beta dest!: set_rm_confined)

lemma flagless_shift_confined: "flagless_shift f S dst src n c = Inr c' \<Longrightarrow> confined 16 c c'"
  by (auto simp: flagless_shift_def rbind_eq_Inr dest!: cpu_set_confined)

lemma bit_scan_confined: "bit_scan f S dst src c = Inr c' \<Longrightarrow> confined 16 c c'"
  by (auto simp: bit_scan_def rbind_eq_Inr Let_def case_prod_beta split: if_splits dest!: cpu_set_confined)

lemma execBswap_confined: "execBswap S dst c = Inr c' \<Longrightarrow> confined 16 c c'"
  by (auto simp: execBswap_def dest!: cpu_set_confined)

lemma execCmov_confined: "execCmov S cnd dst src c = Inr c' \<Longrightarrow> confined 16 c c'"
  by (auto simp: execCmov_def cpu_matches_def rbind_eq_Inr Let_def case_prod_beta split: if_splits
      dest!: cpu_set_confined)

lemma execCmpxchgImpl_confined: "execCmpxchgImpl S acc dst v c = Inr c' \<Longrightarrow> confined 16 c c'"
  by (auto simp: execCmpxchgImpl_def rbind_eq_Inr Let_def split: if_splits
      dest!: cpu_set_confined set_rm_confined)

lemma execLockCmpxchgImpl_confined: "execLockCmpxchgImpl S acc p v c = Inr c' \<Longrightarrow> confined 16 c c'"
  unfolding execLockCmpxchgImpl_def Let_def
  by (auto simp: rbind_eq_Inr split: if_splits dest!: cpu_set_confined elim!: exclusive_confined [OF _ width])

lemma execStos_confined: "execStos S dst src c = Inr c' \<Longrightarrow> confined 16 c c'"
  using width by (auto simp: execStos_def rbind_eq_Inr Let_def dest!: set_ptr_confined)

lemma rep_stos_confined:
  "rep_stos (v :: 'a word) n p c = Inr (p', c') \<Longrightarrow> confined 16 c c'"
proof (induction n arbitrary: p c)
  case (Suc n)
  then show ?case using width by (auto simp: rbind_eq_Inr dest!: set_ptr_confined intro: confined_trans)
qed simp

lemma execRepStos_confined: "execRepStos S n dst src c = Inr c' \<Longrightarrow> confined 16 c c'"
  by (auto simp: execRepStos_def rbind_eq_Inr dest!: rep_stos_confined)

end

lemma repnz_scas_confined:
  "repnz_scas v n p c = Inr (k, p', c') \<Longrightarrow> confined 16 c c'"
  by (induction v n p c rule: repnz_scas.induct) (auto simp: rbind_eq_Inr Let_def split: if_splits)

lemma execRepNZScas_confined: "execRepNZScas S r m c = Inr c' \<Longrightarrow> confined 16 c c'"
  by (auto simp: execRepNZScas_def rbind_eq_Inr dest!: repnz_scas_confined)

lemma rep_movs_confined:
  assumes "rep_movs TYPE('a::len) n d s c = Inr (d', s', c')" "LENGTH('a) \<le> 64"
  shows "confined 16 c c'"
  using assms(1)
proof (induction n arbitrary: d s c)
  case (Suc n)
  then show ?case using assms(2) by (auto simp: rbind_eq_Inr dest!: set_ptr_confined intro: confined_trans)
qed simp

lemma execRepMovs_confined:
  assumes "execRepMovs TYPE('a::len) dst src c = Inr c'" "LENGTH('a) \<le> 64"
  shows "confined 16 c c'"
  using assms
  by (auto simp: execRepMovs_def rbind_eq_Inr Let_def dest!: rep_movs_confined dword_size.cpu_set_confined
      intro: confined_trans)

lemma execMovs_confined:
  assumes "execMovs TYPE('a::len) dst src c = Inr c'" "LENGTH('a) \<le> 64"
  shows "confined 16 c c'"
  using assms by (auto simp: execMovs_def rbind_eq_Inr Let_def dest!: set_ptr_confined)

lemma rep_cmps_confined: "rep_cmps n p q c = Inr (k, p', q', c') \<Longrightarrow> confined 16 c c'"
  by (induction n p q c rule: rep_cmps.induct) (auto simp: rbind_eq_Inr Let_def split: if_splits)

lemma execRepCmps_confined: "execRepCmpsM8M8 src1 src2 c = Inr c' \<Longrightarrow> confined 16 c c'"
  by (auto simp: execRepCmpsM8M8_def rbind_eq_Inr dest!: rep_cmps_confined)

lemma copyBytes_stores:
  assumes "copyBytes dst src n m = Inr m'"
  shows "\<exists>bs. read_bytes src n m = Inr bs \<and> write_bytes dst bs m = Inr m' \<and> length bs = n"
  using assms
  by (auto simp: copyBytes_def rbind_eq_Inr write_bytes_def read_bytes_def load_bytes_def split: if_splits)

lemma execRepMovsM8M8_confined:
  assumes "execRepMovsM8M8 dst src c = Inr c'"
  shows "confined (2 ^ 32) c c'"
proof -
  let ?n = "unat (cpu_get DWORD ECX c)"
  obtain m where m: "copyBytes (resolve dst c) (resolve src c) ?n (cpu_mmu c) = Inr m"
    and c': "confined (2 ^ 32) (c\<lparr>cpu_mmu := m\<rparr>) c'"
    using assms by (auto simp: execRepMovsM8M8_def rbind_eq_Inr Let_def dest!: dword_size.cpu_set_confined [where n = "2 ^ 32"])
  obtain bs where bs: "write_bytes (resolve dst c) bs (cpu_mmu c) = Inr m" "length bs = ?n"
    using copyBytes_stores [OF m] by blast
  have "?n \<le> 2 ^ 32" using unat_lt_2p [of "cpu_get DWORD ECX c"] by simp
  then have "confined (2 ^ 32) c (c\<lparr>cpu_mmu := m\<rparr>)"
    using stores_write [OF stores_none bs(1)] bs(2) by (simp add: confined_def)
  then show ?thesis using c' by (rule confined_trans)
qed

end
