(* ===== verification/X64_CpuSafe.thy ===== *)
theory X64_CpuSafe
  imports X64_CpuExec
begin

text \<open>
  Every instruction of the processor, and the theorem that running blocks of them keeps the
  register file and the address space well-formed. The handlers are listed by their operands, a
  handler with a size at every size; a vector handler applies its shape to a routine of
  \<^verbatim>\<open>CpuImpl\<close>, and the lists hold the shapes at every routine.
\<close>

section \<open>The handlers\<close>

definition sized_handlers ::
  "('r, 'a::len) size_class \<Rightarrow> 'r rm \<Rightarrow> 'r source \<Rightarrow> 'r \<Rightarrow> 'r \<Rightarrow> memory_operand \<Rightarrow> bool \<Rightarrow> count \<Rightarrow> cond \<Rightarrow> u64
     \<Rightarrow> handler list" where
  "sized_handlers S dst src reg reg' mem lock n cnd imm =
     [execAdd S dst src, execAdc S dst src, execSub S dst src, execSbb S dst src, execAnd S dst src,
      execOr S dst src, execXor S dst src, execTest S dst src, execCmp S dst src, execBt S dst src,
      execBtr S dst src, execBtc S dst src, execBts S dst src, execNeg S dst, execNot S dst, execInc S dst,
      execDec S dst, execLockAdd S lock mem src, execLockSub S lock mem src, execLockOr S lock mem src,
      execLockBts S lock mem src, execLockInc TYPE('a) lock mem, execLockDec TYPE('a) lock mem,
      execXchg S dst reg, execXadd S dst reg, execLockXadd S lock mem reg, execMovRR S reg reg',
      execMovRM S reg mem, execMovMR S mem reg, execMovRImm S reg imm, execMovMImm S mem imm,
      execShl S dst n, execShr S dst n, execSar S dst n, execRcl S dst n, execRcr S dst n, execRol S dst n,
      execRor S dst n, execShld S dst reg n, execShrd S dst reg n, execSarx S reg dst reg', execShlx S reg dst reg',
      execShrx S reg dst reg', execTzcnt S reg dst, execBsr S reg dst, execBsf S reg dst, execPopcnt S reg dst,
      execBswap S reg, execCmov S cnd reg dst, execStos S mem reg, execRepNZScas S reg mem]"

definition extending_handlers ::
  "('r, 'a::len) size_class \<Rightarrow> ('q, 'b::len) size_class \<Rightarrow> 'r \<Rightarrow> 'q rm \<Rightarrow> handler list" where
  "extending_handlers S T dst src = [execMovsx S T dst src, execMovzx S T dst src]"

definition stack_handlers ::
  "u64 \<Rightarrow> r32 rm \<Rightarrow> r64 rm \<Rightarrow> r32 \<Rightarrow> r64 \<Rightarrow> memory_operand \<Rightarrow> bool \<Rightarrow> handler list" where
  "stack_handlers imm x32 x64 q32 q64 mem first =
     [execPushImm imm, execPushRM32 x32, execPushRM64 x64, execPopR32 q32, execPopR64 q64,
      execPopM32 first mem, execPopM64 first mem, execPushfq, execPopfq, execCallDirect imm,
      execCallIndirectRM32 x32, execCallIndirectRM64 x64, execRet, execRetImm imm, execLeave]"

definition control_handlers :: "u64 \<Rightarrow> u32 \<Rightarrow> r8 rm \<Rightarrow> r32 rm \<Rightarrow> r64 rm \<Rightarrow> cond \<Rightarrow> handler list" where
  "control_handlers imm imm32 x8 x32 x64 cnd =
     [execHalt, execNop, execUd2, execUnknown, execSetRM8 cnd x8, execJmpRM32 x32, execJmpRM64 x64,
      execJmpu32 imm32, execJcc cnd imm, execJe imm, execJne imm, execJrcxz imm, execCld, execStd, execSyscall]"

definition wide_handlers ::
  "(u32 \<Rightarrow> u32 \<Rightarrow> u32 \<Rightarrow> (u32 \<times> u32) result) \<Rightarrow> (u64 \<Rightarrow> u64 \<Rightarrow> u64 \<Rightarrow> (u64 \<times> u64) result) \<Rightarrow>
     r8 rm \<Rightarrow> r16 rm \<Rightarrow> r32 rm \<Rightarrow> r64 rm \<Rightarrow> r16 \<Rightarrow> r32 \<Rightarrow> r64 \<Rightarrow> r64 \<Rightarrow> u64 \<Rightarrow> encoding32 \<Rightarrow> encoding64 \<Rightarrow> handler list" where
  "wide_handlers idiv32 idiv64 x8 x16 x32 x64 q16 q32 q64 r64 imm e32 e64 =
     [execMulRM8 x8, execMulRM16 x16, execMulRM32 x32, execMulRM64 x64, execImul1RM16 x16, execImul1RM32 x32,
      execImul1RM64 x64, execImul2R16RM16 q16 x16, execImul3R16RM16Imm q16 x16 imm, execImul2R32RM32 q32 x32,
      execImul3R32RM32Imm q32 x32 imm, execImul2R64RM64 q64 x64, execImul3R64RM64Imm q64 x64 imm,
      execDivRM8 x8, execDivRM16 x16, execDivRM32 x32, execDivRM64 x64, execIdivRM32 idiv32 x32,
      execIdivRM64 idiv64 x64, execMovRR64 q64 r64, execLeaR32Encoding32 q32 e32, execLeaR64Encoding32 q64 e32,
      execLeaR32Encoding64 q32 e64, execLeaR64Encoding64 q64 e64, execCdq, execCqo, execCbw, execCwde, execCdqe]"

definition exchange_handlers ::
  "r8 rm \<Rightarrow> r16 rm \<Rightarrow> r32 rm \<Rightarrow> r64 rm \<Rightarrow> r8 \<Rightarrow> r16 \<Rightarrow> r32 \<Rightarrow> r64 \<Rightarrow> memory_operand \<Rightarrow> bool \<Rightarrow> handler list" where
  "exchange_handlers x8 x16 x32 x64 q8 q16 q32 q64 mem lock =
     [execCmpxchgRM8R8 x8 q8, execCmpxchgRM16R16 x16 q16, execCmpxchgRM32R32 x32 q32, execCmpxchgRM64R64 x64 q64,
      execLockCmpxchgM8R8 lock mem q8, execLockCmpxchgM16R16 lock mem q16, execLockCmpxchgM32R32 lock mem q32,
      execLockCmpxchgM64R64 lock mem q64, execCmpxchg16BM128 mem, execLockCmpxchg16BM128 lock mem]"

definition string_handlers :: "memory_operand \<Rightarrow> memory_operand \<Rightarrow> r8 \<Rightarrow> r16 \<Rightarrow> r32 \<Rightarrow> r64 \<Rightarrow> handler list" where
  "string_handlers dst src q8 q16 q32 q64 =
     [execRepMovsM16M16 dst src, execRepMovsM32M32 dst src, execRepMovsM64M64 dst src, execMovsM8M8 dst src,
      execMovsM16M16 dst src, execMovsM64M64 dst src, execRepCmpsM8M8 dst src, execRepStosM8R8 dst q8,
      execRepStosM16R16 dst q16, execRepStosM32R32 dst q32, execRepStosM64R64 dst q64]"

definition vector_handlers ::
  "mmxreg \<Rightarrow> mmxreg \<Rightarrow> xmmreg \<Rightarrow> xmmreg \<Rightarrow> xmmreg rm \<Rightarrow> xmmreg rm \<Rightarrow> r32 rm \<Rightarrow> r64 rm \<Rightarrow> memory_operand \<Rightarrow> u64
     \<Rightarrow> handler list" where
  "vector_handlers m m' r r' x x' x32 x64 mem imm =
     [execMovMMXMMX m m', execMovq2dq r m, execMovdq2q m r, execMovaXMMM128 r mem, execMovaM128XMM mem r,
      execMovuXMMM128 r mem, execMovuM128XMM mem r, execMovapsXMMM128XMMM128 x x', execMovdMMXRM32 m x32,
      execMovdRM32MMX x32 m, execMovdMMXRM64 m x64, execMovdRM64MMX x64 m, execMovqMMXRM64 m x64,
      execMovqRM64MMX x64 m, execMovlpsXMMM64 r mem, execMovhpsXMMM64 r mem, execLddquXMMM128 r mem,
      execPtestXMMXMMM128 r x, execPcmpistriXMMXMMM128Imm r x imm, execPcmpestriXMMXMMM128Imm r x imm]"

text \<open>
  The shapes with a general register or a memory operand of some size, at any routines; the other
  handlers between vector and general registers are instances.
\<close>

definition transfer_handlers ::
  "('r, 'a::len) size_class \<Rightarrow> (u64 \<Rightarrow> 'a word \<Rightarrow> u8 \<Rightarrow> u64) \<Rightarrow> (u128 \<Rightarrow> 'a word \<Rightarrow> u8 \<Rightarrow> u128) \<Rightarrow>
     ('a word \<Rightarrow> u128) \<Rightarrow> (u64 \<Rightarrow> 'a word) \<Rightarrow> (u128 \<Rightarrow> 'a word) \<Rightarrow> (u128 \<Rightarrow> u8 \<Rightarrow> 'a word) \<Rightarrow>
     mmxreg \<Rightarrow> xmmreg \<Rightarrow> 'r \<Rightarrow> 'r rm \<Rightarrow> memory_operand \<Rightarrow> u64 \<Rightarrow> handler list" where
  "transfer_handlers S f f' w g g' e m r q x mem imm =
     [mmx_to_register g S q m, mmx_insert f S m q imm, mmx_insert_memory f m mem imm, xmm_from_memory w r mem,
      xmm_to_register g' S q r, xmm_to_rm g' S x r, xmm_to_memory g' mem r, extract_register e S q r imm,
      extract_rm e S x r imm, extract_memory e mem r imm, xmm_insert_rm f' S r x imm, xmm_insert f' S r q imm,
      xmm_insert_memory f' r mem imm, xmm_from_rm w S r x]"

text \<open>\<open>instruction n h\<close>: \<open>h\<close> is a handler with its operands, each of its writes of at most \<open>n\<close> bytes.\<close>

inductive instruction :: "nat \<Rightarrow> handler \<Rightarrow> bool" where
  bytes: "h \<in> set (sized_handlers BYTE dst src q q' mem lock n cnd imm) \<Longrightarrow> instruction 16 h"
| words: "h \<in> set (sized_handlers WORD dst src q q' mem lock n cnd imm) \<Longrightarrow> instruction 16 h"
| dwords: "h \<in> set (sized_handlers DWORD dst src q q' mem lock n cnd imm) \<Longrightarrow> instruction 16 h"
| qwords: "h \<in> set (sized_handlers QWORD dst src q q' mem lock n cnd imm) \<Longrightarrow> instruction 16 h"
| extend16: "h \<in> set (extending_handlers WORD BYTE q x) \<Longrightarrow> instruction 16 h"
| extend32: "h \<in> set (extending_handlers DWORD BYTE q x) \<union> set (extending_handlers DWORD WORD q y) \<Longrightarrow> instruction 16 h"
| extend64: "h \<in> set (extending_handlers QWORD BYTE q x) \<union> set (extending_handlers QWORD WORD q y)
    \<union> set (extending_handlers QWORD DWORD q z) \<Longrightarrow> instruction 16 h"
| stack: "h \<in> set (stack_handlers imm x32 x64 q32 q64 mem first) \<Longrightarrow> instruction 16 h"
| control: "h \<in> set (control_handlers imm imm32 x8 x32 x64 cnd) \<Longrightarrow> instruction 16 h"
| wide: "h \<in> set (wide_handlers idiv32 idiv64 x8 x16 x32 x64 q16 q32 q64 r64 imm e32 e64) \<Longrightarrow> instruction 16 h"
| exchange: "h \<in> set (exchange_handlers x8 x16 x32 x64 q8 q16 q32 q64 mem lock) \<Longrightarrow> instruction 16 h"
| strings: "h \<in> set (string_handlers mem mem' q8 q16 q32 q64) \<Longrightarrow> instruction 16 h"
| copies: "instruction (2 ^ 32) (execRepMovsM8M8 mem mem')"
| vectors: "h \<in> set (vector_handlers m m' r r' x x' x32 x64 mem imm) \<Longrightarrow> instruction 16 h"
| transfer8: "h \<in> set (transfer_handlers BYTE a b w g g' e m r q x mem imm) \<Longrightarrow> instruction 16 h"
| transfer16: "h \<in> set (transfer_handlers WORD a b w g g' e m r q x mem imm) \<Longrightarrow> instruction 16 h"
| transfer32: "h \<in> set (transfer_handlers DWORD a b w g g' e m r q x mem imm) \<Longrightarrow> instruction 16 h"
| transfer64: "h \<in> set (transfer_handlers QWORD a b w g g' e m r q x mem imm) \<Longrightarrow> instruction 16 h"
| mmx: "h \<in> {mmx_binary a m x, mmx_binary_checked a' m x, mmx_binary_low a m x, mmx_unary g m x}
    \<Longrightarrow> instruction 16 h"
| mmx_shifts: "h \<in> {mmx_shift cv f m x, mmx_shift_imm f m imm, mmx_unary_imm g m x imm, mmx_binary_imm a m x imm}
    \<Longrightarrow> instruction 16 h"
| xmm: "h \<in> {xmm_binary b r x, xmm_binary_checked b' r x, xmm_unary k r x, xmm_from_xmm k r r', xmm_blend_variable v r x}
    \<Longrightarrow> instruction 16 h"
| xmm_shifts: "h \<in> {xmm_shift cv f r x, xmm_shift_imm f r imm, xmm_unary_imm k r x imm, xmm_binary_imm b r x imm,
    xmm_binary_reg_imm b r r' imm} \<Longrightarrow> instruction 16 h"
| checksums: "h \<in> {execCrc32R32RM8 q32 x8, execCrc32R32RM16 q32 x16, execCrc32R32RM32 q32 x32, execCrc32R64RM64 q64 x64}
    \<Longrightarrow> instruction 16 h"

section \<open>Each of them is confined\<close>

lemmas sized_defs =
  execAdd_def execAdc_def execSub_def execSbb_def execAnd_def execOr_def execXor_def execTest_def execCmp_def
  execBt_def execBtr_def execBtc_def execBts_def execNeg_def execNot_def execInc_def execDec_def execLockAdd_def
  execLockSub_def execLockOr_def execLockBts_def execLockInc_def execLockDec_def execShl_def execShr_def
  execSar_def execRcl_def execRcr_def execRol_def execRor_def execShld_def execShrd_def execSarx_def execShlx_def
  execShrx_def execTzcnt_def execBsr_def execBsf_def execPopcnt_def

context register_size
begin

lemmas shapes_confined =
  alu_op_confined flag_op_confined unary_op_confined locked_op_confined locked_unary_op_confined
  to_register_confined shift_op_confined double_shift_confined flagless_shift_confined bit_scan_confined
  moves_confined execXchg_confined execXadd_confined execLockXadd_confined execBswap_confined execCmov_confined
  execStos_confined execRepNZScas_confined

lemma sized_confined:
  assumes "h \<in> set (sized_handlers S dst src q q' mem lock n cnd imm)" "h c = Inr c'"
  shows "confined 16 c c'"
  using assms unfolding sized_handlers_def sized_defs by (auto dest: shapes_confined)

lemma extending_confined:
  assumes "h \<in> set (extending_handlers S T dst src)" "h c = Inr c'"
  shows "confined 16 c c'"
  using assms unfolding extending_handlers_def by (auto dest: moves_confined)

lemma transfer_confined:
  assumes "h \<in> set (transfer_handlers S f f' w g g' e m r q x mem imm)" "h c = Inr c'"
  shows "confined 16 c c'"
  using assms width
  by (auto simp: transfer_handlers_def mmx_to_register_def mmx_insert_def mmx_insert_memory_def xmm_from_memory_def
      xmm_to_register_def xmm_to_rm_def xmm_to_memory_def extract_register_def extract_rm_def extract_memory_def
      xmm_insert_rm_def xmm_insert_def xmm_insert_memory_def xmm_from_rm_def rbind_eq_Inr
      dest: cpu_set_confined mmx_size.cpu_set_confined xmm_set_confined set_rm_confined set_ptr_confined)

lemma crc_confined: "crc_op f S T dst src c = Inr c' \<Longrightarrow> confined 16 c c'"
  by (auto simp: crc_op_def rbind_eq_Inr dest: cpu_set_confined)

end

lemma push_confined:
  "push64 v c = Inr c' \<Longrightarrow> confined 16 c c'"
  "push_narrow w c = Inr c' \<Longrightarrow> confined 16 c c'"
  by (auto simp: push64_def push_narrow_def Let_def dest!: set_ptr_confined)

lemma pop_confined:
  "pop64 c = Inr (v, c') \<Longrightarrow> confined n c c'"
  "pop32 c = Inr (w, c') \<Longrightarrow> confined n c c'"
  by (auto simp: pop64_def pop32_def rbind_eq_Inr)

lemma call_confined: "call_to a c = Inr c' \<Longrightarrow> confined 16 c c'"
  by (auto simp: call_to_def rbind_eq_Inr dest!: push_confined intro: confined_tell)

lemmas set_confined =
  dword_size.cpu_set_confined [where n = 16] qword_size.cpu_set_confined [where n = 16]
  byte_size.cpu_set_confined [where n = 16] word_size.cpu_set_confined [where n = 16]
  mmx_size.cpu_set_confined [where n = 16] xmm_set_confined [where n = 16]

lemma stack_confined:
  assumes "h \<in> set (stack_handlers imm x32 x64 q32 q64 mem first)" "h c = Inr c'"
  shows "confined 16 c c'"
  using assms
  by (auto simp: stack_handlers_def execPushImm_def push32_def execPushRM32_def execPushRM64_def execPopR32_def
      execPopR64_def execPopM32_def execPopM64_def execPushfq_def execPopfq_def execCallDirect_def
      execCallIndirectRM32_def execCallIndirectRM64_def execRet_def execRetImm_def execLeave_def rbind_eq_Inr Let_def
      case_prod_beta
      dest!: push_confined pop_confined [where n = 16] call_confined set_confined set_ptr_confined
      intro!: confined_tell intro: confined_trans)

lemma control_confined:
  assumes "h \<in> set (control_handlers imm imm32 x8 x32 x64 cnd)" "h c = Inr c'"
  shows "confined 16 c c'"
  using assms
  by (auto simp: control_handlers_def execHalt_def execNop_def execUd2_def execUnknown_def execSetRM8_def
      cpu_matches_def execJmpRM32_def execJmpRM64_def execJmpu32_def execJcc_def execJe_def execJne_def
      execJrcxz_def execCld_def execStd_def execSyscall_def rbind_eq_Inr Let_def case_prod_beta
      dest!: byte_size.set_rm_confined intro!: confined_tell)

lemma wide_confined:
  assumes "h \<in> set (wide_handlers idiv32 idiv64 x8 x16 x32 x64 q16 q32 q64 r64 imm e32 e64)" "h c = Inr c'"
  shows "confined 16 c c'"
proof -
  note muls = word_size.execMul_confined dword_size.execMul_confined qword_size.execMul_confined
    word_size.execImul_confined dword_size.execImul_confined qword_size.execImul_confined
    byte_size.execDiv_confined word_size.execDiv_confined dword_size.execDiv_confined qword_size.execDiv_confined
  show ?thesis
    using assms unfolding wide_handlers_def
    by (auto simp: execMulRM8_def execMulRM16_def execMulRM32_def execMulRM64_def execImul1RM16_def
        execImul1RM32_def execImul1RM64_def execImul2R16RM16_def execImul3R16RM16Imm_def execImul2R32RM32_def
        execImul3R32RM32Imm_def execImul2R64RM64_def execImul3R64RM64Imm_def execDivRM8_def execDivRM16_def
        execDivRM32_def execDivRM64_def execIdivRM32_def execIdivRM64_def execMovRR64_def
        execLeaR32Encoding32_def execLeaR64Encoding32_def execLeaR32Encoding64_def execLeaR64Encoding64_def
        execCdq_def execCqo_def execCbw_def execCwde_def execCdqe_def rbind_eq_Inr Let_def case_prod_beta
        dest!: muls set_confined dest: confined_told split: if_splits)
qed

lemma exchange_confined:
  assumes "h \<in> set (exchange_handlers x8 x16 x32 x64 q8 q16 q32 q64 mem lock)" "h c = Inr c'"
  shows "confined 16 c c'"
proof -
  note impls = byte_size.execCmpxchgImpl_confined word_size.execCmpxchgImpl_confined
    dword_size.execCmpxchgImpl_confined qword_size.execCmpxchgImpl_confined
    byte_size.execLockCmpxchgImpl_confined word_size.execLockCmpxchgImpl_confined
    dword_size.execLockCmpxchgImpl_confined qword_size.execLockCmpxchgImpl_confined
    set_ptr128_confined qword_size.set_pair_confined
  show ?thesis
    using assms unfolding exchange_handlers_def
    by (auto simp: execCmpxchgRM8R8_def execCmpxchgRM16R16_def execCmpxchgRM32R32_def execCmpxchgRM64R64_def
        execLockCmpxchgM8R8_def execLockCmpxchgM16R16_def execLockCmpxchgM32R32_def execLockCmpxchgM64R64_def
        execCmpxchg16BM128_def execLockCmpxchg16BM128_def set_zero_def rbind_eq_Inr Let_def
        dest!: impls split: if_splits)
       (blast intro: confined_trans)+
qed

lemma string_confined:
  assumes "h \<in> set (string_handlers mem mem' q8 q16 q32 q64)" "h c = Inr c'"
  shows "confined 16 c c'"
proof -
  note strings = execRepMovs_confined execMovs_confined execRepCmps_confined byte_size.execRepStos_confined
    word_size.execRepStos_confined dword_size.execRepStos_confined qword_size.execRepStos_confined
  show ?thesis
    using assms unfolding string_handlers_def
    by (auto simp: execRepMovsM16M16_def execRepMovsM32M32_def execRepMovsM64M64_def execMovsM8M8_def
        execMovsM16M16_def execMovsM64M64_def execRepStosM8R8_def execRepStosM16R16_def execRepStosM32R32_def
        execRepStosM64R64_def dest: strings)
qed

lemma vector_confined:
  assumes "h \<in> set (vector_handlers m m' r r' x x' x32 x64 mem imm)" "h c = Inr c'"
  shows "confined 16 c c'"
  using assms
  by (auto simp: vector_handlers_def execMovMMXMMX_def execMovq2dq_def execMovdq2q_def execMovaXMMM128_def
      execMovaM128XMM_def execMovuXMMM128_def execMovuM128XMM_def execMovapsXMMM128XMMM128_def
      execMovdMMXRM32_def execMovdRM32MMX_def execMovdMMXRM64_def execMovdRM64MMX_def execMovqMMXRM64_def
      execMovqRM64MMX_def execMovlpsXMMM64_def execMovhpsXMMM64_def xmm_from_memory_def execLddquXMMM128_def
      execPtestXMMXMMM128_def execPcmpistriXMMXMMM128Imm_def execPcmpestriXMMXMMM128Imm_def rbind_eq_Inr Let_def
      dest!: set_confined set_ptr128_confined set_xmmm_confined dword_size.set_rm_confined qword_size.set_rm_confined)

lemma shape_confined:
  "mmx_binary a m x c = Inr c' \<Longrightarrow> confined 16 c c'"
  "mmx_binary_checked a' m x c = Inr c' \<Longrightarrow> confined 16 c c'"
  "mmx_binary_low a m x c = Inr c' \<Longrightarrow> confined 16 c c'"
  "mmx_unary g m x c = Inr c' \<Longrightarrow> confined 16 c c'"
  "mmx_shift_imm f m imm c = Inr c' \<Longrightarrow> confined 16 c c'"
  "xmm_binary b r y c = Inr c' \<Longrightarrow> confined 16 c c'"
  "xmm_binary_checked b' r y c = Inr c' \<Longrightarrow> confined 16 c c'"
  "xmm_unary k r y c = Inr c' \<Longrightarrow> confined 16 c c'"
  "xmm_from_xmm k r r' c = Inr c' \<Longrightarrow> confined 16 c c'"
  "xmm_shift_imm f' r imm c = Inr c' \<Longrightarrow> confined 16 c c'"
  by (auto simp: mmx_binary_def mmx_binary_checked_def mmx_binary_low_def mmx_unary_def mmx_shift_imm_def
      xmm_binary_def xmm_binary_checked_def xmm_unary_def xmm_from_xmm_def xmm_shift_imm_def rbind_eq_Inr
      dest!: set_confined)

lemma instruction_confined:
  assumes "instruction n h" "h c = Inr c'"
  shows "confined n c c'"
  using assms
proof (induction rule: instruction.induct)
  case copies
  then show ?case by (rule execRepMovsM8M8_confined)
next
  case (mmx h)
  then show ?case by (auto dest: shape_confined)
next
  case (mmx_shifts h)
  then show ?case
    by (auto simp: mmx_shift_def mmx_unary_imm_def mmx_binary_imm_def dest: shape_confined)
next
  case (xmm h)
  then show ?case by (auto simp: xmm_blend_variable_def dest: shape_confined)
next
  case (xmm_shifts h)
  then show ?case
    by (auto simp: xmm_shift_def xmm_unary_imm_def xmm_binary_imm_def xmm_binary_reg_imm_def dest: shape_confined)
next
  case (checksums h)
  then show ?case
    by (auto simp: execCrc32R32RM8_def execCrc32R32RM16_def execCrc32R32RM32_def execCrc32R64RM64_def
        dest: dword_size.crc_confined qword_size.crc_confined)
qed (auto dest: byte_size.sized_confined word_size.sized_confined dword_size.sized_confined
    qword_size.sized_confined word_size.extending_confined dword_size.extending_confined
    qword_size.extending_confined stack_confined control_confined wide_confined exchange_confined
    string_confined vector_confined byte_size.transfer_confined word_size.transfer_confined
    dword_size.transfer_confined qword_size.transfer_confined)

section \<open>Blocks\<close>

lemma confined_mono: "confined k c c' \<Longrightarrow> k \<le> n \<Longrightarrow> confined n c c'"
  by (auto simp: confined_def intro: stores_mono)

lemma mapping_bytes [simp]: "mapping (m\<lparr>mem_bytes := b\<rparr>) = mapping m"
  by (simp add: mapping_def fun_eq_iff)

lemma exec_block_confined:
  assumes "list_all (\<lambda>(nextAddress, h). \<exists>k\<le>n. instruction k h) bb" "exec_block bb c = Inr c'"
  shows "confined n c c'"
  using assms
proof (induction bb arbitrary: c)
  case (Cons i bb)
  obtain a h where i: "i = (a, h)" by (cases i)
  obtain c1 c2 where c1: "cpu_set QWORD RIP a c = Inr c1" and c2: "h c1 = Inr c2" and rest: "exec_block bb c2 = Inr c'"
    using Cons.prems(2) i by (auto simp: rbind_eq_Inr)
  obtain k where "k \<le> n" "instruction k h" using Cons.prems(1) i by auto
  then have "confined n c1 c2" using instruction_confined [where h = h, OF _ c2] confined_mono by blast
  moreover have "confined n c2 c'" using Cons.IH [OF _ rest] Cons.prems(1) by simp
  ultimately show ?case using qword_size.cpu_set_confined [OF c1] confined_trans by blast
qed simp

text \<open>
  C1. Whatever instructions a block is made of, running it to its end keeps the address space and
  the register file well-formed; it changes no mapping, no protection and no segment base, only adds
  to the log of its callbacks, and each byte of memory it changes lies in one of its own stores, whose
  first byte the guest may write: at most 15 bytes after it without \<^verbatim>\<open>rep movsb\<close>.
\<close>

theorem block_keeps_machine_well_formed:
  assumes "list_all (\<lambda>(nextAddress, h). \<exists>k\<le>n. instruction k h) bb" "exec_block bb c = Inr c'"
    and "mmu_inv C (cpu_mmu c)" "regs_wf (cpu_regs c)"
  shows "mmu_inv C (cpu_mmu c') \<and> regs_wf (cpu_regs c')
    \<and> cpu_mmu c' = (cpu_mmu c)\<lparr>mem_bytes := mem_bytes (cpu_mmu c')\<rparr> \<and> mapping (cpu_mmu c') = mapping (cpu_mmu c)
    \<and> segmentBase c' = segmentBase c \<and> prefix (cpu_events c) (cpu_events c')
    \<and> {a. mem_bytes (cpu_mmu c') a \<noteq> mem_bytes (cpu_mmu c) a}
        \<subseteq> {a. \<exists>p prot name. p \<le> unat a \<and> unat a < p + n \<and> mapping (cpu_mmu c) p = Some (prot, name)
                \<and> flag_test prot PROT_WRITE}"
proof -
  have conf: "confined n c c'" using assms(1,2) by (rule exec_block_confined)
  then have "stores n (cpu_mmu c) (cpu_mmu c')" by (simp add: confined_def)
  note frame = stores_frame [OF this]
  have "mmu_inv C (cpu_mmu c')" using assms(3) by (subst frame(1)) simp
  moreover have "mapping (cpu_mmu c') = mapping (cpu_mmu c)" by (subst frame(1)) simp
  moreover have "\<exists>p prot name. p \<le> unat a \<and> unat a < p + n \<and> mapping (cpu_mmu c) p = Some (prot, name)
      \<and> flag_test prot PROT_WRITE" if changed: "mem_bytes (cpu_mmu c') a \<noteq> mem_bytes (cpu_mmu c) a" for a
  proof -
    obtain p where p: "getWritePtr p (cpu_mmu c) = Inr p" "unat p \<le> unat a" "unat a < unat p + n"
      using frame(2) [OF changed] by blast
    then show ?thesis
      unfolding getWritePtr_mapping [OF assms(3)] by (auto split: option.splits prod.splits if_splits)
  qed
  ultimately show ?thesis using conf frame(1) assms(4) unfolding confined_def by blast
qed

definition sample_cpu :: cpu where
  "sample_cpu = \<lparr>cpu_flags = flags_init, cpu_regs = gpr_set registers_init RSP 0x11000, cpu_mmu = sample_mmu,
     segmentBase = (\<lambda>_. 0), cpu_events = []\<rparr>"

lemma sample_cpu_simps [simp]:
  "cpu_mmu sample_cpu = sample_mmu" "rsp sample_cpu = 0x11000" "regs_wf (cpu_regs sample_cpu)"
  "cpu_events sample_cpu = []"
  by (simp_all add: sample_cpu_def rsp_def registers_init_def regs_wf_def)

lemma sample_access:
  assumes "65536 \<le> unat a" "unat a < 77824"
  shows "getReadPtr a sample_mmu = Inr a" "getWritePtr a sample_mmu = Inr a"
  using assms
  by (simp_all add: getReadPtr_mapping [OF sample_inv] getWritePtr_mapping [OF sample_inv] sample_mapping
      flag_test_def PROT_READ_def PROT_WRITE_def)

theorem block_keeps_machine_well_formed_witness:
  "\<exists>c'. exec_block [(0x400005, execCallDirect 0x401000)] sample_cpu = Inr c'
    \<and> mmu_inv {} (cpu_mmu c') \<and> mapping (cpu_mmu c') = mapping sample_mmu"
proof -
  let ?bb = "[(0x400005, execCallDirect 0x401000)] :: (u64 \<times> handler) list"
  have i: "instruction 16 (execCallDirect 0x401000)"
    by (rule stack [of _ "0x401000" undefined undefined undefined undefined undefined undefined])
       (simp add: stack_handlers_def)
  obtain c' where c': "exec_block ?bb sample_cpu = Inr c'"
    by (simp add: execCallDirect_def call_to_def push64_def set_ptr_def mmu_write_def cpu_set_def QWORD_def set64_def
        set_rsp_def rsp_def sample_cpu_def registers_init_def rip_def sample_access store_bytes_def)
  show ?thesis
    using block_keeps_machine_well_formed [OF _ c' , of 16 "{}"] c' i sample_inv by auto
qed

end
