(* ===== verification/X64_CpuContracts.thy ===== *)
theory X64_CpuContracts
  imports X64_CpuSafe
begin

text \<open>
  Contracts between instructions: a locked instruction against the plain one, a call against the
  return that ends it, a comparison against the jump that reads its flags.
\<close>

section \<open>Reading and writing one place\<close>

lemma get_ptr_update [simp]:
  "get_ptr p (update_flags f c) = get_ptr p c" "get_ptr p (set_rip v c) = get_ptr p c"
  "get_ptr p (set_rsp v c) = get_ptr p c" "get_ptr p (tell e c) = get_ptr p c"
  by (simp_all add: get_ptr_def update_flags_def set_rip_def set_rsp_def tell_def)

lemma get_ptr_cpu_set: "cpu_set S r v c = Inr c' \<Longrightarrow> get_ptr p c' = get_ptr p c"
  by (auto simp: cpu_set_def rbind_eq_Inr get_ptr_def)

lemma resolve_update [simp]: "resolve m (update_flags f c) = resolve m c"
  by (simp add: resolve_def update_flags_def getSegmentBase_def)

lemma cpu_get_update [simp]:
  "cpu_get S r (update_flags f c) = cpu_get S r c" "cpu_get S r (tell e c) = cpu_get S r c"
  by (simp_all add: cpu_get_def update_flags_def tell_def)

text \<open>A value that can be read at an address lies in a region.\<close>

lemma get_ptr_region:
  "get_ptr p c = Inl e \<Longrightarrow> findAddress p (cpu_mmu c) = Inl e' \<Longrightarrow> e = e'"
  "get_ptr p c = Inl e \<Longrightarrow> findAddress p (cpu_mmu c) = Inr None \<Longrightarrow> e = VerifyFailed"
  "get_ptr p c = Inr v \<Longrightarrow> \<exists>r. findAddress p (cpu_mmu c) = Inr (Some r)"
  by (auto simp: get_ptr_def mmu_read_def getReadPtr_def rbind_eq_Inr split: option.splits)

lemma exclusive_plain:
  "exclusive p f c = rbind (get_ptr p c) (\<lambda>old. rbind (f old c) (\<lambda>(new, c1). set_ptr p new c1))"
proof (cases "get_ptr p c :: 'a word result")
  case (Inl e)
  then show ?thesis using get_ptr_region(1,2) [OF Inl]
    by (cases "findAddress p (cpu_mmu c)") (auto simp: exclusive_def verify_def)
next
  case (Inr v)
  then show ?thesis using get_ptr_region(3) [OF Inr] by (auto simp: exclusive_def)
qed

text \<open>Writing back what was read changes nothing.\<close>

lemma set_ptr_same:
  fixes v :: "'a::len word"
  assumes "LENGTH('a) = n * 8" "get_ptr p c = Inr v" "set_ptr p v c = Inr c'"
  shows "c' = c"
proof -
  let ?m = "cpu_mmu c" and ?bs = "map (\<lambda>i. mem_bytes (cpu_mmu c) (p + word_of_nat i)) [0..<n]"
  have len: "LENGTH('a) div 8 = n" using assms(1) by simp
  have r: "read_bytes p n ?m = Inr ?bs" "v = join_lanes ?bs"
    using assms(2) by (auto simp: get_ptr_def mmu_read_bytes rbind_eq_Inr len read_bytes_Inr)
  obtain m where m: "write_bytes p (split_lanes v) ?m = Inr m" "c' = c\<lparr>cpu_mmu := m\<rparr>"
    using assms(3) by (auto simp: set_ptr_def rbind_eq_Inr mmu_write_bytes)
  have "split_lanes v = ?bs" unfolding r(2) by (rule split_join_lanes) (simp_all add: assms(1))
  moreover have "stored p ?bs (mem_bytes ?m) = mem_bytes ?m"
  proof
    fix a
    have "p + word_of_nat (unat (a - p)) = a" by simp
    then show "stored p ?bs (mem_bytes ?m) a = mem_bytes ?m a" by (simp add: stored_def)
  qed
  ultimately have "m = ?m" using m(1) by (simp add: write_bytes_Inr)
  then show ?thesis using m(2) by simp
qed

section \<open>The lock prefix\<close>

lemma locked_op_plain: "locked_op f S True m src c = alu_op f S (Mem m) src c"
  by (simp add: locked_op_def alu_op_def binary_op_def cpp_assert_def exclusive_plain get_rm_def set_rm_def pure2_def
      rbind_def Let_def case_prod_beta split: sum.splits)

lemma locked_unary_op_plain: "locked_unary_op f True m c = unary_op f S (Mem m) c"
  by (simp add: locked_unary_op_def unary_op_def cpp_assert_def exclusive_plain get_rm_def set_rm_def rbind_def
      Let_def case_prod_beta split: sum.splits)

lemma set_ptr_cpu_set_commute:
  "rbind (cpu_set S r v c) (set_ptr p w) = Inr c' \<longleftrightarrow> rbind (set_ptr p w c) (cpu_set S r v) = Inr c'"
  by (auto simp: cpu_set_def set_ptr_def rbind_eq_Inr)

lemma locked_xadd_plain:
  fixes S :: "('r, 'a::len) size_class"
  shows "execLockXadd S True m r c = Inr c' \<longleftrightarrow> execXadd S (Mem m) r c = Inr c'"
proof (cases "get_ptr (resolve m c) c :: 'a word result")
  case (Inr old)
  let ?s = "alu_add old (cpu_get S r c) (cpu_flags c)" and ?a = "resolve m c"
  let ?c = "update_flags (snd ?s) c"
  have "execLockXadd S True m r c = rbind (cpu_set S r old ?c) (set_ptr ?a (fst ?s))"
    using Inr by (cases "cpu_set S r old ?c")
      (simp_all add: execLockXadd_def cpp_assert_def exclusive_plain Let_def case_prod_beta)
  moreover have "execXadd S (Mem m) r c = rbind (set_ptr ?a (fst ?s) ?c) (cpu_set S r old)"
    using Inr by (simp add: execXadd_def get_rm_def set_rm_def Let_def case_prod_beta)
  ultimately show ?thesis by (simp add: set_ptr_cpu_set_commute)
qed (simp add: execLockXadd_def execXadd_def cpp_assert_def exclusive_plain get_rm_def Let_def)

lemma locked_cmpxchg_plain:
  fixes S :: "('r, 'a::len) size_class"
  assumes "LENGTH('a) = n * 8" "execLockCmpxchgImpl S acc (resolve m c) v c = Inr c'"
  shows "execCmpxchgImpl S acc (Mem m) v c = Inr c'"
proof -
  let ?a = "resolve m c"
  obtain old :: "'a word" where old: "get_ptr ?a c = Inr old"
    using assms(2) by (auto simp: execLockCmpxchgImpl_def exclusive_plain rbind_eq_Inr)
  define c1 where "c1 = update_flags (alu_cmpxchg (cpu_get S acc c) old (cpu_flags c)) c"
  show ?thesis
  proof (cases "zflag (cpu_flags c1)")
    case True
    then show ?thesis using assms(2) old
      by (simp add: execLockCmpxchgImpl_def execCmpxchgImpl_def exclusive_plain get_rm_def set_rm_def
          c1_def [symmetric]) (simp add: c1_def)
  next
    case False
    then obtain c2 where c2: "cpu_set S acc old c1 = Inr c2" "set_ptr ?a old c2 = Inr c'"
      using assms(2) old by (auto simp: execLockCmpxchgImpl_def exclusive_plain c1_def [symmetric] rbind_eq_Inr)
    have "get_ptr ?a c2 = Inr old" using old by (simp add: get_ptr_cpu_set [OF c2(1)] c1_def)
    then have "c' = c2" using set_ptr_same [OF assms(1) _ c2(2)] by simp
    then show ?thesis using c2(1) old False by (simp add: execCmpxchgImpl_def get_rm_def c1_def [symmetric])
  qed
qed

text \<open>
  C3. With its lock prefix, a read-modify-write of memory does exactly what the plain instruction
  does, failures included, and a locked \<^verbatim>\<open>xadd\<close> succeeds with the same state; a locked
  compare-and-exchange that succeeds leaves the state of the plain one, since writing the old value
  back changes nothing. Without the prefix the locked handlers refuse.
\<close>

theorem lock_prefix_is_transparent:
  fixes S :: "('r, 'a::len) size_class"
  shows "execLockAdd S True m src c = execAdd S (Mem m) src c \<and> execLockSub S True m src c = execSub S (Mem m) src c
    \<and> execLockOr S True m src c = execOr S (Mem m) src c \<and> execLockBts S True m src c = execBts S (Mem m) src c
    \<and> execLockInc TYPE('a) True m c = execInc S (Mem m) c \<and> execLockDec TYPE('a) True m c = execDec S (Mem m) c
    \<and> (execLockXadd S True m r c = Inr c' \<longleftrightarrow> execXadd S (Mem m) r c = Inr c')
    \<and> {c'. execLockCmpxchgM8R8 True m q8 c = Inr c'} \<subseteq> {c'. execCmpxchgRM8R8 (Mem m) q8 c = Inr c'}
    \<and> {c'. execLockCmpxchgM16R16 True m q16 c = Inr c'} \<subseteq> {c'. execCmpxchgRM16R16 (Mem m) q16 c = Inr c'}
    \<and> {c'. execLockCmpxchgM32R32 True m q32 c = Inr c'} \<subseteq> {c'. execCmpxchgRM32R32 (Mem m) q32 c = Inr c'}
    \<and> {c'. execLockCmpxchgM64R64 True m q64 c = Inr c'} \<subseteq> {c'. execCmpxchgRM64R64 (Mem m) q64 c = Inr c'}
    \<and> execLockAdd S False m src c = Inl AssertFailed \<and> execLockCmpxchgM64R64 False m q64 c = Inl AssertFailed"
proof -
  have "{c'. execLockCmpxchgM8R8 True m q8 c = Inr c'} \<subseteq> {c'. execCmpxchgRM8R8 (Mem m) q8 c = Inr c'}"
    "{c'. execLockCmpxchgM16R16 True m q16 c = Inr c'} \<subseteq> {c'. execCmpxchgRM16R16 (Mem m) q16 c = Inr c'}"
    "{c'. execLockCmpxchgM32R32 True m q32 c = Inr c'} \<subseteq> {c'. execCmpxchgRM32R32 (Mem m) q32 c = Inr c'}"
    "{c'. execLockCmpxchgM64R64 True m q64 c = Inr c'} \<subseteq> {c'. execCmpxchgRM64R64 (Mem m) q64 c = Inr c'}"
    using locked_cmpxchg_plain [of 1 BYTE] locked_cmpxchg_plain [of 2 WORD] locked_cmpxchg_plain [of 4 DWORD]
      locked_cmpxchg_plain [of 8 QWORD]
    by (auto simp: execLockCmpxchgM8R8_def execLockCmpxchgM16R16_def execLockCmpxchgM32R32_def
        execLockCmpxchgM64R64_def execCmpxchgRM8R8_def execCmpxchgRM16R16_def execCmpxchgRM32R32_def
        execCmpxchgRM64R64_def cpp_assert_def)
  then show ?thesis
    by (simp add: execLockAdd_def execAdd_def execLockSub_def execSub_def execLockOr_def execOr_def execLockBts_def
        execBts_def locked_op_plain locked_xadd_plain)
       (simp add: execLockInc_def execInc_def execLockDec_def execDec_def locked_unary_op_plain [where S = S]
        locked_op_def execLockCmpxchgM64R64_def cpp_assert_def)
qed

section \<open>Calls and returns\<close>

lemma parts_simps [simp]:
  "cpu_regs (tell e c) = cpu_regs c" "cpu_mmu (tell e c) = cpu_mmu c" "cpu_mmu (set_rip v c) = cpu_mmu c"
  "cpu_mmu (set_rsp v c) = cpu_mmu c" "cpu_events (set_rip v c) = cpu_events c"
  "cpu_events (set_rsp v c) = cpu_events c" "cpu_events (tell e c) = cpu_events c @ [e]"
  "regs_wf (cpu_regs (set_rip v c)) = regs_wf (cpu_regs c)" "regs_wf (cpu_regs (set_rsp v c)) = regs_wf (cpu_regs c)"
  by (simp_all add: tell_def set_rip_def set_rsp_def)

lemma rsp_simps [simp]:
  "regs_wf (cpu_regs c) \<Longrightarrow> rsp (set_rsp v c) = v" "rsp (set_rip v c) = rsp c" "rsp (tell e c) = rsp c"
  "rip (set_rsp v c) = rip c" "regs_wf (cpu_regs c) \<Longrightarrow> rip (set_rip v c) = v" "rip (tell e c) = rip c"
  by (simp_all add: rsp_def rip_def set_rsp_def set_rip_def tell_def regs_wf_def)

lemma set_ptr_frame:
  assumes "set_ptr p v c = Inr c'"
  shows "cpu_regs c' = cpu_regs c" "cpu_flags c' = cpu_flags c" "cpu_events c' = cpu_events c"
    "segmentBase c' = segmentBase c"
  using assms by (auto simp: set_ptr_def rbind_eq_Inr)

lemma set_ptr_get:
  fixes v :: "'a::len word"
  assumes "LENGTH('a) = n * 8" "set_ptr p v c = Inr c'" "getReadPtr p (cpu_mmu c) = Inr p"
  shows "get_ptr p c' = Inr v"
proof -
  have len: "length (split_lanes v :: u8 list) = n" "LENGTH('a) div 8 = n" using assms(1) by simp_all
  obtain m where m: "write_bytes p (split_lanes v) (cpu_mmu c) = Inr m" "c' = c\<lparr>cpu_mmu := m\<rparr>"
    using assms(2) by (auto simp: set_ptr_def rbind_eq_Inr mmu_write_bytes)
  have "can_read p (length (split_lanes v :: u8 list)) (cpu_mmu c)"
    using assms(3) m(1) by (simp add: can_read_def write_bytes_Inr)
  moreover have "join_lanes (split_lanes v :: u8 list) = v" by (rule join_split_lanes) (simp add: assms(1))
  ultimately have "rbind (read_bytes p n m) (\<lambda>bs. Inr (join_lanes bs)) = Inr v"
    using mmu_memory.value_read_back [where encode = split_lanes and decode = join_lanes, OF m(1)]
    unfolding len by blast
  then show ?thesis using m(2) by (simp add: get_ptr_def mmu_read_bytes len)
qed

lemma rsp_rip_regs: "cpu_regs c = cpu_regs d \<Longrightarrow> rsp c = rsp d \<and> rip c = rip d"
  by (simp add: rsp_def rip_def)

lemma call_effect:
  assumes "regs_wf (cpu_regs c)" "getReadPtr (rsp c - 8) (cpu_mmu c) = Inr (rsp c - 8)" "call_to f c = Inr c1"
  shows "rip c1 = f" "rsp c1 = rsp c - 8" "get_ptr (rsp c - 8) c1 = Inr (rip c)" "regs_wf (cpu_regs c1)"
    "cpu_events c1 = cpu_events c @ [OnCall f]"
proof -
  obtain d where d: "set_ptr (rsp c - 8) (rip c) (set_rsp (rsp c - 8) c) = Inr d"
    and c1: "c1 = set_rip f (tell (OnCall f) d)"
    using assms(1,3) by (auto simp: call_to_def push64_def rbind_eq_Inr Let_def)
  note frame = set_ptr_frame [OF d]
  have wf: "regs_wf (cpu_regs d)" using assms(1) frame(1) by simp
  show "rip c1 = f" "regs_wf (cpu_regs c1)" "cpu_events c1 = cpu_events c @ [OnCall f]"
    using wf frame(3) by (simp_all add: c1)
  show "rsp c1 = rsp c - 8" using rsp_rip_regs [OF frame(1)] assms(1) by (simp add: c1)
  show "get_ptr (rsp c - 8) c1 = Inr (rip c)"
    using set_ptr_get [where n = 8, OF _ d] assms(2) by (simp add: c1)
qed

text \<open>
  C2. A call jumps to its target with the stack pointer 8 bytes lower and is told to the callbacks;
  and if the callee, a block of any instructions, ends with the stack pointer where it found it and
  the stack slot holding what it held, then the return that follows succeeds, resumes after the call,
  and restores the caller's stack pointer.
\<close>

theorem call_returns_after_the_call:
  assumes "regs_wf (cpu_regs c)" "getReadPtr (rsp c - 8) (cpu_mmu c) = Inr (rsp c - 8)"
    and call: "execCallDirect f c = Inr c1"
    and callee: "list_all (\<lambda>(nextAddress, h). \<exists>k\<le>n. instruction k h) bb" "exec_block bb c1 = Inr c2"
    and kept: "rsp c2 = rsp c1" "get_ptr (rsp c1) c2 = (get_ptr (rsp c1) c1 :: u64 result)"
  shows "rip c1 = f \<and> rsp c1 = rsp c - 8 \<and> cpu_events c1 = cpu_events c @ [OnCall f]
    \<and> (\<exists>c3. execRet c2 = Inr c3 \<and> rip c3 = rip c \<and> rsp c3 = rsp c
          \<and> cpu_mmu c3 = cpu_mmu c2 \<and> cpu_events c3 = cpu_events c2 @ [OnRet])"
proof -
  note e = call_effect [OF assms(1,2) call [unfolded execCallDirect_def]]
  have wf: "regs_wf (cpu_regs c2)"
    using exec_block_confined [OF callee] e(4) by (simp add: confined_def)
  let ?c3 = "tell OnRet (set_rip (rip c) (set_rsp (rsp c2 + 8) c2))"
  have "execRet c2 = Inr ?c3" using kept e(2,3) by (simp add: execRet_def pop64_def)
  moreover have "rip ?c3 = rip c" "rsp ?c3 = rsp c" using wf kept(1) e(2) by simp_all
  moreover have "cpu_mmu ?c3 = cpu_mmu c2" "cpu_events ?c3 = cpu_events c2 @ [OnRet]"
    by simp_all
  ultimately show ?thesis using e(1,2,5) by blast
qed

text \<open>A callee that sets its result.\<close>

theorem call_returns_after_the_call_witness:
  "\<exists>c1 c2 c3. execCallDirect 0x401000 sample_cpu = Inr c1
    \<and> exec_block [(0x401007, execMovRImm QWORD RAX 42)] c1 = Inr c2
    \<and> execRet c2 = Inr c3 \<and> rip c3 = rip sample_cpu \<and> rsp c3 = 0x11000"
proof -
  obtain c1 where c1: "execCallDirect 0x401000 sample_cpu = Inr c1"
    by (simp add: execCallDirect_def call_to_def push64_def set_ptr_def mmu_write_def sample_access store_bytes_def
        Let_def)
  let ?bb = "[(0x401007, execMovRImm QWORD RAX 42)] :: (u64 \<times> handler) list"
  obtain c2 where c2: "exec_block ?bb c1 = Inr c2" "rsp c2 = rsp c1" "cpu_mmu c2 = cpu_mmu c1"
    by (simp add: execMovRImm_def cpu_set_def QWORD_def set64_def rsp_def)
  have "instruction 16 (execMovRImm QWORD RAX 42)"
    by (rule qwords [of _ undefined undefined RAX undefined undefined undefined undefined undefined 42])
       (simp add: sized_handlers_def)
  then have i: "list_all (\<lambda>(nextAddress, h). \<exists>k\<le>16. instruction k h) ?bb" by auto
  have "getReadPtr (rsp sample_cpu - 8) (cpu_mmu sample_cpu) = Inr (rsp sample_cpu - 8)"
    by (simp add: sample_access)
  then show ?thesis
    using call_returns_after_the_call [OF _ _ c1 i c2(1,2)] c1 c2 by (auto simp: get_ptr_def)
qed

section \<open>Comparing and branching\<close>

text \<open>What a condition says of the two operands of a comparison.\<close>

fun compared :: "cond \<Rightarrow> 'a::len word \<Rightarrow> 'a word \<Rightarrow> bool" where
  "compared Cond_A a b = (b < a)"
| "compared Cond_AE a b = (b \<le> a)"
| "compared Cond_B a b = (a < b)"
| "compared Cond_BE a b = (a \<le> b)"
| "compared Cond_E a b = (a = b)"
| "compared Cond_G a b = (sint b < sint a)"
| "compared Cond_GE a b = (sint b \<le> sint a)"
| "compared Cond_L a b = (sint a < sint b)"
| "compared Cond_LE a b = (sint a \<le> sint b)"
| "compared Cond_NB a b = (b \<le> a)"
| "compared Cond_NBE a b = (b < a)"
| "compared Cond_NE a b = (a \<noteq> b)"
| "compared Cond_NO a b = (sint (a - b) = sint a - sint b)"
| "compared Cond_NP a b = odd (popcount (ucast (a - b) :: u8))"
| "compared Cond_NS a b = (0 \<le> sint (a - b))"
| "compared Cond_NU a b = odd (popcount (ucast (a - b) :: u8))"
| "compared Cond_O a b = (sint (a - b) \<noteq> sint a - sint b)"
| "compared Cond_P a b = even (popcount (ucast (a - b) :: u8))"
| "compared Cond_S a b = (sint (a - b) < 0)"
| "compared Cond_U a b = even (popcount (ucast (a - b) :: u8))"

lemma cmp_flags:
  fixes a b :: "'a::len word"
  shows "carry (alu_cmp a b f) = (a < b)" "zflag (alu_cmp a b f) = (a = b)"
    "overflow (alu_cmp a b f) = (sint (a - b) \<noteq> sint a - sint b)" "sflag (alu_cmp a b f) = (sint (a - b) < 0)"
    "pf (alu_cmp a b f) = even (popcount (ucast (a - b) :: u8))"
    "(sflag (alu_cmp a b f) \<noteq> overflow (alu_cmp a b f)) = (sint a < sint b)"
proof -
  let ?f = "alu_cmp a b f" and ?r = "a - b"
  show "carry ?f = (a < b)" "zflag ?f = (a = b)"
    by (simp_all add: alu_cmp_def alu_sub_def Let_def)
  show e: "overflow ?f = (sint ?r \<noteq> sint a - sint b)" "sflag ?f = (sint ?r < 0)"
    "pf ?f = even (popcount (ucast ?r :: u8))"
    using alu_sub_exact [of a b f] by (simp_all add: exact_flags_def alu_cmp_def alu_sub_def Let_def)
  have o: "overflow ?f = (sint a \<ge> 0 \<and> sint b < 0 \<and> sint ?r < 0
                        \<or> sint a < 0 \<and> sint b \<ge> 0 \<and> sint ?r \<ge> 0)"
    by (simp add: alu_cmp_def alu_sub_def Let_def word_of_int_minus)
  show "(sflag ?f \<noteq> overflow ?f) = (sint a < sint b)"
    using e o by (cases "overflow ?f") auto
qed

lemma matches_cmp:
  fixes a b :: "'a::len word"
  shows "fst (matches cnd (alu_cmp a b f)) = compared cnd a b"
proof -
  have le: "(sint a \<le> sint b) = (sint a < sint b \<or> a = b)" "(sint b \<le> sint a) = (\<not> sint a < sint b)"
    "(sint b < sint a) = (\<not> sint a < sint b \<and> a \<noteq> b)"
    by (auto simp: order_le_less word_eq_iff_signed [where 'a = int] not_less)
  have l: "(sflag (alu_cmp a b f) = overflow (alu_cmp a b f)) = (\<not> sint a < sint b)"
    using cmp_flags(6) [of a b f] by blast
  consider "cnd \<in> {Cond_G, Cond_GE, Cond_L, Cond_LE}" | "cnd \<in> {Cond_O, Cond_NO, Cond_S, Cond_NS}"
    | "cnd \<in> {Cond_P, Cond_NP, Cond_U, Cond_NU}"
    | "cnd \<in> {Cond_A, Cond_AE, Cond_B, Cond_BE, Cond_E, Cond_NB, Cond_NBE, Cond_NE}"
    by (cases cnd) simp_all
  then show ?thesis
  proof cases
    case 1
    then show ?thesis by (elim insertE emptyE) (simp_all add: l le cmp_flags(2) del: order_le_less, auto)
  next
    case 2
    then show ?thesis by (elim insertE emptyE) (simp_all add: cmp_flags(3,4) not_less)
  next
    case 3
    then show ?thesis
      using cmp_flags(5) [of a b f] by (elim insertE emptyE) (simp_all add: parity_pf Let_def case_prod_beta)
  next
    case 4
    then show ?thesis by (elim insertE emptyE) (simp_all add: cmp_flags(1,2), auto)
  qed
qed

lemma cpu_matches_flags: "cpu_matches cnd c = (fst (matches cnd (cpu_flags c)), update_flags (snd (matches cnd (cpu_flags c))) c)"
  by (simp add: cpu_matches_def Let_def case_prod_beta)

lemma execJcc_eq:
  "execJcc cnd dst c = Inr (let c1 = update_flags (snd (matches cnd (cpu_flags c))) c
     in if fst (matches cnd (cpu_flags c)) then set_rip dst c1 else c1)"
  by (simp add: execJcc_def cpu_matches_flags Let_def)

text \<open>
  C4. A comparison followed by a conditional jump branches exactly when the condition holds of the
  operands: above and below are the unsigned order, greater and less the signed one, and the others
  the equality, sign, overflow and parity of the difference; otherwise it falls through. The operands
  are read with the instruction pointer behind the comparison, and nothing but it and the flags changes.
\<close>

theorem compare_and_branch:
  fixes S :: "('r, 'a::len) size_class"
  assumes "regs_wf (cpu_regs c)" and run: "exec_block [(a1, execCmp S x y), (a2, execJcc cnd target)] c = Inr c'"
  shows "\<exists>u v. get_rm S x (set_rip a1 c) = Inr u \<and> get_source S y (set_rip a1 c) = Inr v
    \<and> rip c' = (if compared cnd u v then target else a2)
    \<and> cpu_mmu c' = cpu_mmu c \<and> cpu_events c' = cpu_events c
    \<and> cpu_regs c' = cpu_regs (set_rip (rip c') c)"
proof -
  have set: "cpu_set QWORD RIP v d = Inr (set_rip v d)" for v d
    by (simp add: cpu_set_def QWORD_def set64_def set_rip_def)
  obtain u v where uv: "get_rm S x (set_rip a1 c) = Inr u" "get_source S y (set_rip a1 c) = Inr v"
    using run by (auto simp: set execCmp_def flag_op_def rbind_eq_Inr)
  let ?fl = "alu_cmp u v (cpu_flags (set_rip a1 c))"
  let ?c2 = "set_rip a2 (update_flags ?fl (set_rip a1 c))"
  have "execJcc cnd target ?c2 = Inr c'" using run uv by (auto simp: set execCmp_def flag_op_def rbind_eq_Inr)
  moreover have "cpu_flags ?c2 = ?fl" by (simp add: set_rip_def update_flags_def)
  ultimately have c': "c' = (let c1 = update_flags (snd (matches cnd ?fl)) ?c2
      in if compared cnd u v then set_rip target c1 else c1)"
    by (simp add: execJcc_eq matches_cmp)
  have wf: "regs_wf (cpu_regs (update_flags fl d)) = regs_wf (cpu_regs d)" for fl d by (simp add: update_flags_def)
  have "rip c' = (if compared cnd u v then target else a2)"
    using assms(1) by (simp add: c' Let_def wf) (simp add: update_flags_def rip_def set_rip_def regs_wf_def)
  then show ?thesis
    using uv assms(1) by (auto simp: c' Let_def) (simp_all add: update_flags_def set_rip_def)
qed

theorem compare_and_branch_witness:
  "\<exists>c'. exec_block [(0x400003, execCmp DWORD (Reg EAX) (Immediate 5)), (0x400005, execJcc Cond_L 0x400100)] sample_cpu
     = Inr c' \<and> rip c' = 0x400100"
proof -
  obtain c' where c': "exec_block [(0x400003, execCmp DWORD (Reg EAX) (Immediate 5)), (0x400005, execJcc Cond_L 0x400100)]
      sample_cpu = Inr c'"
    by (simp add: cpu_set_def QWORD_def set64_def execCmp_def flag_op_def get_rm_def get_source_def execJcc_eq)
  have "get_rm DWORD (Reg EAX) (set_rip 0x400003 sample_cpu) = Inr 0"
    by (simp add: get_rm_def cpu_get_def DWORD_def get32_def set_rip_def sample_cpu_def registers_init_def)
  moreover have "get_source DWORD (Immediate 5) (set_rip 0x400003 sample_cpu) = Inr 5"
    by (simp add: get_source_def get_imm_def)
  moreover have "compared Cond_L (0 :: u32) 5" by simp
  ultimately show ?thesis using compare_and_branch [OF sample_cpu_simps(3) c'] c' by auto
qed

section \<open>Where the handlers differ from the processor\<close>

text \<open>
  An exchange and add of a register with itself: the register ends with its old value, where the
  processor leaves the sum. A 32-bit conditional move that does not move: the upper half of the
  destination is kept, where the processor clears it.
\<close>

lemma execXadd_same_register:
  assumes "regs_wf (cpu_regs c)" "execXadd QWORD (Reg q) q c = Inr c'"
  shows "cpu_get QWORD q c' = cpu_get QWORD q c"
proof -
  obtain c1 where c1: "cpu_set QWORD q (fst (alu_add (cpu_get QWORD q c) (cpu_get QWORD q c) (cpu_flags c)))
      (update_flags (snd (alu_add (cpu_get QWORD q c) (cpu_get QWORD q c) (cpu_flags c))) c) = Inr c1"
    "cpu_set QWORD q (cpu_get QWORD q c) c1 = Inr c'"
    using assms(2) by (auto simp: execXadd_def get_rm_def set_rm_def rbind_eq_Inr Let_def case_prod_beta)
  have "regs_wf (cpu_regs c1)"
    using qword_size.cpu_set_confined [OF c1(1)] assms(1) by (auto simp: confined_def update_flags_def)
  then show ?thesis using qword_size.cpu_set_get c1(2) by blast
qed

lemma execCmov_false:
  assumes "\<not> fst (matches cnd (cpu_flags c))" "execCmov DWORD cnd dst src c = Inr c'"
  shows "cpu_regs c' = cpu_regs c"
  using assms by (auto simp: execCmov_def cpu_matches_flags update_flags_def)

end
