(* ===== verification/X64_CpuLoops.thy ===== *)
theory X64_CpuLoops
  imports X64_CpuContracts
begin

text \<open>
  What the string loops compute: \<^verbatim>\<open>repnz scas\<close> finds the first occurrence, and
  \<^verbatim>\<open>rep movsb\<close>, one \<^verbatim>\<open>memmove\<close> in the code, is the byte by byte loop of the other sizes
  unless the destination starts inside the source.
\<close>

section \<open>Scanning\<close>

lemma repnz_scas_result:
  fixes v :: "'a::len word"
  defines "sz \<equiv> pointerSize TYPE('a)"
  assumes "\<And>j. j < length ws \<Longrightarrow> get_ptr (p + word_of_nat j * sz) c = Inr (ws ! j)"
    and "length ws \<le> n" "v \<in> set ws \<or> length ws = n"
  shows "\<exists>fl. repnz_scas v n p c = Inr (n - min (length ws) (Suc (length (takeWhile (\<lambda>w. w \<noteq> v) ws))),
      p + word_of_nat (min (length ws) (Suc (length (takeWhile (\<lambda>w. w \<noteq> v) ws)))) * sz, update_flags fl c)
    \<and> (ws \<noteq> [] \<longrightarrow> zflag fl = (v \<in> set ws))"
  using assms(2-)
proof (induction ws arbitrary: n p c)
  case Nil
  then show ?case by (intro exI [of _ "cpu_flags c"]) (simp add: update_flags_def)
next
  case (Cons w ws)
  obtain k where n: "n = Suc k" using Cons.prems(2) by (cases n) auto
  have w: "get_ptr p c = Inr w" using Cons.prems(1) [of 0] by simp
  let ?fl = "alu_cmp v w (cpu_flags c)"
  have z: "zflag (cpu_flags (update_flags ?fl c)) = (v = w)" by (simp add: update_flags_def cmp_flags(2))
  show ?case
  proof (cases "v = w")
    case True
    then show ?thesis using w z by (intro exI [of _ ?fl]) (simp add: n sz_def Let_def cmp_flags(2))
  next
    case False
    have "get_ptr (p + sz + word_of_nat j * sz) (update_flags ?fl c) = Inr (ws ! j)" if "j < length ws" for j
      using Cons.prems(1) [of "Suc j"] that by (simp add: algebra_simps)
    then obtain fl where fl: "repnz_scas v k (p + sz) (update_flags ?fl c)
        = Inr (k - min (length ws) (Suc (length (takeWhile (\<lambda>w. w \<noteq> v) ws))),
            p + sz + word_of_nat (min (length ws) (Suc (length (takeWhile (\<lambda>w. w \<noteq> v) ws)))) * sz,
            update_flags fl (update_flags ?fl c))" "ws \<noteq> [] \<longrightarrow> zflag fl = (v \<in> set ws)"
      using Cons.IH [of "p + sz" "update_flags ?fl c" k] Cons.prems(2,3) False n by auto
    show ?thesis
    proof (cases ws)
      case Nil
      then have "repnz_scas v n p c = Inr (0, p + sz, update_flags ?fl c)"
        using w z False n Cons.prems(3) by (simp add: sz_def Let_def)
      then show ?thesis using Nil False n Cons.prems(3)
        by (intro exI [of _ ?fl]) (simp add: cmp_flags(2) del: repnz_scas.simps)
    next
      case (Cons w' ws')
      then show ?thesis using fl w z False n
        by (intro exI [of _ fl]) (auto simp: sz_def Let_def update_flags_def algebra_simps)
    qed
  qed
qed

text \<open>
  C5. \<^verbatim>\<open>repnz scas\<close> stops behind the first element equal to the register, or behind the last one:
  if the elements up to a match, or all \<^verbatim>\<open>rcx\<close> of them, can be read, then it succeeds whatever lies
  behind them, \<^verbatim>\<open>rcx\<close> has gone down and \<^verbatim>\<open>rdi\<close> up by the number of elements looked at, the
  zero flag tells whether there was a match, and memory is unchanged.
\<close>

theorem scan_stops_at_first_match:
  fixes S :: "('r, 'a::len) size_class"
  assumes "mem_base m = RDI" "\<not> direction (cpu_flags c)" "regs_wf (cpu_regs c)"
    and reads: "list_all (\<lambda>j. get_ptr (resolve m c + word_of_nat j * pointerSize TYPE('a)) c = Inr (ws ! j)) [0..<length ws]"
    and "length ws \<le> unat (cpu_get QWORD RCX c)" "cpu_get S r c \<in> set ws \<or> length ws = unat (cpu_get QWORD RCX c)"
  shows "let k = min (length ws) (Suc (length (takeWhile (\<lambda>w. w \<noteq> cpu_get S r c) ws)))
    in \<exists>c'. execRepNZScas S r m c = Inr c' \<and> cpu_get QWORD RCX c' = cpu_get QWORD RCX c - word_of_nat k
      \<and> cpu_get QWORD RDI c' = resolve m c + word_of_nat k * pointerSize TYPE('a)
      \<and> (if ws = [] then cpu_flags c' = cpu_flags c else zflag (cpu_flags c') = (cpu_get S r c \<in> set ws))
      \<and> cpu_mmu c' = cpu_mmu c"
proof -
  let ?v = "cpu_get S r c" and ?n = "unat (cpu_get QWORD RCX c)" and ?sz = "pointerSize TYPE('a)"
  let ?k = "min (length ws) (Suc (length (takeWhile (\<lambda>w. w \<noteq> ?v) ws)))"
  have "get_ptr (resolve m c + word_of_nat j * ?sz) c = Inr (ws ! j)" if "j < length ws" for j
    using reads that by (simp add: list_all_iff)
  then obtain fl where fl: "repnz_scas ?v ?n (resolve m c) c = Inr (?n - ?k, resolve m c + word_of_nat ?k * ?sz, update_flags fl c)"
    "ws \<noteq> [] \<longrightarrow> zflag fl = (?v \<in> set ws)"
    using repnz_scas_result [of ws "resolve m c" c ?n ?v] assms(5,6) by auto
  let ?c' = "set_rdi (resolve m c + word_of_nat ?k * ?sz) (set_rcx (word_of_nat (?n - ?k)) (update_flags fl c))"
  have "execRepNZScas S r m c = Inr ?c'"
    using fl(1) assms(1,2) by (simp add: execRepNZScas_def cpp_assert_def forwards_def)
  moreover have "word_of_nat (?n - ?k) = cpu_get QWORD RCX c - word_of_nat ?k"
    using assms(5) by (simp add: of_nat_diff)
  moreover have "ws = [] \<Longrightarrow> fl = cpu_flags c"
    using fl(1) assms(5,6) by (auto simp: update_flags_def dest: arg_cong [where f = cpu_flags])
  ultimately show ?thesis
    using fl assms(3,5,6)
    by (auto simp: Let_def cpu_get_def QWORD_def get64_def set_rdi_def set_rcx_def update_flags_def regs_wf_def)
qed

text \<open>A scan for zero in the sample's zeroed heap, with four elements allowed.\<close>

theorem scan_stops_at_first_match_witness:
  "\<exists>c'. execRepNZScas BYTE AL \<lparr>mem_segment = SEG_ES, mem_encoding = \<lparr>base64 = RDI, index64 = ZERO, scale64 = 1, displacement64 = 0\<rparr>\<rparr>
      (set_rdi 0x10010 (set_rcx 4 sample_cpu)) = Inr c'
    \<and> cpu_get QWORD RCX c' = 3 \<and> cpu_get QWORD RDI c' = 0x10011 \<and> zflag (cpu_flags c')"
proof -
  let ?m = "\<lparr>mem_segment = SEG_ES, mem_encoding = \<lparr>base64 = RDI, index64 = ZERO, scale64 = 1, displacement64 = 0\<rparr>\<rparr>"
  let ?c = "set_rdi 0x10010 (set_rcx 4 sample_cpu)"
  have p: "resolve ?m ?c = 0x10010" "cpu_get QWORD RCX ?c = 4" "cpu_get BYTE AL ?c = 0" "\<not> direction (cpu_flags ?c)"
    "regs_wf (cpu_regs ?c)" "cpu_mmu ?c = sample_mmu"
    by (simp_all add: resolve_def getSegmentBase_def resolve64_def get64_def cpu_get_def QWORD_def BYTE_def set_rdi_def
        set_rcx_def sample_cpu_def registers_init_def flags_init_def regs_wf_def)
  have "mem_bytes sample_mmu = (\<lambda>_. 0)"
    by (simp add: sample_mmu_def added_def tryCreate_def settled_bytes_def) (simp add: sample_region_def)
  then have r: "get_ptr 0x10010 ?c = Inr (0 :: u8)"
    by (simp add: get_ptr_def p(6) mmu_read8 can_read_def sample_access)
  show ?thesis
    using scan_stops_at_first_match [where m = ?m and c = ?c and S = BYTE and r = AL and ws = "[0]"] p r
    by (auto simp: pointerSize_def Let_def)
qed

section \<open>Copying\<close>

lemma mmu_write8:
  "mmu_write a (v :: u8) m = Inr m' \<longleftrightarrow> getWritePtr a m = Inr a \<and> unat a + 1 \<le> unat (memorySize m)
     \<and> m' = m\<lparr>mem_bytes := (mem_bytes m)(a := v)\<rparr>"
proof -
  have "(split_lanes v :: u8 list) = [v]"
    by (rule nth_equalityI) (simp_all add: split_lanes_def)
  moreover have "stored a [v] (mem_bytes m) = (mem_bytes m)(a := v)"
    by (auto simp: stored_def fun_eq_iff unat_eq_0)
  ultimately show ?thesis by (simp add: mmu_write_bytes write_bytes_Inr)
qed

text \<open>The bytes after copying \<open>n\<close> of them, all read before any is written.\<close>

definition moved :: "u64 \<Rightarrow> u64 \<Rightarrow> nat \<Rightarrow> (u64 \<Rightarrow> u8) \<Rightarrow> u64 \<Rightarrow> u8" where
  "moved d s n b = (\<lambda>x. if unat (x - d) < n then b (s + (x - d)) else b x)"

lemma rep_movs8_step:
  "rep_movs TYPE(8) (Suc n) d s c = Inr (d', s', c') \<longleftrightarrow>
     can_read s 1 (cpu_mmu c) \<and> getWritePtr d (cpu_mmu c) = Inr d \<and> unat d + 1 \<le> unat (memorySize (cpu_mmu c))
     \<and> rep_movs TYPE(8) n (d + 1) (s + 1)
         (c\<lparr>cpu_mmu := (cpu_mmu c)\<lparr>mem_bytes := (mem_bytes (cpu_mmu c))(d := mem_bytes (cpu_mmu c) s)\<rparr>\<rparr>)
       = Inr (d', s', c')"
  by (auto simp: rbind_eq_Inr get_ptr_def mmu_read8 set_ptr_def mmu_write8 pointerSize_def)

lemma unat_Suc_below: "unat (a :: u64) + 1 \<le> unat (M :: u64) \<Longrightarrow> unat (a + 1) = unat a + 1"
  using unat_lt_2p [of M] by (simp add: unat_add_no_wrap)

lemma rep_movs8_range:
  assumes "rep_movs TYPE(8) (Suc n) d s c = Inr (d', s', c')"
  shows "getWritePtr d (cpu_mmu c) = Inr d \<and> getReadPtr s (cpu_mmu c) = Inr s
    \<and> getReadPtr (s + word_of_nat n) (cpu_mmu c) = Inr (s + word_of_nat n)
    \<and> unat d + Suc n \<le> unat (memorySize (cpu_mmu c)) \<and> unat s + Suc n \<le> unat (memorySize (cpu_mmu c))"
  using assms
proof (induction n arbitrary: d s c)
  case 0
  then show ?case unfolding rep_movs8_step by (simp add: can_read_def)
next
  case (Suc n)
  note step = Suc.prems [unfolded rep_movs8_step [of "Suc n"]]
  have "unat (d + 1) = unat d + 1" "unat (s + 1) = unat s + 1"
    using step by (simp_all add: unat_Suc_below [where M = "memorySize (cpu_mmu c)"] can_read_def)
  moreover have "rep_movs TYPE(8) (Suc n) (d + 1) (s + 1)
      (c\<lparr>cpu_mmu := (cpu_mmu c)\<lparr>mem_bytes := (mem_bytes (cpu_mmu c))(d := mem_bytes (cpu_mmu c) s)\<rparr>\<rparr>) = Inr (d', s', c')"
    using step by blast
  ultimately show ?case
    using step Suc.IH [of "d + 1" "s + 1"] by (fastforce simp: can_read_def algebra_simps simp del: rep_movs.simps)
qed

lemma moved_step:
  fixes d s :: u64
  assumes "unat d + Suc n < 2 ^ 64" "unat s + Suc n < 2 ^ 64" "unat d \<le> unat s \<or> unat s + Suc n \<le> unat d"
  shows "moved (d + 1) (s + 1) n (b(d := b s)) = moved d s (Suc n) b"
proof
  fix x
  define k where "k = x - d"
  have x: "x = d + k" "s + 1 + (x - (d + 1)) = s + k" by (simp_all add: k_def)
  show "moved (d + 1) (s + 1) n (b(d := b s)) x = moved d s (Suc n) b x"
  proof (cases "k = 0")
    case True
    have "unat (- 1 :: u64) = 2 ^ 64 - 1" by (simp add: unsigned_minus_1_eq_mask mask_eq_exp_minus_1)
    then show ?thesis using assms(1) x True by (simp add: moved_def)
  next
    case False
    then have k: "unat (x - (d + 1)) = unat k - 1" "0 < unat k"
      using unat_minus_one [of k] by (simp_all add: k_def algebra_simps unat_gt_0)
    have "s + k \<noteq> d" if "unat k < Suc n"
    proof -
      have "unat (s + k) = unat s + unat k" using that assms(2) by (intro unat_add_no_wrap) simp
      then show ?thesis using that assms(3) k(2) by auto
    qed
    then show ?thesis using k False by (auto simp: moved_def x k_def [symmetric])
  qed
qed

lemma rep_movs8_moves:
  assumes "rep_movs TYPE(8) n d s c = Inr (d', s', c')" "unat d \<le> unat s \<or> unat s + n \<le> unat d"
  shows "d' = d + word_of_nat n \<and> s' = s + word_of_nat n
    \<and> c' = c\<lparr>cpu_mmu := (cpu_mmu c)\<lparr>mem_bytes := moved d s n (mem_bytes (cpu_mmu c))\<rparr>\<rparr>"
  using assms
proof (induction n arbitrary: d s c)
  case 0
  then show ?case by (simp add: moved_def)
next
  case (Suc n)
  note step = Suc.prems(1) [unfolded rep_movs8_step] and range = rep_movs8_range [OF Suc.prems(1)]
  have M: "unat (memorySize (cpu_mmu c)) < 2 ^ 64" using unat_lt_2p [of "memorySize (cpu_mmu c)"] by simp
  have ds: "unat (d + 1) = unat d + 1" "unat (s + 1) = unat s + 1"
    using step by (simp_all add: unat_Suc_below [where M = "memorySize (cpu_mmu c)"] can_read_def)
  have b: "moved (d + 1) (s + 1) n ((mem_bytes (cpu_mmu c))(d := mem_bytes (cpu_mmu c) s))
      = moved d s (Suc n) (mem_bytes (cpu_mmu c))"
    by (rule moved_step) (use range M Suc.prems(2) in linarith)+
  show ?case
    using Suc.IH [of "d + 1" "s + 1" "c\<lparr>cpu_mmu := (cpu_mmu c)\<lparr>mem_bytes := (mem_bytes (cpu_mmu c))(d := mem_bytes (cpu_mmu c) s)\<rparr>\<rparr>"]
      step Suc.prems(2) ds b [unfolded fun_upd_def] by (auto simp: fun_upd_def algebra_simps)
qed

lemma copyBytes_moves:
  assumes "getWritePtr d m = Inr d" "getReadPtr s m = Inr s"
    "getReadPtr (s + word_of_nat n - 1) m = Inr (s + word_of_nat n - 1)"
    "unat d + n \<le> unat (memorySize m)" "unat s + n \<le> unat (memorySize m)"
  shows "copyBytes d s n m = Inr (m\<lparr>mem_bytes := moved d s n (mem_bytes m)\<rparr>)"
  using assms by (simp add: copyBytes_def load_bytes_def store_bytes_def moved_def fun_eq_iff cong: if_cong)

text \<open>
  C6. \<^verbatim>\<open>rep movsb\<close>, which the code does with one \<^verbatim>\<open>memmove\<close>, ends in the same state as the
  byte by byte loop of the other sizes whenever that loop succeeds, at least one byte is copied and
  the destination does not start inside the source: every byte of the destination is then the byte
  the source held, every other byte is kept, and the pointers have passed what was copied.
\<close>

theorem rep_movsb_is_the_byte_loop:
  assumes "mem_base dst = RDI" "mem_base src = RSI" "cpu_get DWORD ECX c \<noteq> 0"
    and loop: "execRepMovs TYPE(8) dst src c = Inr c'"
    and apart: "resolve dst c \<le> resolve src c
      \<or> unat (resolve src c) + unat (cpu_get DWORD ECX c) \<le> unat (resolve dst c)"
  shows "execRepMovsM8M8 dst src c = Inr c'
    \<and> mem_bytes (cpu_mmu c')
      = moved (resolve dst c) (resolve src c) (unat (cpu_get DWORD ECX c)) (mem_bytes (cpu_mmu c))"
proof -
  let ?d = "resolve dst c" and ?s = "resolve src c" and ?n = "unat (cpu_get DWORD ECX c)"
  obtain d' s' c1 c2 where fw: "forwards c = Inr ()" and r: "rep_movs TYPE(8) ?n ?d ?s c = Inr (d', s', c1)"
    and c2: "cpu_set DWORD ECX 0 c1 = Inr c2" and c': "c' = set_rdi d' (set_rsi s' c2)"
    using loop by (auto simp: execRepMovs_def rbind_eq_Inr Let_def)
  have ov: "unat ?d \<le> unat ?s \<or> unat ?s + ?n \<le> unat ?d" using apart by (simp add: word_le_nat_alt)
  note moves = rep_movs8_moves [OF r ov]
  obtain k where k: "?n = Suc k" using assms(3) by (cases ?n) (auto simp: unat_eq_0)
  note range = rep_movs8_range [OF r [unfolded k]]
  have "?s + word_of_nat ?n - 1 = ?s + word_of_nat k" by (simp add: k)
  then have "copyBytes ?d ?s ?n (cpu_mmu c)
      = Inr ((cpu_mmu c)\<lparr>mem_bytes := moved ?d ?s ?n (mem_bytes (cpu_mmu c))\<rparr>)"
    using range k by (intro copyBytes_moves) simp_all
  moreover have "ucast (cpu_get DWORD ECX c) = (word_of_nat ?n :: u64)" by simp
  ultimately have "execRepMovsM8M8 dst src c = Inr c'"
    using assms(1,2) fw c2 moves by (simp add: execRepMovsM8M8_def cpp_assert_def Let_def c')
  moreover have "cpu_mmu c' = cpu_mmu c1"
    using c2 by (auto simp: c' set_rdi_def set_rsi_def cpu_set_def rbind_eq_Inr)
  ultimately show ?thesis using moves by simp
qed

text \<open>
  When the destination does start inside the source the two differ: a loop of two bytes to the next
  address spreads the first byte, \<^verbatim>\<open>memmove\<close> shifts both.
\<close>

lemma rep_movsb_overlap:
  assumes "rep_movs TYPE(8) 2 (s + 1) s c = Inr (d', s', c')"
  shows "mem_bytes (cpu_mmu c') (s + 2) = mem_bytes (cpu_mmu c) s"
    and "moved (s + 1) s 2 (mem_bytes (cpu_mmu c)) (s + 2) = mem_bytes (cpu_mmu c) (s + 1)"
proof -
  have ne: "s + 2 \<noteq> s + 1" by (simp only: add_left_cancel) simp
  have "c' = c\<lparr>cpu_mmu := (cpu_mmu c)\<lparr>mem_bytes := (mem_bytes (cpu_mmu c))(s + 1 := mem_bytes (cpu_mmu c) s,
      s + 2 := mem_bytes (cpu_mmu c) s)\<rparr>\<rparr>"
    using assms unfolding numeral_2_eq_2 rep_movs8_step by (auto simp: add.assoc)
  then show "mem_bytes (cpu_mmu c') (s + 2) = mem_bytes (cpu_mmu c) s" by simp
  show "moved (s + 1) s 2 (mem_bytes (cpu_mmu c)) (s + 2) = mem_bytes (cpu_mmu c) (s + 1)"
    by (simp add: moved_def)
qed

text \<open>One byte copied within the sample's heap.\<close>

theorem rep_movsb_is_the_byte_loop_witness:
  "\<exists>dst src c'. execRepMovsM8M8 dst src (set_rsi 0x10000 (set_rdi 0x10010 (set_rcx 1 sample_cpu))) = Inr c'"
proof -
  let ?op = "\<lambda>b. \<lparr>mem_segment = SEG_ES, mem_encoding = \<lparr>base64 = b, index64 = ZERO, scale64 = 1, displacement64 = 0\<rparr>\<rparr>"
  let ?c = "set_rsi 0x10000 (set_rdi 0x10010 (set_rcx 1 sample_cpu))"
  have p: "resolve (?op RDI) ?c = 0x10010" "resolve (?op RSI) ?c = 0x10000" "cpu_get DWORD ECX ?c = 1"
    "\<not> direction (cpu_flags ?c)" "cpu_mmu ?c = sample_mmu"
    by (simp_all add: resolve_def getSegmentBase_def resolve64_def get64_def cpu_get_def DWORD_def get32_def set_rdi_def
        set_rcx_def set_rsi_def sample_cpu_def registers_init_def flags_init_def regs_wf_def)
  have "\<exists>r. rep_movs TYPE(8) (Suc 0) 0x10010 0x10000 ?c = Inr r"
    unfolding split_paired_Ex rep_movs8_step by (simp add: p(5) sample_access can_read_def)
  then obtain d s c1 where r: "rep_movs TYPE(8) (Suc 0) 0x10010 0x10000 ?c = Inr (d, s, c1)" by auto
  obtain c2 where c2: "cpu_set DWORD ECX 0 c1 = Inr c2" by (simp add: cpu_set_def DWORD_def set32_def)
  have c': "execRepMovs TYPE(8) (?op RDI) (?op RSI) ?c = Inr (set_rdi d (set_rsi s c2))"
    using r by (simp add: execRepMovs_def p c2 forwards_def Let_def del: rep_movs.simps)
  show ?thesis
    using rep_movsb_is_the_byte_loop [OF _ _ _ c'] by (auto simp: p word_le_nat_alt)
qed

end
