(* ===== verification/X64_BitMask.thy ===== *)
theory X64_BitMask
  imports X64_Prelude
begin

text \<open>
  \<^verbatim>\<open>BitMask<InlineBytes>\<close> of \<^verbatim>\<open>emulator/include/bitmask.h\<close>: a set of
  positions below \<open>mask_size\<close>, stored one bit per position in a buffer of bytes that lives in the
  object when it is small enough and on the heap otherwise. Every operation picks the buffer by the
  same test, so the model has one buffer, with the length of the one picked. A position that is not
  below the size fails an assertion of the source.
\<close>

record bitmask =
  mask_size :: nat
  mask_bytes :: "u8 list"

definition mask_new :: "nat \<Rightarrow> nat \<Rightarrow> bitmask" where
  "mask_new inlineBytes n =
     (if n \<le> 8 * inlineBytes then \<lparr>mask_size = n, mask_bytes = replicate inlineBytes 0\<rparr>
      else \<lparr>mask_size = n, mask_bytes = replicate ((n + 7) div 8) 0\<rparr>)"

definition mask_set_all :: "bitmask \<Rightarrow> bitmask" where
  "mask_set_all b = b\<lparr>mask_bytes := map (\<lambda>_. 0xff) (mask_bytes b)\<rparr>"

definition mask_set :: "nat \<Rightarrow> bitmask \<Rightarrow> bitmask" where
  "mask_set position b =
     (let block = position div 8; k = position mod 8
      in b\<lparr>mask_bytes := (mask_bytes b)[block := mask_bytes b ! block OR push_bit k 1]\<rparr>)"

definition mask_reset :: "nat \<Rightarrow> bitmask \<Rightarrow> bitmask" where
  "mask_reset position b =
     (let block = position div 8; k = position mod 8
      in b\<lparr>mask_bytes := (mask_bytes b)[block := NOT (push_bit k 1) AND mask_bytes b ! block]\<rparr>)"

definition mask_test :: "nat \<Rightarrow> bitmask \<Rightarrow> bool" where
  "mask_test position b = (mask_bytes b ! (position div 8) AND push_bit (position mod 8) 1 \<noteq> 0)"

section \<open>A mask is the set of its positions\<close>

definition mask_wf :: "bitmask \<Rightarrow> bool" where
  "mask_wf b = (mask_size b \<le> 8 * length (mask_bytes b))"

definition mask_members :: "bitmask \<Rightarrow> nat set" where
  "mask_members b = {i. i < mask_size b \<and> mask_test i b}"

lemma mask_test_bit: "mask_test i b = bit (mask_bytes b ! (i div 8)) (i mod 8)"
proof -
  have "push_bit (i mod 8) 1 = (2 :: u8) ^ (i mod 8)" by (simp add: push_bit_eq_mult)
  then show ?thesis by (simp add: mask_test_def and_exp_eq_0_iff_not_bit)
qed

lemma same_place: "(i :: nat) div 8 = j div 8 \<and> i mod 8 = j mod 8 \<longleftrightarrow> i = j"
  by (metis div_mult_mod_eq)

lemma mask_block:
  assumes "mask_wf b" "i < mask_size b" shows "i div 8 < length (mask_bytes b)"
  using assms by (simp add: mask_wf_def less_mult_imp_div_less mult.commute)

lemma bit_u8_one: "bit ((2 :: u8) ^ k) j \<longleftrightarrow> k = j \<and> j < 8"
  by (auto simp: bit_exp_iff)

lemma mask_frame [simp]:
  "mask_size (mask_set i b) = mask_size b" "mask_size (mask_reset i b) = mask_size b"
  "mask_size (mask_set_all b) = mask_size b" "mask_size (mask_new k n) = n"
  "mask_wf (mask_set i b) = mask_wf b" "mask_wf (mask_reset i b) = mask_wf b"
  "mask_wf (mask_set_all b) = mask_wf b" "mask_wf (mask_new k n)"
  by (auto simp: mask_set_def mask_reset_def mask_set_all_def mask_new_def mask_wf_def Let_def)

lemma mask_members_new [simp]: "mask_members (mask_new k n) = {}"
proof -
  have "i div 8 < (n + 7) div 8" if "i < n" for i using that by linarith
  moreover have "i div 8 < k" if "i < n" "n \<le> 8 * k" for i using that by linarith
  ultimately show ?thesis by (auto simp: mask_members_def mask_test_bit mask_new_def)
qed

lemma mask_members_set_all [simp]:
  assumes "mask_wf b" shows "mask_members (mask_set_all b) = {..<mask_size b}"
proof -
  have "bit (255 :: u8) (i mod 8)" for i :: nat
  proof -
    have "mask 8 = (255 :: u8)" by (simp add: mask_eq_exp_minus_1)
    moreover have "bit (mask 8 :: u8) (i mod 8)" by (simp only: bit_mask_iff) simp
    ultimately show ?thesis by (simp only:)
  qed
  then show ?thesis
    using mask_block [OF assms] by (auto simp: mask_members_def mask_test_bit) (simp add: mask_set_all_def)
qed

lemma mask_members_set [simp]:
  assumes "mask_wf b" "i < mask_size b" shows "mask_members (mask_set i b) = insert i (mask_members b)"
proof -
  note block = mask_block [OF assms]
  have "mask_test j (mask_set i b) \<longleftrightarrow> j = i \<or> mask_test j b" for j
    using block same_place [of i j]
    by (cases "i div 8 = j div 8")
       (auto simp: mask_test_bit mask_set_def Let_def bit_or_iff bit_u8_one)
  then show ?thesis using assms(2) by (auto simp: mask_members_def)
qed

lemma mask_members_reset [simp]:
  assumes "mask_wf b" "i < mask_size b" shows "mask_members (mask_reset i b) = mask_members b - {i}"
proof -
  note block = mask_block [OF assms]
  have "mask_test j (mask_reset i b) \<longleftrightarrow> j \<noteq> i \<and> mask_test j b" for j
    using block same_place [of i j]
    by (cases "i div 8 = j div 8")
       (auto simp: mask_test_bit mask_reset_def Let_def bit_and_iff bit_not_iff bit_u8_one)
  then show ?thesis by (auto simp: mask_members_def)
qed

lemma mask_test_members: "i < mask_size b \<Longrightarrow> mask_test i b \<longleftrightarrow> i \<in> mask_members b"
  by (simp add: mask_members_def)

end
