(* ===== verification/X64_Ir.thy ===== *)
theory X64_Ir
  imports X64_Flags X64_Registers X64_BitMask
begin

text \<open>
  The intermediate representation of the just-in-time compiler:
  \<^verbatim>\<open>emulator/include/x64/compiler/ir.h\<close> and
  \<^verbatim>\<open>emulator/src/x64/compiler/ir.cpp\<close>. A block is a list of instructions with at most
  one output and three input operands; labels and the positions of jumps are indices into the list.
  The queries at the end are what the optimizer knows of an instruction: which operands may name the
  same place, and which instructions can be swapped.
\<close>

section \<open>Operands\<close>

datatype fcond = F_EQ | F_LT | F_LE | F_UNORD | F_NEQ | F_NLT | F_NLE | F_ORD

datatype ir_operand =
    Void
  | ImmU8 u8 | ImmU16 u16 | ImmU32 u32 | ImmU64 u64
  | OpR8 r8 | OpR16 r16 | OpR32 r32 | OpR64 r64
  | OpM8 memory_operand | OpM16 memory_operand | OpM32 memory_operand | OpM64 memory_operand
  | OpMMX mmxreg | OpXMM xmmreg | OpM128 memory_operand
  | OpLabel u32

text \<open>\<^verbatim>\<open>as<T>\<close> for the alternatives the code asks for.\<close>

fun as_R64 :: "ir_operand \<Rightarrow> r64 option" where
  "as_R64 (OpR64 r) = Some r" | "as_R64 _ = None"
fun as_M64 :: "ir_operand \<Rightarrow> memory_operand option" where
  "as_M64 (OpM64 m) = Some m" | "as_M64 _ = None"
fun as_XMM :: "ir_operand \<Rightarrow> xmmreg option" where
  "as_XMM (OpXMM x) = Some x" | "as_XMM _ = None"
fun as_MMX :: "ir_operand \<Rightarrow> mmxreg option" where
  "as_MMX (OpMMX x) = Some x" | "as_MMX _ = None"
fun as_M128 :: "ir_operand \<Rightarrow> memory_operand option" where
  "as_M128 (OpM128 m) = Some m" | "as_M128 _ = None"

fun isRegister :: "ir_operand \<Rightarrow> bool" where
  "isRegister (OpR8 r) = True"
| "isRegister (OpR16 r) = True"
| "isRegister (OpR32 r) = True"
| "isRegister (OpR64 r) = True"
| "isRegister (OpMMX r) = True"
| "isRegister (OpXMM r) = True"
| "isRegister _ = False"

fun containingGpr :: "ir_operand \<Rightarrow> r64 option" where
  "containingGpr (OpR8 r) = Some (containingRegister8 r)"
| "containingGpr (OpR16 r) = Some (containingRegister16 r)"
| "containingGpr (OpR32 r) = Some (containingRegister32 r)"
| "containingGpr (OpR64 r) = Some r"
| "containingGpr _ = None"

text \<open>\<^verbatim>\<open>memory()\<close>, whose presence is \<^verbatim>\<open>isMemory()\<close>.\<close>

fun operand_memory :: "ir_operand \<Rightarrow> memory_operand option" where
  "operand_memory (OpM8 m) = Some m"
| "operand_memory (OpM16 m) = Some m"
| "operand_memory (OpM32 m) = Some m"
| "operand_memory (OpM64 m) = Some m"
| "operand_memory (OpM128 m) = Some m"
| "operand_memory _ = None"

definition isMemory :: "ir_operand \<Rightarrow> bool" where
  "isMemory x = (operand_memory x \<noteq> None)"

fun operand_readsFrom :: "ir_operand \<Rightarrow> r64 \<Rightarrow> bool" where
  "operand_readsFrom (OpR8 r) reg = (reg = containingRegister8 r)"
| "operand_readsFrom (OpR16 r) reg = (reg = containingRegister16 r)"
| "operand_readsFrom (OpR32 r) reg = (reg = containingRegister32 r)"
| "operand_readsFrom (OpR64 r) reg = (reg = r)"
| "operand_readsFrom (OpM8 m) reg = (reg = mem_base m \<or> reg = mem_index m)"
| "operand_readsFrom (OpM16 m) reg = (reg = mem_base m \<or> reg = mem_index m)"
| "operand_readsFrom (OpM32 m) reg = (reg = mem_base m \<or> reg = mem_index m)"
| "operand_readsFrom (OpM64 m) reg = (reg = mem_base m \<or> reg = mem_index m)"
| "operand_readsFrom (OpM128 m) reg = (reg = mem_base m \<or> reg = mem_index m)"
| "operand_readsFrom _ reg = False"

section \<open>Instructions\<close>

text \<open>An operation code is its position in the enumeration \<^verbatim>\<open>Op\<close>; the ones the
  optimizer or the examples mention have names.\<close>

type_synonym ir_op = nat

abbreviation (input) OP_MOV :: ir_op where "OP_MOV \<equiv> 0"
abbreviation (input) OP_MOVZX :: ir_op where "OP_MOVZX \<equiv> 1"
abbreviation (input) OP_ADD :: ir_op where "OP_ADD \<equiv> 3"
abbreviation (input) OP_ADC :: ir_op where "OP_ADC \<equiv> 4"
abbreviation (input) OP_SUB :: ir_op where "OP_SUB \<equiv> 5"
abbreviation (input) OP_SBB :: ir_op where "OP_SBB \<equiv> 6"
abbreviation (input) OP_CMP :: ir_op where "OP_CMP \<equiv> 7"
abbreviation (input) OP_SHL :: ir_op where "OP_SHL \<equiv> 8"
abbreviation (input) OP_SHR :: ir_op where "OP_SHR \<equiv> 9"
abbreviation (input) OP_SAR :: ir_op where "OP_SAR \<equiv> 10"
abbreviation (input) OP_ROL :: ir_op where "OP_ROL \<equiv> 11"
abbreviation (input) OP_ROR :: ir_op where "OP_ROR \<equiv> 12"
abbreviation (input) OP_IMUL :: ir_op where "OP_IMUL \<equiv> 14"
abbreviation (input) OP_TEST :: ir_op where "OP_TEST \<equiv> 17"
abbreviation (input) OP_AND :: ir_op where "OP_AND \<equiv> 18"
abbreviation (input) OP_OR :: ir_op where "OP_OR \<equiv> 19"
abbreviation (input) OP_XOR :: ir_op where "OP_XOR \<equiv> 20"
abbreviation (input) OP_NOT :: ir_op where "OP_NOT \<equiv> 21"
abbreviation (input) OP_NEG :: ir_op where "OP_NEG \<equiv> 22"
abbreviation (input) OP_INC :: ir_op where "OP_INC \<equiv> 23"
abbreviation (input) OP_DEC :: ir_op where "OP_DEC \<equiv> 24"
abbreviation (input) OP_CMPXCHG :: ir_op where "OP_CMPXCHG \<equiv> 26"
abbreviation (input) OP_LOCKCMPXCHG :: ir_op where "OP_LOCKCMPXCHG \<equiv> 27"
abbreviation (input) OP_LOCKXADD :: ir_op where "OP_LOCKXADD \<equiv> 28"
abbreviation (input) OP_PUSHF :: ir_op where "OP_PUSHF \<equiv> 36"
abbreviation (input) OP_POPF :: ir_op where "OP_POPF \<equiv> 37"
abbreviation (input) OP_BSF :: ir_op where "OP_BSF \<equiv> 38"
abbreviation (input) OP_BSR :: ir_op where "OP_BSR \<equiv> 39"
abbreviation (input) OP_TZCNT :: ir_op where "OP_TZCNT \<equiv> 40"
abbreviation (input) OP_BT :: ir_op where "OP_BT \<equiv> 44"
abbreviation (input) OP_BTR :: ir_op where "OP_BTR \<equiv> 45"
abbreviation (input) OP_BTS :: ir_op where "OP_BTS \<equiv> 46"
abbreviation (input) OP_JCC :: ir_op where "OP_JCC \<equiv> 54"
abbreviation (input) OP_JMP :: ir_op where "OP_JMP \<equiv> 55"
definition OP_JMP_IND :: ir_op where "OP_JMP_IND = 56"
abbreviation (input) OP_CALL :: ir_op where "OP_CALL \<equiv> 57"
abbreviation (input) OP_RET :: ir_op where "OP_RET \<equiv> 58"
abbreviation (input) OP_MOVA :: ir_op where "OP_MOVA \<equiv> 61"
abbreviation (input) OP_COMISS :: ir_op where "OP_COMISS \<equiv> 142"
abbreviation (input) OP_COMISD :: ir_op where "OP_COMISD \<equiv> 150"
abbreviation (input) OP_UCOMISD :: ir_op where "OP_UCOMISD \<equiv> 151"

record ir_instruction =
  op :: ir_op
  out :: ir_operand
  in1 :: ir_operand
  in2 :: ir_operand
  in3 :: ir_operand
  condition :: "cond option"
  fcondition :: "fcond option"
  impactedRegisters64 :: bitmask

text \<open>The constructors, whose missing operands are \<open>Void\<close>, and the impacted registers, added one by one.\<close>

definition new_instruction ::
  "ir_op \<Rightarrow> ir_operand \<Rightarrow> ir_operand \<Rightarrow> ir_operand \<Rightarrow> ir_operand \<Rightarrow> ir_instruction" where
  "new_instruction p o0 i1 i2 i3 =
     \<lparr>op = p, out = o0, in1 = i1, in2 = i2, in3 = i3, condition = None, fcondition = None,
      impactedRegisters64 = mask_new 4 32\<rparr>"

definition addImpactedRegister :: "r64 \<Rightarrow> ir_instruction \<Rightarrow> ir_instruction" where
  "addImpactedRegister r i = i\<lparr>impactedRegisters64 := mask_set (r64_index r) (impactedRegisters64 i)\<rparr>"

definition all_r64 :: "r64 list" where
  "all_r64 = [RAX, RCX, RDX, RBX, RSP, RBP, RSI, RDI, R8, R9, R10, R11, R12, R13, R14, R15, RIP, ZERO]"

definition forEachImpactedRegister :: "(r64 \<Rightarrow> 'a \<Rightarrow> 'a) \<Rightarrow> ir_instruction \<Rightarrow> 'a \<Rightarrow> 'a" where
  "forEachImpactedRegister f i a =
     fold (\<lambda>r acc. if mask_test (r64_index r) (impactedRegisters64 i) then f r acc else acc) all_r64 a"

definition canModifyFlags :: "ir_instruction \<Rightarrow> bool" where
  "canModifyFlags i = (op i \<in> set [OP_ADD, OP_ADC, OP_SUB, OP_SBB, OP_SHL, OP_SHR, OP_SAR, OP_ROL,
     OP_ROR, OP_TEST, OP_AND, OP_OR, OP_XOR, OP_NOT, OP_NEG, OP_INC, OP_DEC, OP_CMPXCHG,
     OP_LOCKCMPXCHG, OP_LOCKXADD, OP_PUSHF, OP_POPF, OP_BSF, OP_BSR, OP_TZCNT, OP_BT, OP_BTR, OP_BTS,
     OP_COMISS, OP_COMISD, OP_UCOMISD])"

definition readsFrom :: "ir_instruction \<Rightarrow> r64 \<Rightarrow> bool" where
  "readsFrom i reg =
     (if operand_readsFrom (in1 i) reg then True
      else if operand_readsFrom (in2 i) reg then True
      else if mask_test (r64_index reg) (impactedRegisters64 i) then True
      else False)"

section \<open>Aliasing\<close>

text \<open>
  \<^verbatim>\<open>x % 4 != 0\<close> of a negative displacement is negative or zero in C++, and zero exactly when 4
  divides it. \<open>same_size\<close> is the comparison of the two template parameters.
\<close>

definition addressesMayAlias :: "bool \<Rightarrow> memory_operand \<Rightarrow> memory_operand \<Rightarrow> bool" where
  "addressesMayAlias same_size mem1 mem2 =
     (if mem_segment mem1 = SEG_FS \<or> mem_segment mem2 = SEG_FS then True
      else if mem_base mem1 \<noteq> mem_base mem2 then False
      else if \<not> same_size then True
      else if mem_index mem1 \<noteq> ZERO \<or> mem_index mem2 \<noteq> ZERO then True
      else if sint (mem_disp mem1) mod 4 \<noteq> 0 \<or> sint (mem_disp mem2) mod 4 \<noteq> 0 then True
      else if mem_disp mem1 \<noteq> mem_disp mem2 then False
      else True)"

text \<open>
  \<^verbatim>\<open>mayAlias\<close> of an operand with each alternative of another. A 128-bit destination is
  compared with 8 to 64-bit memory only, never with another 128-bit one.
\<close>

definition mayAlias_gpr :: "ir_operand \<Rightarrow> r64 \<Rightarrow> bool" where
  "mayAlias_gpr x reg = (case containingGpr x of Some r \<Rightarrow> r = reg | None \<Rightarrow> False)"

definition mayAlias_memory :: "ir_operand \<Rightarrow> nat \<Rightarrow> memory_operand \<Rightarrow> bool" where
  "mayAlias_memory x sz m =
     (case x of
        OpM8 m8 \<Rightarrow> addressesMayAlias (sz = 1) m8 m
      | OpM16 m16 \<Rightarrow> addressesMayAlias (sz = 2) m16 m
      | OpM32 m32 \<Rightarrow> addressesMayAlias (sz = 4) m32 m
      | OpM64 m64 \<Rightarrow> addressesMayAlias (sz = 8) m64 m
      | _ \<Rightarrow> False)"

fun mayAlias :: "ir_operand \<Rightarrow> ir_operand \<Rightarrow> bool" where
  "mayAlias x (OpR8 r) = mayAlias_gpr x (containingRegister8 r)"
| "mayAlias x (OpR16 r) = mayAlias_gpr x (containingRegister16 r)"
| "mayAlias x (OpR32 r) = mayAlias_gpr x (containingRegister32 r)"
| "mayAlias x (OpR64 r) = mayAlias_gpr x r"
| "mayAlias x (OpMMX r) = (as_MMX x = Some r)"
| "mayAlias x (OpXMM r) = (as_XMM x = Some r)"
| "mayAlias x (OpM8 m) = mayAlias_memory x 1 m"
| "mayAlias x (OpM16 m) = mayAlias_memory x 2 m"
| "mayAlias x (OpM32 m) = mayAlias_memory x 4 m"
| "mayAlias x (OpM64 m) = mayAlias_memory x 8 m"
| "mayAlias x (OpM128 m) = mayAlias_memory x 16 m"
| "mayAlias x (OpLabel l) = True"
| "mayAlias x _ = False"

definition writesTo :: "ir_instruction \<Rightarrow> ir_operand \<Rightarrow> bool" where
  "writesTo i x =
     (if mayAlias (out i) x then True
      else case containingGpr x of
             Some reg \<Rightarrow> mask_test (r64_index reg) (impactedRegisters64 i)
           | None \<Rightarrow> False)"

definition writesTo_gpr :: "ir_instruction \<Rightarrow> r64 \<Rightarrow> bool" where
  "writesTo_gpr i reg =
     (mayAlias_gpr (out i) reg \<or> mask_test (r64_index reg) (impactedRegisters64 i))"

definition writesTo_mmx :: "ir_instruction \<Rightarrow> mmxreg \<Rightarrow> bool" where
  "writesTo_mmx i r = mayAlias (out i) (OpMMX r)"

definition writesTo_xmm :: "ir_instruction \<Rightarrow> xmmreg \<Rightarrow> bool" where
  "writesTo_xmm i r = mayAlias (out i) (OpXMM r)"

definition mayWriteTo :: "ir_instruction \<Rightarrow> memory_operand \<Rightarrow> bool" where
  "mayWriteTo i m =
     (if op i \<noteq> OP_MOV then True
      else if mem_segment m = SEG_FS then True
      else case operand_memory (out i) of
             None \<Rightarrow> False
           | Some dst \<Rightarrow>
               if mem_segment dst = SEG_FS then True
               else if mem_base dst \<noteq> mem_base m then False
               else if mem_index dst \<noteq> ZERO \<or> mem_index m \<noteq> ZERO then True
               else if sint (mem_disp dst) mod 4 \<noteq> 0 \<or> sint (mem_disp m) mod 4 \<noteq> 0 then True
               else if mem_disp dst \<noteq> mem_disp m then False
               else True)"

section \<open>Commuting instructions\<close>

definition canMovsCommute :: "ir_instruction \<Rightarrow> ir_instruction \<Rightarrow> bool" where
  "canMovsCommute a b =
     (if op a \<noteq> OP_MOV then False
      else if op b \<noteq> OP_MOV then False
      else
        let dstAReg = as_R64 (out a); dstAMem = as_M64 (out a); srcAReg = as_R64 (in1 a); srcAMem = as_M64 (in1 a);
            dstBReg = as_R64 (out b); dstBMem = as_M64 (out b); srcBReg = as_R64 (in1 b); srcBMem = as_M64 (in1 b)
        in if dstAReg = None \<and> dstAMem = None then False
           else if srcAReg = None \<and> srcAMem = None then False
           else if dstBReg = None \<and> dstBMem = None then False
           else if srcBReg = None \<and> srcBMem = None then False
           else if dstAReg \<noteq> None \<and> srcAReg \<noteq> None then False
           else if dstBReg \<noteq> None \<and> srcBReg \<noteq> None then False
           else
             let regA = (if dstAReg \<noteq> None then the dstAReg else the srcAReg);
                 regB = (if dstBReg \<noteq> None then the dstBReg else the srcBReg);
                 memA = (if dstAMem \<noteq> None then the dstAMem else the srcAMem);
                 memB = (if dstBMem \<noteq> None then the dstBMem else the srcBMem)
             in if mem_segment memA = SEG_FS then False
                else if mem_segment memB = SEG_FS then False
                else if regA = regB then False
                else if memA = memB then False
                else if mem_base memA = regB \<or> mem_index memA = regB then False
                else if mem_base memB = regA \<or> mem_index memB = regA then False
                else if mem_index memA \<noteq> ZERO \<and> mem_scale memA < 8 then False
                else if sint (mem_disp memA) mod 8 \<noteq> 0 then False
                else if mem_index memB \<noteq> ZERO \<and> mem_scale memB < 8 then False
                else if sint (mem_disp memB) mod 8 \<noteq> 0 then False
                else if mem_base memA = mem_base memB \<and> (mem_index memA \<noteq> ZERO \<or> mem_index memB \<noteq> ZERO)
                  then False
                else True)"

definition canMovasCommute :: "ir_instruction \<Rightarrow> ir_instruction \<Rightarrow> bool" where
  "canMovasCommute a b =
     (if op a \<noteq> OP_MOVA then False
      else if op b \<noteq> OP_MOVA then False
      else
        let dstAReg = as_XMM (out a); dstAMem = as_M128 (out a); srcAReg = as_XMM (in1 a); srcAMem = as_M128 (in1 a);
            dstBReg = as_XMM (out b); dstBMem = as_M128 (out b); srcBReg = as_XMM (in1 b); srcBMem = as_M128 (in1 b)
        in if dstAReg = None \<and> dstAMem = None then False
           else if srcAReg = None \<and> srcAMem = None then False
           else if dstBReg = None \<and> dstBMem = None then False
           else if srcBReg = None \<and> srcBMem = None then False
           else if dstAReg \<noteq> None \<and> srcAReg \<noteq> None then False
           else if dstBReg \<noteq> None \<and> srcBReg \<noteq> None then False
           else
             let regA = (if dstAReg \<noteq> None then the dstAReg else the srcAReg);
                 regB = (if dstBReg \<noteq> None then the dstBReg else the srcBReg);
                 memA = (if dstAMem \<noteq> None then the dstAMem else the srcAMem);
                 memB = (if dstBMem \<noteq> None then the dstBMem else the srcBMem)
             in if regA = regB then False
                else if memA = memB then False
                else if mem_segment memA = SEG_FS then False
                else if mem_segment memB = SEG_FS then False
                else if mem_index memA \<noteq> ZERO then False
                else if sint (mem_disp memA) mod 16 \<noteq> 0 then False
                else if mem_index memB \<noteq> ZERO then False
                else if sint (mem_disp memB) mod 16 \<noteq> 0 then False
                else if mem_base memA = mem_base memB \<and> (mem_index memA \<noteq> ZERO \<or> mem_index memB \<noteq> ZERO)
                  then False
                else True)"

definition impacts :: "ir_operand \<Rightarrow> ir_operand \<Rightarrow> bool" where
  "impacts x other =
     (if x = Void then False
      else if other = Void then False
      else case as_M128 x of
             Some mem128 \<Rightarrow> (if as_XMM other \<noteq> None then False else True)
           | None \<Rightarrow>
               (case as_XMM x of
                  Some x128 \<Rightarrow> (case as_XMM other of Some o128 \<Rightarrow> x128 = o128 | None \<Rightarrow> False)
                | None \<Rightarrow> True))"

definition canCommute :: "ir_instruction \<Rightarrow> ir_instruction \<Rightarrow> bool" where
  "canCommute a b =
     (if canMovsCommute a b then True
      else if canMovasCommute a b then True
      else if canModifyFlags a \<and> canModifyFlags b then False
      else if impacts (out a) (in1 b) then False
      else if impacts (out a) (in2 b) then False
      else if impacts (out a) (in3 b) then False
      else if impacts (out b) (in1 a) then False
      else if impacts (out b) (in2 a) then False
      else if impacts (out b) (in3 a) then False
      else True)"

section \<open>Blocks\<close>

record ir_block =
  instructions :: "ir_instruction list"
  labels :: "nat list"
  jumpLanding :: "nat option"
  jumpToNext :: "nat option"
  jumpToOther :: "nat option"
  pushCallstack :: "(nat \<times> u64) option"
  popCallstack :: "nat option"

text \<open>\<^verbatim>\<open>IR::add\<close>: each optional position of the other block needs a free place.\<close>

definition merge_position :: "nat option \<Rightarrow> nat \<Rightarrow> nat option \<Rightarrow> nat option result" where
  "merge_position mine n other =
     (case other of None \<Rightarrow> Inr mine
      | Some p \<Rightarrow> rbind (verify (mine = None)) (\<lambda>_. Inr (Some (n + p))))"

definition ir_add :: "ir_block \<Rightarrow> ir_block \<Rightarrow> ir_block result" where
  "ir_add ir other =
     (let n = length (instructions ir)
      in rbind (merge_position (jumpLanding ir) n (jumpLanding other)) (\<lambda>landing.
         rbind (merge_position (jumpToNext ir) n (jumpToNext other)) (\<lambda>next'.
         rbind (merge_position (jumpToOther ir) n (jumpToOther other)) (\<lambda>other'.
         rbind (case pushCallstack other of None \<Rightarrow> Inr (pushCallstack ir)
                | Some (p, r) \<Rightarrow> rbind (verify (pushCallstack ir = None)) (\<lambda>_. Inr (Some (n + p, r)))) (\<lambda>push.
         rbind (merge_position (popCallstack ir) n (popCallstack other)) (\<lambda>pop'.
         Inr \<lparr>instructions = instructions ir @ instructions other,
              labels = labels ir @ map (\<lambda>l. n + l) (labels other),
              jumpLanding = landing, jumpToNext = next', jumpToOther = other',
              pushCallstack = push, popCallstack = pop'\<rparr>))))))"

text \<open>
  \<^verbatim>\<open>removeInstructions\<close> erases the positions from the last to the first and moves down every
  position behind an erased one.
\<close>

definition moved_down :: "nat \<Rightarrow> nat \<Rightarrow> nat" where
  "moved_down position p = (if p > position then p - 1 else p)"

definition erase_at :: "nat \<Rightarrow> 'a list \<Rightarrow> 'a list" where
  "erase_at position xs = take position xs @ drop (Suc position) xs"

definition removeInstruction :: "nat \<Rightarrow> ir_block \<Rightarrow> ir_block" where
  "removeInstruction position ir =
     ir\<lparr>labels := map (moved_down position) (labels ir),
        jumpLanding := map_option (moved_down position) (jumpLanding ir),
        jumpToNext := map_option (moved_down position) (jumpToNext ir),
        jumpToOther := map_option (moved_down position) (jumpToOther ir),
        pushCallstack := map_option (\<lambda>(p, r). (moved_down position p, r)) (pushCallstack ir),
        popCallstack := map_option (moved_down position) (popCallstack ir),
        instructions := erase_at position (instructions ir)\<rparr>"

definition removeInstructions :: "nat list \<Rightarrow> ir_block \<Rightarrow> ir_block" where
  "removeInstructions positions ir = fold removeInstruction (rev (sort positions)) ir"

section \<open>What removal does\<close>

lemma fold_maps: "fold (\<lambda>p. map (f p)) ps xs = map (fold f ps) xs"
  by (induction ps arbitrary: xs) (simp_all add: comp_def)

lemma fold_map_options: "fold (\<lambda>p. map_option (f p)) ps x = map_option (fold f ps) x"
  by (induction ps arbitrary: x) (simp_all add: option.map_comp comp_def option.map_id)

lemma removeInstructions_fields:
  defines "down \<equiv> \<lambda>ps. fold moved_down (rev (sort ps))"
  shows "instructions (removeInstructions ps ir) = fold erase_at (rev (sort ps)) (instructions ir)"
    and "labels (removeInstructions ps ir) = map (down ps) (labels ir)"
    and "jumpLanding (removeInstructions ps ir) = map_option (down ps) (jumpLanding ir)"
    and "jumpToNext (removeInstructions ps ir) = map_option (down ps) (jumpToNext ir)"
    and "jumpToOther (removeInstructions ps ir) = map_option (down ps) (jumpToOther ir)"
    and "pushCallstack (removeInstructions ps ir) = map_option (map_prod (down ps) id) (pushCallstack ir)"
    and "popCallstack (removeInstructions ps ir) = map_option (down ps) (popCallstack ir)"
proof -
  have push: "fold (\<lambda>p (q, r). (moved_down p q, r)) qs = map_prod (fold moved_down qs) id"
    for qs :: "nat list"
    by (induction qs) (auto simp: fun_eq_iff)
  have "instructions (fold removeInstruction qs ir) = fold erase_at qs (instructions ir)"
    "labels (fold removeInstruction qs ir) = fold (\<lambda>p. map (moved_down p)) qs (labels ir)"
    "jumpLanding (fold removeInstruction qs ir) = fold (\<lambda>p. map_option (moved_down p)) qs (jumpLanding ir)"
    "jumpToNext (fold removeInstruction qs ir) = fold (\<lambda>p. map_option (moved_down p)) qs (jumpToNext ir)"
    "jumpToOther (fold removeInstruction qs ir) = fold (\<lambda>p. map_option (moved_down p)) qs (jumpToOther ir)"
    "pushCallstack (fold removeInstruction qs ir)
       = fold (\<lambda>p. map_option (\<lambda>(q, r). (moved_down p q, r))) qs (pushCallstack ir)"
    "popCallstack (fold removeInstruction qs ir) = fold (\<lambda>p. map_option (moved_down p)) qs (popCallstack ir)" for qs
    by (induction qs arbitrary: ir) (simp_all add: removeInstruction_def)
  then show "instructions (removeInstructions ps ir) = fold erase_at (rev (sort ps)) (instructions ir)"
    "labels (removeInstructions ps ir) = map (down ps) (labels ir)"
    "jumpLanding (removeInstructions ps ir) = map_option (down ps) (jumpLanding ir)"
    "jumpToNext (removeInstructions ps ir) = map_option (down ps) (jumpToNext ir)"
    "jumpToOther (removeInstructions ps ir) = map_option (down ps) (jumpToOther ir)"
    "pushCallstack (removeInstructions ps ir) = map_option (map_prod (down ps) id) (pushCallstack ir)"
    "popCallstack (removeInstructions ps ir) = map_option (down ps) (popCallstack ir)"
    by (simp_all add: removeInstructions_def down_def fold_maps fold_map_options push)
qed

lemma nths_eqI:
  assumes "\<And>i. i < length xs \<Longrightarrow> i \<in> A \<longleftrightarrow> i \<in> B"
  shows "nths xs A = nths xs B"
  unfolding nths_def using assms
  by (intro arg_cong [where f = "map fst"] filter_cong) (auto simp: set_zip)

lemma nths_after:
  assumes "\<forall>q\<in>S. q < p" "p \<le> length xs"
  shows "nths (take p xs @ ys) (- S) = nths (take p xs) (- S) @ ys"
proof -
  have "{j. j + p \<in> - S} = UNIV" using assms(1) by fastforce
  then show ?thesis using assms(2) by (simp add: nths_append min_absorb2 nths_all)
qed

lemma erase_one:
  assumes "\<forall>q\<in>S. q < p" "p < length xs"
  shows "nths (erase_at p xs) (- S) = nths xs (- insert p S)"
proof -
  have "xs = take p xs @ xs ! p # drop (Suc p) xs" using assms(2) by (rule id_take_nth_drop)
  then have "nths xs (- insert p S) = nths (take p xs @ xs ! p # drop (Suc p) xs) (- insert p S)" by simp
  also have "\<dots> = nths (take p xs) (- insert p S) @ nths (xs ! p # drop (Suc p) xs) {j. j + p \<in> - insert p S}"
    using assms(2) by (simp add: nths_append)
  also have "nths (xs ! p # drop (Suc p) xs) {j. j + p \<in> - insert p S} = drop (Suc p) xs"
  proof -
    have "{j. Suc j \<in> {j. j + p \<in> - insert p S}} = UNIV" using assms(1) by fastforce
    then show ?thesis by (simp add: nths_Cons nths_all)
  qed
  also have "nths (take p xs) (- insert p S) = nths (take p xs) (- S)"
    using assms(2) by (intro nths_eqI) auto
  finally show ?thesis
    using nths_after [OF assms(1), of xs "drop (Suc p) xs"] assms(2) by (simp add: erase_at_def)
qed

lemma erase_descending:
  assumes "sorted_wrt (>) ps" "\<forall>p\<in>set ps. p < length xs"
  shows "fold erase_at ps xs = nths xs (- set ps)"
  using assms
proof (induction ps arbitrary: xs)
  case Nil
  then show ?case by (simp add: nths_all)
next
  case (Cons p ps)
  have p: "p < length xs" "\<forall>q\<in>set ps. q < p" using Cons.prems by auto
  then have "\<forall>q\<in>set ps. q < length (erase_at p xs)" by (force simp: erase_at_def)
  then have "fold erase_at ps (erase_at p xs) = nths (erase_at p xs) (- set ps)"
    using Cons.prems(1) by (intro Cons.IH) auto
  also have "\<dots> = nths xs (- insert p (set ps))" by (rule erase_one [OF p(2,1)])
  finally show ?case by simp
qed

lemma moved_down_descending:
  assumes "sorted_wrt (>) ps"
  shows "fold moved_down ps l = l - card {p \<in> set ps. p < l}"
  using assms
proof (induction ps arbitrary: l)
  case (Cons p ps)
  have ps: "\<forall>q\<in>set ps. q < p" using Cons.prems by auto
  have IH: "fold moved_down ps l' = l' - card {q \<in> set ps. q < l'}" for l'
    using Cons.IH Cons.prems by auto
  show ?case
  proof (cases "p < l")
    case True
    then have "{q \<in> set ps. q < l - 1} = set ps" "{q \<in> set (p # ps). q < l} = insert p (set ps)"
      using ps by force+
    moreover have "p \<notin> set ps" using ps by blast
    moreover have "fold moved_down (p # ps) l = fold moved_down ps (l - 1)"
      using True by (simp add: moved_down_def [of p l])
    ultimately show ?thesis using IH [of "l - 1"] by simp
  next
    case False
    then have "{q \<in> set (p # ps). q < l} = {q \<in> set ps. q < l}" by auto
    moreover have "fold moved_down (p # ps) l = fold moved_down ps l"
      using False by (simp add: moved_down_def [of p l])
    ultimately show ?thesis using IH [of l] by simp
  qed
qed simp

lemma sorted_descending:
  assumes "distinct ps" shows "sorted_wrt (>) (rev (sort ps))"
  using strict_sorted_iff [of "sort ps"] assms by (simp add: sorted_wrt_rev)

lemma instructions_removed:
  assumes "distinct ps" "\<forall>p\<in>set ps. p < length (instructions ir)"
  shows "instructions (removeInstructions ps ir) = nths (instructions ir) (- set ps)"
  using erase_descending [OF sorted_descending [OF assms(1)], of "instructions ir"] assms(2)
  by (simp add: removeInstructions_fields)

lemma take_nths:
  assumes "l \<le> length xs"
  shows "take (l - card {p \<in> S. p < l}) (nths xs (- S)) = nths (take l xs) (- S)"
proof -
  have "length (nths (take l xs) (- S)) = card ({..<l} - {p \<in> S. p < l})"
    using assms by (simp add: length_nths) (rule arg_cong [where f = card], auto)
  also have "\<dots> = l - card {p \<in> S. p < l}" by (subst card_Diff_subset) auto
  finally have len: "length (nths (take l xs) (- S)) = l - card {p \<in> S. p < l}" .
  have "nths xs (- S) = nths (take l xs @ drop l xs) (- S)" by simp
  also have "\<dots> = nths (take l xs) (- S) @ nths (drop l xs) {j. j + length (take l xs) \<in> - S}"
    by (rule nths_append)
  finally show ?thesis by (simp add: len)
qed

definition follows :: "nat set \<Rightarrow> ir_instruction list \<Rightarrow> ir_instruction list \<Rightarrow> nat \<Rightarrow> nat \<Rightarrow> bool" where
  "follows S before after p p' = (p \<le> length before \<longrightarrow> take p' after = nths (take p before) (- S))"

text \<open>
  C38. Removing a set of positions keeps every other instruction in order, and every label and
  recorded position of the block (the landing of a jump, the jumps out, the call stack entries)
  still points behind the same kept instructions it pointed behind before.
\<close>

theorem removeInstructions_keeps_positions:
  fixes ir ps
  defines "ir' \<equiv> removeInstructions ps ir"
  defines "same \<equiv> follows (set ps) (instructions ir) (instructions ir')"
  assumes "distinct ps" "\<forall>p\<in>set ps. p < length (instructions ir)"
  shows "instructions ir' = nths (instructions ir) (- set ps)
    \<and> list_all2 same (labels ir) (labels ir')
    \<and> rel_option same (jumpLanding ir) (jumpLanding ir')
    \<and> rel_option same (jumpToNext ir) (jumpToNext ir')
    \<and> rel_option same (jumpToOther ir) (jumpToOther ir')
    \<and> rel_option (rel_prod same (=)) (pushCallstack ir) (pushCallstack ir')
    \<and> rel_option same (popCallstack ir) (popCallstack ir')"
proof -
  have ins: "instructions ir' = nths (instructions ir) (- set ps)"
    unfolding ir'_def by (rule instructions_removed [OF assms(3,4)])
  have down: "same p (fold moved_down (rev (sort ps)) p)" for p
    unfolding same_def follows_def ins moved_down_descending [OF sorted_descending [OF assms(3)]]
    using take_nths [of p "instructions ir" "set ps"] by simp
  have opt: "rel_option R x (map_option f x)" if "\<And>y. R y (f y)" for R f and x :: "'x option"
    using that by (cases x) simp_all
  show ?thesis
    unfolding ins [symmetric] ir'_def removeInstructions_fields
    by (intro conjI refl opt) (simp_all add: down list_all2_conv_all_nth rel_prod_conv split_beta)
qed

theorem removeInstructions_keeps_positions_witness:
  "let i = new_instruction OP_MOV (OpR64 RAX) (OpR64 RCX) Void Void;
       j = new_instruction OP_MOV (OpR64 RDX) (OpR64 RCX) Void Void;
       ir = \<lparr>instructions = [i, j, i, j], labels = [3], jumpLanding = None, jumpToNext = Some 4,
             jumpToOther = None, pushCallstack = None, popCallstack = Some 1\<rparr>;
       ir' = removeInstructions [2, 0] ir
   in instructions ir' = [j, j] \<and> labels ir' = [1] \<and> jumpToNext ir' = Some 2 \<and> popCallstack ir' = Some 0
      \<and> instructions ir' = nths (instructions ir) (- {0, 2})"
proof -
  let ?i = "new_instruction OP_MOV (OpR64 RAX) (OpR64 RCX) Void Void"
  let ?j = "new_instruction OP_MOV (OpR64 RDX) (OpR64 RCX) Void Void"
  let ?ir = "\<lparr>instructions = [?i, ?j, ?i, ?j], labels = [3], jumpLanding = None, jumpToNext = Some 4,
             jumpToOther = None, pushCallstack = None, popCallstack = Some 1\<rparr>"
  have "instructions (removeInstructions [2, 0] ?ir) = nths (instructions ?ir) (- set [2, 0])"
    using removeInstructions_keeps_positions [of "[2, 0]" ?ir] by simp
  then show ?thesis
    by (simp add: Let_def insert_commute removeInstructions_def removeInstruction_def erase_at_def moved_down_def)
qed

end
