(* ===== verification/X64_Optimizer.thy ===== *)
theory X64_Optimizer
  imports X64_Ir "HOL-Library.Sublist"
begin

text \<open>
  The optimizer of the just-in-time compiler:
  \<^verbatim>\<open>emulator/src/x64/compiler/optimizer.cpp\<close>. Four passes each choose positions to
  remove from a block, and the driver repeats all of them until none removes anything. The liveness
  analysis walks the block backwards with one set of registers and memory operands per position.

  A loop over instructions is a recursion over the remaining instructions that also carries the
  index of the first of them. The displacements that \<^verbatim>\<open>computeLiveRegistersAndAddresses\<close>
  compares are added as integers; the source adds them as \<^verbatim>\<open>i32\<close>.
\<close>

section \<open>Statistics\<close>

record optimizer_stats =
  removedInstructions :: u32
  deadCode :: u32
  immediateReadback :: u32
  delayedReadback :: u32
  duplicateInstruction :: u32

definition no_stats :: optimizer_stats where
  "no_stats = \<lparr>removedInstructions = 0, deadCode = 0, immediateReadback = 0, delayedReadback = 0,
     duplicateInstruction = 0\<rparr>"

type_synonym optimization_pass = "ir_block \<Rightarrow> optimizer_stats \<Rightarrow> bool \<times> ir_block \<times> optimizer_stats"

text \<open>The end of every pass: nothing to remove, or the removal and its count.\<close>

definition remove_and_count ::
  "nat list \<Rightarrow> (nat \<Rightarrow> optimizer_stats \<Rightarrow> optimizer_stats) \<Rightarrow> optimization_pass" where
  "remove_and_count removable count ir stats =
     (if removable = [] then (False, ir, stats)
      else (True, removeInstructions removable ir, count (length removable) stats))"

section \<open>Liveness\<close>

record liveness =
  live_gprs :: bitmask
  live_mmxs :: bitmask
  live_xmms :: bitmask
  live_addresses64 :: bitmask
  live_addresses128 :: bitmask

text \<open>The addresses the block writes to, in order and with repetitions.\<close>

definition allAddresses64 :: "ir_instruction list \<Rightarrow> memory_operand list" where
  "allAddresses64 p = List.map_filter (\<lambda>ins. as_M64 (out ins)) p"

definition allAddresses128 :: "ir_instruction list \<Rightarrow> memory_operand list" where
  "allAddresses128 p = List.map_filter (\<lambda>ins. as_M128 (out ins)) p"

fun position_of :: "'a \<Rightarrow> 'a list \<Rightarrow> nat option" where
  "position_of x [] = None"
| "position_of x (y # ys) = (if x = y then Some 0 else map_option Suc (position_of x ys))"

definition set_gpr :: "r64 \<Rightarrow> liveness \<Rightarrow> liveness" where
  "set_gpr r L = L\<lparr>live_gprs := mask_set (r64_index r) (live_gprs L)\<rparr>"

definition reset_gpr :: "r64 \<Rightarrow> liveness \<Rightarrow> liveness" where
  "reset_gpr r L = L\<lparr>live_gprs := mask_reset (r64_index r) (live_gprs L)\<rparr>"

text \<open>\<open>A\<close> and \<open>B\<close> are the lists of 64-bit and 128-bit addresses of the block.\<close>

definition set_positions :: "('a \<Rightarrow> bool) \<Rightarrow> 'a list \<Rightarrow> bitmask \<Rightarrow> bitmask" where
  "set_positions P xs b = fold (\<lambda>(k, x) b. if P x then mask_set k b else b) (enumerate 0 xs) b"

definition markAllAddressesInvolvingRegisterAsAlive ::
  "memory_operand list \<Rightarrow> memory_operand list \<Rightarrow> r64 \<Rightarrow> liveness \<Rightarrow> liveness" where
  "markAllAddressesInvolvingRegisterAsAlive A B reg L =
     L\<lparr>live_addresses64 := set_positions (\<lambda>m. mem_base m = reg \<or> mem_index m = reg) A (live_addresses64 L),
       live_addresses128 := set_positions (\<lambda>m. mem_base m = reg \<or> mem_index m = reg) B (live_addresses128 L)\<rparr>"

definition clashes :: "int \<Rightarrow> int \<Rightarrow> encoding64 \<Rightarrow> memory_operand \<Rightarrow> bool" where
  "clashes address_size sz enc m =
     (if mem_base m \<noteq> base64 enc then False
      else if mem_index m \<noteq> ZERO \<or> index64 enc \<noteq> ZERO then True
      else let al = sint (mem_disp m); au = sint (mem_disp m) + address_size;
               el = sint (displacement64 enc); eu = sint (displacement64 enc) + sz
           in max al el < min au eu)"

definition markAllAddressesClashingWithEncodingAsAlive ::
  "memory_operand list \<Rightarrow> memory_operand list \<Rightarrow> int \<Rightarrow> encoding64 \<Rightarrow> liveness \<Rightarrow> liveness" where
  "markAllAddressesClashingWithEncodingAsAlive A B sz enc L =
     L\<lparr>live_addresses64 := set_positions (clashes 8 sz enc) A (live_addresses64 L),
       live_addresses128 := set_positions (clashes 16 sz enc) B (live_addresses128 L)\<rparr>"

definition write_gpr ::
  "memory_operand list \<Rightarrow> memory_operand list \<Rightarrow> r64 \<Rightarrow> liveness \<Rightarrow> liveness" where
  "write_gpr A B r L = markAllAddressesInvolvingRegisterAsAlive A B r (reset_gpr r L)"

definition set_encoding :: "memory_operand \<Rightarrow> liveness \<Rightarrow> liveness" where
  "set_encoding m L = set_gpr (mem_index m) (set_gpr (mem_base m) L)"

fun visit_out :: "memory_operand list \<Rightarrow> memory_operand list \<Rightarrow> ir_operand \<Rightarrow> liveness \<Rightarrow> liveness" where
  "visit_out A B (OpR8 r) L = write_gpr A B (containingRegister8 r) L"
| "visit_out A B (OpR16 r) L = write_gpr A B (containingRegister16 r) L"
| "visit_out A B (OpR32 r) L = write_gpr A B (containingRegister32 r) L"
| "visit_out A B (OpR64 r) L = write_gpr A B r L"
| "visit_out A B (OpMMX r) L = L\<lparr>live_mmxs := mask_reset (mmxreg_index r) (live_mmxs L)\<rparr>"
| "visit_out A B (OpXMM r) L = L\<lparr>live_xmms := mask_reset (xmmreg_index r) (live_xmms L)\<rparr>"
| "visit_out A B (OpM8 m) L = set_encoding m L"
| "visit_out A B (OpM16 m) L = set_encoding m L"
| "visit_out A B (OpM32 m) L = set_encoding m L"
| "visit_out A B (OpM64 m) L =
     set_encoding m (case position_of m A of
       None \<Rightarrow> L | Some k \<Rightarrow> L\<lparr>live_addresses64 := mask_reset k (live_addresses64 L)\<rparr>)"
| "visit_out A B (OpM128 m) L =
     set_encoding m (case position_of m B of
       None \<Rightarrow> L | Some k \<Rightarrow> L\<lparr>live_addresses128 := mask_reset k (live_addresses128 L)\<rparr>)"
| "visit_out A B _ L = L"

definition read_gpr ::
  "memory_operand list \<Rightarrow> memory_operand list \<Rightarrow> r64 \<Rightarrow> liveness \<Rightarrow> liveness" where
  "read_gpr A B r L = markAllAddressesInvolvingRegisterAsAlive A B r (set_gpr r L)"

definition read_memory ::
  "memory_operand list \<Rightarrow> memory_operand list \<Rightarrow> memory_operand \<Rightarrow> liveness \<Rightarrow> liveness" where
  "read_memory A B m L =
     (let L1 = (case position_of m A of
                  None \<Rightarrow> L | Some k \<Rightarrow> L\<lparr>live_addresses64 := mask_set k (live_addresses64 L)\<rparr>);
          L2 = (case position_of m B of
                  None \<Rightarrow> L1 | Some k \<Rightarrow> L1\<lparr>live_addresses128 := mask_set k (live_addresses128 L1)\<rparr>)
      in set_encoding m L2)"

text \<open>Every memory read but the 64-bit one also marks what clashes with it.\<close>

fun visit_in :: "memory_operand list \<Rightarrow> memory_operand list \<Rightarrow> ir_operand \<Rightarrow> liveness \<Rightarrow> liveness" where
  "visit_in A B (OpR8 r) L = read_gpr A B (containingRegister8 r) L"
| "visit_in A B (OpR16 r) L = read_gpr A B (containingRegister16 r) L"
| "visit_in A B (OpR32 r) L = read_gpr A B (containingRegister32 r) L"
| "visit_in A B (OpR64 r) L = read_gpr A B r L"
| "visit_in A B (OpMMX r) L = L\<lparr>live_mmxs := mask_set (mmxreg_index r) (live_mmxs L)\<rparr>"
| "visit_in A B (OpXMM r) L = L\<lparr>live_xmms := mask_set (xmmreg_index r) (live_xmms L)\<rparr>"
| "visit_in A B (OpM8 m) L =
     markAllAddressesClashingWithEncodingAsAlive A B 1 (mem_encoding m) (read_memory A B m L)"
| "visit_in A B (OpM16 m) L =
     markAllAddressesClashingWithEncodingAsAlive A B 2 (mem_encoding m) (read_memory A B m L)"
| "visit_in A B (OpM32 m) L =
     markAllAddressesClashingWithEncodingAsAlive A B 4 (mem_encoding m) (read_memory A B m L)"
| "visit_in A B (OpM64 m) L = read_memory A B m L"
| "visit_in A B (OpM128 m) L =
     markAllAddressesClashingWithEncodingAsAlive A B 16 (mem_encoding m) (read_memory A B m L)"
| "visit_in A B _ L = L"

definition alwaysLiveGprs :: "r64 list" where "alwaysLiveGprs = [RSP, RAX, RDX]"

definition live_before ::
  "memory_operand list \<Rightarrow> memory_operand list \<Rightarrow> ir_instruction \<Rightarrow> liveness \<Rightarrow> liveness" where
  "live_before A B ins L =
     (let L1 = visit_out A B (out ins) L;
          L2 = visit_in A B (in3 ins) (visit_in A B (in2 ins) (visit_in A B (in1 ins) L1));
          L3 = set_gpr RDX (set_gpr RAX (set_gpr RSP L2));
          L4 = forEachImpactedRegister set_gpr ins L3
      in fold set_gpr alwaysLiveGprs L4)"

definition live_at_end :: "memory_operand list \<Rightarrow> memory_operand list \<Rightarrow> liveness" where
  "live_at_end A B =
     fold set_gpr alwaysLiveGprs
       \<lparr>live_gprs = mask_new 3 24, live_mmxs = mask_new 3 24, live_xmms = mask_new 3 24,
        live_addresses64 = mask_set_all (mask_new 16 (length A)),
        live_addresses128 = mask_set_all (mask_new 16 (length B))\<rparr>"

text \<open>One entry per position and one for the end of the block.\<close>

fun live_entries ::
  "memory_operand list \<Rightarrow> memory_operand list \<Rightarrow> ir_instruction list \<Rightarrow> liveness list" where
  "live_entries A B [] = [live_at_end A B]"
| "live_entries A B (ins # rest) =
     (let Ls = live_entries A B rest in live_before A B ins (hd Ls) # Ls)"

definition computeLiveRegistersAndAddresses :: "ir_instruction list \<Rightarrow> liveness list" where
  "computeLiveRegistersAndAddresses p = live_entries (allAddresses64 p) (allAddresses128 p) p"

section \<open>Dead code\<close>

text \<open>
  Whether the instruction can go when \<open>L\<close> is live behind it. The assertions that the address is
  in the list of all addresses written are the \<open>None\<close> cases.
\<close>

definition removable ::
  "memory_operand list \<Rightarrow> memory_operand list \<Rightarrow> liveness \<Rightarrow> ir_instruction \<Rightarrow> bool" where
  "removable A B L ins =
     (if canModifyFlags ins then False
      else if forEachImpactedRegister (\<lambda>r skip. skip \<or> mask_test (r64_index r) (live_gprs L)) ins False
        then False
      else case out ins of
          OpR64 r \<Rightarrow> \<not> mask_test (r64_index r) (live_gprs L)
        | OpMMX r \<Rightarrow> \<not> mask_test (mmxreg_index r) (live_mmxs L)
        | OpXMM r \<Rightarrow> \<not> mask_test (xmmreg_index r) (live_xmms L)
        | OpM64 m \<Rightarrow> (case position_of m A of None \<Rightarrow> False | Some k \<Rightarrow> \<not> mask_test k (live_addresses64 L))
        | OpM128 m \<Rightarrow> (case position_of m B of None \<Rightarrow> False | Some k \<Rightarrow> \<not> mask_test k (live_addresses128 L))
        | _ \<Rightarrow> False)"

definition dead_positions :: "ir_instruction list \<Rightarrow> nat list" where
  "dead_positions p =
     (let Ls = computeLiveRegistersAndAddresses p
      in filter (\<lambda>i. removable (allAddresses64 p) (allAddresses128 p) (Ls ! Suc i) (p ! i)) (rev [0..<length p]))"

definition deadCodeElimination :: optimization_pass where
  "deadCodeElimination ir =
     remove_and_count (dead_positions (instructions ir))
       (\<lambda>n s. s\<lparr>deadCode := deadCode s + word_of_nat n\<rparr>) ir"

section \<open>Reading back what was just written\<close>

definition opposite_movs :: "ir_instruction \<Rightarrow> ir_instruction \<Rightarrow> bool" where
  "opposite_movs prev cur =
     (op prev = OP_MOV \<and> op cur = OP_MOV \<and> in1 prev = out cur \<and> out prev = in1 cur)"

definition immediate_positions :: "ir_instruction list \<Rightarrow> nat list" where
  "immediate_positions p = filter (\<lambda>i. opposite_movs (p ! (i - 1)) (p ! i)) [1..<length p]"

definition immediateReadBackElimination :: optimization_pass where
  "immediateReadBackElimination ir =
     remove_and_count (immediate_positions (instructions ir))
       (\<lambda>n s. s\<lparr>immediateReadback := immediateReadback s + word_of_nat n\<rparr>) ir"

definition isMov :: "ir_op \<Rightarrow> bool" where
  "isMov p = (p = OP_MOV \<or> p = OP_MOVA)"

text \<open>The inner loop: the position of the read-back and what follows it.\<close>

fun find_readback ::
  "ir_instruction \<Rightarrow> nat \<Rightarrow> ir_instruction list \<Rightarrow> (nat \<times> ir_instruction list) option" where
  "find_readback cur j [] = None"
| "find_readback cur j (next # rest) =
     (if isMov (op next) \<and> in1 next = out cur \<and> out next = in1 cur then Some (j, rest)
      else if canCommute cur next then find_readback cur (Suc j) rest
      else None)"

lemma find_readback_shorter:
  "find_readback cur j xs = Some (k, rest) \<Longrightarrow> length rest < length xs"
  by (induction cur j xs rule: find_readback.induct) (auto split: if_splits)

text \<open>The outer loop; after a read-back at \<open>j\<close> it goes on at \<open>j + 2\<close>.\<close>

function delayed_positions :: "nat \<Rightarrow> ir_instruction list \<Rightarrow> nat list" where
  "delayed_positions i [] = []"
| "delayed_positions i (cur # rest) =
     (if \<not> isMov (op cur) then delayed_positions (Suc i) rest
      else case find_readback cur (Suc i) rest of
             Some (j, rest') \<Rightarrow> j # delayed_positions (j + 2) (drop 1 rest')
           | None \<Rightarrow> delayed_positions (Suc i) rest)"
  by pat_completeness auto
termination
  by (relation "measure (\<lambda>(i, xs). length xs)") (auto dest: find_readback_shorter)

definition delayedReadBackElimination :: optimization_pass where
  "delayedReadBackElimination ir =
     remove_and_count (delayed_positions 0 (instructions ir))
       (\<lambda>n s. s\<lparr>delayedReadback := delayedReadback s + word_of_nat n\<rparr>) ir"

section \<open>Duplicate loads\<close>

fun find_duplicate ::
  "ir_instruction \<Rightarrow> memory_operand \<Rightarrow> nat \<Rightarrow> ir_instruction list \<Rightarrow> (nat \<times> ir_instruction list) option" where
  "find_duplicate cur srcMem j [] = None"
| "find_duplicate cur srcMem j (next # rest) =
     (if op next \<noteq> OP_MOV then None
      else if out next = out cur \<and> in1 next = in1 cur then Some (j, rest)
      else if writesTo next (out cur) \<or> writesTo_gpr next (mem_base srcMem)
              \<or> writesTo_gpr next (mem_index srcMem) \<or> writesTo next (in1 cur) then None
      else find_duplicate cur srcMem (Suc j) rest)"

lemma find_duplicate_shorter:
  "find_duplicate cur m j xs = Some (k, rest) \<Longrightarrow> length rest < length xs"
  by (induction cur m j xs rule: find_duplicate.induct) (auto split: if_splits)

function duplicate_positions :: "nat \<Rightarrow> ir_instruction list \<Rightarrow> nat list" where
  "duplicate_positions i [] = []"
| "duplicate_positions i (cur # rest) =
     (if op cur \<noteq> OP_MOV then duplicate_positions (Suc i) rest
      else if \<not> isRegister (out cur) then duplicate_positions (Suc i) rest
      else case operand_memory (in1 cur) of
             None \<Rightarrow> duplicate_positions (Suc i) rest
           | Some srcMem \<Rightarrow>
               (case find_duplicate cur srcMem (Suc i) rest of
                  Some (j, rest') \<Rightarrow> j # duplicate_positions (j + 2) (drop 1 rest')
                | None \<Rightarrow> duplicate_positions (Suc i) rest))"
  by pat_completeness auto
termination
  by (relation "measure (\<lambda>(i, xs). length xs)") (auto dest: find_duplicate_shorter)

definition duplicateInstructionElimination :: optimization_pass where
  "duplicateInstructionElimination ir =
     remove_and_count (duplicate_positions 0 (instructions ir))
       (\<lambda>n s. s\<lparr>duplicateInstruction := duplicateInstruction s + word_of_nat n\<rparr>) ir"

section \<open>The driver\<close>

text \<open>The passes the compiler registers, in its order, and one turn of the loop over them.\<close>

definition passes :: "optimization_pass list" where
  "passes = [deadCodeElimination, immediateReadBackElimination, delayedReadBackElimination,
     duplicateInstructionElimination]"

fun run_passes :: "optimization_pass list \<Rightarrow> optimization_pass" where
  "run_passes [] ir stats = (False, ir, stats)"
| "run_passes (pass # rest) ir stats =
     (let (did, ir1, stats1) = pass ir stats;
          (did', ir2, stats2) = run_passes rest ir1 stats1
      in (did \<or> did', ir2, stats2))"

section \<open>The positions a pass removes\<close>

lemma find_readback_split:
  assumes "find_readback cur j xs = Some (k, rest)"
  shows "\<exists>between nxt. xs = between @ nxt # rest \<and> k = j + length between
    \<and> isMov (op nxt) \<and> in1 nxt = out cur \<and> out nxt = in1 cur \<and> (\<forall>b\<in>set between. canCommute cur b)"
  using assms
proof (induction cur j xs rule: find_readback.induct)
  case (2 cur j nx rest')
  show ?case
  proof (cases "isMov (op nx) \<and> in1 nx = out cur \<and> out nx = in1 cur")
    case True
    with 2(2) show ?thesis by (intro exI [of _ "[]"] exI [of _ "nx"]) auto
  next
    case False
    with 2(2) have c: "canCommute cur nx" and f: "find_readback cur (Suc j) rest' = Some (k, rest)"
      by (auto split: if_splits)
    from 2(1) [OF False c f] obtain between nxt where
      "rest' = between @ nxt # rest" "k = Suc j + length between" "isMov (op nxt)" "in1 nxt = out cur"
      "out nxt = in1 cur" "\<forall>b\<in>set between. canCommute cur b" by blast
    then show ?thesis using c by (intro exI [of _ "nx # between"] exI [of _ nxt]) auto
  qed
qed simp

lemma find_duplicate_split:
  assumes "find_duplicate cur m j xs = Some (k, rest)"
  shows "\<exists>between nxt. xs = between @ nxt # rest \<and> k = j + length between
    \<and> op nxt = OP_MOV \<and> out nxt = out cur \<and> in1 nxt = in1 cur
    \<and> (\<forall>b\<in>set between. op b = OP_MOV \<and> \<not> writesTo b (out cur) \<and> \<not> writesTo_gpr b (mem_base m)
         \<and> \<not> writesTo_gpr b (mem_index m) \<and> \<not> writesTo b (in1 cur))"
  using assms
proof (induction cur m j xs rule: find_duplicate.induct)
  case (2 cur m j nx rest')
  show ?case
  proof (cases "out nx = out cur \<and> in1 nx = in1 cur")
    case True
    with 2(2) show ?thesis by (intro exI [of _ "[]"] exI [of _ "nx"]) (auto split: if_splits)
  next
    case False
    let ?w = "writesTo nx (out cur) \<or> writesTo_gpr nx (mem_base m)
        \<or> writesTo_gpr nx (mem_index m) \<or> writesTo nx (in1 cur)"
    from False 2(2) have c: "\<not> op nx \<noteq> OP_MOV" "\<not> ?w" and f: "find_duplicate cur m (Suc j) rest' = Some (k, rest)"
      by (auto split: if_splits)
    from 2(1) [OF c(1) False c(2) f] obtain between nxt where
      "rest' = between @ nxt # rest" "k = Suc j + length between" "op nxt = OP_MOV" "out nxt = out cur"
      "in1 nxt = in1 cur"
      "\<forall>b\<in>set between. op b = OP_MOV \<and> \<not> writesTo b (out cur) \<and> \<not> writesTo_gpr b (mem_base m)
         \<and> \<not> writesTo_gpr b (mem_index m) \<and> \<not> writesTo b (in1 cur)" by blast
    then show ?thesis using c by (intro exI [of _ "nx # between"] exI [of _ nxt]) auto
  qed
qed simp

definition in_window :: "nat \<Rightarrow> 'a list \<Rightarrow> nat list \<Rightarrow> bool" where
  "in_window i xs ps = (sorted_wrt (<) ps \<and> (\<forall>p\<in>set ps. i \<le> p \<and> p < i + length xs))"

lemma in_window_Nil [simp]: "in_window i xs []"
  by (simp add: in_window_def)

lemma in_window_skip: "in_window (Suc i) xs ps \<Longrightarrow> in_window i (x # xs) ps"
  by (auto simp: in_window_def)

lemma in_window_found:
  assumes "in_window (j + 2) (drop 1 rest) ps" "xs = between @ nxt # rest" "j = Suc i + length between"
  shows "in_window i (cur # xs) (j # ps)"
proof -
  have len: "length xs = length between + Suc (length rest)" using assms(2) by simp
  have ps: "sorted_wrt (<) ps" "\<And>p. p \<in> set ps \<Longrightarrow> j + 2 \<le> p \<and> p < j + 2 + (length rest - 1)"
    using assms(1) by (auto simp: in_window_def)
  have "j < p \<and> i \<le> p \<and> p < i + length (cur # xs)" if "p \<in> set ps" for p
    using ps(2) [OF that] len assms(3) by (cases rest) auto
  then show ?thesis using ps(1) len assms(3) by (auto simp: in_window_def)
qed

lemma delayed_window: "in_window i xs (delayed_positions i xs)"
proof (induction i xs rule: delayed_positions.induct)
  case (2 i cur rest)
  show ?case
  proof (cases "isMov (op cur)")
    case False
    then show ?thesis using 2(1) by (simp add: in_window_skip)
  next
    case True
    show ?thesis
    proof (cases "find_readback cur (Suc i) rest")
      case None
      then show ?thesis using True 2 by (simp add: in_window_skip)
    next
      case (Some x)
      obtain j rest' where x: "x = (j, rest')" by (cases x)
      from find_readback_split [OF Some [unfolded x]] obtain between nxt where
        "rest = between @ nxt # rest'" "j = Suc i + length between" by blast
      moreover have "in_window (j + 2) (drop 1 rest') (delayed_positions (j + 2) (drop 1 rest'))"
        using 2 True Some x by simp
      ultimately have "in_window i (cur # rest) (j # delayed_positions (j + 2) (drop 1 rest'))"
        by (intro in_window_found)
      then show ?thesis using True Some x by simp
    qed
  qed
qed simp

lemma duplicate_window: "in_window i xs (duplicate_positions i xs)"
proof (induction i xs rule: duplicate_positions.induct)
  case (2 i cur rest)
  show ?case
  proof (cases "op cur = OP_MOV \<and> isRegister (out cur) \<and> operand_memory (in1 cur) \<noteq> None")
    case False
    then consider "op cur \<noteq> OP_MOV" | "op cur = OP_MOV" "\<not> isRegister (out cur)"
      | "op cur = OP_MOV" "isRegister (out cur)" "operand_memory (in1 cur) = None" by argo
    then have "in_window (Suc i) rest (duplicate_positions (Suc i) rest)
        \<and> duplicate_positions i (cur # rest) = duplicate_positions (Suc i) rest"
      by cases (simp_all add: 2)
    then show ?thesis by (simp add: in_window_skip)
  next
    case True
    then obtain m where m: "operand_memory (in1 cur) = Some m" by blast
    show ?thesis
    proof (cases "find_duplicate cur m (Suc i) rest")
      case None
      then show ?thesis using True m 2 by (simp add: in_window_skip)
    next
      case (Some x)
      obtain j rest' where x: "x = (j, rest')" by (cases x)
      from find_duplicate_split [OF Some [unfolded x]] obtain between nxt where
        "rest = between @ nxt # rest'" "j = Suc i + length between" by blast
      moreover have "in_window (j + 2) (drop 1 rest') (duplicate_positions (j + 2) (drop 1 rest'))"
        using 2 True m Some x by simp
      ultimately have "in_window i (cur # rest) (j # duplicate_positions (j + 2) (drop 1 rest'))"
        by (intro in_window_found)
      then show ?thesis using True m Some x by simp
    qed
  qed
qed simp

lemma window_positions:
  assumes "in_window 0 xs ps" shows "distinct ps \<and> (\<forall>p\<in>set ps. p < length xs)"
  using assms strict_sorted_iff [of ps] by (auto simp: in_window_def)

definition good_positions :: "(ir_instruction list \<Rightarrow> nat list) \<Rightarrow> bool" where
  "good_positions f = (\<forall>p. distinct (f p) \<and> (\<forall>i\<in>set (f p). i < length p))"

lemma good_passes:
  "good_positions dead_positions" "good_positions immediate_positions"
  "good_positions (delayed_positions 0)" "good_positions (duplicate_positions 0)"
  using window_positions [OF delayed_window] window_positions [OF duplicate_window]
  by (auto simp: good_positions_def dead_positions_def immediate_positions_def Let_def)

text \<open>What a pass does to the instructions, and that it says whether it removed any.\<close>

definition shrinks :: "ir_block \<Rightarrow> bool \<Rightarrow> ir_block \<Rightarrow> bool" where
  "shrinks ir did ir' =
     (if did then (\<exists>A. instructions ir' = nths (instructions ir) A)
        \<and> length (instructions ir') < length (instructions ir)
      else ir' = ir)"

lemma removal_shrinks:
  assumes "good_positions f" "remove_and_count (f (instructions ir)) count ir stats = (did, ir', stats')"
  shows "shrinks ir did ir'"
proof (cases "f (instructions ir) = []")
  case False
  let ?ps = "f (instructions ir)"
  have ps: "distinct ?ps" "\<forall>p\<in>set ?ps. p < length (instructions ir)"
    using assms(1) by (auto simp: good_positions_def)
  have ir': "did" "instructions ir' = nths (instructions ir) (- set ?ps)"
    using assms(2) False instructions_removed [OF ps] by (auto simp: remove_and_count_def)
  obtain p where p: "p \<in> set ?ps" using False by (meson hd_in_set)
  have "{i. i < length (instructions ir) \<and> i \<in> - set ?ps} \<subset> {..<length (instructions ir)}"
    using p ps(2) by auto
  then have "card {i. i < length (instructions ir) \<and> i \<in> - set ?ps} < length (instructions ir)"
    using psubset_card_mono [of "{..<length (instructions ir)}"] by simp
  then show ?thesis using ir' by (auto simp: shrinks_def length_nths)
qed (use assms(2) in \<open>auto simp: remove_and_count_def shrinks_def\<close>)

lemma pass_shrinks:
  "pass \<in> set passes \<Longrightarrow> pass ir stats = (did, ir', stats') \<Longrightarrow> shrinks ir did ir'"
  unfolding passes_def
  using removal_shrinks [OF good_passes(1)] removal_shrinks [OF good_passes(2)]
    removal_shrinks [OF good_passes(3)] removal_shrinks [OF good_passes(4)]
  by (auto simp: deadCodeElimination_def immediateReadBackElimination_def delayedReadBackElimination_def
      duplicateInstructionElimination_def)

lemma shrinks_trans:
  assumes "shrinks ir did ir1" "shrinks ir1 did' ir2" shows "shrinks ir (did \<or> did') ir2"
  using assms by (auto simp: shrinks_def nths_nths split: if_splits)

lemma run_passes_shrinks:
  assumes "set ps \<subseteq> set passes" "run_passes ps ir stats = (did, ir', stats')"
  shows "shrinks ir did ir'"
  using assms
proof (induction ps arbitrary: ir stats did ir' stats')
  case Nil
  then show ?case by (auto simp: shrinks_def)
next
  case (Cons pass ps)
  obtain d1 ir1 s1 where 1: "pass ir stats = (d1, ir1, s1)" by (cases "pass ir stats") auto
  obtain d2 ir2 s2 where 2: "run_passes ps ir1 s1 = (d2, ir2, s2)" by (cases "run_passes ps ir1 s1") auto
  have "shrinks ir d1 ir1" using 1 Cons.prems(1) pass_shrinks by auto
  moreover have "shrinks ir1 d2 ir2" using Cons.IH [OF _ 2] Cons.prems(1) by auto
  ultimately have "shrinks ir (d1 \<or> d2) ir2" by (rule shrinks_trans)
  then show ?case using Cons.prems(2) 1 2 by auto
qed

lemma run_passes_shorter:
  "run_passes passes ir stats = (True, ir', stats') \<Longrightarrow> length (instructions ir') < length (instructions ir)"
  using run_passes_shrinks [of passes ir stats True ir' stats'] by (simp add: shrinks_def)

text \<open>The driver, and the whole optimizer with its statistics.\<close>

function optimize_loop :: "ir_block \<Rightarrow> optimizer_stats \<Rightarrow> ir_block \<times> optimizer_stats" where
  "optimize_loop ir stats =
     (case run_passes passes ir stats of
        (didSomething, ir1, stats1) \<Rightarrow>
          if \<not> didSomething then (ir1, stats1) else optimize_loop ir1 stats1)"
  by pat_completeness auto
termination
  by (relation "measure (\<lambda>(ir, stats). length (instructions ir))") (auto intro: run_passes_shorter [OF sym])

declare optimize_loop.simps [simp del]

definition optimize :: "ir_block \<Rightarrow> optimizer_stats \<Rightarrow> ir_block \<times> optimizer_stats" where
  "optimize ir stats =
     (let sizeBefore = length (instructions ir);
          (ir1, stats1) = optimize_loop ir stats;
          sizeAfter = length (instructions ir1)
      in (ir1, stats1\<lparr>removedInstructions := removedInstructions stats1 + word_of_nat (sizeBefore - sizeAfter)\<rparr>))"

section \<open>The loop ends at a fixpoint and counts what it removed\<close>

definition counted :: "optimizer_stats \<Rightarrow> u32" where
  "counted s = deadCode s + immediateReadback s + delayedReadback s + duplicateInstruction s"

definition counts_removed :: "ir_block \<times> optimizer_stats \<Rightarrow> ir_block \<times> optimizer_stats \<Rightarrow> bool" where
  "counts_removed x y =
     (subseq (instructions (fst y)) (instructions (fst x))
      \<and> removedInstructions (snd y) = removedInstructions (snd x)
      \<and> counted (snd y) = counted (snd x) + word_of_nat (length (instructions (fst x)) - length (instructions (fst y))))"

lemma counts_removed_trans:
  assumes "counts_removed x y" "counts_removed y z" shows "counts_removed x z"
proof -
  let ?l = "\<lambda>v. length (instructions (fst v))"
  have le: "?l z \<le> ?l y" "?l y \<le> ?l x"
    using assms by (auto simp: counts_removed_def dest: list_emb_length)
  then have "?l x - ?l z = (?l x - ?l y) + (?l y - ?l z)" by simp
  then have "(word_of_nat (?l x - ?l z) :: u32) = word_of_nat (?l x - ?l y) + word_of_nat (?l y - ?l z)"
    by (metis of_nat_add)
  moreover have "subseq (instructions (fst z)) (instructions (fst x))"
    using assms by (auto simp: counts_removed_def intro: subseq_order.trans)
  ultimately show ?thesis using assms by (simp add: counts_removed_def)
qed

lemma removal_counts:
  assumes "good_positions f" "\<And>n s. counted (count n s) = counted s + word_of_nat n"
      "\<And>n s. removedInstructions (count n s) = removedInstructions s"
    and "remove_and_count (f (instructions ir)) count ir stats = (did, ir', stats')"
  shows "counts_removed (ir, stats) (ir', stats')"
proof (cases "f (instructions ir) = []")
  case True
  then show ?thesis using assms(4) by (simp add: remove_and_count_def counts_removed_def)
next
  case False
  let ?ps = "f (instructions ir)" and ?n = "length (instructions ir)"
  have ps: "distinct ?ps" "\<forall>p\<in>set ?ps. p < ?n" using assms(1) by (auto simp: good_positions_def)
  then have "instructions ir' = nths (instructions ir) (- set ?ps)" "stats' = count (length ?ps) stats"
    using assms(4) False instructions_removed [OF ps] by (auto simp: remove_and_count_def)
  moreover have "{i. i < ?n \<and> i \<in> - set ?ps} = {..<?n} - set ?ps" by auto
  moreover have "card ({..<?n} - set ?ps) = ?n - length ?ps"
    using ps by (subst card_Diff_subset) (auto simp: distinct_card)
  moreover have "length ?ps \<le> ?n"
    using ps card_mono [of "{..<?n}" "set ?ps"] by (auto simp: distinct_card)
  ultimately show ?thesis by (auto simp: counts_removed_def length_nths subseq_conv_nths assms(2,3))
qed

lemma pass_counts:
  "pass \<in> set passes \<Longrightarrow> pass ir stats = (did, ir', stats') \<Longrightarrow> counts_removed (ir, stats) (ir', stats')"
  unfolding passes_def
  by (auto simp: deadCodeElimination_def immediateReadBackElimination_def delayedReadBackElimination_def
      duplicateInstructionElimination_def counted_def elim!: removal_counts [OF good_passes(1), rotated -1]
      removal_counts [OF good_passes(2), rotated -1] removal_counts [OF good_passes(3), rotated -1]
      removal_counts [OF good_passes(4), rotated -1])

lemma run_passes_counts:
  assumes "set ps \<subseteq> set passes" "run_passes ps ir stats = (did, ir', stats')"
  shows "counts_removed (ir, stats) (ir', stats')"
  using assms
proof (induction ps arbitrary: ir stats did ir' stats')
  case Nil
  then show ?case by (simp add: counts_removed_def)
next
  case (Cons pass ps)
  obtain d1 ir1 s1 where 1: "pass ir stats = (d1, ir1, s1)" by (cases "pass ir stats") auto
  obtain d2 ir2 s2 where 2: "run_passes ps ir1 s1 = (d2, ir2, s2)" by (cases "run_passes ps ir1 s1") auto
  have "counts_removed (ir, stats) (ir1, s1)" using pass_counts [where pass = pass, OF _ 1] Cons.prems(1) by simp
  moreover have "counts_removed (ir1, s1) (ir2, s2)" using Cons.IH [OF _ 2] Cons.prems(1) by simp
  ultimately have "counts_removed (ir, stats) (ir2, s2)" by (rule counts_removed_trans)
  then show ?case using Cons.prems(2) 1 2 by simp
qed

lemma pass_idle:
  assumes "pass \<in> set passes" "pass ir stats = (False, ir', stats')" shows "pass ir st = (False, ir, st)"
  using assms unfolding passes_def
  by (auto simp: deadCodeElimination_def immediateReadBackElimination_def delayedReadBackElimination_def
      duplicateInstructionElimination_def remove_and_count_def split: if_splits)

lemma run_passes_idle:
  assumes "set ps \<subseteq> set passes" "run_passes ps ir stats = (False, ir', stats')"
  shows "ir' = ir \<and> (\<forall>pass\<in>set ps. \<forall>st. pass ir st = (False, ir, st))"
  using assms
proof (induction ps arbitrary: stats)
  case (Cons pass ps)
  obtain d1 ir1 s1 where 1: "pass ir stats = (d1, ir1, s1)" by (cases "pass ir stats") auto
  obtain d2 ir2 s2 where 2: "run_passes ps ir1 s1 = (d2, ir2, s2)" by (cases "run_passes ps ir1 s1") auto
  have d: "\<not> d1" "\<not> d2" "ir2 = ir'" "s2 = stats'" using Cons.prems(2) 1 2 by simp_all
  have "\<forall>st. pass ir st = (False, ir, st)" using pass_idle [where pass = pass, of ir stats] 1 d(1) Cons.prems(1) by auto
  moreover from this have "ir1 = ir" using 1 by simp
  ultimately show ?case using Cons.IH [of s1] 2 d Cons.prems(1) by simp
qed simp

lemma optimize_loop_fixpoint:
  "optimize_loop ir stats = (ir', stats') \<Longrightarrow>
     (\<forall>pass\<in>set passes. \<forall>st. pass ir' st = (False, ir', st))
     \<and> counts_removed (ir, stats) (ir', stats')"
proof (induction ir stats rule: optimize_loop.induct)
  case (1 ir stats)
  obtain did ir1 s1 where r: "run_passes passes ir stats = (did, ir1, s1)"
    by (cases "run_passes passes ir stats") auto
  have one: "counts_removed (ir, stats) (ir1, s1)" by (rule run_passes_counts [OF order_refl r])
  show ?case
  proof (cases did)
    case True
    then have "optimize_loop ir1 s1 = (ir', stats')"
      using "1.prems" r by (simp add: optimize_loop.simps [of ir])
    then show ?thesis using "1.IH" [OF r [symmetric] refl] True counts_removed_trans [OF one] by blast
  next
    case False
    have "ir' = ir1" "stats' = s1" using False "1.prems" r by (simp_all add: optimize_loop.simps [of ir])
    moreover have "run_passes passes ir stats = (False, ir1, s1)" using r False by simp
    note run_passes_idle [OF order_refl this]
    ultimately show ?thesis using one by simp
  qed
qed

text \<open>
  C39. The optimizer ends, on every block, at a block no pass can shrink further; what is left is the
  block's instructions in their order with some of them gone, and the four counters of the passes
  together grew by exactly the number of instructions gone, as does \<open>removedInstructions\<close>.
\<close>

theorem optimizer_fixpoint:
  fixes ir stats
  defines "r \<equiv> optimize ir stats"
  defines "gone \<equiv> length (instructions ir) - length (instructions (fst r))"
  shows "list_all (\<lambda>pass. pass (fst r) st = (False, fst r, st)) passes
    \<and> subseq (instructions (fst r)) (instructions ir)
    \<and> counted (snd r) = counted stats + word_of_nat gone
    \<and> removedInstructions (snd r) = removedInstructions stats + word_of_nat gone"
proof -
  obtain ir' stats' where l: "optimize_loop ir stats = (ir', stats')" by fastforce
  show ?thesis using optimize_loop_fixpoint [OF l] l
    by (simp add: r_def gone_def optimize_def Let_def counts_removed_def counted_def list_all_iff)
qed

end
