(* ===== verification/X64_OptimizerSem.thy ===== *)
theory X64_OptimizerSem
  imports X64_Optimizer
begin

text \<open>
  What the blocks the optimizer works on compute. The state is a value per cell, a cell being a
  register or the 64-bit memory an operand names, and the flags. A full-width \<open>MOV\<close> copies; any
  other instruction computes its output, the registers it impacts and the flags from the cells it
  reads by an unspecified function \<open>alu\<close>, which every theorem quantifies over.

  The theorems are about the straight-line general purpose fragment \<open>in_fragment\<close>: the
  instructions the compiler emits for register-to-register guest code, whose memory operands are the
  aligned slots of the guest state behind base registers that the block does not write.
\<close>

section \<open>Cells and steps\<close>

datatype cell = CReg r64 | CMem memory_operand

type_synonym machine = "(cell \<Rightarrow> u64) \<times> flags"
type_synonym alu = "ir_instruction \<Rightarrow> u64 list \<Rightarrow> flags \<Rightarrow> u64 \<times> (r64 \<Rightarrow> u64) \<times> flags"

abbreviation (input) OP_MOVSX :: ir_op where "OP_MOVSX \<equiv> 2"
abbreviation (input) OP_MUL :: ir_op where "OP_MUL \<equiv> 13"
abbreviation (input) OP_DIV :: ir_op where "OP_DIV \<equiv> 15"
abbreviation (input) OP_IDIV :: ir_op where "OP_IDIV \<equiv> 16"
abbreviation (input) OP_CWDE :: ir_op where "OP_CWDE \<equiv> 29"
abbreviation (input) OP_CDQE :: ir_op where "OP_CDQE \<equiv> 30"
abbreviation (input) OP_CDQ :: ir_op where "OP_CDQ \<equiv> 31"
abbreviation (input) OP_CQO :: ir_op where "OP_CQO \<equiv> 32"
abbreviation (input) OP_LEA :: ir_op where "OP_LEA \<equiv> 33"
abbreviation (input) OP_SET :: ir_op where "OP_SET \<equiv> 41"
abbreviation (input) OP_CMOV :: ir_op where "OP_CMOV \<equiv> 42"
abbreviation (input) OP_BSWAP :: ir_op where "OP_BSWAP \<equiv> 43"

definition impacted :: "ir_instruction \<Rightarrow> r64 list" where
  "impacted i = filter (\<lambda>r. mask_test (r64_index r) (impactedRegisters64 i)) all_r64"

text \<open>The cells an input names; \<open>LEA\<close> reads the address only.\<close>

fun operand_cells :: "ir_op \<Rightarrow> ir_operand \<Rightarrow> cell list" where
  "operand_cells p (OpR8 r) = [CReg (containingRegister8 r)]"
| "operand_cells p (OpR16 r) = [CReg (containingRegister16 r)]"
| "operand_cells p (OpR32 r) = [CReg (containingRegister32 r)]"
| "operand_cells p (OpR64 r) = [CReg r]"
| "operand_cells p (OpM64 m) = (if p = OP_LEA then [CReg (mem_base m), CReg (mem_index m)] else [CMem m])"
| "operand_cells p _ = []"

definition input_cells :: "ir_instruction \<Rightarrow> cell list" where
  "input_cells i = operand_cells (op i) (in1 i) @ operand_cells (op i) (in2 i)
     @ operand_cells (op i) (in3 i) @ map CReg (impacted i)"

fun operand_cell :: "ir_operand \<Rightarrow> cell option" where
  "operand_cell (OpR8 r) = Some (CReg (containingRegister8 r))"
| "operand_cell (OpR16 r) = Some (CReg (containingRegister16 r))"
| "operand_cell (OpR32 r) = Some (CReg (containingRegister32 r))"
| "operand_cell (OpR64 r) = Some (CReg r)"
| "operand_cell (OpM64 m) = Some (CMem m)"
| "operand_cell _ = None"

definition sets_flags :: "ir_instruction \<Rightarrow> bool" where
  "sets_flags i = (canModifyFlags i \<or> op i \<in> set [OP_CMP, OP_MUL, OP_IMUL, OP_DIV, OP_IDIV])"

text \<open>A 64-bit move between registers and memory, or of an immediate, sign-extended from 32 bits.\<close>

definition mov_source :: "(cell \<Rightarrow> u64) \<Rightarrow> ir_operand \<Rightarrow> ir_operand \<Rightarrow> u64 option" where
  "mov_source c dst src =
     (case dst of
        OpR64 d \<Rightarrow> (case src of OpR64 r \<Rightarrow> Some (c (CReg r)) | ImmU64 v \<Rightarrow> Some v
                      | OpM64 m \<Rightarrow> Some (c (CMem m)) | _ \<Rightarrow> None)
      | OpM64 d \<Rightarrow> (case src of OpR64 r \<Rightarrow> Some (c (CReg r)) | ImmU32 v \<Rightarrow> Some (scast v) | _ \<Rightarrow> None)
      | _ \<Rightarrow> None)"

lemma mov_source_simps [simp]:
  "mov_source c (OpR64 d) (OpR64 r) = Some (c (CReg r))"
  "mov_source c (OpR64 d) (ImmU64 v) = Some v"
  "mov_source c (OpR64 d) (OpM64 m) = Some (c (CMem m))"
  "mov_source c (OpM64 d') (OpR64 r) = Some (c (CReg r))"
  "mov_source c (OpM64 d') (ImmU32 v') = Some (scast v')"
  by (simp_all add: mov_source_def)

definition compute :: "alu \<Rightarrow> ir_instruction \<Rightarrow> machine \<Rightarrow> u64 \<times> (r64 \<Rightarrow> u64) \<times> flags" where
  "compute alu i s =
     (case mov_source (fst s) (out i) (in1 i) of
        Some v \<Rightarrow> if op i = OP_MOV then (v, \<lambda>_. 0, snd s) else alu i (map (fst s) (input_cells i)) (snd s)
      | None \<Rightarrow> alu i (map (fst s) (input_cells i)) (snd s))"

definition step :: "alu \<Rightarrow> ir_instruction \<Rightarrow> machine \<Rightarrow> machine" where
  "step alu i s =
     (let (v, w, f) = compute alu i s
      in (\<lambda>x. if operand_cell (out i) = Some x then v
              else case x of CReg r \<Rightarrow> if r \<in> set (impacted i) then w r else fst s x
                           | CMem m \<Rightarrow> fst s x,
          if sets_flags i then f else snd s))"

definition run :: "alu \<Rightarrow> ir_instruction list \<Rightarrow> machine \<Rightarrow> machine" where
  "run alu p s = fold (step alu) p s"

section \<open>The fragment\<close>

definition scalar_ops :: "ir_op list" where
  "scalar_ops = [OP_MOV, OP_MOVZX, OP_MOVSX, OP_ADD, OP_ADC, OP_SUB, OP_SBB, OP_CMP, OP_SHL, OP_SHR,
     OP_SAR, OP_ROL, OP_ROR, OP_MUL, OP_IMUL, OP_DIV, OP_IDIV, OP_TEST, OP_AND, OP_OR, OP_XOR, OP_NOT,
     OP_NEG, OP_INC, OP_DEC, OP_CWDE, OP_CDQE, OP_CDQ, OP_CQO, OP_LEA, OP_BSF, OP_BSR, OP_TZCNT, OP_SET,
     OP_CMOV, OP_BSWAP, OP_BT, OP_BTR, OP_BTS]"

text \<open>A slot behind a base register of \<open>B\<close>, as the compiler builds them.\<close>

definition plain_slot :: "r64 set \<Rightarrow> memory_operand \<Rightarrow> bool" where
  "plain_slot B m = (mem_segment m = SEG_CS \<and> mem_base m \<in> B \<and> mem_index m = ZERO \<and> mem_scale m = 1
     \<and> sint (mem_disp m) mod 8 = 0)"

fun plain_input :: "r64 set \<Rightarrow> ir_op \<Rightarrow> ir_operand \<Rightarrow> bool" where
  "plain_input B p (OpM64 m) = (p = OP_LEA \<or> plain_slot B m)"
| "plain_input B p (OpM8 m) = False"
| "plain_input B p (OpM16 m) = False"
| "plain_input B p (OpM32 m) = False"
| "plain_input B p (OpM128 m) = False"
| "plain_input B p (OpMMX r) = False"
| "plain_input B p (OpXMM r) = False"
| "plain_input B p (OpLabel l) = False"
| "plain_input B p _ = True"

definition plain_register :: "r64 set \<Rightarrow> r64 \<Rightarrow> bool" where
  "plain_register B r = (r \<notin> B \<and> r \<noteq> RIP \<and> r \<noteq> ZERO)"

text \<open>An output of 8 or 16 bits keeps the rest of its register, which the instruction must then read.\<close>

fun plain_output :: "r64 set \<Rightarrow> ir_instruction \<Rightarrow> ir_operand \<Rightarrow> bool" where
  "plain_output B i Void = True"
| "plain_output B i (OpR8 r) = (plain_register B (containingRegister8 r) \<and> CReg (containingRegister8 r) \<in> set (input_cells i))"
| "plain_output B i (OpR16 r) = (plain_register B (containingRegister16 r) \<and> CReg (containingRegister16 r) \<in> set (input_cells i))"
| "plain_output B i (OpR32 r) = plain_register B (containingRegister32 r)"
| "plain_output B i (OpR64 r) = plain_register B r"
| "plain_output B i (OpM64 m) = plain_slot B m"
| "plain_output B i _ = False"

definition full_mov :: "ir_instruction \<Rightarrow> bool" where
  "full_mov i = (mov_source (\<lambda>_. 0) (out i) (in1 i) \<noteq> None \<and> in2 i = Void \<and> in3 i = Void \<and> impacted i = [])"

definition in_fragment :: "r64 set \<Rightarrow> ir_instruction \<Rightarrow> bool" where
  "in_fragment B i =
     (op i \<in> set scalar_ops \<and> in1 i \<noteq> Void
      \<and> plain_input B (op i) (in1 i) \<and> plain_input B (op i) (in2 i) \<and> plain_input B (op i) (in3 i)
      \<and> plain_output B i (out i) \<and> list_all (plain_register B) (impacted i)
      \<and> (op i = OP_MOV \<longrightarrow> full_mov i)
      \<and> (op i = OP_CMP \<longrightarrow> out i = Void)
      \<and> (op i \<in> set [OP_MUL, OP_IMUL, OP_DIV, OP_IDIV] \<longrightarrow> RAX \<in> set (impacted i)))"

section \<open>What a step reads and writes\<close>

lemma full_movE:
  assumes "full_mov i"
  obtains d r where "out i = OpR64 d" "in1 i = OpR64 r"
  | d v where "out i = OpR64 d" "in1 i = ImmU64 v"
  | d m where "out i = OpR64 d" "in1 i = OpM64 m"
  | d r where "out i = OpM64 d" "in1 i = OpR64 r"
  | d v where "out i = OpM64 d" "in1 i = ImmU32 v"
  using assms unfolding full_mov_def mov_source_def by (auto split: ir_operand.splits)

definition writes :: "ir_instruction \<Rightarrow> cell set" where
  "writes i = set_option (operand_cell (out i)) \<union> CReg ` set (impacted i)"

lemma step_other: "x \<notin> writes i \<Longrightarrow> fst (step alu i s) x = fst s x"
  by (auto simp: step_def writes_def split: prod.splits cell.splits)

lemma step_flags: "\<not> sets_flags i \<Longrightarrow> snd (step alu i s) = snd s"
  by (auto simp: step_def split: prod.splits)

lemma compute_same:
  assumes "\<forall>x\<in>set (input_cells i). fst s x = fst t x" "snd s = snd t" "op i = OP_MOV \<longrightarrow> full_mov i"
  shows "compute alu i s = compute alu i t"
proof (cases "op i = OP_MOV")
  case True
  then have mov: "mov_source (fst s) (out i) (in1 i) = mov_source (fst t) (out i) (in1 i)"
    using assms(1) True
    by (cases rule: full_movE [OF assms(3) [rule_format, OF True]]) (auto simp: input_cells_def)
  have inputs: "map (fst s) (input_cells i) = map (fst t) (input_cells i)" using assms(1) by simp
  show ?thesis by (simp only: compute_def mov inputs assms(2))
next
  case False
  have alu: "compute alu i u = alu i (map (fst u) (input_cells i)) (snd u)" for u
    using False by (simp add: compute_def split: option.splits)
  have inputs: "map (fst s) (input_cells i) = map (fst t) (input_cells i)" using assms(1) by simp
  show ?thesis by (simp only: alu inputs assms(2))
qed

lemma step_same:
  assumes "\<forall>x\<in>set (input_cells i). fst s x = fst t x" "snd s = snd t" "op i = OP_MOV \<longrightarrow> full_mov i"
  shows "snd (step alu i s) = snd (step alu i t)"
    and "x \<in> writes i \<or> fst s x = fst t x \<Longrightarrow> fst (step alu i s) x = fst (step alu i t) x"
  using compute_same [OF assms] assms(2)
  by (auto simp: step_def writes_def split: prod.splits cell.splits)

lemma step_mov:
  assumes "op i = OP_MOV" "full_mov i"
  shows "step alu i s = ((fst s)(the (operand_cell (out i)) := the (mov_source (fst s) (out i) (in1 i))), snd s)"
proof -
  obtain v where "mov_source (fst s) (out i) (in1 i) = Some v"
    by (rule full_movE [OF assms(2)]) auto
  moreover obtain x where "operand_cell (out i) = Some x"
    by (rule full_movE [OF assms(2)]) auto
  moreover have "\<not> sets_flags i" using assms(1) by (simp add: sets_flags_def canModifyFlags_def)
  moreover have "impacted i = []" using assms(2) by (simp add: full_mov_def)
  ultimately show ?thesis
    using assms(1) by (auto simp: step_def compute_def fun_eq_iff split: cell.splits)
qed

section \<open>Removing instructions that change nothing\<close>

lemma run_Nil [simp]: "run alu [] s = s"
  by (simp add: run_def)

lemma run_Cons [simp]: "run alu (i # p) s = run alu p (step alu i s)"
  by (simp add: run_def)

lemma run_append [simp]: "run alu (p @ q) s = run alu q (run alu p s)"
  by (simp add: run_def)

lemma run_without_noops:
  assumes "\<And>i. i \<in> S \<Longrightarrow> i < length p \<Longrightarrow> step alu (p ! i) (run alu (take i p) s) = run alu (take i p) s"
  shows "run alu (nths p (- S)) s = run alu p s"
  using assms
proof (induction p rule: rev_induct)
  case (snoc x p)
  have IH: "run alu (nths p (- S)) s = run alu p s"
  proof (rule snoc.IH)
    fix i assume "i \<in> S" "i < length p"
    then show "step alu (p ! i) (run alu (take i p) s) = run alu (take i p) s"
      using snoc.prems [of i] by (simp add: nth_append)
  qed
  have last: "length p \<in> S \<Longrightarrow> step alu x (run alu p s) = run alu p s"
    using snoc.prems [of "length p"] by simp
  show ?case
  proof (cases "length p \<in> S")
    case True
    then have "nths (p @ [x]) (- S) = nths p (- S)" by (simp add: nths_append)
    then show ?thesis using IH last [OF True] by simp
  next
    case False
    then have "nths (p @ [x]) (- S) = nths p (- S) @ [x]" by (simp add: nths_append)
    then show ?thesis using IH by simp
  qed
qed simp

text \<open>A move between two cells, and what keeps them equal until it is undone or repeated.\<close>

definition copies :: "cell \<Rightarrow> cell \<Rightarrow> ir_instruction \<Rightarrow> bool" where
  "copies x y i = (op i = OP_MOV \<and> full_mov i \<and> operand_cell (out i) = Some x \<and> operand_cell (in1 i) = Some y)"

lemma step_copies:
  assumes "copies x y i" shows "step alu i s = ((fst s)(x := fst s y), snd s)"
proof -
  have "mov_source (fst s) (out i) (in1 i) = Some (fst s y)"
    using assms by (auto simp: copies_def elim!: full_movE)
  then show ?thesis using assms step_mov [of i alu s] by (simp add: copies_def)
qed

lemma run_keeps:
  assumes "\<forall>b\<in>set p. x \<notin> writes b" shows "fst (run alu p s) x = fst s x"
  using assms by (induction p arbitrary: s) (auto simp: step_other)

lemma copy_survives:
  assumes "copies x y i" "\<forall>b\<in>set p. x \<notin> writes b \<and> y \<notin> writes b" "copies y x j \<or> copies x y j"
  shows "step alu j (run alu (i # p) s) = run alu (i # p) s"
proof -
  let ?t = "run alu p (step alu i s)"
  have eq: "fst ?t x = fst ?t y"
    using assms(2) run_keeps [of p x] run_keeps [of p y] by (simp add: step_copies [OF assms(1)])
  from assms(3) show ?thesis
  proof
    assume "copies y x j"
    then show ?thesis using eq step_copies [of y x j alu ?t] by (simp add: prod_eq_iff fun_eq_iff)
  next
    assume "copies x y j"
    then show ?thesis using eq step_copies [of x y j alu ?t] by (simp add: prod_eq_iff fun_eq_iff)
  qed
qed

definition redundant_copy :: "ir_instruction list \<Rightarrow> nat \<Rightarrow> bool" where
  "redundant_copy p k =
     (\<exists>pre i between j post x y. p = pre @ i # between @ j # post \<and> k = Suc (length pre + length between)
        \<and> copies x y i \<and> (\<forall>b\<in>set between. x \<notin> writes b \<and> y \<notin> writes b) \<and> (copies y x j \<or> copies x y j))"

lemma redundant_copy_noop:
  assumes "redundant_copy p k"
  shows "step alu (p ! k) (run alu (take k p) s) = run alu (take k p) s"
proof -
  from assms obtain pre i between j post x y where p: "p = pre @ i # between @ j # post"
    "k = Suc (length pre + length between)" "copies x y i"
    "\<forall>b\<in>set between. x \<notin> writes b \<and> y \<notin> writes b" "copies y x j \<or> copies x y j"
    unfolding redundant_copy_def by blast
  have "take k p = pre @ i # between" "p ! k = j" using p(1,2) by (simp_all add: nth_append)
  then show ?thesis using copy_survives [OF p(3-5), of alu "run alu pre s"] by simp
qed

lemma run_without_redundant_copies:
  assumes "\<forall>k\<in>S. redundant_copy p k" shows "run alu (nths p (- S)) s = run alu p s"
  using assms redundant_copy_noop by (intro run_without_noops) blast

section \<open>The passes that remove copies\<close>

lemma mov_writes:
  assumes "full_mov b" shows "writes b = set_option (operand_cell (out b))"
  using assms by (simp add: writes_def full_mov_def)

lemma fragmentD:
  assumes "in_fragment B i"
  shows "op i \<in> set scalar_ops" "in1 i \<noteq> Void" "plain_input B (op i) (in1 i)" "plain_input B (op i) (in2 i)"
    "plain_input B (op i) (in3 i)" "plain_output B i (out i)" "list_all (plain_register B) (impacted i)"
    "op i = OP_MOV \<longrightarrow> full_mov i" "op i = OP_CMP \<longrightarrow> out i = Void"
    "op i \<in> set [OP_MUL, OP_IMUL, OP_DIV, OP_IDIV] \<longrightarrow> RAX \<in> set (impacted i)"
  using assms unfolding in_fragment_def by blast+

lemma fragment_mov:
  assumes "in_fragment B i" "isMov (op i)" shows "op i = OP_MOV" "full_mov i"
proof -
  have "OP_MOVA \<notin> set scalar_ops" by (simp add: scalar_ops_def)
  then show "op i = OP_MOV" using fragmentD(1) [OF assms(1)] assms(2) by (auto simp: isMov_def)
  then show "full_mov i" using fragmentD(8) [OF assms(1)] by blast
qed

text \<open>An instruction that reads one cell and writes another is not commuted over a writer of either.\<close>

lemma movs_commute_ops: "canMovsCommute a b \<Longrightarrow> op a = OP_MOV \<and> op b = OP_MOV"
  by (cases "op a = OP_MOV"; cases "op b = OP_MOV") (simp_all add: canMovsCommute_def)

lemma movs_commute_apart:
  assumes "copies x y a" "full_mov b" "canMovsCommute a b"
  shows "x \<notin> writes b \<and> y \<notin> writes b"
proof (rule ccontr)
  assume "\<not> ?thesis"
  then have "x \<in> writes b \<or> y \<in> writes b" by argo
  moreover have a: "full_mov a" "operand_cell (out a) = Some x" "operand_cell (in1 a) = Some y"
    using assms(1) by (simp_all add: copies_def)
  ultimately have "\<not> canMovsCommute a b"
    unfolding mov_writes [OF assms(2)]
    by (cases rule: full_movE [OF a(1)]; cases rule: full_movE [OF assms(2)])
       (simp_all add: canMovsCommute_def Let_def, (elim disjE; simp)+)
  then show False using assms(3) by contradiction
qed

lemma commute_apart:
  assumes "copies x y a" "in_fragment B b" "canCommute a b"
  shows "x \<notin> writes b \<and> y \<notin> writes b"
proof -
  have a: "op a = OP_MOV" "full_mov a" "operand_cell (in1 a) = Some y" using assms(1) by (simp_all add: copies_def)
  have "impacts (out a) (in1 b)"
    using fragmentD(2) [OF assms(2)] by (cases rule: full_movE [OF a(2)]) (simp_all add: impacts_def)
  moreover have "\<not> canMovasCommute a b" using a(1) by (simp add: canMovasCommute_def)
  ultimately have c: "canMovsCommute a b" using assms(3) by (simp add: canCommute_def split: if_splits)
  then have "full_mov b" using movs_commute_ops fragmentD(8) [OF assms(2)] by simp
  then show ?thesis using movs_commute_apart assms(1) c by blast
qed

lemma load_not_written:
  assumes "full_mov b" "plain_slot B m"
    "\<not> writesTo b (OpR64 r)" "\<not> writesTo b (OpM64 m)"
  shows "CReg r \<notin> writes b \<and> CMem m \<notin> writes b"
  using assms(2-4) mov_writes [OF assms(1)]
  by (cases rule: full_movE [OF assms(1)])
     (auto simp: writesTo_def mayAlias_gpr_def mayAlias_memory_def addressesMayAlias_def plain_slot_def
        split: if_splits)

definition fragment_block :: "r64 set \<Rightarrow> ir_instruction list \<Rightarrow> bool" where
  "fragment_block B p = list_all (in_fragment B) p"

lemma fragment_nth: "fragment_block B p \<Longrightarrow> i < length p \<Longrightarrow> in_fragment B (p ! i)"
  by (simp add: fragment_block_def list_all_length)

lemma immediate_redundant:
  assumes "fragment_block B p" "k \<in> set (immediate_positions p)"
  shows "redundant_copy p k"
proof -
  have k: "0 < k" "k < length p" and opp: "opposite_movs (p ! (k - 1)) (p ! k)"
    using assms(2) by (auto simp: immediate_positions_def)
  let ?a = "p ! (k - 1)" and ?b = "p ! k"
  have movs: "op ?a = OP_MOV" "op ?b = OP_MOV" "in1 ?a = out ?b" "out ?a = in1 ?b"
    using opp by (auto simp: opposite_movs_def)
  have full: "full_mov ?a" "full_mov ?b"
    using fragment_nth [OF assms(1), THEN fragmentD(8)] k movs by auto
  obtain x y where xy: "operand_cell (out ?a) = Some x" "operand_cell (out ?b) = Some y"
    using full by (auto elim!: full_movE)
  then have "copies x y ?a" "copies y x ?b" using movs full by (auto simp: copies_def)
  moreover have "p = take (k - 1) p @ ?a # [] @ ?b # drop (Suc k) p"
    using k id_take_nth_drop [of "k - 1" p] Cons_nth_drop_Suc [of k p] by simp
  ultimately show ?thesis
    using k unfolding redundant_copy_def
    by (intro exI [of _ "take (k - 1) p"] exI [of _ ?a] exI [of _ "[]"] exI [of _ ?b]
        exI [of _ "drop (Suc k) p"] exI [of _ x] exI [of _ y]) auto
qed

text \<open>What the two searches found, at the position they report.\<close>

definition found_at :: "(ir_instruction \<Rightarrow> ir_instruction list \<Rightarrow> ir_instruction \<Rightarrow> bool) \<Rightarrow>
    nat \<Rightarrow> ir_instruction list \<Rightarrow> nat \<Rightarrow> bool" where
  "found_at Q i xs k =
     (\<exists>pre a between b post. xs = pre @ a # between @ b # post \<and> k = i + Suc (length pre + length between)
        \<and> Q a between b)"

lemma found_at_skip:
  assumes "found_at Q (i + length skipped) xs k" shows "found_at Q i (skipped @ xs) k"
proof -
  from assms obtain pre a between b post where
    "xs = pre @ a # between @ b # post" "k = i + length skipped + Suc (length pre + length between)"
    "Q a between b" unfolding found_at_def by blast
  then show ?thesis unfolding found_at_def
    by (intro exI [of _ "skipped @ pre"] exI [of _ a] exI [of _ between] exI [of _ b] exI [of _ post]) simp
qed

lemma found_at_Suc: "found_at Q (Suc i) xs k \<Longrightarrow> found_at Q i (x # xs) k"
  using found_at_skip [of Q i "[x]"] by simp

lemma found_at_here:
  assumes "Q a between b" "k = Suc i + length between" shows "found_at Q i (a # between @ b # post) k"
  unfolding found_at_def using assms
  by (intro exI [of _ "[]"] exI [of _ a] exI [of _ between] exI [of _ b] exI [of _ post]) simp

lemma found_at_beyond:
  assumes "found_at Q (j + 2) (drop 1 post) k" "j = Suc i + length between"
  shows "found_at Q i (a # between @ b # post) k"
proof (cases post)
  case Nil
  then show ?thesis using assms(1) by (simp add: found_at_def)
next
  case (Cons c post')
  have "found_at Q i ((a # between @ [b, c]) @ post') k"
    using assms Cons by (intro found_at_skip) simp
  then show ?thesis using Cons by simp
qed

definition read_back :: "ir_instruction \<Rightarrow> ir_instruction list \<Rightarrow> ir_instruction \<Rightarrow> bool" where
  "read_back a between b =
     (isMov (op a) \<and> isMov (op b) \<and> in1 b = out a \<and> out b = in1 a \<and> (\<forall>c\<in>set between. canCommute a c))"

lemma delayed_found: "k \<in> set (delayed_positions i xs) \<Longrightarrow> found_at read_back i xs k"
proof (induction i xs rule: delayed_positions.induct)
  case (2 i cur rest)
  show ?case
  proof (cases "if isMov (op cur) then find_readback cur (Suc i) rest else None")
    case None
    then consider "\<not> isMov (op cur)" | "isMov (op cur)" "find_readback cur (Suc i) rest = None"
      by (auto split: if_splits)
    then have "found_at read_back (Suc i) rest k" using 2 by cases simp_all
    then show ?thesis by (rule found_at_Suc)
  next
    case (Some x)
    obtain j rest' where x: "x = (j, rest')" by (cases x)
    have True: "isMov (op cur)" and f: "find_readback cur (Suc i) rest = Some (j, rest')"
      using Some x by (simp_all split: if_splits)
    obtain between nxt where r: "rest = between @ nxt # rest'" "j = Suc i + length between"
      "isMov (op nxt)" "in1 nxt = out cur" "out nxt = in1 cur" "\<forall>c\<in>set between. canCommute cur c"
      using find_readback_split [OF f] by blast
    from 2 True f have "k = j \<or> k \<in> set (delayed_positions (j + 2) (drop 1 rest'))" by simp
    then show ?thesis
    proof
      assume "k = j"
      then show ?thesis using r True unfolding r(1) by (intro found_at_here) (simp_all add: read_back_def)
    next
      assume "k \<in> set (delayed_positions (j + 2) (drop 1 rest'))"
      then have "found_at read_back (j + 2) (drop 1 rest') k" using 2 True f by simp
      then show ?thesis unfolding r(1) using r(2) by (rule found_at_beyond)
    qed
  qed
qed simp

definition repeats :: "ir_instruction \<Rightarrow> ir_instruction list \<Rightarrow> ir_instruction \<Rightarrow> bool" where
  "repeats a between b =
     (op a = OP_MOV \<and> op b = OP_MOV \<and> isRegister (out a) \<and> isMemory (in1 a) \<and> out b = out a \<and> in1 b = in1 a
      \<and> (\<forall>c\<in>set between. op c = OP_MOV \<and> \<not> writesTo c (out a) \<and> \<not> writesTo c (in1 a)))"

lemma duplicate_found: "k \<in> set (duplicate_positions i xs) \<Longrightarrow> found_at repeats i xs k"
proof (induction i xs rule: duplicate_positions.induct)
  case (2 i cur rest)
  show ?case
  proof (cases "if op cur = OP_MOV \<and> isRegister (out cur)
      then Option.bind (operand_memory (in1 cur)) (\<lambda>m. find_duplicate cur m (Suc i) rest) else None")
    case None
    then consider "op cur \<noteq> OP_MOV" | "op cur = OP_MOV" "\<not> isRegister (out cur)"
      | "op cur = OP_MOV" "isRegister (out cur)" "operand_memory (in1 cur) = None"
      | m where "op cur = OP_MOV" "isRegister (out cur)" "operand_memory (in1 cur) = Some m"
          "find_duplicate cur m (Suc i) rest = None"
      by (cases "operand_memory (in1 cur)") (auto split: if_splits)
    then have "found_at repeats (Suc i) rest k" using 2 by cases simp_all
    then show ?thesis by (rule found_at_Suc)
  next
    case (Some x)
    obtain j rest' where x: "x = (j, rest')" by (cases x)
    obtain m where True: "op cur = OP_MOV \<and> isRegister (out cur)" and m: "operand_memory (in1 cur) = Some m"
      and f: "find_duplicate cur m (Suc i) rest = Some (j, rest')"
      using Some x by (cases "operand_memory (in1 cur)") (simp_all split: if_splits)
    obtain between nxt where r: "rest = between @ nxt # rest'" "j = Suc i + length between"
      "op nxt = OP_MOV" "out nxt = out cur" "in1 nxt = in1 cur"
      "\<forall>c\<in>set between. op c = OP_MOV \<and> \<not> writesTo c (out cur) \<and> \<not> writesTo_gpr c (mem_base m)
         \<and> \<not> writesTo_gpr c (mem_index m) \<and> \<not> writesTo c (in1 cur)"
      using find_duplicate_split [OF f] by blast
    from 2 True m f have "k = j \<or> k \<in> set (duplicate_positions (j + 2) (drop 1 rest'))" by simp
    then show ?thesis
    proof
      assume "k = j"
      then show ?thesis using r True m unfolding r(1)
        by (intro found_at_here) (simp_all add: repeats_def isMemory_def)
    next
      assume "k \<in> set (duplicate_positions (j + 2) (drop 1 rest'))"
      then have "found_at repeats (j + 2) (drop 1 rest') k" using 2 True m f by simp
      then show ?thesis unfolding r(1) using r(2) by (rule found_at_beyond)
    qed
  qed
qed simp

lemma found_at_redundant:
  assumes "fragment_block B p" "found_at Q 0 p k"
    and "\<And>a between b. in_fragment B a \<Longrightarrow> in_fragment B b \<Longrightarrow> fragment_block B between \<Longrightarrow> Q a between b \<Longrightarrow>
      \<exists>x y. copies x y a \<and> (\<forall>c\<in>set between. x \<notin> writes c \<and> y \<notin> writes c) \<and> (copies y x b \<or> copies x y b)"
  shows "redundant_copy p k"
proof -
  from assms(2) obtain pre a between b post where p: "p = pre @ a # between @ b # post"
    and k: "k = Suc (length pre + length between)" and q: "Q a between b"
    unfolding found_at_def by auto
  have "in_fragment B a" "in_fragment B b" "fragment_block B between"
    using assms(1) by (simp_all add: p fragment_block_def)
  then obtain x y where "copies x y a" "\<forall>c\<in>set between. x \<notin> writes c \<and> y \<notin> writes c"
    "copies y x b \<or> copies x y b" using assms(3) q by blast
  then show ?thesis unfolding redundant_copy_def using p k
    by (intro exI [of _ pre] exI [of _ a] exI [of _ between] exI [of _ b] exI [of _ post] exI [of _ x] exI [of _ y]) simp
qed

lemma read_back_redundant:
  assumes "in_fragment B a" "in_fragment B b" "fragment_block B between" "read_back a between b"
  shows "\<exists>x y. copies x y a \<and> (\<forall>c\<in>set between. x \<notin> writes c \<and> y \<notin> writes c) \<and> (copies y x b \<or> copies x y b)"
proof -
  have ab: "isMov (op a)" "isMov (op b)" "in1 b = out a" "out b = in1 a" "\<forall>c\<in>set between. canCommute a c"
    using assms(4) by (simp_all add: read_back_def)
  note a = fragment_mov [OF assms(1) ab(1)] and b = fragment_mov [OF assms(2) ab(2)]
  obtain x y where xy: "operand_cell (out a) = Some x" "operand_cell (out b) = Some y"
    using a(2) b(2) by (auto elim!: full_movE)
  then have "copies x y a" "copies y x b" using a b ab(3,4) by (simp_all add: copies_def)
  moreover have "x \<notin> writes c \<and> y \<notin> writes c" if "c \<in> set between" for c
    using commute_apart [OF \<open>copies x y a\<close>] assms(3) ab(5) that by (auto simp: fragment_block_def list_all_iff)
  ultimately show ?thesis by blast
qed

lemma repeats_redundant:
  assumes "in_fragment B a" "in_fragment B b" "fragment_block B between" "repeats a between b"
  shows "\<exists>x y. copies x y a \<and> (\<forall>c\<in>set between. x \<notin> writes c \<and> y \<notin> writes c) \<and> (copies y x b \<or> copies x y b)"
proof -
  have ab: "op a = OP_MOV" "op b = OP_MOV" "isRegister (out a)" "isMemory (in1 a)" "out b = out a" "in1 b = in1 a"
    and between: "\<forall>c\<in>set between. op c = OP_MOV \<and> \<not> writesTo c (out a) \<and> \<not> writesTo c (in1 a)"
    using assms(4) by (simp_all add: repeats_def)
  have full: "full_mov a" "full_mov b" using fragmentD(8) [OF assms(1)] fragmentD(8) [OF assms(2)] ab by simp_all
  obtain r m where rm: "out a = OpR64 r" "in1 a = OpM64 m"
    using ab(3,4) by (cases rule: full_movE [OF full(1)]) (simp_all add: isMemory_def)
  have "plain_slot B m" using fragmentD(3) [OF assms(1)] rm ab(1) by simp
  then have "CReg r \<notin> writes c \<and> CMem m \<notin> writes c" if "c \<in> set between" for c
    using load_not_written [of c B m r] that between rm assms(3) fragmentD(8) [of B c]
    by (simp add: fragment_block_def list_all_iff)
  moreover have "copies (CReg r) (CMem m) a" "copies (CReg r) (CMem m) b" using ab full rm by (simp_all add: copies_def)
  ultimately show ?thesis by blast
qed

lemma copy_passes_preserve:
  assumes "fragment_block B p" "f \<in> {immediate_positions, delayed_positions 0, duplicate_positions 0}"
  shows "run alu (nths p (- set (f p))) s = run alu p s"
proof (rule run_without_redundant_copies, rule ballI)
  fix k assume k: "k \<in> set (f p)"
  consider "f = immediate_positions" | "f = delayed_positions 0" | "f = duplicate_positions 0" using assms(2) by blast
  then show "redundant_copy p k"
  proof cases
    case 1
    then show ?thesis using immediate_redundant [OF assms(1)] k by simp
  next
    case 2
    then have "found_at read_back 0 p k" using delayed_found k by simp
    then show ?thesis by (rule found_at_redundant [OF assms(1)]) (rule read_back_redundant)
  next
    case 3
    then have "found_at repeats 0 p k" using duplicate_found k by simp
    then show ?thesis by (rule found_at_redundant [OF assms(1)]) (rule repeats_redundant)
  qed
qed

section \<open>Liveness\<close>

definition live_wf :: "memory_operand list \<Rightarrow> memory_operand list \<Rightarrow> liveness \<Rightarrow> bool" where
  "live_wf A B L =
     (mask_wf (live_gprs L) \<and> mask_wf (live_addresses64 L) \<and> mask_wf (live_addresses128 L)
      \<and> mask_size (live_gprs L) = 24 \<and> mask_size (live_addresses64 L) = length A
      \<and> mask_size (live_addresses128 L) = length B)"

text \<open>The cells the masks name; an address the block never writes is always live.\<close>

definition live_cells :: "memory_operand list \<Rightarrow> liveness \<Rightarrow> cell set" where
  "live_cells A L =
     {x. case x of CReg r \<Rightarrow> r64_index r \<in> mask_members (live_gprs L)
         | CMem m \<Rightarrow> (\<forall>k. position_of m A = Some k \<longrightarrow> k \<in> mask_members (live_addresses64 L))}"

lemma live_cells_simps [simp]:
  "CReg r \<in> live_cells A L \<longleftrightarrow> r64_index r \<in> mask_members (live_gprs L)"
  "CMem m \<in> live_cells A L \<longleftrightarrow> (\<forall>k. position_of m A = Some k \<longrightarrow> k \<in> mask_members (live_addresses64 L))"
  by (simp_all add: live_cells_def)

lemma position_of_nth: "position_of x xs = Some k \<Longrightarrow> k < length xs \<and> xs ! k = x"
  by (induction x xs arbitrary: k rule: position_of.induct) (auto split: if_splits)

lemma position_of_inj: "position_of x xs = Some k \<Longrightarrow> position_of y xs = Some k \<Longrightarrow> x = y"
  using position_of_nth [of x xs k] position_of_nth [of y xs k] by simp

lemma r64_index_below: "r64_index r < 24"
  by (cases r) simp_all

lemma set_gpr_live [simp]:
  assumes "live_wf A B L"
  shows "live_wf A B (set_gpr r L)" "live_cells A (set_gpr r L) = insert (CReg r) (live_cells A L)"
  using assms r64_index_below [of r]
  by (auto simp: live_wf_def set_gpr_def live_cells_def split: cell.splits)

lemma fold_set_gpr_live:
  assumes "live_wf A B L"
  shows "live_wf A B (fold set_gpr rs L) \<and> live_cells A (fold set_gpr rs L) = CReg ` set rs \<union> live_cells A L"
  using assms by (induction rs arbitrary: L) auto

lemma reset_gpr_live [simp]:
  assumes "live_wf A B L"
  shows "live_wf A B (reset_gpr r L)" "live_cells A (reset_gpr r L) = live_cells A L - {CReg r}"
  using assms r64_index_below [of r]
  by (auto simp: live_wf_def reset_gpr_def live_cells_def split: cell.splits)

lemma set_positions_grows:
  assumes "mask_wf b" "mask_size b = length xs"
  shows "mask_wf (set_positions P xs b) \<and> mask_size (set_positions P xs b) = length xs
    \<and> mask_members b \<subseteq> mask_members (set_positions P xs b)"
proof -
  have g: "mask_wf (fold (\<lambda>(k, x) b. if P x then mask_set k b else b) ys b)
      \<and> mask_size (fold (\<lambda>(k, x) b. if P x then mask_set k b else b) ys b) = mask_size b
      \<and> mask_members b \<subseteq> mask_members (fold (\<lambda>(k, x) b. if P x then mask_set k b else b) ys b)"
    if "mask_wf b" "\<forall>(k, x)\<in>set ys. k < mask_size b" for ys :: "(nat \<times> 'a) list" and b
    using that
  proof (induction ys arbitrary: b)
    case (Cons y ys)
    obtain k x where y: "y = (k, x)" by (cases y)
    let ?b = "if P x then mask_set k b else b"
    have "mask_wf ?b" "mask_size ?b = mask_size b" "mask_members b \<subseteq> mask_members ?b"
      using Cons.prems y by auto
    then show ?case using Cons.IH [of ?b] Cons.prems(2) y by auto
  qed simp
  have "\<forall>(k, x)\<in>set (enumerate 0 xs). k < mask_size b"
    using assms(2) by (auto simp: in_set_enumerate_eq)
  then show ?thesis unfolding set_positions_def using g [OF assms(1)] assms(2) by simp
qed

definition grows :: "memory_operand list \<Rightarrow> memory_operand list \<Rightarrow> liveness \<Rightarrow> liveness \<Rightarrow> bool" where
  "grows A B L L' = (live_wf A B L' \<and> live_cells A L \<subseteq> live_cells A L')"

lemma mark_involving_grows:
  assumes "live_wf A B L"
  shows "grows A B L (markAllAddressesInvolvingRegisterAsAlive A B r L)"
proof -
  let ?P = "\<lambda>m. mem_base m = r \<or> mem_index m = r"
  have "mask_wf (live_addresses64 L)" "mask_size (live_addresses64 L) = length A"
    "mask_wf (live_addresses128 L)" "mask_size (live_addresses128 L) = length B"
    using assms by (simp_all add: live_wf_def)
  note g = set_positions_grows [OF this(1,2), of ?P] set_positions_grows [OF this(3,4), of ?P]
  have sub: "k \<in> mask_members (set_positions ?P A (live_addresses64 L))" if "k \<in> mask_members (live_addresses64 L)" for k
    using that g(1) by blast
  show ?thesis
    using assms g
    by (auto simp: grows_def live_wf_def markAllAddressesInvolvingRegisterAsAlive_def live_cells_def sub split: cell.splits)
qed

lemma write_gpr_live:
  assumes "live_wf A B L"
  shows "live_wf A B (write_gpr A B r L) \<and> live_cells A L - {CReg r} \<subseteq> live_cells A (write_gpr A B r L)"
  using mark_involving_grows [of A B "reset_gpr r L" r] assms by (simp add: grows_def write_gpr_def)

lemma read_gpr_live:
  assumes "live_wf A B L"
  shows "live_wf A B (read_gpr A B r L) \<and> insert (CReg r) (live_cells A L) \<subseteq> live_cells A (read_gpr A B r L)"
  using mark_involving_grows [of A B "set_gpr r L" r] assms by (simp add: grows_def read_gpr_def)

lemma set_encoding_live:
  assumes "live_wf A B L"
  shows "live_wf A B (set_encoding m L)
    \<and> live_cells A (set_encoding m L) = {CReg (mem_base m), CReg (mem_index m)} \<union> live_cells A L"
  using set_gpr_live [OF assms, of "mem_base m"] set_gpr_live [OF set_gpr_live(1) [OF assms], of "mem_index m"]
  by (simp add: set_encoding_def insert_commute)

lemma read_memory_live:
  assumes "live_wf A B L"
  shows "live_wf A B (read_memory A B m L)
    \<and> {CMem m, CReg (mem_base m), CReg (mem_index m)} \<union> live_cells A L \<subseteq> live_cells A (read_memory A B m L)"
proof -
  let ?L1 = "case position_of m A of None \<Rightarrow> L | Some k \<Rightarrow> L\<lparr>live_addresses64 := mask_set k (live_addresses64 L)\<rparr>"
  let ?L2 = "case position_of m B of None \<Rightarrow> ?L1 | Some k \<Rightarrow> ?L1\<lparr>live_addresses128 := mask_set k (live_addresses128 ?L1)\<rparr>"
  have 1: "live_wf A B ?L1 \<and> insert (CMem m) (live_cells A L) \<subseteq> live_cells A ?L1"
    using assms position_of_nth [of m A]
    by (auto simp: live_wf_def live_cells_def split: option.splits cell.splits)
  then have "live_wf A B ?L2 \<and> live_cells A ?L2 = live_cells A ?L1"
    using position_of_nth [of m B]
    by (auto simp: live_wf_def live_cells_def split: option.splits cell.splits)
  then show ?thesis using 1 set_encoding_live [of A B ?L2 m] by (auto simp: read_memory_def Let_def)
qed

lemma visit_out_live:
  assumes "live_wf A B L" "plain_output R i x"
  shows "live_wf A B (visit_out A B x L) \<and> live_cells A L - set_option (operand_cell x) \<subseteq> live_cells A (visit_out A B x L)"
proof (cases x)
  case (OpM64 m)
  let ?L = "case position_of m A of None \<Rightarrow> L | Some k \<Rightarrow> L\<lparr>live_addresses64 := mask_reset k (live_addresses64 L)\<rparr>"
  have "live_wf A B ?L \<and> live_cells A L - {CMem m} \<subseteq> live_cells A ?L"
  proof (cases "position_of m A")
    case (Some k)
    have k: "k < length A" using position_of_nth [OF Some] by simp
    have only: "\<And>n. position_of n A = Some k \<Longrightarrow> n = m" using position_of_inj [OF _ Some] by blast
    have L: "?L = L\<lparr>live_addresses64 := mask_reset k (live_addresses64 L)\<rparr>" using Some by simp
    show ?thesis unfolding L
      using assms(1) k by (auto simp: live_wf_def live_cells_def split: cell.splits dest: only)
  qed (use assms in auto)
  then have L: "live_wf A B ?L" "live_cells A L - {CMem m} \<subseteq> live_cells A ?L" by simp_all
  show ?thesis using set_encoding_live [OF L(1), of m] L(2) OpM64 by auto
next
  case (OpR8 r)
  then show ?thesis using write_gpr_live [OF assms(1), of "containingRegister8 r"] by simp
next
  case (OpR16 r)
  then show ?thesis using write_gpr_live [OF assms(1), of "containingRegister16 r"] by simp
next
  case (OpR32 r)
  then show ?thesis using write_gpr_live [OF assms(1), of "containingRegister32 r"] by simp
next
  case (OpR64 r)
  then show ?thesis using write_gpr_live [OF assms(1), of r] by simp
qed (use assms in simp_all)

lemma visit_in_live:
  assumes "live_wf A B L" "plain_input R p x"
  shows "live_wf A B (visit_in A B x L) \<and> set (operand_cells p x) \<union> live_cells A L \<subseteq> live_cells A (visit_in A B x L)"
proof (cases x)
  case (OpM64 m)
  then show ?thesis using read_memory_live [OF assms(1), of m] by simp
next
  case (OpR8 r)
  then show ?thesis using read_gpr_live [OF assms(1), of "containingRegister8 r"] by simp
next
  case (OpR16 r)
  then show ?thesis using read_gpr_live [OF assms(1), of "containingRegister16 r"] by simp
next
  case (OpR32 r)
  then show ?thesis using read_gpr_live [OF assms(1), of "containingRegister32 r"] by simp
next
  case (OpR64 r)
  then show ?thesis using read_gpr_live [OF assms(1), of r] by simp
qed (use assms in simp_all)

definition exit_registers :: "cell set" where "exit_registers = CReg ` {RSP, RAX, RDX}"

lemma forEachImpactedRegister_fold: "forEachImpactedRegister f i a = fold f (impacted i) a"
  unfolding forEachImpactedRegister_def impacted_def fold_filter comp_def
  by (intro fold_cong) (auto simp: fun_eq_iff)

lemma fold_or: "fold (\<lambda>r b. b \<or> Q r) rs b \<longleftrightarrow> b \<or> (\<exists>r\<in>set rs. Q r)"
  by (induction rs arbitrary: b) auto

lemma live_before_live:
  assumes "live_wf A B L" "in_fragment R i"
  shows "live_wf A B (live_before A B i L)"
    and "(live_cells A L - set_option (operand_cell (out i))) \<union> set (input_cells i) \<union> exit_registers
           \<subseteq> live_cells A (live_before A B i L)"
proof -
  let ?L1 = "visit_out A B (out i) L"
  let ?M1 = "visit_in A B (in1 i) ?L1"
  let ?M2 = "visit_in A B (in2 i) ?M1"
  let ?L2 = "visit_in A B (in3 i) ?M2"
  let ?L3 = "fold set_gpr [RSP, RAX, RDX] ?L2"
  let ?L4 = "fold set_gpr (impacted i) ?L3"
  note o1 = visit_out_live [OF assms(1) fragmentD(6) [OF assms(2)]]
  note i1 = visit_in_live [OF conjunct1 [OF o1] fragmentD(3) [OF assms(2)]]
  note i2 = visit_in_live [OF conjunct1 [OF i1] fragmentD(4) [OF assms(2)]]
  note i3 = visit_in_live [OF conjunct1 [OF i2] fragmentD(5) [OF assms(2)]]
  note f3 = fold_set_gpr_live [OF conjunct1 [OF i3], of "[RSP, RAX, RDX]"]
  note f4 = fold_set_gpr_live [OF conjunct1 [OF f3], of "impacted i"]
  note f5 = fold_set_gpr_live [OF conjunct1 [OF f4], of alwaysLiveGprs]
  have b: "live_before A B i L = fold set_gpr alwaysLiveGprs ?L4"
    by (simp add: live_before_def Let_def forEachImpactedRegister_fold)
  show "live_wf A B (live_before A B i L)" unfolding b using f5 by blast
  have "live_cells A L - set_option (operand_cell (out i)) \<subseteq> live_cells A ?L1" using o1 by blast
  moreover have "set (operand_cells (op i) (in1 i)) \<union> live_cells A ?L1 \<subseteq> live_cells A ?M1" using i1 by blast
  moreover have "set (operand_cells (op i) (in2 i)) \<union> live_cells A ?M1 \<subseteq> live_cells A ?M2" using i2 by blast
  moreover have "set (operand_cells (op i) (in3 i)) \<union> live_cells A ?M2 \<subseteq> live_cells A ?L2" using i3 by blast
  moreover have "live_cells A ?L3 = exit_registers \<union> live_cells A ?L2" using f3 by (simp add: exit_registers_def)
  moreover have "live_cells A ?L4 = CReg ` set (impacted i) \<union> live_cells A ?L3" using f4 by blast
  moreover have "live_cells A ?L4 \<subseteq> live_cells A (live_before A B i L)" unfolding b using f5 by blast
  ultimately show "(live_cells A L - set_option (operand_cell (out i))) \<union> set (input_cells i) \<union> exit_registers
           \<subseteq> live_cells A (live_before A B i L)"
    unfolding input_cells_def set_append set_map by blast
qed

lemma mask_set_all_live: "mask_wf b \<Longrightarrow> k < mask_size b \<Longrightarrow> k \<in> mask_members (mask_set_all b)"
  by simp

lemma live_at_end_live:
  "live_wf A B (live_at_end A B)" "range CMem \<union> exit_registers \<subseteq> live_cells A (live_at_end A B)"
proof -
  let ?L = "\<lparr>live_gprs = mask_new 3 24, live_mmxs = mask_new 3 24, live_xmms = mask_new 3 24,
        live_addresses64 = mask_set_all (mask_new 16 (length A)),
        live_addresses128 = mask_set_all (mask_new 16 (length B))\<rparr>"
  have wf: "live_wf A B ?L" by (simp add: live_wf_def)
  have "range CMem \<subseteq> live_cells A ?L" using position_of_nth [of _ A] by auto
  then show "live_wf A B (live_at_end A B)" "range CMem \<union> exit_registers \<subseteq> live_cells A (live_at_end A B)"
    using fold_set_gpr_live [OF wf, of alwaysLiveGprs]
    by (auto simp: live_at_end_def alwaysLiveGprs_def exit_registers_def)
qed

lemma live_entries_hd: "hd (live_entries A B p) = (case p of [] \<Rightarrow> live_at_end A B | i # q \<Rightarrow> live_before A B i (hd (live_entries A B q)))"
  by (cases p) (simp_all add: Let_def)

lemma live_entries_live:
  assumes "fragment_block R p"
  shows "live_wf A B (hd (live_entries A B p)) \<and> exit_registers \<subseteq> live_cells A (hd (live_entries A B p))"
  using assms
proof (induction p)
  case Nil
  then show ?case using live_at_end_live by simp
next
  case (Cons i q)
  then have i: "in_fragment R i" and wf: "live_wf A B (hd (live_entries A B q))"
    by (simp_all add: fragment_block_def)
  show ?case using live_before_live [OF wf i] by (simp add: Let_def)
qed

section \<open>Dead code elimination\<close>

definition agree :: "cell set \<Rightarrow> machine \<Rightarrow> machine \<Rightarrow> bool" where
  "agree X s t = ((\<forall>x\<in>X. fst s x = fst t x) \<and> snd s = snd t)"

lemma agree_mono: "agree X s t \<Longrightarrow> Y \<subseteq> X \<Longrightarrow> agree Y s t"
  by (auto simp: agree_def)

lemma agree_trans: "agree X s t \<Longrightarrow> agree X t u \<Longrightarrow> agree X s u"
  by (auto simp: agree_def)

lemma agree_refl [simp]: "agree X s s"
  by (simp add: agree_def)

lemma agree_step:
  assumes "in_fragment R i" "agree X s t" "(Y - set_option (operand_cell (out i))) \<union> set (input_cells i) \<subseteq> X"
  shows "agree Y (step alu i s) (step alu i t)"
proof -
  have inputs: "\<forall>x\<in>set (input_cells i). fst s x = fst t x" "snd s = snd t"
    using assms(2,3) by (auto simp: agree_def)
  note same = step_same [OF inputs fragmentD(8) [OF assms(1)], where alu = alu]
  have "fst (step alu i s) x = fst (step alu i t) x" if "x \<in> Y" for x
  proof (rule same(2))
    show "x \<in> writes i \<or> fst s x = fst t x" using that assms(2,3) by (auto simp: agree_def writes_def)
  qed
  then show ?thesis using same(1) by (simp add: agree_def)
qed

text \<open>An instruction found removable changes nothing that is live behind it.\<close>

lemma removable_dead:
  assumes "removable A B L i" "in_fragment R i" "live_wf A B L" "exit_registers \<subseteq> live_cells A L"
  shows "\<not> sets_flags i" "writes i \<inter> live_cells A L = {}"
proof -
  have r: "\<not> canModifyFlags i" "\<forall>r\<in>set (impacted i). CReg r \<notin> live_cells A L"
    using assms(1,3) r64_index_below
    by (auto simp: removable_def forEachImpactedRegister_fold fold_or mask_test_members live_wf_def split: if_splits)
  have dead: "\<exists>x. operand_cell (out i) = Some x \<and> x \<notin> live_cells A L"
    using assms(1,3) r64_index_below position_of_nth [of _ A] fragmentD(6) [OF assms(2)]
    by (cases "out i") (auto simp: removable_def mask_test_members live_wf_def split: if_splits option.splits)
  then have "out i \<noteq> Void" by auto
  moreover have "RAX \<notin> set (impacted i)" using r(2) assms(4) by (auto simp: exit_registers_def)
  ultimately show "\<not> sets_flags i"
    using r(1) fragmentD(9,10) [OF assms(2)] by (auto simp: sets_flags_def)
  show "writes i \<inter> live_cells A L = {}" using dead r(2) by (auto simp: writes_def)
qed

lemma nths_Cons_minus: "nths (x # xs) (- S) = (if 0 \<in> S then [] else [x]) @ nths xs (- {j. Suc j \<in> S})"
proof -
  have "{j. Suc j \<in> - S} = - {j. Suc j \<in> S}" by auto
  then show ?thesis by (simp add: nths_Cons)
qed

lemma run_without_dead:
  assumes "fragment_block R p"
    and "\<And>k. k \<in> S \<Longrightarrow> k < length p \<Longrightarrow> removable A B (live_entries A B p ! Suc k) (p ! k)"
    and "agree (live_cells A (hd (live_entries A B p))) s t"
  shows "agree (range CMem \<union> exit_registers) (run alu p s) (run alu (nths p (- S)) t)"
  using assms
proof (induction p arbitrary: S s t)
  case Nil
  then show ?case using agree_mono [OF _ live_at_end_live(2)] by simp
next
  case (Cons i q)
  let ?L = "hd (live_entries A B q)" and ?S = "{j. Suc j \<in> S}"
  have i: "in_fragment R i" and q: "fragment_block R q" using Cons.prems(1) by (simp_all add: fragment_block_def)
  have L: "live_wf A B ?L" "exit_registers \<subseteq> live_cells A ?L" using live_entries_live [OF q] by blast+
  have before: "(live_cells A ?L - set_option (operand_cell (out i))) \<union> set (input_cells i)
      \<subseteq> live_cells A (live_before A B i ?L)"
    using live_before_live(2) [OF L(1) i] by blast
  have st: "agree (live_cells A (live_before A B i ?L)) s t" using Cons.prems(3) by (simp add: Let_def)
  have IH: "agree (range CMem \<union> exit_registers) (run alu q s') (run alu (nths q (- ?S)) t')"
    if "agree (live_cells A ?L) s' t'" for s' t'
  proof (rule Cons.IH [OF q _ that])
    fix k assume "k \<in> ?S" "k < length q"
    then show "removable A B (live_entries A B q ! Suc k) (q ! k)"
      using Cons.prems(2) [of "Suc k"] by (simp add: Let_def)
  qed
  show ?case
  proof (cases "0 \<in> S")
    case False
    then show ?thesis using IH [OF agree_step [OF i st before]] by (simp add: nths_Cons_minus)
  next
    case True
    have "live_entries A B (i # q) ! 1 = ?L" by (cases q) (simp_all add: Let_def)
    then have "removable A B ?L i" using Cons.prems(2) [OF True] by simp
    note dead = removable_dead [OF this i L]
    have "fst (step alu i s) x = fst t x" if "x \<in> live_cells A ?L" for x
    proof -
      have "x \<notin> writes i" using dead(2) that by blast
      then have "x \<in> live_cells A (live_before A B i ?L)" using before that by (auto simp: writes_def)
      then show ?thesis using st step_other [OF \<open>x \<notin> writes i\<close>] by (simp add: agree_def)
    qed
    moreover have "snd (step alu i s) = snd t" using st step_flags [OF dead(1)] by (simp add: agree_def)
    ultimately have "agree (live_cells A ?L) (step alu i s) t" by (simp add: agree_def)
    then show ?thesis using IH True by (simp add: nths_Cons_minus)
  qed
qed

lemma dead_code_preserves:
  assumes "fragment_block R p"
  shows "agree (range CMem \<union> exit_registers) (run alu p s) (run alu (nths p (- set (dead_positions p))) s)"
proof (rule run_without_dead [OF assms, where A = "allAddresses64 p" and B = "allAddresses128 p"])
  fix k assume "k \<in> set (dead_positions p)"
  then show "removable (allAddresses64 p) (allAddresses128 p) (live_entries (allAddresses64 p) (allAddresses128 p) p ! Suc k) (p ! k)"
    by (simp add: dead_positions_def computeLiveRegistersAndAddresses_def Let_def)
qed (simp add: agree_def)

section \<open>The whole optimizer\<close>

definition preserves :: "r64 set \<Rightarrow> ir_block \<Rightarrow> ir_block \<Rightarrow> bool" where
  "preserves B ir ir' =
     (fragment_block B (instructions ir) \<longrightarrow>
        fragment_block B (instructions ir')
        \<and> set (instructions ir') \<subseteq> set (instructions ir)
        \<and> (\<forall>alu s. agree (range CMem \<union> exit_registers) (run alu (instructions ir) s) (run alu (instructions ir') s)))"

lemma preserves_refl: "preserves B ir ir"
  by (simp add: preserves_def)

lemma preserves_trans:
  assumes "preserves B ir ir1" "preserves B ir1 ir2" shows "preserves B ir ir2"
  using assms agree_trans unfolding preserves_def by blast

lemma removal_preserves:
  assumes "good_positions f"
    and "\<And>p alu s. fragment_block B p \<Longrightarrow>
      agree (range CMem \<union> exit_registers) (run alu p s) (run alu (nths p (- set (f p))) s)"
    and "remove_and_count (f (instructions ir)) count ir stats = (did, ir', stats')"
  shows "preserves B ir ir'"
proof (cases "f (instructions ir) = []")
  case True
  then show ?thesis using assms(3) preserves_refl by (simp add: remove_and_count_def)
next
  case False
  have "distinct (f (instructions ir))" "\<forall>p\<in>set (f (instructions ir)). p < length (instructions ir)"
    using assms(1) by (auto simp: good_positions_def)
  then have ir': "instructions ir' = nths (instructions ir) (- set (f (instructions ir)))"
    using assms(3) False instructions_removed by (auto simp: remove_and_count_def)
  have "set (instructions ir') \<subseteq> set (instructions ir)" unfolding ir' by (rule set_nths_subset)
  then show ?thesis using assms(2) ir' by (auto simp: preserves_def fragment_block_def list_all_iff)
qed

lemma pass_preserves:
  assumes "pass \<in> set passes" "pass ir stats = (did, ir', stats')" shows "preserves B ir ir'"
proof -
  have copy: "agree (range CMem \<union> exit_registers) (run alu p s) (run alu (nths p (- set (f p))) s)"
    if "f \<in> {immediate_positions, delayed_positions 0, duplicate_positions 0}" "fragment_block B p" for f p alu s
    using copy_passes_preserve [OF that(2,1)] by simp
  from assms(1) consider "pass = deadCodeElimination" | "pass = immediateReadBackElimination"
    | "pass = delayedReadBackElimination" | "pass = duplicateInstructionElimination"
    by (auto simp: passes_def)
  then show ?thesis
  proof cases
    case 1
    then show ?thesis using assms(2) unfolding deadCodeElimination_def
      by (intro removal_preserves [OF good_passes(1) dead_code_preserves]) simp_all
  next
    case 2
    then show ?thesis using assms(2) unfolding immediateReadBackElimination_def
      by (intro removal_preserves [OF good_passes(2) copy [where f = "immediate_positions"]]) simp_all
  next
    case 3
    then show ?thesis using assms(2) unfolding delayedReadBackElimination_def
      by (intro removal_preserves [OF good_passes(3) copy [where f = "delayed_positions 0"]]) simp_all
  next
    case 4
    then show ?thesis using assms(2) unfolding duplicateInstructionElimination_def
      by (intro removal_preserves [OF good_passes(4) copy [where f = "duplicate_positions 0"]]) simp_all
  qed
qed

lemma run_passes_preserves:
  assumes "set ps \<subseteq> set passes" "run_passes ps ir stats = (did, ir', stats')" shows "preserves B ir ir'"
  using assms
proof (induction ps arbitrary: ir stats did ir' stats')
  case Nil
  then show ?case using preserves_refl by simp
next
  case (Cons pass ps)
  obtain d1 ir1 s1 where 1: "pass ir stats = (d1, ir1, s1)" by (cases "pass ir stats") auto
  obtain d2 ir2 s2 where 2: "run_passes ps ir1 s1 = (d2, ir2, s2)" by (cases "run_passes ps ir1 s1") auto
  have "preserves B ir ir1" using pass_preserves [where pass = pass, OF _ 1] Cons.prems(1) by simp
  moreover have "preserves B ir1 ir2" using Cons.IH [OF _ 2] Cons.prems(1) by simp
  ultimately show ?case using Cons.prems(2) 1 2 preserves_trans by auto
qed

lemma optimize_loop_preserves: "preserves B ir (fst (optimize_loop ir stats))"
proof (induction ir stats rule: optimize_loop.induct)
  case (1 ir stats)
  obtain did ir1 s1 where r: "run_passes passes ir stats = (did, ir1, s1)"
    by (cases "run_passes passes ir stats") auto
  have one: "preserves B ir ir1" by (rule run_passes_preserves [OF order_refl r])
  show ?case
  proof (cases did)
    case True
    then have "preserves B ir1 (fst (optimize_loop ir1 s1))" using 1 r by auto
    then show ?thesis using r True preserves_trans [OF one] by (simp add: optimize_loop.simps [of ir])
  next
    case False
    then show ?thesis using r one by (simp add: optimize_loop.simps [of ir])
  qed
qed

lemma optimize_preserves: "preserves B ir (fst (optimize ir stats))"
  using optimize_loop_preserves [of B ir stats] by (simp add: optimize_def Let_def split_beta)

end
