(* ===== verification/X64_OptimizerHost.thy ===== *)
theory X64_OptimizerHost
  imports X64_OptimizerSem X64_Lanes
begin

text \<open>
  The same blocks on the machine that runs them: registers, bytes of memory and flags. A memory
  operand is eight bytes, little-endian, at the address its base register and displacement give.
  The cells of \<open>X64_OptimizerSem\<close> are an abstraction of this machine as long as operands with
  different bases stay apart, and the theorem about the optimizer carries over to every byte.
\<close>

record host =
  host_gprs :: "r64 \<Rightarrow> u64"
  host_bytes :: "u64 \<Rightarrow> u8"
  host_flags :: flags

definition reg :: "host \<Rightarrow> r64 \<Rightarrow> u64" where
  "reg h r = (if r = ZERO then 0 else host_gprs h r)"

definition address :: "host \<Rightarrow> memory_operand \<Rightarrow> u64" where
  "address h m = reg h (mem_base m) + ucast (mem_scale m) * reg h (mem_index m) + scast (mem_disp m)"

definition load64 :: "(u64 \<Rightarrow> u8) \<Rightarrow> u64 \<Rightarrow> u64" where
  "load64 b a = join_lanes (map (\<lambda>i. b (a + word_of_nat i)) [0..<8])"

definition store64 :: "u64 \<Rightarrow> u64 \<Rightarrow> (u64 \<Rightarrow> u8) \<Rightarrow> u64 \<Rightarrow> u8" where
  "store64 a v b = (\<lambda>x. if unat (x - a) < 8 then (split_lanes v :: u8 list) ! unat (x - a) else b x)"

fun host_cell :: "host \<Rightarrow> cell \<Rightarrow> u64" where
  "host_cell h (CReg r) = reg h r"
| "host_cell h (CMem m) = load64 (host_bytes h) (address h m)"

definition host_step :: "alu \<Rightarrow> ir_instruction \<Rightarrow> host \<Rightarrow> host" where
  "host_step alu i h =
     (let (v, w, f) = compute alu i (host_cell h, host_flags h)
      in \<lparr>host_gprs = (\<lambda>r. if operand_cell (out i) = Some (CReg r) then v
                           else if r \<in> set (impacted i) then w r else host_gprs h r),
          host_bytes = (case out i of OpM64 m \<Rightarrow> store64 (address h m) v (host_bytes h) | _ \<Rightarrow> host_bytes h),
          host_flags = (if sets_flags i then f else host_flags h)\<rparr>)"

definition host_run :: "alu \<Rightarrow> ir_instruction list \<Rightarrow> host \<Rightarrow> host" where
  "host_run alu p h = fold (host_step alu) p h"

text \<open>The memory operands of a block and the bytes each stands for.\<close>

definition operand_slots :: "ir_instruction \<Rightarrow> memory_operand set" where
  "operand_slots i = {m. CMem m \<in> set (input_cells i) \<or> operand_cell (out i) = Some (CMem m)}"

definition slots :: "ir_instruction list \<Rightarrow> memory_operand set" where
  "slots p = (\<Union>i\<in>set p. operand_slots i)"

definition slot :: "u64 \<Rightarrow> u64 set" where
  "slot a = {x. unat (x - a) < 8}"

definition bases_apart :: "host \<Rightarrow> memory_operand set \<Rightarrow> bool" where
  "bases_apart h M = (\<forall>m\<in>M. \<forall>m'\<in>M. mem_base m \<noteq> mem_base m' \<longrightarrow>
     slot (address h m) \<inter> slot (address h m') = {})"

section \<open>Loads and stores\<close>

lemma unat_below_8: "i < 8 \<Longrightarrow> unat (word_of_nat i :: u64) = i"
  by (simp add: unat_of_nat)

lemma slot_offset: "i < 8 \<Longrightarrow> a + word_of_nat i \<in> slot a"
  by (simp add: slot_def unat_below_8)

lemma load64_cong: "(\<And>x. x \<in> slot a \<Longrightarrow> b x = b' x) \<Longrightarrow> load64 b a = load64 b' a"
  unfolding load64_def using slot_offset [of _ a] by (intro arg_cong [where f = join_lanes] map_cong) auto

lemma load64_store64: "load64 (store64 a v b) a = v"
proof -
  have "map (\<lambda>i. store64 a v b (a + word_of_nat i)) [0..<8] = (split_lanes v :: u8 list)"
    by (rule nth_equalityI) (simp_all add: store64_def unat_below_8)
  then show ?thesis by (simp add: load64_def join_split_lanes)
qed

lemma load64_bytes:
  assumes "load64 b a = load64 b' a" "x \<in> slot a" shows "b x = b' x"
proof -
  have split: "split_lanes (load64 b a) = map (\<lambda>i. b (a + word_of_nat i)) [0..<8]" for b
    unfolding load64_def by (rule split_join_lanes) simp_all
  have x: "unat (x - a) < 8" "a + word_of_nat (unat (x - a)) = x" using assms(2) by (simp_all add: slot_def)
  have "map (\<lambda>i. b (a + word_of_nat i)) [0..<8] = map (\<lambda>i. b' (a + word_of_nat i)) [0..<8]"
    using split [of b] split [of b'] assms(1) by simp
  then have "map (\<lambda>i. b (a + word_of_nat i)) [0..<8] ! unat (x - a) = map (\<lambda>i. b' (a + word_of_nat i)) [0..<8] ! unat (x - a)"
    by (rule arg_cong)
  then show ?thesis using x by simp
qed

lemma store64_outside: "x \<notin> slot a \<Longrightarrow> store64 a v b x = b x"
  by (simp add: store64_def slot_def)

lemma dvd_small: "(n :: int) dvd k \<Longrightarrow> \<bar>k\<bar> < n \<Longrightarrow> k = 0"
  using dvd_imp_le_int [of k n] by linarith

lemma difference_small:
  fixes u v e :: int
  assumes "0 \<le> u" "u < 8" "0 \<le> v" "v < 8" "\<bar>e\<bar> < 2 ^ 33"
  shows "\<bar>(v - u) - e\<bar> < 2 ^ 64"
proof -
  have "\<bar>e\<bar> < 8589934592" using assms(5) by simp
  then have "\<bar>(v - u) - e\<bar> < 18446744073709551616" using assms(1-4) by linarith
  then show ?thesis by simp
qed

text \<open>Two slots of one base are the same or eight or more bytes apart.\<close>

lemma uint_below_8: "unat (w :: u64) < 8 \<Longrightarrow> uint w < 8"
  unfolding uint_nat by linarith

lemma word_of_uint_diff: "word_of_int (uint v - uint u) = v - (u :: u64)"
  by simp

lemma slots_disjoint:
  fixes d d' :: int
  assumes "d mod 8 = 0" "d' mod 8 = 0" "d \<noteq> d'" "\<bar>d - d'\<bar> < 2 ^ 33"
  shows "slot (a + word_of_int d) \<inter> slot (a + word_of_int d') = {}"
proof (rule ccontr)
  assume "\<not> ?thesis"
  then obtain x where x: "unat (x - (a + word_of_int d)) < 8" "unat (x - (a + word_of_int d')) < 8"
    by (auto simp: slot_def)
  let ?u = "x - (a + word_of_int d)" and ?v = "x - (a + word_of_int d')"
  have small: "0 \<le> uint ?u" "uint ?u < 8" "0 \<le> uint ?v" "uint ?v < 8"
    by (rule uint_ge_0 uint_below_8 [OF x(1)] uint_below_8 [OF x(2)])+
  have "?v - ?u = word_of_int (d - d')" by (simp add: algebra_simps)
  then have "(word_of_int (uint ?v - uint ?u) :: u64) = word_of_int (d - d')" by (simp only: word_of_uint_diff)
  then have "take_bit 64 (uint ?v - uint ?u) = take_bit 64 (d - d')" by (simp only: word_of_int_eq_iff) simp
  then have "(2 ^ 64 :: int) dvd (uint ?v - uint ?u) - (d - d')" by (simp add: take_bit_eq_mod mod_eq_dvd_iff)
  moreover have "\<bar>(uint ?v - uint ?u) - (d - d')\<bar> < 2 ^ 64" by (rule difference_small [OF small assms(4)])
  ultimately have "(uint ?v - uint ?u) - (d - d') = 0" by (rule dvd_small)
  then have "\<bar>d - d'\<bar> < 8" using small by linarith
  moreover have "(8 :: int) dvd d - d'" using assms(1,2) by (simp add: mod_eq_dvd_iff [symmetric])
  ultimately have "d - d' = 0" by (intro dvd_small)
  then show False using assms(3) by simp
qed

section \<open>The cells abstract the machine\<close>

definition sim :: "memory_operand set \<Rightarrow> machine \<Rightarrow> host \<Rightarrow> bool" where
  "sim M s h =
     ((\<forall>r. fst s (CReg r) = reg h r) \<and> (\<forall>m\<in>M. fst s (CMem m) = host_cell h (CMem m)) \<and> snd s = host_flags h)"

lemma fragment_slots: "in_fragment B i \<Longrightarrow> m \<in> operand_slots i \<Longrightarrow> plain_slot B m"
proof -
  assume i: "in_fragment B i" and m: "m \<in> operand_slots i"
  have "plain_slot B m" if "CMem m \<in> set (operand_cells p x)" "plain_input B p x" for p x
    using that by (cases x) (auto split: if_splits)
  moreover have "plain_slot B m" if "operand_cell x = Some (CMem m)" "plain_output B i x" for x
    using that by (cases x) auto
  ultimately show ?thesis
    using m fragmentD(3-6) [OF i] by (auto simp: operand_slots_def input_cells_def)
qed

lemma plain_address:
  assumes "plain_slot B m" shows "address h m = reg h (mem_base m) + scast (mem_disp m)"
  using assms by (simp add: plain_slot_def address_def reg_def)

lemma step_registers:
  "reg (host_step alu i h) r = (if r = ZERO then 0 else fst (step alu i (host_cell h, host_flags h)) (CReg r))"
  by (simp add: host_step_def step_def reg_def Let_def split_beta)

lemma base_kept:
  assumes "in_fragment B i" "r \<in> B" shows "reg (host_step alu i h) r = reg h r"
proof -
  have "CReg r \<notin> writes i"
    using fragmentD(6,7) [OF assms(1)] assms(2)
    by (cases "out i") (auto simp: writes_def plain_register_def list_all_iff)
  then show ?thesis by (simp add: step_registers step_other) (simp add: reg_def)
qed

lemma address_kept:
  assumes "in_fragment B i" "plain_slot B m" shows "address (host_step alu i h) m = address h m"
  using base_kept [OF assms(1), of "mem_base m"] assms(2)
  by (simp add: plain_address [OF assms(2)]) (simp add: plain_slot_def)

lemma plain_slots_apart:
  assumes "plain_slot B m" "plain_slot B m'" "m \<noteq> m'" "bases_apart h M" "m \<in> M" "m' \<in> M"
  shows "slot (address h m) \<inter> slot (address h m') = {}"
proof (cases "mem_base m = mem_base m'")
  case True
  then have "mem_disp m \<noteq> mem_disp m'"
    using assms(1-3) by (auto simp: plain_slot_def intro!: memory_operand.equality encoding64.equality)
  then have "sint (mem_disp m) \<noteq> sint (mem_disp m')" using signed_word_eqI by blast
  moreover have "\<bar>sint d - sint d'\<bar> < 2 ^ 33" for d d' :: "32 word"
    using sint_greater_eq [of d] sint_less [of d] sint_greater_eq [of d'] sint_less [of d'] by simp
  moreover have "sint (mem_disp m) mod 8 = 0" "sint (mem_disp m') mod 8 = 0"
    using assms(1,2) by (simp_all add: plain_slot_def)
  ultimately show ?thesis
    unfolding plain_address [OF assms(1)] plain_address [OF assms(2)] True scast_eq
    by (intro slots_disjoint)
next
  case False
  then show ?thesis using assms(4-6) by (simp add: bases_apart_def)
qed

lemma host_bytes_step:
  "host_bytes (host_step alu i h) =
     (case operand_cell (out i) of
        Some (CMem m) \<Rightarrow> store64 (address h m) (fst (compute alu i (host_cell h, host_flags h))) (host_bytes h)
      | _ \<Rightarrow> host_bytes h)"
  by (cases "out i") (simp_all add: host_step_def Let_def split_beta)

lemma sim_step:
  assumes "in_fragment B i" "operand_slots i \<subseteq> M" "\<forall>m\<in>M. plain_slot B m" "bases_apart h M" "sim M s h"
  shows "sim M (step alu i s) (host_step alu i h)"
proof -
  let ?t = "(host_cell h, host_flags h)"
  have cells: "fst s x = fst ?t x" if "\<forall>m. x = CMem m \<longrightarrow> m \<in> M" for x
    using assms(5) that by (cases x) (auto simp: sim_def)
  have "\<forall>x\<in>set (input_cells i). fst s x = fst ?t x"
  proof
    fix x assume "x \<in> set (input_cells i)"
    then have "\<forall>m. x = CMem m \<longrightarrow> m \<in> M" using assms(2) by (auto simp: operand_slots_def)
    then show "fst s x = fst ?t x" by (rule cells)
  qed
  moreover have flags: "snd s = snd ?t" using assms(5) by (simp add: sim_def)
  ultimately have same: "compute alu i s = compute alu i ?t"
    using fragmentD(8) [OF assms(1)] by (rule compute_same)
  have regs: "fst (step alu i s) (CReg r) = reg (host_step alu i h) r" for r
  proof (cases "r = ZERO")
    case True
    have "CReg ZERO \<notin> writes i"
      using fragmentD(6,7) [OF assms(1)]
      by (cases "out i") (auto simp: writes_def plain_register_def list_all_iff)
    then show ?thesis using True cells [of "CReg ZERO"] by (simp add: step_registers step_other reg_def)
  next
    case False
    then show ?thesis using cells [of "CReg r"] by (simp add: step_registers) (simp add: step_def same Let_def split_beta)
  qed
  have mem: "fst (step alu i s) (CMem m) = host_cell (host_step alu i h) (CMem m)" if m: "m \<in> M" for m
  proof -
    have addr: "address (host_step alu i h) m = address h m" using address_kept [OF assms(1)] assms(3) m by blast
    show ?thesis
    proof (cases "operand_cell (out i) = Some (CMem m)")
      case True
      then show ?thesis by (simp add: addr host_bytes_step load64_store64 step_def same Let_def split_beta)
    next
      case False
      have "load64 (host_bytes (host_step alu i h)) (address h m) = load64 (host_bytes h) (address h m)"
      proof (rule load64_cong)
        fix x assume x: "x \<in> slot (address h m)"
        show "host_bytes (host_step alu i h) x = host_bytes h x"
        proof (cases "\<exists>n. operand_cell (out i) = Some (CMem n)")
          case True
          then obtain n where n: "operand_cell (out i) = Some (CMem n)" by blast
          then have "n \<in> M" "n \<noteq> m" using assms(2) False by (auto simp: operand_slots_def)
          then have "x \<notin> slot (address h n)"
            using plain_slots_apart [of B m n h M] assms(3,4) m x by blast
          then show ?thesis using n by (simp add: host_bytes_step store64_outside)
        next
          case False
          then show ?thesis by (auto simp: host_bytes_step split: option.splits cell.splits)
        qed
      qed
      moreover have "CMem m \<notin> writes i" using False by (auto simp: writes_def)
      ultimately show ?thesis using cells [of "CMem m"] m by (simp add: addr step_other)
    qed
  qed
  have "snd (step alu i s) = host_flags (host_step alu i h)"
    using flags by (simp add: step_def host_step_def same Let_def split_beta)
  then show ?thesis using regs mem by (simp add: sim_def)
qed

lemma host_run_simps [simp]:
  "host_run alu [] h = h" "host_run alu (i # p) h = host_run alu p (host_step alu i h)"
  by (simp_all add: host_run_def)

text \<open>A block keeps the base registers, touches no byte outside its slots, and simulates the cells.\<close>

lemma host_run_sim:
  assumes "fragment_block B p" "slots p \<subseteq> M" "\<forall>m\<in>M. plain_slot B m" "bases_apart h M" "sim M s h"
  shows "sim M (run alu p s) (host_run alu p h)
    \<and> (\<forall>m\<in>M. address (host_run alu p h) m = address h m)
    \<and> (\<forall>x. x \<notin> (\<Union>m\<in>M. slot (address h m)) \<longrightarrow> host_bytes (host_run alu p h) x = host_bytes h x)"
  using assms
proof (induction p arbitrary: s h)
  case (Cons i p)
  let ?h = "host_step alu i h"
  have i: "in_fragment B i" "fragment_block B p" "operand_slots i \<subseteq> M" "slots p \<subseteq> M"
    using Cons.prems(1,2) by (simp_all add: fragment_block_def slots_def)
  have addr: "\<forall>m\<in>M. address ?h m = address h m" using address_kept [OF i(1)] Cons.prems(3) by blast
  then have apart: "bases_apart ?h M" using Cons.prems(4) by (simp add: bases_apart_def)
  have outside: "host_bytes ?h x = host_bytes h x" if x: "x \<notin> (\<Union>m\<in>M. slot (address h m))" for x
  proof (cases "\<exists>n. operand_cell (out i) = Some (CMem n)")
    case True
    then obtain n where n: "operand_cell (out i) = Some (CMem n)" by blast
    then have "n \<in> M" using i(3) by (auto simp: operand_slots_def)
    then show ?thesis using n x by (simp add: host_bytes_step store64_outside)
  next
    case False
    then show ?thesis by (auto simp: host_bytes_step split: option.splits cell.splits)
  qed
  have "sim M (step alu i s) ?h" by (rule sim_step [OF i(1,3) Cons.prems(3-5)])
  note IH = Cons.IH [OF i(2,4) Cons.prems(3) apart this]
  have "(\<Union>m\<in>M. slot (address ?h m)) = (\<Union>m\<in>M. slot (address h m))" using addr by simp
  then show ?case using IH addr outside by simp
qed simp

lemma sim_initial: "sim M (host_cell h, host_flags h) h"
  by (simp add: sim_def)

text \<open>
  C40. For every straight-line block of the fragment the optimizer's result computes the same as the
  block, on the machine: the same flags, the same value of every byte of memory and of the registers
  the code behind the block reads. It holds for every meaning \<open>alu\<close> of the instructions that are not
  moves, and from every state in which operands with different bases do not overlap.
\<close>

theorem optimizer_preserves:
  fixes ir stats alu h
  defines "before \<equiv> host_run alu (instructions ir) h"
  defines "after \<equiv> host_run alu (instructions (fst (optimize ir stats))) h"
  assumes "fragment_block B (instructions ir)" "bases_apart h (slots (instructions ir))"
  shows "host_bytes after = host_bytes before \<and> host_flags after = host_flags before
    \<and> reg after RSP = reg before RSP \<and> reg after RAX = reg before RAX \<and> reg after RDX = reg before RDX"
proof -
  let ?p = "instructions ir" and ?q = "instructions (fst (optimize ir stats))"
  let ?M = "slots ?p" and ?s = "(host_cell h, host_flags h)"
  have q: "fragment_block B ?q" "set ?q \<subseteq> set ?p"
    and same: "agree (range CMem \<union> exit_registers) (run alu ?p ?s) (run alu ?q ?s)"
    using optimize_preserves [of B ir stats] assms(3) by (auto simp: preserves_def)
  have M: "slots ?q \<subseteq> ?M" using q(2) by (auto simp: slots_def)
  have plain: "\<forall>m\<in>?M. plain_slot B m"
    using fragment_slots assms(3) by (auto simp: slots_def fragment_block_def list_all_iff)
  note P = host_run_sim [OF assms(3) order_refl plain assms(4) sim_initial, of alu]
  note Q = host_run_sim [OF q(1) M plain assms(4) sim_initial, of alu]
  have bytes: "host_bytes after x = host_bytes before x" for x
  proof (cases "x \<in> (\<Union>m\<in>?M. slot (address h m))")
    case True
    then obtain m where m: "m \<in> ?M" "x \<in> slot (address h m)" by blast
    have "fst (run alu ?q ?s) (CMem m) = fst (run alu ?p ?s) (CMem m)" using same by (simp add: agree_def)
    then have "load64 (host_bytes after) (address h m) = load64 (host_bytes before) (address h m)"
      using P Q m(1) by (simp add: sim_def before_def after_def)
    then show ?thesis using m(2) by (rule load64_bytes)
  next
    case False
    then show ?thesis using P Q by (simp add: before_def after_def)
  qed
  have regs: "reg after r = reg before r" if "CReg r \<in> exit_registers" for r
  proof -
    have "fst (run alu ?q ?s) (CReg r) = fst (run alu ?p ?s) (CReg r)"
      using same that by (simp add: agree_def)
    then show ?thesis using P Q by (simp add: sim_def before_def after_def)
  qed
  have "host_flags after = host_flags before"
    using P Q same by (simp add: sim_def agree_def before_def after_def)
  then show ?thesis using bytes regs by (simp add: exit_registers_def fun_eq_iff)
qed

text \<open>A block that reads a guest register, adds to it, writes it back and reads it again.\<close>

definition guest_slot :: "r64 \<Rightarrow> 32 word \<Rightarrow> memory_operand" where
  "guest_slot b d = \<lparr>mem_segment = SEG_CS,
     mem_encoding = \<lparr>base64 = b, index64 = ZERO, scale64 = 1, displacement64 = d\<rparr>\<rparr>"

definition sample_block :: ir_block where
  "sample_block = \<lparr>instructions =
     [new_instruction OP_MOV (OpR64 R8) (OpM64 (guest_slot RSI 0)) Void Void,
      new_instruction OP_ADD (OpR64 R8) (OpR64 R8) (ImmU32 5) Void,
      new_instruction OP_MOV (OpM64 (guest_slot RSI 8)) (OpR64 R8) Void Void,
      new_instruction OP_MOV (OpR64 R8) (OpM64 (guest_slot RSI 8)) Void Void,
      new_instruction OP_MOV (OpM64 (guest_slot R11 0)) (OpR64 R8) Void Void],
     labels = [], jumpLanding = None, jumpToNext = None, jumpToOther = None, pushCallstack = None,
     popCallstack = None\<rparr>"

definition sample_alu :: alu where
  "sample_alu i vs f = (sum_list vs + 5, \<lambda>_. 0, f)"

definition sample_host :: host where
  "sample_host = \<lparr>host_gprs = (\<lambda>r. if r = RSI then 0x1000 else if r = R11 then 0x2000 else 0),
     host_bytes = (\<lambda>x. ucast x), host_flags = flags_init\<rparr>"

lemma impacted_new [simp]: "impacted (new_instruction p o0 i1 i2 i3) = []"
  unfolding impacted_def by code_simp

lemma new_instruction_simps [simp]:
  "op (new_instruction p o0 i1 i2 i3) = p" "out (new_instruction p o0 i1 i2 i3) = o0"
  "in1 (new_instruction p o0 i1 i2 i3) = i1" "in2 (new_instruction p o0 i1 i2 i3) = i2"
  "in3 (new_instruction p o0 i1 i2 i3) = i3"
  by (simp_all add: new_instruction_def)

lemma sample_fragment: "fragment_block {RSI, R11} (instructions sample_block)"
  by (simp add: fragment_block_def sample_block_def in_fragment_def scalar_ops_def full_mov_def
      plain_slot_def guest_slot_def plain_register_def)

lemma sample_apart: "bases_apart sample_host (slots (instructions sample_block))"
proof -
  have apart: "slot 0x1000 \<inter> slot 0x2000 = {}" "slot 0x1008 \<inter> slot 0x2000 = {}"
    using slots_disjoint [where d = 0 and d' = 4096 and a = 4096]
      slots_disjoint [where d = 8 and d' = 4096 and a = 4096] by simp_all
  have "slots (instructions sample_block) = {guest_slot RSI 0, guest_slot RSI 8, guest_slot R11 0}"
    by (auto simp: slots_def sample_block_def operand_slots_def input_cells_def)
  then show ?thesis using apart
    by (auto simp: bases_apart_def guest_slot_def address_def reg_def sample_host_def)
qed

lemma sample_readback: "immediate_positions (instructions sample_block) = [3]"
  by code_simp

theorem optimizer_preserves_witness:
  "host_bytes (host_run sample_alu (instructions (fst (optimize sample_block no_stats))) sample_host)
     = host_bytes (host_run sample_alu (instructions sample_block) sample_host)
   \<and> immediate_positions (instructions sample_block) = [3]"
  using optimizer_preserves [OF sample_fragment sample_apart, of sample_alu no_stats] sample_readback by blast

end
