(* ===== verification/X64_Files.thy ===== *)
theory X64_Files
  imports X64_Mmu
begin

text \<open>
  The emulated files that live in the emulator itself: pipes, event counters, epoll instances and
  memory files, the open file descriptions that refer to them and the descriptor tables of the
  processes. Sources: \<^verbatim>\<open>emulator/src/kernel/linux/fs/\<close> with \<^verbatim>\<open>pipe.cpp\<close>,
  \<^verbatim>\<open>event.cpp\<close>, \<^verbatim>\<open>epoll.cpp\<close>, \<^verbatim>\<open>shadowfile.cpp\<close>,
  \<^verbatim>\<open>openfiledescription.h\<close> and the classes \<^verbatim>\<open>FileDescriptors\<close> and
  \<^verbatim>\<open>FS\<close> of \<^verbatim>\<open>fs.cpp\<close>.

  A \<^verbatim>\<open>File*\<close>, \<^verbatim>\<open>Pipe*\<close> or \<^verbatim>\<open>OpenFileDescription*\<close> is a number; following one
  is a lookup that fails with \<open>DanglingPointer\<close> once the object is gone. An open file
  description is owned by the descriptors that share it: \<open>ofd_uses\<close> is the use count of its
  \<^verbatim>\<open>shared_ptr\<close>. The directory tree and the files backed by the host are not
  modelled, so every file here is one of \<^verbatim>\<open>orphanFiles_\<close>.
\<close>

section \<open>Results of file operations\<close>

datatype 'a errno_or = Errno int | Value 'a

datatype 'a block_or = Blocking | Ready 'a

definition EBADF :: int where "EBADF = 9"
definition EAGAIN :: int where "EAGAIN = 11"
definition EINVAL :: int where "EINVAL = 22"
definition ESPIPE :: int where "ESPIPE = 29"

type_synonym buffer = "u8 list"
type_synonym read_result = "buffer errno_or block_or"

section \<open>State\<close>

datatype pipe_side = ReadSide | WriteSide

record epoll_entry =
  entry_ofd :: "nat option"
  entry_event :: u32
  entry_data :: u64

datatype file_kind =
    PipeEndpoint pipe_side nat
  | EventFile u64
  | EpollFile "epoll_entry list"
  | ShadowFile buffer

record fs_file =
  fkind :: file_kind
  refCount :: nat
  deleteAfterClose :: bool

record pipe =
  pipe_data :: buffer
  readEndpoints :: "nat list"
  writeEndpoints :: "nat list"
  pipe_closed :: bool

datatype file_lock = LockNone | LockShared | LockExclusive

text \<open>\<^verbatim>\<open>off_t\<close> is a 64-bit signed integer: a word read by \<open>sint\<close>.\<close>

record open_file =
  ofd_file :: nat
  ofd_offset :: u64
  accessMode :: bit_flags
  statusFlags :: bit_flags
  ofd_lock :: file_lock
  ofd_uses :: nat

record fs =
  files :: "nat \<Rightarrow> fs_file option"
  pipes :: "nat \<Rightarrow> pipe option"
  ofds :: "nat \<Rightarrow> open_file option"
  nextFile :: nat
  nextPipe :: nat
  nextOfd :: nat

definition fs_init :: fs where
  "fs_init = \<lparr>files = (\<lambda>_. None), pipes = (\<lambda>_. None), ofds = (\<lambda>_. None),
              nextFile = 0, nextPipe = 0, nextOfd = 0\<rparr>"

record file_descriptor =
  fd_ofd :: nat
  closeOnExec :: bool

type_synonym fd_table = "file_descriptor option list"

definition ACCESS_READ :: bit_flags where "ACCESS_READ = 1"
definition ACCESS_WRITE :: bit_flags where "ACCESS_WRITE = 2"
definition STATUS_APPEND :: bit_flags where "STATUS_APPEND = 1"
definition STATUS_NONBLOCK :: bit_flags where "STATUS_NONBLOCK = 128"

definition flag_remove :: "bit_flags \<Rightarrow> bit_flags \<Rightarrow> bit_flags" where
  "flag_remove flags flag = flags AND NOT flag"

definition get_file :: "nat \<Rightarrow> fs \<Rightarrow> fs_file result" where
  "get_file f s = (case files s f of None \<Rightarrow> Inl DanglingPointer | Some x \<Rightarrow> Inr x)"

definition put_file :: "nat \<Rightarrow> fs_file \<Rightarrow> fs \<Rightarrow> fs" where
  "put_file f x s = s\<lparr>files := (files s)(f \<mapsto> x)\<rparr>"

definition get_pipe :: "nat \<Rightarrow> fs \<Rightarrow> pipe result" where
  "get_pipe p s = (case pipes s p of None \<Rightarrow> Inl DanglingPointer | Some x \<Rightarrow> Inr x)"

definition put_pipe :: "nat \<Rightarrow> pipe \<Rightarrow> fs \<Rightarrow> fs" where
  "put_pipe p x s = s\<lparr>pipes := (pipes s)(p \<mapsto> x)\<rparr>"

definition get_ofd :: "nat \<Rightarrow> fs \<Rightarrow> open_file result" where
  "get_ofd d s = (case ofds s d of None \<Rightarrow> Inl DanglingPointer | Some x \<Rightarrow> Inr x)"

definition put_ofd :: "nat \<Rightarrow> open_file \<Rightarrow> fs \<Rightarrow> fs" where
  "put_ofd d x s = s\<lparr>ofds := (ofds s)(d \<mapsto> x)\<rparr>"

section \<open>Pipes\<close>

definition pipe_canRead :: "pipe \<Rightarrow> bool" where
  "pipe_canRead p = (pipe_data p \<noteq> [])"

definition pipe_canWrite :: "pipe \<Rightarrow> bool" where
  "pipe_canWrite p = True"

definition pipe_read :: "bool \<Rightarrow> nat \<Rightarrow> pipe \<Rightarrow> read_result \<times> pipe" where
  "pipe_read nonBlocking sz p =
     (if pipe_data p = []
      then (if nonBlocking
            then (if writeEndpoints p = [] then Ready (Value []) else Ready (Errno (- EAGAIN)))
            else (if writeEndpoints p = [] then Ready (Value []) else Blocking), p)
      else let readSize = min sz (length (pipe_data p))
           in (Ready (Value (take readSize (pipe_data p))), p\<lparr>pipe_data := drop readSize (pipe_data p)\<rparr>))"

definition pipe_write :: "buffer \<Rightarrow> pipe \<Rightarrow> int \<times> pipe" where
  "pipe_write buf p = (int (length buf), p\<lparr>pipe_data := pipe_data p @ buf\<rparr>)"

definition pipe_close :: "pipe \<Rightarrow> pipe result" where
  "pipe_close p =
     rbind (verify (readEndpoints p = [])) (\<lambda>_.
     rbind (verify (writeEndpoints p = [])) (\<lambda>_.
     Inr (p\<lparr>pipe_closed := True\<rparr>)))"

definition closedEndpoint :: "nat \<Rightarrow> pipe \<Rightarrow> pipe result" where
  "closedEndpoint endpoint p =
     (let p = p\<lparr>readEndpoints := filter (\<lambda>e. e \<noteq> endpoint) (readEndpoints p)\<rparr>;
          p = p\<lparr>writeEndpoints := filter (\<lambda>e. e \<noteq> endpoint) (writeEndpoints p)\<rparr>
      in if readEndpoints p = [] \<and> writeEndpoints p = [] then pipe_close p else Inr p)"

section \<open>Event counters\<close>

definition event_canRead :: "u64 \<Rightarrow> bool" where
  "event_canRead counter = (counter > 0)"

definition event_canWrite :: "u64 \<Rightarrow> bool" where
  "event_canWrite counter = (counter < -2)"

definition event_read :: "bool \<Rightarrow> nat \<Rightarrow> u64 \<Rightarrow> (buffer errno_or \<times> u64) result" where
  "event_read nonBlocking sz counter =
     (if sz < 8 then Inr (Errno (- EINVAL), counter)
      else if counter = 0
      then (if nonBlocking then Inr (Errno (- EAGAIN), counter) else Inl VerifyFailed)
      else Inr (Value (split_lanes counter), 0))"

definition event_write :: "buffer \<Rightarrow> u64 \<Rightarrow> (int \<times> u64) result" where
  "event_write buf counter =
     (if length buf < 8 then Inr (- EINVAL, counter)
      else let v = join_lanes (take 8 buf)
           in if v = -1 then Inr (- EINVAL, counter)
              else rbind (verify (v < -2 - counter)) (\<lambda>_. Inr (8, counter + v)))"

section \<open>Epoll interest lists\<close>

definition addEntry :: "nat option \<Rightarrow> u32 \<Rightarrow> u64 \<Rightarrow> epoll_entry list \<Rightarrow> epoll_entry list result" where
  "addEntry d event data entries =
     rbind (verify (list_all (\<lambda>e. entry_ofd e \<noteq> d) entries)) (\<lambda>_.
     Inr (entries @ [\<lparr>entry_ofd = d, entry_event = event, entry_data = data\<rparr>]))"

fun change_first :: "nat option \<Rightarrow> u32 \<Rightarrow> u64 \<Rightarrow> epoll_entry list \<Rightarrow> epoll_entry list option" where
  "change_first d event data [] = None"
| "change_first d event data (e # es) =
     (if entry_ofd e = d then Some (e\<lparr>entry_event := event, entry_data := data\<rparr> # es)
      else map_option ((#) e) (change_first d event data es))"

definition changeEntry :: "nat option \<Rightarrow> u32 \<Rightarrow> u64 \<Rightarrow> epoll_entry list \<Rightarrow> epoll_entry list result" where
  "changeEntry d event data entries =
     (case change_first d event data entries of None \<Rightarrow> Inl VerifyFailed | Some es \<Rightarrow> Inr es)"

text \<open>The result of \<^verbatim>\<open>deleteEntry\<close> is \<^verbatim>\<open>ENOENT\<close> when nothing was removed.\<close>

definition ENOENT :: int where "ENOENT = 2"

definition deleteEntry :: "nat option \<Rightarrow> epoll_entry list \<Rightarrow> int \<times> epoll_entry list" where
  "deleteEntry d entries =
     (let kept = filter (\<lambda>e. entry_ofd e \<noteq> d) entries
      in if length kept = length entries then (- ENOENT, entries) else (0, kept))"

section \<open>Memory files\<close>

text \<open>Reading forms the pointer \<^verbatim>\<open>data_.data() + offset\<close>, which must not pass the end.\<close>

definition shadow_read :: "u64 \<Rightarrow> nat \<Rightarrow> buffer \<Rightarrow> buffer errno_or result" where
  "shadow_read offset count data =
     (if sint offset < 0 then Inr (Errno (- EINVAL))
      else let bytesRead = (if unat offset < length data then min (length data - unat offset) count else 0)
           in if unat offset > length data then Inl IndexOutOfRange
              else Inr (Value (take bytesRead (drop (unat offset) data))))"

definition shadow_resize :: "nat \<Rightarrow> buffer \<Rightarrow> buffer" where
  "shadow_resize n data = take n data @ replicate (n - length data) 0"

definition shadow_write :: "u64 \<Rightarrow> buffer \<Rightarrow> buffer \<Rightarrow> int \<times> buffer" where
  "shadow_write offset buf data =
     (if sint offset < 0 then (- EINVAL, data)
      else let off = unat offset; count = length buf;
               data = (if off + count > length data then shadow_resize (off + count) data else data)
           in (int count, take off data @ buf @ drop (off + count) data))"

datatype whence = SeekSet | SeekCur | SeekEnd | SeekOther

definition shadow_lseek :: "u64 \<Rightarrow> u64 \<Rightarrow> whence \<Rightarrow> buffer \<Rightarrow> int result" where
  "shadow_lseek current offset w data =
     (case (case w of SeekSet \<Rightarrow> Some 0 | SeekCur \<Rightarrow> Some (sint current)
            | SeekEnd \<Rightarrow> Some (int (length data)) | SeekOther \<Rightarrow> None) of
        None \<Rightarrow> Inr (- EINVAL)
      | Some baseOffset \<Rightarrow>
          let r = baseOffset + sint offset
          in if r < - (2 ^ 63) \<or> r \<ge> 2 ^ 63 then Inl SignedOverflow
             else if r < 0 then Inr (- EINVAL) else Inr r)"

section \<open>The virtual functions of a file\<close>

fun isReadable :: "file_kind \<Rightarrow> bool" where
  "isReadable (PipeEndpoint side p) = (side = ReadSide)"
| "isReadable (EventFile c) = True"
| "isReadable (EpollFile es) = False"
| "isReadable (ShadowFile data) = True"

fun isWritable :: "file_kind \<Rightarrow> bool" where
  "isWritable (PipeEndpoint side p) = (side = WriteSide)"
| "isWritable (EventFile c) = True"
| "isWritable (EpollFile es) = False"
| "isWritable (ShadowFile data) = True"

fun isPollable :: "file_kind \<Rightarrow> bool" where
  "isPollable (PipeEndpoint side p) = True"
| "isPollable (EventFile c) = True"
| "isPollable (EpollFile es) = False"
| "isPollable (ShadowFile data) = False"

fun isEpoll :: "file_kind \<Rightarrow> bool" where
  "isEpoll (PipeEndpoint side p) = False"
| "isEpoll (EventFile c) = True"
| "isEpoll (EpollFile es) = True"
| "isEpoll (ShadowFile data) = False"

fun isPipe :: "file_kind \<Rightarrow> bool" where
  "isPipe (PipeEndpoint side p) = True"
| "isPipe (EventFile c) = False"
| "isPipe (EpollFile es) = False"
| "isPipe (ShadowFile data) = False"

fun isRegularFile :: "file_kind \<Rightarrow> bool" where
  "isRegularFile (PipeEndpoint side p) = False"
| "isRegularFile (EventFile c) = False"
| "isRegularFile (EpollFile es) = False"
| "isRegularFile (ShadowFile data) = True"

fun keepAfterClose :: "file_kind \<Rightarrow> bool" where
  "keepAfterClose (PipeEndpoint side p) = False"
| "keepAfterClose (EventFile c) = False"
| "keepAfterClose (EpollFile es) = False"
| "keepAfterClose (ShadowFile data) = True"

fun canRead :: "file_kind \<Rightarrow> fs \<Rightarrow> bool result" where
  "canRead (PipeEndpoint side p) s = rbind (get_pipe p s) (\<lambda>p. Inr (pipe_canRead p))"
| "canRead (EventFile c) s = Inr (event_canRead c)"
| "canRead (EpollFile es) s = Inr False"
| "canRead (ShadowFile data) s = Inr False"

fun canWrite :: "file_kind \<Rightarrow> fs \<Rightarrow> bool result" where
  "canWrite (PipeEndpoint side p) s = rbind (get_pipe p s) (\<lambda>p. Inr (pipe_canWrite p))"
| "canWrite (EventFile c) s = Inr (event_canWrite c)"
| "canWrite (EpollFile es) s = Inr False"
| "canWrite (ShadowFile data) s = Inr False"

text \<open>
  \<open>file_read d\<close> and \<open>file_write d\<close> are \<^verbatim>\<open>file_->read(*this, ...)\<close> and
  \<^verbatim>\<open>file_->write(*this, ...)\<close> for the open file description \<open>d\<close>. With the append flag
  a memory file moves the offset of the description to its end before it writes.
\<close>

definition file_read :: "nat \<Rightarrow> nat \<Rightarrow> fs \<Rightarrow> (read_result \<times> fs) result" where
  "file_read d count s =
     rbind (get_ofd d s) (\<lambda>ofd.
     rbind (get_file (ofd_file ofd) s) (\<lambda>f.
     case fkind f of
       PipeEndpoint side p \<Rightarrow>
         rbind (get_pipe p s) (\<lambda>pipe.
         let (r, pipe) = pipe_read (flag_test (statusFlags ofd) STATUS_NONBLOCK) count pipe
         in Inr (r, put_pipe p pipe s))
     | EventFile counter \<Rightarrow>
         rbind (event_read (flag_test (statusFlags ofd) STATUS_NONBLOCK) count counter) (\<lambda>(r, counter).
         Inr (Ready r, put_file (ofd_file ofd) (f\<lparr>fkind := EventFile counter\<rparr>) s))
     | EpollFile es \<Rightarrow> Inl VerifyFailed
     | ShadowFile data \<Rightarrow>
         rbind (shadow_read (ofd_offset ofd) count data) (\<lambda>r. Inr (Ready r, s))))"

definition file_lseek :: "nat \<Rightarrow> u64 \<Rightarrow> whence \<Rightarrow> fs \<Rightarrow> int result" where
  "file_lseek d offset w s =
     rbind (get_ofd d s) (\<lambda>ofd.
     rbind (get_file (ofd_file ofd) s) (\<lambda>f.
     case fkind f of
       ShadowFile data \<Rightarrow> shadow_lseek (ofd_offset ofd) offset w data
     | _ \<Rightarrow> Inr (- ESPIPE)))"

definition ofd_lseek :: "nat \<Rightarrow> u64 \<Rightarrow> whence \<Rightarrow> fs \<Rightarrow> (int \<times> fs) result" where
  "ofd_lseek d offset w s =
     rbind (file_lseek d offset w s) (\<lambda>newoffset.
     if newoffset < 0 then Inr (newoffset, s)
     else rbind (get_ofd d s) (\<lambda>ofd.
          Inr (newoffset, put_ofd d (ofd\<lparr>ofd_offset := word_of_int newoffset\<rparr>) s)))"

definition file_write :: "nat \<Rightarrow> buffer \<Rightarrow> fs \<Rightarrow> (int \<times> fs) result" where
  "file_write d buf s =
     rbind (get_ofd d s) (\<lambda>ofd.
     rbind (get_file (ofd_file ofd) s) (\<lambda>f.
     case fkind f of
       PipeEndpoint side p \<Rightarrow>
         rbind (get_pipe p s) (\<lambda>pipe.
         let (n, pipe) = pipe_write buf pipe in Inr (n, put_pipe p pipe s))
     | EventFile counter \<Rightarrow>
         rbind (event_write buf counter) (\<lambda>(n, counter).
         Inr (n, put_file (ofd_file ofd) (f\<lparr>fkind := EventFile counter\<rparr>) s))
     | EpollFile es \<Rightarrow> Inl VerifyFailed
     | ShadowFile data \<Rightarrow>
         rbind (if flag_test (statusFlags ofd) STATUS_APPEND then ofd_lseek d 0 SeekEnd s else Inr (0, s)) (\<lambda>(_, s).
         rbind (get_ofd d s) (\<lambda>ofd.
         let (n, data) = shadow_write (ofd_offset ofd) buf data
         in Inr (n, put_file (ofd_file ofd) (f\<lparr>fkind := ShadowFile data\<rparr>) s)))))"

definition file_close :: "nat \<Rightarrow> fs \<Rightarrow> fs result" where
  "file_close f s =
     rbind (get_file f s) (\<lambda>x.
     case fkind x of
       PipeEndpoint side p \<Rightarrow>
         rbind (get_pipe p s) (\<lambda>pipe.
         rbind (closedEndpoint f pipe) (\<lambda>pipe. Inr (put_pipe p pipe s)))
     | _ \<Rightarrow> Inr s)"

section \<open>Open file descriptions\<close>

definition advance_offset :: "nat \<Rightarrow> u64 \<Rightarrow> fs \<Rightarrow> fs result" where
  "advance_offset d n s =
     rbind (get_ofd d s) (\<lambda>ofd. Inr (put_ofd d (ofd\<lparr>ofd_offset := ofd_offset ofd + n\<rparr>) s))"

definition ofd_read :: "nat \<Rightarrow> nat \<Rightarrow> fs \<Rightarrow> (read_result \<times> fs) result" where
  "ofd_read d count s =
     rbind (file_read d count s) (\<lambda>(r, s).
     case r of
       Ready (Value buf) \<Rightarrow> rbind (advance_offset d (word_of_nat (length buf)) s) (\<lambda>s. Inr (r, s))
     | _ \<Rightarrow> Inr (r, s))"

definition ofd_write :: "nat \<Rightarrow> buffer \<Rightarrow> fs \<Rightarrow> (int \<times> fs) result" where
  "ofd_write d buf s =
     rbind (file_write d buf s) (\<lambda>(nbytes, s).
     if nbytes < 0 then Inr (nbytes, s)
     else rbind (get_ofd d s) (\<lambda>ofd.
          if sint (ofd_offset ofd) + nbytes \<ge> 2 ^ 63 then Inl SignedOverflow
          else rbind (advance_offset d (word_of_int nbytes) s) (\<lambda>s. Inr (nbytes, s))))"

definition set_offset :: "nat \<Rightarrow> u64 \<Rightarrow> fs \<Rightarrow> fs result" where
  "set_offset d offset s =
     rbind (get_ofd d s) (\<lambda>ofd. Inr (put_ofd d (ofd\<lparr>ofd_offset := offset\<rparr>) s))"

definition ofd_pread :: "nat \<Rightarrow> nat \<Rightarrow> u64 \<Rightarrow> fs \<Rightarrow> (buffer errno_or \<times> fs) result" where
  "ofd_pread d count offset s =
     rbind (get_ofd d s) (\<lambda>ofd.
     rbind (set_offset d offset s) (\<lambda>s.
     rbind (file_read d count s) (\<lambda>(r, s).
     rbind (set_offset d (ofd_offset ofd) s) (\<lambda>s.
     case r of Blocking \<Rightarrow> Inl VerifyFailed | Ready v \<Rightarrow> Inr (v, s)))))"

definition ofd_pwrite :: "nat \<Rightarrow> buffer \<Rightarrow> u64 \<Rightarrow> fs \<Rightarrow> (int \<times> fs) result" where
  "ofd_pwrite d buf offset s =
     rbind (get_ofd d s) (\<lambda>ofd.
     rbind (set_offset d offset s) (\<lambda>s.
     rbind (file_write d buf s) (\<lambda>(r, s).
     rbind (set_offset d (ofd_offset ofd) s) (\<lambda>s. Inr (r, s)))))"

definition EWOULDBLOCK :: int where "EWOULDBLOCK = 11"

definition tryLock :: "file_lock \<Rightarrow> bool \<Rightarrow> open_file \<Rightarrow> (int \<times> open_file) result" where
  "tryLock lock blocking ofd =
     (if \<not> blocking \<and> ofd_lock ofd = LockExclusive then Inr (- EWOULDBLOCK, ofd)
      else rbind (verify (ofd_lock ofd = LockNone)) (\<lambda>_. Inr (0, ofd\<lparr>ofd_lock := lock\<rparr>)))"

definition unlock :: "open_file \<Rightarrow> open_file" where
  "unlock ofd = ofd\<lparr>ofd_lock := LockNone\<rparr>"

end
