(* ===== verification/X64_Descriptors.thy ===== *)
theory X64_Descriptors
  imports X64_Files
begin

text \<open>
  The classes \<^verbatim>\<open>FS\<close> and \<^verbatim>\<open>FileDescriptors\<close> of
  \<^verbatim>\<open>emulator/src/kernel/linux/fs/fs.cpp\<close> over the files of \<open>X64_Files\<close>: reads, writes,
  polls and epoll waits through a descriptor, and the descriptor table of a process with open,
  duplicate, close and fcntl. A \<^verbatim>\<open>FileDescriptor\<close> argument may be empty, as
  \<^verbatim>\<open>operator[]\<close> returns it for a number that is not open.

  The flag bits are those of the Linux headers the code is compiled against. An object accessed
  through a pointer of another class is \<open>Inl DanglingPointer\<close>.
\<close>

section \<open>Reading and writing\<close>

type_synonym descriptor = "file_descriptor option"

text \<open>
  \<^verbatim>\<open>FS::read\<close> and \<^verbatim>\<open>FS::pread\<close> build the error for a file that is not readable
  and drop it: there is no \<^verbatim>\<open>return\<close> in front of it.
\<close>

definition fs_read :: "descriptor \<Rightarrow> nat \<Rightarrow> fs \<Rightarrow> (read_result \<times> fs) result" where
  "fs_read fd count s =
     (case fd of None \<Rightarrow> Inr (Ready (Errno (- EBADF)), s)
      | Some desc \<Rightarrow> rbind (get_ofd (fd_ofd desc) s) (\<lambda>ofd.
                     rbind (get_file (ofd_file ofd) s) (\<lambda>f.
                     ofd_read (fd_ofd desc) count s)))"

definition fs_pread :: "descriptor \<Rightarrow> nat \<Rightarrow> u64 \<Rightarrow> fs \<Rightarrow> (buffer errno_or \<times> fs) result" where
  "fs_pread fd count offset s =
     (case fd of None \<Rightarrow> Inr (Errno (- EBADF), s)
      | Some desc \<Rightarrow> rbind (get_ofd (fd_ofd desc) s) (\<lambda>ofd.
                     rbind (get_file (ofd_file ofd) s) (\<lambda>f.
                     ofd_pread (fd_ofd desc) count offset s)))"

definition writable_ofd :: "descriptor \<Rightarrow> fs \<Rightarrow> nat option result" where
  "writable_ofd fd s =
     (case fd of None \<Rightarrow> Inr None
      | Some desc \<Rightarrow> rbind (get_ofd (fd_ofd desc) s) (\<lambda>ofd.
                     rbind (get_file (ofd_file ofd) s) (\<lambda>f.
                     Inr (if isWritable (fkind f) then Some (fd_ofd desc) else None))))"

definition fs_write :: "descriptor \<Rightarrow> buffer \<Rightarrow> fs \<Rightarrow> (int \<times> fs) result" where
  "fs_write fd buf s =
     rbind (writable_ofd fd s) (\<lambda>d.
     case d of None \<Rightarrow> Inr (- EBADF, s) | Some d \<Rightarrow> ofd_write d buf s)"

definition fs_pwrite :: "descriptor \<Rightarrow> buffer \<Rightarrow> u64 \<Rightarrow> fs \<Rightarrow> (int \<times> fs) result" where
  "fs_pwrite fd buf offset s =
     rbind (writable_ofd fd s) (\<lambda>d.
     case d of None \<Rightarrow> Inr (- EBADF, s) | Some d \<Rightarrow> ofd_pwrite d buf offset s)"

fun writev_loop :: "nat \<Rightarrow> buffer list \<Rightarrow> int \<Rightarrow> fs \<Rightarrow> (int \<times> fs) result" where
  "writev_loop d [] nbytes s = Inr (nbytes, s)"
| "writev_loop d (buf # bufs) nbytes s =
     rbind (ofd_write d buf s) (\<lambda>(ret, s).
     if ret < 0 then Inr (ret, s) else writev_loop d bufs (nbytes + ret) s)"

definition fs_writev :: "descriptor \<Rightarrow> buffer list \<Rightarrow> fs \<Rightarrow> (int \<times> fs) result" where
  "fs_writev fd bufs s =
     rbind (writable_ofd fd s) (\<lambda>d.
     case d of None \<Rightarrow> Inr (- EBADF, s) | Some d \<Rightarrow> writev_loop d bufs 0 s)"

text \<open>\<^verbatim>\<open>readv\<close> fills the buffers it is given; the model returns what was read for each.\<close>

fun readv_loop :: "nat \<Rightarrow> nat list \<Rightarrow> int \<Rightarrow> buffer list \<Rightarrow> fs \<Rightarrow> (int \<times> buffer list \<times> fs) result" where
  "readv_loop d [] nbytes acc s = Inr (nbytes, acc, s)"
| "readv_loop d (sz # szs) nbytes acc s =
     rbind (ofd_read d sz s) (\<lambda>(r, s).
     case r of
       Blocking \<Rightarrow> Inl VerifyFailed
     | Ready (Errno e) \<Rightarrow> if e < 0 then Inr (e, acc, s) else readv_loop d szs (nbytes + e) acc s
     | Ready (Value buf) \<Rightarrow>
         rbind (verify (length buf \<le> sz)) (\<lambda>_.
         readv_loop d szs (nbytes + int (length buf)) (acc @ [buf]) s))"

definition fs_readv :: "descriptor \<Rightarrow> nat list \<Rightarrow> fs \<Rightarrow> (int \<times> buffer list \<times> fs) result" where
  "fs_readv fd szs s =
     (case fd of None \<Rightarrow> Inr (- EBADF, [], s)
      | Some desc \<Rightarrow> rbind (get_ofd (fd_ofd desc) s) (\<lambda>ofd.
                     rbind (get_file (ofd_file ofd) s) (\<lambda>f.
                     if isReadable (fkind f) then readv_loop (fd_ofd desc) szs 0 [] s
                     else Inr (- EBADF, [], s))))"

definition fs_lseek :: "descriptor \<Rightarrow> u64 \<Rightarrow> whence \<Rightarrow> fs \<Rightarrow> (int \<times> fs) result" where
  "fs_lseek fd offset w s =
     (case fd of None \<Rightarrow> Inr (- EBADF, s) | Some desc \<Rightarrow> ofd_lseek (fd_ofd desc) offset w s)"

section \<open>Closing\<close>

text \<open>
  \<^verbatim>\<open>FS::close\<close>. Removing an anonymous file also asks the directory tree to unlink the
  path the file would have; the tree is not modelled.
\<close>

definition removeFromOrphans :: "nat \<Rightarrow> fs \<Rightarrow> fs" where
  "removeFromOrphans f s = s\<lparr>files := (files s)(f := None)\<rparr>"

definition removeClosedPipes :: "fs \<Rightarrow> fs" where
  "removeClosedPipes s =
     s\<lparr>pipes := (\<lambda>p. case pipes s p of
                        Some x \<Rightarrow> if pipe_closed x then None else Some x
                      | None \<Rightarrow> None)\<rparr>"

definition unref :: "nat \<Rightarrow> fs \<Rightarrow> fs result" where
  "unref f s =
     rbind (get_file f s) (\<lambda>x.
     if refCount x > 0 then Inr (put_file f (x\<lparr>refCount := refCount x - 1\<rparr>) s) else Inl AssertFailed)"

definition add_ref :: "nat \<Rightarrow> fs \<Rightarrow> fs result" where
  "add_ref f s =
     rbind (get_file f s) (\<lambda>x. Inr (put_file f (x\<lparr>refCount := refCount x + 1\<rparr>) s))"

definition fs_close :: "descriptor \<Rightarrow> fs \<Rightarrow> (int \<times> fs) result" where
  "fs_close fd s =
     (case fd of None \<Rightarrow> Inr (- EBADF, s)
      | Some desc \<Rightarrow>
          rbind (get_ofd (fd_ofd desc) s) (\<lambda>ofd.
          let f = ofd_file ofd in
          rbind (unref f s) (\<lambda>s.
          rbind (get_file f s) (\<lambda>x.
          if refCount x = 0
          then rbind (file_close f s) (\<lambda>s.
               let s = (if isPipe (fkind x) then removeClosedPipes s else s);
                   s = (if \<not> keepAfterClose (fkind x) \<or> deleteAfterClose x then removeFromOrphans f s else s)
               in Inr (0, s))
          else Inr (0, s)))))"

section \<open>Creating anonymous files\<close>

definition new_file :: "file_kind \<Rightarrow> bool \<Rightarrow> fs \<Rightarrow> nat \<times> fs" where
  "new_file kind delete s =
     (nextFile s, (put_file (nextFile s) \<lparr>fkind = kind, refCount = 0, deleteAfterClose = delete\<rparr> s)
        \<lparr>nextFile := Suc (nextFile s)\<rparr>)"

text \<open>
  \<^verbatim>\<open>insertNode\<close> returns a descriptor that owns its open file description. The use that
  is counted is the one of the table the descriptor ends in.
\<close>

definition insertNode ::
  "nat \<Rightarrow> bit_flags \<Rightarrow> bit_flags \<Rightarrow> bool \<Rightarrow> fs \<Rightarrow> (file_descriptor \<times> fs) result" where
  "insertNode f access status cloexec s =
     (let d = nextOfd s;
          ofd = \<lparr>ofd_file = f, ofd_offset = 0, accessMode = access, statusFlags = status,
                 ofd_lock = LockNone, ofd_uses = 0\<rparr>;
          s = (put_ofd d ofd s)\<lparr>nextOfd := Suc d\<rparr>
      in rbind (add_ref f s) (\<lambda>s. Inr (\<lparr>fd_ofd = d, closeOnExec = cloexec\<rparr>, s)))"

definition O_CLOEXEC :: u32 where "O_CLOEXEC = 0x80000"
definition O_NONBLOCK :: u32 where "O_NONBLOCK = 0x800"
definition O_APPEND :: u32 where "O_APPEND = 0x400"
definition EFD_SEMAPHORE :: u32 where "EFD_SEMAPHORE = 1"

definition toStatusFlags :: "u32 \<Rightarrow> bit_flags" where
  "toStatusFlags flags =
     (let sf = 0;
          sf = (if flag_test flags O_APPEND then flag_add sf STATUS_APPEND else sf);
          sf = (if flag_test flags O_NONBLOCK then flag_add sf STATUS_NONBLOCK else sf)
      in sf)"

definition fs_eventfd2 :: "u32 \<Rightarrow> u32 \<Rightarrow> fs \<Rightarrow> (file_descriptor \<times> fs) result" where
  "fs_eventfd2 initval flags s =
     rbind (verify (\<not> flag_test flags EFD_SEMAPHORE)) (\<lambda>_.
     let (f, s) = new_file (EventFile (ucast initval)) False s;
         status = (if flag_test flags O_NONBLOCK then STATUS_NONBLOCK else 0)
     in insertNode f (flag_add ACCESS_READ ACCESS_WRITE) status (flag_test flags O_CLOEXEC) s)"

definition fs_epoll_create1 :: "u32 \<Rightarrow> fs \<Rightarrow> (file_descriptor \<times> fs) result" where
  "fs_epoll_create1 flags s =
     (let (f, s) = new_file (EpollFile []) False s
      in insertNode f (flag_add ACCESS_READ ACCESS_WRITE) 0 (flag_test flags O_CLOEXEC) s)"

definition fs_memfd_create :: "u32 \<Rightarrow> fs \<Rightarrow> (file_descriptor \<times> fs) result" where
  "fs_memfd_create flags s =
     rbind (verify (flags AND NOT 3 = 0)) (\<lambda>_.
     let (f, s) = new_file (ShadowFile []) True s
     in insertNode f (flag_add ACCESS_READ ACCESS_WRITE) 0 (flag_test flags 1) s)"

definition fs_pipe2 :: "u32 \<Rightarrow> fs \<Rightarrow> (file_descriptor \<times> file_descriptor \<times> fs) result" where
  "fs_pipe2 flags s =
     (let p = nextPipe s;
          (reader, s) = new_file (PipeEndpoint ReadSide p) False s;
          (writer, s) = new_file (PipeEndpoint WriteSide p) False s;
          pipe = \<lparr>pipe_data = [], readEndpoints = [reader], writeEndpoints = [writer], pipe_closed = False\<rparr>;
          s = (put_pipe p pipe s)\<lparr>nextPipe := Suc p\<rparr>;
          cloexec = flag_test flags O_CLOEXEC
      in rbind (insertNode reader ACCESS_READ (toStatusFlags flags) cloexec s) (\<lambda>(rfd, s).
         rbind (insertNode writer ACCESS_WRITE (toStatusFlags flags) cloexec s) (\<lambda>(wfd, s).
         Inr (rfd, wfd, s))))"

section \<open>Polling\<close>

definition POLL_READ :: u16 where "POLL_READ = 1"
definition POLL_WRITE :: u16 where "POLL_WRITE = 4"
definition POLL_INVALID :: u16 where "POLL_INVALID = 32"

record poll_data =
  poll_fd :: "32 word"
  poll_descriptor :: descriptor
  poll_events :: u16
  poll_revents :: u16

definition ready_events :: "file_kind \<Rightarrow> u16 \<Rightarrow> u16 \<Rightarrow> fs \<Rightarrow> u16 result" where
  "ready_events kind ev revents s =
     rbind (if ev AND POLL_READ = POLL_READ then canRead kind s else Inr False) (\<lambda>r.
     let revents = (if r then revents OR POLL_READ else revents) in
     rbind (if ev AND POLL_WRITE = POLL_WRITE then canWrite kind s else Inr False) (\<lambda>w.
     Inr (if w then revents OR POLL_WRITE else revents)))"

definition poll_one :: "poll_data \<Rightarrow> fs \<Rightarrow> poll_data result" where
  "poll_one pd s =
     (case poll_descriptor pd of None \<Rightarrow> Inl VerifyFailed
      | Some desc \<Rightarrow>
          rbind (get_ofd (fd_ofd desc) s) (\<lambda>ofd.
          rbind (get_file (ofd_file ofd) s) (\<lambda>f.
          rbind (verify (isPollable (fkind f))) (\<lambda>_.
          rbind (ready_events (fkind f) (poll_events pd) 0 s) (\<lambda>revents.
          Inr (pd\<lparr>poll_revents := revents\<rparr>))))))"

fun doPoll :: "poll_data list \<Rightarrow> fs \<Rightarrow> poll_data list result" where
  "doPoll [] s = Inr []"
| "doPoll (pd # pds) s =
     rbind (poll_one pd s) (\<lambda>pd. rbind (doPoll pds s) (\<lambda>pds. Inr (pd # pds)))"

text \<open>
  \<^verbatim>\<open>pollImmediate\<close> starts from the events the caller left in \<^verbatim>\<open>revents\<close> and returns
  the entries with the value 0.
\<close>

definition poll_immediate_one :: "poll_data \<Rightarrow> fs \<Rightarrow> poll_data result" where
  "poll_immediate_one pd s =
     (case poll_descriptor pd of
        None \<Rightarrow> Inr (pd\<lparr>poll_revents := poll_revents pd OR POLL_INVALID\<rparr>)
      | Some desc \<Rightarrow>
          rbind (get_ofd (fd_ofd desc) s) (\<lambda>ofd.
          rbind (get_file (ofd_file ofd) s) (\<lambda>f.
          rbind (verify (isPollable (fkind f))) (\<lambda>_.
          rbind (ready_events (fkind f) (poll_events pd) (poll_revents pd) s) (\<lambda>revents.
          Inr (pd\<lparr>poll_revents := revents\<rparr>))))))"

fun poll_immediate_all :: "poll_data list \<Rightarrow> fs \<Rightarrow> poll_data list result" where
  "poll_immediate_all [] s = Inr []"
| "poll_immediate_all (pd # pds) s =
     rbind (poll_immediate_one pd s) (\<lambda>pd. rbind (poll_immediate_all pds s) (\<lambda>pds. Inr (pd # pds)))"

definition pollImmediate :: "poll_data list \<Rightarrow> fs \<Rightarrow> (poll_data list \<times> int) result" where
  "pollImmediate pds s = rbind (poll_immediate_all pds s) (\<lambda>pds. Inr (pds, 0))"

text \<open>\<^verbatim>\<open>std::bitset<FD_SETSIZE>\<close> is a word of 1024 bits; \<^verbatim>\<open>test\<close> throws past its end.\<close>

type_synonym fd_set = "1024 word"

record select_data =
  select_fds :: "descriptor list"
  select_readfds :: fd_set
  select_writefds :: fd_set
  select_exceptfds :: fd_set

function select_loop :: "nat \<Rightarrow> select_data \<Rightarrow> fs \<Rightarrow> (int \<times> select_data) result" where
  "select_loop i sd s =
     (if i \<ge> length (select_fds sd) then Inr (0, sd)
      else if i \<ge> 1024 then Inl IndexOutOfRange
      else let testRead = bit (select_readfds sd) i; testWrite = bit (select_writefds sd) i in
           if \<not> testRead \<and> \<not> testWrite then select_loop (Suc i) sd s
           else let sd = sd\<lparr>select_readfds := unset_bit i (select_readfds sd),
                            select_writefds := unset_bit i (select_writefds sd)\<rparr> in
                case select_fds sd ! i of
                  None \<Rightarrow> Inr (- EBADF, sd)
                | Some desc \<Rightarrow>
                    rbind (get_ofd (fd_ofd desc) s) (\<lambda>ofd.
                    rbind (get_file (ofd_file ofd) s) (\<lambda>f.
                    rbind (verify (isPollable (fkind f))) (\<lambda>_.
                    rbind (if testRead then canRead (fkind f) s else Inr False) (\<lambda>r.
                    rbind (if testWrite then canWrite (fkind f) s else Inr False) (\<lambda>w.
                    select_loop (Suc i)
                      (sd\<lparr>select_readfds := (if r then set_bit i (select_readfds sd) else select_readfds sd),
                          select_writefds := (if w then set_bit i (select_writefds sd) else select_writefds sd)\<rparr>)
                      s))))))"
  by pat_completeness auto

termination
  by (relation "measure (\<lambda>(i, sd, s). length (select_fds sd) - i)") auto

declare select_loop.simps [simp del]

definition selectImmediate :: "select_data \<Rightarrow> fs \<Rightarrow> (int \<times> select_data) result" where
  "selectImmediate sd s = select_loop 0 sd s"

section \<open>Epoll\<close>

definition EPOLL_READ :: u32 where "EPOLL_READ = 1"
definition EPOLL_WRITE :: u32 where "EPOLL_WRITE = 2"
definition EPOLL_HANGUP :: u32 where "EPOLL_HANGUP = 4"

text \<open>The instance behind a descriptor: its file must pass \<^verbatim>\<open>isEpoll()\<close> and is then cast.\<close>

definition cast_epoll :: "file_kind \<Rightarrow> epoll_entry list result" where
  "cast_epoll kind = (case kind of EpollFile es \<Rightarrow> Inr es | _ \<Rightarrow> Inl DanglingPointer)"

definition epoll_ctl ::
  "descriptor \<Rightarrow> int \<Rightarrow> descriptor \<Rightarrow> u32 \<Rightarrow> u64 \<Rightarrow> fs \<Rightarrow> (int \<times> fs) result" where
  "epoll_ctl epfd op fd ev data s =
     (case epfd of None \<Rightarrow> Inr (- EBADF, s)
      | Some epdesc \<Rightarrow>
          rbind (get_ofd (fd_ofd epdesc) s) (\<lambda>ofd.
          rbind (get_file (ofd_file ofd) s) (\<lambda>f.
          if \<not> isEpoll (fkind f) then Inr (- EBADF, s)
          else rbind (cast_epoll (fkind f)) (\<lambda>es.
            let target = map_option fd_ofd fd;
                store = (\<lambda>es. put_file (ofd_file ofd) (f\<lparr>fkind := EpollFile es\<rparr>) s) in
            if op = 1
            then rbind (addEntry target (flag_add ev EPOLL_HANGUP) data es) (\<lambda>es. Inr (0, store es))
            else if op = 3
            then rbind (changeEntry target ev data es) (\<lambda>es. Inr (0, store es))
            else rbind (verify (op = 2)) (\<lambda>_.
                 let (ret, es) = deleteEntry target es in Inr (ret, store es))))))"

record epoll_event =
  ee_events :: u32
  ee_data :: u64

definition epoll_entry_event :: "epoll_entry \<Rightarrow> fs \<Rightarrow> epoll_event list result" where
  "epoll_entry_event e s =
     (case entry_ofd e of None \<Rightarrow> Inr [\<lparr>ee_events = EPOLL_HANGUP, ee_data = 0\<rparr>]
      | Some d \<Rightarrow>
          rbind (get_ofd d s) (\<lambda>ofd.
          rbind (get_file (ofd_file ofd) s) (\<lambda>f.
          rbind (verify (isPollable (fkind f))) (\<lambda>_.
          rbind (verify (entry_event e AND NOT (EPOLL_READ OR EPOLL_WRITE OR EPOLL_HANGUP) = 0)) (\<lambda>_.
          rbind (if flag_test (entry_event e) EPOLL_READ then canRead (fkind f) s else Inr False) (\<lambda>r.
          rbind (if flag_test (entry_event e) EPOLL_WRITE then canWrite (fkind f) s else Inr False) (\<lambda>w.
          let out = (if r then flag_add 0 EPOLL_READ else 0);
              out = (if w then flag_add out EPOLL_WRITE else out)
          in Inr (if out = 0 then [] else [\<lparr>ee_events = out, ee_data = entry_data e\<rparr>]))))))))"

fun epoll_entries_events :: "epoll_entry list \<Rightarrow> fs \<Rightarrow> epoll_event list result" where
  "epoll_entries_events [] s = Inr []"
| "epoll_entries_events (e # es) s =
     rbind (epoll_entry_event e s) (\<lambda>evs. rbind (epoll_entries_events es s) (\<lambda>rest. Inr (evs @ rest)))"

definition doEpollWait :: "descriptor \<Rightarrow> fs \<Rightarrow> epoll_event list result" where
  "doEpollWait epfd s =
     (case epfd of None \<Rightarrow> Inl VerifyFailed
      | Some epdesc \<Rightarrow>
          rbind (get_ofd (fd_ofd epdesc) s) (\<lambda>ofd.
          rbind (get_file (ofd_file ofd) s) (\<lambda>f.
          rbind (verify (isEpoll (fkind f))) (\<lambda>_.
          rbind (cast_epoll (fkind f)) (\<lambda>es. epoll_entries_events es s)))))"

definition epollWaitImmediate :: "descriptor \<Rightarrow> fs \<Rightarrow> (int \<times> epoll_event list) result" where
  "epollWaitImmediate epfd s =
     (case epfd of None \<Rightarrow> Inr (- EBADF, [])
      | Some epdesc \<Rightarrow>
          rbind (get_ofd (fd_ofd epdesc) s) (\<lambda>ofd.
          rbind (get_file (ofd_file ofd) s) (\<lambda>f.
          if \<not> isEpoll (fkind f) then Inr (- EBADF, [])
          else rbind (doEpollWait epfd s) (\<lambda>evs. Inr (int (length evs), evs)))))"

section \<open>Locks and sizes\<close>

text \<open>\<^verbatim>\<open>FS::flock\<close>: the bits are LOCK_SH = 1, LOCK_EX = 2, LOCK_NB = 4, LOCK_UN = 8.\<close>

definition fs_flock :: "descriptor \<Rightarrow> u32 \<Rightarrow> fs \<Rightarrow> (int \<times> fs) result" where
  "fs_flock fd operation s =
     (case fd of None \<Rightarrow> Inr (- EBADF, s)
      | Some desc \<Rightarrow>
          rbind (get_ofd (fd_ofd desc) s) (\<lambda>ofd.
          let lockShared = flag_test operation 1; lockExclusively = flag_test operation 2;
              unlocking = flag_test operation 8; blocking = (\<not> flag_test operation 4) in
          if lockExclusively
          then (if lockShared \<or> unlocking then Inr (- EINVAL, s)
                else rbind (tryLock LockExclusive blocking ofd) (\<lambda>(ret, ofd). Inr (ret, put_ofd (fd_ofd desc) ofd s)))
          else if lockShared
          then (if unlocking then Inr (- EINVAL, s)
                else rbind (tryLock LockExclusive blocking ofd) (\<lambda>(ret, ofd). Inr (ret, put_ofd (fd_ofd desc) ofd s)))
          else if unlocking then Inr (0, put_ofd (fd_ofd desc) (unlock ofd) s)
          else Inr (- EINVAL, s)))"

definition shadow_file_of :: "descriptor \<Rightarrow> fs \<Rightarrow> (nat \<times> fs_file \<times> buffer) option result" where
  "shadow_file_of fd s =
     (case fd of None \<Rightarrow> Inr None
      | Some desc \<Rightarrow>
          rbind (get_ofd (fd_ofd desc) s) (\<lambda>ofd.
          rbind (get_file (ofd_file ofd) s) (\<lambda>f.
          case fkind f of ShadowFile data \<Rightarrow> Inr (Some (ofd_file ofd, f, data)) | _ \<Rightarrow> Inl VerifyFailed)))"

definition fs_ftruncate :: "descriptor \<Rightarrow> u64 \<Rightarrow> fs \<Rightarrow> (int \<times> fs) result" where
  "fs_ftruncate fd len s =
     rbind (shadow_file_of fd s) (\<lambda>r.
     case r of None \<Rightarrow> Inr (- EBADF, s)
     | Some (i, f, data) \<Rightarrow> Inr (0, put_file i (f\<lparr>fkind := ShadowFile (shadow_resize (unat len) data)\<rparr>) s))"

text \<open>\<^verbatim>\<open>fallocate\<close> supports the mode 0 only.\<close>

definition fs_fallocate :: "descriptor \<Rightarrow> bool \<Rightarrow> u64 \<Rightarrow> u64 \<Rightarrow> fs \<Rightarrow> (int \<times> fs) result" where
  "fs_fallocate fd plain_mode offset len s =
     rbind (shadow_file_of fd s) (\<lambda>r.
     case r of None \<Rightarrow> Inr (- EBADF, s)
     | Some (i, f, data) \<Rightarrow>
         rbind (verify plain_mode) (\<lambda>_.
         let sz = sint offset + sint len in
         if sz < - (2 ^ 63) \<or> sz \<ge> 2 ^ 63 then Inl SignedOverflow
         else Inr (0, put_file i (f\<lparr>fkind := ShadowFile
                (shadow_resize (max (length data) (unat (word_of_int sz :: u64))) data)\<rparr>) s)))"

section \<open>Descriptor tables\<close>

text \<open>
  \<^verbatim>\<open>fileDescriptors_[fd] = ...\<close> makes the table own the open file description of the new
  descriptor and lets go of the one of the old; a description with no use left is destroyed.
\<close>

definition share_ofd :: "nat \<Rightarrow> fs \<Rightarrow> fs result" where
  "share_ofd d s = rbind (get_ofd d s) (\<lambda>ofd. Inr (put_ofd d (ofd\<lparr>ofd_uses := Suc (ofd_uses ofd)\<rparr>) s))"

definition release_ofd :: "nat \<Rightarrow> fs \<Rightarrow> fs result" where
  "release_ofd d s =
     rbind (get_ofd d s) (\<lambda>ofd.
     Inr (if ofd_uses ofd \<le> 1 then s\<lparr>ofds := (ofds s)(d := None)\<rparr>
          else put_ofd d (ofd\<lparr>ofd_uses := ofd_uses ofd - 1\<rparr>) s))"

definition assign_fd :: "int \<Rightarrow> descriptor \<Rightarrow> fd_table \<Rightarrow> fs \<Rightarrow> (fd_table \<times> fs) result" where
  "assign_fd fd new table s =
     (if fd < 0 \<or> fd \<ge> int (length table) then Inl IndexOutOfRange
      else rbind (case new of None \<Rightarrow> Inr s | Some desc \<Rightarrow> share_ofd (fd_ofd desc) s) (\<lambda>s.
           rbind (case table ! nat fd of None \<Rightarrow> Inr s | Some desc \<Rightarrow> release_ofd (fd_ofd desc) s) (\<lambda>s.
           Inr (table[nat fd := new], s))))"

definition findFileDescriptor :: "int \<Rightarrow> fd_table \<Rightarrow> descriptor" where
  "findFileDescriptor fd table =
     (if fd < 0 then None else if fd \<ge> int (length table) then None else table ! nat fd)"

fun first_free :: "fd_table \<Rightarrow> nat" where
  "first_free [] = 0"
| "first_free (None # ds) = 0"
| "first_free (Some d # ds) = Suc (first_free ds)"

definition allocateFd :: "fd_table \<Rightarrow> int \<times> fd_table" where
  "allocateFd table =
     (let i = first_free table in (int i, if i < length table then table else table @ [None]))"

definition install :: "file_descriptor \<Rightarrow> fd_table \<Rightarrow> fs \<Rightarrow> (int \<times> fd_table \<times> fs) result" where
  "install desc table s =
     (let (fd, table) = allocateFd table
      in rbind (assign_fd fd (Some desc) table s) (\<lambda>(table, s). Inr (fd, table, s)))"

definition fds_close :: "int \<Rightarrow> fd_table \<Rightarrow> fs \<Rightarrow> (int \<times> fd_table \<times> fs) result" where
  "fds_close fd table s =
     (case findFileDescriptor fd table of None \<Rightarrow> Inr (- EBADF, table, s)
      | Some desc \<Rightarrow>
          rbind (fs_close (Some desc) s) (\<lambda>(ret, s).
          if ret < 0 then Inr (ret, table, s)
          else rbind (assign_fd fd None table s) (\<lambda>(table, s). Inr (ret, table, s))))"

fun close_from :: "nat list \<Rightarrow> fd_table \<Rightarrow> fs \<Rightarrow> (fd_table \<times> fs) result" where
  "close_from [] table s = Inr (table, s)"
| "close_from (i # is) table s =
     (if table ! i \<noteq> None
      then rbind (fds_close (int i) table s) (\<lambda>(_, table, s). close_from is table s)
      else close_from is table s)"

definition closeAll :: "fd_table \<Rightarrow> fs \<Rightarrow> (fd_table \<times> fs) result" where
  "closeAll table s = close_from [0..<length table] table s"

text \<open>\<^verbatim>\<open>openFileDescription->file()->ref()\<close>\<close>

definition ref_ofd :: "nat \<Rightarrow> fs \<Rightarrow> fs result" where
  "ref_ofd d s = rbind (get_ofd d s) (\<lambda>ofd. add_ref (ofd_file ofd) s)"

definition fds_dup :: "int \<Rightarrow> fd_table \<Rightarrow> fs \<Rightarrow> (int \<times> fd_table \<times> fs) result" where
  "fds_dup fd table s =
     (case findFileDescriptor fd table of None \<Rightarrow> Inr (- EBADF, table, s)
      | Some desc \<Rightarrow>
          rbind (ref_ofd (fd_ofd desc) s) (\<lambda>s.
          install \<lparr>fd_ofd = fd_ofd desc, closeOnExec = False\<rparr> table s))"

text \<open>What \<^verbatim>\<open>dup2\<close> and \<^verbatim>\<open>dup3\<close> share once the arguments are checked.\<close>

definition dup_onto :: "nat \<Rightarrow> int \<Rightarrow> bool \<Rightarrow> fd_table \<Rightarrow> fs \<Rightarrow> (int \<times> fd_table \<times> fs) result" where
  "dup_onto d newfd cloexec table s =
     rbind (case findFileDescriptor newfd table of
              None \<Rightarrow> Inr (table, s)
            | Some _ \<Rightarrow> rbind (fds_close newfd table s) (\<lambda>(ret, table, s).
                        rbind (verify (ret = 0)) (\<lambda>_. Inr (table, s)))) (\<lambda>(table, s).
     rbind (ref_ofd d s) (\<lambda>s.
     if newfd \<ge> int (length table) \<and> newfd = 2 ^ 31 - 1 then Inl SignedOverflow
     else let table = (if newfd \<ge> int (length table)
                       then table @ replicate (Suc (nat newfd) - length table) None else table)
          in rbind (assign_fd newfd (Some \<lparr>fd_ofd = d, closeOnExec = cloexec\<rparr>) table s) (\<lambda>(table, s).
             Inr (newfd, table, s))))"

definition fds_dup2 :: "int \<Rightarrow> int \<Rightarrow> fd_table \<Rightarrow> fs \<Rightarrow> (int \<times> fd_table \<times> fs) result" where
  "fds_dup2 oldfd newfd table s =
     (case findFileDescriptor oldfd table of None \<Rightarrow> Inr (- EBADF, table, s)
      | Some desc \<Rightarrow>
          if oldfd = newfd then Inr (newfd, table, s)
          else dup_onto (fd_ofd desc) newfd False table s)"

definition fds_dup3 :: "int \<Rightarrow> int \<Rightarrow> u32 \<Rightarrow> fd_table \<Rightarrow> fs \<Rightarrow> (int \<times> fd_table \<times> fs) result" where
  "fds_dup3 oldfd newfd flags table s =
     (if oldfd = newfd then Inr (- EINVAL, table, s)
      else case findFileDescriptor oldfd table of None \<Rightarrow> Inr (- EBADF, table, s)
      | Some desc \<Rightarrow> dup_onto (fd_ofd desc) newfd (flag_test flags O_CLOEXEC) table s)"

definition fds_eventfd2 :: "u32 \<Rightarrow> u32 \<Rightarrow> fd_table \<Rightarrow> fs \<Rightarrow> (int \<times> fd_table \<times> fs) result" where
  "fds_eventfd2 initval flags table s =
     rbind (fs_eventfd2 initval flags s) (\<lambda>(desc, s). install desc table s)"

definition fds_epoll_create1 :: "u32 \<Rightarrow> fd_table \<Rightarrow> fs \<Rightarrow> (int \<times> fd_table \<times> fs) result" where
  "fds_epoll_create1 flags table s =
     rbind (fs_epoll_create1 flags s) (\<lambda>(desc, s). install desc table s)"

definition fds_memfd_create :: "u32 \<Rightarrow> fd_table \<Rightarrow> fs \<Rightarrow> (int \<times> fd_table \<times> fs) result" where
  "fds_memfd_create flags table s =
     rbind (fs_memfd_create flags s) (\<lambda>(desc, s). install desc table s)"

definition fds_pipe2 :: "u32 \<Rightarrow> fd_table \<Rightarrow> fs \<Rightarrow> (int \<times> int \<times> fd_table \<times> fs) result" where
  "fds_pipe2 flags table s =
     rbind (fs_pipe2 flags s) (\<lambda>(reader, writer, s).
     rbind (install reader table s) (\<lambda>(rfd, table, s).
     rbind (install writer table s) (\<lambda>(wfd, table, s). Inr (rfd, wfd, table, s))))"

fun ref_all :: "fd_table \<Rightarrow> fs \<Rightarrow> fs result" where
  "ref_all [] s = Inr s"
| "ref_all (None # ds) s = ref_all ds s"
| "ref_all (Some desc # ds) s =
     rbind (ref_ofd (fd_ofd desc) s) (\<lambda>s. rbind (share_ofd (fd_ofd desc) s) (\<lambda>s. ref_all ds s))"

definition fds_clone :: "fd_table \<Rightarrow> fs \<Rightarrow> (fd_table \<times> fs) result" where
  "fds_clone table s = rbind (ref_all table s) (\<lambda>s. Inr (table, s))"

section \<open>fcntl\<close>

datatype fcntl_command =
  F_DUPFD | F_DUPFD_CLOEXEC | F_GETFD | F_SETFD | F_GETFL | F_SETFL | F_SETLK | F_ADD_SEALS

definition FD_CLOEXEC :: int where "FD_CLOEXEC = 1"

fun file_fcntl :: "file_kind \<Rightarrow> fcntl_command \<Rightarrow> int option result" where
  "file_fcntl (PipeEndpoint side p) cmd = Inr None"
| "file_fcntl (EventFile c) cmd = Inl VerifyFailed"
| "file_fcntl (EpollFile es) cmd = Inl VerifyFailed"
| "file_fcntl (ShadowFile data) cmd =
     (if cmd \<in> {F_DUPFD, F_GETFD, F_SETFD, F_DUPFD_CLOEXEC, F_GETFL} then Inr None
      else if cmd \<in> {F_SETLK, F_ADD_SEALS} then Inr (Some 0) else Inl VerifyFailed)"

text \<open>The bit that \<^verbatim>\<open>isLargeFile\<close> tests is 0 on 64-bit Linux, so none is found for it.\<close>

definition assembleAccessModeAndFileStatusFlags :: "bit_flags \<Rightarrow> bit_flags \<Rightarrow> int result" where
  "assembleAccessModeAndFileStatusFlags access status =
     (let r = flag_test access ACCESS_READ; w = flag_test access ACCESS_WRITE in
      if \<not> r \<and> \<not> w then Inl AssertFailed
      else let ret = (if r \<and> w then 2 else if w then 1 else 0 :: u32);
               ret = (if flag_test status STATUS_APPEND then ret OR O_APPEND else ret);
               ret = (if flag_test status STATUS_NONBLOCK then ret OR O_NONBLOCK else ret)
           in Inr (sint ret))"

definition fs_fcntl ::
  "file_descriptor \<Rightarrow> fcntl_command \<Rightarrow> u32 \<Rightarrow> fs \<Rightarrow> (int \<times> file_descriptor \<times> fs) result" where
  "fs_fcntl desc cmd arg s =
     rbind (get_ofd (fd_ofd desc) s) (\<lambda>ofd.
     rbind (case cmd of
         F_DUPFD \<Rightarrow> Inl VerifyFailed
       | F_DUPFD_CLOEXEC \<Rightarrow> Inl VerifyFailed
       | F_GETFD \<Rightarrow> Inr (Some (if closeOnExec desc then FD_CLOEXEC else 0), False, desc, ofd)
       | F_SETFD \<Rightarrow> Inr (Some 0, True, desc\<lparr>closeOnExec := flag_test arg O_CLOEXEC\<rparr>, ofd)
       | F_GETFL \<Rightarrow> rbind (assembleAccessModeAndFileStatusFlags (accessMode ofd) (statusFlags ofd)) (\<lambda>v.
                    Inr (Some v, False, desc, ofd))
       | F_SETFL \<Rightarrow> rbind (verify (\<not> flag_test arg O_APPEND)) (\<lambda>_.
                    Inr (Some 0, True, desc,
                      ofd\<lparr>statusFlags := (if flag_test arg O_NONBLOCK
                                         then flag_add (statusFlags ofd) STATUS_NONBLOCK
                                         else flag_remove (statusFlags ofd) STATUS_NONBLOCK)\<rparr>))
       | _ \<Rightarrow> Inr (None, True, desc, ofd)) (\<lambda>(emulatedRet, callFcntlOnFile, desc, ofd).
     let s = put_ofd (fd_ofd desc) ofd s in
     rbind (if callFcntlOnFile
            then rbind (get_file (ofd_file ofd) s) (\<lambda>f. file_fcntl (fkind f) cmd) else Inr None) (\<lambda>fileRet.
     case emulatedRet of
       Some e \<Rightarrow>
         rbind (get_file (ofd_file ofd) s) (\<lambda>f.
         rbind (verify (\<not> (fileRet \<noteq> None \<and> fileRet \<noteq> Some e \<and> refCount f = 1))) (\<lambda>_.
         Inr (e, desc, s)))
     | None \<Rightarrow> (case fileRet of None \<Rightarrow> Inl VerifyFailed | Some r \<Rightarrow> Inr (r, desc, s)))))"

definition set_cloexec :: "int \<Rightarrow> fd_table \<Rightarrow> fd_table result" where
  "set_cloexec fd table =
     (case findFileDescriptor fd table of None \<Rightarrow> Inl VerifyFailed
      | Some desc \<Rightarrow> Inr (table[nat fd := Some (desc\<lparr>closeOnExec := True\<rparr>)]))"

definition fds_fcntl ::
  "int \<Rightarrow> fcntl_command \<Rightarrow> u32 \<Rightarrow> fd_table \<Rightarrow> fs \<Rightarrow> (int \<times> fd_table \<times> fs) result" where
  "fds_fcntl fd cmd arg table s =
     (case findFileDescriptor fd table of None \<Rightarrow> Inr (- EBADF, table, s)
      | Some desc \<Rightarrow>
          (case cmd of
             F_DUPFD \<Rightarrow> fds_dup fd table s
           | F_DUPFD_CLOEXEC \<Rightarrow>
               rbind (fds_dup fd table s) (\<lambda>(newfd, table, s).
               rbind (set_cloexec newfd table) (\<lambda>table. Inr (newfd, table, s)))
           | _ \<Rightarrow> rbind (fs_fcntl desc cmd arg s) (\<lambda>(ret, desc, s). Inr (ret, table[nat fd := Some desc], s))))"

end
