(* ===== verification/X64_FdInv.thy ===== *)
theory X64_FdInv
  imports X64_Descriptors "HOL-Library.Multiset"
begin

text \<open>
  The invariant behind the descriptor tables. The reference count of a file is the number of
  descriptors, over all tables, that lead to it (the check that
  \<^verbatim>\<open>FS::checkFileRefCount\<close> has commented out); an open file description lives as long as
  a table entry uses it, a file as long as it is referenced, and the end points a pipe remembers are
  the files that are its ends. The invariant is stated with the references \<open>R\<close> and the uses
  \<open>U\<close> counted apart, because an operation adds them one after the other, and with the files
  \<open>N\<close> that were created and are not referenced yet.
\<close>

section \<open>What reading and writing leave alone\<close>

fun kind_tag :: "file_kind \<Rightarrow> file_kind" where
  "kind_tag (PipeEndpoint side p) = PipeEndpoint side p"
| "kind_tag (EventFile c) = EventFile 0"
| "kind_tag (EpollFile es) = EpollFile []"
| "kind_tag (ShadowFile data) = ShadowFile []"

definition file_tag :: "fs_file \<Rightarrow> fs_file" where
  "file_tag x = x\<lparr>fkind := kind_tag (fkind x)\<rparr>"

definition pipe_tag :: "pipe \<Rightarrow> pipe" where
  "pipe_tag q = q\<lparr>pipe_data := []\<rparr>"

definition ofd_tag :: "open_file \<Rightarrow> open_file" where
  "ofd_tag d = d\<lparr>ofd_offset := 0, accessMode := 0, statusFlags := 0, ofd_lock := LockNone\<rparr>"

definition skeleton :: "fs \<Rightarrow> fs" where
  "skeleton s = s\<lparr>files := map_option file_tag \<circ> files s,
                  pipes := map_option pipe_tag \<circ> pipes s,
                  ofds := map_option ofd_tag \<circ> ofds s\<rparr>"

lemma tag_simps [simp]:
  "refCount (file_tag x) = refCount x" "deleteAfterClose (file_tag x) = deleteAfterClose x"
  "fkind (file_tag x) = kind_tag (fkind x)"
  "readEndpoints (pipe_tag q) = readEndpoints q" "writeEndpoints (pipe_tag q) = writeEndpoints q"
  "pipe_closed (pipe_tag q) = pipe_closed q"
  "ofd_file (ofd_tag d) = ofd_file d" "ofd_uses (ofd_tag d) = ofd_uses d"
  by (simp_all add: file_tag_def pipe_tag_def ofd_tag_def)

lemma kind_tag_pipe [simp]: "kind_tag k = PipeEndpoint side p \<longleftrightarrow> k = PipeEndpoint side p"
  by (cases k) auto

lemma kind_tag_shadow: "kind_tag k = ShadowFile [] \<longleftrightarrow> (\<exists>data. k = ShadowFile data)"
  by (cases k) auto

lemma skeleton_sel [simp]:
  "files (skeleton s) f = map_option file_tag (files s f)"
  "pipes (skeleton s) p = map_option pipe_tag (pipes s p)"
  "ofds (skeleton s) d = map_option ofd_tag (ofds s d)"
  "nextFile (skeleton s) = nextFile s" "nextPipe (skeleton s) = nextPipe s" "nextOfd (skeleton s) = nextOfd s"
  by (simp_all add: skeleton_def)

lemma skeleton_put_file:
  "files s f = Some x \<Longrightarrow> file_tag y = file_tag x \<Longrightarrow> skeleton (put_file f y s) = skeleton s"
  by (auto simp: skeleton_def put_file_def fun_eq_iff)

lemma skeleton_put_pipe:
  "pipes s p = Some x \<Longrightarrow> pipe_tag y = pipe_tag x \<Longrightarrow> skeleton (put_pipe p y s) = skeleton s"
  by (auto simp: skeleton_def put_pipe_def fun_eq_iff)

lemma skeleton_put_ofd:
  "ofds s d = Some x \<Longrightarrow> ofd_tag y = ofd_tag x \<Longrightarrow> skeleton (put_ofd d y s) = skeleton s"
  by (auto simp: skeleton_def put_ofd_def fun_eq_iff)

lemma get_eq_Inr:
  "get_file f s = Inr x \<longleftrightarrow> files s f = Some x"
  "get_pipe p s = Inr q \<longleftrightarrow> pipes s p = Some q"
  "get_ofd d s = Inr y \<longleftrightarrow> ofds s d = Some y"
  by (auto simp: get_file_def get_pipe_def get_ofd_def split: option.splits)

lemma pipe_read_tag: "pipe_read b n q = (r, q') \<Longrightarrow> pipe_tag q' = pipe_tag q"
  by (auto simp: pipe_read_def pipe_tag_def Let_def split: if_splits)

lemma pipe_write_tag: "pipe_write buf q = (r, q') \<Longrightarrow> pipe_tag q' = pipe_tag q"
  by (auto simp: pipe_write_def pipe_tag_def)

lemmas io_defs = get_eq_Inr rbind_eq_Inr skeleton_put_file skeleton_put_pipe skeleton_put_ofd
  file_tag_def ofd_tag_def

lemmas io_splits = block_or.split_asm errno_or.split_asm if_split_asm

lemma file_read_skeleton:
  assumes "file_read d n s = Inr (r, s')"
  shows "skeleton s' = skeleton s"
proof -
  from assms obtain y f where y: "ofds s d = Some y" "files s (ofd_file y) = Some f"
    by (auto simp: file_read_def io_defs)
  show ?thesis
  proof (cases "fkind f")
    case (PipeEndpoint side p)
    with y assms obtain q where q: "pipes s p = Some q"
      "s' = put_pipe p (snd (pipe_read (flag_test (statusFlags y) STATUS_NONBLOCK) n q)) s"
      by (auto simp: file_read_def io_defs Let_def case_prod_beta)
    show ?thesis
      unfolding q(2) by (rule skeleton_put_pipe [OF q(1)]) (rule pipe_read_tag, rule surjective_pairing)
  qed (use y assms in \<open>auto simp: file_read_def io_defs Let_def case_prod_beta\<close>)
qed

lemma ofd_lseek_skeleton: "ofd_lseek d offset w s = Inr (r, s') \<Longrightarrow> skeleton s' = skeleton s"
  by (auto simp: ofd_lseek_def io_defs split: io_splits)

lemma skeleton_files:
  assumes "skeleton s' = skeleton s" "files s f = Some x"
  obtains y where "files s' f = Some y" "file_tag y = file_tag x"
  using arg_cong [OF assms(1), of "\<lambda>s. files s f"] assms(2) by auto

lemma skeleton_ofds:
  assumes "skeleton s' = skeleton s" "ofds s d = Some x"
  obtains y where "ofds s' d = Some y" "ofd_tag y = ofd_tag x"
  using arg_cong [OF assms(1), of "\<lambda>s. ofds s d"] assms(2) by auto

lemma file_write_skeleton:
  assumes "file_write d buf s = Inr (r, s')"
  shows "skeleton s' = skeleton s"
proof -
  from assms obtain y f where y: "ofds s d = Some y" "files s (ofd_file y) = Some f"
    by (auto simp: file_write_def io_defs)
  show ?thesis
  proof (cases "fkind f")
    case (PipeEndpoint side p)
    with y assms obtain q where q: "pipes s p = Some q" "s' = put_pipe p (snd (pipe_write buf q)) s"
      by (auto simp: file_write_def io_defs Let_def case_prod_beta)
    show ?thesis
      unfolding q(2) by (rule skeleton_put_pipe [OF q(1)]) (rule pipe_write_tag, rule surjective_pairing)
  next
    case (ShadowFile data)
    with y assms obtain k s1 y1 data' where s1:
      "(if flag_test (statusFlags y) STATUS_APPEND then ofd_lseek d 0 SeekEnd s else Inr (0, s)) = Inr (k, s1)"
      "ofds s1 d = Some y1" "s' = put_file (ofd_file y1) (f\<lparr>fkind := ShadowFile data'\<rparr>) s1"
      by (auto simp: file_write_def get_eq_Inr rbind_eq_Inr Let_def case_prod_beta)
    then have sk: "skeleton s1 = skeleton s"
      by (auto split: if_split_asm dest: ofd_lseek_skeleton)
    obtain g where g: "files s1 (ofd_file y) = Some g" "file_tag g = file_tag f"
      using skeleton_files [OF sk y(2)] by blast
    have "ofd_file y1 = ofd_file y"
      using skeleton_ofds [OF sk y(1)] s1(2) by (metis option.inject tag_simps(7))
    moreover have "file_tag (f\<lparr>fkind := ShadowFile data'\<rparr>) = file_tag g"
      using g(2) ShadowFile by (simp add: file_tag_def)
    ultimately show ?thesis
      using skeleton_put_file [OF g(1), of "f\<lparr>fkind := ShadowFile data'\<rparr>"] s1 sk by simp
  qed (use y assms in \<open>auto simp: file_write_def io_defs Let_def case_prod_beta\<close>)
qed

lemma advance_offset_skeleton: "advance_offset d n s = Inr s' \<Longrightarrow> skeleton s' = skeleton s"
  by (auto simp: advance_offset_def io_defs)

lemma set_offset_skeleton: "set_offset d n s = Inr s' \<Longrightarrow> skeleton s' = skeleton s"
  by (auto simp: set_offset_def io_defs)

lemma ofd_read_skeleton:
  assumes "ofd_read d n s = Inr (r, s')"
  shows "skeleton s' = skeleton s"
proof -
  from assms obtain q s1 where q: "file_read d n s = Inr (q, s1)"
    by (auto simp: ofd_read_def rbind_eq_Inr)
  with assms file_read_skeleton [OF q] show ?thesis
  proof (cases q)
    case (Ready v)
    with assms q file_read_skeleton [OF q] show ?thesis
      by (cases v) (auto simp: ofd_read_def rbind_eq_Inr dest: advance_offset_skeleton)
  qed (simp add: ofd_read_def)
qed

lemma ofd_write_skeleton: "ofd_write d buf s = Inr (r, s') \<Longrightarrow> skeleton s' = skeleton s"
  by (auto simp: ofd_write_def rbind_eq_Inr split: if_splits
        dest!: file_write_skeleton advance_offset_skeleton)

lemma ofd_pread_skeleton: "ofd_pread d n k s = Inr (r, s') \<Longrightarrow> skeleton s' = skeleton s"
  apply (clarsimp simp: ofd_pread_def rbind_eq_Inr)
  subgoal for y s1 q s2 s3 by (cases q) (auto dest!: file_read_skeleton set_offset_skeleton)
  done

lemma ofd_pwrite_skeleton: "ofd_pwrite d buf k s = Inr (r, s') \<Longrightarrow> skeleton s' = skeleton s"
  by (auto simp: ofd_pwrite_def rbind_eq_Inr dest!: file_write_skeleton set_offset_skeleton)

lemma writev_loop_skeleton: "writev_loop d bufs n s = Inr (r, s') \<Longrightarrow> skeleton s' = skeleton s"
  by (induction bufs arbitrary: n s)
    (auto simp: rbind_eq_Inr split: io_splits dest!: ofd_write_skeleton)

lemma readv_loop_skeleton: "readv_loop d szs n acc s = Inr (r, b, s') \<Longrightarrow> skeleton s' = skeleton s"
proof (induction szs arbitrary: n acc s)
  case (Cons sz szs)
  then obtain q s1 where q: "ofd_read d sz s = Inr (q, s1)" by (auto simp: rbind_eq_Inr)
  show ?case
  proof (cases q)
    case (Ready v)
    with Cons q ofd_read_skeleton [OF q] show ?thesis
      by (cases v) (auto simp: rbind_eq_Inr split: if_split_asm dest!: Cons.IH)
  qed (use Cons.prems q in simp)
qed simp

section \<open>The invariant\<close>

definition file_of :: "fs \<Rightarrow> nat \<Rightarrow> nat option" where
  "file_of s d = map_option ofd_file (ofds s d)"

definition refs :: "fs \<Rightarrow> nat multiset \<Rightarrow> nat \<Rightarrow> nat" where
  "refs s R f = size {#d \<in># R. file_of s d = Some f#}"

definition pipe_ends :: "pipe_side \<Rightarrow> pipe \<Rightarrow> nat set" where
  "pipe_ends side q = set (case side of ReadSide \<Rightarrow> readEndpoints q | WriteSide \<Rightarrow> writeEndpoints q)"

definition endpoints :: "fs \<Rightarrow> pipe_side \<Rightarrow> nat \<Rightarrow> nat set" where
  "endpoints s side p = {f. \<exists>x. files s f = Some x \<and> fkind x = PipeEndpoint side p}"

definition ofds_ok :: "fs \<Rightarrow> nat multiset \<Rightarrow> nat multiset \<Rightarrow> bool" where
  "ofds_ok s U R \<longleftrightarrow>
     dom (ofds s) = set_mset U \<union> set_mset R \<and>
     (\<forall>d x. ofds s d = Some x \<longrightarrow> ofd_uses x = count U d) \<and>
     (\<forall>d \<in># R. \<exists>f. file_of s d = Some f \<and> f \<in> dom (files s)) \<and>
     (\<forall>d. nextOfd s \<le> d \<longrightarrow> ofds s d = None)"

definition files_ok :: "fs \<Rightarrow> nat multiset \<Rightarrow> nat set \<Rightarrow> bool" where
  "files_ok s R N \<longleftrightarrow>
     (\<forall>f x. files s f = Some x \<longrightarrow>
        refCount x = refs s R f \<and> (0 < refs s R f \<or> f \<in> N) \<and>
        (keepAfterClose (fkind x) \<longrightarrow> deleteAfterClose x)) \<and>
     (\<forall>f. nextFile s \<le> f \<longrightarrow> files s f = None)"

definition pipes_ok :: "fs \<Rightarrow> bool" where
  "pipes_ok s \<longleftrightarrow>
     (\<forall>p q. pipes s p = Some q \<longrightarrow>
        \<not> pipe_closed q \<and> (\<forall>side. pipe_ends side q = endpoints s side p) \<and>
        (readEndpoints q \<noteq> [] \<or> writeEndpoints q \<noteq> [])) \<and>
     (\<forall>side p. endpoints s side p \<noteq> {} \<longrightarrow> pipes s p \<noteq> None) \<and>
     (\<forall>p. nextPipe s \<le> p \<longrightarrow> pipes s p = None)"

definition fs_inv :: "fs \<Rightarrow> nat multiset \<Rightarrow> nat multiset \<Rightarrow> nat set \<Rightarrow> bool" where
  "fs_inv s U R N \<longleftrightarrow> ofds_ok s U R \<and> files_ok s R N \<and> pipes_ok s"

lemma keepAfterClose_tag [simp]: "keepAfterClose (kind_tag k) = keepAfterClose k"
  by (cases k) auto

lemma pipe_ends_tag [simp]: "pipe_ends side (pipe_tag q) = pipe_ends side q"
  by (simp add: pipe_ends_def pipe_tag_def split: pipe_side.split)

lemma file_of_skeleton [simp]: "file_of (skeleton s) = file_of s"
  by (rule ext) (simp add: file_of_def option.map_comp comp_def)

lemma refs_skeleton [simp]: "refs (skeleton s) = refs s"
  by (intro ext) (simp add: refs_def)

lemma endpoints_skeleton [simp]: "endpoints (skeleton s) = endpoints s"
  by (intro ext) (auto simp: endpoints_def)

lemma dom_skeleton [simp]:
  "dom (files (skeleton s)) = dom (files s)" "dom (ofds (skeleton s)) = dom (ofds s)"
  by (auto simp: dom_def)

lemma all_image_iff: "(\<forall>x. (\<exists>z. m = Some z \<and> g z = x) \<longrightarrow> P x) = (\<forall>z. m = Some z \<longrightarrow> P (g z))"
  by auto

lemma fs_inv_skeleton [simp]: "fs_inv (skeleton s) U R N = fs_inv s U R N"
proof -
  have "ofds_ok (skeleton s) U R = ofds_ok s U R"
    by (simp add: ofds_ok_def all_image_iff)
  moreover have "files_ok (skeleton s) R N = files_ok s R N"
    by (simp add: files_ok_def all_image_iff)
  moreover have "pipes_ok (skeleton s) = pipes_ok s"
    by (simp add: pipes_ok_def all_image_iff)
  ultimately show ?thesis by (simp add: fs_inv_def)
qed

lemma fs_inv_io: "skeleton s' = skeleton s \<Longrightarrow> fs_inv s U R N \<Longrightarrow> fs_inv s' U R N"
  by (metis fs_inv_skeleton)

section \<open>References and uses\<close>

lemma put_sel [simp]:
  "files (put_file f x s) = (files s)(f \<mapsto> x)" "pipes (put_file f x s) = pipes s" "ofds (put_file f x s) = ofds s"
  "nextFile (put_file f x s) = nextFile s" "nextPipe (put_file f x s) = nextPipe s" "nextOfd (put_file f x s) = nextOfd s"
  "files (put_ofd d y s) = files s" "pipes (put_ofd d y s) = pipes s" "ofds (put_ofd d y s) = (ofds s)(d \<mapsto> y)"
  "nextFile (put_ofd d y s) = nextFile s" "nextPipe (put_ofd d y s) = nextPipe s" "nextOfd (put_ofd d y s) = nextOfd s"
  "files (put_pipe p q s) = files s" "pipes (put_pipe p q s) = (pipes s)(p \<mapsto> q)" "ofds (put_pipe p q s) = ofds s"
  "nextFile (put_pipe p q s) = nextFile s" "nextPipe (put_pipe p q s) = nextPipe s" "nextOfd (put_pipe p q s) = nextOfd s"
  by (simp_all add: put_file_def put_ofd_def put_pipe_def)

lemma file_of_cong: "ofds s' = ofds s \<Longrightarrow> file_of s' = file_of s"
  by (rule ext) (simp add: file_of_def)

lemma refs_cong: "ofds s' = ofds s \<Longrightarrow> refs s' = refs s"
  by (intro ext) (simp add: refs_def file_of_cong [of s' s])

lemma refs_eqI: "(\<And>e. e \<in># R \<Longrightarrow> file_of s' e = file_of s e) \<Longrightarrow> refs s' R f = refs s R f"
  unfolding refs_def by (rule arg_cong [where f = size], rule filter_mset_cong) simp_all

lemma pipes_ok_cong:
  "pipes s' = pipes s \<Longrightarrow> nextPipe s' = nextPipe s \<Longrightarrow> endpoints s' = endpoints s \<Longrightarrow> pipes_ok s' = pipes_ok s"
  by (simp add: pipes_ok_def)

lemma endpoints_put_file:
  "files s f = Some x \<Longrightarrow> fkind y = fkind x \<Longrightarrow> endpoints (put_file f y s) = endpoints s"
  by (intro ext) (auto simp: endpoints_def)

lemma refs_add_mset [simp]:
  "refs s (add_mset d R) f = (if file_of s d = Some f then Suc (refs s R f) else refs s R f)"
  by (simp add: refs_def)

lemma files_ok_cong:
  "files s' = files s \<Longrightarrow> nextFile s' = nextFile s \<Longrightarrow> refs s' R = refs s R \<Longrightarrow> files_ok s' R N = files_ok s R N"
  by (simp only: files_ok_def)

lemma add_ref_inv:
  assumes "fs_inv s U R N" "d \<in> dom (ofds s)" "file_of s d = Some f" "add_ref f s = Inr s'"
  shows "fs_inv s' U (add_mset d R) (N - {f})"
proof -
  from assms(4) obtain x where x: "files s f = Some x"
    and s': "s' = put_file f (x\<lparr>refCount := refCount x + 1\<rparr>) s"
    by (auto simp: add_ref_def io_defs)
  note inv = assms(1) [unfolded fs_inv_def]
  have sel: "ofds s' = ofds s" "pipes s' = pipes s" "nextFile s' = nextFile s"
    "nextPipe s' = nextPipe s" "nextOfd s' = nextOfd s" "dom (files s') = dom (files s)"
    using x by (auto simp: s')
  have of: "file_of s' = file_of s" and rf: "refs s' = refs s"
    by (rule file_of_cong refs_cong; rule sel)+
  have ep: "endpoints s' = endpoints s"
    unfolding s' by (rule endpoints_put_file [OF x]) simp
  have "ofds_ok s' U (add_mset d R)"
    using inv assms(2,3) x unfolding ofds_ok_def of sel by auto
  moreover have "files_ok s' (add_mset d R) (N - {f})"
    unfolding files_ok_def rf refs_add_mset sel
  proof (intro conjI allI impI)
    fix g z assume g: "files s' g = Some z"
    show "refCount z = (if file_of s d = Some g then Suc (refs s R g) else refs s R g)"
      using g inv assms(3) x by (auto simp: s' files_ok_def split: if_split_asm)
    show "0 < (if file_of s d = Some g then Suc (refs s R g) else refs s R g) \<or> g \<in> N - {f}"
      using g inv x assms(3) unfolding s' files_ok_def by (cases "g = f") auto
    show "deleteAfterClose z" if "keepAfterClose (fkind z)"
      using that g inv x unfolding s' files_ok_def by (cases "g = f") auto
  next
    fix g assume "nextFile s \<le> g"
    with inv have "files s g = None" by (simp add: files_ok_def)
    with x show "files s' g = None" by (auto simp: s')
  qed
  moreover have "pipes_ok s'"
    using inv by (simp add: pipes_ok_cong [of s' s] ep sel)
  ultimately show ?thesis by (simp add: fs_inv_def)
qed

lemma fs_inv_mono: "fs_inv s U R N \<Longrightarrow> N \<subseteq> N' \<Longrightarrow> fs_inv s U R N'"
  unfolding fs_inv_def files_ok_def by blast

lemma fs_inv_drop: "fs_inv s U R (insert f N) \<Longrightarrow> 0 < refs s R f \<Longrightarrow> fs_inv s U R N"
  unfolding fs_inv_def files_ok_def by (metis insertE)

lemma ref_ofd_inv:
  assumes "fs_inv s U R N" "ref_ofd d s = Inr s'"
  shows "fs_inv s' U (add_mset d R) N"
proof -
  from assms(2) obtain y where y: "ofds s d = Some y" "add_ref (ofd_file y) s = Inr s'"
    by (auto simp: ref_ofd_def io_defs)
  then have "fs_inv s' U (add_mset d R) (N - {ofd_file y})"
    by (intro add_ref_inv [OF assms(1)]) (auto simp: file_of_def)
  then show ?thesis by (rule fs_inv_mono) blast
qed

lemma share_ofd_inv:
  assumes "fs_inv s U R N" "share_ofd d s = Inr s'"
  shows "fs_inv s' (add_mset d U) R N"
proof -
  from assms(2) obtain y where y: "ofds s d = Some y"
    and s': "s' = put_ofd d (y\<lparr>ofd_uses := Suc (ofd_uses y)\<rparr>) s"
    by (auto simp: share_ofd_def io_defs)
  note inv = assms(1) [unfolded fs_inv_def]
  have sel: "files s' = files s" "pipes s' = pipes s" "nextFile s' = nextFile s"
    "nextPipe s' = nextPipe s" "nextOfd s' = nextOfd s"
    by (simp_all add: s')
  have dom: "dom (ofds s') = dom (ofds s)" "d \<in> dom (ofds s)"
    using y by (auto simp: s')
  have of: "file_of s' = file_of s"
    by (rule ext) (simp add: y s' file_of_def)
  then have rf: "refs s' = refs s"
    by (intro ext) (simp add: refs_def)
  have ep: "endpoints s' = endpoints s"
    by (intro ext) (simp add: sel endpoints_def)
  have "ofd_uses x = count (add_mset d U) e" if "ofds s' e = Some x" for e x
    using that inv y by (auto simp: ofds_ok_def s' split: if_split_asm)
  moreover have "nextOfd s' \<le> e \<Longrightarrow> ofds s' e = None" for e
    using inv y by (auto simp: ofds_ok_def s')
  ultimately have "ofds_ok s' (add_mset d U) R"
    using inv dom unfolding ofds_ok_def of sel by auto
  with inv show ?thesis
    by (simp add: fs_inv_def files_ok_cong [of s' s] pipes_ok_cong [of s' s] rf ep sel)
qed

lemma release_ofd_inv:
  assumes "fs_inv s (add_mset d U) R N" "R \<subseteq># U" "release_ofd d s = Inr s'"
  shows "fs_inv s' U R N"
proof -
  from assms(3) obtain y where y: "ofds s d = Some y"
    and s': "s' = (if ofd_uses y \<le> 1 then s\<lparr>ofds := (ofds s)(d := None)\<rparr>
                   else put_ofd d (y\<lparr>ofd_uses := ofd_uses y - 1\<rparr>) s)"
    by (auto simp: release_ofd_def io_defs)
  note inv = assms(1) [unfolded fs_inv_def]
  have uses: "ofd_uses y = Suc (count U d)"
    using inv y by (auto simp: ofds_ok_def)
  have R: "e \<in># R \<Longrightarrow> e \<in># U" for e
    using assms(2) by (rule mset_subset_eqD)
  have sel: "files s' = files s" "pipes s' = pipes s" "nextFile s' = nextFile s"
    "nextPipe s' = nextPipe s" "nextOfd s' = nextOfd s"
    by (simp_all add: s')
  have of: "file_of s' e = file_of s e" if "e \<in># U" for e
    using that uses y by (auto simp: file_of_def s')
  have rf: "refs s' R = refs s R"
    using R of by (auto simp: refs_def fun_eq_iff intro!: arg_cong [where f = size] filter_mset_cong)
  have ep: "endpoints s' = endpoints s"
    by (intro ext) (simp add: endpoints_def sel)
  have "ofds_ok s' U R"
  proof -
    have "dom (ofds s') = set_mset U"
    proof (cases "d \<in># U")
      case True
      then have "\<not> ofd_uses y \<le> 1" by (simp add: uses count_eq_zero_iff)
      then have "dom (ofds s') = dom (ofds s)" using y by (auto simp: s')
      with True inv R show ?thesis by (auto simp: ofds_ok_def)
    next
      case False
      then have "count U d = 0" by (simp add: not_in_iff)
      with False have "dom (ofds s') = dom (ofds s) - {d}" using uses by (auto simp: s')
      with False inv R show ?thesis by (auto simp: ofds_ok_def)
    qed
    moreover have "ofd_uses x = count U e" if "ofds s' e = Some x" for e x
      using that inv uses y by (auto simp: ofds_ok_def s' split: if_split_asm)
    moreover have "\<forall>e\<in>#R. \<exists>f. file_of s' e = Some f \<and> f \<in> dom (files s')"
      using inv R of by (simp add: ofds_ok_def sel)
    moreover have "nextOfd s \<le> e \<Longrightarrow> ofds s' e = None" for e
      using inv y by (auto simp: ofds_ok_def s')
    ultimately show ?thesis using R by (auto simp: ofds_ok_def sel)
  qed
  with inv show ?thesis
    by (simp add: fs_inv_def files_ok_cong [of s' s] pipes_ok_cong [of s' s] rf ep sel)
qed

section \<open>Closing\<close>

lemma refs_eq_0: "refs s R f = 0 \<longleftrightarrow> (\<forall>d \<in># R. file_of s d \<noteq> Some f)"
  by (simp add: refs_def filter_mset_eq_conv)

lemma unref_inv:
  assumes "fs_inv s U (add_mset d R) N" "d \<in># U" "file_of s d = Some f" "unref f s = Inr s'"
  shows "fs_inv s' U R (insert f N)"
proof -
  from assms(4) obtain x where x: "files s f = Some x"
    and s': "s' = put_file f (x\<lparr>refCount := refCount x - 1\<rparr>) s"
    by (auto simp: unref_def io_defs split: if_split_asm)
  note inv = assms(1) [unfolded fs_inv_def]
  have sel: "ofds s' = ofds s" "pipes s' = pipes s" "nextFile s' = nextFile s"
    "nextPipe s' = nextPipe s" "nextOfd s' = nextOfd s" "dom (files s') = dom (files s)"
    using x by (auto simp: s')
  have of: "file_of s' = file_of s" and rf: "refs s' = refs s"
    by (rule file_of_cong refs_cong; rule sel)+
  have ep: "endpoints s' = endpoints s"
    unfolding s' by (rule endpoints_put_file [OF x]) simp
  have "ofds_ok s' U R"
    using inv assms(2,3) x unfolding ofds_ok_def of sel by auto
  moreover have "files_ok s' R (insert f N)"
    unfolding files_ok_def rf sel
  proof (intro conjI allI impI)
    fix g z assume g: "files s' g = Some z"
    show "refCount z = refs s R g"
      using g inv assms(3) x by (auto simp: s' files_ok_def split: if_split_asm)
    show "0 < refs s R g \<or> g \<in> insert f N"
      using g inv x assms(3) unfolding s' files_ok_def by (cases "g = f") (auto split: if_split_asm)
    show "deleteAfterClose z" if "keepAfterClose (fkind z)"
      using that g inv x unfolding s' files_ok_def by (cases "g = f") auto
  next
    fix g assume "nextFile s \<le> g"
    with inv have "files s g = None" by (simp add: files_ok_def)
    with x show "files s' g = None" by (auto simp: s')
  qed
  moreover have "pipes_ok s'"
    using inv by (simp add: pipes_ok_cong [of s' s] ep sel)
  ultimately show ?thesis by (simp add: fs_inv_def)
qed

lemma removed_sel [simp]:
  "files (removeFromOrphans f s) = (files s)(f := None)" "pipes (removeFromOrphans f s) = pipes s"
  "ofds (removeFromOrphans f s) = ofds s" "nextFile (removeFromOrphans f s) = nextFile s"
  "nextPipe (removeFromOrphans f s) = nextPipe s" "nextOfd (removeFromOrphans f s) = nextOfd s"
  "files (removeClosedPipes s) = files s" "ofds (removeClosedPipes s) = ofds s"
  "nextFile (removeClosedPipes s) = nextFile s" "nextPipe (removeClosedPipes s) = nextPipe s"
  "nextOfd (removeClosedPipes s) = nextOfd s"
  by (simp_all add: removeFromOrphans_def removeClosedPipes_def)

lemma endpoints_removed: "files s' = (files s)(f := None) \<Longrightarrow> endpoints s' side p = endpoints s side p - {f}"
  by (auto simp: endpoints_def split: if_split_asm)

lemma remove_file_inv:
  assumes inv: "fs_inv s U R (insert f N)" "refs s R f = 0"
    and s': "files s' = (files s)(f := None)" "ofds s' = ofds s" "nextFile s' = nextFile s"
      "nextOfd s' = nextOfd s"
    and pipes: "pipes_ok s'"
  shows "fs_inv s' U R N"
proof -
  have of: "file_of s' = file_of s" and rf: "refs s' = refs s"
    by (rule file_of_cong refs_cong; rule s'(2))+
  have "\<exists>g. file_of s d = Some g \<and> g \<in> dom (files s')" if "d \<in># R" for d
  proof -
    from inv(1) that obtain g where "file_of s d = Some g" "g \<in> dom (files s)"
      unfolding fs_inv_def ofds_ok_def by blast
    moreover from this inv(2) that have "g \<noteq> f" by (auto simp: refs_eq_0)
    ultimately show ?thesis by (auto simp: s')
  qed
  with inv(1) have "ofds_ok s' U R"
    unfolding fs_inv_def ofds_ok_def of s' by blast
  moreover have "files_ok s' R N"
    using inv unfolding fs_inv_def files_ok_def rf s' by (auto split: if_split_asm)
  ultimately show ?thesis using pipes by (simp add: fs_inv_def)
qed

lemma pipe_ends_closed:
  "pipe_ends side (q\<lparr>readEndpoints := filter (\<lambda>e. e \<noteq> f) (readEndpoints q),
                     writeEndpoints := filter (\<lambda>e. e \<noteq> f) (writeEndpoints q)\<rparr>) = pipe_ends side q - {f}"
  by (auto simp: pipe_ends_def split: pipe_side.split)

lemma close_endpoint_pipes_ok:
  assumes ok: "pipes_ok s" and q: "pipes s p = Some q" and e: "closedEndpoint f q = Inr q'"
    and f: "files s f = Some x" "fkind x = PipeEndpoint side p"
    and s': "s' = removeFromOrphans f (removeClosedPipes (put_pipe p q' s))"
  shows "pipes_ok s'"
proof -
  have ep: "endpoints s' sd r = endpoints s sd r - {f}" for sd r
    by (rule endpoints_removed) (simp add: s')
  have other: "f \<notin> endpoints s sd r" if "r \<noteq> p" for sd r
    using that f by (simp add: endpoints_def)
  let ?q = "q\<lparr>readEndpoints := filter (\<lambda>e. e \<noteq> f) (readEndpoints q),
               writeEndpoints := filter (\<lambda>e. e \<noteq> f) (writeEndpoints q)\<rparr>"
  have ends: "pipe_ends sd ?q = endpoints s' sd p" for sd
    using ok q unfolding pipe_ends_closed ep by (auto simp: pipes_ok_def)
  have not_closed: "pipes s r = Some z \<Longrightarrow> \<not> pipe_closed z" for r z
    using ok by (auto simp: pipes_ok_def)
  have pipes': "pipes s' = (if readEndpoints ?q = [] \<and> writeEndpoints ?q = [] then (pipes s)(p := None)
                            else (pipes s)(p \<mapsto> ?q))"
    using e not_closed q by (auto simp: s' removeClosedPipes_def closedEndpoint_def pipe_close_def Let_def
        fun_eq_iff split: option.splits if_splits)
  have gone: "endpoints s' sd p = {}" if "readEndpoints ?q = []" "writeEndpoints ?q = []" for sd
    using ends [of sd] that by (cases sd) (simp_all add: pipe_ends_def)
  have nxt: "nextPipe s' = nextPipe s" by (simp add: s')
  show ?thesis
    unfolding pipes_ok_def nxt
  proof (intro conjI allI impI)
    fix r z assume z: "pipes s' r = Some z"
    show "\<not> pipe_closed z"
      using z pipes' not_closed q by (auto split: if_split_asm)
    show "pipe_ends sd z = endpoints s' sd r" for sd
    proof (cases "r = p")
      case True with z pipes' ends show ?thesis by (auto split: if_split_asm)
    next
      case False
      with z pipes' have "pipes s r = Some z" by (auto split: if_split_asm)
      with ok have "pipe_ends sd z = endpoints s sd r" by (auto simp: pipes_ok_def)
      with other [OF False] show ?thesis by (simp add: ep)
    qed
    show "readEndpoints z \<noteq> [] \<or> writeEndpoints z \<noteq> []"
      using z pipes' ok by (auto simp: pipes_ok_def split: if_split_asm)
  next
    fix sd r assume ne: "endpoints s' sd r \<noteq> {}"
    then have "endpoints s sd r \<noteq> {}" by (auto simp: ep)
    with ok have "pipes s r \<noteq> None" by (simp add: pipes_ok_def)
    with ne gone pipes' show "pipes s' r \<noteq> None" by (auto split: if_split_asm)
  next
    fix r assume "nextPipe s \<le> r"
    then have "pipes s r = None" using ok by (simp add: pipes_ok_def)
    with q pipes' show "pipes s' r = None" by (auto split: if_split_asm)
  qed
qed

lemma fs_close_inv:
  assumes inv: "fs_inv s U (add_mset (fd_ofd desc) R) N" "fd_ofd desc \<in># U"
    and close: "fs_close (Some desc) s = Inr (ret, s')"
  shows "ret = 0" "fs_inv s' U R N"
proof -
  let ?d = "fd_ofd desc"
  from close obtain y s1 x where y: "ofds s ?d = Some y" and s1: "unref (ofd_file y) s = Inr s1"
    and x: "files s1 (ofd_file y) = Some x"
    and rest: "(if refCount x = 0
          then rbind (file_close (ofd_file y) s1) (\<lambda>s.
               let s = (if isPipe (fkind x) then removeClosedPipes s else s);
                   s = (if \<not> keepAfterClose (fkind x) \<or> deleteAfterClose x
                        then removeFromOrphans (ofd_file y) s else s)
               in Inr (0, s))
          else Inr (0, s1)) = Inr (ret, s')"
    by (auto simp: fs_close_def get_eq_Inr rbind_eq_Inr Let_def)
  have inv1: "fs_inv s1 U R (insert (ofd_file y) N)"
    by (rule unref_inv [OF inv _ s1]) (simp add: file_of_def y)
  then have ok: "pipes_ok s1" and x': "refCount x = refs s1 R (ofd_file y)"
      "keepAfterClose (fkind x) \<Longrightarrow> deleteAfterClose x"
    using x by (auto simp: fs_inv_def files_ok_def)
  show "ret = 0"
    using rest by (auto simp: rbind_eq_Inr Let_def split: if_split_asm)
  show "fs_inv s' U R N"
  proof (cases "refCount x = 0")
    case False
    with rest have "s' = s1" by simp
    moreover have "0 < refs s1 R (ofd_file y)" using False x' by simp
    ultimately show ?thesis
      using fs_inv_drop [OF inv1] by simp
  next
    case True
    then have r0: "refs s1 R (ofd_file y) = 0" by (simp add: x')
    from True rest x'(2) obtain s2 where s2: "file_close (ofd_file y) s1 = Inr s2"
      and s': "s' = removeFromOrphans (ofd_file y) (if isPipe (fkind x) then removeClosedPipes s2 else s2)"
      by (auto simp: rbind_eq_Inr Let_def)
    show ?thesis
    proof (cases "fkind x")
      case (PipeEndpoint side p)
      with s2 x obtain q q' where q: "pipes s1 p = Some q" "closedEndpoint (ofd_file y) q = Inr q'"
        "s2 = put_pipe p q' s1"
        by (auto simp: file_close_def io_defs)
      have "pipes_ok s'"
        by (rule close_endpoint_pipes_ok [OF ok q(1,2) x PipeEndpoint]) (simp add: s' PipeEndpoint q)
      then show ?thesis
        by (intro remove_file_inv [OF inv1 r0]) (simp_all add: s' q PipeEndpoint)
    next
      case other: (EventFile c)
      have ep: "endpoints s' = endpoints s1"
        using x other s2 unfolding s' by (intro ext) (auto simp: endpoints_def file_close_def get_file_def)
      have "s2 = s1" using x other s2 by (auto simp: file_close_def get_file_def)
      with ok ep show ?thesis
        by (intro remove_file_inv [OF inv1 r0]) (simp_all add: s' other pipes_ok_def)
    next
      case other: (EpollFile es)
      have ep: "endpoints s' = endpoints s1"
        using x other s2 unfolding s' by (intro ext) (auto simp: endpoints_def file_close_def get_file_def)
      have "s2 = s1" using x other s2 by (auto simp: file_close_def get_file_def)
      with ok ep show ?thesis
        by (intro remove_file_inv [OF inv1 r0]) (simp_all add: s' other pipes_ok_def)
    next
      case other: (ShadowFile data)
      have ep: "endpoints s' = endpoints s1"
        using x other s2 unfolding s' by (intro ext) (auto simp: endpoints_def file_close_def get_file_def)
      have "s2 = s1" using x other s2 by (auto simp: file_close_def get_file_def)
      with ok ep show ?thesis
        by (intro remove_file_inv [OF inv1 r0]) (simp_all add: s' other pipes_ok_def)
    qed
  qed
qed

text \<open>Closing a descriptor that is counted cannot fail.\<close>

lemma fs_close_succeeds:
  assumes inv: "fs_inv s U (add_mset (fd_ofd desc) R) N" "fd_ofd desc \<in># U"
  shows "\<exists>s'. fs_close (Some desc) s = Inr (0, s')"
proof -
  let ?d = "fd_ofd desc"
  from inv obtain f where f: "file_of s ?d = Some f" "f \<in> dom (files s)"
    by (auto simp: fs_inv_def ofds_ok_def)
  then obtain y x where y: "ofds s ?d = Some y" "ofd_file y = f" and x: "files s f = Some x"
    by (auto simp: file_of_def)
  have "refCount x = refs s (add_mset ?d R) f" using inv x by (simp add: fs_inv_def files_ok_def)
  then have pos: "refCount x > 0" using f by simp
  define s1 where "s1 = put_file f (x\<lparr>refCount := refCount x - 1\<rparr>) s"
  have s1: "unref f s = Inr s1" using x pos by (simp add: unref_def get_file_def s1_def)
  have "\<exists>s2. file_close f s1 = Inr s2"
  proof (cases "fkind x")
    case (PipeEndpoint side p)
    then have "endpoints s side p \<noteq> {}" using x by (auto simp: endpoints_def)
    then obtain q where "pipes s p = Some q" using inv unfolding fs_inv_def pipes_ok_def by blast
    then show ?thesis
      using PipeEndpoint by (auto simp: file_close_def get_file_def get_pipe_def s1_def closedEndpoint_def
          pipe_close_def Let_def)
  qed (simp_all add: file_close_def get_file_def s1_def)
  then show ?thesis
    using y s1 by (auto simp: fs_close_def get_ofd_def get_file_def Let_def s1_def)
qed

section \<open>Tables\<close>

definition slot :: "descriptor \<Rightarrow> nat multiset" where
  "slot e = (case e of None \<Rightarrow> {#} | Some desc \<Rightarrow> {#fd_ofd desc#})"

fun table_ofds :: "fd_table \<Rightarrow> nat multiset" where
  "table_ofds [] = {#}"
| "table_ofds (e # t) = slot e + table_ofds t"

lemma slot_simps [simp]: "slot None = {#}" "slot (Some desc) = {#fd_ofd desc#}"
  by (simp_all add: slot_def)

lemma table_ofds_append [simp]: "table_ofds (t @ u) = table_ofds t + table_ofds u"
  by (induction t) (simp_all add: ac_simps)

lemma table_ofds_empty [simp]: "table_ofds (replicate n None) = {#}"
  by (induction n) simp_all

lemma table_ofds_update:
  "i < length t \<Longrightarrow> table_ofds (t[i := x]) + slot (t ! i) = table_ofds t + slot x"
proof (induction t arbitrary: i)
  case (Cons e t)
  show ?case
  proof (cases i)
    case (Suc j)
    with Cons have "table_ofds (t[j := x]) + slot (t ! j) = table_ofds t + slot x" by simp
    with Suc show ?thesis by (simp add: ac_simps)
  qed (simp add: ac_simps)
qed simp

lemma table_ofds_none: "i < length t \<Longrightarrow> t ! i = None \<Longrightarrow> table_ofds (t[i := Some desc]) = add_mset (fd_ofd desc) (table_ofds t)"
  using table_ofds_update [of i t "Some desc"] by simp

lemma table_ofds_some: "i < length t \<Longrightarrow> t ! i = Some desc \<Longrightarrow> table_ofds t = add_mset (fd_ofd desc) (table_ofds (t[i := None]))"
  using table_ofds_update [of i t None] by simp

lemma findFileDescriptor_Some:
  "findFileDescriptor fd t = Some desc \<Longrightarrow> 0 \<le> fd \<and> nat fd < length t \<and> t ! nat fd = Some desc"
  by (auto simp: findFileDescriptor_def split: if_split_asm)

lemma first_free_le: "first_free t \<le> length t"
  by (induction t rule: first_free.induct) simp_all

lemma first_free_None: "first_free t < length t \<Longrightarrow> t ! first_free t = None"
  by (induction t rule: first_free.induct) simp_all

lemma first_free_least: "i < first_free t \<Longrightarrow> t ! i \<noteq> None"
proof (induction t arbitrary: i rule: first_free.induct)
  case (3 d ds) then show ?case by (cases i) simp_all
qed simp_all

lemma allocateFd_free:
  assumes "allocateFd t = (fd, t')"
  shows "fd = int (first_free t)" "nat fd < length t'" "t' ! nat fd = None" "table_ofds t' = table_ofds t"
  using assms first_free_le [of t]
  by (auto simp: allocateFd_def Let_def first_free_None nth_append split: if_split_asm)

lemma assign_new_inv:
  assumes "fs_inv s (table_ofds t + E) R N"
    and a: "assign_fd fd (Some desc) t s = Inr (t', s')" "t ! nat fd = None"
  shows "table_ofds t' = add_mset (fd_ofd desc) (table_ofds t)"
    "fs_inv s' (table_ofds t' + E) R N"
proof -
  from a have fd: "0 \<le> fd" "nat fd < length t" "share_ofd (fd_ofd desc) s = Inr s'" "t' = t[nat fd := Some desc]"
    by (auto simp: assign_fd_def rbind_eq_Inr split: if_split_asm)
  show t': "table_ofds t' = add_mset (fd_ofd desc) (table_ofds t)"
    unfolding fd(4) by (rule table_ofds_none [OF fd(2) a(2)])
  show "fs_inv s' (table_ofds t' + E) R N"
    using share_ofd_inv [OF assms(1) fd(3)] by (simp add: t')
qed

lemma install_inv:
  assumes "fs_inv s (table_ofds t + E) R N"
    and i: "install desc t s = Inr (fd, t', s')"
  shows "table_ofds t' = add_mset (fd_ofd desc) (table_ofds t)"
    "fs_inv s' (table_ofds t' + E) R N"
proof -
  obtain k u where u: "allocateFd t = (k, u)" by (cases "allocateFd t")
  from i u have "assign_fd k (Some desc) u s = Inr (t', s')"
    by (auto simp: install_def rbind_eq_Inr)
  from assign_new_inv [OF _ this, of E R N] allocateFd_free [OF u] assms(1)
  show "table_ofds t' = add_mset (fd_ofd desc) (table_ofds t)"
    "fs_inv s' (table_ofds t' + E) R N"
    by simp_all
qed

lemma fds_close_inv:
  assumes inv: "fs_inv s (table_ofds t + E) (table_ofds t + E) {}"
    and close: "fds_close fd t s = Inr (ret, t', s')"
  shows "fs_inv s' (table_ofds t' + E) (table_ofds t' + E) {}"
    and "t' = (case findFileDescriptor fd t of None \<Rightarrow> t | Some desc \<Rightarrow> t[nat fd := None])"
    and "findFileDescriptor fd t \<noteq> None \<Longrightarrow> ret = 0"
proof -
  show "fs_inv s' (table_ofds t' + E) (table_ofds t' + E) {}"
    "t' = (case findFileDescriptor fd t of None \<Rightarrow> t | Some desc \<Rightarrow> t[nat fd := None])"
    "findFileDescriptor fd t \<noteq> None \<Longrightarrow> ret = 0"
  proof (atomize (full), cases "findFileDescriptor fd t")
    case None
    with close inv show "fs_inv s' (table_ofds t' + E) (table_ofds t' + E) {} \<and>
      t' = (case findFileDescriptor fd t of None \<Rightarrow> t | Some desc \<Rightarrow> t[nat fd := None]) \<and>
      (findFileDescriptor fd t \<noteq> None \<longrightarrow> ret = 0)"
      by (auto simp: fds_close_def)
  next
    case (Some desc)
    note at = findFileDescriptor_Some [OF Some]
    let ?u = "t[nat fd := None]"
    have t: "table_ofds t = add_mset (fd_ofd desc) (table_ofds ?u)"
      using at by (intro table_ofds_some) auto
    from Some close obtain r s1 where s1: "fs_close (Some desc) s = Inr (r, s1)"
      by (auto simp: fds_close_def rbind_eq_Inr)
    have inv1: "fs_inv s (table_ofds t + E) (add_mset (fd_ofd desc) (table_ofds ?u + E)) {}"
      using inv by (simp add: t)
    note c = fs_close_inv [OF inv1 _ s1]
    have "r = 0" "fs_inv s1 (table_ofds t + E) (table_ofds ?u + E) {}"
      using c t by simp_all
    moreover from this Some close s1 at have "release_ofd (fd_ofd desc) s1 = Inr s'" "t' = ?u" "ret = 0"
      by (auto simp: fds_close_def rbind_eq_Inr assign_fd_def split: if_split_asm)
    ultimately show "fs_inv s' (table_ofds t' + E) (table_ofds t' + E) {} \<and>
      t' = (case findFileDescriptor fd t of None \<Rightarrow> t | Some desc \<Rightarrow> t[nat fd := None]) \<and>
      (findFileDescriptor fd t \<noteq> None \<longrightarrow> ret = 0)"
      using release_ofd_inv [of s1 "fd_ofd desc" "table_ofds ?u + E" "table_ofds ?u + E"] Some t by simp
  qed
qed

section \<open>New files\<close>

lemma new_file_sel [simp]:
  "fst (new_file kind del s) = nextFile s"
  "files (snd (new_file kind del s)) = (files s)(nextFile s \<mapsto> \<lparr>fkind = kind, refCount = 0, deleteAfterClose = del\<rparr>)"
  "pipes (snd (new_file kind del s)) = pipes s" "ofds (snd (new_file kind del s)) = ofds s"
  "nextFile (snd (new_file kind del s)) = Suc (nextFile s)"
  "nextPipe (snd (new_file kind del s)) = nextPipe s" "nextOfd (snd (new_file kind del s)) = nextOfd s"
  by (simp_all add: new_file_def)

lemma refs_fresh:
  assumes "ofds_ok s U R" "files s f = None"
  shows "refs s R f = 0"
  using assms unfolding refs_eq_0 ofds_ok_def by (auto simp: dom_def)

lemma new_file_parts:
  assumes inv: "ofds_ok s U R" "files_ok s R N" and keep: "keepAfterClose kind \<longrightarrow> del"
    and s': "s' = snd (new_file kind del s)"
  shows "ofds_ok s' U R" "files_ok s' R (insert (nextFile s) N)"
proof -
  have fresh: "files s (nextFile s) = None" using inv by (simp add: files_ok_def)
  have of: "file_of s' = file_of s" and rf: "refs s' = refs s"
    by (rule file_of_cong refs_cong; simp add: s')+
  have "d \<in># R \<Longrightarrow> \<exists>f. file_of s d = Some f \<and> f \<in> dom (files s')" for d
    using inv(1) unfolding ofds_ok_def s' by (metis dom_fun_upd insertI2 new_file_sel(2) option.distinct(1))
  with inv show "ofds_ok s' U R"
    unfolding ofds_ok_def of by (simp add: s')
  show "files_ok s' R (insert (nextFile s) N)"
    unfolding files_ok_def rf
  proof (intro conjI allI impI)
    fix g x assume g: "files s' g = Some x"
    show "refCount x = refs s R g"
      using g inv refs_fresh [OF inv(1) fresh] by (auto simp: s' files_ok_def split: if_split_asm)
    show "0 < refs s R g \<or> g \<in> insert (nextFile s) N"
      using g inv unfolding s' files_ok_def by (cases "g = nextFile s") auto
    show "deleteAfterClose x" if "keepAfterClose (fkind x)"
      using g that inv keep unfolding s' files_ok_def by (cases "g = nextFile s") auto
  next
    fix g assume "nextFile s' \<le> g"
    then have "nextFile s \<noteq> g" "nextFile s \<le> g" by (simp_all add: s')
    with inv show "files s' g = None" by (simp add: s' files_ok_def)
  qed
qed

lemma new_file_ok:
  assumes "fs_inv s U R N" "keepAfterClose kind \<longrightarrow> del" "s' = snd (new_file kind del s)"
  shows "ofds_ok s' U R" "files_ok s' R (insert (nextFile s) N)"
  using new_file_parts [of s U R N kind del s'] assms by (simp_all add: fs_inv_def)

lemma new_file_inv:
  assumes inv: "fs_inv s U R N" and keep: "keepAfterClose kind \<longrightarrow> del" and np: "\<not> isPipe kind"
    and new: "new_file kind del s = (f, s')"
  shows "fs_inv s' U R (insert f N)" "f \<in> dom (files s')"
proof -
  have s': "s' = snd (new_file kind del s)" and f: "f = nextFile s"
    using new by (auto simp: new_file_def)
  have fresh: "files s f = None" using inv by (simp add: f fs_inv_def files_ok_def)
  have ep: "endpoints s' = endpoints s"
    using np fresh by (intro ext) (auto simp: endpoints_def s' f)
  have "pipes_ok s' = pipes_ok s"
    by (rule pipes_ok_cong [OF _ _ ep]) (simp_all add: s')
  with inv have "pipes_ok s'" by (simp add: fs_inv_def)
  with new_file_ok [OF inv keep s'] show "fs_inv s' U R (insert f N)"
    by (simp add: fs_inv_def f)
  show "f \<in> dom (files s')" by (simp add: s' f)
qed

lemma insertNode_inv:
  assumes inv: "fs_inv s U R N" and i: "insertNode f a st c s = Inr (desc, s')"
  shows "fs_inv s' U (add_mset (fd_ofd desc) R) (N - {f})" "dom (files s') = dom (files s)"
    "fd_ofd desc = nextOfd s"
proof -
  let ?d = "nextOfd s"
  from i obtain x where x: "files s f = Some x" and desc: "desc = \<lparr>fd_ofd = ?d, closeOnExec = c\<rparr>"
    and s': "s' = put_file f (x\<lparr>refCount := refCount x + 1\<rparr>)
       ((put_ofd ?d \<lparr>ofd_file = f, ofd_offset = 0, accessMode = a, statusFlags = st,
                 ofd_lock = LockNone, ofd_uses = 0\<rparr> s)\<lparr>nextOfd := Suc ?d\<rparr>)"
    by (auto simp: insertNode_def add_ref_def io_defs Let_def)
  note inv' = inv [unfolded fs_inv_def]
  have "ofds s ?d = None" "dom (ofds s) = set_mset U \<union> set_mset R"
    using inv by (simp_all add: fs_inv_def ofds_ok_def)
  then have d: "ofds s ?d = None" "?d \<notin># U" "?d \<notin># R" by blast+
  have of: "file_of s' e = (if e = ?d then Some f else file_of s e)" for e
    by (simp add: file_of_def s')
  have rf: "refs s' R = refs s R"
    using d by (auto simp: refs_def fun_eq_iff of intro!: arg_cong [where f = size] filter_mset_cong)
  have rf': "refs s' (add_mset ?d R) g = (if g = f then Suc (refs s R g) else refs s R g)" for g
    by (auto simp: of rf)
  show dom: "dom (files s') = dom (files s)" using x by (auto simp: s')
  show "fd_ofd desc = ?d" by (simp add: desc)
  have ep: "endpoints s' = endpoints s"
    using x by (intro ext) (auto simp: endpoints_def s')
  have "ofds_ok s' U (add_mset ?d R)"
    unfolding ofds_ok_def
  proof (intro conjI allI impI)
    show "dom (ofds s') = set_mset U \<union> set_mset (add_mset ?d R)"
      using inv' by (auto simp: ofds_ok_def s')
    show "ofd_uses y = count U e" if "ofds s' e = Some y" for e y
      using that inv' d by (auto simp: ofds_ok_def s' not_in_iff split: if_split_asm)
    show "\<forall>e\<in>#add_mset ?d R. \<exists>f. file_of s' e = Some f \<and> f \<in> dom (files s')"
      using inv' x d by (auto simp: ofds_ok_def of dom simp del: not_None_eq)
    show "ofds s' e = None" if "nextOfd s' \<le> e" for e
      using that inv' by (auto simp: ofds_ok_def s')
  qed
  moreover have "files_ok s' (add_mset ?d R) (N - {f})"
    unfolding files_ok_def rf'
  proof (intro conjI allI impI)
    fix g z assume g: "files s' g = Some z"
    show "refCount z = (if g = f then Suc (refs s R g) else refs s R g)"
      using g inv' x by (auto simp: s' files_ok_def split: if_split_asm)
    show "0 < (if g = f then Suc (refs s R g) else refs s R g) \<or> g \<in> N - {f}"
      using g inv' x unfolding s' files_ok_def by (cases "g = f") auto
    show "deleteAfterClose z" if "keepAfterClose (fkind z)"
      using that g inv' x unfolding s' files_ok_def by (cases "g = f") auto
  next
    fix g assume "nextFile s' \<le> g"
    then have "files s g = None" using inv' by (simp add: s' files_ok_def)
    with x show "files s' g = None" by (auto simp: s')
  qed
  moreover have "pipes_ok s' = pipes_ok s"
    by (rule pipes_ok_cong [OF _ _ ep]) (simp_all add: s')
  ultimately show "fs_inv s' U (add_mset (fd_ofd desc) R) (N - {f})"
    using inv' by (simp add: fs_inv_def desc)
qed

lemma new_pipe_inv:
  assumes inv: "fs_inv s U R N"
    and s1: "s1 = snd (new_file (PipeEndpoint ReadSide (nextPipe s)) False s)"
    and s2: "s2 = snd (new_file (PipeEndpoint WriteSide (nextPipe s)) False s1)"
    and s': "s' = (put_pipe (nextPipe s) \<lparr>pipe_data = [], readEndpoints = [nextFile s],
               writeEndpoints = [nextFile s1], pipe_closed = False\<rparr> s2)\<lparr>nextPipe := Suc (nextPipe s)\<rparr>"
  shows "fs_inv s' U R (insert (nextFile s) (insert (nextFile s1) N))"
    "{nextFile s, nextFile s1} \<subseteq> dom (files s')"
proof -
  let ?p = "nextPipe s"
  have fresh: "files s (nextFile s) = None" "files s (Suc (nextFile s)) = None" "pipes s ?p = None"
    using inv by (simp_all add: fs_inv_def files_ok_def pipes_ok_def)
  have noend: "endpoints s side ?p = {}" for side
    using inv fresh(3) unfolding fs_inv_def pipes_ok_def by blast
  have ep: "endpoints s' side r =
      (if r = ?p then {if side = ReadSide then nextFile s else Suc (nextFile s)} else endpoints s side r)" for side r
  proof (cases "r = ?p")
    case True
    have "f \<notin> endpoints s side ?p" for f using noend by simp
    with True show ?thesis
      by (cases side) (auto simp: endpoints_def s' s2 s1)
  next
    case False
    with fresh show ?thesis
      by (auto simp: endpoints_def s' s2 s1)
  qed
  have pipes': "pipes s' = (pipes s)(?p \<mapsto> \<lparr>pipe_data = [], readEndpoints = [nextFile s],
               writeEndpoints = [Suc (nextFile s)], pipe_closed = False\<rparr>)" "nextPipe s' = Suc ?p"
    by (simp_all add: s' s2 s1)
  have "pipes_ok s'"
    unfolding pipes_ok_def pipes'
  proof (intro conjI allI impI)
    fix r q assume q: "((pipes s)(?p \<mapsto> \<lparr>pipe_data = [], readEndpoints = [nextFile s],
               writeEndpoints = [Suc (nextFile s)], pipe_closed = False\<rparr>)) r = Some q"
    show "\<not> pipe_closed q" "readEndpoints q \<noteq> [] \<or> writeEndpoints q \<noteq> []"
      using q inv by (auto simp: fs_inv_def pipes_ok_def split: if_split_asm)
    show "pipe_ends side q = endpoints s' side r" for side
    proof (cases "r = ?p")
      case True with q show ?thesis by (cases side) (auto simp: pipe_ends_def ep)
    next
      case False with q inv show ?thesis by (simp add: fs_inv_def pipes_ok_def ep)
    qed
  next
    fix side r assume "endpoints s' side r \<noteq> {}"
    then show "((pipes s)(?p \<mapsto> \<lparr>pipe_data = [], readEndpoints = [nextFile s],
               writeEndpoints = [Suc (nextFile s)], pipe_closed = False\<rparr>)) r \<noteq> None"
      using inv by (auto simp: fs_inv_def pipes_ok_def ep split: if_split_asm)
  next
    fix r assume "Suc ?p \<le> r"
    then show "((pipes s)(?p \<mapsto> \<lparr>pipe_data = [], readEndpoints = [nextFile s],
               writeEndpoints = [Suc (nextFile s)], pipe_closed = False\<rparr>)) r = None"
      using inv by (auto simp: fs_inv_def pipes_ok_def)
  qed
  moreover have "ofds_ok s2 U R" "files_ok s2 R (insert (Suc (nextFile s)) (insert (nextFile s) N))"
  proof -
    have s1': "ofds_ok s1 U R" "files_ok s1 R (insert (nextFile s) N)"
      using new_file_ok [OF inv _ s1] by simp_all
    have "ofds_ok s2 U R \<and> files_ok s2 R (insert (nextFile s1) (insert (nextFile s) N))"
      using new_file_parts [OF s1' _ s2] by simp
    then show "ofds_ok s2 U R" "files_ok s2 R (insert (Suc (nextFile s)) (insert (nextFile s) N))"
      by (simp_all add: s1)
  qed
  moreover have "ofds_ok s' U R = ofds_ok s2 U R" "files_ok s' R = files_ok s2 R"
    by (simp_all add: ofds_ok_def files_ok_def s' refs_def file_of_def fun_eq_iff)
  ultimately show "fs_inv s' U R (insert (nextFile s) (insert (nextFile s1) N))"
    by (simp add: fs_inv_def s1 insert_commute)
  show "{nextFile s, nextFile s1} \<subseteq> dom (files s')" by (simp add: s' s2 s1)
qed

end
