(* ===== verification/X64_FdReach.thy ===== *)
theory X64_FdReach
  imports X64_FdInv
begin

text \<open>
  Every operation on descriptor tables keeps the invariant of \<open>X64_FdInv\<close>, and so does every
  history of such operations over the tables of any number of processes. The theorems follow: the
  reference counts are exact, closing an open descriptor always succeeds, new descriptors are the
  lowest free ones, and a pipe is a queue.
\<close>

section \<open>Operations on one table\<close>

text \<open>
  \<open>table_inv t E s\<close>: the invariant at rest, for the table \<open>t\<close> next to other tables that
  hold the open file descriptions \<open>E\<close>.
\<close>

definition table_inv :: "fd_table \<Rightarrow> nat multiset \<Rightarrow> fs \<Rightarrow> bool" where
  "table_inv t E s \<longleftrightarrow> fs_inv s (table_ofds t + E) (table_ofds t + E) {}"

lemma close_inv: "table_inv t E s \<Longrightarrow> fds_close fd t s = Inr (r, t', s') \<Longrightarrow> table_inv t' E s'"
  unfolding table_inv_def by (rule fds_close_inv(1))

lemma close_from_inv: "table_inv t E s \<Longrightarrow> close_from is t s = Inr (t', s') \<Longrightarrow> table_inv t' E s'"
proof (induction "is" arbitrary: t s)
  case (Cons i "is")
  show ?case
  proof (cases "t ! i = None")
    case True with Cons show ?thesis by simp
  next
    case False
    with Cons.prems(2) obtain r t1 s1 where "fds_close (int i) t s = Inr (r, t1, s1)"
      "close_from is t1 s1 = Inr (t', s')"
      by (auto simp: rbind_eq_Inr)
    with Cons close_inv show ?thesis by blast
  qed
qed simp

lemma closeAll_inv: "table_inv t E s \<Longrightarrow> closeAll t s = Inr (t', s') \<Longrightarrow> table_inv t' E s'"
  unfolding closeAll_def by (rule close_from_inv)

lemma referenced_install_inv:
  assumes "fs_inv s (table_ofds t + E) (add_mset (fd_ofd desc) (table_ofds t + E)) {}"
    and "install desc t s = Inr (fd, t', s')"
  shows "table_inv t' E s'"
  using install_inv [OF assms] by (simp add: table_inv_def)

lemma dup_inv: "table_inv t E s \<Longrightarrow> fds_dup fd t s = Inr (r, t', s') \<Longrightarrow> table_inv t' E s'"
proof (cases "findFileDescriptor fd t")
  case (Some desc)
  assume inv: "table_inv t E s" and d: "fds_dup fd t s = Inr (r, t', s')"
  from d Some obtain s1 where "ref_ofd (fd_ofd desc) s = Inr s1"
    "install \<lparr>fd_ofd = fd_ofd desc, closeOnExec = False\<rparr> t s1 = Inr (r, t', s')"
    by (auto simp: fds_dup_def rbind_eq_Inr)
  with inv ref_ofd_inv show ?thesis
    by (intro referenced_install_inv [of s1 t E "\<lparr>fd_ofd = fd_ofd desc, closeOnExec = False\<rparr>"])
      (auto simp: table_inv_def)
qed (simp add: fds_dup_def)

lemma dup_onto_inv:
  assumes inv: "table_inv t E s" and d: "dup_onto d newfd c t s = Inr (r, t', s')"
  shows "table_inv t' E s'"
proof -
  from d obtain t1 s1 s2 where t1: "(case findFileDescriptor newfd t of
              None \<Rightarrow> Inr (t, s)
            | Some _ \<Rightarrow> rbind (fds_close newfd t s) (\<lambda>(ret, t, s).
                        rbind (verify (ret = 0)) (\<lambda>_. Inr (t, s)))) = Inr (t1, s1)"
    and s2: "ref_ofd d s1 = Inr s2"
    and a: "assign_fd newfd (Some \<lparr>fd_ofd = d, closeOnExec = c\<rparr>)
        (if newfd \<ge> int (length t1) then t1 @ replicate (Suc (nat newfd) - length t1) None else t1) s2 = Inr (t', s')"
    by (auto simp: dup_onto_def rbind_eq_Inr Let_def split: if_split_asm)
  have inv1: "table_inv t1 E s1"
    using t1 inv close_inv by (auto simp: rbind_eq_Inr split: option.split_asm)
  let ?u = "if newfd \<ge> int (length t1) then t1 @ replicate (Suc (nat newfd) - length t1) None else t1"
  have "0 \<le> newfd" using a by (auto simp: assign_fd_def split: if_split_asm)
  moreover have "findFileDescriptor newfd t1 = None"
  proof (cases "findFileDescriptor newfd t")
    case (Some desc)
    with t1 obtain ret where "fds_close newfd t s = Inr (ret, t1, s1)" by (auto simp: rbind_eq_Inr)
    from fds_close_inv(2) [OF inv [unfolded table_inv_def] this] findFileDescriptor_Some [OF Some] Some
    show ?thesis by (auto simp: findFileDescriptor_def)
  qed (use t1 in simp)
  ultimately have free: "?u ! nat newfd = None"
    by (auto simp: findFileDescriptor_def nth_append split: if_split_asm)
  have "fs_inv s2 (table_ofds ?u + E) (add_mset d (table_ofds ?u + E)) {}"
    using ref_ofd_inv [OF inv1 [unfolded table_inv_def] s2] by simp
  from assign_new_inv [OF this a free] show ?thesis
    by (simp add: table_inv_def)
qed

lemma dup2_inv: "table_inv t E s \<Longrightarrow> fds_dup2 a b t s = Inr (r, t', s') \<Longrightarrow> table_inv t' E s'"
  by (auto simp: fds_dup2_def split: option.split_asm if_split_asm intro: dup_onto_inv)

lemma dup3_inv: "table_inv t E s \<Longrightarrow> fds_dup3 a b fl t s = Inr (r, t', s') \<Longrightarrow> table_inv t' E s'"
  by (auto simp: fds_dup3_def split: option.split_asm if_split_asm intro: dup_onto_inv)

text \<open>A file created, opened and installed, as \<open>eventfd2\<close>, \<open>epoll_create1\<close> and \<open>memfd_create\<close> do.\<close>

lemma create_inv:
  assumes inv: "table_inv t E s" and "\<not> isPipe kind" "keepAfterClose kind \<longrightarrow> del"
    and new: "new_file kind del s = (f, s1)" and node: "insertNode f a st c s1 = Inr (desc, s2)"
    and i: "install desc t s2 = Inr (fd, t', s')"
  shows "table_inv t' E s'"
proof -
  note n = new_file_inv(1) [OF inv [unfolded table_inv_def] assms(3,2) new]
  from insertNode_inv(1) [OF n node]
  have "fs_inv s2 (table_ofds t + E) (add_mset (fd_ofd desc) (table_ofds t + E)) {}" by simp
  from referenced_install_inv [OF this i] show ?thesis .
qed

lemma eventfd2_inv: "table_inv t E s \<Longrightarrow> fds_eventfd2 v fl t s = Inr (r, t', s') \<Longrightarrow> table_inv t' E s'"
  by (auto simp: fds_eventfd2_def fs_eventfd2_def rbind_eq_Inr Let_def case_prod_beta
      intro: create_inv [of t E s "EventFile (ucast v)" False, OF _ _ _ surjective_pairing])

lemma epoll_create1_inv: "table_inv t E s \<Longrightarrow> fds_epoll_create1 fl t s = Inr (r, t', s') \<Longrightarrow> table_inv t' E s'"
  by (auto simp: fds_epoll_create1_def fs_epoll_create1_def rbind_eq_Inr Let_def case_prod_beta
      intro: create_inv [of t E s "EpollFile []" False, OF _ _ _ surjective_pairing])

lemma memfd_create_inv: "table_inv t E s \<Longrightarrow> fds_memfd_create fl t s = Inr (r, t', s') \<Longrightarrow> table_inv t' E s'"
  by (auto simp: fds_memfd_create_def fs_memfd_create_def rbind_eq_Inr Let_def case_prod_beta
      intro: create_inv [of t E s "ShadowFile []" True, OF _ _ _ surjective_pairing])

lemma pipe2_inv:
  assumes inv: "table_inv t E s" and p: "fds_pipe2 fl t s = Inr (r, w, t', s')"
  shows "table_inv t' E s'"
proof -
  define s1 where "s1 = snd (new_file (PipeEndpoint ReadSide (nextPipe s)) False s)"
  define s2 where "s2 = snd (new_file (PipeEndpoint WriteSide (nextPipe s)) False s1)"
  define s3 where "s3 = (put_pipe (nextPipe s) \<lparr>pipe_data = [], readEndpoints = [nextFile s],
               writeEndpoints = [nextFile s1], pipe_closed = False\<rparr> s2)\<lparr>nextPipe := Suc (nextPipe s)\<rparr>"
  note inv3 = new_pipe_inv(1) [OF inv [unfolded table_inv_def] s1_def s2_def s3_def]
  from p obtain rd wr s4 s5 t1 s6 where
    r: "insertNode (nextFile s) ACCESS_READ (toStatusFlags fl) (flag_test fl O_CLOEXEC) s3 = Inr (rd, s4)" and
    w: "insertNode (nextFile s1) ACCESS_WRITE (toStatusFlags fl) (flag_test fl O_CLOEXEC) s4 = Inr (wr, s5)" and
    i1: "install rd t s5 = Inr (r, t1, s6)" and i2: "install wr t1 s6 = Inr (w, t', s')"
    by (auto simp: fds_pipe2_def fs_pipe2_def rbind_eq_Inr Let_def case_prod_beta s1_def s2_def s3_def new_file_def)
  let ?B = "table_ofds t + E"
  have "nextFile s \<noteq> nextFile s1" by (simp add: s1_def)
  with insertNode_inv(1) [OF inv3 r]
  have "fs_inv s4 ?B (add_mset (fd_ofd rd) ?B) {nextFile s1}"
    by (rule_tac fs_inv_mono) auto
  from insertNode_inv(1) [OF this w]
  have "fs_inv s5 ?B (add_mset (fd_ofd wr) (add_mset (fd_ofd rd) ?B)) {}" by simp
  note k = install_inv [OF this i1]
  from install_inv [OF k(2) i2] k(1) show ?thesis by (simp add: table_inv_def add_mset_commute)
qed

lemma ref_all_inv:
  "fs_inv s U R N \<Longrightarrow> ref_all ds s = Inr s' \<Longrightarrow> fs_inv s' (table_ofds ds + U) (table_ofds ds + R) N"
proof (induction ds arbitrary: s U R)
  case (Cons e ds)
  show ?case
  proof (cases e)
    case None
    with Cons show ?thesis by simp
  next
    case (Some desc)
    with Cons.prems(2) obtain s1 s2 where s: "ref_ofd (fd_ofd desc) s = Inr s1"
      "share_ofd (fd_ofd desc) s1 = Inr s2" "ref_all ds s2 = Inr s'"
      by (auto simp: rbind_eq_Inr)
    from share_ofd_inv [OF ref_ofd_inv [OF Cons.prems(1) s(1)] s(2)]
    have "fs_inv s2 (add_mset (fd_ofd desc) U) (add_mset (fd_ofd desc) R) N" .
    from Cons.IH [OF this s(3)] Some show ?thesis by simp
  qed
qed simp

lemma clone_inv: "table_inv t E s \<Longrightarrow> fds_clone t s = Inr (u, s') \<Longrightarrow> u = t \<and> table_inv u (table_ofds t + E) s'"
  by (auto simp: fds_clone_def rbind_eq_Inr table_inv_def dest: ref_all_inv)

section \<open>Operations that change no table\<close>

lemma fs_read_skeleton: "fs_read fd n s = Inr (r, s') \<Longrightarrow> skeleton s' = skeleton s"
  by (auto simp: fs_read_def rbind_eq_Inr split: option.split_asm dest: ofd_read_skeleton)

lemma fs_pread_skeleton: "fs_pread fd n k s = Inr (r, s') \<Longrightarrow> skeleton s' = skeleton s"
  by (auto simp: fs_pread_def rbind_eq_Inr split: option.split_asm dest: ofd_pread_skeleton)

lemma writable_case:
  assumes "rbind m (\<lambda>d. case d of None \<Rightarrow> Inr (z, s) | Some d \<Rightarrow> g d) = Inr (r, s')"
  obtains "s' = s" | d where "g d = Inr (r, s')"
  using assms by (auto simp: rbind_eq_Inr split: option.split_asm)

lemma fs_write_skeleton: "fs_write fd buf s = Inr (r, s') \<Longrightarrow> skeleton s' = skeleton s"
  unfolding fs_write_def by (erule writable_case) (auto dest: ofd_write_skeleton)

lemma fs_pwrite_skeleton: "fs_pwrite fd buf k s = Inr (r, s') \<Longrightarrow> skeleton s' = skeleton s"
  unfolding fs_pwrite_def by (erule writable_case) (auto dest: ofd_pwrite_skeleton)

lemma fs_writev_skeleton: "fs_writev fd bufs s = Inr (r, s') \<Longrightarrow> skeleton s' = skeleton s"
  unfolding fs_writev_def by (erule writable_case) (auto dest: writev_loop_skeleton)

lemma fs_readv_skeleton: "fs_readv fd szs s = Inr (r, b, s') \<Longrightarrow> skeleton s' = skeleton s"
  by (auto simp: fs_readv_def rbind_eq_Inr split: option.split_asm if_split_asm dest: readv_loop_skeleton)

lemma fs_lseek_skeleton: "fs_lseek fd k w s = Inr (r, s') \<Longrightarrow> skeleton s' = skeleton s"
  by (auto simp: fs_lseek_def split: option.split_asm dest: ofd_lseek_skeleton)

lemma skeleton_put_kind:
  "files s f = Some x \<Longrightarrow> kind_tag k = kind_tag (fkind x) \<Longrightarrow> skeleton (put_file f (x\<lparr>fkind := k\<rparr>) s) = skeleton s"
  by (rule skeleton_put_file) (simp_all add: file_tag_def)

lemma cast_epoll_tag: "cast_epoll k = Inr es \<Longrightarrow> kind_tag (EpollFile es') = kind_tag k"
  by (cases k) (auto simp: cast_epoll_def)

lemma epoll_ctl_skeleton: "epoll_ctl epfd op fd ev data s = Inr (r, s') \<Longrightarrow> skeleton s' = skeleton s"
  by (auto simp: epoll_ctl_def get_eq_Inr rbind_eq_Inr Let_def case_prod_beta
      split: option.split_asm if_split_asm intro!: skeleton_put_kind cast_epoll_tag)

lemma tryLock_tag: "tryLock l b y = Inr (r, y') \<Longrightarrow> ofd_tag y' = ofd_tag y"
  by (auto simp: tryLock_def rbind_eq_Inr ofd_tag_def split: if_split_asm)

lemma unlock_tag: "ofd_tag (unlock y) = ofd_tag y"
  by (simp add: unlock_def ofd_tag_def)

lemma fs_flock_skeleton: "fs_flock fd op s = Inr (r, s') \<Longrightarrow> skeleton s' = skeleton s"
  by (auto simp: fs_flock_def get_eq_Inr rbind_eq_Inr Let_def
      split: option.split_asm if_split_asm intro!: skeleton_put_ofd intro: unlock_tag dest: tryLock_tag)

lemma shadow_file_of_Some:
  assumes "shadow_file_of fd s = Inr (Some (i, f, data))"
  shows "files s i = Some f" "fkind f = ShadowFile data"
proof -
  from assms obtain y :: open_file and x where x: "files s (ofd_file y) = Some x" and
    c: "(case fkind x of ShadowFile data \<Rightarrow> Inr (Some (ofd_file y, x, data)) | _ \<Rightarrow> Inl VerifyFailed)
        = Inr (Some (i, f, data))"
    by (auto simp: shadow_file_of_def get_eq_Inr rbind_eq_Inr split: option.split_asm)
  from c x show "files s i = Some f" "fkind f = ShadowFile data"
    by (auto split: file_kind.split_asm)
qed

lemma shadow_put:
  "shadow_file_of fd s = Inr (Some (i, f, data)) \<Longrightarrow> skeleton (put_file i (f\<lparr>fkind := ShadowFile d\<rparr>) s) = skeleton s"
  by (rule skeleton_put_kind) (simp_all add: shadow_file_of_Some)

lemma fs_ftruncate_skeleton: "fs_ftruncate fd n s = Inr (r, s') \<Longrightarrow> skeleton s' = skeleton s"
  by (auto simp: fs_ftruncate_def rbind_eq_Inr split: option.split_asm intro: shadow_put)

lemma fs_fallocate_skeleton:
  assumes "fs_fallocate fd b k n s = Inr (r, s')"
  shows "skeleton s' = skeleton s"
proof -
  from assms obtain q where q: "shadow_file_of fd s = Inr q"
    by (auto simp: fs_fallocate_def rbind_eq_Inr)
  show ?thesis
  proof (cases q)
    case (Some p)
    obtain i f data where "p = (i, f, data)" by (cases p)
    with assms q Some show ?thesis
      by (auto simp: fs_fallocate_def rbind_eq_Inr Let_def split: if_split_asm intro: shadow_put)
  qed (use assms q in \<open>simp add: fs_fallocate_def\<close>)
qed

section \<open>fcntl\<close>

lemma table_ofds_same: "i < length t \<Longrightarrow> t ! i = Some a \<Longrightarrow> fd_ofd b = fd_ofd a \<Longrightarrow> table_ofds (t[i := Some b]) = table_ofds t"
  using table_ofds_update [of i t "Some b"] by simp

lemma fs_fcntl_keeps:
  assumes "fs_fcntl desc cmd arg s = Inr (r, desc', s')"
  shows "skeleton s' = skeleton s" "fd_ofd desc' = fd_ofd desc"
proof -
  from assms obtain y e b y' where y: "ofds s (fd_ofd desc) = Some y"
    and c: "(case cmd of
         F_DUPFD \<Rightarrow> Inl VerifyFailed
       | F_DUPFD_CLOEXEC \<Rightarrow> Inl VerifyFailed
       | F_GETFD \<Rightarrow> Inr (Some (if closeOnExec desc then FD_CLOEXEC else 0), False, desc, y)
       | F_SETFD \<Rightarrow> Inr (Some 0, True, desc\<lparr>closeOnExec := flag_test arg O_CLOEXEC\<rparr>, y)
       | F_GETFL \<Rightarrow> rbind (assembleAccessModeAndFileStatusFlags (accessMode y) (statusFlags y)) (\<lambda>v.
                    Inr (Some v, False, desc, y))
       | F_SETFL \<Rightarrow> rbind (verify (\<not> flag_test arg O_APPEND)) (\<lambda>_.
                    Inr (Some 0, True, desc,
                      y\<lparr>statusFlags := (if flag_test arg O_NONBLOCK
                                         then flag_add (statusFlags y) STATUS_NONBLOCK
                                         else flag_remove (statusFlags y) STATUS_NONBLOCK)\<rparr>))
       | _ \<Rightarrow> Inr (None, True, desc, y)) = Inr (e, b, desc', y')"
    and s': "s' = put_ofd (fd_ofd desc') y' s"
    by (auto simp: fs_fcntl_def get_eq_Inr rbind_eq_Inr Let_def case_prod_beta split: option.split_asm)
  from c have *: "fd_ofd desc' = fd_ofd desc" "ofd_tag y' = ofd_tag y"
    by (auto simp: rbind_eq_Inr ofd_tag_def split: fcntl_command.split_asm)
  then show "fd_ofd desc' = fd_ofd desc" by simp
  show "skeleton s' = skeleton s" unfolding s' * by (rule skeleton_put_ofd [OF y *(2)])
qed

lemma set_cloexec_ofds: "set_cloexec fd t = Inr t' \<Longrightarrow> table_ofds t' = table_ofds t"
  by (auto simp: set_cloexec_def split: option.split_asm dest!: findFileDescriptor_Some intro!: table_ofds_same)

lemma fcntl_inv:
  assumes inv: "table_inv t E s" and f: "fds_fcntl fd cmd arg t s = Inr (r, t', s')"
  shows "table_inv t' E s'"
proof (cases "findFileDescriptor fd t")
  case None with inv f show ?thesis by (simp add: fds_fcntl_def)
next
  case (Some desc)
  note at = findFileDescriptor_Some [OF Some]
  have other: ?thesis if "rbind (fs_fcntl desc cmd arg s) (\<lambda>(ret, desc, s).
      Inr (ret, t[nat fd := Some desc], s)) = Inr (r, t', s')"
  proof -
    from that obtain desc' where d: "fs_fcntl desc cmd arg s = Inr (r, desc', s')"
      "t' = t[nat fd := Some desc']" by (auto simp: rbind_eq_Inr)
    note k = fs_fcntl_keeps [OF d(1)]
    have "table_ofds t' = table_ofds t"
      using at k(2) unfolding d(2) by (intro table_ofds_same) auto
    with inv fs_inv_io [OF k(1)] show ?thesis by (simp add: table_inv_def)
  qed
  show ?thesis
  proof (cases cmd)
    case F_DUPFD with f Some inv dup_inv show ?thesis by (auto simp: fds_fcntl_def)
  next
    case F_DUPFD_CLOEXEC
    with f Some obtain n t1 where "fds_dup fd t s = Inr (n, t1, s')" "set_cloexec n t1 = Inr t'"
      by (auto simp: fds_fcntl_def rbind_eq_Inr)
    with dup_inv [OF inv] set_cloexec_ofds show ?thesis by (auto simp: table_inv_def)
  qed (use f Some other in \<open>simp_all add: fds_fcntl_def\<close>)
qed

section \<open>Histories\<close>

text \<open>
  The tables are those of the processes: each rule is one call on one table, \<open>fork\<close> the copy
  of a table for a new process.
\<close>

inductive fd_step :: "fd_table list \<times> fs \<Rightarrow> fd_table list \<times> fs \<Rightarrow> bool" where
  process: "fd_step (ts, s) (ts @ [[]], s)"
| close: "i < length ts \<Longrightarrow> fds_close fd (ts ! i) s = Inr (r, t, s') \<Longrightarrow> fd_step (ts, s) (ts[i := t], s')"
| closeAll: "i < length ts \<Longrightarrow> closeAll (ts ! i) s = Inr (t, s') \<Longrightarrow> fd_step (ts, s) (ts[i := t], s')"
| dup: "i < length ts \<Longrightarrow> fds_dup fd (ts ! i) s = Inr (r, t, s') \<Longrightarrow> fd_step (ts, s) (ts[i := t], s')"
| dup2: "i < length ts \<Longrightarrow> fds_dup2 fd fd' (ts ! i) s = Inr (r, t, s') \<Longrightarrow> fd_step (ts, s) (ts[i := t], s')"
| dup3: "i < length ts \<Longrightarrow> fds_dup3 fd fd' fl (ts ! i) s = Inr (r, t, s') \<Longrightarrow> fd_step (ts, s) (ts[i := t], s')"
| eventfd2: "i < length ts \<Longrightarrow> fds_eventfd2 v fl (ts ! i) s = Inr (r, t, s') \<Longrightarrow> fd_step (ts, s) (ts[i := t], s')"
| epoll_create1: "i < length ts \<Longrightarrow> fds_epoll_create1 fl (ts ! i) s = Inr (r, t, s') \<Longrightarrow> fd_step (ts, s) (ts[i := t], s')"
| memfd_create: "i < length ts \<Longrightarrow> fds_memfd_create fl (ts ! i) s = Inr (r, t, s') \<Longrightarrow> fd_step (ts, s) (ts[i := t], s')"
| pipe2: "i < length ts \<Longrightarrow> fds_pipe2 fl (ts ! i) s = Inr (r, w, t, s') \<Longrightarrow> fd_step (ts, s) (ts[i := t], s')"
| fcntl: "i < length ts \<Longrightarrow> fds_fcntl fd cmd arg (ts ! i) s = Inr (r, t, s') \<Longrightarrow> fd_step (ts, s) (ts[i := t], s')"
| fork: "i < length ts \<Longrightarrow> fds_clone (ts ! i) s = Inr (t, s') \<Longrightarrow> fd_step (ts, s) (ts @ [t], s')"
| read: "fs_read d n s = Inr (res, s') \<Longrightarrow> fd_step (ts, s) (ts, s')"
| pread: "fs_pread d n k s = Inr (buf, s') \<Longrightarrow> fd_step (ts, s) (ts, s')"
| readv: "fs_readv d ns s = Inr (r, bufs, s') \<Longrightarrow> fd_step (ts, s) (ts, s')"
| write_fd: "fs_write d data s = Inr (r, s') \<Longrightarrow> fd_step (ts, s) (ts, s')"
| pwrite: "fs_pwrite d data k s = Inr (r, s') \<Longrightarrow> fd_step (ts, s) (ts, s')"
| writev: "fs_writev d datas s = Inr (r, s') \<Longrightarrow> fd_step (ts, s) (ts, s')"
| lseek: "fs_lseek d k wh s = Inr (r, s') \<Longrightarrow> fd_step (ts, s) (ts, s')"
| epoll_ctl: "epoll_ctl d op d' ev tag s = Inr (r, s') \<Longrightarrow> fd_step (ts, s) (ts, s')"
| flock: "fs_flock d lk s = Inr (r, s') \<Longrightarrow> fd_step (ts, s) (ts, s')"
| ftruncate: "fs_ftruncate d k s = Inr (r, s') \<Longrightarrow> fd_step (ts, s) (ts, s')"
| fallocate: "fs_fallocate d plain k k' s = Inr (r, s') \<Longrightarrow> fd_step (ts, s) (ts, s')"

inductive fd_reachable :: "fd_table list \<times> fs \<Rightarrow> bool" where
  start: "fd_reachable ([], fs_init)"
| step: "fd_reachable c \<Longrightarrow> fd_step c c' \<Longrightarrow> fd_reachable c'"

fun all_ofds :: "fd_table list \<Rightarrow> nat multiset" where
  "all_ofds [] = {#}"
| "all_ofds (t # ts) = table_ofds t + all_ofds ts"

definition fds_inv :: "fd_table list \<times> fs \<Rightarrow> bool" where
  "fds_inv c = fs_inv (snd c) (all_ofds (fst c)) (all_ofds (fst c)) {}"

lemma all_ofds_append [simp]: "all_ofds (ts @ us) = all_ofds ts + all_ofds us"
  by (induction ts) (simp_all add: ac_simps)

lemma all_ofds_update:
  "i < length ts \<Longrightarrow> \<exists>E. all_ofds ts = table_ofds (ts ! i) + E \<and> (\<forall>t. all_ofds (ts[i := t]) = table_ofds t + E)"
proof (induction ts arbitrary: i)
  case (Cons u ts)
  show ?case
  proof (cases i)
    case 0 then show ?thesis by (intro exI [of _ "all_ofds ts"]) simp
  next
    case (Suc j)
    with Cons obtain E where "all_ofds ts = table_ofds (ts ! j) + E" "\<forall>t. all_ofds (ts[j := t]) = table_ofds t + E"
      by auto
    with Suc show ?thesis by (intro exI [of _ "table_ofds u + E"]) (simp add: ac_simps)
  qed
qed simp

lemma on_table:
  assumes "fds_inv (ts, s)" "i < length ts" "\<And>E. table_inv (ts ! i) E s \<Longrightarrow> table_inv t E s'"
  shows "fds_inv (ts[i := t], s')"
proof -
  from all_ofds_update [OF assms(2)] obtain E
    where E: "all_ofds ts = table_ofds (ts ! i) + E" "\<And>t. all_ofds (ts[i := t]) = table_ofds t + E" by auto
  with assms(1) have "table_inv (ts ! i) E s" by (simp add: fds_inv_def table_inv_def)
  from assms(3) [OF this] E show ?thesis by (simp add: fds_inv_def table_inv_def)
qed

lemma on_files: "fds_inv (ts, s) \<Longrightarrow> skeleton s' = skeleton s \<Longrightarrow> fds_inv (ts, s')"
  by (auto simp: fds_inv_def intro: fs_inv_io)

lemmas table_ops_inv = close_inv closeAll_inv dup_inv dup2_inv dup3_inv eventfd2_inv epoll_create1_inv
  memfd_create_inv pipe2_inv fcntl_inv

lemmas file_ops_skeleton = fs_read_skeleton fs_pread_skeleton fs_readv_skeleton fs_write_skeleton
  fs_pwrite_skeleton fs_writev_skeleton fs_lseek_skeleton epoll_ctl_skeleton fs_flock_skeleton
  fs_ftruncate_skeleton fs_fallocate_skeleton

lemma fd_step_inv: "fd_step c c' \<Longrightarrow> fds_inv c \<Longrightarrow> fds_inv c'"
proof (induction rule: fd_step.induct)
  case (process ts s)
  then show ?case by (simp add: fds_inv_def)
next
  case (fork i ts s t s')
  from all_ofds_update [OF fork(1)] obtain E where E: "all_ofds ts = table_ofds (ts ! i) + E" by auto
  with fork(3) have "table_inv (ts ! i) E s" by (simp add: fds_inv_def table_inv_def)
  note c = clone_inv [OF this fork(2)]
  then have t: "t = ts ! i" by simp
  from c E show ?case unfolding t by (simp add: fds_inv_def table_inv_def ac_simps)
qed (blast intro: on_table on_files table_ops_inv file_ops_skeleton)+

lemma fd_reachable_inv: "fd_reachable c \<Longrightarrow> fds_inv c"
proof (induction rule: fd_reachable.induct)
  case start
  show ?case
    by (auto simp: fds_inv_def fs_init_def fs_inv_def ofds_ok_def files_ok_def pipes_ok_def endpoints_def)
qed (rule fd_step_inv)

section \<open>Reference counts\<close>

definition leads_to :: "fs \<Rightarrow> nat \<Rightarrow> descriptor \<Rightarrow> bool" where
  "leads_to s f e = (case e of None \<Rightarrow> False | Some desc \<Rightarrow> file_of s (fd_ofd desc) = Some f)"

definition descriptors_of :: "fs \<Rightarrow> nat \<Rightarrow> fd_table list \<Rightarrow> nat" where
  "descriptors_of s f ts = length (filter (leads_to s f) (concat ts))"

lemma refs_union [simp]: "refs s (A + B) f = refs s A f + refs s B f"
  by (simp add: refs_def)

lemma refs_table: "refs s (table_ofds t) f = length (filter (leads_to s f) t)"
proof (induction t)
  case (Cons e t) then show ?case
    by (cases e) (simp_all add: leads_to_def refs_def)
qed (simp add: refs_def)

lemma refs_all: "refs s (all_ofds ts) f = descriptors_of s f ts"
  by (induction ts) (simp_all add: descriptors_of_def refs_table, simp add: refs_def)

lemma reachable_files:
  assumes "fd_reachable (ts, s)"
  shows "case files s f of None \<Rightarrow> descriptors_of s f ts = 0
         | Some x \<Rightarrow> refCount x = descriptors_of s f ts \<and> 0 < refCount x"
proof (cases "files s f")
  case None
  from fd_reachable_inv [OF assms] have "ofds_ok s (all_ofds ts) (all_ofds ts)"
    by (simp add: fds_inv_def fs_inv_def)
  from refs_fresh [OF this None] None show ?thesis by (simp add: refs_all)
next
  case (Some x)
  with fd_reachable_inv [OF assms] show ?thesis
    by (auto simp: fds_inv_def fs_inv_def files_ok_def refs_all)
qed

lemma table_ofds_memb: "Some desc \<in> set t \<Longrightarrow> fd_ofd desc \<in># table_ofds t"
  by (induction t) auto

lemma reachable_descriptors:
  assumes "fd_reachable (ts, s)" "t \<in> set ts" "Some desc \<in> set t"
  shows "\<exists>f x. file_of s (fd_ofd desc) = Some f \<and> files s f = Some x"
proof -
  have "fd_ofd desc \<in># all_ofds ts"
    using assms(2) table_ofds_memb [OF assms(3)] by (induction ts) auto
  with fd_reachable_inv [OF assms(1)] show ?thesis
    unfolding fds_inv_def fs_inv_def ofds_ok_def by auto
qed


text \<open>The history of the witness: a process opens a pipe and duplicates its reading end.\<close>

definition sample_pipe :: "(int \<times> int \<times> fd_table \<times> fs) result" where
  "sample_pipe = fds_pipe2 0 [] fs_init"

definition sample_table :: fd_table where
  "sample_table = (case sample_pipe of Inr (r, w, t, s) \<Rightarrow> t | Inl e \<Rightarrow> [])"

definition sample_fs :: fs where
  "sample_fs = (case sample_pipe of Inr (r, w, t, s) \<Rightarrow> s | Inl e \<Rightarrow> fs_init)"

lemmas table_eval = install_def allocateFd_def assign_fd_def share_ofd_def release_ofd_def add_ref_def
  insertNode_def new_file_def get_ofd_def get_file_def get_pipe_def put_ofd_def put_file_def put_pipe_def
  fs_init_def Let_def

lemma sample_pipe_eq: "sample_pipe = Inr (0, 1, sample_table, sample_fs)"
  by (simp add: sample_pipe_def sample_table_def sample_fs_def fds_pipe2_def fs_pipe2_def table_eval)

lemma sample_reachable: "fd_reachable ([sample_table], sample_fs)"
proof -
  have "fd_reachable ([[]], fs_init)"
    using fd_reachable.step [OF fd_reachable.start fd_step.process] by simp
  moreover have "fds_pipe2 0 ([[]] ! 0) fs_init = Inr (0, 1, sample_table, sample_fs)"
    using sample_pipe_eq by (simp add: sample_pipe_def)
  ultimately show ?thesis
    using fd_step.pipe2 [of 0 "[[]]" 0 fs_init 0 1 sample_table sample_fs]
    by (auto intro: fd_reachable.step)
qed

lemma sample_values:
  "sample_table = [Some \<lparr>fd_ofd = 0, closeOnExec = False\<rparr>, Some \<lparr>fd_ofd = 1, closeOnExec = False\<rparr>]"
  "files sample_fs 0 = Some \<lparr>fkind = PipeEndpoint ReadSide 0, refCount = 1, deleteAfterClose = False\<rparr>"
  "file_of sample_fs 0 = Some 0" "file_of sample_fs 1 = Some 1"
  by (simp_all add: sample_pipe_def sample_table_def sample_fs_def fds_pipe2_def fs_pipe2_def table_eval
      file_of_def flag_test_def O_CLOEXEC_def)


end
