(* ===== verification/X64_FdSpec.thy ===== *)
theory X64_FdSpec
  imports X64_FdReach
begin

text \<open>
  What the operations on descriptors promise in every reachable state: closing succeeds and frees
  the file with its last descriptor, a duplicate takes the lowest free number, and a pipe delivers
  the bytes written to it in order.
\<close>

section \<open>Closing\<close>

lemma fs_close_ofds: "fs_close fd s = Inr (r, s') \<Longrightarrow> ofds s' = ofds s"
  by (auto simp: fs_close_def unref_def file_close_def get_eq_Inr rbind_eq_Inr Let_def
      split: option.split_asm if_split_asm file_kind.split_asm)

lemma release_file_of: "release_ofd d s = Inr s' \<Longrightarrow> e \<noteq> d \<or> ofds s' d \<noteq> None \<Longrightarrow> file_of s' e = file_of s e"
  by (auto simp: release_ofd_def rbind_eq_Inr get_eq_Inr file_of_def split: if_split_asm)

lemma release_succeeds: "ofds s d = Some y \<Longrightarrow> \<exists>s'. release_ofd d s = Inr s'"
  by (simp add: release_ofd_def get_ofd_def)

lemma inv_file_gone: "fs_inv s U R {} \<Longrightarrow> files s f = None \<longleftrightarrow> refs s R f = 0"
  using refs_fresh [of s U R f] by (auto simp: fs_inv_def files_ok_def) (metis less_numeral_extra(3) not_None_eq)

lemma table_close:
  assumes inv: "table_inv t E s" and fd: "findFileDescriptor fd t = Some desc"
    and f: "file_of s (fd_ofd desc) = Some f"
  shows "\<exists>s'. fds_close fd t s = Inr (0, t[nat fd := None], s') \<and>
           (files s' f = None \<longleftrightarrow> refs s (table_ofds t + E) f = 1)"
proof -
  note at = findFileDescriptor_Some [OF fd]
  let ?u = "t[nat fd := None]" and ?d = "fd_ofd desc"
  have t: "table_ofds t = add_mset ?d (table_ofds ?u)"
    using at by (intro table_ofds_some) auto
  let ?R = "table_ofds ?u + E"
  have inv1: "fs_inv s (add_mset ?d ?R) (add_mset ?d ?R) {}"
    using inv by (simp add: table_inv_def t)
  obtain s1 where s1: "fs_close (Some desc) s = Inr (0, s1)"
    using fs_close_succeeds [OF inv1] by auto
  have inv2: "fs_inv s1 (add_mset ?d ?R) ?R {}"
    using fs_close_inv(2) [OF inv1 _ s1] by simp
  then have "?d \<in> dom (ofds s1)" unfolding fs_inv_def ofds_ok_def by simp
  then obtain s2 where s2: "release_ofd ?d s1 = Inr s2" using release_succeeds by blast
  have inv3: "fs_inv s2 ?R ?R {}" by (rule release_ofd_inv [OF inv2 _ s2]) simp
  have "file_of s2 e = file_of s e" if "e \<in># ?R" for e
  proof -
    have "ofds s2 e \<noteq> None" using inv3 that by (auto simp: fs_inv_def ofds_ok_def)
    then have "file_of s2 e = file_of s1 e" using release_file_of [OF s2, of e] by (cases "e = ?d") auto
    also have "\<dots> = file_of s e" by (simp add: file_of_def fs_close_ofds [OF s1])
    finally show ?thesis .
  qed
  then have "refs s2 ?R f = refs s ?R f" by (rule refs_eqI)
  then have gone: "files s2 f = None \<longleftrightarrow> refs s (table_ofds t + E) f = 1"
    using inv_file_gone [OF inv3, of f] f by (simp add: t)
  have "\<not> int (length t) \<le> fd" using at by (metis nat_less_iff not_le)
  then have "assign_fd fd None t s1 = Inr (?u, s2)"
    unfolding assign_fd_def conjunct2 [OF conjunct2 [OF at]] using conjunct1 [OF at] s2 by simp
  then have "fds_close fd t s = Inr (0, ?u, s2)" by (simp add: fds_close_def fd s1)
  with gone show ?thesis by (intro exI conjI)
qed



section \<open>Duplicating\<close>

lemma find_update:
  "0 \<le> fd \<Longrightarrow> nat fd < length t \<Longrightarrow>
   findFileDescriptor k (t[nat fd := e]) = (if k = fd then e else findFileDescriptor k t)"
  by (auto simp: findFileDescriptor_def nth_list_update)

lemma find_append_None: "findFileDescriptor k (t @ [None]) = findFileDescriptor k t"
  by (auto simp: findFileDescriptor_def nth_append)

lemma install_result:
  assumes "install desc t s = Inr (fd, t', s')"
  shows "fd = int (first_free t)" "share_ofd (fd_ofd desc) s = Inr s'"
    "findFileDescriptor k t' = (if k = fd then Some desc else findFileDescriptor k t)"
    "findFileDescriptor fd t = None"
    "\<forall>k \<in> {0..<fd}. findFileDescriptor k t \<noteq> None"
proof -
  obtain n u where u: "allocateFd t = (n, u)" by (cases "allocateFd t")
  note free = allocateFd_free [OF u]
  from assms u have a: "assign_fd n (Some desc) u s = Inr (t', s')" "fd = n"
    by (auto simp: install_def rbind_eq_Inr)
  then have r: "0 \<le> fd" "t' = u[nat fd := Some desc]" "share_ofd (fd_ofd desc) s = Inr s'"
    using free by (auto simp: assign_fd_def rbind_eq_Inr split: if_split_asm)
  show "fd = int (first_free t)" using free a by simp
  show "share_ofd (fd_ofd desc) s = Inr s'" by (rule r)
  have find_u: "findFileDescriptor k u = findFileDescriptor k t" for k
    using u by (auto simp: allocateFd_def Let_def find_append_None split: if_split_asm)
  show "findFileDescriptor k t' = (if k = fd then Some desc else findFileDescriptor k t)"
    using r free a find_update [of fd u k "Some desc"] by (simp add: find_u)
  show "findFileDescriptor fd t = None"
    using free r a find_u [of fd] by (simp add: findFileDescriptor_def)
  show "\<forall>k \<in> {0..<fd}. findFileDescriptor k t \<noteq> None"
  proof
    fix k assume k: "k \<in> {0..<fd}"
    then have "nat k < first_free t" using free a by auto
    with first_free_least [OF this] first_free_le [of t] k show "findFileDescriptor k t \<noteq> None"
      by (auto simp: findFileDescriptor_def)
  qed
qed

lemma dup_close_table:
  assumes inv: "table_inv t E s" and fd: "findFileDescriptor fd t = Some desc"
  shows "\<exists>r t' s'. fds_dup fd t s = Inr (r, t', s') \<and> findFileDescriptor r t = None \<and>
     (\<forall>k \<in> {0..<r}. findFileDescriptor k t \<noteq> None) \<and>
     findFileDescriptor r t' = Some \<lparr>fd_ofd = fd_ofd desc, closeOnExec = False\<rparr> \<and>
     fds_close r t' s' = Inr (0, t'[nat r := None], s) \<and>
     (\<forall>k. findFileDescriptor k (t'[nat r := None]) = findFileDescriptor k t)"
proof -
  let ?d = "fd_ofd desc" and ?new = "\<lparr>fd_ofd = fd_ofd desc, closeOnExec = False\<rparr>"
  note at = findFileDescriptor_Some [OF fd]
  then have "Some desc \<in> set t" by (metis nth_mem)
  then have mem: "?d \<in># table_ofds t + E" using table_ofds_memb by auto
  with inv obtain f where "file_of s ?d = Some f" "f \<in> dom (files s)"
    unfolding table_inv_def fs_inv_def ofds_ok_def by blast
  then obtain x :: fs_file and y :: open_file
    where y: "ofds s ?d = Some y" "ofd_file y = f" and x: "files s f = Some x"
    by (auto simp: file_of_def)
  have uses: "0 < ofd_uses y" using inv y mem unfolding table_inv_def fs_inv_def ofds_ok_def by auto
  have refc: "0 < refCount x"
    using inv x unfolding table_inv_def fs_inv_def files_ok_def by auto
  define s1 where "s1 = put_file f (x\<lparr>refCount := Suc (refCount x)\<rparr>) s"
  define s2 where "s2 = put_ofd ?d (y\<lparr>ofd_uses := Suc (ofd_uses y)\<rparr>) s1"
  have s1: "ref_ofd ?d s = Inr s1"
    using x y by (simp add: ref_ofd_def add_ref_def get_ofd_def get_file_def s1_def)
  have s2: "share_ofd ?d s1 = Inr s2"
    using y by (simp add: share_ofd_def get_ofd_def s1_def s2_def)
  obtain r u where alloc: "allocateFd t = (r, u)" by (cases "allocateFd t")
  note free = allocateFd_free [OF alloc]
  have inst: "install ?new t s1 = Inr (r, u[nat r := Some ?new], s2)"
    using free s2 by (simp add: install_def alloc assign_fd_def)
  note res = install_result [OF inst]
  let ?t = "u[nat r := Some ?new]"
  have r: "0 \<le> r" "nat r < length ?t" using free by simp_all
  have dup: "fds_dup fd t s = Inr (r, ?t, s2)" by (simp add: fds_dup_def fd s1 inst)
  define s3 where "s3 = put_ofd ?d (y\<lparr>ofd_uses := Suc (ofd_uses y)\<rparr>) s"
  have "unref f s2 = Inr s3"
    using x by (simp add: unref_def get_file_def s2_def s1_def s3_def put_file_def put_ofd_def fun_upd_idem)
  then have "fs_close (Some ?new) s2 = Inr (0, s3)"
    using x y refc by (simp add: fs_close_def get_ofd_def get_file_def s2_def s1_def s3_def Let_def)
  moreover have "release_ofd ?d s3 = Inr s"
    using y uses by (simp add: release_ofd_def get_ofd_def s3_def put_ofd_def fun_upd_idem)
  ultimately have close: "fds_close r ?t s2 = Inr (0, ?t[nat r := None], s)"
    using r by (simp add: fds_close_def res(3) assign_fd_def nat_less_iff not_le)
  have "findFileDescriptor k (?t[nat r := None]) = findFileDescriptor k t" for k
    using find_update [OF r, of k None] res(4) by (simp add: res(3))
  with dup res(4,5) close show ?thesis by (intro exI conjI) (auto simp: res(3))
qed

text \<open>C9. Duplicating an open descriptor always succeeds and takes the lowest number that is free, next
  to the same open file description and without the close-on-exec flag. Closing the duplicate brings
  back exactly the state of the files there was before, and every number leads where it did.\<close>

theorem dup_close_roundtrip:
  assumes "fd_reachable (ts, s)" and "i < length ts" and "findFileDescriptor fd (ts ! i) = Some desc"
  shows "\<exists>r t' s'. fds_dup fd (ts ! i) s = Inr (r, t', s') \<and> findFileDescriptor r (ts ! i) = None \<and>
     (\<forall>k \<in> {0..<r}. findFileDescriptor k (ts ! i) \<noteq> None) \<and>
     findFileDescriptor r t' = Some \<lparr>fd_ofd = fd_ofd desc, closeOnExec = False\<rparr> \<and>
     fds_close r t' s' = Inr (0, t'[nat r := None], s) \<and>
     (\<forall>k. findFileDescriptor k (t'[nat r := None]) = findFileDescriptor k (ts ! i))"
proof -
  from all_ofds_update [OF assms(2)] obtain E where E: "all_ofds ts = table_ofds (ts ! i) + E" by blast
  have "table_inv (ts ! i) E s"
    using fd_reachable_inv [OF assms(1)] E by (simp add: fds_inv_def table_inv_def)
  from dup_close_table [OF this assms(3)] show ?thesis .
qed

theorem dup_close_roundtrip_witness:
  "\<exists>r t' s'. fds_dup 0 sample_table sample_fs = Inr (r, t', s') \<and>
     fds_close r t' s' = Inr (0, t'[nat r := None], sample_fs)"
  using dup_close_roundtrip [OF sample_reachable, of 0 0 "\<lparr>fd_ofd = 0, closeOnExec = False\<rparr>"]
  by (force simp: sample_values findFileDescriptor_def)

section \<open>Pipes are queues\<close>

datatype pipe_call = PipeRead nat | PipeWrite buffer

text \<open>The bytes that a list of calls on the two ends of a pipe reads, in order.\<close>

fun pipe_run :: "descriptor \<Rightarrow> descriptor \<Rightarrow> pipe_call list \<Rightarrow> fs \<Rightarrow> (buffer \<times> fs) result" where
  "pipe_run r w [] s = Inr ([], s)"
| "pipe_run r w (PipeRead n # calls) s =
     rbind (fs_read r n s) (\<lambda>(res, s).
     rbind (pipe_run r w calls s) (\<lambda>(bytes, s).
     Inr ((case res of Ready (Value b) \<Rightarrow> b @ bytes | _ \<Rightarrow> bytes), s)))"
| "pipe_run r w (PipeWrite b # calls) s =
     rbind (fs_write w b s) (\<lambda>(n, s). pipe_run r w calls s)"

fun written :: "pipe_call list \<Rightarrow> buffer" where
  "written [] = []"
| "written (PipeRead n # calls) = written calls"
| "written (PipeWrite b # calls) = b @ written calls"

text \<open>\<open>pipe_between s r w p n\<close>: \<open>r\<close> and \<open>w\<close> are the ends of the pipe \<open>p\<close>, with \<open>n\<close> bytes written.\<close>

definition pipe_between :: "fs \<Rightarrow> file_descriptor \<Rightarrow> file_descriptor \<Rightarrow> nat \<Rightarrow> nat \<Rightarrow> bool" where
  "pipe_between s r w p n \<longleftrightarrow> fd_ofd r \<noteq> fd_ofd w \<and> pipes s p \<noteq> None \<and>
     (\<exists>y x. ofds s (fd_ofd r) = Some y \<and> files s (ofd_file y) = Some x \<and> fkind x = PipeEndpoint ReadSide p) \<and>
     (\<exists>y x. ofds s (fd_ofd w) = Some y \<and> files s (ofd_file y) = Some x \<and> fkind x = PipeEndpoint WriteSide p \<and>
            unat (ofd_offset y) = n)"

definition pipe_content :: "fs \<Rightarrow> nat \<Rightarrow> buffer" where
  "pipe_content s p = (case pipes s p of None \<Rightarrow> [] | Some q \<Rightarrow> pipe_data q)"

lemma pipe_write_step:
  assumes "pipe_between s r w p n" "n + length b < 2 ^ 63"
  shows "\<exists>k s'. fs_write (Some w) b s = Inr (k, s') \<and> pipe_between s' r w p (n + length b) \<and>
           pipe_content s' p = pipe_content s p @ b"
proof -
  from assms(1) obtain y x q where y: "ofds s (fd_ofd w) = Some y" "files s (ofd_file y) = Some x"
    "fkind x = PipeEndpoint WriteSide p" "unat (ofd_offset y) = n" and q: "pipes s p = Some q"
    by (auto simp: pipe_between_def)
  have lt: "n < 2 ^ 63" "length b < 2 ^ 63" using assms(2) by simp_all
  then have "sint (ofd_offset y) = int n"
    using y(4) by (auto simp: sint_uint uint_nat signed_take_bit_int_eq_self)
  then have ok: "\<not> sint (ofd_offset y) + int (length b) \<ge> 2 ^ 63" using assms(2) by simp
  have adv: "unat (ofd_offset y + word_of_nat (length b)) = n + length b"
    using y(4) assms(2) by (simp add: unat_word_ariths unat_of_nat take_bit_nat_eq_self)
  show ?thesis
    using y q ok adv assms(1)
    by (auto simp: fs_write_def writable_ofd_def ofd_write_def file_write_def get_ofd_def get_file_def
        get_pipe_def pipe_write_def Let_def advance_offset_def pipe_between_def pipe_content_def)
qed

lemma pipe_read_step:
  assumes "pipe_between s r w p n"
  shows "\<exists>res s'. fs_read (Some r) k s = Inr (res, s') \<and> pipe_between s' r w p n \<and>
           pipe_content s p = (case res of Ready (Value b) \<Rightarrow> b | _ \<Rightarrow> []) @ pipe_content s' p"
proof -
  from assms(1) obtain y x q where y: "ofds s (fd_ofd r) = Some y" "files s (ofd_file y) = Some x"
    "fkind x = PipeEndpoint ReadSide p" and q: "pipes s p = Some q"
    by (auto simp: pipe_between_def)
  show ?thesis
  proof (cases "pipe_data q = []")
    case True
    then show ?thesis
      using y q assms
      by (auto simp: fs_read_def ofd_read_def file_read_def get_ofd_def get_file_def get_pipe_def pipe_read_def
          Let_def advance_offset_def pipe_between_def pipe_content_def)
  next
    case False
    then show ?thesis
      using y q assms
      by (auto simp: fs_read_def ofd_read_def file_read_def get_ofd_def get_file_def get_pipe_def pipe_read_def
          Let_def advance_offset_def pipe_between_def pipe_content_def)
  qed
qed

lemma pipe_run_queue:
  "pipe_between s r w p n \<Longrightarrow> n + length (written calls) < 2 ^ 63 \<Longrightarrow>
   \<exists>bytes s'. pipe_run (Some r) (Some w) calls s = Inr (bytes, s') \<and>
     bytes @ pipe_content s' p = pipe_content s p @ written calls"
proof (induction calls arbitrary: s n)
  case (Cons c calls)
  show ?case
  proof (cases c)
    case (PipeRead k)
    from pipe_read_step [OF Cons.prems(1), of k] obtain res s1 where
      s1: "fs_read (Some r) k s = Inr (res, s1)" "pipe_between s1 r w p n"
      "pipe_content s p = (case res of Ready (Value b) \<Rightarrow> b | _ \<Rightarrow> []) @ pipe_content s1 p" by blast
    with Cons.IH [OF s1(2)] Cons.prems(2) PipeRead show ?thesis
      by (auto split: block_or.split errno_or.split)
  next
    case (PipeWrite b)
    with pipe_write_step [OF Cons.prems(1), of b] Cons.prems(2) obtain k s1 where
      s1: "fs_write (Some w) b s = Inr (k, s1)" "pipe_between s1 r w p (n + length b)"
      "pipe_content s1 p = pipe_content s p @ b" by auto
    with Cons.IH [OF s1(2)] Cons.prems(2) PipeWrite show ?thesis by (auto simp: add.assoc)
  qed
qed simp

lemma pipe2_between:
  assumes "fds_pipe2 flags t s = Inr (r, w, t', s')"
  shows "\<exists>rd wr. findFileDescriptor r t' = Some rd \<and> findFileDescriptor w t' = Some wr \<and>
     pipe_between s' rd wr (nextPipe s) 0 \<and> pipe_content s' (nextPipe s) = []"
proof -
  from assms obtain rd wr s1 t1 s2 where p: "fs_pipe2 flags s = Inr (rd, wr, s1)"
    and i1: "install rd t s1 = Inr (r, t1, s2)" and i2: "install wr t1 s2 = Inr (w, t', s')"
    by (auto simp: fds_pipe2_def rbind_eq_Inr)
  from p have rw: "fd_ofd rd = nextOfd s" "fd_ofd wr = Suc (nextOfd s)"
    by (auto simp: fs_pipe2_def new_file_def insertNode_def rbind_eq_Inr Let_def add_ref_def get_eq_Inr)
  from p have b1: "pipe_between s1 rd wr (nextPipe s) 0" "pipe_content s1 (nextPipe s) = []"
    by (auto simp: fs_pipe2_def new_file_def insertNode_def rbind_eq_Inr Let_def add_ref_def get_eq_Inr
        pipe_between_def pipe_content_def)
  note r1 = install_result [OF i1] and r2 = install_result [OF i2]
  have between: "pipe_between c rd wr p 0 \<and> pipe_content c p = []"
    if "share_ofd d b = Inr c" "pipe_between b rd wr p 0" "pipe_content b p = []" for b c d p
    using that by (auto simp: share_ofd_def rbind_eq_Inr get_eq_Inr pipe_between_def pipe_content_def)
  from between [OF r1(2) b1] between [OF r2(2)] have "pipe_between s' rd wr (nextPipe s) 0"
    "pipe_content s' (nextPipe s) = []" by blast+
  moreover have "findFileDescriptor w t' = Some wr" by (simp add: r2(3))
  moreover have "findFileDescriptor r t' = Some rd"
    using r2(4) by (auto simp: r2(3) r1(3) split: if_split_asm)
  ultimately show ?thesis by blast
qed

text \<open>C10. A pipe is a queue of bytes: after \<^verbatim>\<open>pipe2\<close> any interleaving of writes to one
  descriptor and reads, of any sizes, from the other succeeds, and what was read followed by what is
  still in the pipe is what was written, in order. The bound is that of the 64-bit offset of the open
  file description.\<close>

theorem pipe_is_a_queue:
  assumes "fds_pipe2 flags t s = Inr (r, w, t', s')" and "length (written calls) < 2 ^ 63"
  shows "\<exists>bytes s''. pipe_run (findFileDescriptor r t') (findFileDescriptor w t') calls s' = Inr (bytes, s'') \<and>
     bytes @ pipe_content s'' (nextPipe s) = written calls"
proof -
  from pipe2_between [OF assms(1)] obtain rd wr where f: "findFileDescriptor r t' = Some rd"
    "findFileDescriptor w t' = Some wr" "pipe_between s' rd wr (nextPipe s) 0"
    "pipe_content s' (nextPipe s) = []" by blast
  from pipe_run_queue [OF f(3), of calls] assms(2) f show ?thesis by auto
qed

theorem pipe_is_a_queue_witness:
  "\<exists>bytes s''. pipe_run (findFileDescriptor 0 sample_table) (findFileDescriptor 1 sample_table)
       [PipeWrite [1, 2], PipeRead 1, PipeWrite [3], PipeRead 9] sample_fs = Inr (bytes, s'') \<and>
     bytes @ pipe_content s'' 0 = [1, 2, 3]"
  using pipe_is_a_queue [OF sample_pipe_eq [unfolded sample_pipe_def],
      of "[PipeWrite [1, 2], PipeRead 1, PipeWrite [3], PipeRead 9]"]
  by (simp add: fs_init_def)

end
