(* ===== verification/X64_Time.thy ===== *)
theory X64_Time
  imports X64_Mmu
begin

text \<open>
  Emulated time. Sources: \<^verbatim>\<open>emulator/include/kernel/timers.h\<close> and
  \<^verbatim>\<open>emulator/src/kernel/timers.cpp\<close> (times, differences, timers and their exchange with guest
  memory), and the class \<^verbatim>\<open>ThreadTime\<close> of \<^verbatim>\<open>emulator/include/emulator/vmthread.h\<close> (the
  clock of a thread, which counts instructions, and its time slices).

  The order of times is the lexicographic one of the code: an instance of the class \<open>linorder\<close>, so
  that \<^verbatim>\<open>std::max\<close> is \<open>max\<close>.
\<close>

section \<open>Times\<close>

datatype precise_time = PreciseTime (seconds: u64) (nanoseconds: u64)

datatype time_difference = TimeDifference (dseconds: u64) (dnanoseconds: u64)

definition NS_PER_S :: u64 where "NS_PER_S = 1000000000"

definition time_count :: "precise_time \<Rightarrow> u64" where
  "time_count t = seconds t * NS_PER_S + nanoseconds t"

instantiation precise_time :: linorder
begin

definition less_precise_time :: "precise_time \<Rightarrow> precise_time \<Rightarrow> bool" where
  "less_precise_time a b =
     (if seconds a < seconds b then True
      else if seconds a > seconds b then False
      else nanoseconds a < nanoseconds b)"

definition less_eq_precise_time :: "precise_time \<Rightarrow> precise_time \<Rightarrow> bool" where
  "less_eq_precise_time a b = (a < b \<or> a = b)"

instance
proof
  fix a b c :: precise_time
  show "(a < b) = (a \<le> b \<and> \<not> b \<le> a)"
    by (auto simp: less_precise_time_def less_eq_precise_time_def split: if_splits)
  show "a \<le> a" by (simp add: less_eq_precise_time_def)
  show "a \<le> b \<Longrightarrow> b \<le> c \<Longrightarrow> a \<le> c"
    by (cases a; cases b; cases c) (auto simp: less_precise_time_def less_eq_precise_time_def split: if_splits)
  show "a \<le> b \<Longrightarrow> b \<le> a \<Longrightarrow> a = b"
    by (auto simp: less_precise_time_def less_eq_precise_time_def split: if_splits)
  show "a \<le> b \<or> b \<le> a"
    by (cases a; cases b) (auto simp: less_precise_time_def less_eq_precise_time_def)
qed

end

definition fromNanoSeconds :: "u64 \<Rightarrow> time_difference" where
  "fromNanoSeconds ns =
     (if ns > NS_PER_S then TimeDifference (ns div NS_PER_S) (ns mod NS_PER_S) else TimeDifference 0 ns)"

definition time_add :: "precise_time \<Rightarrow> time_difference \<Rightarrow> precise_time" where
  "time_add t dt =
     (let ns = nanoseconds t + dnanoseconds dt; s = seconds t + dseconds dt
      in if ns > NS_PER_S then PreciseTime (s + ns div NS_PER_S) (ns mod NS_PER_S) else PreciseTime s ns)"

section \<open>Timers\<close>

text \<open>A \<^verbatim>\<open>Timer*\<close> is the index of the timer in \<^verbatim>\<open>timers_\<close>, from which none is removed.\<close>

record timer =
  timer_id :: int
  timer_now :: precise_time

fun timer_index :: "int \<Rightarrow> timer list \<Rightarrow> nat option" where
  "timer_index i [] = None"
| "timer_index i (t # ts) = (if timer_id t = i then Some 0 else map_option Suc (timer_index i ts))"

definition getOrTryCreate :: "int \<Rightarrow> timer list \<Rightarrow> nat \<times> timer list" where
  "getOrTryCreate i ts =
     (case timer_index i ts of
        Some n \<Rightarrow> (n, ts)
      | None \<Rightarrow> (length ts, ts @ [\<lparr>timer_id = i, timer_now = PreciseTime 0 0\<rparr>]))"

definition updateAll :: "precise_time \<Rightarrow> timer list \<Rightarrow> timer list" where
  "updateAll kernelTime ts = map (\<lambda>t. t\<lparr>timer_now := kernelTime\<rparr>) ts"

definition timer_update :: "nat \<Rightarrow> precise_time \<Rightarrow> timer list \<Rightarrow> timer list" where
  "timer_update n kernelTime ts = ts[n := (ts ! n)\<lparr>timer_now := kernelTime\<rparr>]"

text \<open>\<^verbatim>\<open>timers.get(0)\<close> followed by the verification that there is one, and its time.\<close>

definition now_of_timer0 :: "timer list \<Rightarrow> precise_time result" where
  "now_of_timer0 ts =
     (case timer_index 0 ts of None \<Rightarrow> Inl VerifyFailed | Some n \<Rightarrow> Inr (timer_now (ts ! n)))"

section \<open>Times in guest memory\<close>

text \<open>A \<^verbatim>\<open>timespec\<close> or \<^verbatim>\<open>timeval\<close> is two 64-bit integers.\<close>

definition read_pair :: "u64 \<Rightarrow> mmu \<Rightarrow> (u64 \<times> u64) option result" where
  "read_pair ptr m =
     (if ptr = 0 then Inr None
      else rbind (copyFromMmu ptr 16 m) (\<lambda>bs. Inr (Some (join_lanes (take 8 bs), join_lanes (drop 8 bs)))))"

definition readTimespec :: "u64 \<Rightarrow> mmu \<Rightarrow> precise_time option result" where
  "readTimespec ptr m =
     rbind (read_pair ptr m) (\<lambda>p. Inr (map_option (\<lambda>(s, ns). PreciseTime s ns) p))"

definition readTimeval :: "u64 \<Rightarrow> mmu \<Rightarrow> precise_time option result" where
  "readTimeval ptr m =
     rbind (read_pair ptr m) (\<lambda>p. Inr (map_option (\<lambda>(s, us). PreciseTime s (us * 1000)) p))"

definition readRelativeTimespec :: "u64 \<Rightarrow> mmu \<Rightarrow> time_difference option result" where
  "readRelativeTimespec ptr m =
     rbind (read_pair ptr m) (\<lambda>p. Inr (map_option (\<lambda>(s, ns). TimeDifference s ns) p))"

definition readRelativeTimeval :: "u64 \<Rightarrow> mmu \<Rightarrow> time_difference option result" where
  "readRelativeTimeval ptr m =
     rbind (read_pair ptr m) (\<lambda>p. Inr (map_option (\<lambda>(s, us). TimeDifference s (us * 1000)) p))"

text \<open>
  \<^verbatim>\<open>Host::clock_gettime\<close> and \<^verbatim>\<open>Host::gettimeofday\<close>: the bytes for the guest. Their
  assertions bound the fields by the largest 64-bit signed integer.
\<close>

definition clock_gettime_bytes :: "precise_time \<Rightarrow> u8 list result" where
  "clock_gettime_bytes t =
     (if sint (seconds t) < 0 \<or> sint (nanoseconds t) < 0 then Inl AssertFailed
      else Inr (split_lanes (seconds t) @ split_lanes (nanoseconds t)))"

definition gettimeofday_bytes :: "precise_time \<Rightarrow> u8 list result" where
  "gettimeofday_bytes t =
     (if sint (seconds t) < 0 then Inl AssertFailed
      else Inr (split_lanes (seconds t) @ split_lanes (nanoseconds t div 1000)))"

section \<open>The clock of a thread\<close>

record thread_time =
  waitTime :: u64
  nbInstructions :: u64
  instructionLimit :: u64

definition thread_time_init :: thread_time where
  "thread_time_init = \<lparr>waitTime = 0, nbInstructions = 0, instructionLimit = 0\<rparr>"

definition isStopAsked :: "thread_time \<Rightarrow> bool" where
  "isStopAsked t = (nbInstructions t \<ge> instructionLimit t)"

definition thread_ns :: "thread_time \<Rightarrow> u64" where
  "thread_ns t = waitTime t + nbInstructions t"

definition tick :: "u64 \<Rightarrow> thread_time \<Rightarrow> thread_time" where
  "tick n t = t\<lparr>nbInstructions := nbInstructions t + n\<rparr>"

definition setSlice :: "u64 \<Rightarrow> u64 \<Rightarrow> thread_time \<Rightarrow> thread_time result" where
  "setSlice current sliceDuration t =
     rbind (verify (current \<ge> waitTime t + nbInstructions t)) (\<lambda>_.
     Inr (t\<lparr>waitTime := current - nbInstructions t,
            instructionLimit := nbInstructions t + sliceDuration\<rparr>))"

definition yield :: "thread_time \<Rightarrow> thread_time" where
  "yield t = t\<lparr>instructionLimit := nbInstructions t\<rparr>"

section \<open>Facts about times\<close>

text \<open>The time a thread reports to the scheduler.\<close>

definition thread_precise_time :: "thread_time \<Rightarrow> precise_time" where
  "thread_precise_time t = time_add (PreciseTime 0 0) (fromNanoSeconds (thread_ns t))"

lemma fromNanoSeconds_count:
  "dseconds (fromNanoSeconds ns) * NS_PER_S + dnanoseconds (fromNanoSeconds ns) = ns"
  "dnanoseconds (fromNanoSeconds ns) \<le> NS_PER_S"
  using word_mod_less_divisor [of NS_PER_S ns]
  by (auto simp: fromNanoSeconds_def NS_PER_S_def word_div_mult_le div_mult_mod_eq)

lemma thread_precise_time_count: "time_count (thread_precise_time t) = thread_ns t"
  using fromNanoSeconds_count [of "thread_ns t"]
  by (auto simp: thread_precise_time_def time_add_def time_count_def Let_def)

text \<open>Times whose nanoseconds are at most a second and that fit into 64 bits of nanoseconds.\<close>

definition time_ok :: "precise_time \<Rightarrow> bool" where
  "time_ok t \<longleftrightarrow> nanoseconds t \<le> NS_PER_S \<and>
     unat (seconds t) * 1000000000 + unat (nanoseconds t) < 2 ^ 64"

lemma time_count_nat:
  "time_ok t \<Longrightarrow> unat (time_count t) = unat (seconds t) * 1000000000 + unat (nanoseconds t)"
  by (simp add: time_ok_def time_count_def NS_PER_S_def unat_word_ariths)

lemma time_count_mono:
  assumes "a \<le> b" and "nanoseconds a \<le> NS_PER_S" and "time_ok b"
  shows "time_count a \<le> time_count b" "time_ok a"
proof -
  have le: "unat (seconds a) * 1000000000 + unat (nanoseconds a)
              \<le> unat (seconds b) * 1000000000 + unat (nanoseconds b)"
    using assms(1,2)
    by (auto simp: less_eq_precise_time_def less_precise_time_def word_nat_simps NS_PER_S_def split: if_splits)
  show "time_ok a" using le assms(2,3) by (simp add: time_ok_def)
  then show "time_count a \<le> time_count b" using le assms(3) by (simp add: word_le_nat_alt time_count_nat)
qed

lemma thread_precise_time_ok: "time_ok (thread_precise_time t)"
proof -
  let ?d = "fromNanoSeconds (thread_ns t)" and ?n = "thread_ns t"
  have t: "thread_precise_time t = PreciseTime (dseconds ?d) (dnanoseconds ?d)"
    using fromNanoSeconds_count(2) [of ?n] by (auto simp: thread_precise_time_def time_add_def Let_def)
  have "unat (dseconds ?d) * 1000000000 + unat (dnanoseconds ?d) = unat ?n"
    by (auto simp: fromNanoSeconds_def NS_PER_S_def unat_div unat_mod)
  then show ?thesis using fromNanoSeconds_count(2) [of ?n] unat_lt_2p [of ?n] by (simp add: t time_ok_def)
qed

end
