(* ===== verification/X64_Kernel.thy ===== *)
theory X64_Kernel
  imports X64_Time X64_Registers X64_Descriptors
begin

text \<open>
  Threads, processes and what a thread can wait for. Sources: \<^verbatim>\<open>emulator/include/emulator/vmthread.h\<close>,
  \<^verbatim>\<open>emulator/include/kernel/linux/thread.h\<close>, \<^verbatim>\<open>process.h\<close>, \<^verbatim>\<open>process.cpp\<close>,
  \<^verbatim>\<open>processtable.cpp\<close> and \<^verbatim>\<open>threadblocker.cpp\<close>.

  The kernel owns everything: a \<^verbatim>\<open>Thread*\<close>, \<^verbatim>\<open>Process*\<close> or address space is a number. Threads and
  processes are never destroyed while the kernel runs, so these stores are total functions with a
  counter of what was handed out. The use count of a shared address space is the number of the
  processes that hold it. The files, the descriptor tables and the address spaces are those of
  \<^verbatim>\<open>X64_Descriptors\<close> and \<^verbatim>\<open>X64_Mmu\<close>.
\<close>

section \<open>Threads\<close>

record thread =
  tprocess :: nat
  tpid :: int
  tid :: int
  exitStatus :: int
  clearChildTid :: u64
  saved_regs :: registers
  fsBase :: u64
  ttime :: thread_time
  requestsSyscall :: bool
  requestsAtomic :: bool

definition new_thread :: "nat \<Rightarrow> int \<Rightarrow> int \<Rightarrow> thread" where
  "new_thread p pid i =
     \<lparr>tprocess = p, tpid = pid, tid = i, exitStatus = -1, clearChildTid = 0,
      saved_regs = registers_init, fsBase = 0, ttime = thread_time_init,
      requestsSyscall = False, requestsAtomic = False\<rparr>"

definition thread_yield :: "thread \<Rightarrow> thread" where
  "thread_yield t = t\<lparr>ttime := yield (ttime t)\<rparr>"

definition enterSyscall :: "thread \<Rightarrow> thread" where
  "enterSyscall t = (thread_yield t)\<lparr>requestsSyscall := True\<rparr>"

definition enterAtomic :: "thread \<Rightarrow> thread" where
  "enterAtomic t = (thread_yield t)\<lparr>requestsAtomic := True\<rparr>"

text \<open>\<^verbatim>\<open>reportInfoFrom\<close>: the saved state of the processor.\<close>

definition reportInfoFrom :: "thread \<Rightarrow> thread \<Rightarrow> thread" where
  "reportInfoFrom other t = t\<lparr>saved_regs := saved_regs other, fsBase := fsBase other\<rparr>"

section \<open>Processes\<close>

record exited_child =
  ec_pid :: int
  ec_status :: int
  ec_signal :: "int option"

record process =
  pid :: int
  space :: nat
  proc_threads :: "nat list"
  fds :: fd_table
  parent :: "nat option"
  children :: "nat list"
  exitedChildren :: "exited_child list"

section \<open>What a blocked thread waits for\<close>

record futex_blocker =
  fb_thread :: nat
  fb_wordPtr :: u64
  fb_expected :: u32
  fb_timeLimit :: "precise_time option"

record poll_blocker =
  pb_process :: nat
  pb_thread :: nat
  pb_pollfds :: u64
  pb_nfds :: u64
  pb_timeLimit :: "precise_time option"

record select_blocker =
  sb_process :: nat
  sb_thread :: nat
  sb_nfds :: int
  sb_readfds :: u64
  sb_writefds :: u64
  sb_exceptfds :: u64
  sb_timeLimit :: "precise_time option"

record epoll_blocker =
  eb_process :: nat
  eb_thread :: nat
  eb_epfd :: int
  eb_events :: u64
  eb_maxevents :: u64
  eb_timeLimit :: "precise_time option"

record sleep_blocker =
  slb_thread :: nat
  slb_timer :: nat
  slb_targetTime :: precise_time

record wait_blocker =
  wb_thread :: nat
  wb_pid :: int
  wb_wstatus :: u64

record read_blocker =
  rb_thread :: nat
  rb_fd :: int
  rb_buf :: u64
  rb_count :: u64

section \<open>The kernel\<close>

datatype ring = KernelRing | UserspaceRing

record job =
  job_thread :: nat
  job_ring :: ring
  job_atomic :: bool

record kernel =
  kthreads :: "nat \<Rightarrow> thread"
  kprocesses :: "nat \<Rightarrow> process"
  kspaces :: "nat \<Rightarrow> mmu"
  nextThread :: nat
  nextProcess :: nat
  nextSpace :: nat
  lastUsedPid :: int
  lastUsedTid :: int
  kfs :: fs
  ktimers :: "timer list"
  schedThreads :: "nat list"
  runningJobs :: "job list"
  runnableThreads :: "nat list"
  blockedThreads :: "nat list"
  futexBlockers :: "futex_blocker list"
  pollBlockers :: "poll_blocker list"
  selectBlockers :: "select_blocker list"
  epollWaitBlockers :: "epoll_blocker list"
  sleepBlockers :: "sleep_blocker list"
  waitBlockers :: "wait_blocker list"
  readBlockers :: "read_blocker list"
  vmReleaseBlockers :: "nat list"
  currentTime :: precise_time
  inKernel :: bool
  numRunningJobs :: nat

definition put_thread :: "nat \<Rightarrow> thread \<Rightarrow> kernel \<Rightarrow> kernel" where
  "put_thread t x k = k\<lparr>kthreads := (kthreads k)(t := x)\<rparr>"

definition update_thread :: "nat \<Rightarrow> (thread \<Rightarrow> thread) \<Rightarrow> kernel \<Rightarrow> kernel" where
  "update_thread t f k = put_thread t (f (kthreads k t)) k"

definition put_process :: "nat \<Rightarrow> process \<Rightarrow> kernel \<Rightarrow> kernel" where
  "put_process p x k = k\<lparr>kprocesses := (kprocesses k)(p := x)\<rparr>"

text \<open>The process and the memory of a thread.\<close>

definition process_of :: "nat \<Rightarrow> kernel \<Rightarrow> process" where
  "process_of t k = kprocesses k (tprocess (kthreads k t))"

definition mmu_of :: "nat \<Rightarrow> kernel \<Rightarrow> mmu" where
  "mmu_of t k = kspaces k (space (process_of t k))"

definition put_mmu :: "nat \<Rightarrow> mmu \<Rightarrow> kernel \<Rightarrow> kernel" where
  "put_mmu t m k = k\<lparr>kspaces := (kspaces k)(space (process_of t k) := m)\<rparr>"

text \<open>
  \<^verbatim>\<open>x64::Mmu mmu(thread->process()->addressSpace())\<close>: constructing an Mmu makes sure that the
  address space has its null page.
\<close>

definition open_mmu :: "host_mprotect \<Rightarrow> nat \<Rightarrow> kernel \<Rightarrow> (mmu \<times> kernel) result" where
  "open_mmu host t k = rbind (ensureNullPage host (mmu_of t k)) (\<lambda>m. Inr (m, put_mmu t m k))"

definition set_rax :: "nat \<Rightarrow> u64 \<Rightarrow> kernel \<Rightarrow> kernel result" where
  "set_rax t v k =
     rbind (set64 (saved_regs (kthreads k t)) RAX v) (\<lambda>r.
     Inr (update_thread t (\<lambda>x. x\<lparr>saved_regs := r\<rparr>) k))"

definition addressSpaceRefCount :: "nat \<Rightarrow> kernel \<Rightarrow> nat" where
  "addressSpaceRefCount p k =
     length (filter (\<lambda>q. space (kprocesses k q) = space (kprocesses k p)) [0..<nextProcess k])"

section \<open>Process table and family\<close>

definition allocatedId :: "kernel \<Rightarrow> kernel result" where
  "allocatedId k =
     (if lastUsedPid k \<ge> 2 ^ 31 - 1 \<or> lastUsedTid k \<ge> 2 ^ 31 - 1 then Inl SignedOverflow
      else Inr (k\<lparr>lastUsedPid := lastUsedPid k + 1, lastUsedTid := lastUsedTid k + 1\<rparr>))"

definition allocatedPid :: "kernel \<Rightarrow> (int \<times> kernel) result" where
  "allocatedPid k = rbind (allocatedId k) (\<lambda>k. Inr (lastUsedPid k, k))"

definition allocatedTid :: "kernel \<Rightarrow> (int \<times> kernel) result" where
  "allocatedTid k = rbind (allocatedId k) (\<lambda>k. Inr (lastUsedTid k, k))"

definition process_addThread :: "nat \<Rightarrow> kernel \<Rightarrow> (nat \<times> kernel) result" where
  "process_addThread p k =
     rbind (if proc_threads (kprocesses k p) = [] then Inr (pid (kprocesses k p), k) else allocatedTid k)
       (\<lambda>(i, k).
     let proc = kprocesses k p; t = nextThread k;
         k = (put_thread t (new_thread p (pid proc) i) k)\<lparr>nextThread := Suc t\<rparr>
     in Inr (t, put_process p (proc\<lparr>proc_threads := proc_threads proc @ [t]\<rparr>) k))"

fun first_such :: "('a \<Rightarrow> bool) \<Rightarrow> 'a list \<Rightarrow> 'a option" where
  "first_such P [] = None"
| "first_such P (x # xs) = (if P x then Some x else first_such P xs)"

fun remove_first :: "('a \<Rightarrow> bool) \<Rightarrow> 'a list \<Rightarrow> 'a list" where
  "remove_first P [] = []"
| "remove_first P (x # xs) = (if P x then xs else x # remove_first P xs)"

definition tryGetChild :: "int \<Rightarrow> nat \<Rightarrow> kernel \<Rightarrow> nat option" where
  "tryGetChild i p k = first_such (\<lambda>c. pid (kprocesses k c) = i) (children (kprocesses k p))"

definition notifyChildCreated :: "nat \<Rightarrow> nat \<Rightarrow> kernel \<Rightarrow> kernel" where
  "notifyChildCreated p c k =
     put_process p ((kprocesses k p)\<lparr>children := children (kprocesses k p) @ [c]\<rparr>) k"

definition notifyChildExited :: "nat \<Rightarrow> nat \<Rightarrow> int \<Rightarrow> int option \<Rightarrow> kernel \<Rightarrow> kernel result" where
  "notifyChildExited p c status signal k =
     (let i = pid (kprocesses k c) in
      rbind (verify (tryGetChild i p k \<noteq> None)) (\<lambda>_.
      Inr (put_process p ((kprocesses k p)\<lparr>exitedChildren := exitedChildren (kprocesses k p) @
             [\<lparr>ec_pid = i, ec_status = status, ec_signal = signal\<rparr>]\<rparr>) k)))"

definition notifyExit :: "nat \<Rightarrow> int \<Rightarrow> int option \<Rightarrow> kernel \<Rightarrow> kernel result" where
  "notifyExit p status signal k =
     rbind (closeAll (fds (kprocesses k p)) (kfs k)) (\<lambda>(table, s).
     let k = put_process p ((kprocesses k p)\<lparr>fds := table\<rparr>) (k\<lparr>kfs := s\<rparr>)
     in case parent (kprocesses k p) of
          None \<Rightarrow> Inr k
        | Some q \<Rightarrow> notifyChildExited q p status signal k)"

definition forget_child :: "nat \<Rightarrow> exited_child \<Rightarrow> (exited_child \<Rightarrow> bool) \<Rightarrow> nat \<Rightarrow> kernel \<Rightarrow> kernel" where
  "forget_child c ec P p k =
     put_process p ((kprocesses k p)\<lparr>children := filter (\<lambda>x. x \<noteq> c) (children (kprocesses k p)),
                                     exitedChildren := remove_first P (exitedChildren (kprocesses k p))\<rparr>) k"

definition tryRetrieveExitedChild_pid :: "int \<Rightarrow> nat \<Rightarrow> kernel \<Rightarrow> (exited_child option \<times> kernel) result" where
  "tryRetrieveExitedChild_pid i p k =
     (case tryGetChild i p k of None \<Rightarrow> Inl VerifyFailed
      | Some c \<Rightarrow>
          (case first_such (\<lambda>ec. ec_pid ec = i) (exitedChildren (kprocesses k p)) of
             None \<Rightarrow> Inr (None, k)
           | Some ec \<Rightarrow> Inr (Some ec, forget_child c ec (\<lambda>e. ec_pid e = i) p k)))"

definition tryRetrieveExitedChild :: "nat \<Rightarrow> kernel \<Rightarrow> (exited_child option \<times> kernel) result" where
  "tryRetrieveExitedChild p k =
     (case exitedChildren (kprocesses k p) of
        [] \<Rightarrow> Inr (None, k)
      | ec # _ \<Rightarrow>
          (case tryGetChild (ec_pid ec) p k of None \<Rightarrow> Inl VerifyFailed
           | Some c \<Rightarrow> Inr (Some ec, forget_child c ec (\<lambda>_. True) p k)))"

section \<open>Descriptor arrays in guest memory\<close>

text \<open>\<^verbatim>\<open>struct PollFd\<close> is eight bytes: a descriptor, the events asked for and those that came.\<close>

fun decode_pollfds :: "u8 list \<Rightarrow> (u32 \<times> u16 \<times> u16) list" where
  "decode_pollfds (a # b # c # d # e # f # g # h # rest) =
     (join_lanes [a, b, c, d], join_lanes [e, f], join_lanes [g, h]) # decode_pollfds rest"
| "decode_pollfds _ = []"

definition encode_pollfd :: "poll_data \<Rightarrow> u8 list" where
  "encode_pollfd pd = split_lanes (poll_fd pd) @ split_lanes (poll_events pd) @ split_lanes (poll_revents pd)"

text \<open>The size computation \<^verbatim>\<open>n * sizeof(PollFd)\<close> is one of 64 bits.\<close>

definition read_pollfds :: "u64 \<Rightarrow> u64 \<Rightarrow> fd_table \<Rightarrow> mmu \<Rightarrow> poll_data list result" where
  "read_pollfds ptr n table m =
     rbind (copyFromMmu ptr (unat (n * 8)) m) (\<lambda>bs.
     Inr (map (\<lambda>(fd, ev, rev). \<lparr>poll_fd = fd, poll_descriptor = findFileDescriptor (sint fd) table,
                                poll_events = ev, poll_revents = rev\<rparr>) (decode_pollfds bs)))"

definition read_fd_set :: "u64 \<Rightarrow> mmu \<Rightarrow> fd_set result" where
  "read_fd_set ptr m = (if ptr = 0 then Inr 0 else rbind (copyFromMmu ptr 128 m) (\<lambda>bs. Inr (join_lanes bs)))"

definition write_fd_set :: "u64 \<Rightarrow> fd_set \<Rightarrow> mmu \<Rightarrow> mmu result" where
  "write_fd_set ptr fdset m = (if ptr = 0 then Inr m else copyToMmu ptr (split_lanes fdset) m)"

definition read_select_data :: "int \<Rightarrow> u64 \<Rightarrow> u64 \<Rightarrow> u64 \<Rightarrow> fd_table \<Rightarrow> mmu \<Rightarrow> select_data result" where
  "read_select_data nfds r w e table m =
     rbind (read_fd_set r m) (\<lambda>rs. rbind (read_fd_set w m) (\<lambda>ws. rbind (read_fd_set e m) (\<lambda>es.
     Inr \<lparr>select_fds = map (\<lambda>fd. findFileDescriptor (int fd) table) [0..<nat nfds],
          select_readfds = rs, select_writefds = ws, select_exceptfds = es\<rparr>)))"

definition write_select_data :: "u64 \<Rightarrow> u64 \<Rightarrow> u64 \<Rightarrow> select_data \<Rightarrow> mmu \<Rightarrow> mmu result" where
  "write_select_data r w e sd m =
     rbind (write_fd_set r (select_readfds sd) m) (\<lambda>m.
     rbind (write_fd_set w (select_writefds sd) m) (\<lambda>m. write_fd_set e (select_exceptfds sd) m))"

text \<open>\<^verbatim>\<open>struct EpollEvent\<close> is packed: twelve bytes.\<close>

definition encode_epoll_event :: "epoll_event \<Rightarrow> u8 list" where
  "encode_epoll_event e = split_lanes (ee_events e) @ split_lanes (ee_data e)"

section \<open>Unblocking\<close>

definition ETIMEDOUT :: int where "ETIMEDOUT = 110"

text \<open>\<^verbatim>\<open>now > timeLimit\<close>, asked of timer 0, when there is a limit.\<close>

definition time_is_up :: "precise_time option \<Rightarrow> kernel \<Rightarrow> bool result" where
  "time_is_up limit k =
     (case limit of None \<Rightarrow> Inr False | Some l \<Rightarrow> rbind (now_of_timer0 (ktimers k)) (\<lambda>now. Inr (now > l)))"

definition futex_tryUnblock :: "u64 \<Rightarrow> futex_blocker \<Rightarrow> kernel \<Rightarrow> (bool \<times> kernel) result" where
  "futex_tryUnblock ptr b k =
     rbind (time_is_up (fb_timeLimit b) k) (\<lambda>up.
     if up then rbind (set_rax (fb_thread b) (word_of_int (- ETIMEDOUT)) k) (\<lambda>k. Inr (True, k))
     else if ptr \<noteq> fb_wordPtr b then Inr (False, k)
     else rbind (set_rax (fb_thread b) 0 k) (\<lambda>k. Inr (True, k)))"

definition poll_tryUnblock :: "host_mprotect \<Rightarrow> poll_blocker \<Rightarrow> kernel \<Rightarrow> (bool \<times> kernel) result" where
  "poll_tryUnblock host b k =
     rbind (open_mmu host (pb_thread b) k) (\<lambda>(m, k).
     rbind (read_pollfds (pb_pollfds b) (pb_nfds b) (fds (kprocesses k (pb_process b))) m) (\<lambda>pds.
     rbind (doPoll pds (kfs k)) (\<lambda>pds.
     let nzrevents = length (filter (\<lambda>pd. poll_revents pd \<noteq> 0) pds) in
     rbind (time_is_up (pb_timeLimit b) k) (\<lambda>timeout.
     if nzrevents > 0
     then rbind (copyToMmu (pb_pollfds b) (concat (map encode_pollfd pds)) m) (\<lambda>m.
          rbind (set_rax (pb_thread b) (word_of_nat nzrevents) (put_mmu (pb_thread b) m k)) (\<lambda>k. Inr (True, k)))
     else if timeout then rbind (set_rax (pb_thread b) 0 k) (\<lambda>k. Inr (True, k))
     else Inr (False, k)))))"

definition select_tryUnblock :: "host_mprotect \<Rightarrow> select_blocker \<Rightarrow> kernel \<Rightarrow> (bool \<times> kernel) result" where
  "select_tryUnblock host b k =
     rbind (open_mmu host (sb_thread b) k) (\<lambda>(m, k).
     rbind (read_select_data (sb_nfds b) (sb_readfds b) (sb_writefds b) (sb_exceptfds b)
              (fds (kprocesses k (sb_process b))) m) (\<lambda>sd.
     rbind (selectImmediate sd (kfs k)) (\<lambda>(ret, sd).
     let nzevents = popcount (select_readfds sd) + popcount (select_writefds sd) + popcount (select_exceptfds sd) in
     rbind (time_is_up (sb_timeLimit b) k) (\<lambda>timeout.
     if \<not> (ret < 0 \<or> nzevents > 0 \<or> timeout) then Inr (False, k)
     else rbind (write_select_data (sb_readfds b) (sb_writefds b) (sb_exceptfds b) sd m) (\<lambda>m.
          rbind (set_rax (sb_thread b) (word_of_int (if ret \<ge> 0 then int nzevents else ret))
                   (put_mmu (sb_thread b) m k)) (\<lambda>k. Inr (True, k)))))))"

definition epoll_tryUnblock :: "host_mprotect \<Rightarrow> epoll_blocker \<Rightarrow> kernel \<Rightarrow> (bool \<times> kernel) result" where
  "epoll_tryUnblock host b k =
     rbind (doEpollWait (findFileDescriptor (eb_epfd b) (fds (kprocesses k (eb_process b)))) (kfs k)) (\<lambda>evs.
     let evs = take (unat (eb_maxevents b)) evs in
     rbind (time_is_up (eb_timeLimit b) k) (\<lambda>timeout.
     if evs \<noteq> []
     then rbind (open_mmu host (eb_thread b) k) (\<lambda>(m, k).
          rbind (copyToMmu (eb_events b) (concat (map encode_epoll_event evs)) m) (\<lambda>m.
          rbind (set_rax (eb_thread b) (word_of_nat (length evs)) (put_mmu (eb_thread b) m k)) (\<lambda>k. Inr (True, k))))
     else if timeout then rbind (set_rax (eb_thread b) 0 k) (\<lambda>k. Inr (True, k))
     else Inr (False, k)))"

definition sleep_tryUnblock :: "sleep_blocker \<Rightarrow> kernel \<Rightarrow> (bool \<times> kernel) result" where
  "sleep_tryUnblock b k =
     (let (timer, ts) = getOrTryCreate (timer_id (ktimers k ! slb_timer b)) (ktimers k); k = k\<lparr>ktimers := ts\<rparr> in
      rbind (verify (slb_timer b = timer)) (\<lambda>_.
      if timer_now (ktimers k ! slb_timer b) < slb_targetTime b then Inr (False, k)
      else rbind (set_rax (slb_thread b) 0 k) (\<lambda>k. Inr (True, k))))"

text \<open>The status word is computed on \<^verbatim>\<open>int\<close>, where shifting a negative number is not defined.\<close>

definition wait_status :: "exited_child \<Rightarrow> u32 result" where
  "wait_status ec =
     (if ec_status ec < 0 \<or> ec_status ec \<ge> 2 ^ 24 then Inl ShiftOutOfRange
      else Inr (word_of_int (ec_status ec * 256) OR word_of_int (case ec_signal ec of None \<Rightarrow> 0 | Some sig \<Rightarrow> sig)))"

definition report_child :: "host_mprotect \<Rightarrow> wait_blocker \<Rightarrow> exited_child \<Rightarrow> kernel \<Rightarrow> (bool \<times> kernel) result" where
  "report_child host b ec k =
     rbind (set_rax (wb_thread b) (word_of_int (ec_pid ec)) k) (\<lambda>k.
     if wb_wstatus b = 0 then Inr (True, k)
     else rbind (open_mmu host (wb_thread b) k) (\<lambda>(m, k).
          rbind (wait_status ec) (\<lambda>status.
          rbind (mmu_write (wb_wstatus b) status m) (\<lambda>m.
          Inr (True, put_mmu (wb_thread b) m k)))))"

definition wait_tryUnblock :: "host_mprotect \<Rightarrow> wait_blocker \<Rightarrow> kernel \<Rightarrow> (bool \<times> kernel) result" where
  "wait_tryUnblock host b k =
     (let p = tprocess (kthreads k (wb_thread b)) in
      if wb_pid b > 0
      then rbind (tryRetrieveExitedChild_pid (wb_pid b) p k) (\<lambda>(r, k).
           case r of None \<Rightarrow> Inr (False, k)
           | Some ec \<Rightarrow> rbind (verify (ec_pid ec = wb_pid b)) (\<lambda>_. report_child host b ec k))
      else if wb_pid b = -1
      then rbind (tryRetrieveExitedChild p k) (\<lambda>(r, k).
           case r of None \<Rightarrow> Inr (False, k) | Some ec \<Rightarrow> report_child host b ec k)
      else Inl VerifyFailed)"

definition read_tryUnblock :: "host_mprotect \<Rightarrow> read_blocker \<Rightarrow> kernel \<Rightarrow> (bool \<times> kernel) result" where
  "read_tryUnblock host b k =
     rbind (fs_read (findFileDescriptor (rb_fd b) (fds (process_of (rb_thread b) k))) (unat (rb_count b)) (kfs k))
       (\<lambda>(r, s).
     let k = k\<lparr>kfs := s\<rparr> in
     case r of
       Blocking \<Rightarrow> Inr (False, k)
     | Ready (Errno e) \<Rightarrow> rbind (set_rax (rb_thread b) (word_of_int e) k) (\<lambda>k. Inr (True, k))
     | Ready (Value buf) \<Rightarrow>
         rbind (open_mmu host (rb_thread b) k) (\<lambda>(m, k).
         rbind (copyToMmu (rb_buf b) buf m) (\<lambda>m.
         rbind (set_rax (rb_thread b) (word_of_nat (length buf)) (put_mmu (rb_thread b) m k)) (\<lambda>k. Inr (True, k)))))"

definition vm_tryUnblock :: "nat \<Rightarrow> kernel \<Rightarrow> (bool \<times> kernel) result" where
  "vm_tryUnblock t k = Inr (addressSpaceRefCount (tprocess (kthreads k t)) k = 1, k)"

end
