(* ===== verification/X64_Scheduler.thy ===== *)
theory X64_Scheduler
  imports X64_Kernel
begin

text \<open>
  The scheduler, \<^verbatim>\<open>emulator/src/kernel/linux/scheduler.cpp\<close>: blocking and unblocking, futexes,
  termination, the choice of the next job and the ways a worker runs one. The worker threads of the
  host interleave at the scheduler's mutex; every definition here is what happens while it is held,
  but for \<open>start_userspace\<close>, which the code does without it. An exception makes the emulator stop; it
  is a failing result.
\<close>

section \<open>Queues\<close>

definition verifyInKernel :: "kernel \<Rightarrow> unit result" where
  "verifyInKernel k = verify (inKernel k)"

definition sched_addThread :: "nat \<Rightarrow> kernel \<Rightarrow> kernel" where
  "sched_addThread t k =
     k\<lparr>schedThreads := schedThreads k @ [t], runnableThreads := runnableThreads k @ [t]\<rparr>"

definition block :: "nat \<Rightarrow> kernel \<Rightarrow> kernel result" where
  "block t k =
     rbind (verifyInKernel k) (\<lambda>_.
     Inr (k\<lparr>runningJobs := filter (\<lambda>j. job_thread j \<noteq> t) (runningJobs k),
            runnableThreads := filter (\<lambda>x. x \<noteq> t) (runnableThreads k),
            blockedThreads := blockedThreads k @ [t]\<rparr>))"

text \<open>\<open>locked\<close>: the caller passes the lock it holds.\<close>

definition unblock :: "bool \<Rightarrow> nat \<Rightarrow> kernel \<Rightarrow> kernel result" where
  "unblock locked t k =
     rbind (if locked then Inr () else verifyInKernel k) (\<lambda>_.
     rbind (verify (t \<in> set (blockedThreads k))) (\<lambda>_.
     Inr (k\<lparr>blockedThreads := remove1 t (blockedThreads k), runnableThreads := runnableThreads k @ [t]\<rparr>)))"

definition block_and_yield :: "nat \<Rightarrow> kernel \<Rightarrow> kernel result" where
  "block_and_yield t k = rbind (block t k) (\<lambda>k. Inr (update_thread t thread_yield k))"

section \<open>Waiting\<close>

definition sched_sleep :: "nat \<Rightarrow> nat \<Rightarrow> precise_time \<Rightarrow> kernel \<Rightarrow> kernel result" where
  "sched_sleep t timer target k =
     rbind (verifyInKernel k) (\<lambda>_.
     block_and_yield t (k\<lparr>sleepBlockers := sleepBlockers k @
       [\<lparr>slb_thread = t, slb_timer = timer, slb_targetTime = target\<rparr>]\<rparr>))"

text \<open>The constructor of a futex blocker reads the time limit from guest memory.\<close>

definition futex_limit ::
  "host_mprotect \<Rightarrow> nat \<Rightarrow> u64 \<Rightarrow> bool \<Rightarrow> kernel \<Rightarrow> (precise_time option \<times> kernel) result" where
  "futex_limit host t timeout absolute k =
     (if timeout = 0 then Inr (None, k)
      else rbind (now_of_timer0 (ktimers k)) (\<lambda>now.
           rbind (open_mmu host t k) (\<lambda>(m, k).
           if absolute
           then rbind (readTimespec timeout m) (\<lambda>a.
                rbind (verify (a \<noteq> None)) (\<lambda>_. Inr (a, k)))
           else rbind (readRelativeTimespec timeout m) (\<lambda>r.
                rbind (verify (r \<noteq> None)) (\<lambda>_. Inr (map_option (time_add now) r, k))))))"

definition futex_wait ::
  "host_mprotect \<Rightarrow> bool \<Rightarrow> nat \<Rightarrow> u64 \<Rightarrow> u32 \<Rightarrow> u64 \<Rightarrow> kernel \<Rightarrow> kernel result" where
  "futex_wait host absolute t wordPtr expected timeout k =
     rbind (verifyInKernel k) (\<lambda>_.
     rbind (futex_limit host t timeout absolute k) (\<lambda>(limit, k).
     block_and_yield t (k\<lparr>futexBlockers := futexBlockers k @
       [\<lparr>fb_thread = t, fb_wordPtr = wordPtr, fb_expected = expected, fb_timeLimit = limit\<rparr>]\<rparr>)))"

definition sched_wait :: "host_mprotect \<Rightarrow> nat \<Rightarrow> u64 \<Rightarrow> u32 \<Rightarrow> u64 \<Rightarrow> kernel \<Rightarrow> kernel result" where
  "sched_wait host = futex_wait host False"

definition sched_waitBitset :: "host_mprotect \<Rightarrow> nat \<Rightarrow> u64 \<Rightarrow> u32 \<Rightarrow> u64 \<Rightarrow> kernel \<Rightarrow> kernel result" where
  "sched_waitBitset host = futex_wait host True"

text \<open>A time limit in milliseconds, from the present of timer 0, which is created if need be.\<close>

definition limit_in_ms :: "int \<Rightarrow> kernel \<Rightarrow> precise_time option \<times> kernel" where
  "limit_in_ms ms k =
     (if ms > 0
      then let (n, ts) = getOrTryCreate 0 (ktimers k)
           in (Some (time_add (timer_now (ts ! n)) (fromNanoSeconds (word_of_int ms * 1000000))), k\<lparr>ktimers := ts\<rparr>)
      else (None, k))"

definition sched_poll :: "nat \<Rightarrow> u64 \<Rightarrow> u64 \<Rightarrow> int \<Rightarrow> kernel \<Rightarrow> kernel result" where
  "sched_poll t pollfds nfds timeout k =
     rbind (verifyInKernel k) (\<lambda>_.
     rbind (verify (timeout \<noteq> 0)) (\<lambda>_.
     let (limit, k) = limit_in_ms timeout k
     in block_and_yield t (k\<lparr>pollBlockers := pollBlockers k @
          [\<lparr>pb_process = tprocess (kthreads k t), pb_thread = t, pb_pollfds = pollfds, pb_nfds = nfds,
            pb_timeLimit = limit\<rparr>]\<rparr>)))"

definition sched_select ::
  "host_mprotect \<Rightarrow> nat \<Rightarrow> int \<Rightarrow> u64 \<Rightarrow> u64 \<Rightarrow> u64 \<Rightarrow> u64 \<Rightarrow> kernel \<Rightarrow> kernel result" where
  "sched_select host t nfds r w e timeout k =
     rbind (verifyInKernel k) (\<lambda>_.
     let (n, ts) = getOrTryCreate 0 (ktimers k); k = k\<lparr>ktimers := ts\<rparr>
     in rbind (open_mmu host t k) (\<lambda>(m, k).
        rbind (readRelativeTimeval timeout m) (\<lambda>d.
        block_and_yield t (k\<lparr>selectBlockers := selectBlockers k @
          [\<lparr>sb_process = tprocess (kthreads k t), sb_thread = t, sb_nfds = nfds, sb_readfds = r,
            sb_writefds = w, sb_exceptfds = e,
            sb_timeLimit = map_option (time_add (timer_now (ts ! n))) d\<rparr>]\<rparr>))))"

definition sched_epoll_wait :: "nat \<Rightarrow> int \<Rightarrow> u64 \<Rightarrow> u64 \<Rightarrow> int \<Rightarrow> kernel \<Rightarrow> kernel result" where
  "sched_epoll_wait t epfd evs maxevents timeout k =
     rbind (verifyInKernel k) (\<lambda>_.
     let (limit, k) = limit_in_ms timeout k
     in block_and_yield t (k\<lparr>epollWaitBlockers := epollWaitBlockers k @
          [\<lparr>eb_process = tprocess (kthreads k t), eb_thread = t, eb_epfd = epfd, eb_events = evs,
            eb_maxevents = maxevents, eb_timeLimit = limit\<rparr>]\<rparr>))"

definition sched_wait4 :: "nat \<Rightarrow> int \<Rightarrow> u64 \<Rightarrow> kernel \<Rightarrow> kernel result" where
  "sched_wait4 t i wstatus k =
     rbind (verifyInKernel k) (\<lambda>_.
     block_and_yield t (k\<lparr>waitBlockers := waitBlockers k @
       [\<lparr>wb_thread = t, wb_pid = i, wb_wstatus = wstatus\<rparr>]\<rparr>))"

definition sched_blockingRead :: "nat \<Rightarrow> int \<Rightarrow> u64 \<Rightarrow> u64 \<Rightarrow> kernel \<Rightarrow> kernel result" where
  "sched_blockingRead t fd buf count k =
     rbind (verifyInKernel k) (\<lambda>_.
     block_and_yield t (k\<lparr>readBlockers := readBlockers k @
       [\<lparr>rb_thread = t, rb_fd = fd, rb_buf = buf, rb_count = count\<rparr>]\<rparr>))"

definition suspendUntilVmReleased :: "nat \<Rightarrow> kernel \<Rightarrow> kernel result" where
  "suspendUntilVmReleased t k =
     rbind (verifyInKernel k) (\<lambda>_.
     block_and_yield t (k\<lparr>vmReleaseBlockers := vmReleaseBlockers k @ [t]\<rparr>))"

section \<open>Waking\<close>

fun wake_loop ::
  "u64 \<Rightarrow> u32 \<Rightarrow> u32 \<Rightarrow> futex_blocker list \<Rightarrow> kernel \<Rightarrow> (futex_blocker list \<times> u32 \<times> kernel) result" where
  "wake_loop wordPtr nbWaiters nbWoken [] k = Inr ([], nbWoken, k)"
| "wake_loop wordPtr nbWaiters nbWoken (b # bs) k =
     rbind (futex_tryUnblock wordPtr b k) (\<lambda>(can, k).
     if \<not> can
     then rbind (wake_loop wordPtr nbWaiters nbWoken bs k) (\<lambda>(kept, n, k). Inr (b # kept, n, k))
     else rbind (unblock False (fb_thread b) k) (\<lambda>k.
          if nbWoken + 1 \<ge> nbWaiters then Inr (bs, nbWoken + 1, k)
          else wake_loop wordPtr nbWaiters (nbWoken + 1) bs k))"

definition wake :: "u64 \<Rightarrow> u32 \<Rightarrow> kernel \<Rightarrow> (u32 \<times> kernel) result" where
  "wake wordPtr nbWaiters k =
     rbind (verifyInKernel k) (\<lambda>_.
     rbind (wake_loop wordPtr nbWaiters 0 (futexBlockers k) k) (\<lambda>(kept, n, k).
     Inr (n, k\<lparr>futexBlockers := kept\<rparr>)))"

text \<open>The operation, comparison and arguments packed into the last argument of FUTEX_WAKE_OP.\<close>

record futex_op =
  op_op :: nat
  op_cmp :: nat
  op_oparg :: u16
  op_cmparg :: u16

definition futexOp :: "u32 \<Rightarrow> futex_op result" where
  "futexOp val3 =
     (let op = unat (drop_bit 28 val3 AND 15); cmp = unat (drop_bit 24 val3 AND 15);
          oparg = (ucast (drop_bit 12 val3 AND 0xFFF) :: u16); cmparg = (ucast (val3 AND 0xFFF) :: u16)
      in if bit op 3
         then (if unat oparg \<ge> 32 then Inl ShiftOutOfRange
               else Inr \<lparr>op_op = op mod 8, op_cmp = cmp, op_oparg = push_bit (unat oparg) 1, op_cmparg = cmparg\<rparr>)
         else Inr \<lparr>op_op = op, op_cmp = cmp, op_oparg = oparg, op_cmparg = cmparg\<rparr>)"

definition futex_newval :: "u32 \<Rightarrow> nat \<Rightarrow> u16 \<Rightarrow> u32 result" where
  "futex_newval oldval op arg =
     (if op = 0 then Inr (ucast arg)
      else if op = 1 then Inr (oldval + ucast arg)
      else if op = 2 then Inr (oldval OR ucast arg)
      else if op = 3 then Inr (oldval AND NOT (ucast arg))
      else if op = 4 then Inr (oldval XOR ucast arg)
      else Inl VerifyFailed)"

definition futex_cmp :: "u32 \<Rightarrow> nat \<Rightarrow> u16 \<Rightarrow> bool result" where
  "futex_cmp oldval cmp arg =
     (if cmp = 0 then Inr (oldval = ucast arg)
      else if cmp = 1 then Inr (oldval \<noteq> ucast arg)
      else if cmp = 2 then Inr (oldval < ucast arg)
      else if cmp = 3 then Inr (oldval \<le> ucast arg)
      else if cmp = 4 then Inr (oldval > ucast arg)
      else if cmp = 5 then Inr (oldval \<ge> ucast arg)
      else Inl VerifyFailed)"

definition wakeOp ::
  "host_mprotect \<Rightarrow> nat \<Rightarrow> u64 \<Rightarrow> u32 \<Rightarrow> u64 \<Rightarrow> u32 \<Rightarrow> u32 \<Rightarrow> kernel \<Rightarrow> (u32 \<times> kernel) result" where
  "wakeOp host t uaddr val uaddr2 val2 val3 k =
     rbind (verifyInKernel k) (\<lambda>_.
     rbind (futexOp val3) (\<lambda>op.
     rbind (open_mmu host t k) (\<lambda>(m, k).
     rbind (mmu_read uaddr2 m) (\<lambda>oldval.
     rbind (futex_newval oldval (op_op op) (op_oparg op)) (\<lambda>newval.
     rbind (mmu_write uaddr2 newval m) (\<lambda>m.
     rbind (wake uaddr val (put_mmu t m k)) (\<lambda>(nbWoken, k).
     rbind (futex_cmp oldval (op_cmp op) (op_cmparg op)) (\<lambda>cmp.
     if cmp then rbind (wake uaddr2 val2 k) (\<lambda>(n, k). Inr (nbWoken + n, k))
     else Inr (nbWoken, k)))))))))"

section \<open>Termination\<close>

text \<open>\<^verbatim>\<open>terminate\<close> drops the blockers of the thread, but not its \<^verbatim>\<open>vmReleaseBlockers_\<close>.\<close>

definition drop_blockers :: "nat \<Rightarrow> kernel \<Rightarrow> kernel" where
  "drop_blockers t k =
     k\<lparr>futexBlockers := filter (\<lambda>b. fb_thread b \<noteq> t) (futexBlockers k),
       pollBlockers := filter (\<lambda>b. pb_thread b \<noteq> t) (pollBlockers k),
       selectBlockers := filter (\<lambda>b. sb_thread b \<noteq> t) (selectBlockers k),
       epollWaitBlockers := filter (\<lambda>b. eb_thread b \<noteq> t) (epollWaitBlockers k),
       sleepBlockers := filter (\<lambda>b. slb_thread b \<noteq> t) (sleepBlockers k),
       waitBlockers := filter (\<lambda>b. wb_thread b \<noteq> t) (waitBlockers k),
       readBlockers := filter (\<lambda>b. rb_thread b \<noteq> t) (readBlockers k)\<rparr>"

definition drop_thread :: "nat \<Rightarrow> kernel \<Rightarrow> kernel" where
  "drop_thread t k =
     k\<lparr>runningJobs := filter (\<lambda>j. job_thread j \<noteq> t) (runningJobs k),
       runnableThreads := filter (\<lambda>x. x \<noteq> t) (runnableThreads k),
       blockedThreads := filter (\<lambda>x. x \<noteq> t) (blockedThreads k),
       schedThreads := filter (\<lambda>x. x \<noteq> t) (schedThreads k)\<rparr>"

definition terminate :: "host_mprotect \<Rightarrow> nat \<Rightarrow> int \<Rightarrow> kernel \<Rightarrow> kernel result" where
  "terminate host t status k =
     rbind (verifyInKernel k) (\<lambda>_.
     let k = drop_blockers t (update_thread t (\<lambda>x. (thread_yield x)\<lparr>exitStatus := status\<rparr>) k);
         ptr = clearChildTid (kthreads k t)
     in rbind (if ptr = 0 then Inr k
               else rbind (open_mmu host t k) (\<lambda>(m, k).
                    rbind (mmu_write ptr (0 :: u32) m) (\<lambda>m.
                    rbind (wake ptr 1 (put_mmu t m k)) (\<lambda>(_, k). Inr k)))) (\<lambda>k.
        Inr (drop_thread t k)))"

fun terminate_all :: "host_mprotect \<Rightarrow> nat list \<Rightarrow> int \<Rightarrow> kernel \<Rightarrow> kernel result" where
  "terminate_all host [] status k = Inr k"
| "terminate_all host (t # ts) status k =
     rbind (terminate host t status k) (\<lambda>k. terminate_all host ts status k)"

definition terminateGroup :: "host_mprotect \<Rightarrow> nat \<Rightarrow> int \<Rightarrow> kernel \<Rightarrow> kernel result" where
  "terminateGroup host p status k =
     rbind (verifyInKernel k) (\<lambda>_.
     terminate_all host (filter (\<lambda>t. tprocess (kthreads k t) = p) (schedThreads k)) status k)"

definition sched_kill :: "host_mprotect \<Rightarrow> int \<Rightarrow> int \<Rightarrow> kernel \<Rightarrow> kernel result" where
  "sched_kill host i j k =
     terminate_all host
       (filter (\<lambda>t. tpid (kthreads k t) = i \<and> tid (kthreads k t) = j) (schedThreads k)) 516 k"

section \<open>Unblocking\<close>

text \<open>
  One list of blockers: each is asked whether its thread can go on; those whose thread does are
  removed once all have been asked.
\<close>

fun unblock_all ::
  "('b \<Rightarrow> kernel \<Rightarrow> (bool \<times> kernel) result) \<Rightarrow> ('b \<Rightarrow> nat) \<Rightarrow> 'b list \<Rightarrow> kernel \<Rightarrow>
   ('b list \<times> bool \<times> kernel) result" where
  "unblock_all tryUnblock thr [] k = Inr ([], False, k)"
| "unblock_all tryUnblock thr (b # bs) k =
     rbind (tryUnblock b k) (\<lambda>(can, k).
     rbind (if can then unblock True (thr b) k else Inr k) (\<lambda>k.
     rbind (unblock_all tryUnblock thr bs k) (\<lambda>(kept, did, k).
     Inr (if can then kept else b # kept, can \<or> did, k))))"

definition unblock_list ::
  "('b \<Rightarrow> kernel \<Rightarrow> (bool \<times> kernel) result) \<Rightarrow> ('b \<Rightarrow> nat) \<Rightarrow> (kernel \<Rightarrow> 'b list) \<Rightarrow>
   ('b list \<Rightarrow> kernel \<Rightarrow> kernel) \<Rightarrow> bool \<times> kernel \<Rightarrow> (bool \<times> kernel) result" where
  "unblock_list tryUnblock thr get put r =
     (case r of (did, k) \<Rightarrow>
        rbind (unblock_all tryUnblock thr (get k) k) (\<lambda>(kept, did', k). Inr (did \<or> did', put kept k)))"

definition tryUnblockThreads :: "host_mprotect \<Rightarrow> kernel \<Rightarrow> (bool \<times> kernel) result" where
  "tryUnblockThreads host k =
     rbind (unblock_list sleep_tryUnblock slb_thread sleepBlockers (\<lambda>bs. sleepBlockers_update (\<lambda>_. bs))
              (False, k\<lparr>ktimers := updateAll (currentTime k) (ktimers k)\<rparr>)) (\<lambda>(did, k).
     rbind (unblock_list (poll_tryUnblock host) pb_thread pollBlockers (\<lambda>bs. pollBlockers_update (\<lambda>_. bs))
              (did, k\<lparr>ktimers := updateAll (currentTime k) (ktimers k)\<rparr>)) (\<lambda>r.
     rbind (unblock_list (select_tryUnblock host) sb_thread selectBlockers (\<lambda>bs. selectBlockers_update (\<lambda>_. bs)) r) (\<lambda>r.
     rbind (unblock_list (epoll_tryUnblock host) eb_thread epollWaitBlockers (\<lambda>bs. epollWaitBlockers_update (\<lambda>_. bs)) r) (\<lambda>r.
     rbind (unblock_list (futex_tryUnblock 0) fb_thread futexBlockers (\<lambda>bs. futexBlockers_update (\<lambda>_. bs)) r) (\<lambda>r.
     rbind (unblock_list (wait_tryUnblock host) wb_thread waitBlockers (\<lambda>bs. waitBlockers_update (\<lambda>_. bs)) r) (\<lambda>r.
     rbind (unblock_list (read_tryUnblock host) rb_thread readBlockers (\<lambda>bs. readBlockers_update (\<lambda>_. bs)) r) (\<lambda>r.
     unblock_list vm_tryUnblock (\<lambda>t. t) vmReleaseBlockers (\<lambda>bs. vmReleaseBlockers_update (\<lambda>_. bs)) r)))))))"

section \<open>Picking the next job\<close>

record tagged_vm =
  canRunSyscalls :: bool
  canRunAtomics :: bool

definition isUserspaceThread :: "thread \<Rightarrow> bool" where
  "isUserspaceThread t = (\<not> requestsSyscall t \<and> \<not> requestsAtomic t)"

definition isAtomicThread :: "thread \<Rightarrow> bool" where
  "isAtomicThread t = (\<not> requestsSyscall t \<and> requestsAtomic t)"

definition isUserspaceJob :: "job \<Rightarrow> bool" where
  "isUserspaceJob j = (job_ring j = UserspaceRing \<and> \<not> job_atomic j)"

definition isAtomicJob :: "job \<Rightarrow> bool" where
  "isAtomicJob j = (job_ring j = UserspaceRing \<and> job_atomic j)"

definition isKernelJob :: "job \<Rightarrow> bool" where
  "isKernelJob j = (job_ring j = KernelRing)"

definition count_such :: "('a \<Rightarrow> bool) \<Rightarrow> 'a list \<Rightarrow> nat" where
  "count_such P xs = length (filter P xs)"

definition allThreadsDead :: "kernel \<Rightarrow> bool" where
  "allThreadsDead k = (runningJobs k = [] \<and> runnableThreads k = [] \<and> blockedThreads k = [])"

definition allThreadsBlocked :: "kernel \<Rightarrow> bool" where
  "allThreadsBlocked k = (runningJobs k = [] \<and> runnableThreads k = [])"

definition hasRunnableThread :: "bool \<Rightarrow> bool \<Rightarrow> kernel \<Rightarrow> bool" where
  "hasRunnableThread syscalls atomics k =
     (let nbUserspaceRunning = count_such isUserspaceJob (runningJobs k);
          nbAtomicRunning = count_such isAtomicJob (runningJobs k);
          nbKernelRunning = count_such isKernelJob (runningJobs k);
          nbUserspaceRunnable = count_such (\<lambda>t. isUserspaceThread (kthreads k t)) (runnableThreads k);
          nbAtomicRunnable = count_such (\<lambda>t. isAtomicThread (kthreads k t)) (runnableThreads k);
          nbKernelRunnable = count_such (\<lambda>t. requestsSyscall (kthreads k t)) (runnableThreads k)
      in if syscalls \<and> nbKernelRunnable > 0 then nbUserspaceRunning + nbAtomicRunning = 0
         else if atomics \<and> (nbKernelRunning > 0 \<or> nbKernelRunnable > 0) then False
         else if atomics \<and> nbAtomicRunnable > 0 then nbUserspaceRunning + nbKernelRunning = 0
         else if nbKernelRunning + nbKernelRunnable + nbAtomicRunning + nbAtomicRunnable > 0 then False
         else nbUserspaceRunnable > 0)"

text \<open>The condition under which a worker stops waiting for work.\<close>

definition may_pick :: "tagged_vm \<Rightarrow> kernel \<Rightarrow> bool" where
  "may_pick vm k =
     (hasRunnableThread (canRunSyscalls vm) (canRunAtomics vm) k \<or> allThreadsDead k \<or> allThreadsBlocked k)"

datatype command = Run job | Again | Wait | Exit

definition deadlock :: "kernel \<Rightarrow> bool" where
  "deadlock k =
     (runningJobs k = [] \<and> runnableThreads k = [] \<and> blockedThreads k \<noteq> [] \<and>
      list_all (\<lambda>t. list_ex (\<lambda>b. fb_thread b = t \<and> fb_timeLimit b = None) (futexBlockers k)) (blockedThreads k))"

definition threadToRun :: "tagged_vm \<Rightarrow> kernel \<Rightarrow> nat option" where
  "threadToRun vm k =
     (case (if canRunSyscalls vm then first_such (\<lambda>t. requestsSyscall (kthreads k t)) (runnableThreads k) else None) of
        Some t \<Rightarrow> Some t
      | None \<Rightarrow>
          (case first_such (\<lambda>t. isAtomicThread (kthreads k t)) (runnableThreads k) of
             Some t \<Rightarrow> Some t
           | None \<Rightarrow> first_such (\<lambda>t. isUserspaceThread (kthreads k t)) (runnableThreads k)))"

definition needsToWaitForNewThreads :: "kernel \<Rightarrow> bool" where
  "needsToWaitForNewThreads k =
     (sleepBlockers k \<noteq> [] \<or> list_ex (\<lambda>b. pb_timeLimit b \<noteq> None) (pollBlockers k)
      \<or> list_ex (\<lambda>b. sb_timeLimit b \<noteq> None) (selectBlockers k)
      \<or> list_ex (\<lambda>b. eb_timeLimit b \<noteq> None) (epollWaitBlockers k)
      \<or> list_ex (\<lambda>b. fb_timeLimit b \<noteq> None) (futexBlockers k))"

definition job_of :: "nat \<Rightarrow> kernel \<Rightarrow> job" where
  "job_of t k =
     \<lparr>job_thread = t, job_ring = (if requestsSyscall (kthreads k t) then KernelRing else UserspaceRing),
      job_atomic = requestsAtomic (kthreads k t)\<rparr>"

definition advance_time :: "kernel \<Rightarrow> kernel" where
  "advance_time k =
     k\<lparr>currentTime := max (currentTime k) (time_add (currentTime k) (fromNanoSeconds 1000000))\<rparr>"

definition tryPickNext :: "host_mprotect \<Rightarrow> tagged_vm \<Rightarrow> kernel \<Rightarrow> (command \<times> kernel) result" where
  "tryPickNext host vm k =
     rbind (if may_pick vm k then Inr () else Inl AssertFailed) (\<lambda>_.
     rbind (tryUnblockThreads host k) (\<lambda>(didUnblock, k).
     if didUnblock then Inr (Again, k)
     else rbind (verify (\<not> deadlock k)) (\<lambda>_.
          if allThreadsDead k then Inr (Exit, k)
          else case threadToRun vm k of
                 None \<Rightarrow> Inr (Wait, if needsToWaitForNewThreads k then advance_time k else k)
               | Some t \<Rightarrow>
                   rbind (verify (t \<in> set (runnableThreads k))) (\<lambda>_.
                   Inr (Run (job_of t k),
                        k\<lparr>runnableThreads := remove1 t (runnableThreads k),
                          runningJobs := runningJobs k @ [job_of t k]\<rparr>)))))"

section \<open>Running a job\<close>

definition syncThreadTimeSlice :: "nat \<Rightarrow> kernel \<Rightarrow> kernel" where
  "syncThreadTimeSlice t k =
     k\<lparr>currentTime := max (currentTime k) (thread_precise_time (ttime (kthreads k t)))\<rparr>"

definition stopRunningThread :: "nat \<Rightarrow> kernel \<Rightarrow> kernel" where
  "stopRunningThread t k =
     (if list_ex (\<lambda>j. job_thread j = t) (runningJobs k)
      then k\<lparr>runningJobs := remove_first (\<lambda>j. job_thread j = t) (runningJobs k),
             runnableThreads := runnableThreads k @ [t]\<rparr>
      else k)"

definition DEFAULT_TIME_SLICE :: u64 where "DEFAULT_TIME_SLICE = 1000000"
definition ATOMIC_TIME_SLICE :: u64 where "ATOMIC_TIME_SLICE = 100"

definition start_slice :: "u64 \<Rightarrow> nat \<Rightarrow> kernel \<Rightarrow> kernel result" where
  "start_slice duration t k =
     (let k = k\<lparr>numRunningJobs := numRunningJobs k + 1\<rparr> in
      rbind (setSlice (time_count (currentTime k)) duration (ttime (kthreads k t))) (\<lambda>tm.
      Inr (update_thread t (\<lambda>x. x\<lparr>ttime := tm\<rparr>) k)))"

definition start_userspace :: "nat \<Rightarrow> kernel \<Rightarrow> kernel result" where
  "start_userspace t k = start_slice DEFAULT_TIME_SLICE t k"

text \<open>The guard that runs when \<^verbatim>\<open>runUserspace\<close> or \<^verbatim>\<open>runUserspaceAtomic\<close> is left.\<close>

definition stop_userspace :: "nat \<Rightarrow> kernel \<Rightarrow> kernel" where
  "stop_userspace t k =
     (let k = syncThreadTimeSlice t (stopRunningThread t k)
      in k\<lparr>numRunningJobs := numRunningJobs k - 1\<rparr>)"

definition start_atomic :: "nat \<Rightarrow> kernel \<Rightarrow> kernel result" where
  "start_atomic t k =
     rbind (verify (numRunningJobs k = 0)) (\<lambda>_. start_slice ATOMIC_TIME_SLICE t k)"

definition stop_atomic :: "nat \<Rightarrow> kernel \<Rightarrow> kernel" where
  "stop_atomic t k = stop_userspace t (update_thread t (\<lambda>x. x\<lparr>requestsAtomic := False\<rparr>) k)"

text \<open>\<open>sys t\<close> is \<^verbatim>\<open>Sys::syscall\<close> for the thread \<open>t\<close>.\<close>

definition runKernel :: "(nat \<Rightarrow> kernel \<Rightarrow> kernel result) \<Rightarrow> nat \<Rightarrow> kernel \<Rightarrow> kernel result" where
  "runKernel sys t k =
     rbind (verify (numRunningJobs k = 0)) (\<lambda>_.
     let k = k\<lparr>numRunningJobs := numRunningJobs k + 1, inKernel := True,
               ktimers := updateAll (currentTime k) (ktimers k)\<rparr>
     in rbind (sys t k) (\<lambda>k.
        let k = stopRunningThread t (update_thread t (\<lambda>x. x\<lparr>requestsSyscall := False\<rparr>) k)
        in Inr (k\<lparr>inKernel := False, numRunningJobs := numRunningJobs k - 1\<rparr>)))"

end
