(* ===== verification/X64_Syscalls.thy ===== *)
theory X64_Syscalls
  imports X64_Scheduler
begin

text \<open>
  System calls, \<^verbatim>\<open>emulator/src/kernel/linux/syscalls.cpp\<close>: those that concern memory, open files,
  threads, processes, futexes and time. A handler is named after its C++ function; its arguments come
  first, then the calling thread and the kernel. It returns what goes into RAX. The logging of calls
  is left out.

  The Mmu of a call, \<^verbatim>\<open>mmu_\<close>, is the address space of the calling thread. What depends on the
  directory tree or on the host (opening files, sockets, mapping files) is the parameter
  \<open>other\<close> of the dispatcher.
\<close>

section \<open>Calling conventions\<close>

definition ENOTSUP :: int where "ENOTSUP = 95"
definition EFAULT :: int where "EFAULT = 14"
definition ECHILD :: int where "ECHILD = 10"

text \<open>A register passed as \<^verbatim>\<open>int\<close>.\<close>

definition int_arg :: "u64 \<Rightarrow> int" where
  "int_arg v = sint (ucast v :: u32)"

definition current_process :: "nat \<Rightarrow> kernel \<Rightarrow> nat" where
  "current_process t k = tprocess (kthreads k t)"

definition descriptor_of :: "int \<Rightarrow> nat \<Rightarrow> kernel \<Rightarrow> descriptor" where
  "descriptor_of fd t k = findFileDescriptor fd (fds (process_of t k))"

definition put_fds :: "nat \<Rightarrow> fd_table \<Rightarrow> fs \<Rightarrow> kernel \<Rightarrow> kernel" where
  "put_fds t table s k =
     put_process (current_process t k) ((process_of t k)\<lparr>fds := table\<rparr>) (k\<lparr>kfs := s\<rparr>)"

text \<open>A call that only uses the descriptor table, and one that only uses an open file.\<close>

definition fds_call ::
  "(fd_table \<Rightarrow> fs \<Rightarrow> (int \<times> fd_table \<times> fs) result) \<Rightarrow> nat \<Rightarrow> kernel \<Rightarrow> (u64 \<times> kernel) result" where
  "fds_call f t k =
     rbind (f (fds (process_of t k)) (kfs k)) (\<lambda>(ret, table, s). Inr (word_of_int ret, put_fds t table s k))"

definition fs_call :: "(fs \<Rightarrow> (int \<times> fs) result) \<Rightarrow> nat \<Rightarrow> kernel \<Rightarrow> (u64 \<times> kernel) result" where
  "fs_call f t k = rbind (f (kfs k)) (\<lambda>(ret, s). Inr (word_of_int ret, k\<lparr>kfs := s\<rparr>))"

definition copy_out :: "u64 \<Rightarrow> u8 list \<Rightarrow> nat \<Rightarrow> kernel \<Rightarrow> kernel result" where
  "copy_out ptr bs t k = rbind (copyToMmu ptr bs (mmu_of t k)) (\<lambda>m. Inr (put_mmu t m k))"

definition return_buffer :: "u64 \<Rightarrow> u8 list errno_or \<Rightarrow> nat \<Rightarrow> kernel \<Rightarrow> (u64 \<times> kernel) result" where
  "return_buffer ptr r t k =
     (case r of Errno e \<Rightarrow> Inr (word_of_int e, k)
      | Value bs \<Rightarrow> rbind (copy_out ptr bs t k) (\<lambda>k. Inr (word_of_nat (length bs), k)))"

section \<open>Files\<close>

definition sys_read :: "int \<Rightarrow> u64 \<Rightarrow> u64 \<Rightarrow> nat \<Rightarrow> kernel \<Rightarrow> (u64 \<times> kernel) result" where
  "sys_read fd buf count t k =
     rbind (fs_read (descriptor_of fd t k) (unat count) (kfs k)) (\<lambda>(r, s).
     let k = k\<lparr>kfs := s\<rparr> in
     case r of
       Blocking \<Rightarrow> rbind (sched_blockingRead t fd buf count k) (\<lambda>k. Inr (0, k))
     | Ready v \<Rightarrow> return_buffer buf v t k)"

definition sys_write :: "int \<Rightarrow> u64 \<Rightarrow> u64 \<Rightarrow> nat \<Rightarrow> kernel \<Rightarrow> (u64 \<times> kernel) result" where
  "sys_write fd buf count t k =
     rbind (copyFromMmu buf (unat count) (mmu_of t k)) (\<lambda>bs.
     fs_call (fs_write (descriptor_of fd t k) bs) t k)"

definition sys_close :: "int \<Rightarrow> nat \<Rightarrow> kernel \<Rightarrow> (u64 \<times> kernel) result" where
  "sys_close fd = fds_call (fds_close fd)"

definition whence_of :: "int \<Rightarrow> whence" where
  "whence_of w = (if w = 0 then SeekSet else if w = 1 then SeekCur else if w = 2 then SeekEnd else SeekOther)"

definition sys_lseek :: "int \<Rightarrow> u64 \<Rightarrow> int \<Rightarrow> nat \<Rightarrow> kernel \<Rightarrow> (u64 \<times> kernel) result" where
  "sys_lseek fd offset w t k = fs_call (fs_lseek (descriptor_of fd t k) offset (whence_of w)) t k"

definition sys_pread64 :: "int \<Rightarrow> u64 \<Rightarrow> u64 \<Rightarrow> u64 \<Rightarrow> nat \<Rightarrow> kernel \<Rightarrow> (u64 \<times> kernel) result" where
  "sys_pread64 fd buf count offset t k =
     rbind (fs_pread (descriptor_of fd t k) (unat count) offset (kfs k)) (\<lambda>(r, s).
     return_buffer buf r t (k\<lparr>kfs := s\<rparr>))"

definition sys_pwrite64 :: "int \<Rightarrow> u64 \<Rightarrow> u64 \<Rightarrow> u64 \<Rightarrow> nat \<Rightarrow> kernel \<Rightarrow> (u64 \<times> kernel) result" where
  "sys_pwrite64 fd buf count offset t k =
     rbind (copyFromMmu buf (unat count) (mmu_of t k)) (\<lambda>bs.
     fs_call (fs_pwrite (descriptor_of fd t k) bs offset) t k)"

text \<open>\<^verbatim>\<open>struct iovec\<close> is a base and a length of 64 bits each.\<close>

fun decode_iovecs :: "nat \<Rightarrow> u8 list \<Rightarrow> (u64 \<times> u64) list" where
  "decode_iovecs 0 bs = []"
| "decode_iovecs (Suc n) bs =
     (join_lanes (take 8 bs), join_lanes (take 8 (drop 8 bs))) # decode_iovecs n (drop 16 bs)"

fun read_iovecs :: "(u64 \<times> u64) list \<Rightarrow> mmu \<Rightarrow> u8 list list result" where
  "read_iovecs [] m = Inr []"
| "read_iovecs ((base, len) # iovs) m =
     rbind (copyFromMmu base (unat len) m) (\<lambda>bs. rbind (read_iovecs iovs m) (\<lambda>rest. Inr (bs # rest)))"

fun write_iovecs :: "(u64 \<times> u64) list \<Rightarrow> u8 list list \<Rightarrow> mmu \<Rightarrow> mmu result" where
  "write_iovecs ((base, len) # iovs) (bs # rest) m =
     rbind (copyToMmu base bs m) (\<lambda>m. write_iovecs iovs rest m)"
| "write_iovecs _ _ m = Inr m"

definition iovecs_arg :: "u64 \<Rightarrow> int \<Rightarrow> mmu \<Rightarrow> (u64 \<times> u64) list result" where
  "iovecs_arg iov iovcnt m =
     (let n = (word_of_int iovcnt :: u64) in
      rbind (copyFromMmu iov (unat (n * 16)) m) (\<lambda>bs. Inr (decode_iovecs (unat n) bs)))"

text \<open>A buffer after a read: what was read, then what was there before.\<close>

definition overlay :: "u8 list \<Rightarrow> u8 list \<Rightarrow> u8 list" where
  "overlay old new = new @ drop (length new) old"

definition sys_readv :: "int \<Rightarrow> u64 \<Rightarrow> int \<Rightarrow> nat \<Rightarrow> kernel \<Rightarrow> (u64 \<times> kernel) result" where
  "sys_readv fd iov iovcnt t k =
     rbind (iovecs_arg iov iovcnt (mmu_of t k)) (\<lambda>iovs.
     rbind (read_iovecs iovs (mmu_of t k)) (\<lambda>olds.
     rbind (fs_readv (descriptor_of fd t k) (map length olds) (kfs k)) (\<lambda>(nbytes, news, s).
     let k = k\<lparr>kfs := s\<rparr> in
     if nbytes \<ge> 0
     then rbind (write_iovecs iovs (map (\<lambda>(old, new). overlay old new) (zip olds news)) (mmu_of t k)) (\<lambda>m.
          Inr (word_of_int nbytes, put_mmu t m k))
     else Inr (word_of_int nbytes, k))))"

definition sys_writev :: "int \<Rightarrow> u64 \<Rightarrow> int \<Rightarrow> nat \<Rightarrow> kernel \<Rightarrow> (u64 \<times> kernel) result" where
  "sys_writev fd iov iovcnt t k =
     rbind (iovecs_arg iov iovcnt (mmu_of t k)) (\<lambda>iovs.
     rbind (read_iovecs iovs (mmu_of t k)) (\<lambda>bufs.
     fs_call (fs_writev (descriptor_of fd t k) bufs) t k))"

definition sys_pipe2 :: "u64 \<Rightarrow> u32 \<Rightarrow> nat \<Rightarrow> kernel \<Rightarrow> (u64 \<times> kernel) result" where
  "sys_pipe2 pipefd flags t k =
     rbind (fds_pipe2 flags (fds (process_of t k)) (kfs k)) (\<lambda>(r, w, table, s).
     let k = put_fds t table s k in
     rbind (copy_out pipefd (split_lanes (word_of_int r :: u32) @ split_lanes (word_of_int w :: u32)) t k) (\<lambda>k.
     Inr (0, k)))"

definition sys_pipe :: "u64 \<Rightarrow> nat \<Rightarrow> kernel \<Rightarrow> (u64 \<times> kernel) result" where
  "sys_pipe pipefd = sys_pipe2 pipefd 0"

definition sys_dup :: "int \<Rightarrow> nat \<Rightarrow> kernel \<Rightarrow> (u64 \<times> kernel) result" where
  "sys_dup oldfd = fds_call (fds_dup oldfd)"

definition sys_dup2 :: "int \<Rightarrow> int \<Rightarrow> nat \<Rightarrow> kernel \<Rightarrow> (u64 \<times> kernel) result" where
  "sys_dup2 oldfd newfd = fds_call (fds_dup2 oldfd newfd)"

definition sys_dup3 :: "int \<Rightarrow> int \<Rightarrow> u32 \<Rightarrow> nat \<Rightarrow> kernel \<Rightarrow> (u64 \<times> kernel) result" where
  "sys_dup3 oldfd newfd flags = fds_call (fds_dup3 oldfd newfd flags)"

definition sys_eventfd2 :: "u32 \<Rightarrow> u32 \<Rightarrow> nat \<Rightarrow> kernel \<Rightarrow> (u64 \<times> kernel) result" where
  "sys_eventfd2 initval flags = fds_call (fds_eventfd2 initval flags)"

definition sys_epoll_create1 :: "u32 \<Rightarrow> nat \<Rightarrow> kernel \<Rightarrow> (u64 \<times> kernel) result" where
  "sys_epoll_create1 flags = fds_call (fds_epoll_create1 flags)"

definition sys_memfd_create :: "u64 \<Rightarrow> u32 \<Rightarrow> nat \<Rightarrow> kernel \<Rightarrow> (u64 \<times> kernel) result" where
  "sys_memfd_create name flags t k =
     rbind (readString name (mmu_of t k)) (\<lambda>_. fds_call (fds_memfd_create flags) t k)"

definition toCommand :: "int \<Rightarrow> fcntl_command option" where
  "toCommand cmd =
     (if cmd = 0 then Some F_DUPFD else if cmd = 1030 then Some F_DUPFD_CLOEXEC
      else if cmd = 1 then Some F_GETFD else if cmd = 2 then Some F_SETFD
      else if cmd = 3 then Some F_GETFL else if cmd = 4 then Some F_SETFL
      else if cmd = 6 then Some F_SETLK else if cmd = 1033 then Some F_ADD_SEALS else None)"

definition sys_fcntl :: "int \<Rightarrow> int \<Rightarrow> u32 \<Rightarrow> nat \<Rightarrow> kernel \<Rightarrow> (u64 \<times> kernel) result" where
  "sys_fcntl fd cmd arg t k =
     (case toCommand cmd of None \<Rightarrow> Inr (word_of_int (- ENOTSUP), k)
      | Some c \<Rightarrow> fds_call (fds_fcntl fd c arg) t k)"

definition sys_flock :: "int \<Rightarrow> u32 \<Rightarrow> nat \<Rightarrow> kernel \<Rightarrow> (u64 \<times> kernel) result" where
  "sys_flock fd operation t k = fs_call (fs_flock (descriptor_of fd t k) operation) t k"

definition sys_ftruncate :: "int \<Rightarrow> u64 \<Rightarrow> nat \<Rightarrow> kernel \<Rightarrow> (u64 \<times> kernel) result" where
  "sys_ftruncate fd len t k = fs_call (fs_ftruncate (descriptor_of fd t k) len) t k"

text \<open>The plain mode is the one with none of the seven flags the code refuses.\<close>

definition sys_fallocate :: "int \<Rightarrow> u32 \<Rightarrow> u64 \<Rightarrow> u64 \<Rightarrow> nat \<Rightarrow> kernel \<Rightarrow> (u64 \<times> kernel) result" where
  "sys_fallocate fd mode offset len t k =
     fs_call (fs_fallocate (descriptor_of fd t k) (mode AND 0x7F = 0) offset len) t k"

section \<open>Waiting for files\<close>

definition sys_poll :: "u64 \<Rightarrow> u64 \<Rightarrow> int \<Rightarrow> nat \<Rightarrow> kernel \<Rightarrow> (u64 \<times> kernel) result" where
  "sys_poll pollfds nfds timeout t k =
     rbind (read_pollfds pollfds nfds (fds (process_of t k)) (mmu_of t k)) (\<lambda>pds.
     if timeout = 0
     then rbind (pollImmediate pds (kfs k)) (\<lambda>(pds, ret).
          rbind (copy_out pollfds (concat (map encode_pollfd pds)) t k) (\<lambda>k. Inr (word_of_int ret, k)))
     else rbind (sched_poll t pollfds nfds timeout k) (\<lambda>k. Inr (0, k)))"

definition sys_ppoll :: "u64 \<Rightarrow> int \<Rightarrow> u64 \<Rightarrow> u64 \<Rightarrow> nat \<Rightarrow> kernel \<Rightarrow> (u64 \<times> kernel) result" where
  "sys_ppoll pollfds nfds tmo sigmask t k =
     rbind (verify (sigmask = 0)) (\<lambda>_.
     rbind (read_pollfds pollfds (word_of_int nfds) (fds (process_of t k)) (mmu_of t k)) (\<lambda>_.
     let (n, ts) = getOrTryCreate 0 (ktimers k); k = k\<lparr>ktimers := ts\<rparr> in
     rbind (readRelativeTimespec tmo (mmu_of t k)) (\<lambda>d.
     let ms = (case d of None \<Rightarrow> -1
               | Some d \<Rightarrow> int_arg (dseconds d * 1000 + dnanoseconds d div 1000000))
     in rbind (sched_poll t pollfds (word_of_int nfds) ms k) (\<lambda>k. Inr (0, k)))))"

text \<open>Reserving room for a negative number of descriptors throws.\<close>

definition sys_select ::
  "host_mprotect \<Rightarrow> int \<Rightarrow> u64 \<Rightarrow> u64 \<Rightarrow> u64 \<Rightarrow> u64 \<Rightarrow> nat \<Rightarrow> kernel \<Rightarrow> (u64 \<times> kernel) result" where
  "sys_select host nfds r w e timeout t k =
     (if nfds < 0 then Inl IndexOutOfRange
      else rbind (read_select_data nfds r w e (fds (process_of t k)) (mmu_of t k)) (\<lambda>sd.
           let (n, ts) = getOrTryCreate 0 (ktimers k); k = k\<lparr>ktimers := ts\<rparr> in
           rbind (readTimeval timeout (mmu_of t k)) (\<lambda>d.
           if d = Some (PreciseTime 0 0)
           then rbind (selectImmediate sd (kfs k)) (\<lambda>(ret, sd).
                if ret < 0 then Inr (word_of_int ret, k)
                else rbind (write_select_data r w e sd (mmu_of t k)) (\<lambda>m.
                     Inr (word_of_int ret, put_mmu t m k)))
           else rbind (sched_select host t nfds r w e timeout k) (\<lambda>k. Inr (0, k)))))"

definition sys_epoll_wait :: "int \<Rightarrow> u64 \<Rightarrow> int \<Rightarrow> int \<Rightarrow> nat \<Rightarrow> kernel \<Rightarrow> (u64 \<times> kernel) result" where
  "sys_epoll_wait epfd ptr maxevents timeout t k =
     (if ptr = 0 then Inr (word_of_int (- EFAULT), k)
      else if maxevents \<le> 0 then Inr (word_of_int (- EINVAL), k)
      else if timeout = 0
      then rbind (epollWaitImmediate (descriptor_of epfd t k) (kfs k)) (\<lambda>(ret, evs).
           if ret < 0 then Inr (word_of_int ret, k)
           else let evs = take (nat maxevents) evs in
                rbind (copy_out ptr (concat (map encode_epoll_event evs)) t k) (\<lambda>k.
                Inr (word_of_nat (length evs), k)))
      else rbind (sched_epoll_wait t epfd ptr (word_of_int maxevents) timeout k) (\<lambda>k. Inr (0, k)))"

definition sys_epoll_ctl :: "int \<Rightarrow> int \<Rightarrow> int \<Rightarrow> u64 \<Rightarrow> nat \<Rightarrow> kernel \<Rightarrow> (u64 \<times> kernel) result" where
  "sys_epoll_ctl epfd op fd event t k =
     rbind (verify (event \<noteq> 0)) (\<lambda>_.
     rbind (copyFromMmu event 12 (mmu_of t k)) (\<lambda>bs.
     fs_call (epoll_ctl (descriptor_of epfd t k) op (descriptor_of fd t k)
                (join_lanes (take 4 bs)) (join_lanes (drop 4 bs))) t k))"

section \<open>Memory\<close>

definition sys_mprotect :: "host_mprotect \<Rightarrow> u64 \<Rightarrow> u64 \<Rightarrow> u32 \<Rightarrow> nat \<Rightarrow> kernel \<Rightarrow> (u64 \<times> kernel) result" where
  "sys_mprotect host addr len prot t k =
     rbind (mprotect host addr len prot (mmu_of t k)) (\<lambda>(ret, m). Inr (word_of_int ret, put_mmu t m k))"

definition sys_munmap :: "host_mprotect \<Rightarrow> u64 \<Rightarrow> u64 \<Rightarrow> nat \<Rightarrow> kernel \<Rightarrow> (u64 \<times> kernel) result" where
  "sys_munmap host addr len t k =
     rbind (munmap host addr len (mmu_of t k)) (\<lambda>(ret, m). Inr (word_of_int ret, put_mmu t m k))"

definition sys_brk :: "host_mprotect \<Rightarrow> u64 \<Rightarrow> nat \<Rightarrow> kernel \<Rightarrow> (u64 \<times> kernel) result" where
  "sys_brk host addr t k =
     rbind (brk host addr (mmu_of t k)) (\<lambda>(ret, m). Inr (ret, put_mmu t m k))"

definition sys_mincore :: "u64 \<Rightarrow> u64 \<Rightarrow> u64 \<Rightarrow> nat \<Rightarrow> kernel \<Rightarrow> (u64 \<times> kernel) result" where
  "sys_mincore addr len vec t k =
     rbind (mincore addr len (mmu_of t k)) (\<lambda>res.
     rbind (copy_out vec (map (\<lambda>b. if b then 1 else 0) res) t k) (\<lambda>k. Inr (0, k)))"

definition sys_madvise :: "nat \<Rightarrow> kernel \<Rightarrow> (u64 \<times> kernel) result" where
  "sys_madvise t k = Inr (0, k)"

definition sys_getrandom :: "u64 \<Rightarrow> u64 \<Rightarrow> nat \<Rightarrow> kernel \<Rightarrow> (u64 \<times> kernel) result" where
  "sys_getrandom buf len t k =
     rbind (copy_out buf (map word_of_nat [0..<unat len]) t k) (\<lambda>k. Inr (len, k))"

section \<open>Time\<close>

definition sys_time :: "u64 \<Rightarrow> nat \<Rightarrow> kernel \<Rightarrow> (u64 \<times> kernel) result" where
  "sys_time tloc t k =
     (let v = seconds (currentTime k) in
      rbind (if tloc \<noteq> 0 then copy_out tloc (split_lanes v) t k else Inr k) (\<lambda>k. Inr (v, k)))"

text \<open>The time zone is written over the time.\<close>

definition sys_gettimeofday :: "u64 \<Rightarrow> u64 \<Rightarrow> nat \<Rightarrow> kernel \<Rightarrow> (u64 \<times> kernel) result" where
  "sys_gettimeofday tv tz t k =
     rbind (if tv \<noteq> 0
            then rbind (gettimeofday_bytes (currentTime k)) (\<lambda>bs. copy_out tv bs t k) else Inr k) (\<lambda>k.
     rbind (if tz \<noteq> 0 then copy_out tv (replicate 8 0) t k else Inr k) (\<lambda>k. Inr (0, k)))"

definition sys_clock_gettime :: "int \<Rightarrow> u64 \<Rightarrow> nat \<Rightarrow> kernel \<Rightarrow> (u64 \<times> kernel) result" where
  "sys_clock_gettime clockid tp t k =
     (let (n, ts) = getOrTryCreate clockid (ktimers k);
          k = k\<lparr>ktimers := timer_update n (currentTime k) ts\<rparr>
      in rbind (clock_gettime_bytes (currentTime k)) (\<lambda>bs.
         rbind (copy_out tp bs t k) (\<lambda>k. Inr (0, k))))"

definition sys_clock_getres :: "u64 \<Rightarrow> nat \<Rightarrow> kernel \<Rightarrow> (u64 \<times> kernel) result" where
  "sys_clock_getres res t k =
     rbind (copy_out res (split_lanes (0 :: u64) @ split_lanes (1 :: u64)) t k) (\<lambda>k. Inr (0, k))"

definition sys_clock_nanosleep :: "int \<Rightarrow> int \<Rightarrow> u64 \<Rightarrow> nat \<Rightarrow> kernel \<Rightarrow> (u64 \<times> kernel) result" where
  "sys_clock_nanosleep clockid flags request t k =
     rbind (verify (flags = 0)) (\<lambda>_.
     let (n, ts) = getOrTryCreate clockid (ktimers k); k = k\<lparr>ktimers := ts\<rparr> in
     rbind (readRelativeTimespec request (mmu_of t k)) (\<lambda>d.
     case d of None \<Rightarrow> Inr (word_of_int (- EFAULT), k)
     | Some d \<Rightarrow>
         let k = k\<lparr>ktimers := timer_update n (currentTime k) (ktimers k)\<rparr> in
         rbind (sched_sleep t n (time_add (timer_now (ktimers k ! n)) d) k) (\<lambda>k. Inr (0, k))))"

section \<open>Futexes\<close>

definition sys_futex_wait ::
  "host_mprotect \<Rightarrow> bool \<Rightarrow> u64 \<Rightarrow> u32 \<Rightarrow> u64 \<Rightarrow> nat \<Rightarrow> kernel \<Rightarrow> (u64 \<times> kernel) result" where
  "sys_futex_wait host bitset uaddr val timeout t k =
     rbind (mmu_read uaddr (mmu_of t k)) (\<lambda>loaded.
     if loaded \<noteq> val then Inr (word_of_int (- EAGAIN), k)
     else let (n, ts) = getOrTryCreate 0 (ktimers k);
              k = k\<lparr>ktimers := timer_update n (currentTime k) ts\<rparr>
          in rbind (if bitset then sched_waitBitset host t uaddr val timeout k
                    else sched_wait host t uaddr val timeout k) (\<lambda>k. Inr (0, k)))"

definition ENOSYS :: int where "ENOSYS = 38"

definition sys_futex ::
  "host_mprotect \<Rightarrow> u64 \<Rightarrow> u32 \<Rightarrow> u32 \<Rightarrow> u64 \<Rightarrow> u64 \<Rightarrow> u32 \<Rightarrow> nat \<Rightarrow> kernel \<Rightarrow> (u64 \<times> kernel) result" where
  "sys_futex host uaddr futex_op val timeout uaddr2 val3 t k =
     (let op = futex_op AND 0x7f in
      if op = 0 then sys_futex_wait host False uaddr val timeout t k
      else if op = 1 then rbind (wake uaddr val k) (\<lambda>(n, k). Inr (ucast n, k))
      else if op = 5 then rbind (wakeOp host t uaddr val uaddr2 (ucast timeout) val3 k) (\<lambda>(n, k). Inr (ucast n, k))
      else if op = 7 then Inr (word_of_int (- ENOSYS), k)
      else if op = 9 \<and> val3 = -1 then sys_futex_wait host True uaddr val timeout t k
      else Inl VerifyFailed)"

section \<open>Threads and processes\<close>

definition sys_sched_yield :: "nat \<Rightarrow> kernel \<Rightarrow> (u64 \<times> kernel) result" where
  "sys_sched_yield t k = Inr (0, update_thread t thread_yield k)"

definition sys_getpid :: "nat \<Rightarrow> kernel \<Rightarrow> (u64 \<times> kernel) result" where
  "sys_getpid t k = Inr (word_of_int (tpid (kthreads k t)), k)"

definition sys_gettid :: "nat \<Rightarrow> kernel \<Rightarrow> (u64 \<times> kernel) result" where
  "sys_gettid t k = Inr (word_of_int (tid (kthreads k t)), k)"

definition sys_arch_prctl :: "int \<Rightarrow> u64 \<Rightarrow> nat \<Rightarrow> kernel \<Rightarrow> (u64 \<times> kernel) result" where
  "sys_arch_prctl code addr t k =
     (if code \<noteq> 0x1002 then Inr (word_of_int (- EINVAL), k)
      else Inr (0, update_thread t (\<lambda>x. x\<lparr>fsBase := addr\<rparr>) k))"

definition sys_set_tid_address :: "u64 \<Rightarrow> nat \<Rightarrow> kernel \<Rightarrow> (u64 \<times> kernel) result" where
  "sys_set_tid_address ptr t k =
     Inr (word_of_int (tid (kthreads k t)), update_thread t (\<lambda>x. x\<lparr>clearChildTid := ptr\<rparr>) k)"

definition sys_exit :: "host_mprotect \<Rightarrow> int \<Rightarrow> nat \<Rightarrow> kernel \<Rightarrow> (u64 \<times> kernel) result" where
  "sys_exit host status t k =
     rbind (terminate host t status k) (\<lambda>k. Inr (word_of_int status, k))"

definition sys_exit_group :: "host_mprotect \<Rightarrow> int \<Rightarrow> nat \<Rightarrow> kernel \<Rightarrow> (u64 \<times> kernel) result" where
  "sys_exit_group host status t k =
     rbind (terminateGroup host (current_process t k) status k) (\<lambda>k.
     rbind (notifyExit (current_process t k) status None k) (\<lambda>k. Inr (word_of_int status, k)))"

definition sys_tgkill :: "host_mprotect \<Rightarrow> int \<Rightarrow> int \<Rightarrow> nat \<Rightarrow> kernel \<Rightarrow> (u64 \<times> kernel) result" where
  "sys_tgkill host tgid i t k = rbind (sched_kill host tgid i k) (\<lambda>k. Inr (0, k))"

text \<open>The options are WNOHANG = 1 and WUNTRACED = 2.\<close>

definition sys_wait4 :: "int \<Rightarrow> u64 \<Rightarrow> u32 \<Rightarrow> u64 \<Rightarrow> nat \<Rightarrow> kernel \<Rightarrow> (u64 \<times> kernel) result" where
  "sys_wait4 i wstatus options rusage t k =
     rbind (verify (rusage = 0)) (\<lambda>_.
     let p = current_process t k; wait_for_child = (\<lambda>k. rbind (sched_wait4 t i wstatus k) (\<lambda>k. Inr (0, k))) in
     if children (kprocesses k p) = [] then Inr (word_of_int (- ECHILD), k)
     else if flag_test options 2
     then rbind (tryRetrieveExitedChild p k) (\<lambda>(r, k).
          case r of Some ec \<Rightarrow> Inr (word_of_int (ec_pid ec), k) | None \<Rightarrow> wait_for_child k)
     else if flag_test options 1 \<and> exitedChildren (kprocesses k p) = [] then Inr (0, k)
     else wait_for_child k)"

section \<open>Cloning\<close>

definition CLONE_VM :: u64 where "CLONE_VM = 0x100"
definition CLONE_FS :: u64 where "CLONE_FS = 0x200"
definition CLONE_FILES :: u64 where "CLONE_FILES = 0x400"
definition CLONE_SIGHAND :: u64 where "CLONE_SIGHAND = 0x800"
definition CLONE_PIDFD :: u64 where "CLONE_PIDFD = 0x1000"
definition CLONE_VFORK :: u64 where "CLONE_VFORK = 0x4000"
definition CLONE_PARENT :: u64 where "CLONE_PARENT = 0x8000"
definition CLONE_THREAD :: u64 where "CLONE_THREAD = 0x10000"
definition CLONE_SETTLS :: u64 where "CLONE_SETTLS = 0x80000"
definition CLONE_PARENT_SETTID :: u64 where "CLONE_PARENT_SETTID = 0x100000"
definition CLONE_CHILD_CLEARTID :: u64 where "CLONE_CHILD_CLEARTID = 0x200000"
definition CLONE_CHILD_SETTID :: u64 where "CLONE_CHILD_SETTID = 0x1000000"
definition CLONE_IO :: u64 where "CLONE_IO = 0x80000000"

definition has_flag :: "u64 \<Rightarrow> u64 \<Rightarrow> bool" where
  "has_flag flags flag = (flags AND flag \<noteq> 0)"

text \<open>\<^verbatim>\<open>Host::fromCloneFlags\<close> never sets \<^verbatim>\<open>clearSignalHandlers\<close>.\<close>

definition checkCloneFlags :: "u64 \<Rightarrow> bool" where
  "checkCloneFlags f =
     (has_flag f CLONE_CHILD_CLEARTID \<and> \<not> has_flag f CLONE_CHILD_SETTID \<and> has_flag f CLONE_SIGHAND
      \<and> has_flag f CLONE_FILES \<and> has_flag f CLONE_FS \<and> \<not> has_flag f CLONE_IO \<and> \<not> has_flag f CLONE_PARENT
      \<and> has_flag f CLONE_PARENT_SETTID \<and> \<not> has_flag f CLONE_PIDFD \<and> has_flag f CLONE_SETTLS
      \<and> has_flag f CLONE_THREAD \<and> has_flag f CLONE_VM \<and> \<not> has_flag f CLONE_VFORK)"

definition checkCloneFlagsFork :: "u64 \<Rightarrow> bool" where
  "checkCloneFlagsFork f =
     (\<not> has_flag f CLONE_SIGHAND \<and> \<not> has_flag f CLONE_FILES \<and> \<not> has_flag f CLONE_FS \<and> \<not> has_flag f CLONE_IO
      \<and> \<not> has_flag f CLONE_PARENT \<and> \<not> has_flag f CLONE_PARENT_SETTID \<and> \<not> has_flag f CLONE_PIDFD
      \<and> \<not> has_flag f CLONE_SETTLS \<and> \<not> has_flag f CLONE_THREAD)"

text \<open>
  \<^verbatim>\<open>Process::clone\<close>, without the code segments, symbols and just-in-time compiler. Creating an
  address space asks the host for memory: \<open>new_space\<close> is what it returns for the \<open>n\<close>-th one.
\<close>

definition process_clone ::
  "host_mprotect \<Rightarrow> (nat \<Rightarrow> mmu) \<Rightarrow> nat \<Rightarrow> bool \<Rightarrow> kernel \<Rightarrow> (nat \<times> kernel) result" where
  "process_clone host new_space p share k =
     (let (sp, k) = (if share then (space (kprocesses k p), k)
                     else (nextSpace k, k\<lparr>kspaces := (kspaces k)(nextSpace k := new_space (nextSpace k)),
                                          nextSpace := Suc (nextSpace k)\<rparr>)) in
      rbind (allocatedPid k) (\<lambda>(i, k).
      rbind (fds_clone (fds (kprocesses k p)) (kfs k)) (\<lambda>(table, s).
      let q = nextProcess k; source = kspaces k (space (kprocesses k p)) in
      rbind (if share then Inr (kspaces k sp) else clone host source (kspaces k sp)) (\<lambda>m.
      let child = \<lparr>pid = i, space = sp, proc_threads = [], fds = table, parent = Some p,
                   children = [], exitedChildren = []\<rparr>;
          k = k\<lparr>kfs := s, kspaces := (kspaces k)(sp := m), nextProcess := Suc q\<rparr>
      in Inr (q, notifyChildCreated p q (put_process q child k))))))"

text \<open>The thread a clone creates; for a new process the flags are looked at once it exists.\<close>

definition clone_task ::
  "host_mprotect \<Rightarrow> (nat \<Rightarrow> mmu) \<Rightarrow> u64 \<Rightarrow> nat \<Rightarrow> kernel \<Rightarrow> (nat option \<times> kernel) result" where
  "clone_task host new_space flags t k =
     (if has_flag flags CLONE_THREAD
      then rbind (verify (has_flag flags CLONE_SIGHAND)) (\<lambda>_.
           rbind (verify (has_flag flags CLONE_VM)) (\<lambda>_.
           rbind (verify (checkCloneFlags flags)) (\<lambda>_.
           rbind (process_addThread (current_process t k) k) (\<lambda>(c, k). Inr (Some c, k)))))
      else rbind (verify (\<not> has_flag flags CLONE_FILES)) (\<lambda>_.
           rbind (process_clone host new_space (current_process t k) (has_flag flags CLONE_VM) k) (\<lambda>(q, k).
           if \<not> checkCloneFlagsFork flags then Inr (None, k)
           else rbind (process_addThread q k) (\<lambda>(c, k).
                rbind (if has_flag flags CLONE_VFORK then suspendUntilVmReleased t k else Inr k) (\<lambda>k.
                Inr (Some c, k))))))"

fun decimal_digits :: "nat \<Rightarrow> string" where
  "decimal_digits n = (if n < 10 then [char_of (48 + n)] else decimal_digits (n div 10) @ [char_of (48 + n mod 10)])"

declare decimal_digits.simps [simp del]

definition stack_name :: "int \<Rightarrow> string" where
  "stack_name i =
     ''Stack of thread '' @ (if i < 0 then ''-'' @ decimal_digits (nat (- i)) else decimal_digits (nat i))"

definition name_region :: "u64 \<Rightarrow> string \<Rightarrow> nat \<Rightarrow> kernel \<Rightarrow> kernel result" where
  "name_region addr name t k = rbind (setRegionName addr name (mmu_of t k)) (\<lambda>m. Inr (put_mmu t m k))"

definition write_tid :: "u64 \<Rightarrow> nat \<Rightarrow> nat \<Rightarrow> kernel \<Rightarrow> kernel result" where
  "write_tid ptr c t k =
     rbind (mmu_write ptr (word_of_int (tid (kthreads k c)) :: u32) (mmu_of t k)) (\<lambda>m. Inr (put_mmu t m k))"

definition init_child :: "nat \<Rightarrow> u64 \<Rightarrow> u64 option \<Rightarrow> u64 \<Rightarrow> u64 \<Rightarrow> nat \<Rightarrow> kernel \<Rightarrow> kernel result" where
  "init_child c flags stack child_tid tls t k =
     rbind (set_rax c 0 (put_thread c (reportInfoFrom (kthreads k t) (kthreads k c)) k)) (\<lambda>k.
     rbind (case stack of None \<Rightarrow> Inr (saved_regs (kthreads k c))
            | Some sp \<Rightarrow> set64 (saved_regs (kthreads k c)) RSP sp) (\<lambda>r.
     Inr (update_thread c (\<lambda>x. x\<lparr>saved_regs := r,
            fsBase := (if has_flag flags CLONE_SETTLS then tls else fsBase x),
            clearChildTid := (if has_flag flags CLONE_CHILD_CLEARTID then child_tid else clearChildTid x)\<rparr>) k)))"

definition sys_clone ::
  "host_mprotect \<Rightarrow> (nat \<Rightarrow> mmu) \<Rightarrow> u64 \<Rightarrow> u64 \<Rightarrow> u64 \<Rightarrow> u64 \<Rightarrow> u64 \<Rightarrow> nat \<Rightarrow> kernel \<Rightarrow> (u64 \<times> kernel) result" where
  "sys_clone host new_space flags stack parent_tid child_tid tls t k =
     rbind (clone_task host new_space flags t k) (\<lambda>(c, k).
     case c of None \<Rightarrow> Inr (word_of_int (- ENOTSUP), k)
     | Some c \<Rightarrow>
         rbind (open_mmu host c k) (\<lambda>(_, k).
         rbind (if stack \<noteq> 0 then Inr () else verify (\<not> has_flag flags CLONE_VM)) (\<lambda>_.
         rbind (init_child c flags (if stack \<noteq> 0 then Some stack else None) child_tid tls t k) (\<lambda>k.
         rbind (name_region stack (stack_name (tid (kthreads k c))) c k) (\<lambda>k.
         rbind (if child_tid \<noteq> 0 \<and> has_flag flags CLONE_CHILD_SETTID then write_tid child_tid c c k else Inr k) (\<lambda>k.
         rbind (if parent_tid \<noteq> 0 \<and> has_flag flags CLONE_PARENT_SETTID then write_tid parent_tid c t k else Inr k) (\<lambda>k.
         Inr (word_of_int (tid (kthreads k c)), sched_addThread c k))))))))"

definition sys_fork :: "host_mprotect \<Rightarrow> (nat \<Rightarrow> mmu) \<Rightarrow> nat \<Rightarrow> kernel \<Rightarrow> (u64 \<times> kernel) result" where
  "sys_fork host new_space = sys_clone host new_space (CLONE_CHILD_CLEARTID OR CLONE_CHILD_SETTID) 0 0 0 0"

definition sys_clone3 ::
  "host_mprotect \<Rightarrow> (nat \<Rightarrow> mmu) \<Rightarrow> u64 \<Rightarrow> u64 \<Rightarrow> nat \<Rightarrow> kernel \<Rightarrow> (u64 \<times> kernel) result" where
  "sys_clone3 host new_space uargs sz t k =
     (let n = unat (sz div 8) in
      rbind (copyFromMmu uargs (8 * n) (mmu_of t k)) (\<lambda>bs.
      rbind (verify (n \<ge> 8)) (\<lambda>_.
      let arg = (\<lambda>i. join_lanes (take 8 (drop (8 * i) bs)) :: u64);
          flags = arg 0; child_tid = arg 2; parent_tid = arg 3; stackAddress = arg 5 + arg 6; tls = arg 7 in
      rbind (clone_task host new_space flags t k) (\<lambda>(c, k).
      case c of None \<Rightarrow> Inr (word_of_int (- ENOTSUP), k)
      | Some c \<Rightarrow>
          rbind (open_mmu host c k) (\<lambda>(_, k).
          rbind (init_child c flags (Some stackAddress) child_tid tls t k) (\<lambda>k.
          rbind (name_region (stackAddress - 8) (stack_name (tid (kthreads k c))) t k) (\<lambda>k.
          rbind (if child_tid \<noteq> 0 \<and> has_flag flags CLONE_CHILD_SETTID then write_tid child_tid c c k else Inr k) (\<lambda>k.
          rbind (if child_tid \<noteq> 0 then write_tid child_tid c t k else Inr k) (\<lambda>k.
          Inr (word_of_int (tid (kthreads k c)), sched_addThread c k)))))))))) "

section \<open>Executing a program\<close>

text \<open>
  Looking up the program, reading its arguments from the memory of the caller and the ELF files
  from the host, is the parameter \<open>load\<close>: it returns an error number, or what fills an empty address
  space and says with which registers the program starts.
\<close>

type_synonym program_loader = "u64 \<Rightarrow> u64 \<Rightarrow> u64 \<Rightarrow> mmu \<Rightarrow> (mmu \<Rightarrow> (registers \<times> mmu) result) errno_or result"

text \<open>The open files are kept, also those that are to be closed on exec.\<close>

definition prepareExec :: "host_mprotect \<Rightarrow> (nat \<Rightarrow> mmu) \<Rightarrow> nat \<Rightarrow> kernel \<Rightarrow> kernel result" where
  "prepareExec host new_space p k =
     (let proc = kprocesses k p; sp = nextSpace k in
      rbind (ensureNullPage host (kspaces k (space proc))) (\<lambda>old.
      rbind (ensureNullPage host (new_space sp)) (\<lambda>m.
      rbind (clearAllRegions host m) (\<lambda>m.
      rbind (ensureNullPage host m) (\<lambda>m.
      Inr (put_process p (proc\<lparr>space := sp, proc_threads := [], children := [], exitedChildren := []\<rparr>)
            (k\<lparr>kspaces := (kspaces k)(space proc := old, sp := m), nextSpace := Suc sp\<rparr>)))))))"

definition exec_image ::
  "host_mprotect \<Rightarrow> (nat \<Rightarrow> mmu) \<Rightarrow> (mmu \<Rightarrow> (registers \<times> mmu) result) \<Rightarrow> nat \<Rightarrow> kernel \<Rightarrow> kernel result" where
  "exec_image host new_space build p k =
     rbind (terminateGroup host p 0 k) (\<lambda>k.
     rbind (prepareExec host new_space p k) (\<lambda>k.
     rbind (ensureNullPage host (kspaces k (space (kprocesses k p)))) (\<lambda>m.
     rbind (build m) (\<lambda>(r, m).
     rbind (process_addThread p (k\<lparr>kspaces := (kspaces k)(space (kprocesses k p) := m)\<rparr>)) (\<lambda>(c, k).
     Inr (sched_addThread c (update_thread c (\<lambda>x. x\<lparr>saved_regs := r\<rparr>) k)))))))"

definition sys_execve ::
  "host_mprotect \<Rightarrow> (nat \<Rightarrow> mmu) \<Rightarrow> program_loader \<Rightarrow> u64 \<Rightarrow> u64 \<Rightarrow> u64 \<Rightarrow> nat \<Rightarrow> kernel \<Rightarrow> (u64 \<times> kernel) result" where
  "sys_execve host new_space load pathname argv envp t k =
     rbind (verify (pathname \<noteq> 0)) (\<lambda>_.
     rbind (verify (argv \<noteq> 0)) (\<lambda>_.
     rbind (load pathname argv envp (mmu_of t k)) (\<lambda>image.
     case image of
       Errno e \<Rightarrow> Inr (word_of_int e, k)
     | Value build \<Rightarrow> rbind (exec_image host new_space build (current_process t k) k) (\<lambda>k. Inr (0, k)))))"

section \<open>The dispatcher\<close>

text \<open>The registers RDI, RSI, RDX, R10, R8 and R9.\<close>

definition syscall_args :: "registers \<Rightarrow> u64 list" where
  "syscall_args r = [get64 r RDI, get64 r RSI, get64 r RDX, get64 r R10, get64 r R8, get64 r R9]"

type_synonym syscall = "nat \<Rightarrow> kernel \<Rightarrow> (u64 \<times> kernel) result"

definition syscall_table ::
  "host_mprotect \<Rightarrow> (nat \<Rightarrow> mmu) \<Rightarrow> program_loader \<Rightarrow> u64 list \<Rightarrow> (nat \<times> syscall) list" where
  "syscall_table host new_space load a =
     (let i = (\<lambda>n. int_arg (a ! n)); w = (\<lambda>n. ucast (a ! n) :: u32) in
      [(0x0, sys_read (i 0) (a ! 1) (a ! 2)), (0x1, sys_write (i 0) (a ! 1) (a ! 2)), (0x3, sys_close (i 0)),
       (0x7, sys_poll (a ! 0) (a ! 1) (i 2)), (0x8, sys_lseek (i 0) (a ! 1) (i 2)),
       (0xa, sys_mprotect host (a ! 0) (a ! 1) (w 2)), (0xb, sys_munmap host (a ! 0) (a ! 1)),
       (0xc, sys_brk host (a ! 0)), (0x11, sys_pread64 (i 0) (a ! 1) (a ! 2) (a ! 3)),
       (0x12, sys_pwrite64 (i 0) (a ! 1) (a ! 2) (a ! 3)), (0x13, sys_readv (i 0) (a ! 1) (i 2)),
       (0x14, sys_writev (i 0) (a ! 1) (i 2)), (0x16, sys_pipe (a ! 0)),
       (0x17, sys_select host (i 0) (a ! 1) (a ! 2) (a ! 3) (a ! 4)), (0x18, sys_sched_yield),
       (0x1b, sys_mincore (a ! 0) (a ! 1) (a ! 2)), (0x1c, sys_madvise), (0x20, sys_dup (i 0)),
       (0x21, sys_dup2 (i 0) (i 1)), (0x27, sys_getpid),
       (0x38, sys_clone host new_space (a ! 0) (a ! 1) (a ! 2) (a ! 3) (a ! 4)),
       (0x39, sys_fork host new_space), (0x3a, sys_fork host new_space),
       (0x3b, sys_execve host new_space load (a ! 0) (a ! 1) (a ! 2)), (0x3c, sys_exit host (i 0)),
       (0x3d, sys_wait4 (i 0) (a ! 1) (w 2) (a ! 3)), (0x48, sys_fcntl (i 0) (i 1) (w 2)),
       (0x49, sys_flock (i 0) (w 1)), (0x4d, sys_ftruncate (i 0) (a ! 1)),
       (0x60, sys_gettimeofday (a ! 0) (a ! 1)), (0x9e, sys_arch_prctl (i 0) (a ! 1)), (0xba, sys_gettid),
       (0xc9, sys_time (a ! 0)), (0xca, sys_futex host (a ! 0) (w 1) (w 2) (a ! 3) (a ! 4) (w 5)),
       (0xda, sys_set_tid_address (a ! 0)), (0xe4, sys_clock_gettime (i 0) (a ! 1)),
       (0xe5, sys_clock_getres (a ! 1)), (0xe6, sys_clock_nanosleep (i 0) (i 1) (a ! 2)),
       (0xe7, sys_exit_group host (i 0)), (0xe8, sys_epoll_wait (i 0) (a ! 1) (i 2) (i 3)),
       (0xe9, sys_epoll_ctl (i 0) (i 1) (i 2) (a ! 3)), (0xea, sys_tgkill host (i 0) (i 1)),
       (0x10f, sys_ppoll (a ! 0) (i 1) (a ! 2) (a ! 3)), (0x11d, sys_fallocate (i 0) (w 1) (a ! 2) (a ! 3)),
       (0x122, sys_eventfd2 (w 0) (w 1)), (0x123, sys_epoll_create1 (w 0)),
       (0x124, sys_dup3 (i 0) (i 1) (w 2)), (0x125, sys_pipe2 (a ! 0) (w 1)),
       (0x13e, sys_getrandom (a ! 0) (a ! 1)), (0x13f, sys_memfd_create (a ! 0) (w 1)),
       (0x1b3, sys_clone3 host new_space (a ! 0) (a ! 1))])"

definition sys_syscall ::
  "host_mprotect \<Rightarrow> (nat \<Rightarrow> mmu) \<Rightarrow> program_loader \<Rightarrow> (nat \<Rightarrow> u64 list \<Rightarrow> syscall) \<Rightarrow> nat \<Rightarrow> kernel \<Rightarrow> kernel result" where
  "sys_syscall host new_space load other t k =
     rbind (open_mmu host t k) (\<lambda>(_, k).
     let r = saved_regs (kthreads k t); n = unat (get64 r RAX); a = syscall_args r in
     rbind ((case map_of (syscall_table host new_space load a) n of Some f \<Rightarrow> f | None \<Rightarrow> other n a) t k) (\<lambda>(ret, k).
     set_rax t ret k))"

end
