(* ===== verification/X64_SchedInv.thy ===== *)
theory X64_SchedInv
  imports X64_Syscalls "HOL-Library.Multiset"
begin

text \<open>
  The invariant of the scheduler's queues and clocks, and that everything the kernel does while it
  runs a job keeps it. A live thread is in exactly one of the three queues; the blocked ones are
  exactly those that a blocker waits for; a blocker of \<^verbatim>\<open>vmReleaseBlockers_\<close> may outlive its thread.
\<close>

section \<open>What an operation leaves alone\<close>

definition thread_view :: "kernel \<Rightarrow> nat \<Rightarrow> u64 \<times> u64 \<times> bool \<times> bool" where
  "thread_view k t = (let x = kthreads k t in
     (waitTime (ttime x), nbInstructions (ttime x), requestsSyscall x, requestsAtomic x))"

definition rest_view :: "kernel \<Rightarrow> nat list \<times> job list \<times> bool \<times> nat \<times> precise_time \<times> nat \<times> (nat \<Rightarrow> u64 \<times> u64 \<times> bool \<times> bool)" where
  "rest_view k =
     (schedThreads k, runningJobs k, inKernel k, numRunningJobs k, currentTime k, nextThread k, thread_view k)"

definition blockers_view where
  "blockers_view k =
     (futexBlockers k, pollBlockers k, selectBlockers k, epollWaitBlockers k, sleepBlockers k,
      waitBlockers k, readBlockers k, vmReleaseBlockers k)"

definition same_sched :: "kernel \<Rightarrow> kernel \<Rightarrow> bool" where
  "same_sched k k' \<longleftrightarrow> rest_view k' = rest_view k \<and> blockers_view k' = blockers_view k \<and>
     runnableThreads k' = runnableThreads k \<and> blockedThreads k' = blockedThreads k"

named_theorems quiet \<open>operations that leave the scheduler alone\<close>

lemma same_refl [simp, intro]: "same_sched k k" by (simp add: same_sched_def)

lemma same_trans [trans]: "same_sched a b \<Longrightarrow> same_sched b c \<Longrightarrow> same_sched a c"
  by (simp add: same_sched_def)

lemma put_thread_same:
  "thread_view (put_thread t x k) t = thread_view k t \<Longrightarrow> same_sched k (put_thread t x k)"
  by (auto simp: same_sched_def rest_view_def blockers_view_def thread_view_def put_thread_def)

lemma same_simps [quiet]:
  "same_sched k (put_process p x k)"
  "same_sched k (put_mmu t m k)"
  "same_sched k (k\<lparr>kfs := s\<rparr>)"
  "same_sched k (k\<lparr>ktimers := ts\<rparr>)"
  "same_sched k (put_fds t table s k)"
  by (auto simp: same_sched_def rest_view_def blockers_view_def thread_view_def put_process_def put_mmu_def
      put_fds_def)

lemma update_same [quiet]:
  "same_sched k (update_thread t thread_yield k)"
  "same_sched k (update_thread t (\<lambda>x. x\<lparr>saved_regs := r\<rparr>) k)"
  "same_sched k (update_thread t (\<lambda>x. x\<lparr>fsBase := a\<rparr>) k)"
  "same_sched k (update_thread t (\<lambda>x. x\<lparr>clearChildTid := a\<rparr>) k)"
  "same_sched k (update_thread t (\<lambda>x. (thread_yield x)\<lparr>exitStatus := i\<rparr>) k)"
  by (auto simp: update_thread_def thread_yield_def yield_def thread_view_def put_thread_def Let_def
      intro!: put_thread_same [unfolded put_thread_def])

lemma set_rax_same [quiet]: "set_rax t v k = Inr k' \<Longrightarrow> same_sched k k'"
  by (auto simp: set_rax_def rbind_eq_Inr intro: update_same)

lemma open_mmu_same [quiet]: "open_mmu host t k = Inr (m, k') \<Longrightarrow> same_sched k k'"
  by (auto simp: open_mmu_def rbind_eq_Inr intro: quiet)

lemma copy_out_same [quiet]: "copy_out p bs t k = Inr k' \<Longrightarrow> same_sched k k'"
  by (auto simp: copy_out_def rbind_eq_Inr intro: quiet)

section \<open>The invariant\<close>

definition plain_waiters :: "kernel \<Rightarrow> nat list" where
  "plain_waiters k =
     map fb_thread (futexBlockers k) @ map pb_thread (pollBlockers k) @ map sb_thread (selectBlockers k) @
     map eb_thread (epollWaitBlockers k) @ map slb_thread (sleepBlockers k) @
     map wb_thread (waitBlockers k) @ map rb_thread (readBlockers k)"

definition waiters :: "kernel \<Rightarrow> nat multiset" where
  "waiters k = mset (plain_waiters k) + filter_mset (\<lambda>t. t \<in> set (schedThreads k)) (mset (vmReleaseBlockers k))"

definition queue_inv :: "kernel \<Rightarrow> bool" where
  "queue_inv k \<longleftrightarrow>
     distinct (schedThreads k) \<and>
     mset (schedThreads k) =
       mset (map job_thread (runningJobs k)) + mset (runnableThreads k) + mset (blockedThreads k) \<and>
     mset (blockedThreads k) = waiters k \<and>
     (\<forall>t \<in> set (schedThreads k). t < nextThread k) \<and> (\<forall>t \<in> set (vmReleaseBlockers k). t < nextThread k)"

lemma same_views:
  assumes "same_sched k k'"
  shows "schedThreads k' = schedThreads k" "runningJobs k' = runningJobs k" "inKernel k' = inKernel k"
    "numRunningJobs k' = numRunningJobs k" "currentTime k' = currentTime k" "nextThread k' = nextThread k"
    "thread_view k' = thread_view k" "plain_waiters k' = plain_waiters k" "waiters k' = waiters k"
    "vmReleaseBlockers k' = vmReleaseBlockers k"
    "runnableThreads k' = runnableThreads k" "blockedThreads k' = blockedThreads k"
  using assms by (auto simp: same_sched_def rest_view_def blockers_view_def plain_waiters_def waiters_def)

lemma same_queue_inv: "same_sched k k' \<Longrightarrow> queue_inv k' = queue_inv k"
  by (simp add: queue_inv_def same_views)

section \<open>Steps of the kernel\<close>

text \<open>
  \<open>kernel_step k k'\<close>: what holds of everything a system call does. It keeps the invariant, starts no
  job, moves no clock and touches the requests and the time of no thread; new threads are fresh.
\<close>

definition kernel_step :: "kernel \<Rightarrow> kernel \<Rightarrow> bool" where
  "kernel_step k k' \<longleftrightarrow>
     inKernel k' = inKernel k \<and> numRunningJobs k' = numRunningJobs k \<and> currentTime k' = currentTime k \<and>
     nextThread k \<le> nextThread k' \<and> (\<forall>t < nextThread k. thread_view k' t = thread_view k t) \<and>
     (\<forall>t < nextThread k'. nextThread k \<le> t \<longrightarrow> thread_view k' t = (0, 0, False, False)) \<and>
     (\<exists>P. runningJobs k' = filter P (runningJobs k)) \<and> (queue_inv k \<longrightarrow> queue_inv k')"

lemma kernel_step_refl [simp, intro]: "kernel_step k k"
  by (auto simp: kernel_step_def intro: exI [of _ "\<lambda>_. True"])

lemma kernel_step_trans [trans]:
  assumes "kernel_step a b" "kernel_step b c"
  shows "kernel_step a c"
proof -
  from assms obtain P Q where "runningJobs b = filter P (runningJobs a)" "runningJobs c = filter Q (runningJobs b)"
    by (auto simp: kernel_step_def)
  then have "\<exists>P. runningJobs c = filter P (runningJobs a)"
    by (intro exI [of _ "\<lambda>x. P x \<and> Q x"]) (simp add: conj_commute)
  moreover have "thread_view c t = (0, 0, False, False)" if "t < nextThread c" "nextThread a \<le> t" for t
    using assms that by (cases "t < nextThread b") (auto simp: kernel_step_def)
  moreover have "thread_view c t = thread_view a t" if "t < nextThread a" for t
    using assms that by (auto simp: kernel_step_def)
  ultimately show ?thesis using assms by (auto simp: kernel_step_def)
qed

lemma same_kernel_step: "same_sched k k' \<Longrightarrow> kernel_step k k'"
  by (auto simp: kernel_step_def same_views same_queue_inv intro: exI [of _ "\<lambda>_. True"])

text \<open>A state of the kernel in which the thread \<open>t\<close> calls the kernel, so that it may block.\<close>

definition calling :: "nat \<Rightarrow> kernel \<Rightarrow> bool" where
  "calling t k \<longleftrightarrow> queue_inv k \<and> t \<in> set (schedThreads k) \<and> t \<notin> set (blockedThreads k)"

lemma same_calling: "same_sched k k' \<Longrightarrow> calling t k' = calling t k"
  by (simp add: calling_def same_views same_queue_inv)

text \<open>Blocking: a blocker of \<open>t\<close> is appended to one of the lists, then \<open>t\<close> moves to the blocked threads.\<close>

lemma take_out:
  "distinct xs \<Longrightarrow> t \<in> set xs \<Longrightarrow> add_mset t (filter_mset (\<lambda>x. x \<noteq> t) (mset xs)) = mset xs"
proof (induction xs)
  case (Cons x xs)
  then show ?case
    by (cases "x = t") (auto simp: filter_mset_eq_conv intro!: filter_mset_eq_conv [THEN iffD2])
qed simp

lemma split_running:
  assumes "distinct S" "mset S = A + B + mset C" "t \<in> set S" "t \<notin> set C"
  shows "mset S = filter_mset (\<lambda>x. x \<noteq> t) A + filter_mset (\<lambda>x. x \<noteq> t) B + mset (C @ [t])"
proof -
  have "filter_mset (\<lambda>x. x \<noteq> t) (mset C) = mset C"
    using assms(4) by (auto intro!: filter_mset_eq_conv [THEN iffD2])
  then show ?thesis using take_out [OF assms(1,3)] by (simp add: assms(2))
qed

lemma mset_threads_but:
  "mset (map job_thread (filter (\<lambda>j. job_thread j \<noteq> t) js)) = filter_mset (\<lambda>x. x \<noteq> t) (mset (map job_thread js))"
  by (induction js) auto

definition blocks_on :: "nat \<Rightarrow> kernel \<Rightarrow> kernel \<Rightarrow> bool" where
  "blocks_on t k k' \<longleftrightarrow> rest_view k' = rest_view k \<and> runnableThreads k' = runnableThreads k \<and>
     blockedThreads k' = blockedThreads k \<and> waiters k' = add_mset t (waiters k) \<and>
     set (vmReleaseBlockers k') \<subseteq> insert t (set (vmReleaseBlockers k))"

lemma block_step:
  assumes "calling t k" "blocks_on t k k1" "block_and_yield t k1 = Inr k2"
  shows "kernel_step k k2"
proof -
  let ?k = "k1\<lparr>runningJobs := filter (\<lambda>j. job_thread j \<noteq> t) (runningJobs k1),
            runnableThreads := filter (\<lambda>x. x \<noteq> t) (runnableThreads k1),
            blockedThreads := blockedThreads k1 @ [t]\<rparr>"
  have same: "same_sched ?k k2"
    using assms(3) update_same(1) [of ?k t]
    by (auto simp: block_and_yield_def block_def rbind_eq_Inr)
  have v: "waiters ?k = add_mset t (waiters k)" "vmReleaseBlockers ?k = vmReleaseBlockers k1"
    "runnableThreads k1 = runnableThreads k" "blockedThreads k1 = blockedThreads k"
    "schedThreads k1 = schedThreads k" "runningJobs k1 = runningJobs k" "nextThread k1 = nextThread k"
    "set (vmReleaseBlockers k1) \<subseteq> insert t (set (vmReleaseBlockers k))" "inKernel k1 = inKernel k"
    "numRunningJobs k1 = numRunningJobs k" "currentTime k1 = currentTime k" "thread_view ?k = thread_view k"
    using assms(2) by (auto simp: blocks_on_def waiters_def plain_waiters_def rest_view_def thread_view_def fun_eq_iff)
  have f: "runningJobs ?k = filter (\<lambda>j. job_thread j \<noteq> t) (runningJobs k1)"
    "runnableThreads ?k = filter (\<lambda>x. x \<noteq> t) (runnableThreads k1)" "blockedThreads ?k = blockedThreads k1 @ [t]"
    by simp_all
  have q: "queue_inv k" "t \<in> set (schedThreads k)" "t \<notin> set (blockedThreads k)"
    using assms(1) by (auto simp: calling_def)
  have "mset (schedThreads k) = filter_mset (\<lambda>x. x \<noteq> t) (mset (map job_thread (runningJobs k)))
      + filter_mset (\<lambda>x. x \<noteq> t) (mset (runnableThreads k)) + mset (blockedThreads k @ [t])"
    using q by (intro split_running) (auto simp: queue_inv_def)
  then have "mset (schedThreads k) = mset (map job_thread (runningJobs ?k)) + mset (runnableThreads ?k) + mset (blockedThreads ?k)"
    unfolding f by (simp only: mset_threads_but v mset_filter)
  moreover have "t < nextThread k" using q by (auto simp: queue_inv_def)
  ultimately have "queue_inv ?k"
    using q(1) v by (auto simp: queue_inv_def)
  moreover have "kernel_step k ?k"
    using calculation v by (auto simp: kernel_step_def)
  ultimately show ?thesis using kernel_step_trans same_kernel_step same by blast
qed


text \<open>The eight ways to wait.\<close>

lemma limit_in_ms_same [quiet]: "limit_in_ms ms k = (l, k') \<Longrightarrow> same_sched k k'"
  by (auto simp: limit_in_ms_def split: if_splits prod.splits intro: quiet)

lemma futex_limit_same [quiet]: "futex_limit host t timeout a k = Inr (l, k') \<Longrightarrow> same_sched k k'"
  by (auto simp: futex_limit_def rbind_eq_Inr split: if_splits intro: quiet)

lemma blocks_on_push:
  assumes "same_sched k k1"
  shows "slb_thread b1 = t \<Longrightarrow> blocks_on t k (k1\<lparr>sleepBlockers := sleepBlockers k1 @ [b1]\<rparr>)"
    "fb_thread b2 = t \<Longrightarrow> blocks_on t k (k1\<lparr>futexBlockers := futexBlockers k1 @ [b2]\<rparr>)"
    "pb_thread b3 = t \<Longrightarrow> blocks_on t k (k1\<lparr>pollBlockers := pollBlockers k1 @ [b3]\<rparr>)"
    "sb_thread b4 = t \<Longrightarrow> blocks_on t k (k1\<lparr>selectBlockers := selectBlockers k1 @ [b4]\<rparr>)"
    "eb_thread b5 = t \<Longrightarrow> blocks_on t k (k1\<lparr>epollWaitBlockers := epollWaitBlockers k1 @ [b5]\<rparr>)"
    "wb_thread b6 = t \<Longrightarrow> blocks_on t k (k1\<lparr>waitBlockers := waitBlockers k1 @ [b6]\<rparr>)"
    "rb_thread b7 = t \<Longrightarrow> blocks_on t k (k1\<lparr>readBlockers := readBlockers k1 @ [b7]\<rparr>)"
    "t \<in> set (schedThreads k) \<Longrightarrow> blocks_on t k (k1\<lparr>vmReleaseBlockers := vmReleaseBlockers k1 @ [t]\<rparr>)"
  using assms by (auto simp: blocks_on_def same_sched_def rest_view_def blockers_view_def waiters_def
      plain_waiters_def thread_view_def fun_eq_iff)

lemma waiting_steps:
  assumes "calling t k" "same_sched k k1"
  shows "block_and_yield t (k1\<lparr>sleepBlockers := sleepBlockers k1 @ [b1]\<rparr>) = Inr k2 \<Longrightarrow> slb_thread b1 = t \<Longrightarrow> kernel_step k k2"
    "block_and_yield t (k1\<lparr>futexBlockers := futexBlockers k1 @ [b2]\<rparr>) = Inr k2 \<Longrightarrow> fb_thread b2 = t \<Longrightarrow> kernel_step k k2"
    "block_and_yield t (k1\<lparr>pollBlockers := pollBlockers k1 @ [b3]\<rparr>) = Inr k2 \<Longrightarrow> pb_thread b3 = t \<Longrightarrow> kernel_step k k2"
    "block_and_yield t (k1\<lparr>selectBlockers := selectBlockers k1 @ [b4]\<rparr>) = Inr k2 \<Longrightarrow> sb_thread b4 = t \<Longrightarrow> kernel_step k k2"
    "block_and_yield t (k1\<lparr>epollWaitBlockers := epollWaitBlockers k1 @ [b5]\<rparr>) = Inr k2 \<Longrightarrow> eb_thread b5 = t \<Longrightarrow> kernel_step k k2"
    "block_and_yield t (k1\<lparr>waitBlockers := waitBlockers k1 @ [b6]\<rparr>) = Inr k2 \<Longrightarrow> wb_thread b6 = t \<Longrightarrow> kernel_step k k2"
    "block_and_yield t (k1\<lparr>readBlockers := readBlockers k1 @ [b7]\<rparr>) = Inr k2 \<Longrightarrow> rb_thread b7 = t \<Longrightarrow> kernel_step k k2"
    "block_and_yield t (k1\<lparr>vmReleaseBlockers := vmReleaseBlockers k1 @ [t]\<rparr>) = Inr k2 \<Longrightarrow> kernel_step k k2"
  subgoal by (rule block_step [OF assms(1) blocks_on_push(1) [OF assms(2)]])
  subgoal by (rule block_step [OF assms(1) blocks_on_push(2) [OF assms(2)]])
  subgoal by (rule block_step [OF assms(1) blocks_on_push(3) [OF assms(2)]])
  subgoal by (rule block_step [OF assms(1) blocks_on_push(4) [OF assms(2)]])
  subgoal by (rule block_step [OF assms(1) blocks_on_push(5) [OF assms(2)]])
  subgoal by (rule block_step [OF assms(1) blocks_on_push(6) [OF assms(2)]])
  subgoal by (rule block_step [OF assms(1) blocks_on_push(7) [OF assms(2)]])
  subgoal by (rule block_step [OF assms(1) blocks_on_push(8) [OF assms(2)]]) (use assms(1) in \<open>simp_all add: calling_def\<close>)
  done

lemma timers_open_same: "open_mmu host t (k\<lparr>ktimers := ts\<rparr>) = Inr (m, k') \<Longrightarrow> same_sched k k'"
  using open_mmu_same same_trans same_simps(4) by blast

lemma wait_steps:
  assumes "calling t k"
  shows "sched_sleep t timer target k = Inr k' \<Longrightarrow> kernel_step k k'"
    "futex_wait host a t w e timeout k = Inr k' \<Longrightarrow> kernel_step k k'"
    "sched_poll t p n ms k = Inr k' \<Longrightarrow> kernel_step k k'"
    "sched_select host t nfds r w' e' tv k = Inr k' \<Longrightarrow> kernel_step k k'"
    "sched_epoll_wait t epfd evs m ms k = Inr k' \<Longrightarrow> kernel_step k k'"
    "sched_wait4 t i ws k = Inr k' \<Longrightarrow> kernel_step k k'"
    "sched_blockingRead t fd buf cnt k = Inr k' \<Longrightarrow> kernel_step k k'"
    "suspendUntilVmReleased t k = Inr k' \<Longrightarrow> kernel_step k k'"
  subgoal by (auto simp: sched_sleep_def rbind_eq_Inr intro: waiting_steps(1) [OF assms same_refl])
  subgoal by (auto simp: futex_wait_def rbind_eq_Inr intro: waiting_steps(2) [OF assms] futex_limit_same)
  subgoal by (auto simp: sched_poll_def rbind_eq_Inr case_prod_beta Let_def
      intro: waiting_steps(3) [OF assms] limit_in_ms_same [OF surjective_pairing])
  subgoal by (auto simp: sched_select_def rbind_eq_Inr case_prod_beta Let_def
      intro: waiting_steps(4) [OF assms timers_open_same])
  subgoal by (auto simp: sched_epoll_wait_def rbind_eq_Inr case_prod_beta Let_def
      intro: waiting_steps(5) [OF assms] limit_in_ms_same [OF surjective_pairing])
  subgoal by (auto simp: sched_wait4_def rbind_eq_Inr intro: waiting_steps(6) [OF assms same_refl])
  subgoal by (auto simp: sched_blockingRead_def rbind_eq_Inr intro: waiting_steps(7) [OF assms same_refl])
  subgoal by (auto simp: suspendUntilVmReleased_def rbind_eq_Inr intro: waiting_steps(8) [OF assms same_refl])
  done


section \<open>Waking and unblocking\<close>

text \<open>\<open>released us k k'\<close>: the threads \<open>us\<close> went from the blocked to the runnable ones, in this order.\<close>

definition released :: "nat list \<Rightarrow> kernel \<Rightarrow> kernel \<Rightarrow> bool" where
  "released us k k' \<longleftrightarrow> rest_view k' = rest_view k \<and> blockers_view k' = blockers_view k \<and>
     runnableThreads k' = runnableThreads k @ us \<and> mset (blockedThreads k) = mset (blockedThreads k') + mset us"

lemma same_released: "same_sched k k' \<Longrightarrow> released [] k k'"
  by (simp add: released_def same_sched_def)

lemma released_trans: "released us a b \<Longrightarrow> released vs b c \<Longrightarrow> released (us @ vs) a c"
  by (simp add: released_def)

lemma unblock_released: "unblock l t k = Inr k' \<Longrightarrow> released [t] k k'"
  by (auto simp: unblock_def rbind_eq_Inr released_def rest_view_def blockers_view_def thread_view_def fun_eq_iff
      split: if_splits)

lemma futex_tryUnblock_same [quiet]: "futex_tryUnblock p b k = Inr (r, k') \<Longrightarrow> same_sched k k'"
  by (auto simp: futex_tryUnblock_def rbind_eq_Inr split: if_splits intro: quiet)

lemma wake_loop_released:
  "wake_loop p n m bs k = Inr (kept, n', k') \<Longrightarrow>
     \<exists>woken. released (map fb_thread woken) k k' \<and> mset bs = mset kept + mset woken"
proof (induction p n m bs k arbitrary: kept n' k' rule: wake_loop.induct)
  case (1 p n m k)
  then show ?case by (auto intro!: exI [of _ "[]"] same_released)
next
  case (2 p n m b bs k)
  from "2.prems" obtain can k1 where c: "futex_tryUnblock p b k = Inr (can, k1)"
    by (auto simp: rbind_eq_Inr)
  have r1: "released [] k k1" using c by (intro same_released futex_tryUnblock_same)
  show ?case
  proof (cases can)
    case False
    with "2.prems" c obtain kept' where l: "wake_loop p n m bs k1 = Inr (kept', n', k')" "kept = b # kept'"
      by (auto simp: rbind_eq_Inr)
    then obtain woken where "released (map fb_thread woken) k1 k'" "mset bs = mset kept' + mset woken"
      using "2.IH"(1) [of can k1] c False by blast
    with released_trans [OF r1] l(2) show ?thesis by (intro exI [of _ woken]) auto
  next
    case True
    with "2.prems" c obtain k2 where u: "unblock False (fb_thread b) k1 = Inr k2"
      by (auto simp: rbind_eq_Inr)
    have r2: "released [fb_thread b] k k2" using released_trans [OF r1 unblock_released [OF u]] by simp
    show ?thesis
    proof (cases "n \<le> m + 1")
      case True
      with \<open>can\<close> "2.prems" c u have "kept = bs" "k' = k2" by (auto simp: rbind_eq_Inr)
      with r2 show ?thesis by (intro exI [of _ "[b]"]) auto
    next
      case False
      with \<open>can\<close> "2.prems" c u have "wake_loop p n (m + 1) bs k2 = Inr (kept, n', k')" by (auto simp: rbind_eq_Inr)
      then obtain woken where "released (map fb_thread woken) k2 k'" "mset bs = mset kept + mset woken"
        using "2.IH"(2) [of can k2] c \<open>can\<close> False by auto
      with released_trans [OF r2] show ?thesis by (intro exI [of _ "b # woken"]) auto
    qed
  qed
qed

text \<open>
  While a thread is terminated it may still be among the blocked ones without a blocker: \<open>E\<close> is what
  is blocked beyond the waiters.
\<close>

definition queue_inv_but :: "nat multiset \<Rightarrow> kernel \<Rightarrow> bool" where
  "queue_inv_but E k \<longleftrightarrow>
     distinct (schedThreads k) \<and>
     mset (schedThreads k) =
       mset (map job_thread (runningJobs k)) + mset (runnableThreads k) + mset (blockedThreads k) \<and>
     mset (blockedThreads k) = waiters k + E \<and>
     (\<forall>t \<in> set (schedThreads k). t < nextThread k) \<and> (\<forall>t \<in> set (vmReleaseBlockers k). t < nextThread k)"

lemma queue_inv_but_empty: "queue_inv k = queue_inv_but {#} k"
  by (simp add: queue_inv_def queue_inv_but_def)

lemma same_queue_inv_but: "same_sched k k' \<Longrightarrow> queue_inv_but E k' = queue_inv_but E k"
  by (simp add: queue_inv_but_def same_views)

lemma released_views:
  assumes "released us k k'"
  shows "schedThreads k' = schedThreads k" "runningJobs k' = runningJobs k" "inKernel k' = inKernel k"
    "numRunningJobs k' = numRunningJobs k" "currentTime k' = currentTime k" "nextThread k' = nextThread k"
    "thread_view k' = thread_view k" "plain_waiters k' = plain_waiters k" "waiters k' = waiters k"
    "vmReleaseBlockers k' = vmReleaseBlockers k" "futexBlockers k' = futexBlockers k"
  using assms by (auto simp: released_def rest_view_def blockers_view_def plain_waiters_def waiters_def)

text \<open>Once the blockers of the released threads are gone the invariant is back.\<close>

lemma released_queue_inv:
  assumes "released us k k1" "queue_inv_but E k"
    "rest_view k2 = rest_view k1" "runnableThreads k2 = runnableThreads k1" "blockedThreads k2 = blockedThreads k1"
    "waiters k1 = waiters k2 + mset us" "set (vmReleaseBlockers k2) \<subseteq> set (vmReleaseBlockers k1)"
  shows "queue_inv_but E k2"
  using assms released_views [OF assms(1)]
  by (auto simp: queue_inv_but_def released_def rest_view_def)

lemma wake_keeps:
  assumes "wake p n k = Inr (m, k')"
  shows "rest_view k' = rest_view k" "queue_inv_but E k \<Longrightarrow> queue_inv_but E k'"
    "vmReleaseBlockers k' = vmReleaseBlockers k" "set (plain_waiters k') \<subseteq> set (plain_waiters k)"
proof -
  from assms obtain kept k1 where l: "wake_loop p n 0 (futexBlockers k) k = Inr (kept, m, k1)"
    "k' = k1\<lparr>futexBlockers := kept\<rparr>" by (auto simp: wake_def rbind_eq_Inr)
  from wake_loop_released [OF l(1)] obtain woken where
    w: "released (map fb_thread woken) k k1" "mset (futexBlockers k) = mset kept + mset woken" by blast
  have rest: "rest_view k' = rest_view k1" by (simp add: l(2) rest_view_def thread_view_def fun_eq_iff)
  show "rest_view k' = rest_view k" using rest w(1) by (simp add: released_def)
  show "vmReleaseBlockers k' = vmReleaseBlockers k" using released_views [OF w(1)] by (simp add: l(2))
  have "waiters k1 = waiters k' + mset (map fb_thread woken)"
    using released_views [OF w(1)] w(2) by (simp add: l(2) waiters_def plain_waiters_def)
  then show "queue_inv_but E k \<Longrightarrow> queue_inv_but E k'"
    using released_queue_inv [OF w(1) _ rest] by (auto simp: l(2))
  have "set kept \<subseteq> set (futexBlockers k)"
    by (metis w(2) set_mset_mset set_mset_union sup_ge1)
  then show "set (plain_waiters k') \<subseteq> set (plain_waiters k)"
    using released_views(8) [OF w(1)] released_views(11) [OF w(1)]
    by (auto simp: l(2) plain_waiters_def)
qed

lemma rest_kernel_step:
  assumes "rest_view k' = rest_view k" "queue_inv k \<Longrightarrow> queue_inv k'"
  shows "kernel_step k k'"
  using assms by (auto simp: kernel_step_def rest_view_def intro: exI [of _ "\<lambda>_. True"])

lemma wake_step: "wake p n k = Inr (m, k') \<Longrightarrow> kernel_step k k'"
  by (rule rest_kernel_step) (auto simp: wake_keeps queue_inv_but_empty)

lemma wakeOp_step:
  assumes "wakeOp host t u v u2 v2 v3 k = Inr (n, k')"
  shows "kernel_step k k'"
proof -
  from assms obtain m0 k1 and m :: mmu and n1 k2 where w: "open_mmu host t k = Inr (m0, k1)"
    "wake u v (put_mmu t m k1) = Inr (n1, k2)" and r: "k' = k2 \<or> (\<exists>n2. wake u2 v2 k2 = Inr (n2, k'))"
    by (auto simp: wakeOp_def rbind_eq_Inr split: if_splits)
  have "kernel_step k k1" using w(1) by (intro same_kernel_step open_mmu_same)
  also have "kernel_step k1 (put_mmu t m k1)" by (intro same_kernel_step same_simps)
  also have "kernel_step (put_mmu t m k1) k2" using w(2) by (rule wake_step)
  also have "kernel_step k2 k'" using r wake_step by blast
  finally show ?thesis .
qed


section \<open>Termination\<close>

lemma mset_but: "mset (map f (filter (\<lambda>j. f j \<noteq> t) js)) = filter_mset (\<lambda>x. x \<noteq> t) (mset (map f js))"
  by (induction js) auto

lemma drop_blockers_keeps:
  assumes "queue_inv k"
  shows "queue_inv_but (filter_mset (\<lambda>x. x = t) (mset (plain_waiters k))) (drop_blockers t k)"
    "rest_view (drop_blockers t k) = rest_view k" "t \<notin> set (plain_waiters (drop_blockers t k))"
proof -
  let ?k = "drop_blockers t k"
  have p: "plain_waiters ?k = filter (\<lambda>x. x \<noteq> t) (plain_waiters k)"
    by (simp add: plain_waiters_def drop_blockers_def filter_map comp_def)
  have v: "vmReleaseBlockers ?k = vmReleaseBlockers k" "schedThreads ?k = schedThreads k"
    "runnableThreads ?k = runnableThreads k" "blockedThreads ?k = blockedThreads k"
    "runningJobs ?k = runningJobs k" "nextThread ?k = nextThread k"
    by (simp_all add: drop_blockers_def)
  have "mset (plain_waiters k) = mset (plain_waiters ?k) + filter_mset (\<lambda>x. x = t) (mset (plain_waiters k))"
    using multiset_partition [of "mset (plain_waiters k)" "\<lambda>x. x \<noteq> t"] by (simp add: p)
  then have "waiters k = waiters ?k + filter_mset (\<lambda>x. x = t) (mset (plain_waiters k))"
    unfolding waiters_def v by (simp add: ac_simps)
  then show "queue_inv_but (filter_mset (\<lambda>x. x = t) (mset (plain_waiters k))) ?k"
    using assms by (simp add: queue_inv_but_def queue_inv_def v)
  show "rest_view ?k = rest_view k"
    by (simp add: rest_view_def drop_blockers_def thread_view_def fun_eq_iff)
  show "t \<notin> set (plain_waiters ?k)" by (simp add: p)
qed

lemma drop_thread_restores:
  assumes "queue_inv_but E k" "set_mset E \<subseteq> {t}" "t \<notin> set (plain_waiters k)"
  shows "queue_inv (drop_thread t k)"
proof -
  let ?k = "drop_thread t k"
  have "filter_mset (\<lambda>x. x \<noteq> t) E = {#}" 
    using assms(2) by (intro multiset_eqI) (auto simp: count_eq_zero_iff)
  moreover have "filter_mset (\<lambda>x. x \<noteq> t) (mset (plain_waiters k)) = mset (plain_waiters k)"
    using assms(3) by (auto intro!: filter_mset_eq_conv [THEN iffD2])
  moreover have "plain_waiters ?k = plain_waiters k" by (simp add: plain_waiters_def drop_thread_def)
  ultimately have "waiters ?k = filter_mset (\<lambda>x. x \<noteq> t) (waiters k + E)"
    by (simp add: waiters_def drop_thread_def filter_filter_mset conj_commute)
  moreover have "mset (map job_thread (runningJobs ?k)) = filter_mset (\<lambda>x. x \<noteq> t) (mset (map job_thread (runningJobs k)))"
    unfolding mset_but [symmetric] by (simp add: drop_thread_def)
  ultimately show ?thesis
    using assms(1) by (simp add: queue_inv_def queue_inv_but_def) (auto simp: drop_thread_def)
qed

lemma terminate_step:
  assumes "terminate host t status k = Inr k'"
  shows "kernel_step k k'"
proof -
  define k0 where "k0 = update_thread t (\<lambda>x. (thread_yield x)\<lparr>exitStatus := status\<rparr>) k"
  have same: "same_sched k k0" unfolding k0_def by (rule update_same(5))
  obtain k2 where k2: "k' = drop_thread t k2" "rest_view k2 = rest_view (drop_blockers t k0)"
    "\<And>E. queue_inv_but E (drop_blockers t k0) \<Longrightarrow> queue_inv_but E k2"
    "set (plain_waiters k2) \<subseteq> set (plain_waiters (drop_blockers t k0))"
  proof (cases "clearChildTid (kthreads (drop_blockers t k0) t) = 0")
    case True
    with assms have "k' = drop_thread t (drop_blockers t k0)"
      by (auto simp: terminate_def rbind_eq_Inr Let_def k0_def)
    with that show ?thesis by blast
  next
    case False
    let ?p = "clearChildTid (kthreads (drop_blockers t k0) t)"
    from assms False obtain m0 ka and m :: mmu and n kb where
      w: "open_mmu host t (drop_blockers t k0) = Inr (m0, ka)" "wake ?p 1 (put_mmu t m ka) = Inr (n, kb)"
        "k' = drop_thread t kb"
      by (auto simp: terminate_def rbind_eq_Inr Let_def k0_def)
    have s: "same_sched (drop_blockers t k0) (put_mmu t m ka)"
      using open_mmu_same [OF w(1)] same_simps(2) by (rule same_trans)
    show ?thesis
    proof (rule that [OF w(3)])
      show "rest_view kb = rest_view (drop_blockers t k0)"
        using wake_keeps(1) [OF w(2)] s by (simp add: same_sched_def)
      show "queue_inv_but E kb" if "queue_inv_but E (drop_blockers t k0)" for E
        using that wake_keeps(2) [OF w(2)] same_queue_inv_but [OF s] by blast
      show "set (plain_waiters kb) \<subseteq> set (plain_waiters (drop_blockers t k0))"
        using wake_keeps(4) [OF w(2)] same_views(8) [OF s] by simp
    qed
  qed
  have "rest_view k2 = rest_view k"
    using k2(2) same by (simp add: drop_blockers_keeps(2) same_sched_def rest_view_def drop_blockers_def thread_view_def fun_eq_iff)
  moreover have "queue_inv k'" if "queue_inv k"
  proof -
    have q: "queue_inv k0" using that same by (simp add: same_queue_inv)
    show ?thesis unfolding k2(1)
      using drop_blockers_keeps [OF q, of t] k2(3,4)
      by (intro drop_thread_restores [of "filter_mset (\<lambda>x. x = t) (mset (plain_waiters k0))"]) auto
  qed
  ultimately show ?thesis
    by (auto simp: kernel_step_def k2(1) drop_thread_def rest_view_def thread_view_def fun_eq_iff)
qed

lemma terminate_all_step: "terminate_all host ts status k = Inr k' \<Longrightarrow> kernel_step k k'"
  by (induction host ts status k rule: terminate_all.induct)
    (auto simp: rbind_eq_Inr intro: terminate_step kernel_step_trans)

section \<open>Unblocking\<close>

text \<open>Asking blockers keeps the invariant, and the freed threads queue up behind the runnable ones.\<close>

definition frees :: "bool \<times> kernel \<Rightarrow> bool \<times> kernel \<Rightarrow> bool" where
  "frees r r' \<longleftrightarrow> rest_view (snd r') = rest_view (snd r) \<and> (queue_inv (snd r) \<longrightarrow> queue_inv (snd r')) \<and>
     (\<exists>us. runnableThreads (snd r') = runnableThreads (snd r) @ us \<and> fst r' = (fst r \<or> us \<noteq> []))"

lemma frees_trans:
  assumes "frees a b" "frees b c"
  shows "frees a c"
proof -
  from assms(1) obtain us where "runnableThreads (snd b) = runnableThreads (snd a) @ us" "fst b = (fst a \<or> us \<noteq> [])"
    unfolding frees_def by blast
  moreover from assms(2) obtain vs where
    "runnableThreads (snd c) = runnableThreads (snd b) @ vs" "fst c = (fst b \<or> vs \<noteq> [])"
    unfolding frees_def by blast
  ultimately have "\<exists>ws. runnableThreads (snd c) = runnableThreads (snd a) @ ws \<and> fst c = (fst a \<or> ws \<noteq> [])"
    by (intro exI [of _ "us @ vs"]) simp
  then show ?thesis using assms unfolding frees_def by simp
qed

lemma same_frees:
  assumes "same_sched k k'"
  shows "frees (d, k) (d, k')"
proof -
  have "rest_view k' = rest_view k" using assms by (simp add: same_sched_def)
  then show ?thesis by (simp add: frees_def same_queue_inv [OF assms] same_views(11) [OF assms])
qed

lemma frees_rbind:
  assumes "rbind f g = Inr r" "\<And>x. f = Inr x \<Longrightarrow> frees a x" "\<And>x. g x = Inr r \<Longrightarrow> frees x r"
  shows "frees a r"
proof -
  from assms(1) obtain x where "f = Inr x" "g x = Inr r" by (auto simp: rbind_eq_Inr simp del: split_paired_Ex)
  then show ?thesis using assms(2,3) frees_trans by blast
qed

locale blockers =
  fixes tryUnblock :: "'b \<Rightarrow> kernel \<Rightarrow> (bool \<times> kernel) result"
    and thr :: "'b \<Rightarrow> nat"
    and get :: "kernel \<Rightarrow> 'b list"
    and put :: "'b list \<Rightarrow> kernel \<Rightarrow> kernel"
  assumes asks_only: "tryUnblock b k = Inr (can, k') \<Longrightarrow> same_sched k k'"
    and get_view: "blockers_view k' = blockers_view k \<Longrightarrow> get k' = get k"
    and put_rest: "rest_view (put bs k) = rest_view k" "runnableThreads (put bs k) = runnableThreads k"
      "blockedThreads (put bs k) = blockedThreads k"
    and put_waiters: "mset (get k) = mset bs + mset gone \<Longrightarrow> \<forall>b \<in> set gone. thr b \<in> set (schedThreads k) \<Longrightarrow>
      waiters k = waiters (put bs k) + mset (map thr gone)"
    and put_vm: "set bs \<subseteq> set (get k) \<Longrightarrow> set (vmReleaseBlockers (put bs k)) \<subseteq> set (vmReleaseBlockers k)"
begin

lemma unblock_all_released:
  "unblock_all tryUnblock thr bs k = Inr (kept, did, k') \<Longrightarrow>
     \<exists>gone. released (map thr gone) k k' \<and> mset bs = mset kept + mset gone \<and> did = (gone \<noteq> [])"
proof (induction bs arbitrary: k kept did)
  case Nil
  then show ?case by (auto intro!: exI [of _ "[]"] same_released)
next
  case (Cons b bs)
  from Cons.prems obtain can k1 k2 kept' did' where
    c: "tryUnblock b k = Inr (can, k1)" "(if can then unblock True (thr b) k1 else Inr k1) = Inr k2"
      "unblock_all tryUnblock thr bs k2 = Inr (kept', did', k')"
      "(if can then kept' else b # kept') = kept" "(can \<or> did') = did"
    by (simp only: unblock_all.simps rbind_eq_Inr split_paired_Ex case_prod_conv sum.inject prod.inject) blast
  have r: "released (if can then [thr b] else []) k k2"
    using released_trans [OF same_released [OF asks_only [OF c(1)]], of _ k2] c(2)
      unblock_released [of True "thr b" k1 k2] same_released [OF asks_only [OF c(1)]]
    by (auto split: if_splits)
  from Cons.IH [OF c(3)] obtain gone where
    "released (map thr gone) k2 k'" "mset bs = mset kept' + mset gone" "did' = (gone \<noteq> [])" by blast
  with released_trans [OF r] c(4,5) show ?case
    by (intro exI [of _ "(if can then [b] else []) @ gone"]) auto
qed

lemma unblock_list_step:
  assumes "unblock_list tryUnblock thr get put (did, k) = Inr (did', k')"
  shows "rest_view k' = rest_view k" "queue_inv k \<Longrightarrow> queue_inv k'"
    "\<exists>us. runnableThreads k' = runnableThreads k @ us \<and> did' = (did \<or> us \<noteq> [])"
proof -
  from assms obtain kept d k1 where
    u: "unblock_all tryUnblock thr (get k) k = Inr (kept, d, k1)" "k' = put kept k1" "did' = (did \<or> d)"
    by (auto simp: unblock_list_def rbind_eq_Inr)
  from unblock_all_released [OF u(1)] obtain gone where
    g: "released (map thr gone) k k1" "mset (get k) = mset kept + mset gone" "d = (gone \<noteq> [])" by blast
  show rest: "rest_view k' = rest_view k" using g(1) by (simp add: u(2) put_rest released_def)
  show "\<exists>us. runnableThreads k' = runnableThreads k @ us \<and> did' = (did \<or> us \<noteq> [])"
    using g by (intro exI [of _ "map thr gone"]) (simp add: u(2,3) put_rest released_def)
  have get: "get k1 = get k" using g(1) by (intro get_view) (simp add: released_def)
  show "queue_inv k'" if q: "queue_inv k"
  proof -
    have "set (map thr gone) \<subseteq> set (blockedThreads k)"
      using g(1) unfolding released_def by (metis mset_subset_eq_add_right set_mset_mono set_mset_mset)
    also have "\<dots> \<subseteq> set (schedThreads k)"
      using q unfolding queue_inv_def by (metis mset_subset_eq_add_right set_mset_mono set_mset_mset)
    finally have w: "waiters k1 = waiters k' + mset (map thr gone)"
      unfolding u(2) using g(2) by (intro put_waiters) (auto simp: get released_views [OF g(1)])
    have "set kept \<subseteq> set (get k)" by (metis g(2) set_mset_mset set_mset_union sup_ge1)
    then have vm: "set (vmReleaseBlockers k') \<subseteq> set (vmReleaseBlockers k1)"
      unfolding u(2) by (intro put_vm) (simp add: get)
    have "queue_inv_but {#} k'"
    proof (rule released_queue_inv [OF g(1) _ _ _ _ w vm])
      show "queue_inv_but {#} k" using q by (simp only: queue_inv_but_empty)
    qed (simp_all only: u(2) put_rest)
    then show ?thesis by (simp add: queue_inv_but_empty)
  qed
qed

lemma unblock_list_frees:
  assumes "unblock_list tryUnblock thr get put r = Inr r'"
  shows "frees r r'"
proof -
  obtain d k d' k' where r: "r = (d, k)" "r' = (d', k')" by (cases r; cases r')
  show ?thesis unfolding r frees_def snd_conv fst_conv
    using unblock_list_step [OF assms [unfolded r]] by blast
qed

end

end
