(* ===== verification/X64_SysInv.thy ===== *)
theory X64_SysInv
  imports X64_SchedInv
begin

text \<open>
  What the scheduler and the system calls keep: asking the blockers, picking the next job, and every
  modelled system call are steps of the kernel in the sense of \<open>kernel_step\<close>.
\<close>

section \<open>The eight lists of blockers\<close>

lemma asks_same:
  assumes "open_mmu host t k = Inr (m, k1)"
  shows "set_rax u v k1 = Inr k' \<Longrightarrow> same_sched k k'"
    "set_rax u v (put_mmu w m' k1) = Inr k' \<Longrightarrow> same_sched k k'"
  by (rule same_trans [OF open_mmu_same [OF assms] set_rax_same], assumption)
    (rule same_trans [OF open_mmu_same [OF assms] same_trans [OF same_simps(2) set_rax_same]])

lemma poll_tryUnblock_same [quiet]: "poll_tryUnblock host b k = Inr (r, k') \<Longrightarrow> same_sched k k'"
  by (auto simp: poll_tryUnblock_def rbind_eq_Inr Let_def split: if_splits intro: asks_same open_mmu_same)


lemma select_tryUnblock_same [quiet]: "select_tryUnblock host b k = Inr (r, k') \<Longrightarrow> same_sched k k'"
  by (auto simp: select_tryUnblock_def rbind_eq_Inr Let_def split: if_splits intro: asks_same open_mmu_same)

lemma epoll_tryUnblock_same [quiet]: "epoll_tryUnblock host b k = Inr (r, k') \<Longrightarrow> same_sched k k'"
  by (auto simp: epoll_tryUnblock_def rbind_eq_Inr Let_def split: if_splits intro: asks_same set_rax_same)

lemma sleep_tryUnblock_same [quiet]: "sleep_tryUnblock b k = Inr (r, k') \<Longrightarrow> same_sched k k'"
  by (auto simp: sleep_tryUnblock_def rbind_eq_Inr Let_def case_prod_beta split: if_splits
      intro: same_simps(4) same_trans [OF same_simps(4) set_rax_same])

lemma report_child_same [quiet]: "report_child host b ec k = Inr (r, k') \<Longrightarrow> same_sched k k'"
  by (auto simp: report_child_def rbind_eq_Inr split: if_splits
      intro: set_rax_same same_trans [OF set_rax_same same_trans [OF open_mmu_same same_simps(2)]])

lemma retrieve_same [quiet]:
  "tryRetrieveExitedChild_pid i p k = Inr (r, k') \<Longrightarrow> same_sched k k'"
  "tryRetrieveExitedChild p k = Inr (r, k') \<Longrightarrow> same_sched k k'"
  by (auto simp: tryRetrieveExitedChild_pid_def tryRetrieveExitedChild_def forget_child_def
      split: option.splits list.splits intro: quiet)

lemma wait_tryUnblock_same [quiet]: "wait_tryUnblock host b k = Inr (r, k') \<Longrightarrow> same_sched k k'"
  by (auto simp: wait_tryUnblock_def rbind_eq_Inr Let_def split: if_splits option.splits
      intro: retrieve_same same_trans [OF retrieve_same(1) report_child_same] same_trans [OF retrieve_same(2) report_child_same])

lemma read_tryUnblock_same [quiet]:
  assumes "read_tryUnblock host b k = Inr (c, k')"
  shows "same_sched k k'"
proof -
  obtain r s where r: "fs_read (findFileDescriptor (rb_fd b) (fds (process_of (rb_thread b) k))) (unat (rb_count b)) (kfs k)
      = Inr (r, s)"
    using assms by (auto simp: read_tryUnblock_def rbind_eq_Inr)
  have "same_sched (k\<lparr>kfs := s\<rparr>) k'"
    using assms r by (cases r rule: block_or.exhaust [case_product errno_or.exhaust])
      (auto simp: read_tryUnblock_def rbind_eq_Inr Let_def split: block_or.split_asm errno_or.split_asm
        intro: set_rax_same asks_same(2))
  then show ?thesis by (rule same_trans [OF same_simps(3)])
qed

lemmas list_views =
  blockers_view_def rest_view_def thread_view_def fun_eq_iff waiters_def plain_waiters_def

interpretation sleepers: blockers sleep_tryUnblock slb_thread sleepBlockers "\<lambda>bs. sleepBlockers_update (\<lambda>_. bs)"
  by unfold_locales (auto simp: list_views intro: quiet)

interpretation pollers: blockers "poll_tryUnblock host" pb_thread pollBlockers "\<lambda>bs. pollBlockers_update (\<lambda>_. bs)"
  by unfold_locales (auto simp: list_views intro: quiet)

interpretation selectors: blockers "select_tryUnblock host" sb_thread selectBlockers "\<lambda>bs. selectBlockers_update (\<lambda>_. bs)"
  by unfold_locales (auto simp: list_views intro: quiet)

interpretation epollers: blockers "epoll_tryUnblock host" eb_thread epollWaitBlockers "\<lambda>bs. epollWaitBlockers_update (\<lambda>_. bs)"
  by unfold_locales (auto simp: list_views intro: quiet)

interpretation futexes: blockers "futex_tryUnblock ptr" fb_thread futexBlockers "\<lambda>bs. futexBlockers_update (\<lambda>_. bs)"
  by unfold_locales (auto simp: list_views intro: quiet)

interpretation parents: blockers "wait_tryUnblock host" wb_thread waitBlockers "\<lambda>bs. waitBlockers_update (\<lambda>_. bs)"
  by unfold_locales (auto simp: list_views intro: quiet)

interpretation readers: blockers "read_tryUnblock host" rb_thread readBlockers "\<lambda>bs. readBlockers_update (\<lambda>_. bs)"
  by unfold_locales (auto simp: list_views intro: quiet)

interpretation vm_waiters: blockers vm_tryUnblock "\<lambda>t. t" vmReleaseBlockers "\<lambda>bs. vmReleaseBlockers_update (\<lambda>_. bs)"
  by unfold_locales (auto simp: list_views vm_tryUnblock_def filter_mset_eq_conv intro: quiet)


lemmas lists_free = sleepers.unblock_list_frees pollers.unblock_list_frees selectors.unblock_list_frees
  epollers.unblock_list_frees futexes.unblock_list_frees parents.unblock_list_frees
  readers.unblock_list_frees vm_waiters.unblock_list_frees

lemma timers_free: "frees (d, k\<lparr>ktimers := ts\<rparr>) r \<Longrightarrow> frees (d, k) r"
  using frees_trans [OF same_frees [OF same_simps(4)]] .

lemma tryUnblockThreads_frees: "tryUnblockThreads host k = Inr r \<Longrightarrow> frees (False, k) r"
  unfolding tryUnblockThreads_def
  apply (rule timers_free)
  apply (erule frees_rbind)
   apply (erule lists_free)
  apply (simp only: split_paired_all case_prod_conv)
  apply (rule timers_free)
  apply (erule frees_rbind, erule lists_free)+
  apply (erule lists_free)
  done

section \<open>Handlers that leave the scheduler alone\<close>

lemma fds_call_same [quiet]: "fds_call f t k = Inr (r, k') \<Longrightarrow> same_sched k k'"
  by (auto simp: fds_call_def rbind_eq_Inr intro: quiet)

lemma fs_call_same [quiet]: "fs_call f t k = Inr (r, k') \<Longrightarrow> same_sched k k'"
  by (auto simp: fs_call_def rbind_eq_Inr intro: quiet)

lemma return_buffer_same [quiet]: "return_buffer p b t k = Inr (r, k') \<Longrightarrow> same_sched k k'"
  by (auto simp: return_buffer_def rbind_eq_Inr split: errno_or.split_asm intro: quiet)

lemma file_calls_same:
  "sys_write fd buf n t k = Inr (r, k') \<Longrightarrow> same_sched k k'"
  "sys_close fd t k = Inr (r, k') \<Longrightarrow> same_sched k k'"
  "sys_lseek fd offset w t k = Inr (r, k') \<Longrightarrow> same_sched k k'"
  "sys_pwrite64 fd buf n offset t k = Inr (r, k') \<Longrightarrow> same_sched k k'"
  "sys_writev fd iov cnt t k = Inr (r, k') \<Longrightarrow> same_sched k k'"
  "sys_dup fd t k = Inr (r, k') \<Longrightarrow> same_sched k k'"
  "sys_dup2 fd fd' t k = Inr (r, k') \<Longrightarrow> same_sched k k'"
  "sys_dup3 fd fd' flags t k = Inr (r, k') \<Longrightarrow> same_sched k k'"
  "sys_eventfd2 v flags t k = Inr (r, k') \<Longrightarrow> same_sched k k'"
  "sys_epoll_create1 flags t k = Inr (r, k') \<Longrightarrow> same_sched k k'"
  "sys_memfd_create name flags t k = Inr (r, k') \<Longrightarrow> same_sched k k'"
  "sys_fcntl fd cmd a t k = Inr (r, k') \<Longrightarrow> same_sched k k'"
  "sys_flock fd flags t k = Inr (r, k') \<Longrightarrow> same_sched k k'"
  "sys_ftruncate fd n t k = Inr (r, k') \<Longrightarrow> same_sched k k'"
  "sys_fallocate fd flags offset n t k = Inr (r, k') \<Longrightarrow> same_sched k k'"
  "sys_epoll_ctl fd op fd2 ev t k = Inr (r, k') \<Longrightarrow> same_sched k k'"
  by (auto simp: sys_write_def sys_close_def sys_lseek_def sys_pwrite64_def sys_writev_def sys_dup_def sys_dup2_def
      sys_dup3_def sys_eventfd2_def sys_epoll_create1_def sys_memfd_create_def sys_fcntl_def sys_flock_def
      sys_ftruncate_def sys_fallocate_def sys_epoll_ctl_def rbind_eq_Inr split: option.split_asm intro: quiet)

lemma buffer_calls_same:
  "sys_pread64 fd buf n offset t k = Inr (r, k') \<Longrightarrow> same_sched k k'"
  "sys_readv fd iov cnt t k = Inr (r, k') \<Longrightarrow> same_sched k k'"
  "sys_pipe2 p flags t k = Inr (r, k') \<Longrightarrow> same_sched k k'"
  "sys_pipe p t k = Inr (r, k') \<Longrightarrow> same_sched k k'"
  by (auto simp: sys_pread64_def sys_readv_def sys_pipe2_def sys_pipe_def rbind_eq_Inr Let_def split: if_splits
      intro: same_trans [OF same_simps(3) return_buffer_same] same_trans [OF same_simps(5) copy_out_same]
        same_trans [OF same_simps(3) same_simps(2)] same_simps(3))

lemma memory_calls_same:
  "sys_mprotect host a n p t k = Inr (r, k') \<Longrightarrow> same_sched k k'"
  "sys_munmap host a n t k = Inr (r, k') \<Longrightarrow> same_sched k k'"
  "sys_brk host a t k = Inr (r, k') \<Longrightarrow> same_sched k k'"
  "sys_mincore a n v t k = Inr (r, k') \<Longrightarrow> same_sched k k'"
  "sys_madvise t k = Inr (r, k') \<Longrightarrow> same_sched k k'"
  "sys_getrandom a n t k = Inr (r, k') \<Longrightarrow> same_sched k k'"
  by (auto simp: sys_mprotect_def sys_munmap_def sys_brk_def sys_mincore_def sys_madvise_def sys_getrandom_def
      rbind_eq_Inr intro: quiet)

lemma time_calls_same:
  "sys_time p t k = Inr (r, k') \<Longrightarrow> same_sched k k'"
  "sys_gettimeofday tv tz t k = Inr (r, k') \<Longrightarrow> same_sched k k'"
  "sys_clock_gettime i p t k = Inr (r, k') \<Longrightarrow> same_sched k k'"
  "sys_clock_getres p t k = Inr (r, k') \<Longrightarrow> same_sched k k'"
  by (auto simp: sys_time_def sys_gettimeofday_def sys_clock_gettime_def sys_clock_getres_def rbind_eq_Inr Let_def
      case_prod_beta split: if_splits
      intro: quiet same_trans [OF copy_out_same copy_out_same] same_trans [OF same_simps(4) copy_out_same])

lemma thread_calls_same:
  "sys_sched_yield t k = Inr (r, k') \<Longrightarrow> same_sched k k'"
  "sys_getpid t k = Inr (r, k') \<Longrightarrow> same_sched k k'"
  "sys_gettid t k = Inr (r, k') \<Longrightarrow> same_sched k k'"
  "sys_arch_prctl c a t k = Inr (r, k') \<Longrightarrow> same_sched k k'"
  "sys_set_tid_address a t k = Inr (r, k') \<Longrightarrow> same_sched k k'"
  by (auto simp: sys_sched_yield_def sys_getpid_def sys_gettid_def sys_arch_prctl_def sys_set_tid_address_def
      split: if_splits intro: quiet)

section \<open>Handlers that may block\<close>

lemma same_then_step: "same_sched k k1 \<Longrightarrow> kernel_step k1 k2 \<Longrightarrow> kernel_step k k2"
  using kernel_step_trans same_kernel_step by blast

lemma step_then_same: "kernel_step k k1 \<Longrightarrow> same_sched k1 k2 \<Longrightarrow> kernel_step k k2"
  using kernel_step_trans same_kernel_step by blast

lemma wait_after_same:
  assumes "calling t k" "same_sched k k1"
  shows "sched_sleep t timer target k1 = Inr k' \<Longrightarrow> kernel_step k k'"
    "futex_wait host a t w e timeout k1 = Inr k' \<Longrightarrow> kernel_step k k'"
    "sched_poll t p n ms k1 = Inr k' \<Longrightarrow> kernel_step k k'"
    "sched_select host t nfds r w' e' tv k1 = Inr k' \<Longrightarrow> kernel_step k k'"
    "sched_epoll_wait t epfd evs m ms k1 = Inr k' \<Longrightarrow> kernel_step k k'"
    "sched_wait4 t i ws k1 = Inr k' \<Longrightarrow> kernel_step k k'"
    "sched_blockingRead t fd buf cnt k1 = Inr k' \<Longrightarrow> kernel_step k k'"
    "suspendUntilVmReleased t k1 = Inr k' \<Longrightarrow> kernel_step k k'"
proof -
  have c: "calling t k1" using assms by (simp add: same_calling)
  note w = same_then_step [OF assms(2)]
  show "sched_sleep t timer target k1 = Inr k' \<Longrightarrow> kernel_step k k'" by (rule w [OF wait_steps(1) [OF c]])
  show "futex_wait host a t w e timeout k1 = Inr k' \<Longrightarrow> kernel_step k k'" by (rule w [OF wait_steps(2) [OF c]])
  show "sched_poll t p n ms k1 = Inr k' \<Longrightarrow> kernel_step k k'" by (rule w [OF wait_steps(3) [OF c]])
  show "sched_select host t nfds r w' e' tv k1 = Inr k' \<Longrightarrow> kernel_step k k'" by (rule w [OF wait_steps(4) [OF c]])
  show "sched_epoll_wait t epfd evs m ms k1 = Inr k' \<Longrightarrow> kernel_step k k'" by (rule w [OF wait_steps(5) [OF c]])
  show "sched_wait4 t i ws k1 = Inr k' \<Longrightarrow> kernel_step k k'" by (rule w [OF wait_steps(6) [OF c]])
  show "sched_blockingRead t fd buf cnt k1 = Inr k' \<Longrightarrow> kernel_step k k'" by (rule w [OF wait_steps(7) [OF c]])
  show "suspendUntilVmReleased t k1 = Inr k' \<Longrightarrow> kernel_step k k'" by (rule w [OF wait_steps(8) [OF c]])
qed

lemma sys_read_step:
  assumes "calling t k" "sys_read fd buf n t k = Inr (r, k')"
  shows "kernel_step k k'"
proof -
  obtain v s where v: "fs_read (descriptor_of fd t k) (unat n) (kfs k) = Inr (v, s)"
    using assms(2) by (auto simp: sys_read_def rbind_eq_Inr)
  show ?thesis
    using assms v by (cases v)
      (auto simp: sys_read_def rbind_eq_Inr Let_def intro: wait_after_same(7) [OF assms(1) same_simps(3)]
        same_kernel_step [OF same_trans [OF same_simps(3) return_buffer_same]])
qed

lemma file_wait_steps:
  assumes "calling t k"
  shows "sys_poll p n ms t k = Inr (r, k') \<Longrightarrow> kernel_step k k'"
    "sys_ppoll p m tmo sig t k = Inr (r, k') \<Longrightarrow> kernel_step k k'"
    "sys_select host nfds rs ws es tv t k = Inr (r, k') \<Longrightarrow> kernel_step k k'"
    "sys_epoll_wait epfd ptr m ms t k = Inr (r, k') \<Longrightarrow> kernel_step k k'"
  subgoal by (auto simp: sys_poll_def rbind_eq_Inr split: if_splits
        intro: wait_after_same(3) [OF assms same_refl] same_kernel_step quiet)
  subgoal by (auto simp: sys_ppoll_def rbind_eq_Inr Let_def case_prod_beta
        intro: wait_after_same(3) [OF assms same_simps(4)])
  subgoal by (auto simp: sys_select_def rbind_eq_Inr Let_def case_prod_beta split: if_splits
        intro: wait_after_same(4) [OF assms same_simps(4)] same_kernel_step same_simps(4)
          same_trans [OF same_simps(4) same_simps(2)])
  subgoal by (auto simp: sys_epoll_wait_def rbind_eq_Inr Let_def split: if_splits
        intro: wait_after_same(5) [OF assms same_refl] same_kernel_step quiet)
  done

lemma sys_clock_nanosleep_step:
  assumes "calling t k" "sys_clock_nanosleep i flags req t k = Inr (r, k')"
  shows "kernel_step k k'"
proof -
  obtain n ts where g: "getOrTryCreate i (ktimers k) = (n, ts)" by (cases "getOrTryCreate i (ktimers k)")
  from assms(2) g obtain d where "readRelativeTimespec req (mmu_of t (k\<lparr>ktimers := ts\<rparr>)) = Inr d"
    by (auto simp: sys_clock_nanosleep_def rbind_eq_Inr Let_def)
  with assms(2) g show ?thesis
    by (cases d) (auto simp: sys_clock_nanosleep_def rbind_eq_Inr Let_def
        intro: wait_after_same(1) [OF assms(1) same_simps(4)] same_kernel_step same_simps(4))
qed

lemma sys_futex_wait_step:
  assumes "calling t k" "sys_futex_wait host bitset uaddr v timeout t k = Inr (r, k')"
  shows "kernel_step k k'"
  using assms(2)
  by (auto simp: sys_futex_wait_def sched_wait_def sched_waitBitset_def rbind_eq_Inr Let_def case_prod_beta
      split: if_splits intro: wait_after_same(2) [OF assms(1) same_simps(4)])

lemma sys_futex_step:
  assumes "calling t k" "sys_futex host uaddr fop v timeout uaddr2 v3 t k = Inr (r, k')"
  shows "kernel_step k k'"
  using assms(2)
  by (auto simp: sys_futex_def rbind_eq_Inr Let_def split: if_splits
      intro: sys_futex_wait_step [OF assms(1)] wake_step wakeOp_step)

lemma sys_wait4_step:
  assumes "calling t k" "sys_wait4 i ws options rusage t k = Inr (r, k')"
  shows "kernel_step k k'"
proof (cases "flag_test options 2 \<and> children (kprocesses k (current_process t k)) \<noteq> []")
  case True
  with assms(2) obtain c k1 where c: "tryRetrieveExitedChild (current_process t k) k = Inr (c, k1)"
    by (auto simp: sys_wait4_def rbind_eq_Inr Let_def split: if_splits)
  with assms(2) True show ?thesis
    by (cases c) (auto simp: sys_wait4_def rbind_eq_Inr Let_def split: if_splits
        intro: wait_after_same(6) [OF assms(1) retrieve_same(2)] same_kernel_step retrieve_same(2))
next
  case False
  with assms(2) show ?thesis
    by (auto simp: sys_wait4_def rbind_eq_Inr Let_def split: if_splits
        intro: wait_after_same(6) [OF assms(1) same_refl])
qed

section \<open>Handlers that end threads\<close>

lemma notifyChildExited_same [quiet]: "notifyChildExited p c status sig k = Inr k' \<Longrightarrow> same_sched k k'"
  by (auto simp: notifyChildExited_def rbind_eq_Inr Let_def intro: quiet)

lemma notifyExit_same [quiet]:
  assumes "notifyExit p status sig k = Inr k'"
  shows "same_sched k k'"
proof -
  from assms obtain table s where c: "closeAll (fds (kprocesses k p)) (kfs k) = Inr (table, s)"
    by (auto simp: notifyExit_def rbind_eq_Inr)
  define k1 where "k1 = put_process p ((kprocesses k p)\<lparr>fds := table\<rparr>) (k\<lparr>kfs := s\<rparr>)"
  have s: "same_sched k k1" unfolding k1_def by (rule same_trans [OF same_simps(3) same_simps(1)])
  have "k' = k1 \<or> (\<exists>q. notifyChildExited q p status sig k1 = Inr k')"
    using assms c by (auto simp: notifyExit_def k1_def Let_def split: option.split_asm)
  then show ?thesis using s same_trans notifyChildExited_same by blast
qed

lemma exit_steps:
  "sys_exit host status t k = Inr (r, k') \<Longrightarrow> kernel_step k k'"
  "sys_exit_group host status t k = Inr (r, k') \<Longrightarrow> kernel_step k k'"
  "sys_tgkill host i j t k = Inr (r, k') \<Longrightarrow> kernel_step k k'"
  subgoal by (auto simp: sys_exit_def rbind_eq_Inr intro: terminate_step)
  subgoal by (auto simp: sys_exit_group_def terminateGroup_def rbind_eq_Inr
        intro!: step_then_same [OF terminate_all_step notifyExit_same])
  subgoal by (auto simp: sys_tgkill_def sched_kill_def rbind_eq_Inr intro: terminate_all_step)
  done

section \<open>Cloning\<close>

text \<open>A thread that exists but is not yet known to the scheduler.\<close>

definition fresh :: "nat \<Rightarrow> kernel \<Rightarrow> bool" where
  "fresh c k \<longleftrightarrow> c < nextThread k \<and> c \<notin> set (schedThreads k) \<and> c \<notin> set (vmReleaseBlockers k)"

lemma same_fresh: "same_sched k k' \<Longrightarrow> fresh c k' = fresh c k"
  by (simp add: fresh_def same_views)

lemma addThread_step:
  assumes "fresh c k"
  shows "kernel_step k (sched_addThread c k)"
proof -
  let ?k = "sched_addThread c k"
  have v: "waiters ?k = waiters k"
    using assms unfolding waiters_def plain_waiters_def fresh_def
    by (auto simp: sched_addThread_def intro!: filter_mset_cong)
  show ?thesis
    using assms by (auto simp: kernel_step_def queue_inv_def v fresh_def)
      (auto simp: sched_addThread_def thread_view_def intro!: exI [of _ "\<lambda>_. True"])
qed

lemma allocatedId_same [quiet]:
  "allocatedPid k = Inr (i, k') \<Longrightarrow> same_sched k k'" "allocatedTid k = Inr (i, k') \<Longrightarrow> same_sched k k'"
  by (auto simp: allocatedPid_def allocatedTid_def allocatedId_def rbind_eq_Inr same_sched_def list_views
      split: if_splits)

lemma process_addThread_step:
  assumes "process_addThread p k = Inr (c, k')" "queue_inv k"
  shows "kernel_step k k'" "fresh c k'" "schedThreads k' = schedThreads k" "vmReleaseBlockers k' = vmReleaseBlockers k"
    "c \<notin> set (schedThreads k)" "blockedThreads k' = blockedThreads k" "nextThread k' = Suc c"
proof -
  from assms(1) obtain i k1 where
    a: "(if proc_threads (kprocesses k p) = [] then Inr (pid (kprocesses k p), k) else allocatedTid k) = Inr (i, k1)"
    by (auto simp: process_addThread_def rbind_eq_Inr)
  have s: "same_sched k k1" using a by (auto split: if_splits intro: quiet)
  define x where "x = new_thread p (pid (kprocesses k1 p)) i"
  have c: "c = nextThread k1" and k': "k' = put_process p ((kprocesses k1 p)\<lparr>proc_threads := proc_threads (kprocesses k1 p) @ [c]\<rparr>)
      ((put_thread c x k1)\<lparr>nextThread := Suc c\<rparr>)"
    using assms(1) a by (auto simp: process_addThread_def rbind_eq_Inr Let_def x_def)
  have q: "queue_inv k1" using assms(2) s by (simp add: same_queue_inv)
  show "fresh c k'" "schedThreads k' = schedThreads k" "vmReleaseBlockers k' = vmReleaseBlockers k"
    "c \<notin> set (schedThreads k)" "blockedThreads k' = blockedThreads k" "nextThread k' = Suc c"
    using q same_views [OF s]
    by (auto simp: fresh_def k' c queue_inv_def put_process_def put_thread_def)
  have "kernel_step k1 k'"
    using q by (auto simp: kernel_step_def k' c queue_inv_def waiters_def plain_waiters_def put_process_def put_thread_def
        thread_view_def x_def new_thread_def thread_time_init_def intro!: exI [of _ "\<lambda>_. True"])
  then show "kernel_step k k'" by (rule same_then_step [OF s])
qed

lemma store_same [quiet]:
  "same_sched k (k\<lparr>kspaces := sp, nextSpace := n\<rparr>)"
  "same_sched k (k\<lparr>kfs := s, kspaces := sp, nextProcess := n\<rparr>)"
  by (auto simp: same_sched_def list_views)

lemma notifyChildCreated_same [quiet]: "same_sched k (notifyChildCreated p c k)"
  by (simp add: notifyChildCreated_def quiet)

lemma process_clone_same [quiet]:
  assumes "process_clone host new_space p share k = Inr (q, k')"
  shows "same_sched k k'"
proof -
  obtain sp k0 where k0: "(if share then (space (kprocesses k p), k)
                     else (nextSpace k, k\<lparr>kspaces := (kspaces k)(nextSpace k := new_space (nextSpace k)),
                                          nextSpace := Suc (nextSpace k)\<rparr>)) = (sp, k0)" by fastforce
  then have "same_sched k k0" by (auto split: if_splits intro: quiet)
  also from assms k0 obtain i k1 s spaces child where k1: "allocatedPid k0 = Inr (i, k1)"
    and k': "k' = notifyChildCreated p q (put_process q child (k1\<lparr>kfs := s, kspaces := spaces, nextProcess := Suc q\<rparr>))"
    by (auto simp: process_clone_def rbind_eq_Inr Let_def)
  have "same_sched k0 k1" using k1 by (rule allocatedId_same)
  also have "same_sched k1 k'" unfolding k'
    by (rule same_trans [OF store_same(2) same_trans [OF same_simps(1) notifyChildCreated_same]])
  finally show ?thesis .
qed

lemma set_thread_same:
  "same_sched k (put_thread c (reportInfoFrom x (kthreads k c)) k)"
  "same_sched k (update_thread c (\<lambda>x. x\<lparr>saved_regs := r, fsBase := f x, clearChildTid := g x\<rparr>) k)"
  by (auto simp: update_thread_def reportInfoFrom_def thread_view_def put_thread_def Let_def
      intro!: put_thread_same [unfolded put_thread_def])

lemma clone_quiet [quiet]:
  "name_region a s t k = Inr k' \<Longrightarrow> same_sched k k'"
  "write_tid p c t k = Inr k' \<Longrightarrow> same_sched k k'"
  by (auto simp: name_region_def write_tid_def rbind_eq_Inr intro: quiet)

lemma init_child_same [quiet]:
  assumes "init_child c flags stack ctid tls t k = Inr k'"
  shows "same_sched k k'"
proof -
  from assms obtain k1 r f g where
    "set_rax c 0 (put_thread c (reportInfoFrom (kthreads k t) (kthreads k c)) k) = Inr k1"
    "k' = update_thread c (\<lambda>x. x\<lparr>saved_regs := r, fsBase := f x, clearChildTid := g x\<rparr>) k1"
    by (auto simp: init_child_def rbind_eq_Inr)
  then show ?thesis
    using same_trans [OF set_thread_same(1) same_trans [OF set_rax_same set_thread_same(2)]] by blast
qed

lemma suspend_fresh:
  assumes "suspendUntilVmReleased t k = Inr k'" "fresh c k" "t \<in> set (schedThreads k)"
  shows "fresh c k'"
proof -
  from assms(1) obtain k1 where k1: "k' = update_thread t thread_yield k1" "schedThreads k1 = schedThreads k"
    "vmReleaseBlockers k1 = vmReleaseBlockers k @ [t]" "nextThread k1 = nextThread k"
    by (auto simp: suspendUntilVmReleased_def block_and_yield_def block_def rbind_eq_Inr)
  show ?thesis using assms(2,3) same_views [OF update_same(1) [of k1 t]] by (auto simp: fresh_def k1)
qed

lemma clone_task_step:
  assumes "calling t k" "clone_task host new_space flags t k = Inr (r, k')"
  shows "kernel_step k k'" "r = Some c \<Longrightarrow> fresh c k'"
proof -
  have q: "queue_inv k" using assms(1) by (simp add: calling_def)
  have "kernel_step k k' \<and> (r = Some c \<longrightarrow> fresh c k')"
  proof (cases "has_flag flags CLONE_THREAD")
    case True
    with assms(2) obtain d where "process_addThread (current_process t k) k = Inr (d, k')" "r = Some d"
      by (auto simp: clone_task_def rbind_eq_Inr)
    with process_addThread_step [OF _ q] show ?thesis by blast
  next
    case False
    with assms(2) obtain p k1 where k1: "process_clone host new_space (current_process t k) (has_flag flags CLONE_VM) k = Inr (p, k1)"
      by (auto simp: clone_task_def rbind_eq_Inr)
    have s: "same_sched k k1" using k1 by (rule process_clone_same)
    have q1: "queue_inv k1" using q s by (simp add: same_queue_inv)
    show ?thesis
    proof (cases "checkCloneFlagsFork flags")
      case True
      with assms(2) False k1 obtain d k2 where k2: "process_addThread p k1 = Inr (d, k2)" "r = Some d"
        "(if has_flag flags CLONE_VFORK then suspendUntilVmReleased t k2 else Inr k2) = Inr k'"
        by (auto simp: clone_task_def rbind_eq_Inr)
      note a = process_addThread_step [OF k2(1) q1]
      have st: "kernel_step k k2" using same_then_step [OF s a(1)] .
      have t: "calling t k2" "t \<in> set (schedThreads k2)"
        using assms(1) st a(3,6) same_views [OF s] by (auto simp: calling_def kernel_step_def)
      show ?thesis
      proof (cases "has_flag flags CLONE_VFORK")
        case True
        with k2 wait_steps(8) [OF t(1)] suspend_fresh [OF _ a(2) t(2)] kernel_step_trans [OF st] show ?thesis by auto
      qed (use k2 st a(2) in auto)
    next
      case False
      with assms(2) \<open>\<not> has_flag flags CLONE_THREAD\<close> k1 have "k' = k1" "r = None"
        by (auto simp: clone_task_def rbind_eq_Inr)
      with s show ?thesis by (simp add: same_kernel_step)
    qed
  qed
  then show "kernel_step k k'" "r = Some c \<Longrightarrow> fresh c k'" by blast+
qed

lemma finish_clone:
  assumes "calling t k" "clone_task host new_space flags t k = Inr (Some c, k1)" "same_sched k1 k2"
  shows "kernel_step k (sched_addThread c k2)"
proof -
  have "fresh c k2" using clone_task_step(2) [OF assms(1,2) refl] assms(3) by (simp add: same_fresh)
  then show ?thesis
    using kernel_step_trans [OF clone_task_step(1) [OF assms(1,2)] same_then_step [OF assms(3) addThread_step]] by blast
qed

lemma write_tid_if_same: "(if b then write_tid p c t k else Inr k) = Inr k' \<Longrightarrow> same_sched k k'"
  by (auto split: if_splits intro: quiet)

lemma sys_clone_step:
  assumes "calling t k" "sys_clone host new_space flags stack ptid ctid tls t k = Inr (r, k')"
  shows "kernel_step k k'"
proof -
  from assms(2) obtain ch k1 where k1: "clone_task host new_space flags t k = Inr (ch, k1)"
    by (auto simp: sys_clone_def rbind_eq_Inr)
  show ?thesis
  proof (cases ch)
    case None
    with assms(2) k1 clone_task_step(1) [OF assms(1) k1] show ?thesis by (simp add: sys_clone_def)
  next
    case (Some c)
    with assms(2) k1 obtain m k2 k3 k4 k5 k6 where
      k: "open_mmu host c k1 = Inr (m, k2)"
        "init_child c flags (if stack \<noteq> 0 then Some stack else None) ctid tls t k2 = Inr k3"
        "name_region stack (stack_name (tid (kthreads k3 c))) c k3 = Inr k4"
        "(if ctid \<noteq> 0 \<and> has_flag flags CLONE_CHILD_SETTID then write_tid ctid c c k4 else Inr k4) = Inr k5"
        "(if ptid \<noteq> 0 \<and> has_flag flags CLONE_PARENT_SETTID then write_tid ptid c t k5 else Inr k5) = Inr k6"
        "k' = sched_addThread c k6"
      by (auto simp: sys_clone_def rbind_eq_Inr simp del: split_paired_Ex)
    have "same_sched k1 k6"
      using open_mmu_same [OF k(1)] init_child_same [OF k(2)] clone_quiet(1) [OF k(3)]
        write_tid_if_same [OF k(4)] write_tid_if_same [OF k(5)] by (meson same_trans)
    then show ?thesis unfolding k(6) using finish_clone [OF assms(1) k1 [unfolded Some]] by blast
  qed
qed

lemma sys_clone3_step:
  assumes "calling t k" "sys_clone3 host new_space uargs sz t k = Inr (r, k')"
  shows "kernel_step k k'"
proof -
  from assms(2) obtain flags ch k1 stack ctid tls where k1: "clone_task host new_space flags t k = Inr (ch, k1)"
    and rest: "(case ch of None \<Rightarrow> Inr (word_of_int (- ENOTSUP), k1)
      | Some c \<Rightarrow>
          rbind (open_mmu host c k1) (\<lambda>(_, k).
          rbind (init_child c flags (Some stack) ctid tls t k) (\<lambda>k.
          rbind (name_region (stack - 8) (stack_name (tid (kthreads k c))) t k) (\<lambda>k.
          rbind (if ctid \<noteq> 0 \<and> has_flag flags CLONE_CHILD_SETTID then write_tid ctid c c k else Inr k) (\<lambda>k.
          rbind (if ctid \<noteq> 0 then write_tid ctid c t k else Inr k) (\<lambda>k.
          Inr (word_of_int (tid (kthreads k c)), sched_addThread c k))))))) = Inr (r, k')"
    unfolding sys_clone3_def Let_def rbind_eq_Inr split_paired_Ex case_prod_conv by blast
  show ?thesis
  proof (cases ch)
    case None
    with rest clone_task_step(1) [OF assms(1) k1] show ?thesis by simp
  next
    case (Some c)
    with rest obtain m k2 k3 k4 k5 k6 where
      k: "open_mmu host c k1 = Inr (m, k2)"
        "init_child c flags (Some stack) ctid tls t k2 = Inr k3"
        "name_region (stack - 8) (stack_name (tid (kthreads k3 c))) t k3 = Inr k4"
        "(if ctid \<noteq> 0 \<and> has_flag flags CLONE_CHILD_SETTID then write_tid ctid c c k4 else Inr k4) = Inr k5"
        "(if ctid \<noteq> 0 then write_tid ctid c t k5 else Inr k5) = Inr k6"
        "k' = sched_addThread c k6"
      by (auto simp: rbind_eq_Inr simp del: split_paired_Ex)
    have "same_sched k1 k6"
      using open_mmu_same [OF k(1)] init_child_same [OF k(2)] clone_quiet(1) [OF k(3)]
        write_tid_if_same [OF k(4)] write_tid_if_same [OF k(5)] by (meson same_trans)
    then show ?thesis unfolding k(6) using finish_clone [OF assms(1) k1 [unfolded Some]] by blast
  qed
qed

section \<open>Executing a program\<close>

lemma spaces_same [quiet]: "same_sched k (k\<lparr>kspaces := sp\<rparr>)"
  by (auto simp: same_sched_def list_views)

lemma prepareExec_same [quiet]: "prepareExec host new_space p k = Inr k' \<Longrightarrow> same_sched k k'"
  by (auto simp: prepareExec_def rbind_eq_Inr Let_def intro: same_trans [OF store_same(1) same_simps(1)])

lemma exec_image_step:
  assumes "exec_image host new_space build p k = Inr k'" "queue_inv k"
  shows "kernel_step k k'"
proof -
  from assms(1) obtain k1 k2 sp r c k3 where
    k: "terminateGroup host p 0 k = Inr k1" "prepareExec host new_space p k1 = Inr k2"
      "process_addThread p (k2\<lparr>kspaces := sp\<rparr>) = Inr (c, k3)"
      "k' = sched_addThread c (update_thread c (\<lambda>x. x\<lparr>saved_regs := r\<rparr>) k3)"
    by (auto simp: exec_image_def rbind_eq_Inr)
  have st: "kernel_step k k1" using k(1) by (auto simp: terminateGroup_def rbind_eq_Inr intro: terminate_all_step)
  have same: "same_sched k1 (k2\<lparr>kspaces := sp\<rparr>)" using prepareExec_same [OF k(2)] spaces_same by (rule same_trans)
  have "queue_inv (k2\<lparr>kspaces := sp\<rparr>)" using st same assms(2) by (simp add: kernel_step_def same_queue_inv)
  note a = process_addThread_step [OF k(3) this]
  have "fresh c (update_thread c (\<lambda>x. x\<lparr>saved_regs := r\<rparr>) k3)" using a(2) same_fresh [OF update_same(2)] by blast
  then have "kernel_step k3 k'" unfolding k(4) by (rule same_then_step [OF update_same(2) addThread_step])
  then show ?thesis using kernel_step_trans [OF st same_then_step [OF same a(1)]] kernel_step_trans by blast
qed

lemma sys_execve_step:
  assumes "calling t k" "sys_execve host new_space load path argv envp t k = Inr (r, k')"
  shows "kernel_step k k'"
proof -
  from assms(2) obtain image where
    "(case image of Errno e \<Rightarrow> Inr (word_of_int e, k)
      | Value build \<Rightarrow> rbind (exec_image host new_space build (current_process t k) k) (\<lambda>k. Inr (0, k))) = Inr (r, k')"
    by (auto simp: sys_execve_def rbind_eq_Inr)
  then show ?thesis
    using assms(1) by (cases image) (auto simp: rbind_eq_Inr calling_def intro: exec_image_step)
qed

section \<open>The dispatcher\<close>

lemma table_step:
  assumes "(n, f) \<in> set (syscall_table host new_space load a)" "calling t k" "f t k = Inr (r, k')"
  shows "kernel_step k k'"
  using assms unfolding syscall_table_def Let_def
  by (auto intro: same_kernel_step file_calls_same buffer_calls_same memory_calls_same time_calls_same
      thread_calls_same sys_read_step file_wait_steps sys_clock_nanosleep_step sys_futex_step sys_wait4_step
      exit_steps sys_clone_step sys_clone3_step sys_execve_step simp: sys_fork_def)

end
