(* ===== verification/X64_SchedReach.thy ===== *)
theory X64_SchedReach
  imports X64_SysInv
begin

text \<open>
  The scheduler with its workers: \<^verbatim>\<open>Scheduler::runOnWorkerThread\<close> of several host threads,
  interleaved at the scheduler's mutex, and the invariant of every state that can be reached.

  A worker is idle, has picked a job, runs a thread in user space, is about to leave it, or has
  stopped. The loop of \<^verbatim>\<open>runUserspace\<close> executes the thread until it is asked to stop, and
  \<^verbatim>\<open>VM::execute\<close> returns only then, so its body runs at most once. The execution of
  a thread by the virtual machine is the relation \<open>executes\<close>: it may change anything of that thread
  but its identity, and the memory, and says what \<^verbatim>\<open>VM::execute\<close> of \<^verbatim>\<open>vm.cpp\<close> promises about
  the clock and the two requests of the thread.
\<close>

section \<open>Workers and steps\<close>

datatype worker = Idle | Picked job | Running nat | Leaving nat | Stopped

text \<open>Only the first worker runs system calls and atomic instructions.\<close>

definition createVM :: "nat \<Rightarrow> tagged_vm" where
  "createVM i = \<lparr>canRunSyscalls = (i = 0), canRunAtomics = (i = 0)\<rparr>"

definition executes :: "nat \<Rightarrow> kernel \<Rightarrow> kernel \<Rightarrow> bool" where
  "executes t k k' \<longleftrightarrow>
     (\<exists>x sp. k' = (put_thread t x k)\<lparr>kspaces := sp\<rparr> \<and>
        tprocess x = tprocess (kthreads k t) \<and> tpid x = tpid (kthreads k t) \<and> tid x = tid (kthreads k t) \<and>
        clearChildTid x = clearChildTid (kthreads k t) \<and>
        waitTime (ttime x) = waitTime (ttime (kthreads k t)) \<and>
        unat (waitTime (ttime x)) + unat (nbInstructions (ttime x)) < 2 ^ 64 \<and>
        isStopAsked (ttime x) \<and>
        (if requestsAtomic (kthreads k t) then requestsAtomic x else \<not> (requestsSyscall x \<and> requestsAtomic x)))"

type_synonym workers = "nat \<Rightarrow> worker"

inductive sched_step ::
  "host_mprotect \<Rightarrow> (nat \<Rightarrow> kernel \<Rightarrow> kernel result) \<Rightarrow> nat \<Rightarrow> kernel \<times> workers \<Rightarrow> kernel \<times> workers \<Rightarrow> bool"
  for host sys n where
  pick_job: "i < n \<Longrightarrow> w i = Idle \<Longrightarrow> may_pick (createVM i) k \<Longrightarrow> tryPickNext host (createVM i) k = Inr (Run j, k')
    \<Longrightarrow> sched_step host sys n (k, w) (k', w(i := Picked j))"
| pick_again: "i < n \<Longrightarrow> w i = Idle \<Longrightarrow> may_pick (createVM i) k \<Longrightarrow> tryPickNext host (createVM i) k = Inr (Again, k')
    \<Longrightarrow> sched_step host sys n (k, w) (k', w)"
| pick_wait: "i < n \<Longrightarrow> w i = Idle \<Longrightarrow> may_pick (createVM i) k \<Longrightarrow> tryPickNext host (createVM i) k = Inr (Wait, k')
    \<Longrightarrow> sched_step host sys n (k, w) (k', w)"
| pick_exit: "i < n \<Longrightarrow> w i = Idle \<Longrightarrow> may_pick (createVM i) k \<Longrightarrow> tryPickNext host (createVM i) k = Inr (Exit, k')
    \<Longrightarrow> sched_step host sys n (k, w) (k', w(i := Stopped))"
| run_kernel: "i < n \<Longrightarrow> w i = Picked j \<Longrightarrow> isKernelJob j \<Longrightarrow> \<not> job_atomic j
    \<Longrightarrow> runKernel sys (job_thread j) k = Inr k' \<Longrightarrow> sched_step host sys n (k, w) (k', w(i := Idle))"
| start: "i < n \<Longrightarrow> w i = Picked j \<Longrightarrow> isUserspaceJob j \<Longrightarrow> start_userspace (job_thread j) k = Inr k'
    \<Longrightarrow> sched_step host sys n (k, w) (k', w(i := Running (job_thread j)))"
| sync: "i < n \<Longrightarrow> w i = Running t \<Longrightarrow> \<not> isStopAsked (ttime (kthreads k t))
    \<Longrightarrow> sched_step host sys n (k, w) (syncThreadTimeSlice t k, w)"
| execute: "i < n \<Longrightarrow> w i = Running t \<Longrightarrow> \<not> isStopAsked (ttime (kthreads k t)) \<Longrightarrow> executes t k k'
    \<Longrightarrow> sched_step host sys n (k, w) (k', w(i := Leaving t))"
| stop: "i < n \<Longrightarrow> w i = Running t \<and> isStopAsked (ttime (kthreads k t)) \<or> w i = Leaving t
    \<Longrightarrow> sched_step host sys n (k, w) (stop_userspace t k, w(i := Idle))"
| run_atomic: "i < n \<Longrightarrow> w i = Picked j \<Longrightarrow> isAtomicJob j \<Longrightarrow> start_atomic (job_thread j) k = Inr k1
    \<Longrightarrow> (if isStopAsked (ttime (kthreads k1 (job_thread j))) then k2 = k1
         else executes (job_thread j) (syncThreadTimeSlice (job_thread j) k1) k2)
    \<Longrightarrow> sched_step host sys n (k, w) (stop_atomic (job_thread j) k2, w(i := Idle))"

inductive_cases sched_stepE: "sched_step host sys n a b"

text \<open>The runs in which the emulated clock stays below \<open>2\<^sup>6\<^sup>4\<close> nanoseconds, 584 years.\<close>

inductive sched_reaches ::
  "host_mprotect \<Rightarrow> (nat \<Rightarrow> kernel \<Rightarrow> kernel result) \<Rightarrow> nat \<Rightarrow> kernel \<times> workers \<Rightarrow> kernel \<times> workers \<Rightarrow> bool"
  for host sys n a where
  here: "sched_reaches host sys n a a"
| further: "sched_reaches host sys n a b \<Longrightarrow> sched_step host sys n b c \<Longrightarrow> time_ok (currentTime (fst c))
    \<Longrightarrow> sched_reaches host sys n a c"

section \<open>The invariant\<close>

definition thread_at :: "worker \<Rightarrow> nat option" where
  "thread_at w = (case w of Running t \<Rightarrow> Some t | Leaving t \<Rightarrow> Some t | _ \<Rightarrow> None)"

definition job_at :: "worker \<Rightarrow> job option" where
  "job_at w = (case w of Picked j \<Rightarrow> Some j
     | _ \<Rightarrow> map_option (\<lambda>t. \<lparr>job_thread = t, job_ring = UserspaceRing, job_atomic = False\<rparr>) (thread_at w))"

text \<open>The clock of a thread that does not run lags behind that of the scheduler.\<close>

definition one_request :: "kernel \<Rightarrow> nat \<Rightarrow> bool" where
  "one_request k t \<longleftrightarrow> \<not> (requestsSyscall (kthreads k t) \<and> requestsAtomic (kthreads k t))"

definition thread_clock :: "kernel \<Rightarrow> nat \<Rightarrow> nat" where
  "thread_clock k t = unat (waitTime (ttime (kthreads k t))) + unat (nbInstructions (ttime (kthreads k t)))"

definition rested :: "kernel \<Rightarrow> nat \<Rightarrow> bool" where
  "rested k t \<longleftrightarrow> thread_clock k t \<le> unat (time_count (currentTime k)) \<and> one_request k t"

definition in_flight :: "kernel \<Rightarrow> nat \<Rightarrow> bool" where
  "in_flight k t \<longleftrightarrow> thread_clock k t < 2 ^ 64 \<and> one_request k t"

definition matches_job :: "kernel \<Rightarrow> job \<Rightarrow> bool" where
  "matches_job k j \<longleftrightarrow> j = job_of (job_thread j) k"

definition workers_ok :: "nat \<Rightarrow> kernel \<times> workers \<Rightarrow> bool" where
  "workers_ok n s \<longleftrightarrow> (case s of (k, w) \<Rightarrow>
     (\<forall>j. j \<in> set (runningJobs k) \<longleftrightarrow> (\<exists>i<n. job_at (w i) = Some j)) \<and>
     (\<forall>i<n. \<forall>i'<n. \<forall>j j'. i \<noteq> i' \<and> job_at (w i) = Some j \<and> job_at (w i') = Some j' \<longrightarrow> job_thread j \<noteq> job_thread j') \<and>
     numRunningJobs k = card {i. i < n \<and> thread_at (w i) \<noteq> None} \<and>
     (\<forall>i<n. \<forall>j. w i = Picked j \<and> \<not> isUserspaceJob j \<longrightarrow> i = 0 \<and> runningJobs k = [j]))"

definition clocks_ok :: "nat \<Rightarrow> kernel \<times> workers \<Rightarrow> bool" where
  "clocks_ok n s \<longleftrightarrow> (case s of (k, w) \<Rightarrow>
     (\<forall>t < nextThread k. (\<forall>i<n. thread_at (w i) \<noteq> Some t) \<longrightarrow> rested k t) \<and>
     (\<forall>i<n. \<forall>t. thread_at (w i) = Some t \<longrightarrow> in_flight k t) \<and>
     (\<forall>i<n. \<forall>t. w i = Running t \<longrightarrow> isUserspaceThread (kthreads k t)) \<and>
     (\<forall>i<n. \<forall>j. w i = Picked j \<longrightarrow> matches_job k j))"

definition sched_ok :: "nat \<Rightarrow> kernel \<times> workers \<Rightarrow> bool" where
  "sched_ok n s \<longleftrightarrow> queue_inv (fst s) \<and> \<not> inKernel (fst s) \<and> time_ok (currentTime (fst s)) \<and>
     workers_ok n s \<and> clocks_ok n s"

section \<open>Lists\<close>

lemma first_such_Some: "first_such P xs = Some x \<Longrightarrow> x \<in> set xs \<and> P x"
  by (induction xs) (auto split: if_splits)

lemma first_such_None: "first_such P xs = None \<longleftrightarrow> (\<forall>x \<in> set xs. \<not> P x)"
  by (induction xs) auto

lemma count_such_0 [simp]: "count_such P xs = 0 \<longleftrightarrow> (\<forall>x \<in> set xs. \<not> P x)"
  by (auto simp: count_such_def filter_empty_conv)

lemma remove_first_mset:
  "x \<in> set xs \<Longrightarrow> f x = t \<Longrightarrow> add_mset t (mset (map f (remove_first (\<lambda>y. f y = t) xs))) = mset (map f xs)"
  by (induction xs) auto

lemma remove_first_set:
  "distinct (map f xs) \<Longrightarrow> set (remove_first (\<lambda>y. f y = t) xs) = {y \<in> set xs. f y \<noteq> t}"
  by (induction xs) (auto simp: image_iff dest: sym)

lemma queue_inv_distinct:
  assumes "queue_inv k"
  shows "distinct (map job_thread (runningJobs k) @ runnableThreads k @ blockedThreads k)"
    "set (map job_thread (runningJobs k) @ runnableThreads k @ blockedThreads k) = set (schedThreads k)"
proof -
  have "mset (map job_thread (runningJobs k) @ runnableThreads k @ blockedThreads k) = mset (schedThreads k)"
    using assms by (simp add: queue_inv_def add.assoc)
  note eq = this
  have d: "distinct (schedThreads k)" using assms by (simp add: queue_inv_def)
  show "distinct (map job_thread (runningJobs k) @ runnableThreads k @ blockedThreads k)"
    using mset_eq_imp_distinct_iff [OF eq] d by (rule iffD2)
  show "set (map job_thread (runningJobs k) @ runnableThreads k @ blockedThreads k) = set (schedThreads k)"
    using eq by (rule mset_eq_setD)
qed

lemma stop_queue_inv:
  assumes "queue_inv k"
  shows "queue_inv (stopRunningThread t k)"
    "set (runningJobs (stopRunningThread t k)) = {j \<in> set (runningJobs k). job_thread j \<noteq> t}"
proof -
  have d: "distinct (map job_thread (runningJobs k))" using queue_inv_distinct(1) [OF assms] by simp
  show "set (runningJobs (stopRunningThread t k)) = {j \<in> set (runningJobs k). job_thread j \<noteq> t}"
    using remove_first_set [OF d] by (auto simp: stopRunningThread_def list_ex_iff)
  show "queue_inv (stopRunningThread t k)"
  proof (cases "\<exists>j \<in> set (runningJobs k). job_thread j = t")
    case True
    then have "add_mset t (mset (map job_thread (remove_first (\<lambda>j. job_thread j = t) (runningJobs k))))
        = mset (map job_thread (runningJobs k))" by (elim bexE) (rule remove_first_mset [where f = job_thread])
    moreover have "stopRunningThread t k =
        k\<lparr>runningJobs := remove_first (\<lambda>j. job_thread j = t) (runningJobs k), runnableThreads := runnableThreads k @ [t]\<rparr>"
      using True by (simp add: stopRunningThread_def list_ex_iff)
    moreover have "waiters (k\<lparr>runningJobs := js, runnableThreads := rs\<rparr>) = waiters k" for js rs
      by (simp add: waiters_def plain_waiters_def)
    ultimately show ?thesis using assms by (simp add: queue_inv_def)
  next
    case False
    then have "stopRunningThread t k = k" by (auto simp: stopRunningThread_def list_ex_iff)
    with assms show ?thesis by simp
  qed
qed

section \<open>Picking a job\<close>

definition put_job :: "nat \<Rightarrow> kernel \<Rightarrow> kernel" where
  "put_job t k = k\<lparr>runnableThreads := remove1 t (runnableThreads k), runningJobs := runningJobs k @ [job_of t k]\<rparr>"

text \<open>What a picked job tells: nothing was unblocked, and the thread comes from the runnable ones.\<close>

lemma tryPickNext_run:
  assumes "tryPickNext host vm k = Inr (Run j, k')"
  obtains t k1 where "rest_view k1 = rest_view k" "runnableThreads k1 = runnableThreads k" "queue_inv k \<longrightarrow> queue_inv k1"
    "threadToRun vm k1 = Some t" "t \<in> set (runnableThreads k1)" "j = job_of t k1" "k' = put_job t k1" "may_pick vm k"
proof -
  from assms obtain d k1 where u: "tryUnblockThreads host k = Inr (d, k1)" and "may_pick vm k"
    by (auto simp: tryPickNext_def rbind_eq_Inr split: if_splits)
  from assms u have "\<not> d" "\<not> allThreadsDead k1" "verify (\<not> deadlock k1) = Inr ()"
    by (auto simp: tryPickNext_def rbind_eq_Inr split: if_splits)
  with assms u obtain t where "threadToRun vm k1 = Some t" "t \<in> set (runnableThreads k1)" "j = job_of t k1" "k' = put_job t k1"
    by (auto simp: tryPickNext_def put_job_def rbind_eq_Inr split: if_splits option.split_asm)
  moreover have "frees (False, k) (False, k1)" using tryUnblockThreads_frees [OF u] \<open>\<not> d\<close> by simp
  ultimately show ?thesis using that \<open>may_pick vm k\<close> by (auto simp: frees_def)
qed

lemma tryPickNext_other:
  assumes "tryPickNext host vm k = Inr (c, k')" "\<And>j. c \<noteq> Run j"
  shows "queue_inv k \<Longrightarrow> queue_inv k'" "nextThread k' = nextThread k" "runningJobs k' = runningJobs k"
    "inKernel k' = inKernel k" "numRunningJobs k' = numRunningJobs k" "thread_view k' = thread_view k"
    "currentTime k \<le> currentTime k'"
proof -
  from assms(1) obtain d k1 where u: "tryUnblockThreads host k = Inr (d, k1)"
    by (auto simp: tryPickNext_def rbind_eq_Inr split: if_splits)
  from assms u have k': "k' = k1 \<or> k' = advance_time k1"
    by (auto simp: tryPickNext_def rbind_eq_Inr split: if_splits option.split_asm)
  have f: "rest_view k1 = rest_view k" "queue_inv k \<Longrightarrow> queue_inv k1"
    using tryUnblockThreads_frees [OF u] by (auto simp: frees_def)
  have "queue_inv (advance_time k1) = queue_inv k1"
    by (simp add: queue_inv_def advance_time_def waiters_def plain_waiters_def)
  then show "queue_inv k \<Longrightarrow> queue_inv k'" using k' f(2) by auto
  show "nextThread k' = nextThread k" "runningJobs k' = runningJobs k"
    "inKernel k' = inKernel k" "numRunningJobs k' = numRunningJobs k" "thread_view k' = thread_view k"
    "currentTime k \<le> currentTime k'"
    using k' f(1) by (auto simp: rest_view_def advance_time_def thread_view_def fun_eq_iff)
qed

lemma put_job_queue_inv:
  assumes "queue_inv k" "t \<in> set (runnableThreads k)"
  shows "queue_inv (put_job t k)"
proof -
  have "waiters (put_job t k) = waiters k" by (simp add: waiters_def plain_waiters_def put_job_def)
  moreover have "mset (runnableThreads k) = add_mset t (mset (remove1 t (runnableThreads k)))"
    using assms(2) by simp
  ultimately show ?thesis using assms by (auto simp: queue_inv_def put_job_def job_of_def)
qed

lemma view_flags:
  assumes "thread_view k' = thread_view k"
  shows "requestsSyscall (kthreads k' t) = requestsSyscall (kthreads k t)"
    "requestsAtomic (kthreads k' t) = requestsAtomic (kthreads k t)"
    "waitTime (ttime (kthreads k' t)) = waitTime (ttime (kthreads k t))"
    "nbInstructions (ttime (kthreads k' t)) = nbInstructions (ttime (kthreads k t))"
  using fun_cong [OF assms, of t] by (auto simp: thread_view_def Let_def)

text \<open>Which job a worker may pick, given what runs.\<close>

lemma count_such_pos: "0 < count_such P xs \<longleftrightarrow> (\<exists>x \<in> set xs. P x)"
  using count_such_0 [of P xs] by (auto simp del: count_such_0)

lemma job_kind: "isUserspaceJob j \<or> isAtomicJob j \<or> isKernelJob j"
  by (cases "job_ring j") (auto simp: isUserspaceJob_def isAtomicJob_def isKernelJob_def)

lemma none_such: "(\<forall>x \<in> A. \<not> P x) \<longleftrightarrow> \<not> (\<exists>x \<in> A. P x)"
  by blast

lemma hasRunnableThread_iff:
  "hasRunnableThread s a k \<longleftrightarrow>
     (let S = (\<exists>t \<in> set (runnableThreads k). requestsSyscall (kthreads k t));
          A = (\<exists>t \<in> set (runnableThreads k). isAtomicThread (kthreads k t));
          J = set (runningJobs k)
      in if s \<and> S then \<not> (\<exists>j \<in> J. isUserspaceJob j) \<and> \<not> (\<exists>j \<in> J. isAtomicJob j)
         else if a \<and> ((\<exists>j \<in> J. isKernelJob j) \<or> S) then False
         else if a \<and> A then \<not> (\<exists>j \<in> J. isUserspaceJob j) \<and> \<not> (\<exists>j \<in> J. isKernelJob j)
         else if (((\<exists>j \<in> J. isKernelJob j) \<or> S) \<or> (\<exists>j \<in> J. isAtomicJob j)) \<or> A then False
         else (\<exists>t \<in> set (runnableThreads k). isUserspaceThread (kthreads k t)))"
  unfolding hasRunnableThread_def Let_def add_is_0 count_such_0 add_gr_0 count_such_pos none_such by (rule refl)

lemma threadToRun_kind:
  assumes "threadToRun vm k = Some t"
  shows "isKernelJob (job_of t k) \<longleftrightarrow> canRunSyscalls vm \<and> (\<exists>t \<in> set (runnableThreads k). requestsSyscall (kthreads k t))"
    "isAtomicJob (job_of t k) \<Longrightarrow> isAtomicThread (kthreads k t)"
    "isUserspaceJob (job_of t k) \<Longrightarrow> isUserspaceThread (kthreads k t)"
proof -
  show "isAtomicJob (job_of t k) \<Longrightarrow> isAtomicThread (kthreads k t)"
    "isUserspaceJob (job_of t k) \<Longrightarrow> isUserspaceThread (kthreads k t)"
    by (auto simp: isAtomicJob_def isUserspaceJob_def job_of_def isAtomicThread_def isUserspaceThread_def split: if_splits)
  show "isKernelJob (job_of t k) \<longleftrightarrow> canRunSyscalls vm \<and> (\<exists>t \<in> set (runnableThreads k). requestsSyscall (kthreads k t))"
    using assms
    by (auto simp: threadToRun_def isKernelJob_def job_of_def isAtomicThread_def isUserspaceThread_def first_such_None
        split: if_splits option.split_asm dest!: first_such_Some)
qed

lemma picked_kind:
  assumes "may_pick (createVM i) k" "rest_view k1 = rest_view k" "runnableThreads k1 = runnableThreads k"
    "threadToRun (createVM i) k1 = Some t" "t \<in> set (runnableThreads k1)"
  shows "isKernelJob (job_of t k1) \<Longrightarrow> i = 0 \<and> (\<forall>j \<in> set (runningJobs k). isKernelJob j)"
    "isAtomicJob (job_of t k1) \<Longrightarrow> i = 0 \<and> (\<forall>j \<in> set (runningJobs k). isAtomicJob j)"
    "isUserspaceJob (job_of t k1) \<Longrightarrow> i \<noteq> 0 \<Longrightarrow> \<forall>j \<in> set (runningJobs k). isUserspaceJob j"
proof -
  have v: "thread_view k1 = thread_view k" using assms(2) by (simp add: rest_view_def)
  have run: "hasRunnableThread (i = 0) (i = 0) k"
    using assms(1,3,5) by (auto simp: may_pick_def allThreadsDead_def allThreadsBlocked_def createVM_def)
  have S: "isKernelJob (job_of t k1) \<longleftrightarrow> i = 0 \<and> (\<exists>t \<in> set (runnableThreads k). requestsSyscall (kthreads k t))"
    using threadToRun_kind(1) [OF assms(4)] by (simp add: createVM_def assms(3) view_flags [OF v])
  have A: "isAtomicJob (job_of t k1) \<Longrightarrow> \<exists>t \<in> set (runnableThreads k). isAtomicThread (kthreads k t)"
    using threadToRun_kind(2) [OF assms(4)] assms(3,5) by (auto simp: isAtomicThread_def view_flags [OF v])
  have one: "\<not> (isKernelJob j \<and> isAtomicJob j)" "\<not> (isKernelJob j \<and> isUserspaceJob j)" for j
    by (auto simp: isAtomicJob_def isUserspaceJob_def isKernelJob_def)
  show "i = 0 \<and> (\<forall>j \<in> set (runningJobs k). isKernelJob j)" if "isKernelJob (job_of t k1)"
  proof -
    have "i = 0" "\<forall>j \<in> set (runningJobs k). \<not> isUserspaceJob j \<and> \<not> isAtomicJob j"
      using run S that by (simp_all add: hasRunnableThread_iff Let_def ball_conj_distrib)
    then show ?thesis using job_kind by blast
  qed
  show "i = 0 \<and> (\<forall>j \<in> set (runningJobs k). isAtomicJob j)" if "isAtomicJob (job_of t k1)"
  proof -
    have c: "\<not> (i = 0 \<and> (\<exists>t \<in> set (runnableThreads k). requestsSyscall (kthreads k t)))"
      using S that one(1) by blast
    note R = run [unfolded hasRunnableThread_iff Let_def]
    have "i = 0" using R A [OF that] c by argo
    moreover have "\<not> (\<exists>j \<in> set (runningJobs k). isUserspaceJob j) \<and> \<not> (\<exists>j \<in> set (runningJobs k). isKernelJob j)"
      using R A [OF that] c \<open>i = 0\<close> by argo
    ultimately show ?thesis using job_kind by blast
  qed
  show "\<forall>j \<in> set (runningJobs k). isUserspaceJob j" if "isUserspaceJob (job_of t k1)" "i \<noteq> 0"
  proof -
    have "\<forall>j \<in> set (runningJobs k). \<not> isKernelJob j \<and> \<not> isAtomicJob j"
      using run that(2) by (simp add: hasRunnableThread_iff Let_def ball_conj_distrib split: if_splits)
    then show ?thesis using job_kind by blast
  qed
qed

section \<open>Steps keep the invariant\<close>

lemma at_simps [simp]:
  "thread_at Idle = None" "thread_at (Picked j) = None" "thread_at (Running t) = Some t"
  "thread_at (Leaving t) = Some t" "thread_at Stopped = None"
  "job_at Idle = None" "job_at (Picked j) = Some j" "job_at Stopped = None"
  "job_at (Running t) = Some \<lparr>job_thread = t, job_ring = UserspaceRing, job_atomic = False\<rparr>"
  "job_at (Leaving t) = Some \<lparr>job_thread = t, job_ring = UserspaceRing, job_atomic = False\<rparr>"
  by (simp_all add: thread_at_def job_at_def)

lemma same_view_facts:
  assumes "thread_view k' = thread_view k"
  shows "thread_clock k' t = thread_clock k t" "one_request k' t = one_request k t" "in_flight k' t = in_flight k t"
    "isUserspaceThread (kthreads k' t) = isUserspaceThread (kthreads k t)" "matches_job k' j = matches_job k j"
  by (simp_all add: thread_clock_def one_request_def in_flight_def isUserspaceThread_def matches_job_def job_of_def
      view_flags [OF assms])

lemma later_rested:
  assumes "rested k t" "thread_clock k' t = thread_clock k t" "one_request k' t = one_request k t"
    "currentTime k \<le> currentTime k'" "time_ok (currentTime k)" "time_ok (currentTime k')"
  shows "rested k' t"
  using assms time_count_mono(1) [OF assms(4) _ assms(6)]
  by (auto simp: rested_def time_ok_def word_le_nat_alt)

text \<open>A step that moves no job: the scheduler's clock may advance and an idle worker may stop.\<close>

lemma quiet_step:
  assumes ok: "sched_ok n (k, w)"
    and k: "queue_inv k'" "nextThread k' = nextThread k" "runningJobs k' = runningJobs k"
      "inKernel k' = inKernel k" "numRunningJobs k' = numRunningJobs k" "thread_view k' = thread_view k"
      "currentTime k \<le> currentTime k'" "time_ok (currentTime k')"
    and w: "w' = w \<or> w i0 = Idle \<and> w' = w(i0 := Stopped)"
  shows "sched_ok n (k', w')"
proof -
  have at: "thread_at (w' i) = thread_at (w i)" "job_at (w' i) = job_at (w i)"
    "w' i = Picked j \<longleftrightarrow> w i = Picked j" "w' i = Running t \<longleftrightarrow> w i = Running t" for i t j
    using w by (auto split: if_splits)
  have "workers_ok n (k', w') = workers_ok n (k, w)"
    unfolding workers_ok_def case_prod_conv at k(3,5) by (rule refl)
  then have "workers_ok n (k', w')" using ok by (simp add: sched_ok_def)
  moreover have "clocks_ok n (k', w')"
  proof -
    note same = same_view_facts [OF k(6)]
    have "rested k t \<Longrightarrow> rested k' t" for t
      using ok k by (intro later_rested [of k t k']) (simp_all add: sched_ok_def same)
    then show ?thesis using ok k(2) by (auto simp: sched_ok_def clocks_ok_def at same)
  qed
  ultimately show ?thesis using ok k by (simp add: sched_ok_def)
qed

text \<open>Picking.\<close>

lemma sched_ok_facts:
  assumes "sched_ok n (k, w)"
  shows "queue_inv k" "\<not> inKernel k" "time_ok (currentTime k)" "workers_ok n (k, w)" "clocks_ok n (k, w)"
    "j \<in> set (runningJobs k) \<longleftrightarrow> (\<exists>i<n. job_at (w i) = Some j)"
    "i < n \<Longrightarrow> i' < n \<Longrightarrow> i \<noteq> i' \<Longrightarrow> job_at (w i) = Some j1 \<Longrightarrow> job_at (w i') = Some j2 \<Longrightarrow> job_thread j1 \<noteq> job_thread j2"
    "numRunningJobs k = card {i. i < n \<and> thread_at (w i) \<noteq> None}"
    "i < n \<Longrightarrow> w i = Picked j \<Longrightarrow> \<not> isUserspaceJob j \<Longrightarrow> i = 0 \<and> runningJobs k = [j]"
    "t < nextThread k \<Longrightarrow> (\<And>i. i < n \<Longrightarrow> thread_at (w i) \<noteq> Some t) \<Longrightarrow> rested k t"
    "i < n \<Longrightarrow> thread_at (w i) = Some t \<Longrightarrow> in_flight k t"
    "i < n \<Longrightarrow> w i = Running t \<Longrightarrow> isUserspaceThread (kthreads k t)"
    "i < n \<Longrightarrow> w i = Picked j \<Longrightarrow> matches_job k j"
proof -
  show q: "queue_inv k" "\<not> inKernel k" "time_ok (currentTime k)" and w: "workers_ok n (k, w)" and c: "clocks_ok n (k, w)"
    using assms by (simp_all add: sched_ok_def)
  show "j \<in> set (runningJobs k) \<longleftrightarrow> (\<exists>i<n. job_at (w i) = Some j)"
    "numRunningJobs k = card {i. i < n \<and> thread_at (w i) \<noteq> None}" using w by (simp_all add: workers_ok_def)
  note w = w [unfolded workers_ok_def case_prod_conv, THEN conjunct2]
  show "job_thread j1 \<noteq> job_thread j2"
    if "i < n" "i' < n" "i \<noteq> i'" "job_at (w i) = Some j1" "job_at (w i') = Some j2"
    using w [THEN conjunct1] that by blast
  show "i = 0 \<and> runningJobs k = [j]" if "i < n" "w i = Picked j" "\<not> isUserspaceJob j"
    using w [THEN conjunct2, THEN conjunct2] that by blast
  note c = c [unfolded clocks_ok_def case_prod_conv]
  show "rested k t" if "t < nextThread k" "\<And>i. i < n \<Longrightarrow> thread_at (w i) \<noteq> Some t"
    using c [THEN conjunct1] that by blast
  show "in_flight k t" if "i < n" "thread_at (w i) = Some t" using c [THEN conjunct2, THEN conjunct1] that by blast
  show "isUserspaceThread (kthreads k t)" if "i < n" "w i = Running t"
    using c [THEN conjunct2, THEN conjunct2, THEN conjunct1] that by blast
  show "matches_job k j" if "i < n" "w i = Picked j"
    using c [THEN conjunct2, THEN conjunct2, THEN conjunct2] that by blast
qed

lemma job_at_update:
  "i < n \<Longrightarrow> (\<exists>i'<n. job_at ((w(i := x)) i') = Some j) \<longleftrightarrow>
     job_at x = Some j \<or> (\<exists>i'<n. i' \<noteq> i \<and> job_at (w i') = Some j)"
  by (metis fun_upd_apply)

lemma apart_update:
  assumes "\<And>i1 i2 j1 j2. i1 < n \<Longrightarrow> i2 < n \<Longrightarrow> i1 \<noteq> i2 \<Longrightarrow> job_at (w i1) = Some j1 \<Longrightarrow> job_at (w i2) = Some j2 \<Longrightarrow>
      job_thread j1 \<noteq> job_thread j2"
    and "\<And>i0 j0 j. i0 < n \<Longrightarrow> i0 \<noteq> i \<Longrightarrow> job_at (w i0) = Some j0 \<Longrightarrow> job_at x = Some j \<Longrightarrow> job_thread j0 \<noteq> job_thread j"
    and "i1 < n" "i2 < n" "i1 \<noteq> i2 \<and> job_at ((w(i := x)) i1) = Some j1 \<and> job_at ((w(i := x)) i2) = Some j2"
  shows "job_thread j1 \<noteq> job_thread j2"
proof -
  consider "i1 = i" "i2 \<noteq> i" | "i2 = i" "i1 \<noteq> i" | "i1 \<noteq> i" "i2 \<noteq> i" using assms(5) by blast
  then show ?thesis
  proof cases
    case 1
    then show ?thesis using assms(2) [OF assms(4), of j2 j1] assms(5) by auto
  next
    case 2
    then show ?thesis using assms(2) [OF assms(3), of j1 j2] assms(5) by auto
  next
    case 3
    then show ?thesis using assms(1) [OF assms(3,4)] assms(5) by auto
  qed
qed

lemma thread_job_at: "thread_at w = Some t \<Longrightarrow> \<exists>j. job_at w = Some j \<and> job_thread j = t"
  by (cases w) auto

lemma pick_step:
  assumes ok: "sched_ok n (k, w)" and i: "i < n" "w i = Idle"
    and pick: "tryPickNext host (createVM i) k = Inr (Run j, k')" and t: "time_ok (currentTime k')"
  shows "sched_ok n (k', w(i := Picked j))"
proof -
  note f = sched_ok_facts [OF ok]
  obtain t k1 where p: "rest_view k1 = rest_view k" "runnableThreads k1 = runnableThreads k" "queue_inv k \<longrightarrow> queue_inv k1"
    "threadToRun (createVM i) k1 = Some t" "t \<in> set (runnableThreads k1)" "j = job_of t k1" "k' = put_job t k1"
    "may_pick (createVM i) k" by (rule tryPickNext_run [OF pick])
  have q1: "queue_inv k1" using p(3) f(1) by (rule mp)
  have t_j: "job_thread j = t" by (simp add: p(6) job_of_def)
  have run: "runningJobs k1 = runningJobs k" "thread_view k1 = thread_view k" "nextThread k1 = nextThread k"
    "inKernel k1 = inKernel k" "numRunningJobs k1 = numRunningJobs k" "currentTime k1 = currentTime k"
    using p(1) by (simp_all add: rest_view_def)
  have k': "runningJobs k' = runningJobs k @ [j]" "thread_view k' = thread_view k" "nextThread k' = nextThread k"
    "inKernel k' = inKernel k" "numRunningJobs k' = numRunningJobs k" "currentTime k' = currentTime k"
    using run by (simp_all add: p(6,7) put_job_def thread_view_def fun_eq_iff)
  have new: "job_thread j0 \<noteq> t" if "j0 \<in> set (runningJobs k)" for j0
    using queue_inv_distinct(1) [OF q1] p(5) that by (auto simp: run(1))
  have alone: "i = 0 \<and> runningJobs k = []" if "\<not> isUserspaceJob j"
  proof -
    note K = picked_kind(1,2) [OF p(8,1,2,4,5), folded p(6)]
    have "i = 0" using K job_kind that by blast
    moreover have "j0 \<notin> set (runningJobs k)" for j0
    proof
      assume r: "j0 \<in> set (runningJobs k)"
      then have "isKernelJob j0 \<or> isAtomicJob j0" using K job_kind that by blast
      then have "\<not> isUserspaceJob j0" by (auto simp: isUserspaceJob_def isKernelJob_def isAtomicJob_def)
      moreover from r obtain i0 where i0: "i0 < n" "job_at (w i0) = Some j0" using f(6) by blast
      ultimately have "w i0 = Picked j0" by (cases "w i0") (auto simp: isUserspaceJob_def)
      then have "i0 = 0" using f(9) i0(1) \<open>\<not> isUserspaceJob j0\<close> by blast
      with i0(2) i(2) \<open>i = 0\<close> show False by simp
    qed
    ultimately show ?thesis by (cases "runningJobs k") auto
  qed
  have users: "\<not> (w i0 = Picked j0 \<and> \<not> isUserspaceJob j0)" if "i0 < n" for i0 j0
  proof
    assume a: "w i0 = Picked j0 \<and> \<not> isUserspaceJob j0"
    then have "i0 = 0" "runningJobs k = [j0]" using f(9) that by blast+
    moreover have "i \<noteq> i0" using a i(2) by auto
    moreover have "isUserspaceJob j" using alone calculation by auto
    ultimately show False using picked_kind(3) [OF p(8,1,2,4,5)] a by (auto simp: p(6))
  qed
  have "workers_ok n (k', w(i := Picked j))"
    unfolding workers_ok_def case_prod_conv
  proof (intro conjI allI impI)
    show "j' \<in> set (runningJobs k') \<longleftrightarrow> (\<exists>i'<n. job_at ((w(i := Picked j)) i') = Some j')" for j'
      unfolding job_at_update [OF i(1)] using f(6) [of j'] i(2) by (auto simp: k'(1))
    show "job_thread j1 \<noteq> job_thread j2"
      if "i1 < n" "i2 < n" "i1 \<noteq> i2 \<and> job_at ((w(i := Picked j)) i1) = Some j1 \<and> job_at ((w(i := Picked j)) i2) = Some j2"
      for i1 i2 j1 j2
    proof (rule apart_update [OF f(7) _ that])
      show "job_thread j0 \<noteq> job_thread j3"
        if "i0 < n" "job_at (w i0) = Some j0" "job_at (Picked j) = Some j3" for i0 j0 j3
        using new f(6) that t_j by auto
    qed
    have "{i'. i' < n \<and> thread_at ((w(i := Picked j)) i') \<noteq> None} = {i'. i' < n \<and> thread_at (w i') \<noteq> None}"
      using i by (auto split: if_splits)
    then show "numRunningJobs k' = card {i'. i' < n \<and> thread_at ((w(i := Picked j)) i') \<noteq> None}"
      using f(8) by (simp add: k'(5))
    show "i' = 0" "runningJobs k' = [j']" if "i' < n" "(w(i := Picked j)) i' = Picked j' \<and> \<not> isUserspaceJob j'" for i' j'
      using that alone users [OF that(1)] by (auto simp: k'(1) split: if_splits)
  qed
  moreover have "clocks_ok n (k', w(i := Picked j))"
  proof -
    note same = same_view_facts [OF k'(2)]
    have "rested k' t0" if "t0 < nextThread k" "\<forall>i'<n. thread_at ((w(i := Picked j)) i') \<noteq> Some t0" for t0
    proof -
      have "rested k t0" using that i(2) by (intro f(10)) (auto split: if_splits)
      then show ?thesis by (simp add: rested_def same k'(6))
    qed
    moreover have "matches_job k' j" by (simp add: matches_job_def p(6,7) job_of_def put_job_def)
    ultimately show ?thesis unfolding clocks_ok_def case_prod_conv
      using f(11-13) by (auto simp: same k'(3) split: if_splits)
  qed
  ultimately show ?thesis
    using f(2) t put_job_queue_inv [OF q1 p(5)] by (simp add: sched_ok_def k' flip: p(7))
qed

text \<open>Starting a slice: its verification of the clock cannot fail.\<close>

lemma setSlice_ok:
  assumes "unat (waitTime tm) + unat (nbInstructions tm) \<le> unat current"
  obtains tm' where "setSlice current d tm = Inr tm'" "nbInstructions tm' = nbInstructions tm"
    "unat (waitTime tm') + unat (nbInstructions tm') = unat current"
proof -
  have c: "unat current < 2 ^ 64" using unat_lt_2p [of current] by simp
  have "unat (waitTime tm + nbInstructions tm) = unat (waitTime tm) + unat (nbInstructions tm)"
    using assms c by (simp add: unat_word_ariths)
  then have v: "waitTime tm + nbInstructions tm \<le> current" using assms by (simp add: word_le_nat_alt)
  have "unat (current - nbInstructions tm) = unat current - unat (nbInstructions tm)"
    using assms by (intro unat_sub) (simp add: word_le_nat_alt)
  then show ?thesis using that assms v by (auto simp: setSlice_def)
qed

lemma update_thread_simps [simp]:
  "kthreads (update_thread t g k) u = (if u = t then g (kthreads k t) else kthreads k u)"
  "schedThreads (update_thread t g k) = schedThreads k" "runningJobs (update_thread t g k) = runningJobs k"
  "runnableThreads (update_thread t g k) = runnableThreads k" "blockedThreads (update_thread t g k) = blockedThreads k"
  "inKernel (update_thread t g k) = inKernel k" "numRunningJobs (update_thread t g k) = numRunningJobs k"
  "currentTime (update_thread t g k) = currentTime k" "queue_inv (update_thread t g k) = queue_inv k"
  "nextThread (update_thread t g k) = nextThread k"
  by (auto simp: update_thread_def put_thread_def queue_inv_def waiters_def plain_waiters_def)

lemma clock_fields_simps [simp]:
  "queue_inv (k\<lparr>numRunningJobs := m\<rparr>) = queue_inv k" "queue_inv (k\<lparr>currentTime := c\<rparr>) = queue_inv k"
  "queue_inv (k\<lparr>inKernel := b\<rparr>) = queue_inv k" "queue_inv (k\<lparr>ktimers := ts\<rparr>) = queue_inv k"
  by (auto simp: queue_inv_def waiters_def plain_waiters_def)

lemma start_slice_ok:
  assumes "rested k t"
  obtains tm where "start_slice d t k = Inr (update_thread t (\<lambda>x. x\<lparr>ttime := tm\<rparr>) (k\<lparr>numRunningJobs := numRunningJobs k + 1\<rparr>))"
    "unat (waitTime tm) + unat (nbInstructions tm) = unat (time_count (currentTime k))"
proof -
  have c: "unat (waitTime (ttime (kthreads k t))) + unat (nbInstructions (ttime (kthreads k t)))
      \<le> unat (time_count (currentTime k))" using assms by (simp add: rested_def thread_clock_def)
  show ?thesis by (rule setSlice_ok [OF c, of d]) (auto simp: start_slice_def intro: that)
qed

text \<open>Starting a picked job in user space.\<close>

lemma picked_thread:
  assumes "sched_ok n (k, w)" "i < n" "w i = Picked j"
  shows "j \<in> set (runningJobs k)" "job_thread j < nextThread k" "rested k (job_thread j)" "matches_job k j"
    "\<And>i'. i' < n \<Longrightarrow> thread_at (w i') \<noteq> Some (job_thread j)"
proof -
  note f = sched_ok_facts [OF assms(1)]
  show j: "j \<in> set (runningJobs k)" using f(6) assms(2,3) by force
  then show "job_thread j < nextThread k" using queue_inv_distinct(2) [OF f(1)] f(1) by (auto simp: queue_inv_def)
  moreover show apart: "thread_at (w i') \<noteq> Some (job_thread j)" if "i' < n" for i'
  proof
    assume t: "thread_at (w i') = Some (job_thread j)"
    then obtain j' where "job_at (w i') = Some j'" "job_thread j' = job_thread j" using thread_job_at by blast
    moreover have "i' \<noteq> i" using t assms(3) by auto
    ultimately show False using f(7) [of i' i j' j] assms(2,3) that by auto
  qed
  ultimately show "rested k (job_thread j)" by (rule f(10))
  show "matches_job k j" using f(13) assms(2,3) by blast
qed

lemma matches_flags:
  assumes "matches_job k j"
  shows "job_ring j = (if requestsSyscall (kthreads k (job_thread j)) then KernelRing else UserspaceRing)"
    "job_atomic j = requestsAtomic (kthreads k (job_thread j))"
  using arg_cong [OF assms [unfolded matches_job_def], of job_ring]
    arg_cong [OF assms [unfolded matches_job_def], of job_atomic] by (simp_all add: job_of_def)

lemma user_job_eq: "isUserspaceJob j \<Longrightarrow> j = \<lparr>job_thread = job_thread j, job_ring = UserspaceRing, job_atomic = False\<rparr>"
  by (cases j) (auto simp: isUserspaceJob_def)

lemma start_step:
  assumes ok: "sched_ok n (k, w)" and i: "i < n" "w i = Picked j" and j: "isUserspaceJob j"
    and s: "start_userspace (job_thread j) k = Inr k'"
  shows "sched_ok n (k', w(i := Running (job_thread j)))"
proof -
  let ?t = "job_thread j" and ?w = "w(i := Running (job_thread j))"
  note f = sched_ok_facts [OF ok] and p = picked_thread [OF ok i]
  obtain tm where k': "k' = update_thread ?t (\<lambda>x. x\<lparr>ttime := tm\<rparr>) (k\<lparr>numRunningJobs := numRunningJobs k + 1\<rparr>)"
    "unat (waitTime tm) + unat (nbInstructions tm) = unat (time_count (currentTime k))"
    using start_slice_ok [OF p(3), of DEFAULT_TIME_SLICE] s by (auto simp: start_userspace_def)
  have at: "job_at (?w i') = job_at (w i')" for i' using i j user_job_eq [OF j] by auto
  have "workers_ok n (k', ?w)"
    unfolding workers_ok_def case_prod_conv at
  proof (intro conjI allI impI)
    have "{i'. i' < n \<and> thread_at (?w i') \<noteq> None} = insert i {i'. i' < n \<and> thread_at (w i') \<noteq> None}"
      using i by auto
    moreover have "i \<notin> {i'. i' < n \<and> thread_at (w i') \<noteq> None}" using i by simp
    ultimately show "numRunningJobs k' = card {i'. i' < n \<and> thread_at (?w i') \<noteq> None}"
      using f(8) by (simp add: k'(1))
  qed (use f(6,7,9) in \<open>auto simp: k'(1) split: if_splits\<close>)
  moreover have "clocks_ok n (k', ?w)"
  proof -
    have other: "rested k' u = rested k u" "in_flight k' u = in_flight k u" if "u \<noteq> ?t" for u
      using that by (simp_all add: rested_def in_flight_def thread_clock_def one_request_def k'(1))
    have user: "isUserspaceThread (kthreads k' u) = isUserspaceThread (kthreads k u)" "matches_job k' j' = matches_job k j'" for u j'
      by (auto simp: isUserspaceThread_def matches_job_def job_of_def k'(1))
    have t: "in_flight k' ?t" "isUserspaceThread (kthreads k ?t)"
      using p(3) matches_flags [OF p(4)] j unat_lt_2p [of "time_count (currentTime k)"]
      by (auto simp: in_flight_def thread_clock_def one_request_def k' rested_def isUserspaceThread_def
          isUserspaceJob_def split: if_splits)
    have u: "u \<noteq> ?t" if "i' < n" "thread_at (w i') = Some u" for i' u using p(5) that by auto
    show ?thesis
      unfolding clocks_ok_def case_prod_conv
    proof (intro conjI ballI allI impI)
      fix u assume a: "u < nextThread k'" "\<forall>i'<n. thread_at (?w i') \<noteq> Some u"
      have u: "u \<noteq> ?t" using a(2) [rule_format, OF i(1)] by simp
      have "thread_at (w i') \<noteq> Some u" if "i' < n" for i'
        using a(2) [rule_format, OF that] i(2) by (cases "i' = i") simp_all
      moreover have "u < nextThread k" using a(1) by (simp add: k'(1))
      ultimately show "rested k' u" using f(10) other(1) [OF u] by blast
    next
      fix i' u assume "i' < n" "thread_at (?w i') = Some u"
      then show "in_flight k' u" using f(11) t(1) other(2) u by (cases "i' = i") auto
    next
      fix i' u assume "i' < n" "?w i' = Running u"
      then show "isUserspaceThread (kthreads k' u)" using f(12) t(2) by (cases "i' = i") (auto simp: user)
    next
      fix i' j' assume "i' < n" "?w i' = Picked j'"
      then show "matches_job k' j'" using f(13) by (cases "i' = i") (auto simp: user)
    qed
  qed
  ultimately show ?thesis using f(1-3) by (simp add: sched_ok_def k'(1))
qed

text \<open>Executing.\<close>

lemma executing_job:
  assumes "sched_ok n (k, w)" "i < n" "job_at (w i) = Some j"
  shows "j \<in> set (runningJobs k)" "job_thread j < nextThread k"
    "i' < n \<Longrightarrow> i' \<noteq> i \<Longrightarrow> job_at (w i') = Some j' \<Longrightarrow> job_thread j' \<noteq> job_thread j"
    "i' < n \<Longrightarrow> i' \<noteq> i \<Longrightarrow> w i' = Picked j' \<Longrightarrow> isUserspaceJob j'"
proof -
  note f = sched_ok_facts [OF assms(1)]
  show j: "j \<in> set (runningJobs k)" using f(6) assms(2,3) by blast
  then show "job_thread j < nextThread k" using queue_inv_distinct(2) [OF f(1)] f(1) by (auto simp: queue_inv_def)
  show apart: "job_thread j' \<noteq> job_thread j" if "i' < n" "i' \<noteq> i" "job_at (w i') = Some j'" for i' j'
    using f(7) [OF that(1) assms(2) that(2,3) assms(3)] .
  show "isUserspaceJob j'" if "i' < n" "i' \<noteq> i" "w i' = Picked j'"
  proof (rule ccontr)
    assume "\<not> isUserspaceJob j'"
    then have "runningJobs k = [j']" using f(9) that by blast
    then show False using j apart [OF that(1,2), of j'] that(3) by simp
  qed
qed

lemma execute_step:
  assumes ok: "sched_ok n (k, w)" and i: "i < n" "w i = Running t" and x: "executes t k k'"
  shows "sched_ok n (k', w(i := Leaving t))"
proof -
  let ?w = "w(i := Leaving t)"
  note f = sched_ok_facts [OF ok]
  have user: "isUserspaceThread (kthreads k t)" using f(12) i by blast
  obtain y sp where k': "k' = (put_thread t y k)\<lparr>kspaces := sp\<rparr>"
    and y: "unat (waitTime (ttime y)) + unat (nbInstructions (ttime y)) < 2 ^ 64" "\<not> (requestsSyscall y \<and> requestsAtomic y)"
    using x user by (auto simp: executes_def isUserspaceThread_def)
  have at: "job_at (?w i') = job_at (w i')" "thread_at (?w i') = thread_at (w i')"
    "?w i' = Picked j \<longleftrightarrow> w i' = Picked j" for i' j using i by auto
  have same: "nextThread k' = nextThread k" "runningJobs k' = runningJobs k" "inKernel k' = inKernel k"
    "numRunningJobs k' = numRunningJobs k" "currentTime k' = currentTime k" "queue_inv k' = queue_inv k"
    by (auto simp: k' put_thread_def queue_inv_def waiters_def plain_waiters_def)
  have other: "kthreads k' u = kthreads k u" if "u \<noteq> t" for u using that by (simp add: k' put_thread_def)
  have "workers_ok n (k', ?w) = workers_ok n (k, w)"
    unfolding workers_ok_def case_prod_conv at same by (rule refl)
  moreover have "clocks_ok n (k', ?w)"
    unfolding clocks_ok_def case_prod_conv at same
  proof (intro conjI ballI allI impI)
    fix u assume a: "u < nextThread k" "\<forall>i'<n. thread_at (w i') \<noteq> Some u"
    have "u \<noteq> t" using a(2) [rule_format, OF i(1)] i(2) by simp
    then show "rested k' u" using f(10) a
      by (simp add: rested_def thread_clock_def one_request_def other same(5))
  next
    fix i' u assume a: "i' < n" "thread_at (w i') = Some u"
    show "in_flight k' u"
    proof (cases "u = t")
      case True
      then show ?thesis using y by (simp add: in_flight_def thread_clock_def one_request_def k' put_thread_def)
    next
      case False
      then show ?thesis using f(11) [OF a] by (simp add: in_flight_def thread_clock_def one_request_def other)
    qed
  next
    fix i' u assume a: "i' < n" "?w i' = Running u"
    then have w: "w i' = Running u" "i' \<noteq> i" by (auto split: if_splits)
    then have "u \<noteq> t" using f(7) [OF a(1) i(1) w(2)] i(2) by force
    then show "isUserspaceThread (kthreads k' u)" using f(12) a(1) w(1) by (simp add: other)
  next
    fix i' j assume a: "i' < n" "w i' = Picked j"
    then have "job_thread j \<noteq> t" using f(7) [OF a(1) i(1)] i(2) by force
    then show "matches_job k' j" using f(13) [OF a] by (simp add: matches_job_def job_of_def other)
  qed
  ultimately show ?thesis using ok by (simp add: sched_ok_def same)
qed

text \<open>The end of a job: the thread leaves the running ones.\<close>

lemma finish_step:
  assumes ok: "sched_ok n (k, w)" and i: "i < n" "job_at (w i) = Some j" and t: "job_thread j = t"
    and k': "queue_inv k'" "\<not> inKernel k'" "time_ok (currentTime k')" "currentTime k \<le> currentTime k'"
    and jobs: "set (runningJobs k') = {j \<in> set (runningJobs k). job_thread j \<noteq> t}"
    and num: "numRunningJobs k' = card {i'. i' < n \<and> i' \<noteq> i \<and> thread_at (w i') \<noteq> None}"
    and others: "\<And>u. u < nextThread k \<Longrightarrow> u \<noteq> t \<Longrightarrow> thread_view k' u = thread_view k u"
    and rest: "\<And>u. u < nextThread k' \<Longrightarrow> u = t \<or> nextThread k \<le> u \<Longrightarrow> rested k' u"
  shows "sched_ok n (k', w(i := Idle))"
proof -
  let ?w = "w(i := Idle)"
  note f = sched_ok_facts [OF ok] and e = executing_job [OF ok i]
  have at: "job_at (?w i') = Some j' \<longleftrightarrow> i' \<noteq> i \<and> job_at (w i') = Some j'"
    "thread_at (?w i') = Some u \<longleftrightarrow> i' \<noteq> i \<and> thread_at (w i') = Some u"
    "?w i' = Picked j' \<longleftrightarrow> i' \<noteq> i \<and> w i' = Picked j'" "?w i' = Running u \<longleftrightarrow> i' \<noteq> i \<and> w i' = Running u"
    for i' j' u by auto
  have view: "thread_clock k' u = thread_clock k u" "one_request k' u = one_request k u"
    "isUserspaceThread (kthreads k' u) = isUserspaceThread (kthreads k u)"
    "job_of u k' = job_of u k" if "u < nextThread k" "u \<noteq> t" for u
    using others [OF that]
    by (auto simp: thread_view_def Let_def thread_clock_def one_request_def isUserspaceThread_def job_of_def)
  have live: "job_thread j' < nextThread k" "job_thread j' \<noteq> t" if "i' < n" "i' \<noteq> i" "job_at (w i') = Some j'" for i' j'
    using executing_job(2) [OF ok that(1,3)] e(3) [OF that] t by simp_all
  have live_at: "u < nextThread k" "u \<noteq> t" if "i' < n" "i' \<noteq> i" "thread_at (w i') = Some u" for i' u
    using live that thread_job_at by blast+
  have "workers_ok n (k', ?w)"
    unfolding workers_ok_def case_prod_conv
  proof (intro conjI allI impI)
    show "j' \<in> set (runningJobs k') \<longleftrightarrow> (\<exists>i'<n. job_at (?w i') = Some j')" for j'
    proof -
      have "j' \<in> set (runningJobs k') \<longleftrightarrow> (\<exists>i'<n. job_at (w i') = Some j') \<and> job_thread j' \<noteq> t"
        by (simp add: jobs f(6))
      also have "\<dots> \<longleftrightarrow> (\<exists>i'<n. i' \<noteq> i \<and> job_at (w i') = Some j')"
        using live(2) i(2) t by (metis option.inject)
      finally show ?thesis unfolding job_at_update [OF i(1)] by simp
    qed
    show "job_thread j1 \<noteq> job_thread j2"
      if "i1 < n" "i2 < n" "i1 \<noteq> i2 \<and> job_at (?w i1) = Some j1 \<and> job_at (?w i2) = Some j2" for i1 i2 j1 j2
      using that f(7) unfolding at by blast
    have "{i'. i' < n \<and> thread_at (?w i') \<noteq> None} = {i'. i' < n \<and> i' \<noteq> i \<and> thread_at (w i') \<noteq> None}" by auto
    then show "numRunningJobs k' = card {i'. i' < n \<and> thread_at (?w i') \<noteq> None}" by (simp only: num)
    show "i' = 0" "runningJobs k' = [j']" if "i' < n" "?w i' = Picked j' \<and> \<not> isUserspaceJob j'" for i' j'
      using e(4) that unfolding at by blast+
  qed
  moreover have "clocks_ok n (k', ?w)"
    unfolding clocks_ok_def case_prod_conv at
  proof (intro conjI ballI allI impI)
    fix u assume a: "u < nextThread k'" "\<forall>i'<n. \<not> (i' \<noteq> i \<and> thread_at (w i') = Some u)"
    show "rested k' u"
    proof (cases "u = t \<or> nextThread k \<le> u")
      case False
      have "thread_at (w i') \<noteq> Some u" if "i' < n" for i'
      proof (cases "i' = i")
        case True
        with i(2) t False show ?thesis by (cases "w i") auto
      next
        case ne: False
        then show ?thesis using a(2) [rule_format, OF that] by simp
      qed
      moreover have u: "u < nextThread k" "u \<noteq> t" using False by simp_all
      ultimately have "rested k u" using f(10) by blast
      then show ?thesis by (rule later_rested) (use view(1,2) [OF u] k'(3,4) f(3) in simp_all)
    qed (use rest a(1) in blast)
  next
    fix i' u assume a: "i' < n" "i' \<noteq> i \<and> thread_at (w i') = Some u"
    then show "in_flight k' u" using f(11) [of i' u] view(1,2) live_at [of i' u] by (simp add: in_flight_def)
  next
    fix i' u assume a: "i' < n" "i' \<noteq> i \<and> w i' = Running u"
    then show "isUserspaceThread (kthreads k' u)" using f(12) [of i' u] view(3) live_at [of i' u] by simp
  next
    fix i' j' assume a: "i' < n" "i' \<noteq> i \<and> w i' = Picked j'"
    then show "matches_job k' j'" using f(13) [of i' j'] view(4) live [of i' j'] by (simp add: matches_job_def)
  qed
  ultimately show ?thesis using k' by (simp add: sched_ok_def)
qed

lemma stop_simps [simp]:
  "kthreads (stopRunningThread t k) = kthreads k" "nextThread (stopRunningThread t k) = nextThread k"
  "inKernel (stopRunningThread t k) = inKernel k" "numRunningJobs (stopRunningThread t k) = numRunningJobs k"
  "currentTime (stopRunningThread t k) = currentTime k"
  by (simp_all add: stopRunningThread_def)

lemma in_flight_synced:
  assumes "in_flight k t" "time_ok c" "thread_precise_time (ttime (kthreads k t)) \<le> c"
  shows "thread_clock k t \<le> unat (time_count c)"
proof -
  let ?tm = "ttime (kthreads k t)"
  have "time_count (thread_precise_time ?tm) \<le> time_count c"
    using time_count_mono(1) [OF assms(3) _ assms(2)] thread_precise_time_ok [of ?tm] by (simp add: time_ok_def)
  moreover have "unat (thread_ns ?tm) = thread_clock k t"
    using assms(1) by (simp add: in_flight_def thread_clock_def thread_ns_def unat_word_ariths)
  ultimately show ?thesis by (simp add: thread_precise_time_count word_le_nat_alt)
qed

lemma max_time_ok: "time_ok a \<Longrightarrow> time_ok b \<Longrightarrow> time_ok (max a b)"
  by (simp add: max_def)

lemma count_without:
  assumes "i < n" "P i"
  shows "card {i'. i' < n \<and> i' \<noteq> i \<and> P i'} = card {i'. i' < n \<and> P i'} - 1"
proof -
  have "{i'. i' < n \<and> i' \<noteq> i \<and> P i'} = {i'. i' < n \<and> P i'} - {i}" by auto
  then show ?thesis using assms by (simp add: card_Diff_singleton)
qed

lemma stop_step:
  assumes ok: "sched_ok n (k, w)" and i: "i < n" "thread_at (w i) = Some t"
  shows "sched_ok n (stop_userspace t k, w(i := Idle))"
proof -
  let ?k = "stop_userspace t k"
  note f = sched_ok_facts [OF ok]
  have fl: "in_flight k t" using f(11) i by blast
  obtain j where j: "job_at (w i) = Some j" "job_thread j = t" using thread_job_at [OF i(2)] by blast
  have time: "currentTime ?k = max (currentTime k) (thread_precise_time (ttime (kthreads k t)))"
    by (simp add: stop_userspace_def syncThreadTimeSlice_def)
  have tok: "time_ok (currentTime ?k)" unfolding time using f(3) thread_precise_time_ok by (rule max_time_ok)
  have same: "kthreads ?k = kthreads k" "nextThread ?k = nextThread k"
    by (simp_all add: stop_userspace_def syncThreadTimeSlice_def Let_def)
  have view: "thread_clock ?k u = thread_clock k u" "one_request ?k u = one_request k u" "thread_view ?k = thread_view k" for u
    by (simp_all add: thread_clock_def one_request_def thread_view_def same fun_eq_iff)
  show ?thesis
  proof (rule finish_step [OF ok i(1) j])
    show "queue_inv ?k" using stop_queue_inv(1) [OF f(1)] by (simp add: stop_userspace_def syncThreadTimeSlice_def Let_def)
    show "\<not> inKernel ?k" using f(2) by (simp add: stop_userspace_def syncThreadTimeSlice_def Let_def)
    show "time_ok (currentTime ?k)" "currentTime k \<le> currentTime ?k" using tok by (simp_all add: time)
    show "set (runningJobs ?k) = {j \<in> set (runningJobs k). job_thread j \<noteq> t}"
      using stop_queue_inv(2) [OF f(1), of t] by (simp add: stop_userspace_def syncThreadTimeSlice_def Let_def)
    show "numRunningJobs ?k = card {i'. i' < n \<and> i' \<noteq> i \<and> thread_at (w i') \<noteq> None}"
      using count_without [of i n "\<lambda>i. thread_at (w i) \<noteq> None"] i f(8)
      by (simp add: stop_userspace_def syncThreadTimeSlice_def Let_def)
    show "thread_view ?k u = thread_view k u" for u by (simp add: view)
    show "rested ?k u" if "u < nextThread ?k" "u = t \<or> nextThread k \<le> u" for u
    proof -
      have "u = t" using that by (simp add: same)
      moreover have "thread_precise_time (ttime (kthreads k t)) \<le> currentTime ?k" by (simp add: time)
      ultimately show ?thesis using in_flight_synced [OF fl tok] fl by (simp add: rested_def view in_flight_def)
    qed
  qed
qed

text \<open>System calls.\<close>

definition keeps_kernel :: "(nat \<Rightarrow> kernel \<Rightarrow> kernel result) \<Rightarrow> bool" where
  "keeps_kernel sys \<longleftrightarrow> (\<forall>t k k'. calling t k \<and> sys t k = Inr k' \<longrightarrow> kernel_step k k')"

lemma kernel_job_step:
  assumes ok: "sched_ok n (k, w)" and i: "i < n" "w i = Picked j" and j: "isKernelJob j"
    and r: "runKernel sys (job_thread j) k = Inr k'" and sys: "keeps_kernel sys"
  shows "sched_ok n (k', w(i := Idle))"
proof -
  let ?t = "job_thread j"
  note f = sched_ok_facts [OF ok] and p = picked_thread [OF ok i]
  have jobs: "runningJobs k = [j]" using f(9) [OF i] j by (auto simp: isKernelJob_def isUserspaceJob_def)
  define k1 where "k1 = k\<lparr>numRunningJobs := numRunningJobs k + 1, inKernel := True,
      ktimers := updateAll (currentTime k) (ktimers k)\<rparr>"
  obtain k2 where k2: "sys ?t k1 = Inr k2"
    and k': "k' = (stopRunningThread ?t (update_thread ?t (\<lambda>x. x\<lparr>requestsSyscall := False\<rparr>) k2))
                    \<lparr>inKernel := False, numRunningJobs := numRunningJobs k2 - 1\<rparr>"
    using r by (auto simp: runKernel_def rbind_eq_Inr Let_def k1_def)
  have k1: "queue_inv k1" "kthreads k1 = kthreads k" "nextThread k1 = nextThread k" "runningJobs k1 = [j]"
    "schedThreads k1 = schedThreads k" "blockedThreads k1 = blockedThreads k" "currentTime k1 = currentTime k"
    "numRunningJobs k1 = numRunningJobs k + 1" "thread_view k1 = thread_view k"
    using f(1) jobs by (simp_all add: k1_def queue_inv_def waiters_def plain_waiters_def thread_view_def fun_eq_iff)
  have "calling ?t k1"
    using queue_inv_distinct [OF k1(1)] k1 by (auto simp: calling_def)
  then have st: "kernel_step k1 k2" using sys k2 unfolding keeps_kernel_def by blast
  then have q2: "queue_inv k2" "numRunningJobs k2 = numRunningJobs k + 1" "currentTime k2 = currentTime k"
    "nextThread k \<le> nextThread k2" "\<And>u. u < nextThread k \<Longrightarrow> thread_view k2 u = thread_view k u"
    "\<And>u. u < nextThread k2 \<Longrightarrow> nextThread k \<le> u \<Longrightarrow> thread_view k2 u = (0, 0, False, False)"
    using k1 by (auto simp: kernel_step_def)
  obtain P where P: "runningJobs k2 = filter P [j]" using st k1(4) unfolding kernel_step_def by auto
  have threads: "kthreads k' u = (if u = ?t then (kthreads k2 u)\<lparr>requestsSyscall := False\<rparr> else kthreads k2 u)" for u
    by (simp add: k')
  have tview: "thread_view k' u = thread_view k2 u" if "u \<noteq> ?t" for u
    using that by (simp add: thread_view_def threads)
  have n: "nextThread k' = nextThread k2" "currentTime k' = currentTime k" by (simp_all add: k' q2(3))
  show ?thesis
  proof (rule finish_step [OF ok i(1) _ refl])
    show "job_at (w i) = Some j" using i(2) by simp
    show "queue_inv k'" using q2(1) by (simp add: k' stop_queue_inv(1))
    show "\<not> inKernel k'" by (simp add: k')
    show "time_ok (currentTime k')" "currentTime k \<le> currentTime k'" using f(3) by (simp_all add: n)
    have "set (runningJobs k') = {j' \<in> set (runningJobs k2). job_thread j' \<noteq> ?t}"
      using stop_queue_inv(2) [of "update_thread ?t (\<lambda>x. x\<lparr>requestsSyscall := False\<rparr>) k2" ?t] q2(1) by (simp add: k')
    then show "set (runningJobs k') = {j' \<in> set (runningJobs k). job_thread j' \<noteq> ?t}" using P jobs by auto
    have "{i'. i' < n \<and> i' \<noteq> i \<and> thread_at (w i') \<noteq> None} = {i'. i' < n \<and> thread_at (w i') \<noteq> None}" using i(2) by auto
    then show "numRunningJobs k' = card {i'. i' < n \<and> i' \<noteq> i \<and> thread_at (w i') \<noteq> None}"
      using f(8) q2(2) by (simp add: k')
    show "thread_view k' u = thread_view k u" if "u < nextThread k" "u \<noteq> ?t" for u
      using tview q2(5) that by simp
    show "rested k' u" if "u < nextThread k'" "u = ?t \<or> nextThread k \<le> u" for u
    proof (cases "u = ?t")
      case True
      have "thread_view k2 ?t = thread_view k ?t" using q2(5) p(2) by blast
      then have "thread_clock k' ?t = thread_clock k ?t"
        by (simp add: thread_clock_def threads thread_view_def Let_def)
      with p(3) show ?thesis by (simp add: True rested_def n one_request_def threads)
    next
      case False
      then have "thread_view k' u = (0, 0, False, False)" using that q2(6) tview n(1) by auto
      then show ?thesis by (simp add: rested_def thread_clock_def one_request_def thread_view_def Let_def)
    qed
  qed
qed

text \<open>Atomic instructions.\<close>

lemma atomic_job_step:
  assumes ok: "sched_ok n (k, w)" and i: "i < n" "w i = Picked j" and j: "isAtomicJob j"
    and s: "start_atomic (job_thread j) k = Inr k1"
    and x: "if isStopAsked (ttime (kthreads k1 (job_thread j))) then k2 = k1
            else executes (job_thread j) (syncThreadTimeSlice (job_thread j) k1) k2"
  shows "sched_ok n (stop_atomic (job_thread j) k2, w(i := Idle))"
proof -
  let ?t = "job_thread j"
  let ?k3 = "update_thread ?t (\<lambda>x. x\<lparr>requestsAtomic := False\<rparr>) k2"
  let ?k = "stop_atomic ?t k2"
  note f = sched_ok_facts [OF ok] and p = picked_thread [OF ok i]
  obtain tm where k1: "k1 = update_thread ?t (\<lambda>x. x\<lparr>ttime := tm\<rparr>) (k\<lparr>numRunningJobs := numRunningJobs k + 1\<rparr>)"
    "unat (waitTime tm) + unat (nbInstructions tm) = unat (time_count (currentTime k))"
    using start_slice_ok [OF p(3), of ATOMIC_TIME_SLICE] s by (auto simp: start_atomic_def rbind_eq_Inr)
  have small: "unat (waitTime tm) + unat (nbInstructions tm) < 2 ^ 64"
    using k1(2) unat_lt_2p [of "time_count (currentTime k)"] by simp
  have k2: "queue_inv k2" "runningJobs k2 = runningJobs k" "nextThread k2 = nextThread k" "inKernel k2 = inKernel k"
    "numRunningJobs k2 = numRunningJobs k + 1" "\<And>u. u \<noteq> ?t \<Longrightarrow> kthreads k2 u = kthreads k u"
    "currentTime k \<le> currentTime k2" "time_ok (currentTime k2)" "thread_clock k2 ?t < 2 ^ 64"
  proof -
    have "queue_inv k2 \<and> runningJobs k2 = runningJobs k \<and> nextThread k2 = nextThread k \<and> inKernel k2 = inKernel k \<and>
      numRunningJobs k2 = numRunningJobs k + 1 \<and> (\<forall>u. u \<noteq> ?t \<longrightarrow> kthreads k2 u = kthreads k u) \<and>
      currentTime k \<le> currentTime k2 \<and> time_ok (currentTime k2) \<and> thread_clock k2 ?t < 2 ^ 64"
    proof (cases "isStopAsked (ttime (kthreads k1 ?t))")
      case True
      with x have "k2 = k1" by simp
      then show ?thesis using f(1,3) small by (simp add: k1(1) thread_clock_def)
    next
      case False
      with x obtain y sp where y: "k2 = (put_thread ?t y (syncThreadTimeSlice ?t k1))\<lparr>kspaces := sp\<rparr>"
        "unat (waitTime (ttime y)) + unat (nbInstructions (ttime y)) < 2 ^ 64"
        by (auto simp: executes_def)
      have q: "queue_inv ((put_thread ?t y k0)\<lparr>kspaces := sp\<rparr>) = queue_inv k0" for k0
        by (simp add: put_thread_def queue_inv_def waiters_def plain_waiters_def)
      show ?thesis
        using f(1,3) y(2) max_time_ok [OF f(3) thread_precise_time_ok [of tm]]
        unfolding y(1) q by (simp add: k1(1) put_thread_def syncThreadTimeSlice_def thread_clock_def)
    qed
    then show "queue_inv k2" "runningJobs k2 = runningJobs k" "nextThread k2 = nextThread k" "inKernel k2 = inKernel k"
      "numRunningJobs k2 = numRunningJobs k + 1" "\<And>u. u \<noteq> ?t \<Longrightarrow> kthreads k2 u = kthreads k u"
      "currentTime k \<le> currentTime k2" "time_ok (currentTime k2)" "thread_clock k2 ?t < 2 ^ 64" by blast+
  qed
  have fl: "in_flight ?k3 ?t" using k2(9) by (simp add: in_flight_def thread_clock_def one_request_def)
  have time: "currentTime ?k = max (currentTime k2) (thread_precise_time (ttime (kthreads ?k3 ?t)))"
    by (simp add: stop_atomic_def stop_userspace_def syncThreadTimeSlice_def)
  have tok: "time_ok (currentTime ?k)" unfolding time using k2(8) thread_precise_time_ok by (rule max_time_ok)
  have same: "kthreads ?k = kthreads ?k3" "nextThread ?k = nextThread k"
    by (simp_all add: stop_atomic_def stop_userspace_def syncThreadTimeSlice_def Let_def k2(3))
  show ?thesis
  proof (rule finish_step [OF ok i(1) _ refl])
    show "job_at (w i) = Some j" using i(2) by simp
    show "queue_inv ?k" "\<not> inKernel ?k"
      using k2(1,4) f(2) by (simp_all add: stop_atomic_def stop_userspace_def syncThreadTimeSlice_def Let_def stop_queue_inv(1))
    show "time_ok (currentTime ?k)" "currentTime k \<le> currentTime ?k" using tok k2(7) by (simp_all add: time le_max_iff_disj)
    show "set (runningJobs ?k) = {j' \<in> set (runningJobs k). job_thread j' \<noteq> ?t}"
      using stop_queue_inv(2) [of ?k3 ?t] k2(1,2)
      by (simp add: stop_atomic_def stop_userspace_def syncThreadTimeSlice_def Let_def)
    have "{i'. i' < n \<and> i' \<noteq> i \<and> thread_at (w i') \<noteq> None} = {i'. i' < n \<and> thread_at (w i') \<noteq> None}" using i(2) by auto
    then show "numRunningJobs ?k = card {i'. i' < n \<and> i' \<noteq> i \<and> thread_at (w i') \<noteq> None}"
      using f(8) k2(5) by (simp add: stop_atomic_def stop_userspace_def syncThreadTimeSlice_def Let_def)
    show "thread_view ?k u = thread_view k u" if "u \<noteq> ?t" for u
      using that k2(6) by (simp add: thread_view_def same)
    show "rested ?k u" if "u < nextThread ?k" "u = ?t \<or> nextThread k \<le> u" for u
    proof -
      have u: "u = ?t" using that by (simp add: same)
      have "thread_precise_time (ttime (kthreads ?k3 ?t)) \<le> currentTime ?k" by (simp add: time)
      then show ?thesis using in_flight_synced [OF fl tok] fl
        by (simp add: rested_def thread_clock_def one_request_def in_flight_def same u)
    qed
  qed
qed

text \<open>The invariant holds in every state a run reaches.\<close>

lemma sched_step_ok:
  assumes "sched_step host sys n a b" "sched_ok n a" "keeps_kernel sys" "time_ok (currentTime (fst b))"
  shows "sched_ok n b"
  using assms(1)
proof cases
  case (pick_job i w k j k')
  then show ?thesis using pick_step assms(2,4) by auto
next
  case (pick_again i w k k')
  note o = tryPickNext_other [OF pick_again(6)]
  show ?thesis using quiet_step [of n k w k' w] o assms(2,4) sched_ok_facts(1) [of n k w] by (simp add: pick_again)
next
  case (pick_wait i w k k')
  note o = tryPickNext_other [OF pick_wait(6)]
  show ?thesis using quiet_step [of n k w k' w] o assms(2,4) sched_ok_facts(1) [of n k w] by (simp add: pick_wait)
next
  case (pick_exit i w k k')
  note o = tryPickNext_other [OF pick_exit(6)]
  show ?thesis using quiet_step [of n k w k' "w(i := Stopped)" i] o assms(2,4) sched_ok_facts(1) [of n k w]
    by (simp add: pick_exit)
next
  case (run_kernel i w j k k')
  then show ?thesis using kernel_job_step assms(2,3) by blast
next
  case (start i w j k k')
  then show ?thesis using start_step assms(2) by blast
next
  case (sync i w t k)
  let ?k = "syncThreadTimeSlice t k"
  have "queue_inv ?k = queue_inv k" "nextThread ?k = nextThread k" "runningJobs ?k = runningJobs k"
    "inKernel ?k = inKernel k" "numRunningJobs ?k = numRunningJobs k" "thread_view ?k = thread_view k"
    "currentTime k \<le> currentTime ?k"
    by (simp_all add: syncThreadTimeSlice_def thread_view_def fun_eq_iff)
  then show ?thesis using quiet_step [of n k w ?k w] assms(2,4) sched_ok_facts(1) [of n k w] by (simp add: sync)
next
  case (execute i w t k k')
  then show ?thesis using execute_step assms(2) by blast
next
  case (stop i w t k)
  then show ?thesis using stop_step [of n k w i t] assms(2) by auto
next
  case (run_atomic i w j k k1 k2)
  then show ?thesis using atomic_job_step assms(2) by blast
qed

lemma sched_reaches_ok:
  "sched_reaches host sys n a b \<Longrightarrow> sched_ok n a \<Longrightarrow> keeps_kernel sys \<Longrightarrow> sched_ok n b"
  by (induction rule: sched_reaches.induct) (use sched_step_ok in blast)+

end
