(* ===== verification/X64_SchedSample.thy ===== *)
theory X64_SchedSample
  imports X64_SchedReach
begin

text \<open>
  Small kernels on which the theorems about the scheduler are applied: one thread that has just been
  created, the same thread picked by a worker, and picked again for a system call; and threads that
  wait for a futex and for the clock.
\<close>

definition init_process :: process where
  "init_process = \<lparr>pid = 1, space = 0, proc_threads = [0], fds = [], parent = None, children = [], exitedChildren = []\<rparr>"

definition sample_kernel :: kernel where
  "sample_kernel =
     \<lparr>kthreads = (\<lambda>_. new_thread 0 1 1), kprocesses = (\<lambda>_. init_process), kspaces = (\<lambda>_. tryCreate 1 0x100000),
      nextThread = 1, nextProcess = 1, nextSpace = 1, lastUsedPid = 1, lastUsedTid = 1, kfs = fs_init, ktimers = [],
      schedThreads = [0], runningJobs = [], runnableThreads = [0], blockedThreads = [],
      futexBlockers = [], pollBlockers = [], selectBlockers = [], epollWaitBlockers = [], sleepBlockers = [],
      waitBlockers = [], readBlockers = [], vmReleaseBlockers = [],
      currentTime = PreciseTime 0 0, inKernel = False, numRunningJobs = 0\<rparr>"

text \<open>The thread is picked, runs for ten instructions until it asks for a system call, and leaves.\<close>

definition user_job :: job where
  "user_job = \<lparr>job_thread = 0, job_ring = UserspaceRing, job_atomic = False\<rparr>"

definition call_job :: job where
  "call_job = \<lparr>job_thread = 0, job_ring = KernelRing, job_atomic = False\<rparr>"

definition sample_picked :: kernel where
  "sample_picked = sample_kernel\<lparr>runnableThreads := [], runningJobs := [user_job]\<rparr>"

definition sample_asks :: thread where
  "sample_asks = (new_thread 0 1 1)\<lparr>requestsSyscall := True,
     ttime := \<lparr>waitTime = 0, nbInstructions = 10, instructionLimit = 10\<rparr>\<rparr>"

definition sample_left :: kernel where
  "sample_left = stop_userspace 0 (put_thread 0 sample_asks (sample_picked\<lparr>numRunningJobs := 1\<rparr>))"

definition sample_calls :: kernel where
  "sample_calls = sample_left\<lparr>runnableThreads := [], runningJobs := [call_job]\<rparr>"

definition started :: kernel where
  "started = update_thread 0 (\<lambda>x. x\<lparr>ttime := \<lparr>waitTime = 0, nbInstructions = 0, instructionLimit = 1000000\<rparr>\<rparr>)
     (sample_picked\<lparr>numRunningJobs := 1\<rparr>)"

lemma no_blockers:
  assumes "plain_waiters k = []" "vmReleaseBlockers k = []" "ktimers k = []"
  shows "tryUnblockThreads host k = Inr (False, k)"
proof -
  have l: "sleepBlockers k = []" "pollBlockers k = []" "selectBlockers k = []" "epollWaitBlockers k = []"
    "futexBlockers k = []" "waitBlockers k = []" "readBlockers k = []"
    using assms(1) by (simp_all add: plain_waiters_def)
  have "k\<lparr>ktimers := []\<rparr> = k" "k\<lparr>sleepBlockers := []\<rparr> = k" "k\<lparr>pollBlockers := []\<rparr> = k"
    "k\<lparr>selectBlockers := []\<rparr> = k" "k\<lparr>epollWaitBlockers := []\<rparr> = k" "k\<lparr>futexBlockers := []\<rparr> = k"
    "k\<lparr>waitBlockers := []\<rparr> = k" "k\<lparr>readBlockers := []\<rparr> = k" "k\<lparr>vmReleaseBlockers := []\<rparr> = k"
    using l assms(2,3) by (cases k; simp)+
  then show ?thesis by (simp add: tryUnblockThreads_def unblock_list_def updateAll_def l assms(2,3))
qed

lemma sample_views [simp]:
  "tryUnblockThreads host sample_kernel = Inr (False, sample_kernel)"
  "tryUnblockThreads host sample_left = Inr (False, sample_left)"
  by (rule no_blockers; simp add: sample_left_def sample_picked_def sample_kernel_def plain_waiters_def
      stop_userspace_def syncThreadTimeSlice_def stopRunningThread_def put_thread_def Let_def)+

lemma sample_pick:
  "may_pick (createVM 0) sample_kernel"
  "tryPickNext host (createVM 0) sample_kernel = Inr (Run user_job, sample_picked)"
proof -
  show m: "may_pick (createVM 0) sample_kernel"
    by (simp add: may_pick_def createVM_def hasRunnableThread_def count_such_def sample_kernel_def new_thread_def
        isUserspaceThread_def isAtomicThread_def)
  then show "tryPickNext host (createVM 0) sample_kernel = Inr (Run user_job, sample_picked)"
    by (simp add: tryPickNext_def) (simp add: deadlock_def allThreadsDead_def threadToRun_def sample_kernel_def
        new_thread_def createVM_def isAtomicThread_def isUserspaceThread_def job_of_def sample_picked_def user_job_def)
qed

lemma sample_left_parts:
  "runnableThreads sample_left = [0]" "runningJobs sample_left = []" "blockedThreads sample_left = []"
  "kthreads sample_left 0 = sample_asks" "numRunningJobs sample_left = 0"
  "currentTime sample_left = thread_precise_time \<lparr>waitTime = 0, nbInstructions = 10, instructionLimit = 10\<rparr>"
  "requestsSyscall sample_asks" "\<not> requestsAtomic sample_asks"
proof -
  show "requestsSyscall sample_asks" "\<not> requestsAtomic sample_asks" by (simp_all add: sample_asks_def new_thread_def)
  have "PreciseTime 0 0 \<le> t" for t
    by (cases t) (auto simp: less_eq_precise_time_def less_precise_time_def word_gt_0 not_less)
  then show "runnableThreads sample_left = [0]" "runningJobs sample_left = []" "blockedThreads sample_left = []"
  "kthreads sample_left 0 = sample_asks" "numRunningJobs sample_left = 0"
  "currentTime sample_left = thread_precise_time \<lparr>waitTime = 0, nbInstructions = 10, instructionLimit = 10\<rparr>"
    by (simp_all add: sample_left_def stop_userspace_def syncThreadTimeSlice_def stopRunningThread_def put_thread_def
        Let_def sample_picked_def sample_kernel_def user_job_def sample_asks_def max_def)
qed

lemma sample_pick_call:
  "may_pick (createVM 0) sample_left"
  "tryPickNext host (createVM 0) sample_left = Inr (Run call_job, sample_calls)"
proof -
  show m: "may_pick (createVM 0) sample_left"
    by (simp add: may_pick_def createVM_def hasRunnableThread_def count_such_def sample_left_parts)
  then show "tryPickNext host (createVM 0) sample_left = Inr (Run call_job, sample_calls)"
    by (simp add: tryPickNext_def) (simp add: deadlock_def allThreadsDead_def threadToRun_def sample_left_parts
        createVM_def job_of_def sample_calls_def call_job_def)
qed

text \<open>The states are reached, with one worker.\<close>

lemma sample_start: "start_userspace 0 sample_picked = Inr started"
  by (simp add: start_userspace_def start_slice_def setSlice_def verify_def Let_def sample_picked_def started_def
      sample_kernel_def new_thread_def thread_time_init_def time_count_def DEFAULT_TIME_SLICE_def)

lemma sample_executes: "executes 0 started (put_thread 0 sample_asks (sample_picked\<lparr>numRunningJobs := 1\<rparr>))"
  unfolding executes_def
  by (rule exI [of _ sample_asks], rule exI [of _ "kspaces sample_picked"])
    (simp add: started_def update_thread_def put_thread_def sample_asks_def new_thread_def sample_picked_def
      sample_kernel_def isStopAsked_def)

lemma sample_reaches:
  "sched_reaches host sys 1 (sample_kernel, \<lambda>_. Idle) (sample_picked, (\<lambda>_. Idle)(0 := Picked user_job))"
  "sched_reaches host sys 1 (sample_kernel, \<lambda>_. Idle) (sample_calls, (\<lambda>_. Idle)(0 := Picked call_job))"
proof -
  let ?w = "\<lambda>_. Idle"
  let ?k = "put_thread 0 sample_asks (sample_picked\<lparr>numRunningJobs := 1\<rparr>)"
  have t0: "time_ok (PreciseTime 0 0)" by (simp add: time_ok_def)
  show picked: "sched_reaches host sys 1 (sample_kernel, ?w) (sample_picked, ?w(0 := Picked user_job))"
    by (rule sched_reaches.further [OF sched_reaches.here sched_step.pick_job])
      (use sample_pick t0 in \<open>simp_all add: sample_picked_def sample_kernel_def\<close>)
  have job: "job_thread user_job = 0" "isUserspaceJob user_job" by (simp_all add: user_job_def isUserspaceJob_def)
  have "sched_step host sys 1 (sample_picked, ?w(0 := Picked user_job)) (started, (?w(0 := Picked user_job))(0 := Running 0))"
    by (rule sched_step.start [of _ _ _ user_job, unfolded job(1)]) (use sample_start job in simp_all)
  then have run: "sched_reaches host sys 1 (sample_kernel, ?w) (started, ?w(0 := Running 0))"
    using sched_reaches.further [OF picked] t0
    by (simp add: started_def update_thread_def put_thread_def sample_picked_def sample_kernel_def)
  have "\<not> isStopAsked (ttime (kthreads started 0))"
    by (simp add: started_def update_thread_def put_thread_def isStopAsked_def)
  then have "sched_step host sys 1 (started, ?w(0 := Running 0)) (?k, (?w(0 := Running 0))(0 := Leaving 0))"
    by (intro sched_step.execute [of _ _ _ 0] sample_executes) simp_all
  then have leaving: "sched_reaches host sys 1 (sample_kernel, ?w) (?k, ?w(0 := Leaving 0))"
    using sched_reaches.further [OF run] t0 by (simp add: put_thread_def sample_picked_def sample_kernel_def)
  have idle: "(?w(0 := Leaving 0))(0 := Idle) = ?w" by (simp add: fun_eq_iff)
  have "sched_step host sys 1 (?k, ?w(0 := Leaving 0)) (sample_left, (?w(0 := Leaving 0))(0 := Idle))"
    unfolding sample_left_def by (rule sched_step.stop) simp_all
  then have "sched_step host sys 1 (?k, ?w(0 := Leaving 0)) (sample_left, ?w)" unfolding idle .
  then have left: "sched_reaches host sys 1 (sample_kernel, ?w) (sample_left, ?w)"
    by (rule sched_reaches.further [OF leaving]) (simp add: sample_left_parts thread_precise_time_ok)
  show "sched_reaches host sys 1 (sample_kernel, ?w) (sample_calls, ?w(0 := Picked call_job))"
    by (rule sched_reaches.further [OF left sched_step.pick_job])
      (use sample_pick_call thread_precise_time_ok in \<open>simp_all add: sample_calls_def sample_left_parts\<close>)
qed

section \<open>Threads that wait\<close>

text \<open>The first thread is in a system call; the others wait at the same address.\<close>

definition sample_waits :: "nat \<Rightarrow> futex_blocker" where
  "sample_waits t = \<lparr>fb_thread = t, fb_wordPtr = 4096, fb_expected = 0, fb_timeLimit = None\<rparr>"

definition sample_futexes :: kernel where
  "sample_futexes = sample_kernel\<lparr>nextThread := 3, schedThreads := [0, 1, 2], runnableThreads := [],
     runningJobs := [call_job], blockedThreads := [1, 2], futexBlockers := [sample_waits 1, sample_waits 2],
     ktimers := [\<lparr>timer_id = 0, timer_now = PreciseTime 5 0\<rparr>], inKernel := True, numRunningJobs := 1\<rparr>"

lemma sample_futexes_inv: "queue_inv sample_futexes"
  by (simp add: queue_inv_def waiters_def plain_waiters_def sample_futexes_def sample_kernel_def call_job_def sample_waits_def)

text \<open>The only thread sleeps for a millisecond and a half.\<close>

definition sample_sleeper :: sleep_blocker where
  "sample_sleeper = \<lparr>slb_thread = 0, slb_timer = 0, slb_targetTime = PreciseTime 0 1500000\<rparr>"

definition sample_asleep :: kernel where
  "sample_asleep = sample_kernel\<lparr>runnableThreads := [], blockedThreads := [0], sleepBlockers := [sample_sleeper],
     ktimers := [\<lparr>timer_id = 0, timer_now = PreciseTime 0 0\<rparr>]\<rparr>"

end
