(* ===== verification/X64_SchedSpec.thy ===== *)
theory X64_SchedSpec
  imports X64_SchedSample
begin

text \<open>
  What the scheduler promises, for the system calls of \<^verbatim>\<open>X64_Syscalls\<close> and any calls outside the
  model that leave the scheduler alone: every thread is in one queue, the kernel and atomic instructions
  run alone, slices start, futexes are woken in order, sleepers wake up.
\<close>

section \<open>Running the modelled kernel\<close>

text \<open>
  The system calls that are not modelled do not use the scheduler: they may change files, memory and
  the state of processes, but neither a member of the class \<^verbatim>\<open>Scheduler\<close> nor the clocks and requests
  of threads.
\<close>

definition leaves_scheduler :: "(nat \<Rightarrow> u64 list \<Rightarrow> syscall) \<Rightarrow> bool" where
  "leaves_scheduler other \<longleftrightarrow> (\<forall>m a t k r k'. other m a t k = Inr (r, k') \<longrightarrow> same_sched k k')"

lemma sys_syscall_keeps:
  assumes "leaves_scheduler other"
  shows "keeps_kernel (sys_syscall host new_space load other)"
  unfolding keeps_kernel_def
proof (intro allI impI, elim conjE)
  fix t k k' assume c: "calling t k" and s: "sys_syscall host new_space load other t k = Inr k'"
  from s obtain m0 k1 where o: "open_mmu host t k = Inr (m0, k1)" by (auto simp: sys_syscall_def rbind_eq_Inr)
  define n where "n = unat (get64 (saved_regs (kthreads k1 t)) RAX)"
  define a where "a = syscall_args (saved_regs (kthreads k1 t))"
  from s o obtain r k2 where f: "(case map_of (syscall_table host new_space load a) n of Some f \<Rightarrow> f | None \<Rightarrow> other n a) t k1 = Inr (r, k2)"
    and x: "set_rax t r k2 = Inr k'"
    by (auto simp: sys_syscall_def rbind_eq_Inr Let_def simp flip: n_def a_def cong: option.case_cong)
  have same: "same_sched k k1" using o by (rule open_mmu_same)
  have c1: "calling t k1" using c same by (simp add: same_calling)
  have "kernel_step k1 k2"
  proof (cases "map_of (syscall_table host new_space load a) n")
    case None
    with f assms show ?thesis by (auto simp: leaves_scheduler_def intro: same_kernel_step)
  next
    case (Some g)
    with f have "g t k1 = Inr (r, k2)" by simp
    then show ?thesis by (rule table_step [OF map_of_SomeD [OF Some] c1])
  qed
  then show "kernel_step k k'"
    using same_then_step [OF same] step_then_same set_rax_same [OF x] by blast
qed

text \<open>The state \<^verbatim>\<open>Kernel::run\<close> hands to the scheduler: one thread of the main process, or several.\<close>

definition booted :: "kernel \<Rightarrow> bool" where
  "booted k \<longleftrightarrow>
     runningJobs k = [] \<and> blockedThreads k = [] \<and> runnableThreads k = schedThreads k \<and> distinct (schedThreads k) \<and>
     list_all (\<lambda>t. t < nextThread k) (schedThreads k) \<and> plain_waiters k = [] \<and> vmReleaseBlockers k = [] \<and>
     \<not> inKernel k \<and> numRunningJobs k = 0 \<and> currentTime k = PreciseTime 0 0 \<and>
     list_all (\<lambda>t. ttime (kthreads k t) = thread_time_init \<and> isUserspaceThread (kthreads k t)) [0..<nextThread k]"

lemma booted_ok:
  assumes "booted k"
  shows "sched_ok n (k, \<lambda>_. Idle)"
proof -
  have "queue_inv k" using assms by (simp add: booted_def queue_inv_def waiters_def list_all_iff)
  moreover have "workers_ok n (k, \<lambda>_. Idle)" using assms by (simp add: booted_def workers_ok_def)
  moreover have "clocks_ok n (k, \<lambda>_. Idle)"
    using assms by (auto simp: booted_def clocks_ok_def list_all_iff rested_def thread_clock_def thread_time_init_def
        one_request_def isUserspaceThread_def)
  ultimately show ?thesis using assms by (simp add: sched_ok_def booted_def time_ok_def)
qed

lemma run_ok:
  assumes "booted k0" "leaves_scheduler other"
    "sched_reaches host (sys_syscall host new_space load other) n (k0, \<lambda>_. Idle) s"
  shows "sched_ok n s"
  using sched_reaches_ok [OF assms(3) booted_ok [OF assms(1)] sys_syscall_keeps [OF assms(2)]] .

text \<open>For the witnesses: the kernel with one thread, and calls outside the model that return 0.\<close>

definition returns_0 :: "nat \<Rightarrow> u64 list \<Rightarrow> syscall" where
  "returns_0 n a t k = Inr (0, k)"

definition sample_sys :: "nat \<Rightarrow> kernel \<Rightarrow> kernel result" where
  "sample_sys = sys_syscall (\<lambda>_ _ _. True) (\<lambda>_. tryCreate 1 0x100000) (\<lambda>_ _ _ _. Inr (Errno (- ENOENT))) returns_0"

lemma sample_booted: "booted sample_kernel" "leaves_scheduler returns_0"
  by (auto simp: booted_def sample_kernel_def plain_waiters_def new_thread_def isUserspaceThread_def
      leaves_scheduler_def returns_0_def)

section \<open>Queues and workers\<close>

lemma lone_job:
  assumes ok: "sched_ok n (k, w)" and i: "i < n" "w i = Picked j" and j: "isKernelJob j \<or> isAtomicJob j"
  shows "i = 0" "runningJobs k = [j]" "numRunningJobs k = 0" "\<forall>i'<n. i' \<noteq> i \<longrightarrow> w i' = Idle \<or> w i' = Stopped"
proof -
  note f = sched_ok_facts [OF ok] and e = executing_job [OF ok i(1), of j]
  have user: "\<not> isUserspaceJob j" using j by (auto simp: isKernelJob_def isAtomicJob_def isUserspaceJob_def)
  show r: "i = 0" "runningJobs k = [j]" using f(9) [OF i user] by simp_all
  have idle: "w i' = Idle \<or> w i' = Stopped" if "i' < n" "i' \<noteq> i" for i'
  proof (rule ccontr)
    assume "\<not> (w i' = Idle \<or> w i' = Stopped)"
    then obtain j' where j': "job_at (w i') = Some j'" by (cases "w i'") auto
    then have "j' \<in> set (runningJobs k)" using f(6) [of j'] that(1) by blast
    then have "j' = j" using r(2) by simp
    then show False using e(3) [of i' j'] that j' i(2) by simp
  qed
  then show "\<forall>i'<n. i' \<noteq> i \<longrightarrow> w i' = Idle \<or> w i' = Stopped" by blast
  have "thread_at (w i') = None" if "i' < n" for i'
  proof (cases "i' = i")
    case False
    show ?thesis using idle [OF that False] by (elim disjE) simp_all
  qed (simp add: i(2))
  then have "{i'. i' < n \<and> thread_at (w i') \<noteq> None} = {}" by simp
  then show "numRunningJobs k = 0" using f(8) by simp
qed

text \<open>C11. In every state the workers can reach, each live thread is in exactly one of the three
  queues (running, runnable, blocked) and a dead one in none; a thread is blocked exactly when one
  blocker, and only one, waits for it.\<close>

theorem threads_are_in_one_queue:
  assumes "booted k0" and "leaves_scheduler other"
    and "sched_reaches host (sys_syscall host new_space load other) n (k0, \<lambda>_. Idle) (k, w)"
  shows "count_list (map job_thread (runningJobs k) @ runnableThreads k @ blockedThreads k) t
           = (if t \<in> set (schedThreads k) then 1 else 0)
       \<and> count_list (plain_waiters k @ filter (\<lambda>t. t \<in> set (schedThreads k)) (vmReleaseBlockers k)) t
           = (if t \<in> set (blockedThreads k) then 1 else 0)"
proof -
  have q: "queue_inv k" using run_ok [OF assms] by (simp add: sched_ok_def)
  note d = queue_inv_distinct [OF q]
  have one: "count_list xs t = (if t \<in> set xs then 1 else 0)" if "distinct xs" for xs
    using that by (induction xs) auto
  have "distinct (blockedThreads k)" using d(1) by simp
  moreover have "mset (plain_waiters k @ filter (\<lambda>t. t \<in> set (schedThreads k)) (vmReleaseBlockers k)) = mset (blockedThreads k)"
    using q by (simp add: queue_inv_def waiters_def)
  ultimately have "count_list (plain_waiters k @ filter (\<lambda>t. t \<in> set (schedThreads k)) (vmReleaseBlockers k)) t
      = (if t \<in> set (blockedThreads k) then 1 else 0)"
    by (metis one count_mset)
  moreover have "count_list (map job_thread (runningJobs k) @ runnableThreads k @ blockedThreads k) t
      = (if t \<in> set (schedThreads k) then 1 else 0)" using one [OF d(1)] by (simp only: d(2))
  ultimately show ?thesis by (rule conjI [rotated])
qed

theorem threads_are_in_one_queue_witness:
  "sched_reaches (\<lambda>_ _ _. True) sample_sys 1 (sample_kernel, \<lambda>_. Idle) (sample_picked, (\<lambda>_. Idle)(0 := Picked user_job))
     \<and> count_list (map job_thread (runningJobs sample_picked) @ runnableThreads sample_picked @ blockedThreads sample_picked) 0 = 1"
  using sample_reaches(1) [of "\<lambda>_ _ _. True" sample_sys]
    threads_are_in_one_queue [OF sample_booted sample_reaches(1) [of "\<lambda>_ _ _. True" sample_sys, unfolded sample_sys_def], of 0]
  by (simp add: sample_sys_def sample_picked_def sample_kernel_def)

text \<open>C12. The kernel and atomic instructions run alone: a worker that has picked a system call or an
  atomic slice is the first one, nothing else runs or has been picked, so that the verifications
  ``jobs running while in kernel'' and ``jobs running while atomic'' and the assertion that a kernel
  job is not atomic hold.\<close>

theorem privileged_jobs_run_alone:
  assumes "booted k0" and "leaves_scheduler other"
    and "sched_reaches host (sys_syscall host new_space load other) n (k0, \<lambda>_. Idle) (k, w)"
    and "i < n" and "w i = Picked j" and "isKernelJob j \<or> isAtomicJob j"
  shows "i = 0 \<and> runningJobs k = [j] \<and> numRunningJobs k = 0 \<and> \<not> inKernel k
       \<and> (\<forall>i'<n. i' \<noteq> i \<longrightarrow> w i' = Idle \<or> w i' = Stopped) \<and> (isKernelJob j \<longrightarrow> \<not> job_atomic j)"
proof -
  note ok = run_ok [OF assms(1-3)]
  note f = sched_ok_facts [OF ok] and lone = lone_job [OF ok assms(4-6)]
  have "\<not> job_atomic j" if "isKernelJob j"
    using matches_flags [OF f(13) [OF assms(4,5)]] picked_thread(3) [OF ok assms(4,5)] that
    by (auto simp: isKernelJob_def rested_def one_request_def split: if_splits)
  then show ?thesis using lone f(2) by blast
qed

theorem privileged_jobs_run_alone_witness:
  "sched_reaches (\<lambda>_ _ _. True) sample_sys 1 (sample_kernel, \<lambda>_. Idle) (sample_calls, (\<lambda>_. Idle)(0 := Picked call_job))
     \<and> isKernelJob call_job \<and> runningJobs sample_calls = [call_job] \<and> numRunningJobs sample_calls = 0 \<and> \<not> job_atomic call_job"
proof -
  note r = sample_reaches(2) [of "\<lambda>_ _ _. True" sample_sys]
  have k: "isKernelJob call_job" by (simp add: isKernelJob_def call_job_def)
  show ?thesis
    using r k privileged_jobs_run_alone [OF sample_booted r [unfolded sample_sys_def], of 0 call_job] by simp
qed



section \<open>Futexes\<close>

definition expired :: "precise_time \<Rightarrow> futex_blocker \<Rightarrow> bool" where
  "expired now b = (case fb_timeLimit b of None \<Rightarrow> False | Some l \<Rightarrow> now > l)"

definition ready :: "precise_time \<Rightarrow> u64 \<Rightarrow> futex_blocker \<Rightarrow> bool" where
  "ready now p b \<longleftrightarrow> expired now b \<or> fb_wordPtr b = p"

fun without_first :: "('a \<Rightarrow> bool) \<Rightarrow> nat \<Rightarrow> 'a list \<Rightarrow> 'a list" where
  "without_first P n [] = []"
| "without_first P n (x # xs) =
     (if n = 0 then x # xs else if P x then without_first P (n - 1) xs else x # without_first P n xs)"

definition rax_of :: "nat \<Rightarrow> kernel \<Rightarrow> u64" where
  "rax_of t k = get64 (saved_regs (kthreads k t)) RAX"

lemma set_rax_ok:
  assumes "regs_wf (saved_regs (kthreads k t))"
  obtains r where "set_rax t v k = Inr (update_thread t (\<lambda>x. x\<lparr>saved_regs := r\<rparr>) k)" "get64 r RAX = v" "regs_wf r"
  using assms that by (auto simp: set_rax_def set64_def get64_def regs_wf_def)

text \<open>What waking the threads \<open>us\<close> changes: the queues and the threads themselves.\<close>

definition woke :: "precise_time \<Rightarrow> futex_blocker list \<Rightarrow> kernel \<Rightarrow> kernel \<Rightarrow> bool" where
  "woke now us k k' \<longleftrightarrow> released (map fb_thread us) k k' \<and> ktimers k' = ktimers k \<and>
     (\<forall>b \<in> set us. rax_of (fb_thread b) k' = (if expired now b then word_of_int (- ETIMEDOUT) else 0)) \<and>
     (\<forall>t. t \<notin> fb_thread ` set us \<longrightarrow> kthreads k' t = kthreads k t)"

lemma woke_trans:
  assumes "woke now us a b" "woke now vs b c" "distinct (map fb_thread (us @ vs))"
  shows "woke now (us @ vs) a c"
proof -
  have apart: "fb_thread x \<notin> fb_thread ` set vs" if "x \<in> set us" for x using assms(3) that by auto
  have "rax_of (fb_thread x) c = rax_of (fb_thread x) b" if "x \<in> set us" for x
    using assms(2) apart [OF that] by (simp add: woke_def rax_of_def)
  then show ?thesis using assms released_trans by (auto simp: woke_def image_Un)
qed

text \<open>One waiter.\<close>

lemma wake_one:
  assumes "now_of_timer0 (ktimers k) = Inr now" "regs_wf (saved_regs (kthreads k (fb_thread b)))"
    "inKernel k" "fb_thread b \<in> set (blockedThreads k)"
  shows "if ready now p b
         then \<exists>k1 k2. futex_tryUnblock p b k = Inr (True, k1) \<and> unblock False (fb_thread b) k1 = Inr k2 \<and> woke now [b] k k2
         else futex_tryUnblock p b k = Inr (False, k)"
proof -
  have up: "time_is_up (fb_timeLimit b) k = Inr (expired now b)"
    using assms(1) by (simp add: time_is_up_def expired_def split: option.split)
  show ?thesis
  proof (cases "ready now p b")
    case True
    obtain r where r: "set_rax (fb_thread b) (if expired now b then word_of_int (- ETIMEDOUT) else 0) k
        = Inr (update_thread (fb_thread b) (\<lambda>x. x\<lparr>saved_regs := r\<rparr>) k)"
      "get64 r RAX = (if expired now b then word_of_int (- ETIMEDOUT) else 0)"
      by (rule set_rax_ok [OF assms(2)])
    let ?k1 = "update_thread (fb_thread b) (\<lambda>x. x\<lparr>saved_regs := r\<rparr>) k"
    let ?k2 = "?k1\<lparr>blockedThreads := remove1 (fb_thread b) (blockedThreads k), runnableThreads := runnableThreads k @ [fb_thread b]\<rparr>"
    have f: "futex_tryUnblock p b k = Inr (True, ?k1)"
      using True r(1) up by (auto simp: futex_tryUnblock_def ready_def split: if_splits)
    have u: "unblock False (fb_thread b) ?k1 = Inr ?k2"
      using assms(3,4) by (simp add: unblock_def verifyInKernel_def)
    have "released [fb_thread b] k ?k2"
      using released_trans [OF same_released [OF futex_tryUnblock_same [OF f]] unblock_released [OF u]] by simp
    then have "woke now [b] k ?k2" using r(2) by (simp add: woke_def rax_of_def update_thread_def put_thread_def)
    with f u True show ?thesis by auto
  next
    case False
    then show ?thesis using up by (auto simp: futex_tryUnblock_def ready_def)
  qed
qed

lemma wake_loop_fifo:
  assumes "now_of_timer0 (ktimers k) = Inr now" "inKernel k" "distinct (map fb_thread bs)"
    "fb_thread ` set bs \<subseteq> set (blockedThreads k)" "\<forall>b \<in> set bs. regs_wf (saved_regs (kthreads k (fb_thread b)))"
    "m = 0 \<or> m < n" "c = max 1 (unat n) - unat m"
  shows "\<exists>k'. wake_loop p n m bs k
           = Inr (without_first (ready now p) c bs, m + word_of_nat (length (take c (filter (ready now p) bs))), k')
       \<and> woke now (take c (filter (ready now p) bs)) k k'"
  using assms
proof (induction bs arbitrary: k m c)
  case Nil
  then show ?case by (auto simp: woke_def intro!: same_released)
next
  case (Cons b bs)
  have c: "c > 0" using Cons.prems(6,7) by (auto simp: word_less_nat_alt)
  have inb: "fb_thread b \<in> set (blockedThreads k)" using Cons.prems(4) by simp
  note one = wake_one [OF Cons.prems(1) _ Cons.prems(2) inb, of p]
  show ?case
  proof (cases "ready now p b")
    case False
    have step: "futex_tryUnblock p b k = Inr (False, k)" using one Cons.prems(5) False by simp
    obtain k' where "wake_loop p n m bs k
        = Inr (without_first (ready now p) c bs, m + word_of_nat (length (take c (filter (ready now p) bs))), k')"
      "woke now (take c (filter (ready now p) bs)) k k'"
      using Cons.IH [of k m c] Cons.prems by auto
    then show ?thesis using step False c by simp
  next
    case True
    obtain k1 k2 where step: "futex_tryUnblock p b k = Inr (True, k1)" "unblock False (fb_thread b) k1 = Inr k2"
      "woke now [b] k k2" using one Cons.prems(5) True by auto
    show ?thesis
    proof (cases "n \<le> m + 1")
      case last: True
      have "unat n \<le> unat m + 1" using last by (simp add: word_le_nat_alt unat_word_ariths)
      then have "c = 1" using c Cons.prems(7) by simp
      then show ?thesis using step True last by (cases bs) auto
    next
      case more: False
      have "m + 1 \<noteq> 0"
      proof
        assume "m + 1 = 0"
        then have "m = - 1" by (simp add: eq_neg_iff_add_eq_0)
        then show False using Cons.prems(6) by (auto simp: word_order.extremum_strict)
      qed
      then have m: "unat (m + 1) = unat m + 1" using unatSuc [of m] by (simp add: add.commute)
      then have c': "c - 1 = max 1 (unat n) - unat (m + 1)" "m + 1 < n" "c \<noteq> 1"
        using more Cons.prems(7) by (auto simp: word_le_nat_alt word_less_nat_alt)
      have k2: "now_of_timer0 (ktimers k2) = Inr now" "inKernel k2" using step(3) Cons.prems(1,2)
        by (auto simp: woke_def dest: released_views(3))
      have d: "fb_thread x \<noteq> fb_thread b" if "x \<in> set bs" for x
        using Cons.prems(3) imageI [OF that, of fb_thread] by (metis distinct.simps(2) list.simps(9) list.set_map)
      have "mset (blockedThreads k) = mset (blockedThreads k2) + {#fb_thread b#}"
        using step(3) by (simp add: woke_def released_def)
      then have "set (blockedThreads k) = insert (fb_thread b) (set (blockedThreads k2))"
        by (metis set_mset_mset set_mset_add_mset_insert add_mset_add_single)
      then have sub: "fb_thread ` set bs \<subseteq> set (blockedThreads k2)" using Cons.prems(4) d by auto
      have regs: "\<forall>x \<in> set bs. regs_wf (saved_regs (kthreads k2 (fb_thread x)))"
        using step(3) Cons.prems(5) d by (simp add: woke_def)
      obtain k' where k': "wake_loop p n (m + 1) bs k2
          = Inr (without_first (ready now p) (c - 1) bs, m + 1 + word_of_nat (length (take (c - 1) (filter (ready now p) bs))), k')"
        "woke now (take (c - 1) (filter (ready now p) bs)) k2 k'"
        using Cons.IH [OF k2 _ sub regs _ c'(1)] Cons.prems(3) c'(2) by auto
      let ?ws = "take (c - 1) (filter (ready now p) bs)"
      have ws: "set ?ws \<subseteq> set bs" "distinct ?ws" "inj_on fb_thread (set bs)"
        using Cons.prems(3) by (auto simp: distinct_map dest: in_set_takeD)
      then have "distinct (map fb_thread ?ws)" by (simp only: distinct_map inj_on_subset simp_thms)
      moreover have "fb_thread b \<notin> fb_thread ` set ?ws" using d ws(1) by (metis imageE subsetD)
      ultimately have "distinct (map fb_thread ([b] @ ?ws))" by simp
      from woke_trans [OF step(3) k'(2) this] show ?thesis
        using step True more c k'(1) by (simp add: take_Cons' add.commute add.left_commute)
    qed
  qed
qed

text \<open>C14. Futexes are fair and lose no thread: \<^verbatim>\<open>Scheduler::wake\<close> takes the waiters in the order in
  which they came, skips those of other addresses whose time is not up, and wakes the first
  \<open>nbWaiters\<close> of the rest (one, when asked for none). These, and no other thread, become runnable in
  this order behind the runnable ones, return 0 or \<open>-ETIMEDOUT\<close> from their system call and leave the
  list; the number returned is how many they are.\<close>

theorem wake_is_fifo:
  assumes "queue_inv k" and "inKernel k" and "now_of_timer0 (ktimers k) = Inr now"
    and "\<forall>b \<in> set (futexBlockers k). regs_wf (saved_regs (kthreads k (fb_thread b)))"
    and "woken = take (max 1 (unat nbWaiters)) (filter (\<lambda>b. expired now b \<or> fb_wordPtr b = addr) (futexBlockers k))"
  shows "\<exists>k'. wake addr nbWaiters k = Inr (word_of_nat (length woken), k')
       \<and> runnableThreads k' = runnableThreads k @ map fb_thread woken
       \<and> (\<forall>t. t \<in> set (blockedThreads k') \<longleftrightarrow> t \<in> set (blockedThreads k) \<and> t \<notin> fb_thread ` set woken)
       \<and> futexBlockers k' = without_first (\<lambda>b. expired now b \<or> fb_wordPtr b = addr) (max 1 (unat nbWaiters)) (futexBlockers k)
       \<and> (\<forall>b \<in> set woken. rax_of (fb_thread b) k' = (if expired now b then - word_of_int ETIMEDOUT else 0))
       \<and> queue_inv k'"
proof -
  have R: "(\<lambda>b. expired now b \<or> fb_wordPtr b = addr) = ready now addr" by (simp add: ready_def fun_eq_iff)
  note d = queue_inv_distinct [OF assms(1)]
  have m: "mset (blockedThreads k) = mset (plain_waiters k) + filter_mset (\<lambda>t. t \<in> set (schedThreads k)) (mset (vmReleaseBlockers k))"
    using assms(1) by (simp add: queue_inv_def waiters_def)
  have "mset (blockedThreads k) = mset (plain_waiters k @ filter (\<lambda>t. t \<in> set (schedThreads k)) (vmReleaseBlockers k))"
    using m by simp
  from mset_eq_imp_distinct_iff [OF this]
  have "distinct (plain_waiters k @ filter (\<lambda>t. t \<in> set (schedThreads k)) (vmReleaseBlockers k))" using d(1) by simp
  then have dist: "distinct (map fb_thread (futexBlockers k))" by (simp add: plain_waiters_def)
  have "set_mset (mset (plain_waiters k)) \<subseteq> set_mset (mset (blockedThreads k))" unfolding m by simp
  then have sub: "fb_thread ` set (futexBlockers k) \<subseteq> set (blockedThreads k)" by (auto simp: plain_waiters_def)
  have len: "length woken \<le> max 1 (unat nbWaiters)" by (simp add: assms(5))
  obtain k1 where l: "wake_loop addr nbWaiters 0 (futexBlockers k) k
      = Inr (without_first (ready now addr) (max 1 (unat nbWaiters)) (futexBlockers k), word_of_nat (length woken), k1)"
    and k1: "woke now woken k k1"
    using wake_loop_fifo [OF assms(3,2) dist sub assms(4), of 0 nbWaiters "max 1 (unat nbWaiters)" addr]
    by (auto simp: assms(5) R)
  let ?k = "k1\<lparr>futexBlockers := without_first (ready now addr) (max 1 (unat nbWaiters)) (futexBlockers k)\<rparr>"
  have w: "wake addr nbWaiters k = Inr (word_of_nat (length woken), ?k)"
    using l assms(2) by (simp add: wake_def verifyInKernel_def)
  have rel: "released (map fb_thread woken) k k1" using k1 by (simp add: woke_def)
  have b: "mset (blockedThreads k) = mset (blockedThreads k1 @ map fb_thread woken)" using rel by (simp add: released_def)
  have "distinct (blockedThreads k1 @ map fb_thread woken)" using d(1) mset_eq_imp_distinct_iff [OF b] by simp
  moreover have "set (blockedThreads k) = set (blockedThreads k1 @ map fb_thread woken)" using b by (rule mset_eq_setD)
  ultimately have "t \<in> set (blockedThreads ?k) \<longleftrightarrow> t \<in> set (blockedThreads k) \<and> t \<notin> fb_thread ` set woken" for t by auto
  moreover have "queue_inv ?k" using wake_step [OF w] assms(1) by (simp add: kernel_step_def)
  ultimately show ?thesis
    using w k1 rel unfolding R by (intro exI [of _ ?k]) (auto simp: woke_def released_def rax_of_def)
qed

theorem wake_is_fifo_witness:
  "\<exists>k'. wake 4096 1 sample_futexes = Inr (1, k') \<and> runnableThreads k' = [1] \<and> futexBlockers k' = [sample_waits 2]
     \<and> rax_of 1 k' = 0 \<and> queue_inv k'"
proof -
  have views: "inKernel sample_futexes" "now_of_timer0 (ktimers sample_futexes) = Inr (PreciseTime 5 0)"
    "futexBlockers sample_futexes = [sample_waits 1, sample_waits 2]" "runnableThreads sample_futexes = []"
    "kthreads sample_futexes = (\<lambda>_. new_thread 0 1 1)"
    by (simp_all add: sample_futexes_def sample_kernel_def now_of_timer0_def)
  have regs: "\<forall>b \<in> set (futexBlockers sample_futexes). regs_wf (saved_regs (kthreads sample_futexes (fb_thread b)))"
    by (simp add: views new_thread_def regs_wf_init)
  have e: "expired now (sample_waits t) = False" "fb_wordPtr (sample_waits t) = 4096" "fb_thread (sample_waits t) = t"
    for now t by (simp_all add: expired_def sample_waits_def)
  show ?thesis
    using wake_is_fifo [OF sample_futexes_inv views(1,2) regs refl, where nbWaiters = 1 and addr = 4096] by (auto simp: views e)
qed

end
