(* ===== verification/X64_SleepSpec.thy ===== *)
theory X64_SleepSpec
  imports X64_SchedSpec
begin

text \<open>
  Time passes while every thread sleeps, and the exit of a process reaches its parent.
\<close>

section \<open>Sleeping\<close>

text \<open>Every thread waits for the clock.\<close>

definition asleep :: "kernel \<Rightarrow> bool" where
  "asleep k \<longleftrightarrow> runningJobs k = [] \<and> runnableThreads k = [] \<and> sleepBlockers k \<noteq> [] \<and>
     mset (blockedThreads k) = mset (map slb_thread (sleepBlockers k)) \<and>
     futexBlockers k = [] \<and> pollBlockers k = [] \<and> selectBlockers k = [] \<and> epollWaitBlockers k = [] \<and>
     waitBlockers k = [] \<and> readBlockers k = [] \<and> vmReleaseBlockers k = [] \<and>
     distinct (map timer_id (ktimers k)) \<and> list_all (\<lambda>b. slb_timer b < length (ktimers k)) (sleepBlockers k)"

definition due :: "kernel \<Rightarrow> sleep_blocker \<Rightarrow> bool" where
  "due k b \<longleftrightarrow> slb_targetTime b \<le> currentTime k"

lemma timer_index_nth:
  "distinct (map timer_id ts) \<Longrightarrow> n < length ts \<Longrightarrow> timer_index (timer_id (ts ! n)) ts = Some n"
proof (induction ts arbitrary: n)
  case (Cons t ts)
  then show ?case by (cases n) auto
qed simp

text \<open>Asking one sleeper, when the timers show the present.\<close>

lemma ask_sleeper:
  assumes "distinct (map timer_id (ktimers k))" "slb_timer b < length (ktimers k)"
    "timer_now (ktimers k ! slb_timer b) = currentTime k"
  shows "if due k b then \<exists>k'. sleep_tryUnblock b k = Inr (True, k') \<and> same_sched k k' \<and> ktimers k' = ktimers k
         else sleep_tryUnblock b k = Inr (False, k)"
proof -
  have g: "getOrTryCreate (timer_id (ktimers k ! slb_timer b)) (ktimers k) = (slb_timer b, ktimers k)"
    using timer_index_nth [OF assms(1,2)] by (simp add: getOrTryCreate_def)
  show ?thesis
  proof (cases "due k b")
    case True
    obtain k' where k': "set_rax (slb_thread b) 0 k = Inr k'" by (simp add: set_rax_def set64_def)
    then have "ktimers k' = ktimers k" by (auto simp: set_rax_def rbind_eq_Inr update_thread_def put_thread_def)
    then show ?thesis using True k' g assms(3) set_rax_same [OF k']
      by (auto simp: sleep_tryUnblock_def due_def not_less)
  next
    case False
    then show ?thesis using g assms(3) by (simp add: sleep_tryUnblock_def due_def not_le)
  qed
qed

lemma ask_sleepers:
  assumes "distinct (map timer_id (ktimers k))"
    "\<forall>b \<in> set bs. slb_timer b < length (ktimers k) \<and> timer_now (ktimers k ! slb_timer b) = currentTime k"
    "mset (map slb_thread bs) \<subseteq># mset (blockedThreads k)"
  shows "\<exists>k'. unblock_all sleep_tryUnblock slb_thread bs k
           = Inr (filter (\<lambda>b. \<not> due k b) bs, filter (due k) bs \<noteq> [], k')
       \<and> released (map slb_thread (filter (due k) bs)) k k' \<and> ktimers k' = ktimers k \<and> (filter (due k) bs = [] \<longrightarrow> k' = k)"
  using assms
proof (induction bs arbitrary: k)
  case Nil
  then show ?case by (auto intro: same_released)
next
  case (Cons b bs)
  note one = ask_sleeper [OF Cons.prems(1), of b]
  show ?case
  proof (cases "due k b")
    case False
    have "mset (map slb_thread bs) \<subseteq># mset (blockedThreads k)"
      using Cons.prems(3) by (auto dest: mset_subset_eq_insertD simp: subset_mset.less_imp_le)
    then obtain k' where "unblock_all sleep_tryUnblock slb_thread bs k
           = Inr (filter (\<lambda>b. \<not> due k b) bs, filter (due k) bs \<noteq> [], k')"
       "released (map slb_thread (filter (due k) bs)) k k'" "ktimers k' = ktimers k" "filter (due k) bs = [] \<longrightarrow> k' = k"
      using Cons.IH [of k] Cons.prems by auto
    then show ?thesis using one Cons.prems(2) False by simp
  next
    case True
    then obtain k1 where k1: "sleep_tryUnblock b k = Inr (True, k1)" "same_sched k k1" "ktimers k1 = ktimers k"
      using one Cons.prems(2) by auto
    have "slb_thread b \<in> set (blockedThreads k)"
      using Cons.prems(3) by (metis in_multiset_in_set list.simps(9) list.set_intros(1) mset_subset_eqD)
    then have "slb_thread b \<in> set (blockedThreads k1)" using same_views(12) [OF k1(2)] by simp
    then obtain k2 where u: "unblock True (slb_thread b) k1 = Inr k2" by (simp add: unblock_def)
    have r: "released [slb_thread b] k k2"
      using released_trans [OF same_released [OF k1(2)] unblock_released [OF u]] by simp
    have k2: "ktimers k2 = ktimers k" "currentTime k2 = currentTime k"
      using u k1(3) released_views(5) [OF r] by (auto simp: unblock_def rbind_eq_Inr)
    have due: "due k2 = due k" by (simp add: due_def k2 fun_eq_iff)
    have "mset (blockedThreads k) = add_mset (slb_thread b) (mset (blockedThreads k2))" using r by (simp add: released_def)
    then have "mset (map slb_thread bs) \<subseteq># mset (blockedThreads k2)" using Cons.prems(3) by simp
    then obtain k' where k': "unblock_all sleep_tryUnblock slb_thread bs k2
           = Inr (filter (\<lambda>b. \<not> due k b) bs, filter (due k) bs \<noteq> [], k')"
       "released (map slb_thread (filter (due k) bs)) k2 k'" "ktimers k' = ktimers k"
      using Cons.IH [of k2] Cons.prems(1,2) by (auto simp: k2 due)
    then show ?thesis using True k1(1) u released_trans [OF r k'(2)] by simp
  qed
qed

lemma empty_lists:
  "pollBlockers k = [] \<Longrightarrow> k\<lparr>pollBlockers := []\<rparr> = k" "selectBlockers k = [] \<Longrightarrow> k\<lparr>selectBlockers := []\<rparr> = k"
  "epollWaitBlockers k = [] \<Longrightarrow> k\<lparr>epollWaitBlockers := []\<rparr> = k" "futexBlockers k = [] \<Longrightarrow> k\<lparr>futexBlockers := []\<rparr> = k"
  "waitBlockers k = [] \<Longrightarrow> k\<lparr>waitBlockers := []\<rparr> = k" "readBlockers k = [] \<Longrightarrow> k\<lparr>readBlockers := []\<rparr> = k"
  "vmReleaseBlockers k = [] \<Longrightarrow> k\<lparr>vmReleaseBlockers := []\<rparr> = k" "k\<lparr>sleepBlockers := sleepBlockers k\<rparr> = k"
  by (cases k; simp)+

lemma updateAll_twice: "updateAll c (updateAll c ts) = updateAll c ts"
  by (simp add: updateAll_def)

text \<open>A round of \<^verbatim>\<open>tryUnblockThreads\<close> while all sleep.\<close>

lemma unblock_asleep:
  assumes "asleep k"
  shows "\<exists>k'. tryUnblockThreads host k = Inr (filter (due k) (sleepBlockers k) \<noteq> [], k')
       \<and> runnableThreads k' = map slb_thread (filter (due k) (sleepBlockers k))
       \<and> (filter (due k) (sleepBlockers k) = [] \<longrightarrow> k' = k\<lparr>ktimers := updateAll (currentTime k) (ktimers k)\<rparr>)"
proof -
  let ?k = "k\<lparr>ktimers := updateAll (currentTime k) (ktimers k)\<rparr>"
  have due: "due ?k = due k" by (simp add: due_def fun_eq_iff)
  have t: "distinct (map timer_id (ktimers ?k))"
    "\<forall>b \<in> set (sleepBlockers k). slb_timer b < length (ktimers ?k) \<and> timer_now (ktimers ?k ! slb_timer b) = currentTime ?k"
    "mset (map slb_thread (sleepBlockers k)) \<subseteq># mset (blockedThreads ?k)"
    using assms by (auto simp: asleep_def updateAll_def comp_def list_all_iff)
  obtain k1 where k1: "unblock_all sleep_tryUnblock slb_thread (sleepBlockers k) ?k
       = Inr (filter (\<lambda>b. \<not> due k b) (sleepBlockers k), filter (due k) (sleepBlockers k) \<noteq> [], k1)"
    "released (map slb_thread (filter (due k) (sleepBlockers k))) ?k k1" "ktimers k1 = ktimers ?k"
    "filter (due k) (sleepBlockers k) = [] \<longrightarrow> k1 = ?k"
    using ask_sleepers [OF t] unfolding due by blast
  let ?k2 = "k1\<lparr>sleepBlockers := filter (\<lambda>b. \<not> due k b) (sleepBlockers k),
                ktimers := updateAll (currentTime k1) (ktimers k1)\<rparr>"
  have e: "pollBlockers ?k2 = []" "selectBlockers ?k2 = []" "epollWaitBlockers ?k2 = []" "futexBlockers ?k2 = []"
    "waitBlockers ?k2 = []" "readBlockers ?k2 = []" "vmReleaseBlockers ?k2 = []"
    using k1(2) assms by (auto simp: released_def blockers_view_def asleep_def)
  have "unblock_list sleep_tryUnblock slb_thread sleepBlockers (\<lambda>bs. sleepBlockers_update (\<lambda>_. bs)) (False, ?k)
      = Inr (filter (due k) (sleepBlockers k) \<noteq> [], k1\<lparr>sleepBlockers := filter (\<lambda>b. \<not> due k b) (sleepBlockers k)\<rparr>)"
    using k1(1) by (simp add: unblock_list_def)
  then have "tryUnblockThreads host k = Inr (filter (due k) (sleepBlockers k) \<noteq> [], ?k2)"
    using e by (simp add: tryUnblockThreads_def unblock_list_def empty_lists)
  moreover have "runnableThreads ?k2 = map slb_thread (filter (due k) (sleepBlockers k))"
    using k1(2) assms by (simp add: released_def asleep_def)
  moreover have "?k2 = ?k" if "filter (due k) (sleepBlockers k) = []"
  proof -
    have "filter (\<lambda>b. \<not> due k b) (sleepBlockers k) = sleepBlockers k"
      using that by (auto simp: filter_empty_conv intro: filter_True)
    then show ?thesis using that k1(4) by (simp add: updateAll_twice)
  qed
  ultimately show ?thesis by blast
qed

lemma pick_asleep:
  assumes "asleep k"
  shows "if filter (due k) (sleepBlockers k) \<noteq> []
         then \<exists>k'. tryPickNext host vm k = Inr (Again, k') \<and> runnableThreads k' = map slb_thread (filter (due k) (sleepBlockers k))
         else tryPickNext host vm k = Inr (Wait, advance_time (k\<lparr>ktimers := updateAll (currentTime k) (ktimers k)\<rparr>))"
proof -
  let ?k = "k\<lparr>ktimers := updateAll (currentTime k) (ktimers k)\<rparr>"
  have may: "may_pick vm k" using assms by (simp add: may_pick_def allThreadsBlocked_def asleep_def)
  obtain k' where u: "tryUnblockThreads host k = Inr (filter (due k) (sleepBlockers k) \<noteq> [], k')"
    "runnableThreads k' = map slb_thread (filter (due k) (sleepBlockers k))"
    "filter (due k) (sleepBlockers k) = [] \<longrightarrow> k' = ?k" using unblock_asleep [OF assms] by blast
  show ?thesis
  proof (cases "filter (due k) (sleepBlockers k) = []")
    case True
    have "mset (blockedThreads k) \<noteq> {#}" "sleepBlockers k \<noteq> []" using assms by (auto simp: asleep_def)
    moreover have "futexBlockers k = []" using assms by (simp add: asleep_def)
    ultimately have "\<not> deadlock ?k" "\<not> allThreadsDead ?k" "needsToWaitForNewThreads ?k"
      by (auto simp: deadlock_def allThreadsDead_def needsToWaitForNewThreads_def list_all_iff)
    moreover have "threadToRun vm ?k = None" using assms by (simp add: threadToRun_def asleep_def)
    ultimately show ?thesis using u True may by (simp add: tryPickNext_def)
  next
    case False
    then show ?thesis using u may by (simp add: tryPickNext_def)
  qed
qed

text \<open>Time in nanoseconds, and what a wait adds to it.\<close>

definition ns_of :: "precise_time \<Rightarrow> nat" where
  "ns_of t = unat (seconds t) * 1000000000 + unat (nanoseconds t)"

lemma advance_ns:
  assumes "time_ok t" "ns_of t + 1000000 < 2 ^ 64"
  shows "ns_of (max t (time_add t (fromNanoSeconds 1000000))) = ns_of t + 1000000"
    "time_ok (max t (time_add t (fromNanoSeconds 1000000)))"
proof -
  obtain s n where t: "t = PreciseTime s n" by (cases t)
  have n: "unat n \<le> 1000000000" and sn: "unat s * 1000000000 + unat n + 1000000 < 2 ^ 64"
    using assms by (simp_all add: t time_ok_def NS_PER_S_def word_le_nat_alt ns_of_def)
  have d: "fromNanoSeconds 1000000 = TimeDifference 0 1000000" by (simp add: fromNanoSeconds_def NS_PER_S_def)
  have un: "unat (n + 1000000) = unat n + 1000000" using n by (simp add: unat_word_ariths)
  let ?t = "time_add (PreciseTime s n) (fromNanoSeconds 1000000)"
  have "PreciseTime s n \<le> ?t \<and> ns_of ?t = ns_of (PreciseTime s n) + 1000000 \<and> time_ok ?t"
  proof (cases "unat n + 1000000 > 1000000000")
    case True
    have s1: "unat (s + 1) = unat s + 1" using sn by (simp add: unat_word_ariths)
    have q: "(n + 1000000) div 1000000000 = 1" "unat ((n + 1000000) mod 1000000000) = unat n + 1000000 - 1000000000"
    proof -
      have "(unat n + 1000000) div 1000000000 = 1" "(unat n + 1000000) mod 1000000000 = unat n + 1000000 - 1000000000"
        using True n by (simp_all add: mod_if div_if)
      then show "(n + 1000000) div 1000000000 = 1" "unat ((n + 1000000) mod 1000000000) = unat n + 1000000 - 1000000000"
        by (simp_all add: word_unat_eq_iff unat_div unat_mod un)
    qed
    have tt: "?t = PreciseTime (s + 1) ((n + 1000000) mod 1000000000)"
      using True un by (simp add: d time_add_def Let_def NS_PER_S_def word_less_nat_alt q(1))
    have "s < s + 1" using s1 by (simp add: word_less_nat_alt)
    then have "PreciseTime s n \<le> ?t" unfolding tt by (simp add: less_eq_precise_time_def less_precise_time_def)
    moreover have "ns_of ?t = ns_of (PreciseTime s n) + 1000000" using True unfolding tt by (simp add: ns_of_def s1 q(2))
    moreover have "time_ok ?t" unfolding tt using n sn True
      by (simp add: time_ok_def NS_PER_S_def word_le_nat_alt s1 q(2))
    ultimately show ?thesis by blast
  next
    case False
    have tt: "?t = PreciseTime s (n + 1000000)"
      using False un by (simp add: d time_add_def Let_def NS_PER_S_def word_less_nat_alt)
    have "n < n + 1000000" using un by (simp add: word_less_nat_alt)
    then have "PreciseTime s n \<le> ?t" unfolding tt by (simp add: less_eq_precise_time_def less_precise_time_def)
    then show ?thesis using False sn unfolding tt
      by (simp add: ns_of_def un time_ok_def NS_PER_S_def word_le_nat_alt)
  qed
  then show "ns_of (max t (time_add t (fromNanoSeconds 1000000))) = ns_of t + 1000000"
    "time_ok (max t (time_add t (fromNanoSeconds 1000000)))" by (simp_all add: max_def t)
qed

lemma ns_le:
  assumes "a \<le> b" "time_ok a" "time_ok b"
  shows "ns_of a \<le> ns_of b"
  using time_count_mono(1) [OF assms(1) _ assms(3)] assms(2,3)
  by (simp add: time_ok_def ns_of_def word_le_nat_alt time_count_nat)

text \<open>A worker that asks for a job \<open>m\<close> times and is told to wait each time.\<close>

fun waits :: "host_mprotect \<Rightarrow> tagged_vm \<Rightarrow> nat \<Rightarrow> kernel \<Rightarrow> kernel result" where
  "waits host vm 0 k = Inr k"
| "waits host vm (Suc m) k =
     rbind (tryPickNext host vm k) (\<lambda>(c, k). rbind (verify (c = Wait)) (\<lambda>_. waits host vm m k))"



end
