(* ===== verification/X64_FamilySpec.thy ===== *)
theory X64_FamilySpec
  imports X64_SchedSpec
begin

text \<open>
  The exit of a process and the wait of its parent, \<^verbatim>\<open>process.cpp\<close> and the class \<^verbatim>\<open>WaitBlocker\<close>.
\<close>

text \<open>The macros with which a guest takes a status word apart.\<close>

definition WEXITSTATUS :: "u32 \<Rightarrow> u32" where "WEXITSTATUS w = drop_bit 8 w AND 255"
definition WTERMSIG :: "u32 \<Rightarrow> u32" where "WTERMSIG w = w AND 127"

lemma wait_status_parts:
  assumes "0 \<le> status" "status < 256"
  shows "\<exists>w. wait_status \<lparr>ec_pid = i, ec_status = status, ec_signal = None\<rparr> = Inr w
     \<and> WEXITSTATUS w = word_of_int status \<and> WTERMSIG w = 0"
proof -
  have p: "(256 :: int) = 2 ^ 8" "(255 :: u32) = mask 8" "(127 :: u32) = mask 7" by (simp_all add: mask_eq_exp_minus_1)
  have s: "status = take_bit 8 status" using assms by (simp add: take_bit_int_eq_self)
  have "WEXITSTATUS (word_of_int (status * 256)) = word_of_int status"
    unfolding WEXITSTATUS_def p push_bit_eq_mult [symmetric]
    by (subst (2) s) (rule bit_word_eqI, auto simp: bit_simps)
  moreover have "WTERMSIG (word_of_int (status * 256)) = 0"
    unfolding WTERMSIG_def p push_bit_eq_mult [symmetric] by (rule bit_word_eqI) (auto simp: bit_simps)
  ultimately show ?thesis using assms by (simp add: wait_status_def)
qed

lemma first_such_append:
  "first_such P xs = None \<Longrightarrow> first_such P (xs @ ys) = first_such P ys"
  by (induction xs) (auto split: if_splits)

lemma remove_first_append:
  "first_such P xs = None \<Longrightarrow> remove_first P (xs @ ys) = xs @ remove_first P ys"
  by (induction xs) (auto split: if_splits)


text \<open>A parent with two children, of which one exits with status 3.\<close>

definition sample_family :: kernel where
  "sample_family = sample_kernel\<lparr>nextProcess := 3,
     kprocesses := (\<lambda>p. if p = 0 then init_process\<lparr>children := [1, 2]\<rparr>
                        else init_process\<lparr>pid := int p + 1, parent := Some 0\<rparr>)\<rparr>"

definition sample_parent :: wait_blocker where
  "sample_parent = \<lparr>wb_thread = 0, wb_pid = 2, wb_wstatus = 0\<rparr>"


end
