(* ===== verification/Spec2Isabelle.thy ===== *)
theory Spec2Isabelle
  imports X64_StringCompare X64_Registers X64_MmuReach X64_CpuLoops X64_OptimizerHost X64_FdSpec X64_SleepSpec X64_FamilySpec
begin

text \<open>
  A model of the core of x64emulator, an emulator of 64-bit Linux programs written in C++, and the
  theorems that make it correct. Paths are below \<^verbatim>\<open>src/\<close>.

  \<^bold>\<open>The program.\<close> A guest program runs on a \<^verbatim>\<open>Cpu\<close> (\<^verbatim>\<open>emulator/src/x64/cpu.cpp\<close>), which decodes
  nothing itself: it executes instructions that a third-party disassembler has turned into values. It
  keeps the register file and the flags, reads and writes guest memory through the \<^verbatim>\<open>Mmu\<close>
  (\<^verbatim>\<open>mmu.cpp\<close>), and calls \<^verbatim>\<open>CpuImpl\<close> (\<^verbatim>\<open>cpuimpl.cpp\<close>) for the arithmetic of every instruction.
  Hot blocks are translated by a just-in-time compiler into an intermediate representation
  (\<^verbatim>\<open>compiler/ir.cpp\<close>), optimized (\<^verbatim>\<open>compiler/optimizer.cpp\<close>) and assembled. The kernel part
  answers system calls, schedules threads and holds the file descriptors.

  \<^bold>\<open>Conventions.\<close> Fixed-width integers are words and wrap around as in the code. A pure function of
  the source is a HOL function; one that changes an object takes the object's record and returns it
  updated. A failing \<^verbatim>\<open>verify\<close> is the result \<open>Inl VerifyFailed\<close>, a failing \<^verbatim>\<open>assert\<close> is
  \<open>Inl AssertFailed\<close>, and what C++17 leaves undefined (a shift by the width, an index out of an array)
  is a branch \<open>Inl\<close> of its own, so that a theorem that the result is \<open>Inr\<close> also says that the code has a
  defined meaning there. Loops are structural recursion or \<open>function\<close> with a measure.

  \<^bold>\<open>Theories.\<close>
  \<^item> \<open>X64_Prelude\<close>: results and their bind, words, counting bits, lists split at a partition point.
  \<^item> \<open>X64_Lanes\<close>: a machine word as a list of lanes and back, the memory layout of the packed
    instructions; the locale \<open>lane_codec\<close> states that the two directions are inverse and is
    interpreted for every shape in use.
  \<^item> \<open>X64_Flags\<close> (\<^verbatim>\<open>include/x64/flags.h\<close>): the flags with their deferred parity, the condition
    codes and the RFLAGS conversion. The lemmas show that forcing the parity is unobservable.
  \<^item> \<open>X64_Registers\<close> (\<^verbatim>\<open>registers.h\<close>, \<^verbatim>\<open>types.h\<close>): the register file and its partial
    registers, address computation.
  \<^item> \<open>X64_Alu\<close>, \<open>X64_Bits\<close>, \<open>X64_Simd\<close>, \<open>X64_SimdPack\<close>, \<open>X64_StringCompare\<close> (\<^verbatim>\<open>cpuimpl.cpp\<close>):
    integer arithmetic; logic, shifts, rotates and bit scans; packed arithmetic, shuffles, shifts;
    packs, alignments, extensions, blends, CRC; the string comparison instructions. The lemmas relate
    each routine to exact arithmetic on unbounded integers, lane by lane for the packed ones.
  \<^item> \<open>X64_Mmu\<close> (\<^verbatim>\<open>mmu.cpp\<close>, \<^verbatim>\<open>mmu.h\<close>): regions, page table, mapping and accesses.
    \<open>X64_MmuInv\<close> states the invariant (aligned, sorted, disjoint, active regions with which the page
    table and the callbacks agree), \<open>X64_MmuOps\<close> and \<open>X64_MmuProtect\<close> show what each operation does to
    it, \<open>X64_MmuSpec\<close> abstracts an address space to the pages mapped with their protections and
    specifies mmap, munmap, mprotect and brk on it, \<open>X64_MmuMemory\<close> is about the contents (the locale
    \<open>byte_memory\<close>, interpreted on the Mmu), and \<open>X64_MmuReach\<close> collects the calls in one step relation
    and proves the invariant of all reachable states. The host's mprotect is the parameter
    \<open>host_mprotect\<close> of the operations that call it.
  \<^item> \<open>X64_Cpu\<close>, \<open>X64_CpuInt\<close>, \<open>X64_CpuBits\<close>, \<open>X64_CpuString\<close>, \<open>X64_CpuVector\<close> (\<^verbatim>\<open>cpu.cpp\<close>,
    \<^verbatim>\<open>cpu.h\<close>): the state of the processor, its operands and stack, and a definition for each
    handler of the integer, control flow, string and vector integer instructions, named after it; the
    copies of a handler for the operand sizes are one definition with the size as an argument.
    \<open>X64_CpuExec\<close> runs basic blocks, with the locale \<open>register_size\<close> for what handlers rely on of the
    registers of one size, and \<open>X64_CpuSafe\<close> shows that no instruction leaves its bounds.
    \<open>X64_CpuContracts\<close> is about instructions that work together (lock prefixes, calls and returns,
    comparisons and branches), \<open>X64_CpuLoops\<close> about the string loops.
  \<^item> \<open>X64_BitMask\<close> (\<^verbatim>\<open>include/bitmask.h\<close>): a mask is the set of its positions.
  \<^item> \<open>X64_Ir\<close>, \<open>X64_Optimizer\<close>: the intermediate representation and the optimizer, as written.
    \<open>X64_OptimizerSem\<close> gives blocks a meaning on registers and memory cells, with the operations other
    than moves uninterpreted, and shows each pass to preserve it on straight-line general purpose
    blocks: the three copy passes remove instructions that change nothing when they are reached, dead
    code elimination keeps what is live. \<open>X64_OptimizerHost\<close> refines the cells to the bytes of the host
    machine, where the result is stated.
  \<^item> \<open>X64_Files\<close>, \<open>X64_Descriptors\<close> (\<^verbatim>\<open>emulator/src/kernel/linux/fs/\<close>): pipes, event counters,
    epoll lists and memory files, open file descriptions, the operations of the classes \<^verbatim>\<open>FS\<close> and
    \<^verbatim>\<open>FileDescriptors\<close> on them. Pointers are numbers into stores, so that following one to an object that
    is gone is a failure. \<open>X64_FdInv\<close> states what the reference counts, the endpoints of the pipes and the
    tables agree on, \<open>X64_FdReach\<close> shows that every call on any table keeps it, in one step relation over
    the tables of all processes, and \<open>X64_FdSpec\<close> draws the conclusions: closing never fails, duplicating
    and closing cancel out, a pipe is a queue.
  \<^item> \<open>X64_Time\<close> (\<^verbatim>\<open>timers.h\<close>, \<^verbatim>\<open>timers.cpp\<close>, \<^verbatim>\<open>vmthread.h\<close>): times, an instance of \<open>linorder\<close>,
    timers and the instruction clock of a thread. \<open>X64_Kernel\<close> (\<^verbatim>\<open>thread.h\<close>, \<^verbatim>\<open>process.cpp\<close>,
    \<^verbatim>\<open>threadblocker.cpp\<close>): the record \<open>kernel\<close> with all threads, processes, address spaces, files and the
    members of the class \<^verbatim>\<open>Scheduler\<close>; the process tree; each kind of blocker with its \<^verbatim>\<open>tryUnblock\<close>.
    \<open>X64_Scheduler\<close> (\<^verbatim>\<open>scheduler.cpp\<close>): blocking, waking, termination, the choice of the next job.
    \<open>X64_Syscalls\<close> (\<^verbatim>\<open>syscalls.cpp\<close>): the dispatcher and the handlers for memory, descriptors, time,
    futexes, threads and processes.
  \<^item> \<open>X64_SchedInv\<close>: the invariant of the queues of the scheduler and what an operation may do to them,
    with the locale \<open>blockers\<close> for the contract of a kind of blocker. \<open>X64_SysInv\<close> interprets it for the
    eight kinds and shows that every handler keeps the invariant. \<open>X64_SchedReach\<close> has the workers, as a
    step relation interleaved at the scheduler's mutex, and the invariant of all states they reach.
    \<open>X64_SchedSpec\<close> draws the conclusions: a thread is in one queue, system calls and atomic slices run
    alone, slices start, futexes wake in order. \<open>X64_SleepSpec\<close> shows that sleepers wake up as the
    scheduler's time passes, \<open>X64_FamilySpec\<close> that the exit status of a process reaches its parent;
    \<open>X64_SchedSample\<close> has the small kernels on which these theorems are applied.

  \<^bold>\<open>Bounds and fuel.\<close> The loops of the source that walk memory (string scans, the mincore loop) end
  because the mapped range does; their models carry the number of pages or bytes left, which is the
  length of the range and therefore enough. The optimizer loop ends because every pass that reports
  work shortens the block. The string instructions recurse on their counter. The runs of the scheduler
  are those in which its clock stays below \<open>2\<^sup>6\<^sup>4\<close> nanoseconds, where the code's arithmetic wraps.

  The processor asserts are kept as failures, and its handlers call \<open>CpuImpl\<close>, as the release build
  does; the checked build runs each routine a second time on the host and compares. The objects told
  about calls, returns and system calls are outside: the log \<open>cpu_events\<close> is what they are told.

  \<^bold>\<open>Not modelled.\<close> Floating point (no IEEE library is available), inline assembly
  (\<^verbatim>\<open>nativecpuimpl.cpp\<close>), the conversion of instructions from the Zydis decoder, host system calls,
  the ELF reader, which casts mapped files to structures, the graphical profile viewer; of the kernel
  the directory tree, files of the host, sockets and devices, signals and shared memory: these system
  calls are the parameter \<open>other\<close> of the dispatcher, of which the theorems on the scheduler assume that
  they do not use the scheduler; loading the ELF files of a new program is the parameter \<open>load\<close>. What the virtual machine does
  between two visits to the scheduler is the relation \<open>executes\<close>, with what \<^verbatim>\<open>vm.cpp\<close> promises of a
  thread's clock and requests. Allocation failures of the host are left out.
\<close>

end
